(* ===== verification/Go_Prelude.thy ===== *)
theory Go_Prelude
  imports Main "HOL-Library.Word" "HOL-Library.Signed_Division"
begin

text \<open>
  Shared vocabulary of the development: the Go types the sources use and the generic facts the
  component theories rest on.

  \<^item> \<open>uint64\<close> and its named variants (slot, epoch, gwei, validator and builder index) are
    \<open>64 word\<close>: \<open>+\<close>, \<open>-\<close>, \<open>*\<close> wrap, \<open><\<close> and \<open>\<le>\<close> are unsigned.
  \<^item> \<open>int64\<close> and \<open>time.Duration\<close> are \<open>int\<close> with the wrap-around of an arithmetic
    operation written out by \<open>swrap64\<close>.
  \<^item> \<open>time.Time\<close> is an \<open>int\<close>, nanoseconds on one fixed time line.
  \<^item> a Go map is \<open>'k \<rightharpoonup> 'v\<close>; a loop \<open>for k := range m\<close> visits the keys in an order the
    language leaves open, so a loop whose result may depend on it takes that order as a list
    (\<open>range_order\<close>), and a loop that only deletes is \<open>range_delete\<close>.
\<close>

type_synonym u64 = "64 word"
type_synonym u32 = "32 word"
type_synonym u8 = "8 word"
type_synonym slot = u64
type_synonym epoch = u64
type_synonym gwei = u64
type_synonym i64 = int
type_synonym duration = int
type_synonym gotime = int

named_theorems go_arith \<open>facts that reduce wrapped and clamped arithmetic\<close>
named_theorems go_map \<open>facts about maps updated and pruned by the sources\<close>

subsection \<open>Integers\<close>

definition max_u64 :: u64 where
  "max_u64 = 18446744073709551615"

definition min_i64 :: int where
  "min_i64 = - 9223372036854775808"

definition max_i64 :: int where
  "max_i64 = 9223372036854775807"

definition is_i64 :: "int \<Rightarrow> bool" where
  "is_i64 x \<longleftrightarrow> min_i64 \<le> x \<and> x \<le> max_i64"

text \<open>The value of an \<open>int64\<close> expression whose mathematical value is \<open>x\<close>.\<close>

definition swrap64 :: "int \<Rightarrow> int" where
  "swrap64 x = (x + 9223372036854775808) mod 18446744073709551616 - 9223372036854775808"

text \<open>The conversions \<open>int64(u)\<close> and \<open>uint64(i)\<close>.\<close>

definition i64_of_u64 :: "u64 \<Rightarrow> int" where
  "i64_of_u64 w = swrap64 (uint w)"

definition u64_of_i64 :: "int \<Rightarrow> u64" where
  "u64_of_i64 i = word_of_int i"

subsection \<open>Time and durations\<close>

definition nanos_per_ms :: int where
  "nanos_per_ms = 1000000"

definition nanos_per_s :: int where
  "nanos_per_s = 1000000000"

text \<open>\<open>t.Add(d)\<close>, and \<open>t.Sub(u)\<close>, which saturates at the range of a duration.\<close>

definition time_add :: "gotime \<Rightarrow> duration \<Rightarrow> gotime" where
  "time_add t d = t + d"

definition time_sub :: "gotime \<Rightarrow> gotime \<Rightarrow> duration" where
  "time_sub t u = max min_i64 (min max_i64 (t - u))"

text \<open>\<open>time.Duration(a) * b\<close>.\<close>

definition dur_mul :: "int \<Rightarrow> int \<Rightarrow> duration" where
  "dur_mul a b = swrap64 (a * b)"

text \<open>\<open>d.Milliseconds()\<close> truncates towards zero.\<close>

definition dur_ms :: "duration \<Rightarrow> i64" where
  "dur_ms d = d sdiv nanos_per_ms"

subsection \<open>Maps\<close>

text \<open>\<open>for k, v := range m { if p(k, v) { delete(m, k) } }\<close>\<close>

definition range_delete :: "('k \<Rightarrow> 'v \<Rightarrow> bool) \<Rightarrow> ('k \<rightharpoonup> 'v) \<Rightarrow> ('k \<rightharpoonup> 'v)" where
  "range_delete p m = (\<lambda>k. case m k of None \<Rightarrow> None | Some v \<Rightarrow> if p k v then None else Some v)"

text \<open>An order in which \<open>range m\<close> may visit the keys of \<open>m\<close>.\<close>

definition range_order :: "'k list \<Rightarrow> ('k \<rightharpoonup> 'v) \<Rightarrow> bool" where
  "range_order ks m \<longleftrightarrow> distinct ks \<and> set ks = dom m"

text \<open>The deleting loop itself, one key at a time, in the order it visits them.\<close>

fun range_delete_loop :: "('k \<Rightarrow> 'v \<Rightarrow> bool) \<Rightarrow> 'k list \<Rightarrow> ('k \<rightharpoonup> 'v) \<Rightarrow> ('k \<rightharpoonup> 'v)" where
  "range_delete_loop p [] m = m"
| "range_delete_loop p (k # ks) m =
     range_delete_loop p ks
       (case m k of None \<Rightarrow> m | Some v \<Rightarrow> if p k v then m(k := None) else m)"

subsection \<open>Facts on integers\<close>

lemma swrap64_id [go_arith]: "is_i64 x \<Longrightarrow> swrap64 x = x"
  by (simp add: is_i64_def swrap64_def min_i64_def max_i64_def)

lemma swrap64_range [simp]: "is_i64 (swrap64 x)"
proof -
  have "0 \<le> (x + 9223372036854775808) mod 18446744073709551616"
    and "(x + 9223372036854775808) mod 18446744073709551616 < 18446744073709551616"
    by simp_all
  then show ?thesis
    unfolding is_i64_def swrap64_def min_i64_def max_i64_def by linarith
qed

lemma swrap64_cong: "x mod 18446744073709551616 = y mod 18446744073709551616 \<Longrightarrow> swrap64 x = swrap64 y"
  unfolding swrap64_def by (simp add: mod_add_cong)

lemma swrap64_mod: "swrap64 x mod 18446744073709551616 = x mod 18446744073709551616"
proof -
  have "swrap64 x mod 18446744073709551616 =
      (x + 9223372036854775808 - 9223372036854775808) mod 18446744073709551616"
    unfolding swrap64_def by (rule mod_diff_left_eq)
  then show ?thesis by simp
qed

text \<open>Intermediate wraps do not matter: only the outermost one does.\<close>

lemma swrap64_add_left [simp]: "swrap64 (swrap64 x + y) = swrap64 (x + y)"
  by (rule swrap64_cong, rule mod_add_cong) (simp_all add: swrap64_mod)

lemma swrap64_diff_left [simp]: "swrap64 (swrap64 x - y) = swrap64 (x - y)"
  using swrap64_add_left [of x "- y"] by simp

lemma swrap64_add_conv [simp]: "swrap64 (x + i64_of_u64 w) = swrap64 (x + uint w)"
  unfolding i64_of_u64_def by (rule swrap64_cong, rule mod_add_cong) (simp_all add: swrap64_mod)

lemma swrap64_diff_conv [simp]: "swrap64 (x - i64_of_u64 w) = swrap64 (x - uint w)"
  unfolding i64_of_u64_def by (rule swrap64_cong, rule mod_diff_cong) (simp_all add: swrap64_mod)

lemma is_i64_0 [simp]: "is_i64 0"
  by (simp add: is_i64_def min_i64_def max_i64_def)

lemma time_sub_range [simp]: "is_i64 (time_sub t u)"
  by (simp add: time_sub_def is_i64_def min_i64_def max_i64_def)

lemma time_sub_exact [go_arith]: "is_i64 (t - u) \<Longrightarrow> time_sub t u = t - u"
  by (simp add: time_sub_def is_i64_def)

lemma dur_mul_exact [go_arith]: "is_i64 (a * b) \<Longrightarrow> dur_mul a b = a * b"
  by (simp add: dur_mul_def swrap64_id)

text \<open>Division truncates towards zero, which is flooring on non-negative numbers.\<close>

lemma sdiv_nonneg [go_arith]: "0 \<le> a \<Longrightarrow> 0 < b \<Longrightarrow> (a :: int) sdiv b = a div b"
  by (cases "a = 0") (simp_all add: signed_divide_int_def)

lemma i64_of_u64_small [go_arith]: "uint s \<le> max_i64 \<Longrightarrow> i64_of_u64 s = uint s"
proof -
  assume "uint s \<le> max_i64"
  moreover have "0 \<le> uint s" by simp
  ultimately have "is_i64 (uint s)" unfolding is_i64_def min_i64_def by linarith
  then show ?thesis by (simp add: i64_of_u64_def swrap64_id)
qed

lemma uint_max_u64 [simp]: "uint max_u64 = 18446744073709551615"
  by (simp add: max_u64_def)

lemma unat_max_u64 [simp]: "unat max_u64 = 18446744073709551615"
  by (simp add: max_u64_def)

lemma max_u64_top [simp]: "x \<le> max_u64"
proof -
  have "uint x < 2 ^ 64" using uint_bounded [of x] by simp
  then show ?thesis by (simp add: word_le_def)
qed

lemma unat_le_max_u64: "unat (x :: u64) \<le> 18446744073709551615"
  using max_u64_top [of x] by (simp add: word_le_nat_alt del: max_u64_top)

subsection \<open>Facts on maps\<close>

lemma range_delete_None [go_map, simp]: "m k = None \<Longrightarrow> range_delete p m k = None"
  by (simp add: range_delete_def)

lemma range_delete_Some_iff [go_map]:
  "range_delete p m k = Some v \<longleftrightarrow> m k = Some v \<and> \<not> p k v"
  by (auto simp: range_delete_def split: option.splits)

lemma range_delete_eq_None_iff [go_map]:
  "range_delete p m k = None \<longleftrightarrow> (\<forall>v. m k = Some v \<longrightarrow> p k v)"
  by (auto simp: range_delete_def split: option.splits)

lemma dom_range_delete [go_map]: "dom (range_delete p m) = {k \<in> dom m. \<not> p k (the (m k))}"
  by (auto simp: range_delete_def split: option.splits if_splits)

lemma range_delete_idem [simp]: "range_delete p (range_delete p m) = range_delete p m"
  by (rule ext) (simp add: range_delete_def split: option.split)

lemma range_delete_loop_notin: "k \<notin> set ks \<Longrightarrow> range_delete_loop p ks m k = m k"
  by (induction ks arbitrary: m) (auto split: option.splits)

lemma range_delete_loop_in:
  "k \<in> set ks \<Longrightarrow> range_delete_loop p ks m k = range_delete p m k"
proof (induction ks arbitrary: m)
  case Nil
  then show ?case by simp
next
  case (Cons a ks)
  let ?m' = "case m a of None \<Rightarrow> m | Some v \<Rightarrow> if p a v then m(a := None) else m"
  have eq: "range_delete p ?m' k = range_delete p m k"
    by (auto simp: range_delete_def split: option.splits)
  show ?case
  proof (cases "k \<in> set ks")
    case True
    then show ?thesis using Cons.IH [OF True, of ?m'] eq by simp
  next
    case False
    then have "k = a" using Cons.prems by simp
    with False show ?thesis
      by (auto simp: range_delete_loop_notin range_delete_def split: option.splits)
  qed
qed

text \<open>Whatever order the loop takes, it computes \<open>range_delete\<close>.\<close>

lemma range_delete_loop_eq:
  assumes "range_order ks m"
  shows "range_delete_loop p ks m = range_delete p m"
proof (rule ext)
  fix k
  show "range_delete_loop p ks m k = range_delete p m k"
  proof (cases "k \<in> set ks")
    case True
    then show ?thesis by (rule range_delete_loop_in)
  next
    case False
    then have "m k = None" using assms by (auto simp: range_order_def)
    with False show ?thesis by (simp add: range_delete_loop_notin)
  qed
qed

lemma range_orderD: "range_order ks m \<Longrightarrow> k \<in> set ks \<longleftrightarrow> (\<exists>v. m k = Some v)"
  by (auto simp: range_order_def)

lemma range_order_finite: "range_order ks m \<Longrightarrow> finite (dom m)"
  by (metis List.finite_set range_order_def)

lemma range_order_length: "range_order ks m \<Longrightarrow> length ks = card (dom m)"
  by (metis distinct_card range_order_def)

lemma range_order_exists: "finite (dom m) \<Longrightarrow> \<exists>ks. range_order ks m"
  by (metis finite_distinct_list range_order_def)

lemma finite_dom_range_delete [simp]: "finite (dom m) \<Longrightarrow> finite (dom (range_delete p m))"
  by (rule finite_subset [of _ "dom m"]) (auto simp: range_delete_def split: option.splits)

end
