(* ===== verification/Memstore.thy ===== *)
theory Memstore
  imports Go_Prelude "HOL-Library.AList"
begin

text \<open>
  The generic keyed store of \<open>src/pkg/memstore/store.go\<close>: a map with a write policy and a
  buffered write-behind persistence. Its maps are association lists with distinct keys, listed
  in the order a \<open>range\<close> loop visits them, and its dirty and deleted sets are lists without
  duplicates, so every operation computes; the theorems speak of \<open>map_of\<close> and \<open>set\<close> only
  and hold for every such order.

  The operations are the methods of \<open>Store\<close>, one definition each. \<open>Flush\<close> releases the
  store's lock around the call to the backend, so it is also given as the two locked sections
  \<open>flush_begin\<close> and \<open>requeue\<close>; \<open>ms_step\<close> interleaves them with the writers and with the
  flush loop \<open>run\<close>. The backend is the interface \<open>persistence_backend\<close>.
\<close>

subsection \<open>State\<close>

record ('k, 'v) store =
  entries :: "('k \<times> 'v) list"
  keepExisting :: bool
  attached :: bool
  dirty :: "'k list"
  deleted :: "'k list"
  maxPending :: int
  poke :: bool
  force :: bool
  running :: bool

definition newStore :: "bool \<Rightarrow> ('k, 'v) store" where
  "newStore ke = \<lparr>entries = [], keepExisting = ke, attached = False, dirty = [], deleted = [],
     maxPending = 256, poke = False, force = False, running = False\<rparr>"

definition New :: "('k, 'v) store" where
  "New = newStore False"

definition NewKeepExisting :: "('k, 'v) store" where
  "NewKeepExisting = newStore True"

subsection \<open>Writers and readers\<close>

definition notify :: "nat \<Rightarrow> ('k, 'v) store \<Rightarrow> ('k, 'v) store" where
  "notify pending s =
     (if pending = 0 then s
      else let s' = s\<lparr>poke := True\<rparr>
           in if maxPending s \<le> int pending then s'\<lparr>force := True\<rparr> else s')"

definition pending_count :: "('k, 'v) store \<Rightarrow> nat" where
  "pending_count s = length (dirty s) + length (deleted s)"

definition markDirtyLocked :: "'k \<Rightarrow> ('k, 'v) store \<Rightarrow> nat \<times> ('k, 'v) store" where
  "markDirtyLocked k s =
     (if \<not> attached s then (0, s)
      else let s' = s\<lparr>deleted := removeAll k (deleted s), dirty := List.insert k (dirty s)\<rparr>
           in (pending_count s', s'))"

definition markDeletedLocked :: "'k \<Rightarrow> ('k, 'v) store \<Rightarrow> nat \<times> ('k, 'v) store" where
  "markDeletedLocked k s =
     (if \<not> attached s then (0, s)
      else let s' = s\<lparr>dirty := removeAll k (dirty s), deleted := List.insert k (deleted s)\<rparr>
           in (pending_count s', s'))"

definition Put :: "'k \<Rightarrow> 'v \<Rightarrow> ('k, 'v) store \<Rightarrow> bool \<times> ('k, 'v) store" where
  "Put k v s =
     (if keepExisting s \<and> map_of (entries s) k \<noteq> None then (False, s)
      else let (p, s') = markDirtyLocked k (s\<lparr>entries := AList.update k v (entries s)\<rparr>)
           in (True, notify p s'))"

definition Get :: "'k \<Rightarrow> ('k, 'v) store \<Rightarrow> 'v option" where
  "Get k s = map_of (entries s) k"

definition Has :: "'k \<Rightarrow> ('k, 'v) store \<Rightarrow> bool" where
  "Has k s = (map_of (entries s) k \<noteq> None)"

definition Len :: "('k, 'v) store \<Rightarrow> nat" where
  "Len s = length (entries s)"

definition Values :: "('k, 'v) store \<Rightarrow> 'v list" where
  "Values s = map snd (entries s)"

definition Entries :: "('k, 'v) store \<Rightarrow> ('k \<times> 'v) list" where
  "Entries s = entries s"

definition Delete :: "'k \<Rightarrow> ('k, 'v) store \<Rightarrow> ('k, 'v) store" where
  "Delete k s =
     (if map_of (entries s) k = None then s
      else let (p, s') = markDeletedLocked k (s\<lparr>entries := AList.delete k (entries s)\<rparr>)
           in notify p s')"

text \<open>The loops of \<open>Prune\<close> and \<open>Clear\<close>; the counters are the loops' local variables.\<close>

fun prune_loop :: "('k \<Rightarrow> bool) \<Rightarrow> 'k list \<Rightarrow> nat \<Rightarrow> nat \<Rightarrow> ('k, 'v) store
    \<Rightarrow> nat \<times> nat \<times> ('k, 'v) store" where
  "prune_loop drp [] pruned pending s = (pruned, pending, s)"
| "prune_loop drp (k # ks) pruned pending s =
     (if \<not> drp k then prune_loop drp ks pruned pending s
      else let (p, s') = markDeletedLocked k (s\<lparr>entries := AList.delete k (entries s)\<rparr>)
           in prune_loop drp ks (Suc pruned) p s')"

definition Prune :: "('k \<Rightarrow> bool) \<Rightarrow> ('k, 'v) store \<Rightarrow> nat \<times> ('k, 'v) store" where
  "Prune drp s =
     (let (pruned, pending, s') = prune_loop drp (map fst (entries s)) 0 0 s
      in (pruned, notify pending s'))"

fun clear_loop :: "'k list \<Rightarrow> nat \<Rightarrow> ('k, 'v) store \<Rightarrow> nat \<times> ('k, 'v) store" where
  "clear_loop [] pending s = (pending, s)"
| "clear_loop (k # ks) pending s =
     (let (p, s') = markDeletedLocked k s in clear_loop ks p s')"

definition Clear :: "('k, 'v) store \<Rightarrow> ('k, 'v) store" where
  "Clear s =
     (let (pending, s') = clear_loop (map fst (entries s)) 0 s
      in notify pending (s'\<lparr>entries := []\<rparr>))"

subsection \<open>Persistence\<close>

text \<open>One flush's work: what is sent to the backend, and the snapshots kept for a retry.\<close>

record ('k, 'v) batch =
  upserts :: "('k \<times> 'v) list"
  deletes :: "'k list"
  dirtySnap :: "'k list"
  deletedSnap :: "'k list"

definition flush_begin :: "('k, 'v) store \<Rightarrow> ('k, 'v) batch option \<times> ('k, 'v) store" where
  "flush_begin s =
     (if \<not> attached s \<or> (dirty s = [] \<and> deleted s = []) then (None, s)
      else (Some \<lparr>upserts = List.map_filter
                      (\<lambda>k. map_option (\<lambda>v. (k, v)) (map_of (entries s) k)) (dirty s),
                   deletes = deleted s, dirtySnap = dirty s, deletedSnap = deleted s\<rparr>,
            s\<lparr>dirty := [], deleted := []\<rparr>))"

definition requeue :: "'k list \<Rightarrow> 'k list \<Rightarrow> ('k, 'v) store \<Rightarrow> ('k, 'v) store" where
  "requeue dsnap xsnap s =
     (let s1 = s\<lparr>dirty := fold (\<lambda>k d. if k \<in> set (deleted s) then d else List.insert k d) dsnap (dirty s)\<rparr>;
          s2 = s1\<lparr>deleted := fold (\<lambda>k x. if k \<in> set (dirty s1) then x else List.insert k x) xsnap (deleted s1)\<rparr>
      in notify (pending_count s2) s2)"

definition Flush :: "('db \<Rightarrow> ('k \<times> 'v) list \<Rightarrow> 'k list \<Rightarrow> 'e + 'db) \<Rightarrow> ('k, 'v) store \<Rightarrow> 'db
    \<Rightarrow> ('e + unit) \<times> ('k, 'v) store \<times> 'db" where
  "Flush persist s d =
     (case flush_begin s of
        (None, s') \<Rightarrow> (Inr (), s', d)
      | (Some b, s') \<Rightarrow>
          (case persist d (upserts b) (deletes b) of
             Inl e \<Rightarrow> (Inl e, requeue (dirtySnap b) (deletedSnap b) s', d)
           | Inr d' \<Rightarrow> (Inr (), s', d')))"

text \<open>
  \<open>SetPersistence\<close> holds the lock twice: to attach and mark what was written before, and,
  after \<open>Load\<close>, to merge the loaded entries under the existing ones. A failed load merges
  nothing.
\<close>

definition attach_begin :: "('k, 'v) store \<Rightarrow> ('k, 'v) store" where
  "attach_begin s =
     s\<lparr>attached := True, dirty := fold List.insert (map fst (entries s)) (dirty s)\<rparr>"

definition attach_end :: "('k \<times> 'v) list \<Rightarrow> ('k, 'v) store \<Rightarrow> ('k, 'v) store" where
  "attach_end loaded s =
     (let s' = s\<lparr>entries := fold (\<lambda>(k, v) es. if map_of es k = None then AList.update k v es else es)
                   loaded (entries s),
                 running := True\<rparr>
      in notify (pending_count s') s')"

definition SetPersistence :: "('db \<Rightarrow> 'e + ('k \<times> 'v) list) \<Rightarrow> 'db \<Rightarrow> ('k, 'v) store \<Rightarrow> ('k, 'v) store" where
  "SetPersistence load d s =
     (if attached s then s
      else attach_end (case load d of Inl e \<Rightarrow> [] | Inr l \<Rightarrow> l) (attach_begin s))"

definition Stop :: "('db \<Rightarrow> ('k \<times> 'v) list \<Rightarrow> 'k list \<Rightarrow> 'e + 'db) \<Rightarrow> ('k, 'v) store \<Rightarrow> 'db
    \<Rightarrow> ('k, 'v) store \<times> 'db" where
  "Stop persist s d =
     (if \<not> running s then (s, d)
      else let (r, s', d') = Flush persist (s\<lparr>running := False\<rparr>) d in (s', d'))"

subsection \<open>The store and its flush loop as a step relation\<close>

text \<open>The effect of a committed batch on the contents of the backing table.\<close>

definition apply_batch :: "('k \<times> 'v) list \<Rightarrow> 'k list \<Rightarrow> ('k \<rightharpoonup> 'v) \<Rightarrow> ('k \<rightharpoonup> 'v)" where
  "apply_batch u x m = (\<lambda>k. if k \<in> set x then None
     else case map_of u k of Some v \<Rightarrow> Some v | None \<Rightarrow> m k)"

datatype ('k, 'v) ms_op = OpPut 'k 'v | OpDelete 'k | OpPrune "'k \<Rightarrow> bool" | OpClear

fun run_op :: "('k, 'v) ms_op \<Rightarrow> ('k, 'v) store \<Rightarrow> ('k, 'v) store" where
  "run_op (OpPut k v) s = snd (Put k v s)"
| "run_op (OpDelete k) s = Delete k s"
| "run_op (OpPrune drp) s = snd (Prune drp s)"
| "run_op OpClear s = Clear s"

text \<open>Where the loop \<open>run\<close> stands: at its first select, in the debounce, about to call
  \<open>Flush\<close>, or inside \<open>PersistBatch\<close> with the lock released.\<close>

datatype ('k, 'v) phase = Idle | Debounce | Ready | InFlight "('k, 'v) batch"

record ('k, 'v) ms_sys =
  ms_store :: "('k, 'v) store"
  ms_phase :: "('k, 'v) phase"
  ms_table :: "'k \<rightharpoonup> 'v"

inductive loop_step :: "('k, 'v) ms_sys \<Rightarrow> ('k, 'v) ms_sys \<Rightarrow> bool" where
  wake_poke: "ms_phase y = Idle \<Longrightarrow> poke (ms_store y) \<Longrightarrow>
    loop_step y (y\<lparr>ms_store := (ms_store y)\<lparr>poke := False\<rparr>, ms_phase := Debounce\<rparr>)"
| wake_force: "ms_phase y = Idle \<Longrightarrow> force (ms_store y) \<Longrightarrow>
    loop_step y (y\<lparr>ms_store := (ms_store y)\<lparr>force := False\<rparr>, ms_phase := Ready\<rparr>)"
| debounce_force: "ms_phase y = Debounce \<Longrightarrow> force (ms_store y) \<Longrightarrow>
    loop_step y (y\<lparr>ms_store := (ms_store y)\<lparr>force := False\<rparr>, ms_phase := Ready\<rparr>)"
| debounce_timer: "ms_phase y = Debounce \<Longrightarrow> loop_step y (y\<lparr>ms_phase := Ready\<rparr>)"
| flush_nop: "ms_phase y = Ready \<Longrightarrow> flush_begin (ms_store y) = (None, s') \<Longrightarrow>
    loop_step y (y\<lparr>ms_store := s', ms_phase := Idle\<rparr>)"
| flush_start: "ms_phase y = Ready \<Longrightarrow> flush_begin (ms_store y) = (Some b, s') \<Longrightarrow>
    loop_step y (y\<lparr>ms_store := s', ms_phase := InFlight b\<rparr>)"
| flush_commit: "ms_phase y = InFlight b \<Longrightarrow>
    loop_step y (y\<lparr>ms_phase := Idle, ms_table := apply_batch (upserts b) (deletes b) (ms_table y)\<rparr>)"
| flush_fail: "ms_phase y = InFlight b \<Longrightarrow>
    loop_step y (y\<lparr>ms_store := requeue (dirtySnap b) (deletedSnap b) (ms_store y), ms_phase := Idle\<rparr>)"

inductive ms_step :: "('k, 'v) ms_sys \<Rightarrow> ('k, 'v) ms_sys \<Rightarrow> bool" where
  client: "ms_step y (y\<lparr>ms_store := run_op op (ms_store y)\<rparr>)"
| loop: "loop_step y z \<Longrightarrow> ms_step y z"

text \<open>Runs start from a store that was attached to a table with a successful load.\<close>

inductive ms_reach :: "('k, 'v) ms_sys \<Rightarrow> bool" where
  ms_start: "\<lbrakk>\<not> attached s; distinct (map fst (entries s)); dirty s = []; deleted s = []\<rbrakk> \<Longrightarrow>
    ms_reach \<lparr>ms_store = attach_end l (attach_begin s), ms_phase = Idle, ms_table = map_of l\<rparr>"
| ms_next: "ms_reach y \<Longrightarrow> ms_step y z \<Longrightarrow> ms_reach z"

subsection \<open>Well-formedness and synchrony\<close>

definition store_ok :: "('k, 'v) store \<Rightarrow> bool" where
  "store_ok s \<longleftrightarrow> distinct (map fst (entries s)) \<and> distinct (dirty s) \<and> distinct (deleted s) \<and>
     set (dirty s) \<inter> set (deleted s) = {} \<and>
     set (dirty s) \<subseteq> dom (map_of (entries s)) \<and>
     set (deleted s) \<inter> dom (map_of (entries s)) = {} \<and>
     (\<not> attached s \<longrightarrow> dirty s = [] \<and> deleted s = [])"

definition synced :: "('k, 'v) store \<Rightarrow> ('k \<rightharpoonup> 'v) \<Rightarrow> bool" where
  "synced s m \<longleftrightarrow>
     (\<forall>k. k \<notin> set (dirty s) \<longrightarrow> k \<notin> set (deleted s) \<longrightarrow> m k = map_of (entries s) k)"

definition batch_ok :: "('k, 'v) batch \<Rightarrow> bool" where
  "batch_ok b \<longleftrightarrow> distinct (map fst (upserts b)) \<and> set (dirtySnap b) = fst ` set (upserts b) \<and>
     deletes b = deletedSnap b \<and> distinct (deletes b) \<and> set (dirtySnap b) \<inter> set (deletedSnap b) = {}"

lemma notify_simps [simp]:
  "entries (notify p s) = entries s" "keepExisting (notify p s) = keepExisting s"
  "attached (notify p s) = attached s" "dirty (notify p s) = dirty s"
  "deleted (notify p s) = deleted s" "running (notify p s) = running s"
  "pending_count (notify p s) = pending_count s"
  by (simp_all add: notify_def Let_def pending_count_def)

lemma notify_poke [simp]: "poke (notify p s) \<longleftrightarrow> poke s \<or> p \<noteq> 0"
  by (simp add: notify_def Let_def)

lemma notify_0 [simp]: "notify 0 s = s"
  by (simp add: notify_def)

lemma store_ok_notify [simp]: "store_ok (notify p s) = store_ok s"
  by (simp add: store_ok_def)

lemma synced_notify [simp]: "synced (notify p s) m = synced s m"
  by (simp add: synced_def)

lemma map_of_update [simp]: "map_of (AList.update k v xs) = (map_of xs)(k \<mapsto> v)"
  by (rule ext) (simp add: update_conv')

lemma map_of_delete [simp]: "map_of (AList.delete k xs) = (map_of xs)(k := None)"
  by (rule ext) (simp add: delete_conv')

lemma markDirtyLocked_eq:
  "markDirtyLocked k s = (if attached s
     then (length (List.insert k (dirty s)) + length (removeAll k (deleted s)),
           s\<lparr>deleted := removeAll k (deleted s), dirty := List.insert k (dirty s)\<rparr>)
     else (0, s))"
  by (simp add: markDirtyLocked_def Let_def pending_count_def)

lemma markDeletedLocked_eq:
  "markDeletedLocked k s = (if attached s
     then (length (removeAll k (dirty s)) + length (List.insert k (deleted s)),
           s\<lparr>dirty := removeAll k (dirty s), deleted := List.insert k (deleted s)\<rparr>)
     else (0, s))"
  by (simp add: markDeletedLocked_def Let_def pending_count_def)

lemma insert_not_Nil [simp]: "List.insert k xs \<noteq> []"
  by (auto simp: List.insert_def)

text \<open>Writing and removing one key, whatever the policy.\<close>

lemma put_key_ok:
  assumes "store_ok s"
  shows "store_ok (snd (markDirtyLocked k (s\<lparr>entries := AList.update k v (entries s)\<rparr>)))"
  using assms unfolding store_ok_def markDirtyLocked_eq
  by (auto simp: distinct_update distinct_removeAll)

lemma put_key_synced:
  assumes "attached s" "synced s m"
  shows "synced (snd (markDirtyLocked k (s\<lparr>entries := AList.update k v (entries s)\<rparr>))) m"
  using assms unfolding synced_def markDirtyLocked_eq by auto

lemma delete_key_ok:
  assumes "store_ok s"
  shows "store_ok (snd (markDeletedLocked k (s\<lparr>entries := AList.delete k (entries s)\<rparr>)))"
  using assms unfolding store_ok_def markDeletedLocked_eq
  by (auto simp: distinct_delete distinct_removeAll)

lemma delete_key_synced:
  assumes "attached s" "synced s m"
  shows "synced (snd (markDeletedLocked k (s\<lparr>entries := AList.delete k (entries s)\<rparr>))) m"
  using assms unfolding synced_def markDeletedLocked_eq by auto

subsection \<open>Every operation keeps the store well formed and in step with the table\<close>

lemma mark_attached [simp]:
  "attached (snd (markDirtyLocked k s)) = attached s"
  "attached (snd (markDeletedLocked k s)) = attached s"
  by (simp_all add: markDirtyLocked_eq markDeletedLocked_eq)

lemma Put_ok: "store_ok s \<Longrightarrow> store_ok (snd (Put k v s))"
  using put_key_ok [of s k v] by (auto simp: Put_def split: prod.splits)

lemma Put_synced: "attached s \<Longrightarrow> synced s m \<Longrightarrow> synced (snd (Put k v s)) m"
  using put_key_synced [of s m k v] by (auto simp: Put_def split: prod.splits)

lemma Delete_ok: "store_ok s \<Longrightarrow> store_ok (Delete k s)"
  using delete_key_ok [of s k] by (auto simp: Delete_def split: prod.splits)

lemma Delete_synced: "attached s \<Longrightarrow> synced s m \<Longrightarrow> synced (Delete k s) m"
  using delete_key_synced [of s m k] by (auto simp: Delete_def split: prod.splits)

text \<open>One turn of the loops, with the pairs taken apart.\<close>

definition drop_key :: "'k \<Rightarrow> ('k, 'v) store \<Rightarrow> nat \<times> ('k, 'v) store" where
  "drop_key k s = markDeletedLocked k (s\<lparr>entries := AList.delete k (entries s)\<rparr>)"

lemma prune_loop_Cons:
  "prune_loop drp (k # ks) n p s =
     (if drp k then prune_loop drp ks (Suc n) (fst (drop_key k s)) (snd (drop_key k s))
      else prune_loop drp ks n p s)"
  by (simp add: drop_key_def case_prod_beta)

lemma clear_loop_Cons:
  "clear_loop (k # ks) p s =
     clear_loop ks (fst (markDeletedLocked k s)) (snd (markDeletedLocked k s))"
  by (simp add: case_prod_beta)

declare prune_loop.simps(2) [simp del] clear_loop.simps(2) [simp del]
declare prune_loop_Cons [simp] clear_loop_Cons [simp]

lemma drop_key_ok: "store_ok s \<Longrightarrow> store_ok (snd (drop_key k s))"
  unfolding drop_key_def by (rule delete_key_ok)

lemma drop_key_synced: "attached s \<Longrightarrow> synced s m \<Longrightarrow> synced (snd (drop_key k s)) m"
  unfolding drop_key_def by (rule delete_key_synced)

lemma drop_key_attached [simp]: "attached (snd (drop_key k s)) = attached s"
  by (simp add: drop_key_def)

lemma prune_loop_ok: "store_ok s \<Longrightarrow> store_ok (snd (snd (prune_loop drp ks n p s)))"
  by (induction ks arbitrary: n p s) (auto intro: drop_key_ok)

lemma prune_loop_synced:
  "attached s \<Longrightarrow> synced s m \<Longrightarrow> synced (snd (snd (prune_loop drp ks n p s))) m"
  by (induction ks arbitrary: n p s) (auto simp: drop_key_synced)

lemma Prune_ok: "store_ok s \<Longrightarrow> store_ok (snd (Prune drp s))"
  using prune_loop_ok [of s drp "map fst (entries s)" 0 0]
  by (auto simp: Prune_def split: prod.splits)

lemma Prune_synced: "attached s \<Longrightarrow> synced s m \<Longrightarrow> synced (snd (Prune drp s)) m"
  using prune_loop_synced [of s m drp "map fst (entries s)" 0 0]
  by (auto simp: Prune_def split: prod.splits)

lemma clear_loop_detached [simp]: "\<not> attached s \<Longrightarrow> snd (clear_loop ks p s) = s"
  by (induction ks arbitrary: p) (auto simp: markDeletedLocked_eq)

lemma clear_loop_attached_flag [simp]: "attached (snd (clear_loop ks p s)) = attached s"
  by (induction ks arbitrary: p s) auto

lemma clear_loop_sets:
  "attached s \<Longrightarrow> set (dirty (snd (clear_loop ks p s))) = set (dirty s) - set ks \<and>
     set (deleted (snd (clear_loop ks p s))) = set (deleted s) \<union> set ks"
  by (induction ks arbitrary: p s) (auto simp: markDeletedLocked_eq)

lemma clear_loop_distinct:
  "distinct (dirty s) \<and> distinct (deleted s) \<Longrightarrow>
     distinct (dirty (snd (clear_loop ks p s))) \<and> distinct (deleted (snd (clear_loop ks p s)))"
  by (induction ks arbitrary: p s) (simp_all add: markDeletedLocked_eq distinct_removeAll)

lemma dom_entries: "dom (map_of (entries s)) = set (map fst (entries s))"
  by (simp add: dom_map_of_conv_image_fst)

lemma Clear_ok_synced:
  assumes "store_ok s"
  shows "store_ok (Clear s)" and "attached s \<Longrightarrow> synced s m \<Longrightarrow> synced (Clear s) m"
proof -
  let ?ks = "map fst (entries s)"
  obtain p s' where cl: "clear_loop ?ks 0 s = (p, s')" by (cases "clear_loop ?ks 0 s")
  then have C: "Clear s = notify p (s'\<lparr>entries := []\<rparr>)" and s': "s' = snd (clear_loop ?ks 0 s)"
    by (simp_all add: Clear_def)
  have dsub: "set (dirty s) \<subseteq> set ?ks"
    using assms unfolding store_ok_def dom_entries by blast
  show "store_ok (Clear s)"
  proof (cases "attached s")
    case True
    with assms dsub show ?thesis
      unfolding C s' store_ok_def
      using clear_loop_sets [OF True, of ?ks 0] clear_loop_distinct [of s ?ks 0] by auto
  next
    case False
    with assms show ?thesis unfolding C s' store_ok_def by simp
  qed
  show "synced (Clear s) m" if "attached s" "synced s m"
    using that(2) dsub clear_loop_sets [OF that(1), of ?ks 0]
    unfolding C s' synced_def by (auto simp: map_of_eq_None_iff)
qed

lemmas store_ok_ops = Put_ok Delete_ok Prune_ok Clear_ok_synced(1)
lemmas synced_ops = Put_synced Delete_synced Prune_synced Clear_ok_synced(2)

lemma run_op_ok: "store_ok s \<Longrightarrow> store_ok (run_op op s)"
  by (cases op) (auto intro: store_ok_ops)

lemma run_op_synced: "store_ok s \<Longrightarrow> attached s \<Longrightarrow> synced s m \<Longrightarrow> synced (run_op op s) m"
  by (cases op) (auto intro: synced_ops)

lemma prune_loop_attached: "attached (snd (snd (prune_loop drp ks n p s))) = attached s"
  by (induction ks arbitrary: n p s) auto

lemma run_op_attached [simp]: "attached (run_op op s) = attached s"
proof (cases op)
  case (OpPrune drp)
  then show ?thesis
    using prune_loop_attached [of drp "map fst (entries s)" 0 0 s]
    by (auto simp: Prune_def split: prod.splits)
next
  case OpClear
  then show ?thesis
    using clear_loop_attached_flag [of "map fst (entries s)" 0 s]
    by (auto simp: Clear_def simp del: clear_loop_attached_flag split: prod.splits)
qed (auto simp: Put_def Delete_def markDirtyLocked_eq markDeletedLocked_eq)

subsection \<open>Flushing\<close>

lemma map_of_filter_entries:
  "map_of (List.map_filter (\<lambda>k. map_option (\<lambda>v. (k, v)) (f k)) ks) k =
     (if k \<in> set ks then f k else None)"
  by (induction ks) (auto simp: map_filter_simps split: option.splits)

lemma fst_filter_entries:
  "set ks \<subseteq> dom f \<Longrightarrow> map fst (List.map_filter (\<lambda>k. map_option (\<lambda>v. (k, v)) (f k)) ks) = ks"
  by (induction ks) (auto simp: map_filter_simps)

lemma flush_begin_None:
  "flush_begin s = (None, s') \<Longrightarrow> s' = s \<and> (attached s \<longrightarrow> dirty s = [] \<and> deleted s = [])"
  by (auto simp: flush_begin_def split: if_splits)

lemma flush_begin_Some:
  assumes "flush_begin s = (Some b, s')" "store_ok s"
  shows "s' = s\<lparr>dirty := [], deleted := []\<rparr>" "store_ok s'" "batch_ok b"
    and "synced s m \<Longrightarrow> synced s' (apply_batch (upserts b) (deletes b) m)"
proof -
  let ?u = "List.map_filter (\<lambda>k. map_option (\<lambda>v. (k, v)) (map_of (entries s) k)) (dirty s)"
  have b: "b = \<lparr>upserts = ?u, deletes = deleted s, dirtySnap = dirty s, deletedSnap = deleted s\<rparr>"
    and s': "s' = s\<lparr>dirty := [], deleted := []\<rparr>"
    using assms(1) by (auto simp: flush_begin_def split: if_splits)
  have fstu: "map fst ?u = dirty s"
    using assms(2) by (intro fst_filter_entries) (simp add: store_ok_def)
  show "s' = s\<lparr>dirty := [], deleted := []\<rparr>" by (rule s')
  show "store_ok s'" using assms(2) by (simp add: s' store_ok_def)
  show "batch_ok b"
    using assms(2) fstu unfolding b batch_ok_def store_ok_def by (simp flip: set_map)
  show "synced s' (apply_batch (upserts b) (deletes b) m)" if "synced s m"
    using assms(2) that unfolding b s' synced_def store_ok_def apply_batch_def
    by (auto simp: map_of_filter_entries split: option.splits)
qed

lemma requeue_fold_set:
  "set (fold (\<lambda>k d. if P k then d else List.insert k d) ks d) = set d \<union> {k \<in> set ks. \<not> P k}"
  by (induction ks arbitrary: d) auto

lemma requeue_fold_distinct:
  "distinct d \<Longrightarrow> distinct (fold (\<lambda>k d. if P k then d else List.insert k d) ks d)"
  by (induction ks arbitrary: d) auto

lemma requeue_fields [simp]:
  "entries (requeue a b s) = entries s" "attached (requeue a b s) = attached s"
  by (simp_all add: requeue_def Let_def)

lemma requeue_dirty: "set (dirty (requeue a b s)) = set (dirty s) \<union> (set a - set (deleted s))"
  by (auto simp: requeue_def Let_def requeue_fold_set)

lemma requeue_deleted:
  "set (deleted (requeue a b s)) = set (deleted s) \<union> (set b - set (dirty (requeue a b s)))"
  by (auto simp: requeue_def Let_def requeue_fold_set)

lemma requeue_distinct:
  "distinct (dirty s) \<Longrightarrow> distinct (deleted s) \<Longrightarrow>
     distinct (dirty (requeue a b s)) \<and> distinct (deleted (requeue a b s))"
  by (simp add: requeue_def Let_def requeue_fold_distinct)

text \<open>
  A failed batch: what it carried is pending again, unless a later write or deletion of the same
  key already replaced it.
\<close>

lemma requeue_ok_synced:
  assumes "store_ok s" "attached s" "batch_ok b"
    and sy: "synced s (apply_batch (upserts b) (deletes b) m)"
  shows "store_ok (requeue (dirtySnap b) (deletedSnap b) s)"
    and "synced (requeue (dirtySnap b) (deletedSnap b) s) m"
proof -
  let ?r = "requeue (dirtySnap b) (deletedSnap b) s"
  have snap: "k \<in> set (dirtySnap b) \<longleftrightarrow> (\<exists>v. map_of (upserts b) k = Some v)" for k
    using assms(3) unfolding batch_ok_def
    by (metis domIff dom_map_of_conv_image_fst not_Some_eq)
  have del: "k \<in> set (deletes b) \<longleftrightarrow> k \<in> set (deletedSnap b)"
    and disj: "\<not> (k \<in> set (dirtySnap b) \<and> k \<in> set (deletedSnap b))" for k
    using assms(3) by (auto simp: batch_ok_def)
  have eq: "map_of (entries s) k = apply_batch (upserts b) (deletes b) m k"
    if "k \<notin> set (dirty s)" "k \<notin> set (deleted s)" for k
    using sy that by (simp add: synced_def)
  have in_dom: "k \<in> dom (map_of (entries s))" if "k \<in> set (dirtySnap b)" "k \<notin> set (deleted s)" for k
  proof (cases "k \<in> set (dirty s)")
    case True
    then show ?thesis using assms(1) by (auto simp: store_ok_def)
  next
    case False
    with that eq [of k] snap [of k] del [of k] disj [of k] show ?thesis
      by (auto simp: apply_batch_def)
  qed
  have not_dom: "k \<notin> dom (map_of (entries s))" if "k \<in> set (deletedSnap b)" "k \<notin> set (dirty s)" for k
  proof (cases "k \<in> set (deleted s)")
    case True
    then show ?thesis using assms(1) by (auto simp: store_ok_def)
  next
    case False
    with that eq [of k] del [of k] show ?thesis by (auto simp: apply_batch_def)
  qed
  show "store_ok ?r"
    using assms(1,2) in_dom not_dom disj requeue_distinct [of s "dirtySnap b" "deletedSnap b"]
    unfolding store_ok_def requeue_deleted requeue_fields requeue_dirty by blast
  show "synced ?r m"
    unfolding synced_def requeue_deleted requeue_fields requeue_dirty
    using eq snap del by (auto simp: apply_batch_def split: option.splits)
qed

lemma requeue_poke: "poke (requeue a b s) \<or> pending_count (requeue a b s) = 0"
  by (auto simp: requeue_def Let_def)

subsection \<open>Wake-ups\<close>

lemma pending_count_0: "pending_count s = 0 \<longleftrightarrow> dirty s = [] \<and> deleted s = []"
  by (simp add: pending_count_def)

lemma prune_loop_pending:
  "attached s \<Longrightarrow> prune_loop drp ks n p s = (n', p', s') \<Longrightarrow> s' = s \<and> p' = p \<or> p' \<noteq> 0"
proof (induction ks arbitrary: n p s)
  case Nil
  then show ?case by simp
next
  case (Cons k ks)
  show ?case
  proof (cases "drp k")
    case True
    then have "prune_loop drp ks (Suc n) (fst (drop_key k s)) (snd (drop_key k s)) = (n', p', s')"
      using Cons.prems by simp
    then have "s' = snd (drop_key k s) \<and> p' = fst (drop_key k s) \<or> p' \<noteq> 0"
      using Cons.IH [of "snd (drop_key k s)"] Cons.prems(1) by simp
    moreover have "fst (drop_key k s) \<noteq> 0"
      using Cons.prems(1) by (simp add: drop_key_def markDeletedLocked_eq)
    ultimately show ?thesis by auto
  next
    case False
    then show ?thesis using Cons by simp
  qed
qed

lemma clear_loop_pending: "attached s \<Longrightarrow> ks \<noteq> [] \<Longrightarrow> fst (clear_loop ks p s) \<noteq> 0"
proof (induction ks arbitrary: p s)
  case Nil
  then show ?case by simp
next
  case (Cons k ks)
  then show ?case by (cases "ks = []") (simp_all add: markDeletedLocked_eq)
qed

text \<open>An operation on an attached store pokes the flush loop or changes nothing.\<close>

lemma run_op_poke:
  assumes "attached s"
  shows "poke (run_op op s) \<or> run_op op s = s"
proof (cases op)
  case (OpPut k v)
  then show ?thesis
    using assms by (auto simp: Put_def markDirtyLocked_eq)
next
  case (OpDelete k)
  then show ?thesis
    using assms by (auto simp: Delete_def markDeletedLocked_eq)
next
  case (OpPrune drp)
  obtain n p s' where pl: "prune_loop drp (map fst (entries s)) 0 0 s = (n, p, s')"
    by (metis prod_cases3)
  with OpPrune prune_loop_pending [OF assms pl] show ?thesis
    by (auto simp: Prune_def)
next
  case OpClear
  show ?thesis
  proof (cases "entries s = []")
    case True
    then show ?thesis using OpClear by (simp add: Clear_def)
  next
    case False
    then show ?thesis
      using OpClear clear_loop_pending [OF assms, of "map fst (entries s)" 0]
      by (auto simp: Clear_def case_prod_beta)
  qed
qed

subsection \<open>Attaching a table\<close>

lemma fold_insert_set: "set (fold List.insert ks d) = set ks \<union> set d"
  by (induction ks arbitrary: d) auto

lemma fold_insert_distinct: "distinct d \<Longrightarrow> distinct (fold List.insert ks d)"
  by (induction ks arbitrary: d) auto

lemma merge_loaded_map:
  "map_of (fold (\<lambda>(k, v) es. if map_of es k = None then AList.update k v es else es) l es)
     = map_of l ++ map_of es"
proof (induction l arbitrary: es)
  case Nil
  then show ?case by simp
next
  case (Cons a l)
  obtain k v where a: "a = (k, v)" by (cases a)
  show ?case
    unfolding a fold.simps comp_def Cons.IH
    by (rule ext) (auto simp: map_add_def Cons.IH split: option.splits)
qed

lemma merge_loaded_distinct:
  "distinct (map fst es) \<Longrightarrow>
     distinct (map fst (fold (\<lambda>(k, v) es. if map_of es k = None then AList.update k v es else es) l es))"
  by (induction l arbitrary: es) (auto simp: distinct_update)

lemma attach_end_fields [simp]:
  "map_of (entries (attach_end l s)) = map_of l ++ map_of (entries s)"
  "dirty (attach_end l s) = dirty s" "deleted (attach_end l s) = deleted s"
  "attached (attach_end l s) = attached s"
  by (simp_all add: attach_end_def Let_def merge_loaded_map)

lemma attach_ok_synced:
  assumes "\<not> attached s" "distinct (map fst (entries s))" "dirty s = []" "deleted s = []"
  shows "store_ok (attach_end l (attach_begin s))"
    and "synced (attach_end l (attach_begin s)) (map_of l)"
    and "poke (attach_end l (attach_begin s)) \<or> pending_count (attach_end l (attach_begin s)) = 0"
proof -
  have d: "set (dirty (attach_begin s)) = dom (map_of (entries s))" "distinct (dirty (attach_begin s))"
    "deleted (attach_begin s) = []" "entries (attach_begin s) = entries s" "attached (attach_begin s)"
    using assms(3,4)
    by (simp_all add: attach_begin_def fold_insert_set fold_insert_distinct dom_entries)
  have "distinct (map fst (entries (attach_end l (attach_begin s))))"
    using assms(2) d(4) by (simp add: attach_end_def Let_def merge_loaded_distinct)
  then show "store_ok (attach_end l (attach_begin s))"
    using d by (auto simp: store_ok_def)
  show "synced (attach_end l (attach_begin s)) (map_of l)"
    using d by (auto simp: synced_def map_add_def split: option.splits)
  show "poke (attach_end l (attach_begin s)) \<or> pending_count (attach_end l (attach_begin s)) = 0"
    by (auto simp: attach_end_def Let_def)
qed

subsection \<open>The invariant of the running store\<close>

definition wake_ok :: "('k, 'v) ms_sys \<Rightarrow> bool" where
  "wake_ok y \<longleftrightarrow> ms_phase y \<in> {Debounce, Ready} \<or> pending_count (ms_store y) = 0 \<or>
     poke (ms_store y) \<or> force (ms_store y)"

definition sys_ok :: "('k, 'v) ms_sys \<Rightarrow> bool" where
  "sys_ok y \<longleftrightarrow> store_ok (ms_store y) \<and> attached (ms_store y) \<and>
     (case ms_phase y of
        InFlight b \<Rightarrow> batch_ok b \<and> synced (ms_store y) (apply_batch (upserts b) (deletes b) (ms_table y))
      | _ \<Rightarrow> synced (ms_store y) (ms_table y))"

lemma token_ok [simp]:
  "store_ok (s\<lparr>poke := p\<rparr>) = store_ok s" "store_ok (s\<lparr>force := p\<rparr>) = store_ok s"
  "synced (s\<lparr>poke := p\<rparr>) m = synced s m" "synced (s\<lparr>force := p\<rparr>) m = synced s m"
  "pending_count (s\<lparr>poke := p\<rparr>) = pending_count s" "pending_count (s\<lparr>force := p\<rparr>) = pending_count s"
  by (simp_all add: store_ok_def synced_def pending_count_def)

lemma loop_step_ok: "loop_step y z \<Longrightarrow> sys_ok y \<Longrightarrow> sys_ok z"
proof (induction rule: loop_step.induct)
  case (flush_nop y s')
  then show ?case using flush_begin_None [of "ms_store y" s'] by (auto simp: sys_ok_def)
next
  case (flush_start y b s')
  then show ?case
    using flush_begin_Some [of "ms_store y" b s'] by (auto simp: sys_ok_def)
next
  case (flush_commit y b)
  then show ?case by (simp add: sys_ok_def)
next
  case (flush_fail y b)
  then show ?case
    using requeue_ok_synced [of "ms_store y" b "ms_table y"] by (simp add: sys_ok_def)
qed (auto simp: sys_ok_def)

lemma loop_step_wake: "loop_step y z \<Longrightarrow> sys_ok y \<Longrightarrow> wake_ok y \<Longrightarrow> wake_ok z"
proof (induction rule: loop_step.induct)
  case (flush_nop y s')
  then show ?case
    using flush_begin_None [of "ms_store y" s']
    by (auto simp: wake_ok_def sys_ok_def pending_count_0)
next
  case (flush_start y b s')
  then have "pending_count s' = 0"
    using flush_begin_Some(1) [of "ms_store y" b s'] by (simp add: sys_ok_def pending_count_def)
  then show ?case by (simp add: wake_ok_def)
next
  case (flush_commit y b)
  then show ?case by (simp add: wake_ok_def)
next
  case (flush_fail y b)
  show ?case
    using requeue_poke [of "dirtySnap b" "deletedSnap b" "ms_store y"] by (auto simp: wake_ok_def)
qed (simp_all add: wake_ok_def)

lemma client_step_ok:
  assumes "sys_ok y" "wake_ok y"
  shows "sys_ok (y\<lparr>ms_store := run_op op (ms_store y)\<rparr>) \<and> wake_ok (y\<lparr>ms_store := run_op op (ms_store y)\<rparr>)"
proof -
  have "poke (run_op op (ms_store y)) \<or> run_op op (ms_store y) = ms_store y"
    using assms by (intro run_op_poke) (simp add: sys_ok_def)
  with assms show ?thesis
    by (auto simp: sys_ok_def wake_ok_def run_op_ok run_op_synced split: phase.splits)
qed

lemma ms_step_ok: "ms_step y z \<Longrightarrow> sys_ok y \<and> wake_ok y \<Longrightarrow> sys_ok z \<and> wake_ok z"
  by (auto elim!: ms_step.cases dest: loop_step_ok loop_step_wake client_step_ok)

lemma ms_reach_ok: "ms_reach y \<Longrightarrow> sys_ok y \<and> wake_ok y"
proof (induction rule: ms_reach.induct)
  case (ms_start s l)
  note a = attach_ok_synced [OF ms_start, of l]
  have "attached (attach_begin s)" by (simp add: attach_begin_def)
  with a show ?case by (auto simp: sys_ok_def wake_ok_def)
next
  case (ms_next y z)
  then show ?case using ms_step_ok by blast
qed

text \<open>
  From any reachable state the steps of the flush loop alone, with a backend that commits, bring
  every pending change into the table.
\<close>

definition caught_up :: "('k, 'v) ms_sys \<Rightarrow> bool" where
  "caught_up y \<longleftrightarrow> ms_phase y = Idle \<and> pending_count (ms_store y) = 0 \<and>
     ms_table y = map_of (entries (ms_store y))"

definition can_catch_up :: "('k, 'v) ms_sys \<Rightarrow> bool" where
  "can_catch_up y \<longleftrightarrow>
     (\<exists>z. loop_step\<^sup>*\<^sup>* y z \<and> caught_up z \<and> entries (ms_store z) = entries (ms_store y))"

lemma can_catch_up_refl: "caught_up y \<Longrightarrow> can_catch_up y"
  by (auto simp: can_catch_up_def)

lemma can_catch_up_step:
  "loop_step y w \<Longrightarrow> can_catch_up w \<Longrightarrow> entries (ms_store w) = entries (ms_store y) \<Longrightarrow> can_catch_up y"
  unfolding can_catch_up_def by (metis converse_rtranclp_into_rtranclp)

lemma synced_quiet: "pending_count s = 0 \<Longrightarrow> synced s m \<Longrightarrow> m = map_of (entries s)"
  by (auto simp: pending_count_def synced_def)

lemma loop_from_Ready:
  assumes "sys_ok y" "ms_phase y = Ready"
  shows "can_catch_up y"
proof (cases "flush_begin (ms_store y)")
  case (Pair ob s')
  show ?thesis
  proof (cases ob)
    case None
    with Pair have fb: "flush_begin (ms_store y) = (None, s')" by simp
    note s' = flush_begin_None [OF fb]
    have "caught_up (y\<lparr>ms_store := s', ms_phase := Idle\<rparr>)"
      using assms s' synced_quiet [of "ms_store y" "ms_table y"]
      by (auto simp: caught_up_def sys_ok_def pending_count_0)
    then show ?thesis
      using can_catch_up_step [OF loop_step.flush_nop [OF assms(2) fb]] s'
      by (simp add: can_catch_up_refl)
  next
    case (Some b)
    with Pair have fb: "flush_begin (ms_store y) = (Some b, s')" by simp
    let ?w = "y\<lparr>ms_store := s', ms_phase := InFlight b\<rparr>"
    have ok: "store_ok (ms_store y)" "synced (ms_store y) (ms_table y)"
      using assms by (auto simp: sys_ok_def)
    note s' = flush_begin_Some [OF fb ok(1)]
    have "caught_up (?w\<lparr>ms_phase := Idle, ms_table := apply_batch (upserts b) (deletes b) (ms_table ?w)\<rparr>)"
      using s'(1) s'(4) [OF ok(2)] synced_quiet [of s'] by (simp add: caught_up_def pending_count_def)
    then have "can_catch_up ?w"
      using can_catch_up_step [OF loop_step.flush_commit [of ?w b]] by (simp add: can_catch_up_refl)
    then show ?thesis
      using can_catch_up_step [OF loop_step.flush_start [OF assms(2) fb]] s'(1) by simp
  qed
qed

lemma loop_from_Debounce:
  assumes "sys_ok y" "ms_phase y = Debounce"
  shows "can_catch_up y"
  using assms can_catch_up_step [OF loop_step.debounce_timer [OF assms(2)]]
    loop_from_Ready [of "y\<lparr>ms_phase := Ready\<rparr>"]
  by (simp add: sys_ok_def)

lemma loop_from_Idle:
  assumes "sys_ok y" "wake_ok y" "ms_phase y = Idle"
  shows "can_catch_up y"
proof -
  consider "pending_count (ms_store y) = 0" | "poke (ms_store y)" | "force (ms_store y)"
    using assms by (auto simp: wake_ok_def)
  then show ?thesis
  proof cases
    case 1
    then have "caught_up y"
      using assms synced_quiet [of "ms_store y" "ms_table y"] by (auto simp: caught_up_def sys_ok_def)
    then show ?thesis by (rule can_catch_up_refl)
  next
    case 2
    show ?thesis
      using can_catch_up_step [OF loop_step.wake_poke [OF assms(3) 2]] assms(1,3)
      by (simp add: loop_from_Debounce sys_ok_def)
  next
    case 3
    show ?thesis
      using can_catch_up_step [OF loop_step.wake_force [OF assms(3) 3]] assms(1,3)
      by (simp add: loop_from_Ready sys_ok_def)
  qed
qed

lemma loop_catches_up:
  assumes "sys_ok y" "wake_ok y"
  shows "can_catch_up y"
proof (cases "ms_phase y")
  case (InFlight b)
  note st = loop_step.flush_commit [OF InFlight]
  show ?thesis
    using can_catch_up_step [OF st] loop_step_ok [OF st] loop_step_wake [OF st] assms
    by (simp add: loop_from_Idle)
qed (use assms loop_from_Idle loop_from_Ready loop_from_Debounce in auto)

subsection \<open>The backend as an interface\<close>

text \<open>
  What \<open>Store\<close> relies on of its \<open>Persistence\<close>: \<open>Load\<close> returns the table's contents, and a
  \<open>PersistBatch\<close> without error applied the whole batch. The clients' facts are proved from these
  laws once.
\<close>

locale persistence_backend =
  fixes load :: "'db \<Rightarrow> 'e + ('k \<times> 'v) list"
    and persist :: "'db \<Rightarrow> ('k \<times> 'v) list \<Rightarrow> 'k list \<Rightarrow> 'e + 'db"
    and content :: "'db \<Rightarrow> 'k \<rightharpoonup> 'v"
    and db_ok :: "'db \<Rightarrow> bool"
  assumes load_content: "db_ok d \<Longrightarrow> load d = Inr l \<Longrightarrow> map_of l = content d"
    and persist_content: "db_ok d \<Longrightarrow> distinct (map fst u) \<Longrightarrow> set (map fst u) \<inter> set x = {} \<Longrightarrow>
      persist d u x = Inr d' \<Longrightarrow> content d' = apply_batch u x (content d) \<and> db_ok d'"
begin

lemma flush_commits:
  assumes "store_ok s" "attached s" "synced s (content d)" "db_ok d"
    and fl: "Flush persist s d = (Inr u, s', d')"
  shows "content d' = map_of (entries s)" "entries s' = entries s" "pending_count s' = 0" "db_ok d'"
proof -
  have "content d' = map_of (entries s) \<and> entries s' = entries s \<and> pending_count s' = 0 \<and> db_ok d'"
  proof (cases "flush_begin s")
    case (Pair ob s1)
    show ?thesis
    proof (cases ob)
      case None
      with fl Pair assms flush_begin_None [of s s1] synced_quiet [of s "content d"] show ?thesis
        by (auto simp: Flush_def pending_count_0)
    next
      case (Some b)
      with Pair have fb: "flush_begin s = (Some b, s1)" by simp
      note s1 = flush_begin_Some [OF fb assms(1)]
      have "persist d (upserts b) (deletes b) = Inr d'" "s' = s1"
        using fl Pair Some by (auto simp: Flush_def split: sum.splits)
      then have "content d' = apply_batch (upserts b) (deletes b) (content d)" "db_ok d'"
        using persist_content [OF assms(4), of "upserts b" "deletes b" d'] s1(3)
        by (auto simp: batch_ok_def)
      then show ?thesis
        using s1(1) s1(4) [OF assms(3)] synced_quiet [of s1] \<open>s' = s1\<close>
        by (simp add: pending_count_def)
    qed
  qed
  then show "content d' = map_of (entries s)" "entries s' = entries s" "pending_count s' = 0" "db_ok d'"
    by auto
qed

lemma flush_failure_keeps_pending:
  assumes "store_ok s" "Flush persist s d = (Inl e, s', d')"
  shows "d' = d" "entries s' = entries s" "set (dirty s') = set (dirty s)"
    "set (deleted s') = set (deleted s)" "poke s'"
proof -
  obtain b s1 where fb: "flush_begin s = (Some b, s1)" and d: "d' = d"
    and s': "s' = requeue (dirtySnap b) (deletedSnap b) s1"
    using assms(2) by (auto simp: Flush_def split: prod.splits option.splits sum.splits)
  have b: "dirtySnap b = dirty s" "deletedSnap b = deleted s"
    and ne: "dirty s \<noteq> [] \<or> deleted s \<noteq> []"
    using fb by (auto simp: flush_begin_def split: if_splits)
  have s1: "dirty s1 = []" "deleted s1 = []" "entries s1 = entries s"
    using flush_begin_Some(1) [OF fb assms(1)] by simp_all
  show "d' = d" by (rule d)
  show "entries s' = entries s" by (simp add: s' s1)
  show D: "set (dirty s') = set (dirty s)" by (simp add: s' requeue_dirty s1 b)
  have "set (deleted s') = set (deleted s) - set (dirty s)"
    using D by (simp add: s' requeue_deleted s1 b)
  then show X: "set (deleted s') = set (deleted s)"
    using assms(1) by (auto simp: store_ok_def)
  have "pending_count s' \<noteq> 0" using D X ne by (auto simp: pending_count_0)
  then show "poke s'" using requeue_poke [of "dirtySnap b" "deletedSnap b" s1] s' by auto
qed

lemma restart_recovers:
  assumes "store_ok s" "attached s" "synced s (content d)" "db_ok d"
    and "Flush persist s d = (Inr u, s', d')" "load d' = Inr l" "s0 = newStore ke"
  shows "map_of (entries (SetPersistence load d' s0)) = map_of (entries s)"
proof -
  have "map_of l = map_of (entries s)"
    using flush_commits [OF assms(1-5)] load_content [OF _ assms(6)] by simp
  then show ?thesis
    using assms(6,7) by (simp add: SetPersistence_def attach_begin_def newStore_def)
qed

end

subsection \<open>Properties\<close>


text \<open>
  C21: No change is lost and no wake-up is missed: from every reachable state the flush loop's own
  steps, once the backend commits, lead to an idle loop whose table equals the store's entries.
\<close>

theorem memstore_catches_up:
  assumes "ms_reach y"
  shows "\<exists>z. loop_step\<^sup>*\<^sup>* y z \<and> ms_phase z = Idle \<and> entries (ms_store z) = entries (ms_store y) \<and>
    ms_table z = map_of (entries (ms_store y))"
  using ms_reach_ok [OF assms] loop_catches_up [of y]
  by (auto simp: can_catch_up_def caught_up_def)

definition example_sys :: "(nat, nat) ms_sys" where
  "example_sys = \<lparr>ms_store = snd (Put 1 10 (attach_end [(2, 20)] (attach_begin New))),
     ms_phase = Idle, ms_table = [2 \<mapsto> 20]\<rparr>"

lemma example_reach: "ms_reach example_sys"
proof -
  let ?y = "\<lparr>ms_store = attach_end [(2, 20)] (attach_begin New), ms_phase = Idle,
     ms_table = map_of [(2::nat, 20::nat)]\<rparr>"
  have "ms_reach ?y" by (rule ms_reach.ms_start) (simp_all add: New_def newStore_def)
  then have "ms_reach (?y\<lparr>ms_store := run_op (OpPut 1 10) (ms_store ?y)\<rparr>)"
    by (rule ms_reach.ms_next) (rule ms_step.client)
  then show ?thesis by (simp add: example_sys_def)
qed


theorem memstore_catches_up_witness:
  "\<exists>z. loop_step\<^sup>*\<^sup>* example_sys z \<and> ms_table z 1 = Some 10 \<and> ms_table z 2 = Some 20"
  using memstore_catches_up [OF example_reach]
  by (auto simp: example_sys_def Put_def New_def newStore_def attach_begin_def attach_end_def
      markDirtyLocked_eq notify_def pending_count_def)

text \<open>
  \<open>Put\<close> follows the write policy: under last-write-wins it always stores; under keep-existing it
  stores exactly when the key is absent, reports so, and otherwise leaves the store untouched.
\<close>

theorem memstore_put_policy:
  "fst (Put k v s) = (\<not> (keepExisting s \<and> Has k s)) \<and>
   Get k' (snd (Put k v s)) = (if k' = k \<and> fst (Put k v s) then Some v else Get k' s) \<and>
   (keepExisting s \<and> Has k s \<longrightarrow> snd (Put k v s) = s)"
  by (auto simp: Put_def Has_def Get_def markDirtyLocked_eq Let_def)

theorem memstore_put_policy_witness:
  "fst (Put (1::nat) (7::nat) NewKeepExisting) \<and>
   Get 1 (snd (Put 1 8 (snd (Put 1 (7::nat) NewKeepExisting)))) = Some 7"
  using memstore_put_policy [of "1::nat" "7::nat" NewKeepExisting 1]
    memstore_put_policy [of 1 8 "snd (Put 1 (7::nat) NewKeepExisting)" "1::nat"]
  by (simp add: NewKeepExisting_def newStore_def Put_def Has_def Get_def markDirtyLocked_eq)

text \<open>
  Attaching is two locked sections with \<open>Load\<close> between them. A key deleted in between is
  brought back by the load while its deletion stays pending, so the next successful flush removes it
  from the table although the store still serves it.
\<close>

theorem memstore_attach_race:
  "let s = snd (Put (1::nat) (10::nat) New);
       t = attach_end [(1, 10)] (Delete 1 (attach_begin s));
       (b, t') = flush_begin t
   in Get 1 t' = Some 10 \<and> dirty t' = [] \<and> deleted t' = [] \<and>
      apply_batch (upserts (the b)) (deletes (the b)) (map_of [(1, 10)]) 1 = None"
  by (simp add: Put_def New_def newStore_def attach_begin_def attach_end_def Delete_def Get_def
      markDirtyLocked_eq markDeletedLocked_eq notify_def pending_count_def flush_begin_def
      apply_batch_def map_filter_simps Let_def)

end
