(* ===== verification/KV_Store.thy ===== *)
theory KV_Store
  imports Memstore Go_Codec
begin

text \<open>
  The state database behind the stores, \<open>src/pkg/db/kv_store.go\<close>, and the first store that is
  persisted through it, the builder preferences of \<open>src/pkg/builderapi/epbs/preferences_store.go\<close>.

  The \<open>kv_store\<close> table is a list of rows keyed by (namespace, key); whether a query or a
  transaction succeeds is a field of the database, and a failed transaction changes nothing
  (\<open>RunDBTransaction\<close> rolls back). A codec is a record of its four functions; the round-trip
  laws it must obey are the locale \<open>kv_codec\<close>, and every codec with these laws yields a
  \<open>persistence_backend\<close> for the generic store (a sublocale).
\<close>

subsection \<open>Codec, table, adapter\<close>

record ('k, 'v) codec =
  EncodeKey :: "'k \<Rightarrow> string"
  DecodeKey :: "string \<Rightarrow> 'k option"
  EncodeValue :: "'v \<Rightarrow> u8 list option"
  DecodeValue :: "u8 list \<Rightarrow> 'v option"

record kv_db =
  kv_enabled :: bool
  kv_read_ok :: bool
  kv_write_ok :: bool
  kv_rows :: "((string \<times> string) \<times> u8 list) list"

datatype kv_error = LoadFailed string | TxFailed string

definition load_row :: "('k, 'v) codec \<Rightarrow> (string \<times> string) \<times> u8 list \<Rightarrow> ('k \<times> 'v) list \<Rightarrow> ('k \<times> 'v) list" where
  "load_row c r es =
     (case DecodeKey c (snd (fst r)) of
        None \<Rightarrow> es
      | Some k \<Rightarrow> (case DecodeValue c (snd r) of None \<Rightarrow> es | Some v \<Rightarrow> AList.update k v es))"

definition kv_Load :: "string \<Rightarrow> ('k, 'v) codec \<Rightarrow> kv_db \<Rightarrow> kv_error + ('k \<times> 'v) list" where
  "kv_Load ns c d =
     (if \<not> kv_enabled d then Inr []
      else if \<not> kv_read_ok d then Inl (LoadFailed ns)
      else Inr (fold (load_row c) (filter (\<lambda>r. fst (fst r) = ns) (kv_rows d)) []))"

definition encode_upserts :: "('k, 'v) codec \<Rightarrow> ('k \<times> 'v) list \<Rightarrow> (string \<times> u8 list) list" where
  "encode_upserts c u =
     List.map_filter (\<lambda>(k, v). map_option (\<lambda>b. (EncodeKey c k, b)) (EncodeValue c v)) u"

definition kv_PersistBatch :: "string \<Rightarrow> ('k, 'v) codec \<Rightarrow> kv_db \<Rightarrow> ('k \<times> 'v) list \<Rightarrow> 'k list \<Rightarrow> kv_error + kv_db" where
  "kv_PersistBatch ns c d u x =
     (if \<not> kv_enabled d then Inr d
      else if u = [] \<and> x = [] then Inr d
      else if \<not> kv_write_ok d then Inl (TxFailed ns)
      else Inr (d\<lparr>kv_rows :=
             fold (\<lambda>k rs. AList.delete (ns, EncodeKey c k) rs) x
               (fold (\<lambda>(s, b) rs. AList.update (ns, s) b rs) (encode_upserts c u) (kv_rows d))\<rparr>))"

text \<open>What a namespace of the table means, and the rows a codec itself writes.\<close>

definition kv_content :: "string \<Rightarrow> ('k, 'v) codec \<Rightarrow> kv_db \<Rightarrow> 'k \<rightharpoonup> 'v" where
  "kv_content ns c d =
     (\<lambda>k. Option.bind (map_of (kv_rows d) (ns, EncodeKey c k)) (DecodeValue c))"

definition kv_db_ok :: "string \<Rightarrow> ('k, 'v) codec \<Rightarrow> kv_db \<Rightarrow> bool" where
  "kv_db_ok ns c d \<longleftrightarrow> kv_enabled d \<and> distinct (map fst (kv_rows d)) \<and>
     (\<forall>r \<in> set (kv_rows d). fst (fst r) = ns \<longrightarrow>
        (\<exists>k v. snd (fst r) = EncodeKey c k \<and> DecodeValue c (snd r) = Some v))"

subsection \<open>The codec laws and the persistence contract they give\<close>

text \<open>A value the codec reads back as it was written.\<close>

definition writes_back :: "('k, 'v) codec \<Rightarrow> 'v \<Rightarrow> bool" where
  "writes_back c v \<longleftrightarrow> Option.bind (EncodeValue c v) (DecodeValue c) = Some v"

locale kv_keys =
  fixes ns :: string and c :: "('k, 'v) codec"
  assumes decode_encode_key: "DecodeKey c (EncodeKey c k) = Some k"
begin

lemma EncodeKey_inj [simp]: "EncodeKey c a = EncodeKey c b \<longleftrightarrow> a = b"
  by (metis decode_encode_key option.inject)

lemma load_fold:
  assumes "\<forall>r \<in> set rs. \<exists>k v. snd (fst r) = EncodeKey c k \<and> DecodeValue c (snd r) = Some v"
    and "\<forall>r \<in> set rs. fst (fst r) = ns" and "distinct (map fst rs)"
  shows "map_of (fold (load_row c) rs es) k =
    (case map_of rs (ns, EncodeKey c k) of Some b \<Rightarrow> DecodeValue c b | None \<Rightarrow> map_of es k)"
  using assms
proof (induction rs arbitrary: es)
  case Nil
  then show ?case by simp
next
  case (Cons r rs)
  obtain k0 v0 b where r: "r = ((ns, EncodeKey c k0), b)" and b: "DecodeValue c b = Some v0"
    using Cons.prems(1,2) by (metis list.set_intros(1) prod.collapse)
  have step: "load_row c ((ns, EncodeKey c k0), b) es = AList.update k0 v0 es"
    by (simp add: load_row_def b decode_encode_key)
  have "map_of rs (ns, EncodeKey c k0) = None"
    using Cons.prems(3) r by (simp add: map_of_eq_None_iff)
  then show ?case
    using Cons.IH [of "AList.update k0 v0 es"] Cons.prems r b
    by (auto simp: step split: option.splits)
qed

lemma map_of_filter_ns: "map_of (filter (\<lambda>r. fst (fst r) = ns) rs) (ns, s) = map_of rs (ns, s)"
  by (induction rs) auto

lemma load_is_content:
  assumes "kv_db_ok ns c d" "kv_Load ns c d = Inr l"
  shows "map_of l = kv_content ns c d"
proof (rule ext)
  fix k
  let ?rs = "filter (\<lambda>r. fst (fst r) = ns) (kv_rows d)"
  have l: "l = fold (load_row c) ?rs []"
    using assms by (simp add: kv_Load_def kv_db_ok_def split: if_splits)
  have rs: "\<forall>r \<in> set ?rs. \<exists>k v. snd (fst r) = EncodeKey c k \<and> DecodeValue c (snd r) = Some v"
    "\<forall>r \<in> set ?rs. fst (fst r) = ns" "distinct (map fst ?rs)"
    using assms(1) by (simp_all add: kv_db_ok_def distinct_map_filter)
  show "map_of l k = kv_content ns c d k"
    unfolding l load_fold [OF rs] map_of_filter_ns kv_content_def
    by (simp split: option.split)
qed

lemma encode_upserts_Cons:
  assumes "writes_back c v"
  shows "\<exists>b. DecodeValue c b = Some v \<and> encode_upserts c ((k, v) # u) = (EncodeKey c k, b) # encode_upserts c u"
  using assms by (auto simp: writes_back_def encode_upserts_def map_filter_simps split: Option.bind_splits)

text \<open>Rows written by the codec: each step of the transaction keeps the table well formed.\<close>

lemma set_update_subset: "set (AList.update k b rs) \<subseteq> insert (k, b) (set rs)"
  by (induction rs) auto

lemma set_delete_subset: "set (AList.delete k rs) \<subseteq> set rs"
  by (induction rs) auto

lemma upsert_row_ok:
  assumes "kv_db_ok ns c (d\<lparr>kv_rows := rs\<rparr>)" "DecodeValue c b = Some v"
  shows "kv_db_ok ns c (d\<lparr>kv_rows := AList.update (ns, EncodeKey c k) b rs\<rparr>)"
proof -
  have "\<exists>k' v'. snd (fst r) = EncodeKey c k' \<and> DecodeValue c (snd r) = Some v'"
    if "r \<in> set (AList.update (ns, EncodeKey c k) b rs)" "fst (fst r) = ns" for r
  proof (cases "r \<in> set rs")
    case True
    then show ?thesis using assms(1) that(2) by (simp add: kv_db_ok_def)
  next
    case False
    then have "r = ((ns, EncodeKey c k), b)"
      using that(1) set_update_subset [of "(ns, EncodeKey c k)" b rs] by blast
    then show ?thesis using assms(2) by auto
  qed
  then show ?thesis
    using assms(1) by (simp add: kv_db_ok_def distinct_update)
qed

lemma delete_row_ok:
  assumes "kv_db_ok ns c (d\<lparr>kv_rows := rs\<rparr>)"
  shows "kv_db_ok ns c (d\<lparr>kv_rows := AList.delete (ns, EncodeKey c k) rs\<rparr>)"
  using assms set_delete_subset [of "(ns, EncodeKey c k)" rs]
  by (auto simp: kv_db_ok_def distinct_delete)

lemma upsert_fold:
  assumes "kv_db_ok ns c (d\<lparr>kv_rows := rs\<rparr>)" "distinct (map fst u)" "list_all (\<lambda>(k, v). writes_back c v) u"
  shows "kv_db_ok ns c (d\<lparr>kv_rows := fold (\<lambda>(s, b) rs. AList.update (ns, s) b rs) (encode_upserts c u) rs\<rparr>) \<and>
    kv_content ns c (d\<lparr>kv_rows := fold (\<lambda>(s, b) rs. AList.update (ns, s) b rs) (encode_upserts c u) rs\<rparr>) =
      kv_content ns c (d\<lparr>kv_rows := rs\<rparr>) ++ map_of u"
  using assms
proof (induction u arbitrary: rs)
  case Nil
  then show ?case by (simp add: encode_upserts_def map_filter_simps)
next
  case (Cons a u)
  obtain k v where a: "a = (k, v)" by (cases a)
  obtain b where b: "DecodeValue c b = Some v"
    and e: "encode_upserts c (a # u) = (EncodeKey c k, b) # encode_upserts c u"
    using encode_upserts_Cons [of v k u] Cons.prems(3) a by auto
  let ?rs = "AList.update (ns, EncodeKey c k) b rs"
  have ok: "kv_db_ok ns c (d\<lparr>kv_rows := ?rs\<rparr>)"
    using Cons.prems(1) b by (rule upsert_row_ok)
  have ct: "kv_content ns c (d\<lparr>kv_rows := ?rs\<rparr>) = (kv_content ns c (d\<lparr>kv_rows := rs\<rparr>))(k \<mapsto> v)"
    by (rule ext) (simp add: kv_content_def b)
  have nu: "map_of u k = None" using Cons.prems(2) a by (simp add: map_of_eq_None_iff)
  have "(kv_content ns c (d\<lparr>kv_rows := rs\<rparr>))(k \<mapsto> v) ++ map_of u
      = kv_content ns c (d\<lparr>kv_rows := rs\<rparr>) ++ map_of (a # u)"
    using nu by (auto simp: a map_add_def fun_eq_iff split: option.splits)
  with Cons.IH [OF ok] Cons.prems(2,3) ct
  show ?case by (simp only: e fold.simps comp_apply prod.case list.map distinct.simps list.pred_inject)
qed

lemma delete_fold:
  assumes "kv_db_ok ns c (d\<lparr>kv_rows := rs\<rparr>)"
  shows "kv_db_ok ns c (d\<lparr>kv_rows := fold (\<lambda>k rs. AList.delete (ns, EncodeKey c k) rs) x rs\<rparr>) \<and>
    kv_content ns c (d\<lparr>kv_rows := fold (\<lambda>k rs. AList.delete (ns, EncodeKey c k) rs) x rs\<rparr>) =
      (\<lambda>k. if k \<in> set x then None else kv_content ns c (d\<lparr>kv_rows := rs\<rparr>) k)"
  using assms
proof (induction x arbitrary: rs)
  case Nil
  then show ?case by simp
next
  case (Cons k x)
  let ?rs = "AList.delete (ns, EncodeKey c k) rs"
  have ok: "kv_db_ok ns c (d\<lparr>kv_rows := ?rs\<rparr>)"
    using Cons.prems by (rule delete_row_ok)
  have ct: "kv_content ns c (d\<lparr>kv_rows := ?rs\<rparr>) = (kv_content ns c (d\<lparr>kv_rows := rs\<rparr>))(k := None)"
    by (rule ext) (simp add: kv_content_def)
  show ?case using Cons.IH [OF ok] by (auto simp: ct fun_eq_iff)
qed

lemma persist_applies:
  assumes "kv_db_ok ns c d" "distinct (map fst u)" "set (map fst u) \<inter> set x = {}"
    and "kv_PersistBatch ns c d u x = Inr d'" "list_all (\<lambda>(k, v). writes_back c v) u"
  shows "kv_content ns c d' = apply_batch u x (kv_content ns c d) \<and> kv_db_ok ns c d'"
proof (cases "u = [] \<and> x = []")
  case True
  then show ?thesis
    using assms by (auto simp: kv_PersistBatch_def apply_batch_def split: if_splits)
next
  case False
  let ?rs = "fold (\<lambda>(s, b) rs. AList.update (ns, s) b rs) (encode_upserts c u) (kv_rows d)"
  have d': "d' = d\<lparr>kv_rows := fold (\<lambda>k rs. AList.delete (ns, EncodeKey c k) rs) x ?rs\<rparr>"
    using assms(1,4) False by (auto simp: kv_PersistBatch_def kv_db_ok_def split: if_splits)
  have dd: "d\<lparr>kv_rows := kv_rows d\<rparr> = d" by simp
  have up: "kv_db_ok ns c (d\<lparr>kv_rows := ?rs\<rparr>)"
    "kv_content ns c (d\<lparr>kv_rows := ?rs\<rparr>) = kv_content ns c d ++ map_of u"
    using upsert_fold [of "kv_rows d" d u] assms(1,2,5) dd by simp_all
  note del = delete_fold [OF up(1), of x]
  show ?thesis
    unfolding d' using up del
    by (auto simp: apply_batch_def map_add_def fun_eq_iff split: option.splits)
qed

end

locale kv_codec = kv_keys +
  assumes value_writes_back: "writes_back c v"

sublocale kv_codec \<subseteq> kv: persistence_backend "kv_Load ns c" "kv_PersistBatch ns c"
  "kv_content ns c" "kv_db_ok ns c"
  by unfold_locales (use load_is_content persist_applies value_writes_back in \<open>auto simp: list_all_iff\<close>)

subsection \<open>Builder preferences\<close>

text \<open>A BLS public key is an array of 48 bytes.\<close>

typedef pubkey = "{bs :: u8 list. length bs = 48}"
  morphisms pubkey_bytes Pubkey
  by (rule exI [of _ "replicate 48 0"]) simp

definition PreferencesNamespace :: string where
  "PreferencesNamespace = ''builder_preferences''"

definition Prefs_EncodeKey :: "pubkey \<Rightarrow> string" where
  "Prefs_EncodeKey pk = ''0x'' @ hex_EncodeToString (pubkey_bytes pk)"

definition Prefs_DecodeKey :: "string \<Rightarrow> pubkey option" where
  "Prefs_DecodeKey key =
     (case hex_DecodeString (TrimPrefix key ''0x'') of
        None \<Rightarrow> None
      | Some raw \<Rightarrow> if length raw \<noteq> 48 then None else Some (Pubkey raw))"

definition Prefs_EncodeValue :: "gwei \<Rightarrow> u8 list option" where
  "Prefs_EncodeValue m = Some (PutUint64 m)"

definition Prefs_DecodeValue :: "u8 list \<Rightarrow> gwei option" where
  "Prefs_DecodeValue bs = (if length bs \<noteq> 8 then None else Some (Uint64 bs))"

definition PreferencesCodec :: "(pubkey, gwei) codec" where
  "PreferencesCodec = \<lparr>EncodeKey = Prefs_EncodeKey, DecodeKey = Prefs_DecodeKey,
     EncodeValue = Prefs_EncodeValue, DecodeValue = Prefs_DecodeValue\<rparr>"

type_synonym prefs_store = "(pubkey, gwei) store"

definition NewBuilderPreferencesStore :: prefs_store where
  "NewBuilderPreferencesStore = New"

definition prefs_Set :: "pubkey \<Rightarrow> gwei \<Rightarrow> prefs_store \<Rightarrow> prefs_store" where
  "prefs_Set pk m s = snd (Put pk m s)"

definition prefs_GetOrDefault :: "pubkey \<Rightarrow> prefs_store \<Rightarrow> gwei" where
  "prefs_GetOrDefault pk s = (case Get pk s of None \<Rightarrow> 0 | Some m \<Rightarrow> m)"

definition prefs_SetPersistence :: "kv_db option \<Rightarrow> prefs_store \<Rightarrow> prefs_store" where
  "prefs_SetPersistence stateDB s =
     (case stateDB of
        None \<Rightarrow> s
      | Some d \<Rightarrow> SetPersistence (kv_Load PreferencesNamespace PreferencesCodec) d s)"

definition prefs_Flush :: "prefs_store \<Rightarrow> kv_db \<Rightarrow> (kv_error + unit) \<times> prefs_store \<times> kv_db" where
  "prefs_Flush s d = Flush (kv_PersistBatch PreferencesNamespace PreferencesCodec) s d"

lemma prefs_key_roundtrip: "Prefs_DecodeKey (Prefs_EncodeKey pk) = Some pk"
proof -
  have "length (pubkey_bytes pk) = 48" using pubkey_bytes [of pk] by simp
  moreover have "TrimPrefix (''0x'' @ hex_EncodeToString (pubkey_bytes pk)) ''0x''
      = hex_EncodeToString (pubkey_bytes pk)"
    by (rule TrimPrefix_append)
  ultimately show ?thesis
    unfolding Prefs_DecodeKey_def Prefs_EncodeKey_def by (simp add: pubkey_bytes_inverse)
qed

interpretation prefs: kv_codec PreferencesNamespace PreferencesCodec
proof unfold_locales
  show "DecodeKey PreferencesCodec (EncodeKey PreferencesCodec k) = Some k" for k
    by (simp add: PreferencesCodec_def prefs_key_roundtrip)
  show "writes_back PreferencesCodec v" for v
    by (simp add: writes_back_def PreferencesCodec_def Prefs_EncodeValue_def Prefs_DecodeValue_def)
qed

lemma prefs_flush_restart:
  assumes "store_ok s" "attached s" "synced s (kv_content PreferencesNamespace PreferencesCodec d)"
    and "kv_db_ok PreferencesNamespace PreferencesCodec d" "kv_read_ok d"
    and fl: "prefs_Flush s d = (Inr (), s', d')"
  shows "Get pk (prefs_SetPersistence (Some d') NewBuilderPreferencesStore) = Get pk s"
proof -
  have "kv_read_ok d' \<and> kv_enabled d'"
    using fl assms(4,5)
    by (auto simp: prefs_Flush_def Flush_def kv_PersistBatch_def kv_db_ok_def
        split: prod.splits option.splits sum.splits if_splits)
  then obtain l where "kv_Load PreferencesNamespace PreferencesCodec d' = Inr l"
    by (simp add: kv_Load_def)
  from prefs.kv.restart_recovers [OF assms(1-4) fl [unfolded prefs_Flush_def] this, of _ False]
  show ?thesis
    by (simp add: Get_def prefs_SetPersistence_def NewBuilderPreferencesStore_def New_def)
qed


definition example_db :: kv_db where
  "example_db = \<lparr>kv_enabled = True, kv_read_ok = True, kv_write_ok = True, kv_rows = []\<rparr>"

definition example_key :: pubkey where
  "example_key = Pubkey (replicate 48 7)"


end
