(* ===== verification/Payload_Cache.thy ===== *)
theory Payload_Cache
  imports Go_Prelude "HOL-Library.AList"
begin

text \<open>
  \<open>pkg/payload_builder/payload.go\<close> and \<open>payload_cache.go\<close>: the built payload with its activity
  log, and the cache that holds the payloads of the most recent slots.

  The payload is shared by pointer through the whole program, so payloads live in a heap
  \<open>payload_ref \<Rightarrow> payload\<close> and the cache stores references; an entry appended to the activity log
  is seen by every holder.  The build outputs that come from client libraries (execution payload,
  blobs bundle, execution requests) are the type parameter \<open>'b\<close>.

  The cache is an association list with distinct keys.  A scan \<open>for slot := range c.payloads\<close>
  visits the keys in an order the language leaves open: the operations take that order as a
  function \<open>ord\<close> on key lists, and the theorems hold for every \<open>ord\<close> that permutes its argument.
\<close>

section \<open>The payload and its activity log\<close>

type_synonym hash32 = "u8 list"
type_synonym address20 = "u8 list"

datatype BidTransport = BidTransportP2P | BidTransportBuilderAPI

record BidRecord =
  br_Transport :: BidTransport
  br_Value :: gwei
  br_ExecutionPayment :: gwei
  br_At :: gotime

record RevealRecord =
  rr_Transport :: BidTransport
  rr_BeaconBlockRoot :: hash32
  rr_At :: gotime

record payloadActivity =
  act_bids :: "BidRecord list"
  act_reveal :: "RevealRecord option"

record 'b payload =
  p_ProposalSlot :: slot
  p_build :: 'b
  p_BlockHash :: hash32
  p_FeeRecipient :: address20
  p_BlockValue :: int
  p_ReadyAt :: gotime
  p_activity :: payloadActivity

type_synonym payload_ref = nat
type_synonym 'b payload_heap = "payload_ref \<Rightarrow> 'b payload"

definition AddBid :: "payload_ref \<Rightarrow> BidRecord \<Rightarrow> 'b payload_heap \<Rightarrow> 'b payload_heap" where
  "AddBid p rec h =
     h(p := (h p)\<lparr>p_activity := (p_activity (h p))\<lparr>act_bids := act_bids (p_activity (h p)) @ [rec]\<rparr>\<rparr>)"

definition Bids :: "payload_ref \<Rightarrow> 'b payload_heap \<Rightarrow> BidRecord list" where
  "Bids p h = act_bids (p_activity (h p))"

definition MarkRevealed :: "payload_ref \<Rightarrow> RevealRecord \<Rightarrow> 'b payload_heap \<Rightarrow> 'b payload_heap" where
  "MarkRevealed p rec h =
     (if act_reveal (p_activity (h p)) = None
      then h(p := (h p)\<lparr>p_activity := (p_activity (h p))\<lparr>act_reveal := Some rec\<rparr>\<rparr>)
      else h)"

definition Reveal :: "payload_ref \<Rightarrow> 'b payload_heap \<Rightarrow> RevealRecord option" where
  "Reveal p h = act_reveal (p_activity (h p))"

section \<open>The cache\<close>

definition DefaultCacheSize :: int where
  "DefaultCacheSize = 1000"

record PayloadCache =
  pc_payloads :: "(slot \<times> payload_ref) list"
  pc_maxSlots :: int

definition NewPayloadCache :: "int \<Rightarrow> PayloadCache" where
  "NewPayloadCache maxSlots =
     \<lparr>pc_payloads = [], pc_maxSlots = (if maxSlots \<le> 0 then DefaultCacheSize else maxSlots)\<rparr>"

text \<open>\<open>var oldestSlot; for slot := range c.payloads {...}\<close>\<close>

definition oldest_scan :: "slot list \<Rightarrow> slot" where
  "oldest_scan ks = foldl (\<lambda>oldest k. if oldest = 0 \<or> k < oldest then k else oldest) 0 ks"

text \<open>The loop of \<open>evictOld\<close>; \<open>None\<close> is the value of a run that does not end.\<close>

partial_function (option) evict_loop ::
  "(slot list \<Rightarrow> slot list) \<Rightarrow> int \<Rightarrow> slot \<Rightarrow> (slot \<times> payload_ref) list
     \<Rightarrow> (slot \<times> payload_ref) list option" where
  "evict_loop ord maxSlots oldestSlot m =
     (if int (length m) > maxSlots
      then (let m' = AList.delete oldestSlot m
            in evict_loop ord maxSlots (oldest_scan (ord (map fst m'))) m')
      else Some m)"

definition evictOld :: "(slot list \<Rightarrow> slot list) \<Rightarrow> PayloadCache \<Rightarrow> PayloadCache option" where
  "evictOld ord c =
     (if int (length (pc_payloads c)) \<le> pc_maxSlots c then Some c
      else map_option (\<lambda>m. c\<lparr>pc_payloads := m\<rparr>)
             (evict_loop ord (pc_maxSlots c)
               (oldest_scan (ord (map fst (pc_payloads c)))) (pc_payloads c)))"

definition cache_Store ::
  "(slot list \<Rightarrow> slot list) \<Rightarrow> 'b payload_heap \<Rightarrow> payload_ref \<Rightarrow> PayloadCache \<Rightarrow> PayloadCache option"
where
  "cache_Store ord h event c =
     evictOld ord (c\<lparr>pc_payloads := AList.update (p_ProposalSlot (h event)) event (pc_payloads c)\<rparr>)"

definition cache_Get :: "slot \<Rightarrow> PayloadCache \<Rightarrow> payload_ref option" where
  "cache_Get s c = map_of (pc_payloads c) s"

definition GetByBlockHash ::
  "(slot list \<Rightarrow> slot list) \<Rightarrow> 'b payload_heap \<Rightarrow> hash32 \<Rightarrow> PayloadCache \<Rightarrow> payload_ref option" where
  "GetByBlockHash ord h blockHash c =
     find (\<lambda>p. p_BlockHash (h p) = blockHash)
       (map (\<lambda>s. the (map_of (pc_payloads c) s)) (ord (map fst (pc_payloads c))))"

definition cache_Delete :: "slot \<Rightarrow> PayloadCache \<Rightarrow> PayloadCache" where
  "cache_Delete s c = c\<lparr>pc_payloads := AList.delete s (pc_payloads c)\<rparr>"

definition GetAll :: "(slot list \<Rightarrow> slot list) \<Rightarrow> PayloadCache \<Rightarrow> payload_ref list" where
  "GetAll ord c = map (\<lambda>s. the (map_of (pc_payloads c) s)) (ord (map fst (pc_payloads c)))"

definition cache_Size :: "PayloadCache \<Rightarrow> int" where
  "cache_Size c = int (length (pc_payloads c))"

definition cache_Cleanup :: "slot \<Rightarrow> PayloadCache \<Rightarrow> PayloadCache" where
  "cache_Cleanup olderThan c =
     c\<lparr>pc_payloads := filter (\<lambda>(s, p). \<not> s < olderThan) (pc_payloads c)\<rparr>"

text \<open>A sequence of log entries written by the bid and reveal paths.\<close>

datatype activity_op = OpBid payload_ref BidRecord | OpReveal payload_ref RevealRecord

fun activity_step :: "activity_op \<Rightarrow> 'b payload_heap \<Rightarrow> 'b payload_heap" where
  "activity_step (OpBid p rec) h = AddBid p rec h"
| "activity_step (OpReveal p rec) h = MarkRevealed p rec h"

text \<open>What the log of \<open>p\<close> should hold after the sequence.\<close>

fun bids_of :: "payload_ref \<Rightarrow> activity_op list \<Rightarrow> BidRecord list" where
  "bids_of p [] = []"
| "bids_of p (OpBid q rec # ops) = (if q = p then rec # bids_of p ops else bids_of p ops)"
| "bids_of p (OpReveal q rec # ops) = bids_of p ops"

fun first_reveal :: "payload_ref \<Rightarrow> activity_op list \<Rightarrow> RevealRecord option" where
  "first_reveal p [] = None"
| "first_reveal p (OpReveal q rec # ops) = (if q = p then Some rec else first_reveal p ops)"
| "first_reveal p (OpBid q rec # ops) = first_reveal p ops"

section \<open>Invariants\<close>

text \<open>An admissible iteration order, and the well-formed caches.\<close>

definition key_order :: "(slot list \<Rightarrow> slot list) \<Rightarrow> bool" where
  "key_order ord \<longleftrightarrow> (\<forall>ks. distinct ks \<longrightarrow> distinct (ord ks) \<and> set (ord ks) = set ks)"

definition cache_ok :: "'b payload_heap \<Rightarrow> PayloadCache \<Rightarrow> bool" where
  "cache_ok h c \<longleftrightarrow>
     distinct (map fst (pc_payloads c)) \<and> 0 < pc_maxSlots c \<and>
     int (length (pc_payloads c)) \<le> pc_maxSlots c \<and>
     list_all (\<lambda>(s, p). p_ProposalSlot (h p) = s) (pc_payloads c)"

definition no_genesis_slot :: "PayloadCache \<Rightarrow> bool" where
  "no_genesis_slot c \<longleftrightarrow> 0 \<notin> set (map fst (pc_payloads c))"

lemma key_order_id: "key_order (\<lambda>ks. ks)"
  by (simp add: key_order_def)

lemma key_order_rev: "key_order rev"
  by (simp add: key_order_def)

lemma key_orderD:
  "key_order ord \<Longrightarrow> distinct ks \<Longrightarrow> set (ord ks) = set ks"
  "key_order ord \<Longrightarrow> distinct ks \<Longrightarrow> distinct (ord ks)"
  by (simp_all add: key_order_def)

section \<open>The activity log\<close>

lemma activity_frame [simp]:
  "p_ProposalSlot (AddBid p rec h q) = p_ProposalSlot (h q)"
  "p_BlockHash (AddBid p rec h q) = p_BlockHash (h q)"
  "p_build (AddBid p rec h q) = p_build (h q)"
  "p_ProposalSlot (MarkRevealed p rr h q) = p_ProposalSlot (h q)"
  "p_BlockHash (MarkRevealed p rr h q) = p_BlockHash (h q)"
  "p_build (MarkRevealed p rr h q) = p_build (h q)"
  by (simp_all add: AddBid_def MarkRevealed_def)

lemma Reveal_MarkRevealed:
  "Reveal q (MarkRevealed p rec h) =
     (if q = p then Some (case Reveal p h of None \<Rightarrow> rec | Some r \<Rightarrow> r) else Reveal q h)"
  by (auto simp: Reveal_def MarkRevealed_def)

lemma Reveal_AddBid [simp]: "Reveal q (AddBid p rec h) = Reveal q h"
  by (simp add: Reveal_def AddBid_def)

lemma Bids_AddBid: "Bids q (AddBid p rec h) = (if q = p then Bids p h @ [rec] else Bids q h)"
  by (simp add: Bids_def AddBid_def)

lemma Bids_MarkRevealed [simp]: "Bids q (MarkRevealed p rec h) = Bids q h"
  by (simp add: Bids_def MarkRevealed_def)

lemma activity_fold_frame:
  "p_BlockHash (fold activity_step ops h p) = p_BlockHash (h p)"
proof (induction ops arbitrary: h)
  case (Cons x ops)
  then show ?case by (cases x) simp_all
qed simp

section \<open>The scan for the oldest slot\<close>

lemma oldest_fold:
  "0 \<notin> set ks \<Longrightarrow> a \<noteq> 0 \<Longrightarrow>
   foldl (\<lambda>oldest k. if oldest = 0 \<or> k < oldest then k else oldest) a ks = Min (insert (a :: slot) (set ks))"
proof (induction ks arbitrary: a)
  case Nil
  then show ?case by simp
next
  case (Cons k ks)
  have "Min (insert a (set (k # ks))) = Min (insert (min a k) (set ks))"
    by (cases "ks = []") (simp_all add: min.assoc)
  moreover have "(if a = 0 \<or> k < a then k else a) = min a k"
    using Cons.prems by (auto simp: min_def)
  ultimately show ?case using Cons by (auto simp: min_def)
qed

lemma oldest_scan_Min:
  assumes "0 \<notin> set ks" "ks \<noteq> []"
  shows "oldest_scan ks = Min (set ks)"
proof (cases ks)
  case (Cons k ks')
  then show ?thesis using assms oldest_fold [of ks' k] by (simp add: oldest_scan_def)
qed (use assms in simp)

lemma oldest_fold_in:
  "foldl (\<lambda>oldest k. if oldest = 0 \<or> k < oldest then k else oldest) a ks \<in> insert (a :: slot) (set ks)"
proof (induction ks arbitrary: a)
  case (Cons k ks)
  then show ?case using Cons.IH [of k] Cons.IH [of a] by auto
qed simp

lemma oldest_scan_in: "ks \<noteq> [] \<Longrightarrow> oldest_scan ks \<in> set ks"
proof (cases ks)
  case (Cons k ks')
  then show ?thesis using oldest_fold_in [of k ks'] by (simp add: oldest_scan_def)
qed simp

section \<open>The eviction loop\<close>

lemma length_delete_in:
  assumes d: "distinct (map fst m)" and k: "k \<in> set (map fst m)"
  shows "length (AList.delete k m) = length m - 1"
proof -
  have "distinct (map fst (AList.delete k m))" using d by (rule AList.distinct_delete)
  then have "length (AList.delete k m) = card (set (map fst (AList.delete k m)))"
    by (metis distinct_card length_map)
  also have "set (map fst (AList.delete k m)) = set (map fst m) - {k}"
    by (auto simp: AList.delete_keys)
  also have "card (set (map fst m) - {k}) = length m - 1"
    using d k by (metis card_Diff_singleton distinct_card length_map)
  finally show ?thesis .
qed

lemma evict_loop_once:
  assumes "key_order ord" "distinct (map fst m)" "int (length m) = mx + 1" "old \<in> set (map fst m)"
  shows "evict_loop ord mx old m = Some (AList.delete old m)"
proof -
  have "int (length (AList.delete old m)) = mx"
    using assms length_delete_in [of m old] by (cases m) auto
  then show ?thesis
    using assms(3) by (subst evict_loop.simps, subst evict_loop.simps) (simp add: Let_def)
qed

text \<open>However large the excess is, the loop ends, keeps a sub-map and comes down to the limit.\<close>

lemma evict_loop_terminates:
  assumes "key_order ord" "0 < mx"
  shows "distinct (map fst m) \<Longrightarrow> old \<in> set (map fst m) \<Longrightarrow>
    \<exists>m'. evict_loop ord mx old m = Some m' \<and> distinct (map fst m') \<and> map_of m' \<subseteq>\<^sub>m map_of m \<and>
      int (length m') = min mx (int (length m))"
proof (induction "length m" arbitrary: m old rule: less_induct)
  case less
  show ?case
  proof (cases "int (length m) > mx")
    case False
    then show ?thesis using less.prems by (subst evict_loop.simps) simp
  next
    case True
    let ?m' = "AList.delete old m"
    have len: "length ?m' = length m - 1" and "length m \<noteq> 0"
      using less.prems length_delete_in [of m old] by auto
    have dist: "distinct (map fst ?m')" using less.prems by (simp add: AList.distinct_delete)
    have ne: "?m' \<noteq> []" using True len assms(2) by auto
    have "ord (map fst ?m') \<noteq> []"
      using ne dist key_orderD(1) [OF assms(1)] by (metis map_is_Nil_conv set_empty)
    then have "oldest_scan (ord (map fst ?m')) \<in> set (map fst ?m')"
      using oldest_scan_in dist key_orderD(1) [OF assms(1)] by metis
    moreover have "length ?m' < length m" using len \<open>length m \<noteq> 0\<close> by simp
    ultimately obtain m' where
      "evict_loop ord mx (oldest_scan (ord (map fst ?m'))) ?m' = Some m'" "distinct (map fst m')"
      "map_of m' \<subseteq>\<^sub>m map_of ?m'" "int (length m') = min mx (int (length ?m'))"
      using less.hyps dist by blast
    moreover have "map_of ?m' \<subseteq>\<^sub>m map_of m"
      by (auto simp: AList.delete_conv' map_le_def)
    moreover have "min mx (int (length ?m')) = min mx (int (length m))" using True len by auto
    ultimately show ?thesis
      using True map_le_trans by (subst evict_loop.simps) (auto simp: Let_def)
  qed
qed

section \<open>Storing, looking up and cleaning\<close>

lemma length_update:
  "length (AList.update k v m) = (if k \<in> set (map fst m) then length m else length m + 1)"
  by (induction m) auto

lemma cache_ok_heap:
  assumes "\<And>q. p_ProposalSlot (h' q) = p_ProposalSlot (h q)"
  shows "cache_ok h' c = cache_ok h c"
  using assms by (simp add: cache_ok_def)

lemma slots_update:
  assumes "list_all (\<lambda>(s, p). p_ProposalSlot (h p) = s) m"
  shows "list_all (\<lambda>(s, p). p_ProposalSlot (h p) = s) (AList.update (p_ProposalSlot (h e)) e m)"
  using assms by (induction m) auto

lemma slots_delete:
  assumes "list_all (\<lambda>(s, p). p_ProposalSlot (h p) = s) m"
  shows "list_all (\<lambda>(s, p). p_ProposalSlot (h p) = s) (AList.delete k m)"
  using assms by (induction m) (auto simp: AList.delete_eq)

text \<open>The value of the cache after \<open>Store\<close>: the update, less the oldest slot when it overflows.\<close>

lemma cache_Store_eq:
  fixes h :: "'b payload_heap" and e :: payload_ref
  assumes ord: "key_order ord" and ok: "cache_ok h c"
  defines "m \<equiv> AList.update (p_ProposalSlot (h e)) e (pc_payloads c)"
  shows "cache_Store ord h e c = Some (c\<lparr>pc_payloads :=
    (if int (length m) \<le> pc_maxSlots c then m
     else AList.delete (oldest_scan (ord (map fst m))) m)\<rparr>)"
proof -
  have d: "distinct (map fst m)"
    using ok by (simp add: m_def cache_ok_def AList.distinct_update)
  have le: "int (length m) \<le> pc_maxSlots c + 1"
    using ok by (auto simp: m_def length_update cache_ok_def)
  show ?thesis
  proof (cases "int (length m) \<le> pc_maxSlots c")
    case True
    then show ?thesis by (simp add: cache_Store_def evictOld_def m_def)
  next
    case False
    then have len: "int (length m) = pc_maxSlots c + 1" using le by simp
    have "m \<noteq> []" using len ok by (auto simp: cache_ok_def)
    then have "ord (map fst m) \<noteq> []"
      using d key_orderD(1) [OF ord] by (metis map_is_Nil_conv set_empty)
    then have "oldest_scan (ord (map fst m)) \<in> set (map fst m)"
      using oldest_scan_in d key_orderD(1) [OF ord] by metis
    from evict_loop_once [OF ord d len this] False
    show ?thesis by (simp add: cache_Store_def evictOld_def m_def)
  qed
qed

lemma cache_Store_ok:
  assumes "key_order ord" "cache_ok h c" "cache_Store ord h e c = Some c'"
  shows "cache_ok h c'"
proof -
  let ?m = "AList.update (p_ProposalSlot (h e)) e (pc_payloads c)"
  have d: "distinct (map fst ?m)"
    using assms(2) by (simp add: cache_ok_def AList.distinct_update)
  have sl: "list_all (\<lambda>(s, p). p_ProposalSlot (h p) = s) ?m"
    using assms(2) by (intro slots_update) (simp add: cache_ok_def)
  have in_keys: "oldest_scan (ord (map fst ?m)) \<in> set (map fst ?m)"
    using oldest_scan_in [of "ord (map fst ?m)"] d key_orderD(1) [OF assms(1) d]
    by (metis AList.update_conv' fun_upd_same list.set_intros(1) map_of_eq_None_iff option.distinct(1)
        set_map empty_iff list.set(1))
  have "int (length (AList.delete (oldest_scan (ord (map fst ?m))) ?m)) \<le> pc_maxSlots c"
    using length_delete_in [OF d in_keys] assms(2) by (auto simp: length_update cache_ok_def)
  then show ?thesis
    using assms(2) cache_Store_eq [OF assms(1,2), of e] assms(3) d sl
    by (auto simp: cache_ok_def AList.distinct_delete slots_delete)
qed

lemma find_map_iff:
  "find P xs = Some x \<Longrightarrow> x \<in> set xs \<and> P x" "find P xs = None \<longleftrightarrow> (\<forall>x\<in>set xs. \<not> P x)"
  by (auto simp: find_Some_iff find_None_iff)

lemma cached_refs:
  assumes "key_order ord" "distinct (map fst (pc_payloads c))"
  shows "set (map (\<lambda>s. the (map_of (pc_payloads c) s)) (ord (map fst (pc_payloads c))))
    = snd ` set (pc_payloads c)"
  using key_orderD(1) [OF assms] assms(2) by (force simp: map_of_eq_Some_iff)

section \<open>Properties\<close>

text \<open>
  Storing a payload for a slot other than the genesis slot always returns, keeps the cache
  well-formed and within its limit, and makes exactly the expected change: the slot maps to the
  new payload, every other slot keeps its own, except that when the cache was full and the slot
  is new the oldest of all slots (and no other) is evicted.  This holds for every order in which
  the scans visit the map.\<close>
theorem payload_cache_store:
  assumes "key_order ord" "cache_ok h c" "no_genesis_slot c" "p_ProposalSlot (h e) \<noteq> 0"
  shows "\<exists>c'. cache_Store ord h e c = Some c' \<and> cache_ok h c' \<and> no_genesis_slot c' \<and>
    (\<forall>t. cache_Get t c' =
      (if cache_Get (p_ProposalSlot (h e)) c = None \<and> cache_Size c = pc_maxSlots c \<and>
          t = Min (insert (p_ProposalSlot (h e)) {u. cache_Get u c \<noteq> None})
       then None else ((\<lambda>u. cache_Get u c)(p_ProposalSlot (h e) \<mapsto> e)) t))"
proof -
  define s where "s = p_ProposalSlot (h e)"
  let ?m = "AList.update s e (pc_payloads c)"
  have d: "distinct (map fst ?m)" using assms(2) by (simp add: cache_ok_def AList.distinct_update)
  have keys: "set (map fst ?m) = insert s {u. cache_Get u c \<noteq> None}"
    by (auto simp: AList.update_keys cache_Get_def map_of_eq_None_iff)
  have nz: "0 \<notin> set (map fst ?m)"
    using assms(3,4) by (auto simp: s_def no_genesis_slot_def AList.update_keys)
  have ne: "ord (map fst ?m) \<noteq> []"
    using key_orderD(1) [OF assms(1) d] keys by (metis empty_set insert_not_empty)
  have oldest: "oldest_scan (ord (map fst ?m)) = Min (insert s {u. cache_Get u c \<noteq> None})"
    using oldest_scan_Min [OF _ ne] nz key_orderD(1) [OF assms(1) d] keys by metis
  have over: "int (length ?m) \<le> pc_maxSlots c \<longleftrightarrow>
      \<not> (cache_Get s c = None \<and> cache_Size c = pc_maxSlots c)"
    using assms(2)
    by (auto simp: length_update cache_Get_def cache_Size_def cache_ok_def map_of_eq_None_iff)
  let ?c' = "c\<lparr>pc_payloads := (if int (length ?m) \<le> pc_maxSlots c then ?m
     else AList.delete (oldest_scan (ord (map fst ?m))) ?m)\<rparr>"
  have eq: "cache_Store ord h e c = Some ?c'"
    using cache_Store_eq [OF assms(1,2), of e] by (simp add: s_def)
  moreover have "cache_ok h ?c'" by (rule cache_Store_ok [OF assms(1,2) eq])
  moreover have "no_genesis_slot ?c'"
    using nz by (force simp: no_genesis_slot_def AList.delete_eq)
  moreover have "cache_Get t ?c' =
      (if cache_Get s c = None \<and> cache_Size c = pc_maxSlots c \<and>
          t = Min (insert s {u. cache_Get u c \<noteq> None})
       then None else ((\<lambda>u. cache_Get u c)(s \<mapsto> e)) t)" for t
    unfolding oldest over by (simp add: cache_Get_def AList.update_conv' AList.delete_conv')
  ultimately show ?thesis unfolding s_def by blast
qed

definition demo_payload :: "slot \<Rightarrow> unit payload" where
  "demo_payload s = \<lparr>p_ProposalSlot = s, p_build = (), p_BlockHash = [ucast s], p_FeeRecipient = [],
     p_BlockValue = 0, p_ReadyAt = 0, p_activity = \<lparr>act_bids = [], act_reveal = None\<rparr>\<rparr>"

text \<open>A full cache of two slots: slot 9 arrives, slot 5 is evicted, slot 7 stays.\<close>

definition demo_cache :: PayloadCache where
  "demo_cache = \<lparr>pc_payloads = [(7, 7), (5, 5)], pc_maxSlots = 2\<rparr>"

theorem payload_cache_store_witness:
  "\<exists>c'. cache_Store rev (\<lambda>p. demo_payload (of_nat p)) 9 demo_cache = Some c' \<and>
     cache_Get 5 c' = None \<and> cache_Get 7 c' = Some 7 \<and> cache_Get 9 c' = Some 9"
proof -
  let ?h = "\<lambda>p. demo_payload (of_nat p)"
  have ok: "cache_ok ?h demo_cache" "no_genesis_slot demo_cache" "p_ProposalSlot (?h 9) \<noteq> 0"
    by (simp_all add: cache_ok_def no_genesis_slot_def demo_cache_def demo_payload_def)
  have min5: "Min (insert (p_ProposalSlot (?h 9)) {u. cache_Get u demo_cache \<noteq> None}) = 5"
  proof -
    have "{u. cache_Get u demo_cache \<noteq> None} = {7, 5}"
      by (auto simp: cache_Get_def demo_cache_def)
    then show ?thesis by (simp add: demo_payload_def)
  qed
  have cfg: "p_ProposalSlot (?h 9) = 9" "cache_Get 9 demo_cache = None"
    "cache_Size demo_cache = pc_maxSlots demo_cache" "cache_Get 7 demo_cache = Some 7"
    by (simp_all add: demo_payload_def cache_Get_def cache_Size_def demo_cache_def)
  obtain c' where c': "cache_Store rev ?h 9 demo_cache = Some c'"
    "\<forall>t. cache_Get t c' = (if t = 5 then None else ((\<lambda>u. cache_Get u demo_cache)(9 \<mapsto> 9)) t)"
    using payload_cache_store [OF key_order_rev ok] unfolding min5 unfolding cfg by auto
  then show ?thesis using cfg(4) by (intro exI [of _ c']) simp
qed

text \<open>
  Looking a payload up by block hash returns a cached payload with that hash, and fails only
  when no cached payload has it, whatever order the map is visited in; entries added to the
  activity logs in between do not change which payloads qualify.\<close>
theorem payload_by_hash:
  assumes "key_order ord" "cache_ok h c"
  shows "case GetByBlockHash ord (fold activity_step ops h) bh c of
      Some p \<Rightarrow> p_BlockHash (h p) = bh \<and> (\<exists>s. cache_Get s c = Some p \<and> p_ProposalSlot (h p) = s)
    | None \<Rightarrow> (\<forall>s p. cache_Get s c = Some p \<longrightarrow> p_BlockHash (h p) \<noteq> bh)"
proof -
  have hash: "p_BlockHash (fold activity_step ops h p) = p_BlockHash (h p)" for p
    by (rule activity_fold_frame)
  have dist: "distinct (map fst (pc_payloads c))" using assms(2) by (simp add: cache_ok_def)
  note refs = cached_refs [OF assms(1) dist]
  show ?thesis
  proof (cases "GetByBlockHash ord (fold activity_step ops h) bh c")
    case None
    then have "\<forall>p \<in> snd ` set (pc_payloads c). p_BlockHash (h p) \<noteq> bh"
      unfolding GetByBlockHash_def find_map_iff(2) refs hash .
    then show ?thesis using None by (auto simp: cache_Get_def dest!: map_of_SomeD)
  next
    case (Some p)
    then have f: "find (\<lambda>p. p_BlockHash (h p) = bh)
        (map (\<lambda>s. the (map_of (pc_payloads c) s)) (ord (map fst (pc_payloads c)))) = Some p"
      by (simp only: GetByBlockHash_def hash)
    obtain s where "(s, p) \<in> set (pc_payloads c)"
      using find_map_iff(1) [OF f] unfolding refs by auto
    then have "cache_Get s c = Some p" "p_ProposalSlot (h p) = s"
      using dist assms(2) by (auto simp: cache_Get_def map_of_eq_Some_iff cache_ok_def list_all_iff)
    then show ?thesis using Some find_map_iff(1) [OF f] by auto
  qed
qed

theorem payload_by_hash_witness:
  "p_BlockHash (demo_payload 7) = [7] \<and>
   GetByBlockHash rev (\<lambda>p. demo_payload (of_nat p)) [7] demo_cache \<noteq> None"
proof -
  have ok: "cache_ok (\<lambda>p. demo_payload (of_nat p)) demo_cache"
    by (simp add: cache_ok_def demo_cache_def demo_payload_def)
  have c7: "cache_Get 7 demo_cache = Some 7" and h7: "p_BlockHash (demo_payload (of_nat 7)) = [7]"
    by (simp_all add: cache_Get_def demo_cache_def demo_payload_def)
  have "GetByBlockHash rev (\<lambda>p. demo_payload (of_nat p)) [7] demo_cache \<noteq> None"
  proof
    assume "GetByBlockHash rev (\<lambda>p. demo_payload (of_nat p)) [7] demo_cache = None"
    then have "\<forall>s p. cache_Get s demo_cache = Some p \<longrightarrow> p_BlockHash (demo_payload (of_nat p)) \<noteq> [7]"
      using payload_by_hash [OF key_order_rev ok, of "[7]" "[]"] by simp
    with c7 h7 show False by blast
  qed
  then show ?thesis using h7 by simp
qed

text \<open>
  After any sequence of log entries, the payload's bids are the ones appended, in order, its
  reveal is the one it had or else the first one recorded, and its build outputs are unchanged.\<close>
theorem payload_activity_log:
  "Bids p (fold activity_step ops h) = Bids p h @ bids_of p ops \<and>
   Reveal p (fold activity_step ops h) =
     (case Reveal p h of Some r \<Rightarrow> Some r | None \<Rightarrow> first_reveal p ops) \<and>
   p_build (fold activity_step ops h p) = p_build (h p)"
proof (induction ops arbitrary: h)
  case (Cons x ops)
  then show ?case
    by (cases x) (auto simp: Bids_AddBid Reveal_MarkRevealed split: option.splits)
qed (simp split: option.split)

text \<open>
  Slot 0 doubles as the \<open>nothing found yet\<close> marker of the scan: a cache that holds the genesis
  slot evicts a newer slot and keeps the genesis slot when the scan happens to start there.\<close>
lemma evict_genesis_slot:
  "map_option pc_payloads (cache_Store (\<lambda>ks. ks) (\<lambda>p. demo_payload (of_nat p)) 2
     \<lparr>pc_payloads = [(0, 0), (1, 1)], pc_maxSlots = 2\<rparr>) = Some [(0, 0), (2, 2)]"
  by (simp add: cache_Store_def evictOld_def demo_payload_def oldest_scan_def evict_loop.simps)

end
