(* ===== verification/Go_Json.thy ===== *)
theory Go_Json
  imports Go_Codec
begin

text \<open>
  The part of \<open>encoding/json\<close> the sources use, on syntax trees: a document is a \<open>json\<close> value, a
  decoder is a function into \<open>option\<close> (\<open>None\<close> is an \<open>UnmarshalTypeError\<close>), the fields of an
  object are matched without regard to case and the last occurrence wins, \<open>null\<close> leaves the
  target as it is.
\<close>

text \<open>\<open>JFrac\<close> is a number literal with a fraction or an exponent: no integer field accepts it.\<close>

datatype json = JNull | JBool bool | JNum int | JFrac string | JStr string | JArr "json list"
  | JObj "(string \<times> json) list"

text \<open>\<open>strings.ToLower\<close> and \<open>strings.HasSuffix\<close> on ASCII strings.\<close>

definition ascii_lower :: "char \<Rightarrow> char" where
  "ascii_lower c = (let n = of_char c in if 65 \<le> n \<and> n \<le> (90::nat) then char_of (n + 32) else c)"

definition ToLower :: "string \<Rightarrow> string" where
  "ToLower s = map ascii_lower s"

definition HasSuffix :: "string \<Rightarrow> string \<Rightarrow> bool" where
  "HasSuffix s suf \<longleftrightarrow> length suf \<le> length s \<and> drop (length s - length suf) s = suf"

text \<open>Decoding into a string: \<open>null\<close> keeps the old value.\<close>

fun json_string :: "string \<Rightarrow> json \<Rightarrow> string option" where
  "json_string old JNull = Some old"
| "json_string old (JStr s) = Some s"
| "json_string old _ = None"

text \<open>One string field of a struct, from the members of an object.\<close>

fun json_string_field :: "string \<Rightarrow> string \<Rightarrow> (string \<times> json) list \<Rightarrow> string option" where
  "json_string_field name old [] = Some old"
| "json_string_field name old ((k, v) # ms) =
     (if ToLower k = ToLower name
      then Option.bind (json_string old v) (\<lambda>s. json_string_field name s ms)
      else json_string_field name old ms)"

text \<open>
  Struct decoding.  A field is its name and what storing a value into it does; a struct decoder
  goes through the members in order and, when it is strict, rejects names it does not know.\<close>

type_synonym 'a json_field = "string \<times> (json \<Rightarrow> 'a \<Rightarrow> 'a option)"

fun decode_members :: "bool \<Rightarrow> 'a json_field list \<Rightarrow> (string \<times> json) list \<Rightarrow> 'a \<Rightarrow> 'a option" where
  "decode_members strict fs [] x = Some x"
| "decode_members strict fs ((k, v) # ms) x =
     (case find (\<lambda>f. ToLower (fst f) = ToLower k) fs of
        None \<Rightarrow> if strict then None else decode_members strict fs ms x
      | Some f \<Rightarrow> Option.bind (snd f v x) (decode_members strict fs ms))"

fun decode_struct :: "bool \<Rightarrow> 'a json_field list \<Rightarrow> 'a \<Rightarrow> json \<Rightarrow> 'a option" where
  "decode_struct strict fs zero (JObj ms) = decode_members strict fs ms zero"
| "decode_struct strict fs zero JNull = Some zero"
| "decode_struct strict fs zero _ = None"

text \<open>Scalars: \<open>null\<close> keeps the old value of a plain field and clears a pointer.\<close>

fun json_bool :: "bool \<Rightarrow> json \<Rightarrow> bool option" where
  "json_bool old JNull = Some old"
| "json_bool old (JBool b) = Some b"
| "json_bool old _ = None"

fun json_i64_ptr :: "json \<Rightarrow> int option option" where
  "json_i64_ptr JNull = Some None"
| "json_i64_ptr (JNum n) = (if is_i64 n then Some (Some n) else None)"
| "json_i64_ptr _ = None"

fun json_u64_ptr :: "json \<Rightarrow> u64 option option" where
  "json_u64_ptr JNull = Some None"
| "json_u64_ptr (JNum n) =
     (if 0 \<le> n \<and> n < 18446744073709551616 then Some (Some (word_of_int n)) else None)"
| "json_u64_ptr _ = None"

fun json_string_ptr :: "json \<Rightarrow> string option option" where
  "json_string_ptr JNull = Some None"
| "json_string_ptr (JStr s) = Some (Some s)"
| "json_string_ptr _ = None"

text \<open>Encoding with \<open>omitempty\<close>.\<close>

definition omit_none :: "string \<Rightarrow> ('a \<Rightarrow> json) \<Rightarrow> 'a option \<Rightarrow> (string \<times> json) list" where
  "omit_none name enc v = (case v of None \<Rightarrow> [] | Some x \<Rightarrow> [(name, enc x)])"

definition omit_false :: "string \<Rightarrow> bool \<Rightarrow> (string \<times> json) list" where
  "omit_false name b = (if b then [(name, JBool True)] else [])"

definition omit_empty :: "string \<Rightarrow> string \<Rightarrow> (string \<times> json) list" where
  "omit_empty name s = (if s = [] then [] else [(name, JStr s)])"

definition enc_u64 :: "u64 \<Rightarrow> json" where
  "enc_u64 w = JNum (uint w)"

lemma json_u64_enc [simp]: "json_u64_ptr (enc_u64 w) = Some (Some w)"
proof -
  have "uint w < 18446744073709551616" using uint_bounded [of w] by simp
  then show ?thesis by (simp add: enc_u64_def)
qed

lemma decode_members_append:
  "decode_members strict fs (xs @ ys) =
     (\<lambda>x. Option.bind (decode_members strict fs xs x) (decode_members strict fs ys))"
proof (induction xs)
  case (Cons a xs)
  obtain k v where a: "a = (k, v)" by (cases a)
  show ?case
  proof (rule ext)
    fix x
    show "decode_members strict fs ((a # xs) @ ys) x =
        Option.bind (decode_members strict fs (a # xs) x) (decode_members strict fs ys)"
      unfolding a append_Cons decode_members.simps Cons
      by (simp split: option.splits)
  qed
qed (simp add: fun_eq_iff)

end
