(* ===== verification/Chain_Spec.thy ===== *)
theory Chain_Spec
  imports Go_Json
begin

text \<open>
  \<open>pkg/chain/spec.go\<close>, \<open>engineversion.go\<close>, \<open>constants.go\<close> and the clock of \<open>service.go\<close>: the
  chain specification parsed from a beacon node, the fork schedule and its lookups, the
  correspondence of beacon and engine forks, and the conversions between slots, epochs and time.

  The fork enumeration belongs to the beacon client library; its constants are used here in the
  order of the forks.  Its string parser and \<open>common.HexToAddress\<close> are the arguments
  \<open>forkFromString\<close> and \<open>hexToAddress\<close>.  The map of spec values is ranged over, so
  \<open>parseSpecData\<close> takes the order of the keys.
\<close>

section \<open>Forks\<close>

datatype DataVersion = DataVersionUnknown | DataVersionPhase0 | DataVersionAltair
  | DataVersionBellatrix | DataVersionCapella | DataVersionDeneb | DataVersionElectra
  | DataVersionFulu | DataVersionGloas | DataVersionHeze

fun version_num :: "DataVersion \<Rightarrow> nat" where
  "version_num DataVersionUnknown = 0"
| "version_num DataVersionPhase0 = 1"
| "version_num DataVersionAltair = 2"
| "version_num DataVersionBellatrix = 3"
| "version_num DataVersionCapella = 4"
| "version_num DataVersionDeneb = 5"
| "version_num DataVersionElectra = 6"
| "version_num DataVersionFulu = 7"
| "version_num DataVersionGloas = 8"
| "version_num DataVersionHeze = 9"

lemma version_num_inj [simp]: "version_num a = version_num b \<longleftrightarrow> a = b"
  by (cases a; cases b) simp_all

instantiation DataVersion :: linorder
begin

definition less_eq_DataVersion :: "DataVersion \<Rightarrow> DataVersion \<Rightarrow> bool" where
  "less_eq_DataVersion a b \<longleftrightarrow> version_num a \<le> version_num b"

definition less_DataVersion :: "DataVersion \<Rightarrow> DataVersion \<Rightarrow> bool" where
  "less_DataVersion a b \<longleftrightarrow> version_num a < version_num b"

instance
  by standard (auto simp: less_eq_DataVersion_def less_DataVersion_def)

end

datatype EngineDataVersion = EngineUnknown | EngineParis | EngineShanghai | EngineCancun
  | EnginePrague | EngineOsaka | EngineAmsterdam | EngineBogota

fun EngineVersion :: "DataVersion \<Rightarrow> EngineDataVersion option" where
  "EngineVersion DataVersionBellatrix = Some EngineParis"
| "EngineVersion DataVersionCapella = Some EngineShanghai"
| "EngineVersion DataVersionDeneb = Some EngineCancun"
| "EngineVersion DataVersionElectra = Some EnginePrague"
| "EngineVersion DataVersionFulu = Some EngineOsaka"
| "EngineVersion DataVersionGloas = Some EngineAmsterdam"
| "EngineVersion DataVersionHeze = Some EngineBogota"
| "EngineVersion _ = None"

fun BeaconVersion :: "EngineDataVersion \<Rightarrow> DataVersion option" where
  "BeaconVersion EngineParis = Some DataVersionBellatrix"
| "BeaconVersion EngineShanghai = Some DataVersionCapella"
| "BeaconVersion EngineCancun = Some DataVersionDeneb"
| "BeaconVersion EnginePrague = Some DataVersionElectra"
| "BeaconVersion EngineOsaka = Some DataVersionFulu"
| "BeaconVersion EngineAmsterdam = Some DataVersionGloas"
| "BeaconVersion EngineBogota = Some DataVersionHeze"
| "BeaconVersion EngineUnknown = None"

section \<open>The specification\<close>

record ForkSchedule =
  fs_Fork :: DataVersion
  fs_Version :: "u8 list"
  fs_Epoch :: epoch

record BlobScheduleEntry =
  bs_Epoch :: u64
  bs_MaxBlobsPerBlock :: u64

record ChainSpec =
  SecondsPerSlot :: duration
  SlotsPerEpoch :: u64
  ShuffleRoundCount :: u64
  TargetCommitteeSize :: u64
  MaxCommitteesPerSlot :: u64
  MaxEffectiveBalance :: u64
  MaxEffectiveBalanceElectra :: u64
  EpochsPerHistoricalVector :: u64
  MinSeedLookahead :: u64
  MinPerEpochChurnLimit :: u64
  ChurnLimitQuotient :: u64
  MaxPerEpochActivationExitChurnLimit :: u64
  MaxPendingDepositsPerEpoch :: u64
  MinActivationBalance :: u64
  EffectiveBalanceIncrement :: u64
  MaxWithdrawalsPerPayload :: u64
  DomainBeaconProposer :: "u8 list"
  DomainBeaconAttester :: "u8 list"
  DomainPtcAttester :: "u8 list"
  DomainProposerPreferences :: "u8 list"
  cs_ForkSchedule :: "ForkSchedule list"
  BlobSchedule :: "BlobScheduleEntry list option"
  PtcSize :: u64
  DepositContractAddress :: "u8 list option"

text \<open>The lookups that scan the schedule for the first entry of a fork.\<close>

definition fork_entry :: "ForkSchedule list \<Rightarrow> DataVersion \<Rightarrow> ForkSchedule option" where
  "fork_entry fs fork = find (\<lambda>f. fs_Fork f = fork) fs"

definition IsForkScheduled :: "ChainSpec \<Rightarrow> DataVersion \<Rightarrow> bool" where
  "IsForkScheduled s fork =
     (case fork_entry (cs_ForkSchedule s) fork of Some f \<Rightarrow> fs_Epoch f < max_u64 | None \<Rightarrow> False)"

definition IsForkActive :: "ChainSpec \<Rightarrow> DataVersion \<Rightarrow> epoch \<Rightarrow> bool" where
  "IsForkActive s fork epoch =
     (case fork_entry (cs_ForkSchedule s) fork of Some f \<Rightarrow> fs_Epoch f \<le> epoch | None \<Rightarrow> False)"

definition GetForkEpoch :: "ChainSpec \<Rightarrow> DataVersion \<Rightarrow> epoch" where
  "GetForkEpoch s fork =
     (case fork_entry (cs_ForkSchedule s) fork of Some f \<Rightarrow> fs_Epoch f | None \<Rightarrow> max_u64)"

definition spec_GetForkVersion :: "ChainSpec \<Rightarrow> DataVersion \<Rightarrow> u8 list option" where
  "spec_GetForkVersion s fork = map_option fs_Version (fork_entry (cs_ForkSchedule s) fork)"

text \<open>\<open>ActiveForkAtEpoch\<close>: the loop stops at the first entry that is not active yet.\<close>

fun active_fork_loop :: "epoch \<Rightarrow> DataVersion \<Rightarrow> ForkSchedule list \<Rightarrow> DataVersion" where
  "active_fork_loop epoch latest [] = latest"
| "active_fork_loop epoch latest (f # fs) =
     (if fs_Epoch f \<le> epoch then active_fork_loop epoch (fs_Fork f) fs else latest)"

definition ActiveForkAtEpoch :: "ChainSpec \<Rightarrow> epoch \<Rightarrow> DataVersion" where
  "ActiveForkAtEpoch s epoch = active_fork_loop epoch DataVersionPhase0 (cs_ForkSchedule s)"

section \<open>Parsing\<close>

datatype spec_error = SecondsPerSlotNotFound | InvalidSecondsPerSlot | SlotsPerEpochNotFound
  | InvalidSlotsPerEpoch | ForkVersionNotHex | ForkVersionLength nat | InvalidForkEpoch

type_synonym spec_data = "string \<rightharpoonup> string"

definition parseSpecUint64 :: "spec_data \<Rightarrow> string \<Rightarrow> u64 option" where
  "parseSpecUint64 data key = Option.bind (data key) ParseUint"

definition parseSpecDomainType :: "spec_data \<Rightarrow> string \<Rightarrow> u8 list option" where
  "parseSpecDomainType data key =
     (case data key of
        None \<Rightarrow> None
      | Some s \<Rightarrow>
          (case hex_DecodeString (TrimPrefix s ''0x'') of
             None \<Rightarrow> None
           | Some b \<Rightarrow> if length b = 4 then Some b else None))"

text \<open>\<open>if v, err := parse(...); err == nil { field = v }\<close> on a field that is still zero.\<close>

definition uint_or_zero :: "spec_data \<Rightarrow> string \<Rightarrow> u64" where
  "uint_or_zero data key = (case parseSpecUint64 data key of Some v \<Rightarrow> v | None \<Rightarrow> 0)"

definition domain_or_zero :: "spec_data \<Rightarrow> string \<Rightarrow> u8 list" where
  "domain_or_zero data key =
     (case parseSpecDomainType data key of Some v \<Rightarrow> v | None \<Rightarrow> [0, 0, 0, 0])"

text \<open>One key of the fork loop: \<open>None\<close> when the loop moves on, otherwise an error or an entry.\<close>

definition fork_suffix :: string where
  "fork_suffix = ''_FORK_VERSION''"

definition parse_fork_key ::
  "(string \<Rightarrow> DataVersion option) \<Rightarrow> spec_data \<Rightarrow> string \<Rightarrow> (spec_error + ForkSchedule) option" where
  "parse_fork_key forkFromString data key =
     (if HasSuffix key fork_suffix \<and> key \<noteq> ''GENESIS_FORK_VERSION'' then
        (let forkKey = take (length key - length fork_suffix) key in
         case forkFromString (ToLower forkKey) of
           None \<Rightarrow> None
         | Some fork \<Rightarrow>
             (case hex_DecodeString (TrimPrefix (the (data key)) ''0x'') of
                None \<Rightarrow> Some (Inl ForkVersionNotHex)
              | Some b \<Rightarrow>
                  if length b \<noteq> 4 then Some (Inl (ForkVersionLength (length b)))
                  else
                    (case data (forkKey @ ''_FORK_EPOCH'') of
                       None \<Rightarrow> Some (Inr \<lparr>fs_Fork = fork, fs_Version = b, fs_Epoch = max_u64\<rparr>)
                     | Some e \<Rightarrow>
                         (case ParseUint e of
                            None \<Rightarrow> Some (Inl InvalidForkEpoch)
                          | Some n \<Rightarrow> Some (Inr \<lparr>fs_Fork = fork, fs_Version = b, fs_Epoch = n\<rparr>)))))
      else None)"

fun fork_loop ::
  "(string \<Rightarrow> DataVersion option) \<Rightarrow> spec_data \<Rightarrow> string list \<Rightarrow> ForkSchedule list
     \<Rightarrow> spec_error + ForkSchedule list" where
  "fork_loop forkFromString data [] acc = Inr acc"
| "fork_loop forkFromString data (key # keys) acc =
     (case parse_fork_key forkFromString data key of
        None \<Rightarrow> fork_loop forkFromString data keys acc
      | Some (Inl err) \<Rightarrow> Inl err
      | Some (Inr f) \<Rightarrow> fork_loop forkFromString data keys (acc @ [f]))"

text \<open>The blob schedule: entries with two string fields; numbers that do not parse become zero.\<close>

definition blob_entry :: "json \<Rightarrow> (string \<times> string) option" where
  "blob_entry j =
     (case j of
        JNull \<Rightarrow> Some ('''', '''')
      | JObj ms \<Rightarrow>
          Option.bind (json_string_field ''EPOCH'' '''' ms) (\<lambda>e.
            map_option (Pair e) (json_string_field ''MAX_BLOBS_PER_BLOCK'' '''' ms))
      | _ \<Rightarrow> None)"

definition blob_entries :: "json \<Rightarrow> (string \<times> string) list option" where
  "blob_entries j =
     (case j of
        JNull \<Rightarrow> Some []
      | JArr es \<Rightarrow>
          (if list_all (\<lambda>e. blob_entry e \<noteq> None) es then Some (map (the \<circ> blob_entry) es) else None)
      | _ \<Rightarrow> None)"

text \<open>
  \<open>n, _ := strconv.ParseUint(s, 10, 64)\<close> with the error ignored: zero on a character that is not
  a digit, the maximum once the digits read so far overflow.\<close>

fun parse_uint_scan :: "nat \<Rightarrow> string \<Rightarrow> u64" where
  "parse_uint_scan acc [] = of_nat acc"
| "parse_uint_scan acc (c # cs) =
     (case digit_val c of
        None \<Rightarrow> 0
      | Some d \<Rightarrow> if 10 * acc + d < 18446744073709551616 then parse_uint_scan (10 * acc + d) cs
                 else max_u64)"

definition parse_uint_ignoring :: "string \<Rightarrow> u64" where
  "parse_uint_ignoring s = parse_uint_scan 0 s"

definition parse_blob_schedule :: "json \<Rightarrow> BlobScheduleEntry list" where
  "parse_blob_schedule raw =
     (case blob_entries raw of
        None \<Rightarrow> []
      | Some es \<Rightarrow> map (\<lambda>(e, b). \<lparr>bs_Epoch = parse_uint_ignoring e,
                                    bs_MaxBlobsPerBlock = parse_uint_ignoring b\<rparr>) es)"

definition parseSpecData ::
  "(string \<Rightarrow> DataVersion option) \<Rightarrow> (string \<Rightarrow> u8 list) \<Rightarrow> string list
     \<Rightarrow> spec_data \<Rightarrow> (string \<rightharpoonup> json) \<Rightarrow> spec_error + ChainSpec" where
  "parseSpecData forkFromString hexToAddress keys specData rawData =
     (case specData ''SECONDS_PER_SLOT'' of None \<Rightarrow> Inl SecondsPerSlotNotFound | Some sps \<Rightarrow>
     (case ParseUint sps of None \<Rightarrow> Inl InvalidSecondsPerSlot | Some secondsPerSlot \<Rightarrow>
     (case specData ''SLOTS_PER_EPOCH'' of None \<Rightarrow> Inl SlotsPerEpochNotFound | Some spe \<Rightarrow>
     (case ParseUint spe of None \<Rightarrow> Inl InvalidSlotsPerEpoch | Some slotsPerEpoch \<Rightarrow>
     (case fork_loop forkFromString specData keys [] of Inl err \<Rightarrow> Inl err | Inr forkSchedule \<Rightarrow>
      Inr \<lparr>SecondsPerSlot = dur_mul (i64_of_u64 secondsPerSlot) nanos_per_s,
           SlotsPerEpoch = slotsPerEpoch,
           ShuffleRoundCount = uint_or_zero specData ''SHUFFLE_ROUND_COUNT'',
           TargetCommitteeSize = uint_or_zero specData ''TARGET_COMMITTEE_SIZE'',
           MaxCommitteesPerSlot = uint_or_zero specData ''MAX_COMMITTEES_PER_SLOT'',
           MaxEffectiveBalance = uint_or_zero specData ''MAX_EFFECTIVE_BALANCE'',
           MaxEffectiveBalanceElectra = uint_or_zero specData ''MAX_EFFECTIVE_BALANCE_ELECTRA'',
           EpochsPerHistoricalVector = uint_or_zero specData ''EPOCHS_PER_HISTORICAL_VECTOR'',
           MinSeedLookahead = uint_or_zero specData ''MIN_SEED_LOOKAHEAD'',
           MinPerEpochChurnLimit = uint_or_zero specData ''MIN_PER_EPOCH_CHURN_LIMIT'',
           ChurnLimitQuotient = uint_or_zero specData ''CHURN_LIMIT_QUOTIENT'',
           MaxPerEpochActivationExitChurnLimit =
             uint_or_zero specData ''MAX_PER_EPOCH_ACTIVATION_EXIT_CHURN_LIMIT'',
           MaxPendingDepositsPerEpoch = uint_or_zero specData ''MAX_PENDING_DEPOSITS_PER_EPOCH'',
           MinActivationBalance = uint_or_zero specData ''MIN_ACTIVATION_BALANCE'',
           EffectiveBalanceIncrement = uint_or_zero specData ''EFFECTIVE_BALANCE_INCREMENT'',
           MaxWithdrawalsPerPayload =
             (case parseSpecUint64 specData ''MAX_WITHDRAWALS_PER_PAYLOAD'' of
                Some v \<Rightarrow> v | None \<Rightarrow> 16),
           DomainBeaconProposer = domain_or_zero specData ''DOMAIN_BEACON_PROPOSER'',
           DomainBeaconAttester = domain_or_zero specData ''DOMAIN_BEACON_ATTESTER'',
           DomainPtcAttester = domain_or_zero specData ''DOMAIN_PTC_ATTESTER'',
           DomainProposerPreferences = domain_or_zero specData ''DOMAIN_PROPOSER_PREFERENCES'',
           cs_ForkSchedule = sort_key fs_Fork forkSchedule,
           BlobSchedule = map_option parse_blob_schedule (rawData ''BLOB_SCHEDULE''),
           PtcSize = uint_or_zero specData ''PTC_SIZE'',
           DepositContractAddress =
             map_option hexToAddress (specData ''DEPOSIT_CONTRACT_ADDRESS'')\<rparr>)))))"

section \<open>Slots, epochs and time\<close>

definition SlotToTime :: "ChainSpec \<Rightarrow> gotime \<Rightarrow> slot \<Rightarrow> gotime" where
  "SlotToTime spec genesisTime s = time_add genesisTime (dur_mul (i64_of_u64 s) (SecondsPerSlot spec))"

definition TimeToSlot :: "ChainSpec \<Rightarrow> gotime \<Rightarrow> gotime \<Rightarrow> slot" where
  "TimeToSlot spec genesisTime t =
     (if t < genesisTime then 0
      else u64_of_i64 (time_sub t genesisTime sdiv SecondsPerSlot spec))"

definition GetEpochOfSlot :: "ChainSpec \<Rightarrow> slot \<Rightarrow> epoch" where
  "GetEpochOfSlot spec s = s div SlotsPerEpoch spec"

definition GetCurrentSlot :: "ChainSpec \<Rightarrow> gotime \<Rightarrow> gotime \<Rightarrow> slot" where
  "GetCurrentSlot spec genesisTime now = TimeToSlot spec genesisTime now"

definition GetCurrentEpoch :: "ChainSpec \<Rightarrow> gotime \<Rightarrow> gotime \<Rightarrow> epoch" where
  "GetCurrentEpoch spec genesisTime now = TimeToSlot spec genesisTime now div SlotsPerEpoch spec"

definition GetCurrentFork :: "ChainSpec \<Rightarrow> gotime \<Rightarrow> gotime \<Rightarrow> DataVersion" where
  "GetCurrentFork spec genesisTime now = ActiveForkAtEpoch spec (GetCurrentEpoch spec genesisTime now)"

definition GetForkVersion :: "ChainSpec \<Rightarrow> gotime \<Rightarrow> gotime \<Rightarrow> u8 list option" where
  "GetForkVersion spec genesisTime now = spec_GetForkVersion spec (GetCurrentFork spec genesisTime now)"

text \<open>
  What a usable specification has: a positive slot length and epoch length (the program divides
  by both), and a schedule in fork order whose activation epochs are in the same order.
\<close>

definition time_spec_ok :: "ChainSpec \<Rightarrow> bool" where
  "time_spec_ok spec \<longleftrightarrow> 0 < SecondsPerSlot spec \<and> 0 < SlotsPerEpoch spec"

definition fork_schedule_ok :: "ChainSpec \<Rightarrow> bool" where
  "fork_schedule_ok spec \<longleftrightarrow>
     sorted (map fs_Fork (cs_ForkSchedule spec)) \<and> distinct (map fs_Fork (cs_ForkSchedule spec)) \<and>
     sorted (map fs_Epoch (cs_ForkSchedule spec))"

text \<open>The times a duration since genesis can express.\<close>

definition time_in_range :: "gotime \<Rightarrow> gotime \<Rightarrow> bool" where
  "time_in_range genesisTime t \<longleftrightarrow> genesisTime \<le> t \<and> t - genesisTime \<le> max_i64"


section \<open>The fork schedule\<close>

lemma fork_entry_Some:
  "fork_entry fs fork = Some f \<Longrightarrow> f \<in> set fs \<and> fs_Fork f = fork"
  by (auto simp: fork_entry_def find_Some_iff)

lemma fork_entry_distinct:
  assumes "distinct (map fs_Fork fs)" "f \<in> set fs"
  shows "fork_entry fs (fs_Fork f) = Some f"
  using assms by (induction fs) (auto simp: fork_entry_def)

lemma fork_entry_None: "fork_entry fs fork = None \<longleftrightarrow> fork \<notin> fs_Fork ` set fs"
  by (auto simp: fork_entry_def find_None_iff)

text \<open>On a schedule in epoch order the loop returns the last of the active entries.\<close>

lemma active_fork_loop_filter:
  "sorted (map fs_Epoch fs) \<Longrightarrow>
   active_fork_loop e latest fs = last (latest # map fs_Fork (filter (\<lambda>f. fs_Epoch f \<le> e) fs))"
proof (induction fs arbitrary: latest)
  case (Cons f fs)
  show ?case
  proof (cases "fs_Epoch f \<le> e")
    case True
    then show ?thesis using Cons by simp
  next
    case False
    then have "filter (\<lambda>f. fs_Epoch f \<le> e) (f # fs) = []"
      using Cons.prems by (force simp: filter_empty_conv)
    then show ?thesis using False by simp
  qed
qed simp

lemma last_filter_le:
  assumes "sorted (map g (filter P xs))" "x \<in> set xs" "P x"
  shows "g x \<le> last (y # map g (filter P xs))"
proof -
  have mem: "g x \<in> set (map g (filter P xs))" using assms(2,3) by auto
  then have ne: "map g (filter P xs) \<noteq> []" by (auto simp: filter_empty_conv)
  have "sorted ys \<Longrightarrow> z \<in> set ys \<Longrightarrow> z \<le> last ys" for z :: "'a::linorder" and ys
    by (induction ys) auto
  from this [OF assms(1) mem] ne show ?thesis by simp
qed

lemma sorted_filter_map: "sorted (map g xs) \<Longrightarrow> sorted (map g (filter P xs))"
  by (induction xs) auto

lemma sorted_keys_epoch:
  assumes "sorted (map fs_Fork fs)" "distinct (map fs_Fork fs)" "sorted (map fs_Epoch fs)"
    and "f \<in> set fs" "a \<in> set fs" "fs_Fork f \<le> fs_Fork a"
  shows "fs_Epoch f \<le> fs_Epoch a"
  using assms
proof (induction fs)
  case (Cons b fs)
  then show ?case by (auto simp: image_iff) (metis leD order_le_less)+
qed simp

section \<open>Parsing\<close>

text \<open>The entry a key contributes, if any.\<close>

definition key_entry ::
  "(string \<Rightarrow> DataVersion option) \<Rightarrow> spec_data \<Rightarrow> string \<Rightarrow> ForkSchedule option" where
  "key_entry ffs data k =
     (case parse_fork_key ffs data k of Some (Inr f) \<Rightarrow> Some f | _ \<Rightarrow> None)"

lemma key_entry_Some: "key_entry ffs data k = Some f \<longleftrightarrow> parse_fork_key ffs data k = Some (Inr f)"
  by (auto simp: key_entry_def split: option.splits sum.splits)

text \<open>The loop succeeds when no key is in error, and then collects one entry per fork key.\<close>

lemma fork_loop_Inr:
  "fork_loop ffs data keys acc = Inr fs \<longleftrightarrow>
     (\<forall>k \<in> set keys. \<forall>e. parse_fork_key ffs data k \<noteq> Some (Inl e)) \<and>
     fs = acc @ List.map_filter (key_entry ffs data) keys"
proof (induction keys arbitrary: acc)
  case Nil
  then show ?case by (auto simp: List.map_filter_def)
next
  case (Cons k keys)
  show ?case
    by (cases "parse_fork_key ffs data k")
      (auto simp: List.map_filter_simps key_entry_def Cons split: sum.splits)
qed

text \<open>Different keys never name the same fork.\<close>

definition forks_unique :: "(string \<Rightarrow> DataVersion option) \<Rightarrow> spec_data \<Rightarrow> bool" where
  "forks_unique ffs data \<longleftrightarrow>
     (\<forall>k \<in> dom data. \<forall>k' \<in> dom data. \<forall>f f'. key_entry ffs data k = Some f \<longrightarrow> key_entry ffs data k' = Some f' \<longrightarrow>
        fs_Fork f = fs_Fork f' \<longrightarrow> k = k')"

lemma set_map_filter_entries:
  "set (List.map_filter (key_entry ffs data) keys) = {f. \<exists>k \<in> set keys. key_entry ffs data k = Some f}"
  by (force simp: List.map_filter_def)

lemma entries_distinct:
  assumes "forks_unique ffs data" "distinct keys" "set keys \<subseteq> dom data"
  shows "distinct (map fs_Fork (List.map_filter (key_entry ffs data) keys))"
  using assms(2,3)
proof (induction keys)
  case (Cons k keys)
  show ?case
  proof (cases "key_entry ffs data k")
    case (Some f)
    have "fs_Fork f \<notin> fs_Fork ` set (List.map_filter (key_entry ffs data) keys)"
      using Cons.prems Some assms(1) unfolding set_map_filter_entries forks_unique_def by fastforce
    then show ?thesis using Cons Some by (simp add: List.map_filter_simps)
  qed (use Cons in \<open>simp add: List.map_filter_simps\<close>)
qed (simp add: List.map_filter_def)

lemma sort_entries_unique:
  assumes "distinct (map f xs)" "distinct (map f ys)" "set xs = set ys"
  shows "sort_key f xs = sort_key f ys"
proof (rule map_sorted_distinct_set_unique)
  show "inj_on f (set (sort_key f xs) \<union> set (sort_key f ys))"
    using assms by (simp add: distinct_map)
  show "distinct (map f (sort_key f xs))" "distinct (map f (sort_key f ys))"
    using assms by (simp_all add: distinct_map)
qed (use assms in simp_all)

section \<open>Slots and time\<close>

lemma SlotToTime_exact:
  assumes "0 < SecondsPerSlot spec" "uint s * SecondsPerSlot spec \<le> max_i64"
  shows "SlotToTime spec g s = g + uint s * SecondsPerSlot spec"
proof -
  have "uint s * 1 \<le> uint s * SecondsPerSlot spec" using assms(1) by (intro mult_left_mono) auto
  then have "i64_of_u64 s = uint s" using assms(2) by (intro i64_of_u64_small) simp
  moreover have "0 \<le> uint s * SecondsPerSlot spec" using assms(1) by simp
  ultimately show ?thesis
    using assms(2) by (simp add: SlotToTime_def time_add_def dur_mul_exact is_i64_def min_i64_def)
qed

lemma TimeToSlot_exact:
  assumes "0 < SecondsPerSlot spec" "time_in_range g t"
  shows "uint (TimeToSlot spec g t) = (t - g) div SecondsPerSlot spec"
proof -
  let ?d = "SecondsPerSlot spec"
  have r: "0 \<le> t - g" "t - g \<le> max_i64" using assms(2) by (simp_all add: time_in_range_def)
  then have "time_sub t g = t - g" by (intro time_sub_exact) (simp add: is_i64_def min_i64_def)
  moreover have "(t - g) sdiv ?d = (t - g) div ?d"
    using r(1) assms(1) by (rule sdiv_nonneg)
  moreover have "0 \<le> (t - g) div ?d" using r(1) assms(1) by (simp add: pos_imp_zdiv_nonneg_iff)
  moreover have "(t - g) div ?d \<le> t - g"
    using r(1) assms(1) zdiv_mono2 [of "t - g" 1 ?d] by simp
  ultimately show ?thesis
    using r assms(1)
    by (auto simp: TimeToSlot_def u64_of_i64_def word_of_int_inverse max_i64_def uint_word_of_int)
qed

section \<open>Properties\<close>

text \<open>
  Parsing the chain specification does not depend on the order in which the spec map is
  visited: with one key per fork, if it succeeds in one order it succeeds in every order with the
  same result.  The resulting schedule is in fork order, has at most one entry per fork, and holds
  exactly the entries of the well-formed fork keys, with an epoch of 2^64-1 where none is given.\<close>
theorem chain_spec_parse:
  assumes "range_order keys data" "range_order keys' data" "forks_unique ffs data"
    and "parseSpecData ffs addr keys data raw = Inr spec"
  shows "parseSpecData ffs addr keys' data raw = Inr spec \<and>
    sorted (map fs_Fork (cs_ForkSchedule spec)) \<and>
    distinct (map fs_Fork (cs_ForkSchedule spec)) \<and>
    set (cs_ForkSchedule spec) = {f. \<exists>k \<in> dom data. parse_fork_key ffs data k = Some (Inr f)}"
proof -
  obtain fs where fs: "fork_loop ffs data keys [] = Inr fs"
    using assms(4) by (auto simp: parseSpecData_def split: option.splits sum.splits)
  let ?fs' = "List.map_filter (key_entry ffs data) keys'"
  have sets: "set keys = dom data" "set keys' = dom data" "distinct keys" "distinct keys'"
    using assms(1,2) by (auto simp: range_order_def)
  have fs_eq: "fs = List.map_filter (key_entry ffs data) keys" using fs fork_loop_Inr by fastforce
  have fs': "fork_loop ffs data keys' [] = Inr ?fs'"
    using fs sets unfolding fork_loop_Inr by simp
  have dist: "distinct (map fs_Fork fs)" "distinct (map fs_Fork ?fs')"
    using entries_distinct [OF assms(3)] sets fs_eq by auto
  have same: "sort_key fs_Fork ?fs' = sort_key fs_Fork fs"
    using dist sets unfolding fs_eq
    by (intro sort_entries_unique) (simp_all only: set_map_filter_entries)
  have parse: "parseSpecData ffs addr keys' data raw = parseSpecData ffs addr keys data raw"
    unfolding parseSpecData_def fs fs' using same by (simp split: option.splits)
  have sched: "cs_ForkSchedule spec = sort_key fs_Fork fs"
    using assms(4) fs by (auto simp: parseSpecData_def split: option.splits)
  have "set fs = {f. \<exists>k \<in> dom data. parse_fork_key ffs data k = Some (Inr f)}"
    unfolding fs_eq set_map_filter_entries sets
    by (simp add: key_entry_Some)
  then show ?thesis
    using parse assms(4) sched dist(1) by (simp add: distinct_map)
qed

text \<open>A small specification: two forks, the second without an epoch.\<close>

definition demo_fork :: "string \<Rightarrow> DataVersion option" where
  "demo_fork s = (if s = ''fulu'' then Some DataVersionFulu
     else if s = ''gloas'' then Some DataVersionGloas else None)"

definition demo_spec_data :: spec_data where
  "demo_spec_data = [''SECONDS_PER_SLOT'' \<mapsto> ''12'', ''SLOTS_PER_EPOCH'' \<mapsto> ''32'',
     ''GLOAS_FORK_VERSION'' \<mapsto> ''0x80000000'', ''FULU_FORK_VERSION'' \<mapsto> ''0x70000000'',
     ''FULU_FORK_EPOCH'' \<mapsto> ''5'']"

definition demo_spec_keys :: "string list" where
  "demo_spec_keys = [''GLOAS_FORK_VERSION'', ''SECONDS_PER_SLOT'', ''FULU_FORK_EPOCH'',
     ''FULU_FORK_VERSION'', ''SLOTS_PER_EPOCH'']"


text \<open>Rules that evaluate string functions on literals.\<close>

lemmas string_eval = ToLower_def ascii_lower_def char_of_def HasSuffix_def fork_suffix_def
  hex_val_def digit_val_def ParseUint_def TrimPrefix_def Let_def bit_0

lemma demo_entries:
  "parse_fork_key demo_fork demo_spec_data ''GLOAS_FORK_VERSION'' =
     Some (Inr \<lparr>fs_Fork = DataVersionGloas, fs_Version = [128, 0, 0, 0], fs_Epoch = max_u64\<rparr>)"
  "parse_fork_key demo_fork demo_spec_data ''FULU_FORK_VERSION'' =
     Some (Inr \<lparr>fs_Fork = DataVersionFulu, fs_Version = [112, 0, 0, 0], fs_Epoch = 5\<rparr>)"
  "parse_fork_key demo_fork demo_spec_data ''SECONDS_PER_SLOT'' = None"
  "parse_fork_key demo_fork demo_spec_data ''SLOTS_PER_EPOCH'' = None"
  "parse_fork_key demo_fork demo_spec_data ''FULU_FORK_EPOCH'' = None"
  by (simp_all add: parse_fork_key_def demo_fork_def demo_spec_data_def string_eval)

lemma demo_dom: "dom demo_spec_data = set demo_spec_keys"
  by (auto simp: demo_spec_data_def demo_spec_keys_def)

lemma demo_forks_unique: "forks_unique demo_fork demo_spec_data"
  unfolding forks_unique_def demo_dom
  by (simp add: demo_spec_keys_def key_entry_def demo_entries)

lemma demo_parse:
  "\<exists>spec. parseSpecData demo_fork (\<lambda>_. []) demo_spec_keys demo_spec_data (\<lambda>_. None) = Inr spec \<and>
     SlotsPerEpoch spec = 32 \<and> SecondsPerSlot spec = 12 * nanos_per_s \<and>
     map fs_Epoch (cs_ForkSchedule spec) = [5, max_u64]"
proof -
  have loop: "fork_loop demo_fork demo_spec_data demo_spec_keys [] =
      Inr [\<lparr>fs_Fork = DataVersionGloas, fs_Version = [128, 0, 0, 0], fs_Epoch = max_u64\<rparr>,
           \<lparr>fs_Fork = DataVersionFulu, fs_Version = [112, 0, 0, 0], fs_Epoch = 5\<rparr>]"
    by (simp add: demo_spec_keys_def demo_entries)
  have times: "demo_spec_data ''SECONDS_PER_SLOT'' = Some ''12''"
    "demo_spec_data ''SLOTS_PER_EPOCH'' = Some ''32''" "ParseUint ''12'' = Some 12"
    "ParseUint ''32'' = Some 32"
    by (simp_all add: demo_spec_data_def string_eval)
  have "dur_mul (i64_of_u64 12) nanos_per_s = 12 * nanos_per_s"
    by (simp add: dur_mul_def i64_of_u64_def swrap64_def nanos_per_s_def)
  then show ?thesis
    by (simp add: parseSpecData_def loop times less_eq_DataVersion_def)
qed

theorem chain_spec_parse_witness:
  "\<exists>spec. parseSpecData demo_fork (\<lambda>_. []) (rev demo_spec_keys) demo_spec_data (\<lambda>_. None) = Inr spec \<and>
     sorted (map fs_Fork (cs_ForkSchedule spec)) \<and> length (cs_ForkSchedule spec) = 2"
proof -
  obtain spec where p: "parseSpecData demo_fork (\<lambda>_. []) demo_spec_keys demo_spec_data (\<lambda>_. None) = Inr spec"
    and f: "map fs_Epoch (cs_ForkSchedule spec) = [5, max_u64]"
    using demo_parse by auto
  have o: "range_order demo_spec_keys demo_spec_data" "range_order (rev demo_spec_keys) demo_spec_data"
    by (simp_all add: range_order_def demo_dom) (simp_all add: demo_spec_keys_def)
  have "length (cs_ForkSchedule spec) = 2" using arg_cong [OF f, of length] by simp
  then show ?thesis using chain_spec_parse [OF o demo_forks_unique p] by blast
qed

text \<open>
  On a schedule whose forks and epochs are both in ascending order, the active fork is the
  highest one whose epoch has come: a scheduled fork is active at an epoch exactly when it is at
  most the active fork, and the active fork is phase 0 or itself an active entry.\<close>
theorem active_fork_highest:
  assumes "fork_schedule_ok spec" "fork \<in> fs_Fork ` set (cs_ForkSchedule spec)"
    and "DataVersionPhase0 < fork"
  shows "(IsForkActive spec fork epoch \<longleftrightarrow> fork \<le> ActiveForkAtEpoch spec epoch) \<and>
    (ActiveForkAtEpoch spec epoch = DataVersionPhase0 \<or>
     IsForkActive spec (ActiveForkAtEpoch spec epoch) epoch) \<and>
    (IsForkActive spec fork epoch \<longleftrightarrow> GetForkEpoch spec fork \<le> epoch)"
proof -
  let ?fs = "cs_ForkSchedule spec"
  let ?act = "filter (\<lambda>f. fs_Epoch f \<le> epoch) ?fs"
  have sch: "sorted (map fs_Fork ?fs)" "distinct (map fs_Fork ?fs)" "sorted (map fs_Epoch ?fs)"
    using assms(1) by (simp_all add: fork_schedule_ok_def)
  obtain f where f: "f \<in> set ?fs" "fs_Fork f = fork" using assms(2) by auto
  have ent: "fork_entry ?fs fork = Some f" using fork_entry_distinct [OF sch(2) f(1)] f(2) by simp
  have last: "ActiveForkAtEpoch spec epoch = last (DataVersionPhase0 # map fs_Fork ?act)"
    using active_fork_loop_filter [OF sch(3)] by (simp add: ActiveForkAtEpoch_def)
  have self: "ActiveForkAtEpoch spec epoch = DataVersionPhase0 \<or>
      (\<exists>a \<in> set ?act. fs_Fork a = ActiveForkAtEpoch spec epoch)"
    unfolding last using last_in_set [of ?act] by (cases "?act = []") (simp, force simp: last_map)
  have active_self: "a \<in> set ?act \<Longrightarrow> IsForkActive spec (fs_Fork a) epoch" for a
    using fork_entry_distinct [OF sch(2)] by (auto simp: IsForkActive_def)
  have up: "fs_Epoch f \<le> epoch" if le: "fork \<le> ActiveForkAtEpoch spec epoch"
  proof -
    obtain a where a: "a \<in> set ?act" "fork \<le> fs_Fork a" using self le assms(3) by force
    show ?thesis using sorted_keys_epoch [OF sch f(1), of a] a f(2) by auto
  qed
  have down: "fork \<le> ActiveForkAtEpoch spec epoch" if "fs_Epoch f \<le> epoch"
    unfolding last using last_filter_le [OF sorted_filter_map [OF sch(1)] f(1)] that f(2) by simp
  have "IsForkActive spec fork epoch \<longleftrightarrow> fs_Epoch f \<le> epoch"
    by (simp add: IsForkActive_def ent)
  moreover have "GetForkEpoch spec fork = fs_Epoch f" by (simp add: GetForkEpoch_def ent)
  moreover have "ActiveForkAtEpoch spec epoch = DataVersionPhase0 \<or>
      IsForkActive spec (ActiveForkAtEpoch spec epoch) epoch"
    using self active_self by metis
  ultimately show ?thesis using up down by metis
qed


definition demo_spec :: ChainSpec where
  "demo_spec = \<lparr>SecondsPerSlot = 12 * nanos_per_s, SlotsPerEpoch = 32, ShuffleRoundCount = 90,
     TargetCommitteeSize = 128, MaxCommitteesPerSlot = 64, MaxEffectiveBalance = 32000000000,
     MaxEffectiveBalanceElectra = 2048000000000, EpochsPerHistoricalVector = 65536,
     MinSeedLookahead = 1, MinPerEpochChurnLimit = 128000000000, ChurnLimitQuotient = 65536,
     MaxPerEpochActivationExitChurnLimit = 256000000000, MaxPendingDepositsPerEpoch = 16,
     MinActivationBalance = 32000000000, EffectiveBalanceIncrement = 1000000000,
     MaxWithdrawalsPerPayload = 16, DomainBeaconProposer = [0, 0, 0, 0],
     DomainBeaconAttester = [1, 0, 0, 0], DomainPtcAttester = [12, 0, 0, 0],
     DomainProposerPreferences = [13, 0, 0, 0],
     cs_ForkSchedule = [\<lparr>fs_Fork = DataVersionFulu, fs_Version = [7, 0, 0, 0], fs_Epoch = 5\<rparr>,
       \<lparr>fs_Fork = DataVersionGloas, fs_Version = [8, 0, 0, 0], fs_Epoch = 9\<rparr>],
     BlobSchedule = None, PtcSize = 512, DepositContractAddress = None\<rparr>"

theorem active_fork_highest_witness:
  "IsForkActive demo_spec DataVersionGloas 9 \<and> \<not> IsForkActive demo_spec DataVersionGloas 8 \<and>
   DataVersionGloas \<le> ActiveForkAtEpoch demo_spec 9"
proof -
  have ok: "fork_schedule_ok demo_spec"
    by (simp add: fork_schedule_ok_def demo_spec_def less_eq_DataVersion_def)
  have g: "DataVersionGloas \<in> fs_Fork ` set (cs_ForkSchedule demo_spec)"
    "DataVersionPhase0 < DataVersionGloas"
    by (simp_all add: demo_spec_def less_DataVersion_def)
  have "GetForkEpoch demo_spec DataVersionGloas = 9"
    by (simp add: GetForkEpoch_def fork_entry_def demo_spec_def)
  then show ?thesis
    using active_fork_highest [OF ok g, of 9] active_fork_highest [OF ok g, of 8] by auto
qed

text \<open>
  The slot clock is consistent.  For a time not before genesis and within the range of a
  duration, the slot it falls in has started and the next one has not; the time of a slot maps
  back to the slot; and the epoch of a slot contains it.\<close>
theorem slot_clock:
  assumes "time_spec_ok spec" "time_in_range g t"
    and "uint s * SecondsPerSlot spec \<le> max_i64"
  shows "SlotToTime spec g (TimeToSlot spec g t) \<le> t \<and>
    t < SlotToTime spec g (TimeToSlot spec g t) + SecondsPerSlot spec \<and>
    TimeToSlot spec g (SlotToTime spec g s) = s \<and>
    unat (GetEpochOfSlot spec s) * unat (SlotsPerEpoch spec) \<le> unat s \<and>
    unat s < (unat (GetEpochOfSlot spec s) + 1) * unat (SlotsPerEpoch spec)"
proof -
  let ?d = "SecondsPerSlot spec"
  have d: "0 < ?d" and e: "0 < SlotsPerEpoch spec" using assms(1) by (simp_all add: time_spec_ok_def)
  have u: "uint (TimeToSlot spec g t) = (t - g) div ?d" by (rule TimeToSlot_exact [OF d assms(2)])
  have le: "(t - g) div ?d * ?d \<le> t - g" "t - g < (t - g) div ?d * ?d + ?d"
    using d div_mult_mod_eq [of "t - g" ?d] pos_mod_bound [OF d, of "t - g"]
      pos_mod_sign [OF d, of "t - g"] by linarith+
  have st: "SlotToTime spec g (TimeToSlot spec g t) = g + (t - g) div ?d * ?d"
    using SlotToTime_exact [OF d, of "TimeToSlot spec g t" g] u le(1) assms(2)
    by (simp add: time_in_range_def)
  have inverse: "TimeToSlot spec g (SlotToTime spec g s) = s"
  proof (rule word_uint_eqI)
    have s: "SlotToTime spec g s = g + uint s * ?d" by (rule SlotToTime_exact [OF d assms(3)])
    then have "time_in_range g (SlotToTime spec g s)"
      using assms(3) d by (simp add: time_in_range_def)
    from TimeToSlot_exact [OF d this] s d
    show "uint (TimeToSlot spec g (SlotToTime spec g s)) = uint s" by simp
  qed
  have pos: "0 < unat (SlotsPerEpoch spec)" using e by (simp add: word_less_nat_alt)
  have "unat (GetEpochOfSlot spec s) = unat s div unat (SlotsPerEpoch spec)"
    by (simp add: GetEpochOfSlot_def unat_div)
  then show ?thesis
    using st le inverse pos dividend_less_times_div [OF pos, of "unat s"]
    by (simp add: mult.commute algebra_simps)
qed

theorem slot_clock_witness:
  "TimeToSlot demo_spec 1000 (SlotToTime demo_spec 1000 77) = 77 \<and>
   SlotToTime demo_spec 1000 (TimeToSlot demo_spec 1000 1000000000000) \<le> 1000000000000"
proof -
  have "time_spec_ok demo_spec" "time_in_range 1000 1000000000000"
    "uint (77 :: slot) * SecondsPerSlot demo_spec \<le> max_i64"
    by (simp_all add: time_spec_ok_def time_in_range_def demo_spec_def nanos_per_s_def max_i64_def)
  from slot_clock [OF this] show ?thesis by blast
qed

text \<open>
  Beacon forks with an execution payload and engine forks correspond one to one: each mapping
  inverts the other, and exactly the forks before Bellatrix have no engine version.\<close>
theorem fork_versions_correspond:
  "(EngineVersion b = Some e \<longleftrightarrow> BeaconVersion e = Some b) \<and>
   (EngineVersion b = None \<longleftrightarrow> b < DataVersionBellatrix) \<and>
   (BeaconVersion e = None \<longleftrightarrow> e = EngineUnknown)"
  by (cases b; cases e) (simp_all add: less_DataVersion_def)

end
