(* ===== verification/Payment_Tracker.thy ===== *)
theory Payment_Tracker
  imports Chain_Spec
begin

text \<open>
  \<open>pkg/payload_bidder/payment_tracker.go\<close>: the builder's payment obligations.  A won bid is
  pending until it is revealed (then it is deducted from the live balance adjustment) or expires;
  deposits are credited; the adjustment is dropped once the epoch snapshot covers it.  The
  adjustment is an \<open>int64\<close> that wraps, the total of the pending payments a \<open>uint64\<close> that wraps.
\<close>

record PendingPayment =
  pp_Slot :: slot
  pp_Epoch :: epoch
  pp_Value :: u64

record PaymentTracker =
  pt_balanceAdjustment :: i64
  pt_adjustmentEpoch :: epoch
  pt_pendingPayments :: "slot \<rightharpoonup> PendingPayment"

definition NewPaymentTracker :: PaymentTracker where
  "NewPaymentTracker =
     \<lparr>pt_balanceAdjustment = 0, pt_adjustmentEpoch = 0, pt_pendingPayments = Map.empty\<rparr>"

definition RecordWonBid :: "ChainSpec \<Rightarrow> slot \<Rightarrow> u64 \<Rightarrow> PaymentTracker \<Rightarrow> PaymentTracker" where
  "RecordWonBid spec s v t =
     t\<lparr>pt_pendingPayments := (pt_pendingPayments t)
         (s \<mapsto> \<lparr>pp_Slot = s, pp_Epoch = GetEpochOfSlot spec s, pp_Value = v\<rparr>)\<rparr>"

definition anchorEpochLocked :: "epoch \<Rightarrow> PaymentTracker \<Rightarrow> PaymentTracker" where
  "anchorEpochLocked opEpoch t =
     (if opEpoch > pt_adjustmentEpoch t then t\<lparr>pt_adjustmentEpoch := opEpoch\<rparr> else t)"

definition pt_MarkRevealed :: "ChainSpec \<Rightarrow> slot \<Rightarrow> PaymentTracker \<Rightarrow> PaymentTracker" where
  "pt_MarkRevealed spec s t =
     (case pt_pendingPayments t s of
        None \<Rightarrow> t
      | Some p \<Rightarrow>
          (let t1 = t\<lparr>pt_pendingPayments := (pt_pendingPayments t)(s := None)\<rparr>;
               t2 = t1\<lparr>pt_balanceAdjustment :=
                      swrap64 (pt_balanceAdjustment t1 - i64_of_u64 (pp_Value p))\<rparr>
           in anchorEpochLocked (GetEpochOfSlot spec s) t2))"

definition AddDeposit :: "epoch \<Rightarrow> u64 \<Rightarrow> PaymentTracker \<Rightarrow> PaymentTracker" where
  "AddDeposit currentEpoch amount t =
     anchorEpochLocked currentEpoch
       (t\<lparr>pt_balanceAdjustment := swrap64 (pt_balanceAdjustment t + i64_of_u64 amount)\<rparr>)"

definition GetBalanceAdjustment :: "PaymentTracker \<Rightarrow> i64" where
  "GetBalanceAdjustment t = pt_balanceAdjustment t"

definition ReconcileToEpoch :: "epoch \<Rightarrow> PaymentTracker \<Rightarrow> PaymentTracker" where
  "ReconcileToEpoch snapshotEpoch t =
     (if snapshotEpoch \<le> pt_adjustmentEpoch t then t
      else t\<lparr>pt_balanceAdjustment := 0, pt_adjustmentEpoch := snapshotEpoch\<rparr>)"

text \<open>The sum over \<open>range t.pendingPayments\<close>, in the order of the keys \<open>ks\<close>.\<close>

definition GetTotalPendingPayments :: "slot list \<Rightarrow> PaymentTracker \<Rightarrow> u64" where
  "GetTotalPendingPayments ks t =
     foldl (\<lambda>total s. total + pp_Value (the (pt_pendingPayments t s))) 0 ks"

definition PruneExpiredPayments :: "epoch \<Rightarrow> PaymentTracker \<Rightarrow> PaymentTracker" where
  "PruneExpiredPayments currentEpoch t =
     t\<lparr>pt_pendingPayments :=
         range_delete (\<lambda>s p. currentEpoch > pp_Epoch p + 1) (pt_pendingPayments t)\<rparr>"

section \<open>Sequences of operations\<close>

datatype payment_op =
    OpWon slot u64
  | OpRevealed slot
  | OpDeposit epoch u64
  | OpReconcile epoch
  | OpPrune epoch

fun payment_step :: "ChainSpec \<Rightarrow> payment_op \<Rightarrow> PaymentTracker \<Rightarrow> PaymentTracker" where
  "payment_step spec (OpWon s v) t = RecordWonBid spec s v t"
| "payment_step spec (OpRevealed s) t = pt_MarkRevealed spec s t"
| "payment_step spec (OpDeposit e a) t = AddDeposit e a t"
| "payment_step spec (OpReconcile e) t = ReconcileToEpoch e t"
| "payment_step spec (OpPrune e) t = PruneExpiredPayments e t"

definition payment_run :: "ChainSpec \<Rightarrow> payment_op list \<Rightarrow> PaymentTracker \<Rightarrow> PaymentTracker" where
  "payment_run spec ops t = fold (payment_step spec) ops t"

text \<open>
  The ledger, as unbounded integers: what the operations add to the balance, each reveal charging
  the value pending for its slot at that moment.\<close>

fun ledger_delta :: "ChainSpec \<Rightarrow> payment_op list \<Rightarrow> PaymentTracker \<Rightarrow> int" where
  "ledger_delta spec [] t = 0"
| "ledger_delta spec (op # ops) t =
     (case op of
        OpRevealed s \<Rightarrow> (case pt_pendingPayments t s of None \<Rightarrow> 0 | Some p \<Rightarrow> - uint (pp_Value p))
      | OpDeposit e a \<Rightarrow> uint a
      | _ \<Rightarrow> 0) + ledger_delta spec ops (payment_step spec op t)"

text \<open>Every pending payment is filed under its slot with the epoch of the slot.\<close>

definition payments_ok :: "ChainSpec \<Rightarrow> PaymentTracker \<Rightarrow> bool" where
  "payments_ok spec t \<longleftrightarrow>
     (\<forall>s p. pt_pendingPayments t s = Some p \<longrightarrow> pp_Slot p = s \<and> pp_Epoch p = GetEpochOfSlot spec s) \<and>
     finite (dom (pt_pendingPayments t)) \<and> is_i64 (pt_balanceAdjustment t)"

section \<open>Lemmas\<close>

lemma anchor_simps [simp]:
  "pt_balanceAdjustment (anchorEpochLocked e t) = pt_balanceAdjustment t"
  "pt_pendingPayments (anchorEpochLocked e t) = pt_pendingPayments t"
  "pt_adjustmentEpoch (anchorEpochLocked e t) = max e (pt_adjustmentEpoch t)"
  by (auto simp: anchorEpochLocked_def max_def)

lemma pending_MarkRevealed:
  "pt_pendingPayments (pt_MarkRevealed spec s t) = (pt_pendingPayments t)(s := None)"
  by (auto simp: pt_MarkRevealed_def Let_def split: option.splits)

lemma adjustment_MarkRevealed:
  "is_i64 (pt_balanceAdjustment t) \<Longrightarrow>
   pt_balanceAdjustment (pt_MarkRevealed spec s t) =
     swrap64 (pt_balanceAdjustment t -
       (case pt_pendingPayments t s of None \<Rightarrow> 0 | Some p \<Rightarrow> uint (pp_Value p)))"
  by (simp add: pt_MarkRevealed_def Let_def swrap64_id split: option.splits)

lemma payments_ok_New [simp]: "payments_ok spec NewPaymentTracker"
  by (simp add: payments_ok_def NewPaymentTracker_def)

lemma payments_ok_step:
  "payments_ok spec t \<Longrightarrow> payments_ok spec (payment_step spec op t)"
proof (cases op)
  case (OpRevealed s)
  assume "payments_ok spec t"
  then show ?thesis using OpRevealed
    by (simp add: payments_ok_def pending_MarkRevealed adjustment_MarkRevealed)
next
  case (OpPrune e)
  assume "payments_ok spec t"
  then show ?thesis using OpPrune
    by (auto simp: payments_ok_def PruneExpiredPayments_def range_delete_Some_iff dom_range_delete)
next
  case (OpReconcile e)
  assume "payments_ok spec t"
  then show ?thesis using OpReconcile
    by (simp add: payments_ok_def ReconcileToEpoch_def)
qed (simp_all add: payments_ok_def RecordWonBid_def AddDeposit_def)

lemma payments_ok_run:
  "payments_ok spec t \<Longrightarrow> payments_ok spec (payment_run spec ops t)"
  unfolding payment_run_def by (induction ops arbitrary: t) (auto intro: payments_ok_step)

lemma total_fold:
  "foldl (\<lambda>total s. total + f s) (a :: u64) ks = a + sum_list (map f ks)"
  by (induction ks arbitrary: a) (simp_all add: add.assoc)

text \<open>The total is the sum over the pending slots, whatever order the map is visited in.\<close>

lemma total_pending_sum:
  assumes "range_order ks (pt_pendingPayments t)"
  shows "GetTotalPendingPayments ks t =
    (\<Sum>s \<in> dom (pt_pendingPayments t). pp_Value (the (pt_pendingPayments t s)))"
  using assms unfolding GetTotalPendingPayments_def total_fold range_order_def
  by (simp add: sum_list_distinct_conv_sum_set)

section \<open>Properties\<close>

text \<open>
  C23: A won bid is charged exactly once.  In any state reached by any operations, revealing a slot
  with a pending payment moves its value out of the pending total and out of the live balance
  (modulo 2^64), so that pending total minus balance is unchanged; it leaves every other slot
  alone, a second reveal does nothing, and the deduction is kept by every snapshot up to the
  slot's epoch.\<close>
theorem payment_charged_once:
  assumes "t = payment_run spec ops NewPaymentTracker"
    and "t' = pt_MarkRevealed spec s t"
    and "pt_pendingPayments t s = Some p"
    and "range_order ks (pt_pendingPayments t)" "range_order ks' (pt_pendingPayments t')"
    and "e \<le> GetEpochOfSlot spec s"
  shows "GetTotalPendingPayments ks' t' = GetTotalPendingPayments ks t - pp_Value p \<and>
    GetBalanceAdjustment t' = swrap64 (GetBalanceAdjustment t - uint (pp_Value p)) \<and>
    pt_pendingPayments t' = (pt_pendingPayments t)(s := None) \<and>
    pt_MarkRevealed spec s t' = t' \<and>
    ReconcileToEpoch e t' = t'"
proof -
  have ok: "payments_ok spec t" unfolding assms(1) by (intro payments_ok_run) simp
  have pend: "pt_pendingPayments t' = (pt_pendingPayments t)(s := None)"
    unfolding assms(2) by (rule pending_MarkRevealed)
  let ?f = "\<lambda>s. pp_Value (the (pt_pendingPayments t s))"
  have "GetTotalPendingPayments ks' t' = sum ?f (dom (pt_pendingPayments t) - {s})"
    unfolding total_pending_sum [OF assms(5)] unfolding pend by (intro sum.cong) auto
  moreover have "sum ?f (dom (pt_pendingPayments t)) = ?f s + sum ?f (dom (pt_pendingPayments t) - {s})"
    using ok assms(3) by (intro sum.remove) (auto simp: payments_ok_def)
  ultimately have total: "GetTotalPendingPayments ks' t' = GetTotalPendingPayments ks t - pp_Value p"
    unfolding total_pending_sum [OF assms(4)] using assms(3) by simp
  have adj: "GetBalanceAdjustment t' = swrap64 (GetBalanceAdjustment t - uint (pp_Value p))"
    using adjustment_MarkRevealed [of t spec s] ok assms(2,3)
    by (simp add: GetBalanceAdjustment_def payments_ok_def)
  have "GetEpochOfSlot spec s \<le> pt_adjustmentEpoch t'"
    unfolding assms(2) using assms(3) by (simp add: pt_MarkRevealed_def Let_def)
  then have "ReconcileToEpoch e t' = t'" using assms(6) by (simp add: ReconcileToEpoch_def)
  then show ?thesis using total adj pend by (simp add: pt_MarkRevealed_def)
qed

definition demo_won :: PaymentTracker where
  "demo_won = payment_run demo_spec [OpWon 64 500, OpWon 65 700] NewPaymentTracker"

lemma demo_won_eq:
  "demo_won = \<lparr>pt_balanceAdjustment = 0, pt_adjustmentEpoch = 0,
     pt_pendingPayments = [64 \<mapsto> \<lparr>pp_Slot = 64, pp_Epoch = 2, pp_Value = 500\<rparr>,
       65 \<mapsto> \<lparr>pp_Slot = 65, pp_Epoch = 2, pp_Value = 700\<rparr>]\<rparr>"
  by (simp add: demo_won_def payment_run_def RecordWonBid_def NewPaymentTracker_def
      GetEpochOfSlot_def demo_spec_def)

theorem payment_charged_once_witness:
  "GetTotalPendingPayments [65] (pt_MarkRevealed demo_spec 64 demo_won) = 700 \<and>
   GetBalanceAdjustment (pt_MarkRevealed demo_spec 64 demo_won) = - 500"
proof -
  have p: "pt_pendingPayments demo_won 64 = Some \<lparr>pp_Slot = 64, pp_Epoch = 2, pp_Value = 500\<rparr>"
    by (simp add: demo_won_eq)
  have o: "range_order [64, 65] (pt_pendingPayments demo_won)"
    "range_order [65] (pt_pendingPayments (pt_MarkRevealed demo_spec 64 demo_won))"
    by (auto simp: range_order_def demo_won_eq pending_MarkRevealed split: if_splits)
  have "GetTotalPendingPayments [64, 65] demo_won = 1200" "GetBalanceAdjustment demo_won = 0"
    by (simp_all add: GetTotalPendingPayments_def GetBalanceAdjustment_def demo_won_eq)
  then show ?thesis
    using payment_charged_once [OF demo_won_def refl p o, of 0] by (simp add: swrap64_def)
qed

lemma ledger_run_pending:
  assumes "\<forall>op \<in> set ops. case op of
      OpWon s' v \<Rightarrow> s' \<noteq> s | OpRevealed s' \<Rightarrow> s' \<noteq> s | OpPrune e \<Rightarrow> e \<le> pp_Epoch p + 1 | _ \<Rightarrow> True"
    and "pt_pendingPayments t s = Some p"
  shows "pt_pendingPayments (payment_run spec ops t) s = Some p"
  using assms
proof (induction ops arbitrary: t)
  case Nil
  then show ?case by (simp add: payment_run_def)
next
  case (Cons op ops)
  have "pt_pendingPayments (payment_step spec op t) s = Some p"
    using Cons.prems
    by (cases op) (auto simp: RecordWonBid_def pending_MarkRevealed AddDeposit_def
        ReconcileToEpoch_def PruneExpiredPayments_def range_delete_Some_iff)
  then show ?case using Cons by (simp add: payment_run_def)
qed

text \<open>
  C24: While no snapshot later than the tracker's anchor epoch arrives, the live balance adjustment
  is the exact ledger of deposits and revealed payments (modulo 2^64): nothing is lost or counted
  twice over any sequence of operations.  A pending payment that is neither revealed nor won again
  stays pending as long as pruning runs at most one epoch after its own.\<close>
theorem payment_ledger:
  assumes "is_i64 (pt_balanceAdjustment t)"
    and "\<forall>op \<in> set ops. case op of OpReconcile e \<Rightarrow> e \<le> pt_adjustmentEpoch t | _ \<Rightarrow> True"
  shows "GetBalanceAdjustment (payment_run spec ops t) =
      swrap64 (GetBalanceAdjustment t + ledger_delta spec ops t) \<and>
    (\<forall>s p. pt_pendingPayments t s = Some p \<longrightarrow>
      (\<forall>op \<in> set ops. case op of
         OpWon s' v \<Rightarrow> s' \<noteq> s | OpRevealed s' \<Rightarrow> s' \<noteq> s | OpPrune e \<Rightarrow> e \<le> pp_Epoch p + 1 | _ \<Rightarrow> True) \<longrightarrow>
      pt_pendingPayments (payment_run spec ops t) s = Some p)"
proof -
  have "pt_balanceAdjustment (payment_run spec ops t) =
      swrap64 (pt_balanceAdjustment t + ledger_delta spec ops t)"
    using assms
  proof (induction ops arbitrary: t)
    case Nil
    then show ?case by (simp add: payment_run_def swrap64_id)
  next
    case (Cons op ops)
    let ?t = "payment_step spec op t"
    have mono: "pt_adjustmentEpoch t \<le> pt_adjustmentEpoch ?t"
      by (cases op) (auto simp: RecordWonBid_def pt_MarkRevealed_def Let_def AddDeposit_def
          ReconcileToEpoch_def PruneExpiredPayments_def split: option.splits)
    have "is_i64 (pt_balanceAdjustment ?t)"
      using Cons.prems(1)
      by (cases op) (auto simp: RecordWonBid_def adjustment_MarkRevealed AddDeposit_def
          ReconcileToEpoch_def PruneExpiredPayments_def)
    moreover have "\<forall>op \<in> set ops. case op of OpReconcile e \<Rightarrow> e \<le> pt_adjustmentEpoch ?t | _ \<Rightarrow> True"
      using Cons.prems(2) mono by (auto split: payment_op.splits)
    ultimately have "pt_balanceAdjustment (payment_run spec ops ?t) =
        swrap64 (pt_balanceAdjustment ?t + ledger_delta spec ops ?t)" by (rule Cons.IH)
    moreover have "swrap64 (pt_balanceAdjustment ?t + x) = swrap64 (pt_balanceAdjustment t +
        (case op of
           OpRevealed s \<Rightarrow> (case pt_pendingPayments t s of None \<Rightarrow> 0 | Some p \<Rightarrow> - uint (pp_Value p))
         | OpDeposit e a \<Rightarrow> uint a | _ \<Rightarrow> 0) + x)" for x
      using Cons.prems
      by (cases op) (auto simp: RecordWonBid_def adjustment_MarkRevealed AddDeposit_def
          ReconcileToEpoch_def PruneExpiredPayments_def split: option.splits)
    ultimately show ?case by (simp add: payment_run_def add.assoc)
  qed
  then show ?thesis using ledger_run_pending unfolding GetBalanceAdjustment_def by blast
qed

theorem payment_ledger_witness:
  "GetBalanceAdjustment (payment_run demo_spec [OpDeposit 2 900, OpRevealed 64, OpRevealed 64] demo_won) = 400"
proof -
  have "is_i64 (pt_balanceAdjustment demo_won)"
    by (simp add: demo_won_eq)
  moreover have "ledger_delta demo_spec [OpDeposit 2 900, OpRevealed 64, OpRevealed 64] demo_won = 400"
    by (simp add: demo_won_eq AddDeposit_def anchorEpochLocked_def pending_MarkRevealed)
  moreover have "GetBalanceAdjustment demo_won = 0"
    by (simp add: GetBalanceAdjustment_def demo_won_eq)
  ultimately show ?thesis
    using payment_ledger [of demo_won "[OpDeposit 2 900, OpRevealed 64, OpRevealed 64]" demo_spec]
    by (simp add: swrap64_def)
qed

end
