(* ===== verification/Bid_Tracker.thy ===== *)
theory Bid_Tracker
  imports Go_Prelude
begin

text \<open>
  \<open>pkg/p2p_bidder/bid.go\<close> and \<open>bid_tracker.go\<close>: the bids seen on the p2p network, per slot and
  builder.  Tracked bids are never changed after their creation, so the pointers the code stores
  (highest bid, our bid) are values here; the zero \<open>time.Time\<close> is 0.
\<close>

type_synonym bytes32 = "u8 list"

record ExecutionPayloadBid =
  eb_ParentBlockHash :: bytes32
  eb_ParentBlockRoot :: bytes32
  eb_BlockHash :: bytes32
  eb_FeeRecipient :: "u8 list"
  eb_GasLimit :: u64
  eb_BuilderIndex :: u64
  eb_Slot :: slot
  eb_Value :: u64
  eb_ExecutionPayment :: u64

record TrackedBid =
  tb_Bid :: ExecutionPayloadBid
  tb_BuilderIndex :: u64
  tb_ReceivedAt :: gotime
  tb_IsOurs :: bool

record SlotBids =
  sb_Slot :: slot
  sb_Bids :: "u64 \<rightharpoonup> TrackedBid"
  sb_HighestBid :: "TrackedBid option"
  sb_OurBid :: "TrackedBid option"
  sb_WinningBid :: "TrackedBid option"

definition NewSlotBids :: "slot \<Rightarrow> SlotBids" where
  "NewSlotBids s = \<lparr>sb_Slot = s, sb_Bids = Map.empty, sb_HighestBid = None, sb_OurBid = None,
     sb_WinningBid = None\<rparr>"

record BidTracker =
  bt_slotBids :: "slot \<rightharpoonup> SlotBids"
  bt_ourBuilderIdx :: u64

definition NewBidTracker :: "u64 \<Rightarrow> BidTracker" where
  "NewBidTracker ourBuilderIdx = \<lparr>bt_slotBids = Map.empty, bt_ourBuilderIdx = ourBuilderIdx\<rparr>"

definition tracked_of :: "ExecutionPayloadBid \<Rightarrow> bool \<Rightarrow> TrackedBid" where
  "tracked_of bid isOurs = \<lparr>tb_Bid = bid, tb_BuilderIndex = eb_BuilderIndex bid, tb_ReceivedAt = 0,
     tb_IsOurs = isOurs\<rparr>"

definition TrackBid :: "ExecutionPayloadBid \<Rightarrow> bool \<Rightarrow> BidTracker \<Rightarrow> BidTracker" where
  "TrackBid bid isOurs t =
     (let sb = (case bt_slotBids t (eb_Slot bid) of Some sb \<Rightarrow> sb | None \<Rightarrow> NewSlotBids (eb_Slot bid));
          tracked = tracked_of bid isOurs;
          sb1 = sb\<lparr>sb_Bids := (sb_Bids sb)(eb_BuilderIndex bid \<mapsto> tracked)\<rparr>;
          sb2 = (if isOurs then sb1\<lparr>sb_OurBid := Some tracked\<rparr> else sb1);
          sb3 = (if (case sb_HighestBid sb2 of None \<Rightarrow> True
                     | Some h \<Rightarrow> eb_Value bid > eb_Value (tb_Bid h))
                 then sb2\<lparr>sb_HighestBid := Some tracked\<rparr> else sb2)
      in t\<lparr>bt_slotBids := (bt_slotBids t)(eb_Slot bid \<mapsto> sb3)\<rparr>)"

definition GetHighestBid :: "slot \<Rightarrow> BidTracker \<Rightarrow> TrackedBid option" where
  "GetHighestBid s t = (case bt_slotBids t s of None \<Rightarrow> None | Some sb \<Rightarrow> sb_HighestBid sb)"

text \<open>The loop over \<open>range slotBids.Bids\<close>, in the order of the keys \<open>ks\<close>.\<close>

fun competitor_loop ::
  "u64 \<Rightarrow> (u64 \<rightharpoonup> TrackedBid) \<Rightarrow> u64 list \<Rightarrow> u64 \<times> bool \<Rightarrow> u64 \<times> bool" where
  "competitor_loop our bids [] acc = acc"
| "competitor_loop our bids (k # ks) acc =
     competitor_loop our bids ks
       (case acc of (highest, found) \<Rightarrow>
          let tracked = the (bids k) in
          if k = our \<or> tb_IsOurs tracked then (highest, found)
          else if \<not> found \<or> eb_Value (tb_Bid tracked) > highest
            then (eb_Value (tb_Bid tracked), True) else (highest, found))"

definition GetHighestCompetitorBid ::
  "u64 list \<Rightarrow> slot \<Rightarrow> u64 \<Rightarrow> BidTracker \<Rightarrow> u64 \<times> bool" where
  "GetHighestCompetitorBid ks s our t =
     (case bt_slotBids t s of None \<Rightarrow> (0, False)
      | Some sb \<Rightarrow> competitor_loop our (sb_Bids sb) ks (0, False))"

definition GetOurBid :: "slot \<Rightarrow> BidTracker \<Rightarrow> TrackedBid option" where
  "GetOurBid s t = (case bt_slotBids t s of None \<Rightarrow> None | Some sb \<Rightarrow> sb_OurBid sb)"

definition GetSlotBids :: "slot \<Rightarrow> BidTracker \<Rightarrow> SlotBids option" where
  "GetSlotBids s t = bt_slotBids t s"

definition bt_Cleanup :: "slot \<Rightarrow> BidTracker \<Rightarrow> BidTracker" where
  "bt_Cleanup olderThan t =
     t\<lparr>bt_slotBids := range_delete (\<lambda>s _. s < olderThan) (bt_slotBids t)\<rparr>"

definition SetBuilderIndex :: "u64 \<Rightarrow> BidTracker \<Rightarrow> BidTracker" where
  "SetBuilderIndex index t = t\<lparr>bt_ourBuilderIdx := index\<rparr>"

section \<open>What a history of bids should give\<close>

text \<open>The bids of one slot, in the order they were tracked.\<close>

type_synonym bid_history = "(ExecutionPayloadBid \<times> bool) list"

definition track_all :: "bid_history \<Rightarrow> BidTracker \<Rightarrow> BidTracker" where
  "track_all hist t = fold (\<lambda>(bid, isOurs). TrackBid bid isOurs) hist t"

definition slot_history :: "slot \<Rightarrow> bid_history \<Rightarrow> bid_history" where
  "slot_history s hist = filter (\<lambda>(bid, _). eb_Slot bid = s) hist"

text \<open>The first bid of the history with the largest value.\<close>

fun first_highest :: "bid_history \<Rightarrow> (ExecutionPayloadBid \<times> bool) option" where
  "first_highest [] = None"
| "first_highest (b # bs) =
     (case first_highest bs of None \<Rightarrow> Some b
      | Some h \<Rightarrow> if eb_Value (fst h) > eb_Value (fst b) then Some h else Some b)"

text \<open>The latest bid of a builder, and our latest one.\<close>

definition latest_of :: "u64 \<Rightarrow> bid_history \<Rightarrow> (ExecutionPayloadBid \<times> bool) option" where
  "latest_of i hist = find (\<lambda>(bid, _). eb_BuilderIndex bid = i) (rev hist)"

definition latest_ours :: "bid_history \<Rightarrow> (ExecutionPayloadBid \<times> bool) option" where
  "latest_ours hist = find snd (rev hist)"

definition as_tracked :: "ExecutionPayloadBid \<times> bool \<Rightarrow> TrackedBid" where
  "as_tracked b = tracked_of (fst b) (snd b)"

section \<open>Lemmas\<close>

lemma tracked_of_sel [simp]:
  "tb_Bid (tracked_of b o') = b" "tb_IsOurs (tracked_of b o') = o'"
  "tb_BuilderIndex (tracked_of b o') = eb_BuilderIndex b"
  by (simp_all add: tracked_of_def)

lemma as_tracked_sel [simp]: "tb_Bid (as_tracked b) = fst b" "tb_IsOurs (as_tracked b) = snd b"
  by (simp_all add: as_tracked_def)

lemma first_highest_snoc:
  "first_highest (bs @ [b]) =
     (case first_highest bs of None \<Rightarrow> Some b
      | Some h \<Rightarrow> if eb_Value (fst b) > eb_Value (fst h) then Some b else Some h)"
proof (induction bs)
  case (Cons a bs)
  then show ?case by (cases "first_highest bs") (auto split: if_splits)
qed simp

lemma first_highest_None [simp]: "first_highest bs = None \<longleftrightarrow> bs = []"
  by (cases bs) (auto split: option.splits)

lemma first_highest_max:
  "first_highest bs = Some h \<Longrightarrow> h \<in> set bs \<and> (\<forall>b \<in> set bs. eb_Value (fst b) \<le> eb_Value (fst h))"
proof (induction bs arbitrary: h)
  case (Cons a bs)
  then show ?case by (cases "first_highest bs") (force split: if_splits)+
qed simp

lemma slot_history_snoc:
  "slot_history s (hist @ [(bid, ours)]) =
     (if eb_Slot bid = s then slot_history s hist @ [(bid, ours)] else slot_history s hist)"
  by (simp add: slot_history_def)

lemma track_all_snoc: "track_all (hist @ [(bid, ours)]) t = TrackBid bid ours (track_all hist t)"
  by (simp add: track_all_def)

text \<open>The state of one slot after a history, field by field.\<close>

definition slot_abs :: "slot \<Rightarrow> bid_history \<Rightarrow> SlotBids option" where
  "slot_abs s hist =
     (let h = slot_history s hist in
      if h = [] then None
      else Some \<lparr>sb_Slot = s, sb_Bids = (\<lambda>i. map_option as_tracked (latest_of i h)),
                 sb_HighestBid = map_option as_tracked (first_highest h),
                 sb_OurBid = map_option as_tracked (latest_ours h), sb_WinningBid = None\<rparr>)"

lemma latest_of_snoc:
  "latest_of i (h @ [(bid, ours)]) = (if eb_BuilderIndex bid = i then Some (bid, ours) else latest_of i h)"
  by (simp add: latest_of_def)

lemma latest_ours_snoc:
  "latest_ours (h @ [(bid, ours)]) = (if ours then Some (bid, ours) else latest_ours h)"
  by (simp add: latest_ours_def)

lemma latest_of_in: "latest_of i h = Some b \<Longrightarrow> b \<in> set h \<and> eb_BuilderIndex (fst b) = i"
  unfolding latest_of_def
  by (drule find_Some_iff [THEN iffD1]) (auto simp: case_prod_beta, metis length_rev nth_mem set_rev)

lemma history_empty [simp]:
  "latest_of i [] = None" "latest_ours [] = None" "slot_history s [] = []"
  by (simp_all add: latest_of_def latest_ours_def slot_history_def)

lemma TrackBid_slot:
  "bt_slotBids (TrackBid bid ours t) s =
     (if s = eb_Slot bid then
        (let sb = (case bt_slotBids t s of Some sb \<Rightarrow> sb | None \<Rightarrow> NewSlotBids s) in
         Some \<lparr>sb_Slot = sb_Slot sb, sb_Bids = (sb_Bids sb)(eb_BuilderIndex bid \<mapsto> tracked_of bid ours),
           sb_HighestBid = (case sb_HighestBid sb of
              None \<Rightarrow> Some (tracked_of bid ours)
            | Some h \<Rightarrow> if eb_Value bid > eb_Value (tb_Bid h) then Some (tracked_of bid ours) else Some h),
           sb_OurBid = (if ours then Some (tracked_of bid ours) else sb_OurBid sb),
           sb_WinningBid = sb_WinningBid sb\<rparr>)
      else bt_slotBids t s)"
  by (auto simp: TrackBid_def Let_def NewSlotBids_def split: option.splits)

text \<open>Refinement: the tracker implements the history.\<close>

lemma track_all_abs: "bt_slotBids (track_all hist (NewBidTracker our)) s = slot_abs s hist"
proof (induction hist rule: rev_induct)
  case Nil
  then show ?case by (simp add: track_all_def NewBidTracker_def slot_abs_def)
next
  case (snoc b hist)
  obtain bid ours where b: "b = (bid, ours)" by (cases b)
  show ?case
  proof (cases "eb_Slot bid = s")
    case False
    then show ?thesis
      using snoc by (simp add: b track_all_snoc TrackBid_slot slot_abs_def slot_history_snoc)
  next
    case True
    let ?h = "slot_history s hist"
    have hi: "(case map_option as_tracked (first_highest ?h) of
         None \<Rightarrow> Some (tracked_of bid ours)
       | Some h \<Rightarrow> if eb_Value bid > eb_Value (tb_Bid h) then Some (tracked_of bid ours) else Some h)
      = map_option as_tracked (first_highest (?h @ [(bid, ours)]))"
      by (cases "first_highest ?h") (simp_all add: first_highest_snoc as_tracked_def)
    have bids: "(\<lambda>i. map_option as_tracked (latest_of i (?h @ [(bid, ours)])))
      = (\<lambda>i. map_option as_tracked (latest_of i ?h))(eb_BuilderIndex bid \<mapsto> tracked_of bid ours)"
      by (auto simp: latest_of_snoc as_tracked_def)
    have ours: "map_option as_tracked (latest_ours (?h @ [(bid, ours)]))
      = (if ours then Some (tracked_of bid ours) else map_option as_tracked (latest_ours ?h))"
      by (simp add: latest_ours_snoc as_tracked_def)
    show ?thesis
    proof (cases "?h = []")
      case True
      then show ?thesis
        using snoc \<open>eb_Slot bid = s\<close>
        by (auto simp: b track_all_snoc TrackBid_slot slot_abs_def slot_history_snoc NewSlotBids_def
            Let_def as_tracked_def latest_of_def latest_ours_def fun_eq_iff)
    next
      case False
      then show ?thesis
        using snoc \<open>eb_Slot bid = s\<close> hi bids ours
        by (simp add: b track_all_snoc TrackBid_slot slot_abs_def slot_history_snoc Let_def)
    qed
  qed
qed

section \<open>The competitor scan\<close>

definition competitor :: "u64 \<Rightarrow> (u64 \<rightharpoonup> TrackedBid) \<Rightarrow> u64 \<Rightarrow> bool" where
  "competitor our bids k \<longleftrightarrow> k \<noteq> our \<and> (\<exists>tb. bids k = Some tb \<and> \<not> tb_IsOurs tb)"

definition bid_value :: "(u64 \<rightharpoonup> TrackedBid) \<Rightarrow> u64 \<Rightarrow> u64" where
  "bid_value bids k = eb_Value (tb_Bid (the (bids k)))"

text \<open>What the loop keeps: whether a competitor was seen, and the largest value among those seen.\<close>

definition best_so_far :: "u64 set \<Rightarrow> u64 \<times> bool \<Rightarrow> bool" where
  "best_so_far vs r \<longleftrightarrow>
     (if snd r then fst r \<in> vs \<and> (\<forall>v \<in> vs. v \<le> fst r) else vs = {} \<and> fst r = 0)"

lemma competitor_loop_best:
  assumes "set ks \<subseteq> dom bids" "best_so_far vs acc"
  shows "best_so_far (vs \<union> bid_value bids ` {k \<in> set ks. competitor our bids k})
    (competitor_loop our bids ks acc)"
  using assms
proof (induction ks arbitrary: vs acc)
  case (Cons k ks)
  obtain h f where acc: "acc = (h, f)" by (cases acc)
  obtain tb where tb: "bids k = Some tb" using Cons.prems(1) by auto
  let ?acc = "(if k = our \<or> tb_IsOurs tb then (h, f)
    else if \<not> f \<or> eb_Value (tb_Bid tb) > h then (eb_Value (tb_Bid tb), True) else (h, f))"
  let ?vs = "if competitor our bids k then insert (bid_value bids k) vs else vs"
  have "best_so_far ?vs ?acc"
    using Cons.prems(2)
    by (auto simp: acc best_so_far_def competitor_def bid_value_def tb split: if_splits)
  from Cons.IH [OF _ this] Cons.prems(1)
  have "best_so_far (?vs \<union> bid_value bids ` {k \<in> set ks. competitor our bids k})
      (competitor_loop our bids (k # ks) acc)" by (simp add: acc tb Let_def)
  moreover have "?vs \<union> bid_value bids ` {k \<in> set ks. competitor our bids k} =
      vs \<union> bid_value bids ` {j \<in> set (k # ks). competitor our bids j}" by auto
  ultimately show ?case by simp
qed simp

section \<open>Properties\<close>

text \<open>
  After any history of bids, the tracker holds for each slot exactly what the history says:
  the latest bid of every builder, our latest bid, and as highest bid the first bid that reached
  the largest value ever tracked for the slot, which is therefore at least every current bid.\<close>
theorem bid_tracker_history:
  "bt_slotBids (track_all hist (NewBidTracker our)) s = slot_abs s hist \<and>
   GetHighestBid s (track_all hist (NewBidTracker our)) =
     map_option as_tracked (first_highest (slot_history s hist)) \<and>
   GetOurBid s (track_all hist (NewBidTracker our)) =
     map_option as_tracked (latest_ours (slot_history s hist)) \<and>
   (\<forall>sb i tb. GetSlotBids s (track_all hist (NewBidTracker our)) = Some sb \<longrightarrow>
      sb_Bids sb i = Some tb \<longrightarrow>
      tb_BuilderIndex tb = i \<and> eb_Slot (tb_Bid tb) = s \<and>
      (\<exists>h. GetHighestBid s (track_all hist (NewBidTracker our)) = Some h \<and>
           eb_Value (tb_Bid tb) \<le> eb_Value (tb_Bid h)))"
proof -
  have abs: "bt_slotBids (track_all hist (NewBidTracker our)) s = slot_abs s hist"
    by (rule track_all_abs)
  have hi: "GetHighestBid s (track_all hist (NewBidTracker our)) =
      map_option as_tracked (first_highest (slot_history s hist))"
    by (simp add: GetHighestBid_def abs slot_abs_def Let_def)
  have ours: "GetOurBid s (track_all hist (NewBidTracker our)) =
      map_option as_tracked (latest_ours (slot_history s hist))"
    by (simp add: GetOurBid_def abs slot_abs_def Let_def)
  have cur: "tb_BuilderIndex tb = i \<and> eb_Slot (tb_Bid tb) = s \<and>
      (\<exists>h. GetHighestBid s (track_all hist (NewBidTracker our)) = Some h \<and>
           eb_Value (tb_Bid tb) \<le> eb_Value (tb_Bid h))"
    if sb: "GetSlotBids s (track_all hist (NewBidTracker our)) = Some sb" and tb: "sb_Bids sb i = Some tb"
    for sb i tb
  proof -
    let ?h = "slot_history s hist"
    have "map_option as_tracked (latest_of i ?h) = Some tb"
      using sb tb abs by (auto simp: GetSlotBids_def slot_abs_def Let_def split: if_splits)
    then obtain b where b: "latest_of i ?h = Some b" "tb = as_tracked b" by auto
    then have mem: "b \<in> set ?h" and idx: "eb_BuilderIndex (fst b) = i"
      using latest_of_in by blast+
    then obtain hh where hh: "first_highest ?h = Some hh" by (cases "first_highest ?h") auto
    have "eb_Value (fst b) \<le> eb_Value (fst hh)" using first_highest_max [OF hh] mem by blast
    moreover have "eb_Slot (fst b) = s" using mem by (auto simp: slot_history_def)
    ultimately show ?thesis using idx b hh by (simp add: hi as_tracked_def)
  qed
  show ?thesis using abs hi ours cur by blast
qed

text \<open>
  The highest competitor bid is the maximum of the current bids that are not ours, whatever
  order the map is visited in, and reports none exactly when there is no such bid; our own builder
  index never counts.\<close>
theorem highest_competitor_bid:
  assumes "GetSlotBids s t = Some sb" "range_order ks (sb_Bids sb)"
  shows "case GetHighestCompetitorBid ks s our t of (highest, found) \<Rightarrow>
    (found \<longleftrightarrow> (\<exists>k. competitor our (sb_Bids sb) k)) \<and>
    (found \<longrightarrow> (\<exists>k. competitor our (sb_Bids sb) k \<and> bid_value (sb_Bids sb) k = highest) \<and>
       (\<forall>k. competitor our (sb_Bids sb) k \<longrightarrow> bid_value (sb_Bids sb) k \<le> highest))"
proof -
  have ks: "set ks = dom (sb_Bids sb)" using assms(2) by (simp add: range_order_def)
  have dom: "competitor our (sb_Bids sb) k \<Longrightarrow> k \<in> set ks" for k
    by (auto simp: ks competitor_def)
  have "best_so_far ({} \<union> bid_value (sb_Bids sb) ` {k \<in> set ks. competitor our (sb_Bids sb) k})
      (GetHighestCompetitorBid ks s our t)"
    using assms(1) competitor_loop_best [of ks "sb_Bids sb" "{}" "(0, False)" our] ks
    by (simp add: GetHighestCompetitorBid_def GetSlotBids_def best_so_far_def)
  then show ?thesis using dom by (cases "GetHighestCompetitorBid ks s our t") (auto simp: best_so_far_def split: if_splits)
qed

definition demo_bid :: "u64 \<Rightarrow> u64 \<Rightarrow> ExecutionPayloadBid" where
  "demo_bid i v = \<lparr>eb_ParentBlockHash = [], eb_ParentBlockRoot = [], eb_BlockHash = [],
     eb_FeeRecipient = [], eb_GasLimit = 0, eb_BuilderIndex = i, eb_Slot = 5, eb_Value = v,
     eb_ExecutionPayment = 0\<rparr>"

theorem highest_competitor_bid_witness:
  "GetHighestCompetitorBid [1, 2, 3] 5 1
     (track_all [(demo_bid 1 90, True), (demo_bid 2 40, False), (demo_bid 3 60, False)] (NewBidTracker 1)) = (60, True)"
proof -
  let ?t = "track_all [(demo_bid 1 90, True), (demo_bid 2 40, False), (demo_bid 3 60, False)] (NewBidTracker 1)"
  let ?bids = "[1 \<mapsto> tracked_of (demo_bid 1 90) True, 2 \<mapsto> tracked_of (demo_bid 2 40) False,
    3 \<mapsto> tracked_of (demo_bid 3 60) False]"
  obtain sb where sb: "GetSlotBids 5 ?t = Some sb" "sb_Bids sb = ?bids"
    by (auto simp: GetSlotBids_def track_all_def TrackBid_slot NewBidTracker_def NewSlotBids_def
        demo_bid_def Let_def)
  have o: "range_order [1, 2, 3] (sb_Bids sb)"
    unfolding sb(2) range_order_def by auto
  have comp: "competitor 1 (sb_Bids sb) k \<longleftrightarrow> k = 2 \<or> k = 3" for k
    unfolding sb(2) competitor_def by auto
  have "bid_value (sb_Bids sb) 2 = 40" "bid_value (sb_Bids sb) 3 = 60"
    unfolding sb(2) bid_value_def by (simp_all add: demo_bid_def)
  with highest_competitor_bid [OF sb(1) o, of 1] show ?thesis
    unfolding comp by (cases "GetHighestCompetitorBid [1, 2, 3] 5 1 ?t") (auto simp: word_le_nat_alt)
qed

theorem bid_tracker_history_witness:
  "case GetSlotBids 5 (track_all [(demo_bid 2 40, False), (demo_bid 2 30, False)] (NewBidTracker 1)) of
     None \<Rightarrow> False
   | Some sb \<Rightarrow> (\<exists>tb h. sb_Bids sb 2 = Some tb \<and> eb_Value (tb_Bid tb) = 30 \<and>
       GetHighestBid 5 (track_all [(demo_bid 2 40, False), (demo_bid 2 30, False)] (NewBidTracker 1)) = Some h \<and>
       eb_Value (tb_Bid tb) \<le> eb_Value (tb_Bid h))"
proof -
  let ?t = "track_all [(demo_bid 2 40, False), (demo_bid 2 30, False)] (NewBidTracker 1)"
  obtain sb where sb: "GetSlotBids 5 ?t = Some sb" "sb_Bids sb 2 = Some (tracked_of (demo_bid 2 30) False)"
    by (auto simp: GetSlotBids_def track_all_def TrackBid_slot NewBidTracker_def NewSlotBids_def
        demo_bid_def Let_def)
  moreover have "eb_Value (tb_Bid (tracked_of (demo_bid 2 30) False)) = 30"
    by (simp add: tracked_of_def demo_bid_def)
  moreover have "\<exists>h. GetHighestBid 5 ?t = Some h \<and>
      eb_Value (tb_Bid (tracked_of (demo_bid 2 30) False)) \<le> eb_Value (tb_Bid h)"
    using bid_tracker_history [of "[(demo_bid 2 40, False), (demo_bid 2 30, False)]" 1 5] sb by blast
  ultimately show ?thesis by auto
qed

end
