(* ===== verification/Config.thy ===== *)
theory Config
  imports Go_Codec
begin

text \<open>
  \<open>pkg/config/types.go\<close> and \<open>default.go\<close>: the configuration the components read (the fields of
  connection URLs, keys and the web server are left out: no modelled code reads them), its defaults
  and the timing defaults derived from the slot time.
\<close>

section \<open>Types\<close>

type_synonym ScheduleMode = string

definition ScheduleModeAll :: ScheduleMode where "ScheduleModeAll = ''all''"
definition ScheduleModeEveryN :: ScheduleMode where "ScheduleModeEveryN = ''every_nth''"
definition ScheduleModeNextN :: ScheduleMode where "ScheduleModeNextN = ''next_n''"

record ScheduleConfig =
  sc_Mode :: ScheduleMode
  sc_EveryNth :: u64
  sc_NextN :: u64
  sc_StartSlot :: u64

record BuilderAPIConfig =
  bc_BlockValueSubsidyGwei :: u64
  bc_ValueOverrideGwei :: u64

record EPBSConfig =
  ec_BuildStartTime :: i64
  ec_BidStartTime :: i64
  ec_BidEndTime :: i64
  ec_BidMinAmount :: u64
  ec_BidIncrease :: u64
  ec_BidInterval :: i64
  ec_BidSubsidy :: u64
  ec_BidValueOverride :: u64
  ec_HeadVoteThresholdPct :: u64

definition RevealGateTime :: string where "RevealGateTime = ''time''"
definition RevealGateVote :: string where "RevealGateVote = ''vote''"
definition RevealGateVoteOrTime :: string where "RevealGateVoteOrTime = ''vote_or_time''"
definition RevealGateVoteAndTime :: string where "RevealGateVoteAndTime = ''vote_and_time''"

definition BroadcastValidationGossip :: string where
  "BroadcastValidationGossip = ''gossip''"
definition BroadcastValidationConsensus :: string where
  "BroadcastValidationConsensus = ''consensus''"
definition BroadcastValidationConsensusAndEquivocation :: string where
  "BroadcastValidationConsensusAndEquivocation = ''consensus_and_equivocation''"

record RevealConfig =
  rc_Enabled :: bool
  rc_GateMode :: string
  rc_TimeMs :: i64
  rc_VoteThresholdPct :: u64
  rc_BroadcastValidation :: string
  rc_MaxAttempts :: u64
  rc_RetryIntervalMs :: i64

record Config =
  cfg_APIPort :: int
  cfg_LifecycleEnabled :: bool
  cfg_EPBSEnabled :: bool
  cfg_BuilderAPIEnabled :: bool
  cfg_BuilderAPI :: BuilderAPIConfig
  cfg_DepositAmount :: u64
  cfg_TopupThreshold :: u64
  cfg_TopupAmount :: u64
  cfg_DepositMaxFeeGwei :: u64
  cfg_Schedule :: ScheduleConfig
  cfg_EPBS :: EPBSConfig
  cfg_Reveal :: RevealConfig
  cfg_PayloadBuildTime :: u64
  cfg_ExtraData :: string
  cfg_SlotResultRetentionEpochs :: u64
  cfg_SlotArtifactRetentionEpochs :: u64
  cfg_SlotArtifactCaptureEnabled :: bool

definition gate_modes :: "string list" where
  "gate_modes = [RevealGateTime, RevealGateVote, RevealGateVoteOrTime, RevealGateVoteAndTime]"

definition NormalizedGateMode :: "string \<Rightarrow> string" where
  "NormalizedGateMode m = (if m \<in> set gate_modes then m else RevealGateTime)"

definition broadcast_levels :: "string list" where
  "broadcast_levels = [BroadcastValidationGossip, BroadcastValidationConsensus,
     BroadcastValidationConsensusAndEquivocation]"

definition NormalizedBroadcastValidation :: "string \<Rightarrow> string" where
  "NormalizedBroadcastValidation l =
     (if l \<in> set broadcast_levels then l else BroadcastValidationGossip)"

section \<open>Defaults\<close>

definition DefaultConfig :: Config where
  "DefaultConfig = \<lparr>cfg_APIPort = 0, cfg_LifecycleEnabled = False, cfg_EPBSEnabled = False,
     cfg_BuilderAPIEnabled = False,
     cfg_BuilderAPI = \<lparr>bc_BlockValueSubsidyGwei = 100000, bc_ValueOverrideGwei = 0\<rparr>,
     cfg_DepositAmount = 50000000000, cfg_TopupThreshold = 10000000000,
     cfg_TopupAmount = 50000000000, cfg_DepositMaxFeeGwei = 1000000,
     cfg_Schedule = \<lparr>sc_Mode = ScheduleModeAll, sc_EveryNth = 1, sc_NextN = 0, sc_StartSlot = 0\<rparr>,
     cfg_EPBS = \<lparr>ec_BuildStartTime = 0, ec_BidStartTime = 0, ec_BidEndTime = 0,
       ec_BidMinAmount = 1000000, ec_BidIncrease = 100000, ec_BidInterval = 500,
       ec_BidSubsidy = 100000000, ec_BidValueOverride = 0, ec_HeadVoteThresholdPct = 60\<rparr>,
     cfg_Reveal = \<lparr>rc_Enabled = True, rc_GateMode = RevealGateVoteOrTime, rc_TimeMs = 0,
       rc_VoteThresholdPct = 60,
       rc_BroadcastValidation = BroadcastValidationConsensusAndEquivocation,
       rc_MaxAttempts = 3, rc_RetryIntervalMs = 500\<rparr>,
     cfg_PayloadBuildTime = 0, cfg_ExtraData = ''buildoor/'',
     cfg_SlotResultRetentionEpochs = 100, cfg_SlotArtifactRetentionEpochs = 100,
     cfg_SlotArtifactCaptureEnabled = True\<rparr>"

definition referenceSlotTimeMs :: int where
  "referenceSlotTimeMs = 12000"

text \<open>\<open>k * slotTimeMs / referenceSlotTimeMs\<close> in \<open>int64\<close> arithmetic.\<close>

definition scaled :: "int \<Rightarrow> i64 \<Rightarrow> i64" where
  "scaled k slotTimeMs = swrap64 (k * slotTimeMs) sdiv referenceSlotTimeMs"

definition ApplySlotDefaults :: "i64 \<Rightarrow> Config \<Rightarrow> Config" where
  "ApplySlotDefaults slotTimeMs c =
     (let c1 = (if ec_BuildStartTime (cfg_EPBS c) = 0
                then c\<lparr>cfg_EPBS := (cfg_EPBS c)\<lparr>ec_BuildStartTime := scaled (- 2900) slotTimeMs\<rparr>\<rparr> else c);
          c2 = (if cfg_PayloadBuildTime c1 = 0
                then c1\<lparr>cfg_PayloadBuildTime := u64_of_i64 (scaled 2100 slotTimeMs)\<rparr> else c1);
          c3 = (if ec_BidStartTime (cfg_EPBS c2) = 0
                then c2\<lparr>cfg_EPBS := (cfg_EPBS c2)\<lparr>ec_BidStartTime := scaled (- 400) slotTimeMs\<rparr>\<rparr> else c2);
          c4 = (if ec_BidEndTime (cfg_EPBS c3) = 0
                then c3\<lparr>cfg_EPBS := (cfg_EPBS c3)\<lparr>ec_BidEndTime := scaled (- 100) slotTimeMs\<rparr>\<rparr> else c3)
      in if rc_TimeMs (cfg_Reveal c4) = 0
         then c4\<lparr>cfg_Reveal := (cfg_Reveal c4)\<lparr>rc_TimeMs := scaled 5000 slotTimeMs\<rparr>\<rparr> else c4)"

section \<open>Lemmas\<close>

lemma NormalizedGateMode_known [simp]: "NormalizedGateMode m = m \<longleftrightarrow> m \<in> set gate_modes"
  by (auto simp: NormalizedGateMode_def gate_modes_def)

lemma NormalizedGateMode_in [simp]: "NormalizedGateMode m \<in> set gate_modes"
  by (auto simp: NormalizedGateMode_def gate_modes_def)

lemma NormalizedBroadcast_known [simp]:
  "NormalizedBroadcastValidation l = l \<longleftrightarrow> l \<in> set broadcast_levels"
  by (auto simp: NormalizedBroadcastValidation_def broadcast_levels_def)

lemma NormalizedBroadcast_in [simp]: "NormalizedBroadcastValidation l \<in> set broadcast_levels"
  by (auto simp: NormalizedBroadcastValidation_def broadcast_levels_def)

text \<open>
  For slot times of up to about 36 days the scaled values are the exact proportions, rounded
  towards zero.\<close>

lemma scaled_exact:
  assumes "0 \<le> ms" "ms \<le> 3000000000" "\<bar>k\<bar> \<le> 5000"
  shows "scaled k ms = (k * ms) sdiv 12000"
proof -
  have "\<bar>k * ms\<bar> \<le> 5000 * 3000000000"
    unfolding abs_mult using assms by (intro mult_mono) auto
  then have "is_i64 (k * ms)" unfolding is_i64_def min_i64_def max_i64_def by linarith
  then show ?thesis by (simp add: scaled_def swrap64_id referenceSlotTimeMs_def)
qed

lemma slot_default_fields:
  "ec_BuildStartTime (cfg_EPBS (ApplySlotDefaults ms DefaultConfig)) = scaled (- 2900) ms"
  "ec_BidStartTime (cfg_EPBS (ApplySlotDefaults ms DefaultConfig)) = scaled (- 400) ms"
  "ec_BidEndTime (cfg_EPBS (ApplySlotDefaults ms DefaultConfig)) = scaled (- 100) ms"
  "rc_TimeMs (cfg_Reveal (ApplySlotDefaults ms DefaultConfig)) = scaled 5000 ms"
  by (simp_all add: ApplySlotDefaults_def DefaultConfig_def Let_def)

text \<open>The default bid window lies before the slot and is in order; the reveal is in the slot.\<close>

lemma slot_defaults_ordered:
  assumes "120 \<le> ms" "ms \<le> 3000000000" "c = ApplySlotDefaults ms DefaultConfig"
  shows "ec_BuildStartTime (cfg_EPBS c) < ec_BidStartTime (cfg_EPBS c) \<and>
    ec_BidStartTime (cfg_EPBS c) < ec_BidEndTime (cfg_EPBS c) \<and>
    ec_BidEndTime (cfg_EPBS c) < 0 \<and> 0 < rc_TimeMs (cfg_Reveal c) \<and> rc_TimeMs (cfg_Reveal c) < ms"
proof -
  have s: "scaled (- k) ms = - (k * ms div 12000)" if "0 \<le> k" "k \<le> 5000" for k
  proof -
    have "scaled (- k) ms = (- k * ms) sdiv 12000" using assms that by (intro scaled_exact) auto
    also have "\<dots> = - (k * ms div 12000)"
      using assms that by (cases "k = 0") (simp_all add: signed_divide_int_def sgn_mult)
    finally show ?thesis .
  qed
  have p: "scaled 5000 ms = 5000 * ms div 12000"
    using assms scaled_exact [of ms 5000] by (simp add: sdiv_nonneg)
  have step: "y div 12000 < x div 12000" if "y + 12000 \<le> x" for x y :: int
    using zdiv_mono1 [OF that, of 12000] by simp
  have "2900 * ms div 12000 > 400 * ms div 12000" "400 * ms div 12000 > 100 * ms div 12000"
    "100 * ms div 12000 > 0" "5000 * ms div 12000 > 0" "5000 * ms div 12000 < ms"
    using assms(1) step [of "400 * ms" "2900 * ms"] step [of "100 * ms" "400 * ms"]
      step [of 0 "100 * ms"] step [of 0 "5000 * ms"] step [of "5000 * ms" "12000 * ms"] by simp_all
  then show ?thesis
    using s [of 2900] s [of 400] s [of 100] p
    unfolding assms(3) slot_default_fields by (simp del: div_mult_mult1 div_mult_self1 div_mult_self2)
qed

end
