(* ===== verification/Plan_Types.thy ===== *)
theory Plan_Types
  imports Config Go_Json "HOL-Library.List_Lexorder" "HOL-Library.Char_ord"
begin

text \<open>
  \<open>pkg/action_plan/types.go\<close>: the per-slot action plan, its validation, and the updates the API
  applies to it.  Optional override fields are \<open>option\<close> values; deep copies (\<open>Clone\<close>,
  \<open>cloneScalar\<close>) are the identity on values.  The raw members of an update are JSON trees, absent
  when the request does not have them.  Parsing a jq program is done by a library: \<open>jqValid\<close> is
  the argument that says which expressions it accepts.
\<close>

section \<open>Plans\<close>

type_synonym Mode = string

definition ModeDisabled :: Mode where "ModeDisabled = ''disabled''"
definition ModeCustom :: Mode where "ModeCustom = ''custom''"

record BidPlan =
  bp_Mode :: Mode
  bp_BidStartTime :: "i64 option"
  bp_BidEndTime :: "i64 option"
  bp_BidMinAmount :: "u64 option"
  bp_BidIncrease :: "u64 option"
  bp_BidInterval :: "i64 option"
  bp_BidSubsidy :: "u64 option"
  bp_BidValueGwei :: "u64 option"
  bp_IgnoreMissingPrefs :: bool

record BuilderAPIPlan =
  ap_Mode :: Mode
  ap_ValueSubsidyGwei :: "u64 option"
  ap_TotalValueOverrideGwei :: "u64 option"
  ap_ResponseDelayMs :: "i64 option"

record RevealPlan =
  rp_Mode :: Mode
  rp_RevealTimeMs :: "i64 option"
  rp_GateMode :: "string option"
  rp_VoteThresholdPct :: "u64 option"
  rp_BroadcastValidation :: "string option"

record BuildPlan =
  bd_ReorgParentPayload :: bool

record TransformPlan =
  tp_Payload :: string
  tp_Bid :: string
  tp_Envelope :: string

record SlotPlan =
  sp_Slot :: slot
  sp_Bid :: "BidPlan option"
  sp_BuilderAPI :: "BuilderAPIPlan option"
  sp_Reveal :: "RevealPlan option"
  sp_Build :: "BuildPlan option"
  sp_Transforms :: "TransformPlan option"
  sp_UpdatedAt :: gotime
  sp_UpdatedBy :: string

section \<open>Validation\<close>

datatype plan_error =
    InvalidMode string Mode
  | OverridesNotAllowed string
  | OutOfBounds string i64 i64 i64
  | StartNotBeforeEnd i64 i64
  | NegativeInterval i64
  | InvalidGateMode string
  | ThresholdAbove100 u64
  | InvalidBroadcast string
  | InvalidTransform
  | InvalidSlotDuration
  | DecodeFailed string
  | UnknownPath string
  | EmptyField string
  | ModeNotNullable string

text \<open>A check is \<open>None\<close> when it passes; checks run in order and the first error is returned.\<close>

type_synonym check = "plan_error option"

fun first_error :: "check list \<Rightarrow> check" where
  "first_error [] = None"
| "first_error (Some e # cs) = Some e"
| "first_error (None # cs) = first_error cs"

definition validateMode :: "string \<Rightarrow> Mode \<Rightarrow> check" where
  "validateMode category mode =
     (if mode = ModeDisabled \<or> mode = ModeCustom then None else Some (InvalidMode category mode))"

definition validateTimeBound :: "string \<Rightarrow> i64 option \<Rightarrow> i64 \<Rightarrow> i64 \<Rightarrow> check" where
  "validateTimeBound name v minMs maxMs =
     (case v of None \<Rightarrow> None
      | Some x \<Rightarrow> if x < minMs \<or> x > maxMs then Some (OutOfBounds name minMs maxMs x) else None)"

definition bid_hasOverrides :: "BidPlan \<Rightarrow> bool" where
  "bid_hasOverrides p \<longleftrightarrow>
     bp_BidStartTime p \<noteq> None \<or> bp_BidEndTime p \<noteq> None \<or> bp_BidMinAmount p \<noteq> None \<or>
     bp_BidIncrease p \<noteq> None \<or> bp_BidInterval p \<noteq> None \<or> bp_BidSubsidy p \<noteq> None \<or>
     bp_BidValueGwei p \<noteq> None \<or> bp_IgnoreMissingPrefs p"

definition bid_validate :: "i64 \<Rightarrow> BidPlan \<Rightarrow> check" where
  "bid_validate slotMs p = first_error [
     validateMode ''bid'' (bp_Mode p),
     if bp_Mode p = ModeDisabled \<and> bid_hasOverrides p then Some (OverridesNotAllowed ''bid'') else None,
     validateTimeBound ''bid.bid_start_time'' (bp_BidStartTime p) (swrap64 (- slotMs)) slotMs,
     validateTimeBound ''bid.bid_end_time'' (bp_BidEndTime p) (swrap64 (- slotMs)) slotMs,
     (case (bp_BidStartTime p, bp_BidEndTime p) of
        (Some s, Some e) \<Rightarrow> if s \<ge> e then Some (StartNotBeforeEnd s e) else None
      | _ \<Rightarrow> None),
     (case bp_BidInterval p of
        Some i \<Rightarrow> if i < 0 then Some (NegativeInterval i) else None | None \<Rightarrow> None)]"

definition api_hasOverrides :: "BuilderAPIPlan \<Rightarrow> bool" where
  "api_hasOverrides p \<longleftrightarrow>
     ap_ValueSubsidyGwei p \<noteq> None \<or> ap_TotalValueOverrideGwei p \<noteq> None \<or> ap_ResponseDelayMs p \<noteq> None"

definition api_validate :: "i64 \<Rightarrow> BuilderAPIPlan \<Rightarrow> check" where
  "api_validate slotMs p = first_error [
     validateMode ''builder_api'' (ap_Mode p),
     if ap_Mode p = ModeDisabled \<and> api_hasOverrides p
       then Some (OverridesNotAllowed ''builder_api'') else None,
     (case ap_ResponseDelayMs p of
        Some d \<Rightarrow> if d < 0 \<or> d > slotMs then Some (OutOfBounds ''builder_api.response_delay_ms'' 0 slotMs d)
                 else None
      | None \<Rightarrow> None)]"

definition reveal_validate :: "i64 \<Rightarrow> RevealPlan \<Rightarrow> check" where
  "reveal_validate slotMs p = first_error [
     validateMode ''reveal'' (rp_Mode p),
     if rp_Mode p = ModeDisabled \<and> (rp_RevealTimeMs p \<noteq> None \<or> rp_GateMode p \<noteq> None \<or>
          rp_VoteThresholdPct p \<noteq> None \<or> rp_BroadcastValidation p \<noteq> None)
       then Some (OverridesNotAllowed ''reveal'') else None,
     (case rp_GateMode p of
        Some m \<Rightarrow> if NormalizedGateMode m \<noteq> m then Some (InvalidGateMode m) else None | None \<Rightarrow> None),
     (case rp_VoteThresholdPct p of
        Some t \<Rightarrow> if t > 100 then Some (ThresholdAbove100 t) else None | None \<Rightarrow> None),
     (case rp_BroadcastValidation p of
        Some b \<Rightarrow> if NormalizedBroadcastValidation b \<noteq> b then Some (InvalidBroadcast b) else None
      | None \<Rightarrow> None),
     validateTimeBound ''reveal.reveal_time_ms'' (rp_RevealTimeMs p) (swrap64 (- slotMs))
       (swrap64 (2 * slotMs))]"

definition build_isZero :: "BuildPlan option \<Rightarrow> bool" where
  "build_isZero p = (case p of None \<Rightarrow> True | Some b \<Rightarrow> \<not> bd_ReorgParentPayload b)"

definition transform_isZero :: "TransformPlan option \<Rightarrow> bool" where
  "transform_isZero p =
     (case p of None \<Rightarrow> True | Some t \<Rightarrow> tp_Payload t = [] \<and> tp_Bid t = [] \<and> tp_Envelope t = [])"

text \<open>\<open>jqtransform.Validate\<close> accepts the empty expression without parsing it.\<close>

definition jq_Validate :: "(string \<Rightarrow> bool) \<Rightarrow> string \<Rightarrow> bool" where
  "jq_Validate jqValid expr \<longleftrightarrow> expr = [] \<or> jqValid expr"

text \<open>
  The three expressions are checked in the order of a map: which of several invalid ones the
  error names is left open.\<close>

definition transform_validate :: "(string \<Rightarrow> bool) \<Rightarrow> TransformPlan \<Rightarrow> check" where
  "transform_validate jqValid p =
     (if list_all (jq_Validate jqValid) [tp_Payload p, tp_Bid p, tp_Envelope p] then None
      else Some InvalidTransform)"

definition IsEmpty :: "SlotPlan \<Rightarrow> bool" where
  "IsEmpty p \<longleftrightarrow> sp_Bid p = None \<and> sp_BuilderAPI p = None \<and> sp_Reveal p = None \<and>
     build_isZero (sp_Build p) \<and> transform_isZero (sp_Transforms p)"

definition BidOverride :: "SlotPlan option \<Rightarrow> bool option" where
  "BidOverride p = Option.bind p (\<lambda>p. map_option (\<lambda>b. bp_Mode b = ModeCustom) (sp_Bid p))"

definition BuilderAPIOverride :: "SlotPlan option \<Rightarrow> bool option" where
  "BuilderAPIOverride p = Option.bind p (\<lambda>p. map_option (\<lambda>b. ap_Mode b = ModeCustom) (sp_BuilderAPI p))"

definition RevealOverride :: "SlotPlan option \<Rightarrow> bool option" where
  "RevealOverride p = Option.bind p (\<lambda>p. map_option (\<lambda>b. rp_Mode b = ModeCustom) (sp_Reveal p))"

definition check_opt :: "('a \<Rightarrow> check) \<Rightarrow> 'a option \<Rightarrow> check" where
  "check_opt f p = (case p of None \<Rightarrow> None | Some x \<Rightarrow> f x)"

definition plan_Validate :: "(string \<Rightarrow> bool) \<Rightarrow> duration \<Rightarrow> SlotPlan \<Rightarrow> check" where
  "plan_Validate jqValid secondsPerSlot p =
     (let slotMs = dur_ms secondsPerSlot in
      if slotMs \<le> 0 then Some InvalidSlotDuration
      else first_error [
        check_opt (bid_validate slotMs) (sp_Bid p),
        check_opt (api_validate slotMs) (sp_BuilderAPI p),
        check_opt (reveal_validate slotMs) (sp_Reveal p),
        check_opt (transform_validate jqValid) (sp_Transforms p)])"

section \<open>JSON form of the categories\<close>

text \<open>Storing into a pointer field, and into a plain string or boolean.\<close>

definition set_ptr :: "(json \<Rightarrow> 'v option option) \<Rightarrow> ('v option \<Rightarrow> 'a \<Rightarrow> 'a) \<Rightarrow> json \<Rightarrow> 'a \<Rightarrow> 'a option" where
  "set_ptr dec upd j x = map_option (\<lambda>v. upd v x) (dec j)"

definition set_str :: "('a \<Rightarrow> string) \<Rightarrow> (string \<Rightarrow> 'a \<Rightarrow> 'a) \<Rightarrow> json \<Rightarrow> 'a \<Rightarrow> 'a option" where
  "set_str get upd j x = map_option (\<lambda>v. upd v x) (json_string (get x) j)"

definition set_bool :: "('a \<Rightarrow> bool) \<Rightarrow> (bool \<Rightarrow> 'a \<Rightarrow> 'a) \<Rightarrow> json \<Rightarrow> 'a \<Rightarrow> 'a option" where
  "set_bool get upd j x = map_option (\<lambda>v. upd v x) (json_bool (get x) j)"

definition zero_bid :: BidPlan where
  "zero_bid = \<lparr>bp_Mode = [], bp_BidStartTime = None, bp_BidEndTime = None, bp_BidMinAmount = None,
     bp_BidIncrease = None, bp_BidInterval = None, bp_BidSubsidy = None, bp_BidValueGwei = None,
     bp_IgnoreMissingPrefs = False\<rparr>"

definition bid_fields :: "BidPlan json_field list" where
  "bid_fields = [
     (''mode'', set_str bp_Mode (\<lambda>v. bp_Mode_update (\<lambda>_. v))),
     (''bid_start_time'', set_ptr json_i64_ptr (\<lambda>v. bp_BidStartTime_update (\<lambda>_. v))),
     (''bid_end_time'', set_ptr json_i64_ptr (\<lambda>v. bp_BidEndTime_update (\<lambda>_. v))),
     (''bid_min_amount'', set_ptr json_u64_ptr (\<lambda>v. bp_BidMinAmount_update (\<lambda>_. v))),
     (''bid_increase'', set_ptr json_u64_ptr (\<lambda>v. bp_BidIncrease_update (\<lambda>_. v))),
     (''bid_interval'', set_ptr json_i64_ptr (\<lambda>v. bp_BidInterval_update (\<lambda>_. v))),
     (''bid_subsidy'', set_ptr json_u64_ptr (\<lambda>v. bp_BidSubsidy_update (\<lambda>_. v))),
     (''bid_value_gwei'', set_ptr json_u64_ptr (\<lambda>v. bp_BidValueGwei_update (\<lambda>_. v))),
     (''ignore_missing_prefs'', set_bool bp_IgnoreMissingPrefs (\<lambda>v. bp_IgnoreMissingPrefs_update (\<lambda>_. v)))]"

definition enc_bid :: "BidPlan \<Rightarrow> (string \<times> json) list" where
  "enc_bid p = (''mode'', JStr (bp_Mode p)) #
     omit_none ''bid_start_time'' JNum (bp_BidStartTime p) @
     omit_none ''bid_end_time'' JNum (bp_BidEndTime p) @
     omit_none ''bid_min_amount'' enc_u64 (bp_BidMinAmount p) @
     omit_none ''bid_increase'' enc_u64 (bp_BidIncrease p) @
     omit_none ''bid_interval'' JNum (bp_BidInterval p) @
     omit_none ''bid_subsidy'' enc_u64 (bp_BidSubsidy p) @
     omit_none ''bid_value_gwei'' enc_u64 (bp_BidValueGwei p) @
     omit_false ''ignore_missing_prefs'' (bp_IgnoreMissingPrefs p)"

definition zero_api :: BuilderAPIPlan where
  "zero_api = \<lparr>ap_Mode = [], ap_ValueSubsidyGwei = None, ap_TotalValueOverrideGwei = None,
     ap_ResponseDelayMs = None\<rparr>"

definition api_fields :: "BuilderAPIPlan json_field list" where
  "api_fields = [
     (''mode'', set_str ap_Mode (\<lambda>v. ap_Mode_update (\<lambda>_. v))),
     (''value_subsidy_gwei'', set_ptr json_u64_ptr (\<lambda>v. ap_ValueSubsidyGwei_update (\<lambda>_. v))),
     (''total_value_override_gwei'', set_ptr json_u64_ptr (\<lambda>v. ap_TotalValueOverrideGwei_update (\<lambda>_. v))),
     (''response_delay_ms'', set_ptr json_i64_ptr (\<lambda>v. ap_ResponseDelayMs_update (\<lambda>_. v)))]"

definition enc_api :: "BuilderAPIPlan \<Rightarrow> (string \<times> json) list" where
  "enc_api p = (''mode'', JStr (ap_Mode p)) #
     omit_none ''value_subsidy_gwei'' enc_u64 (ap_ValueSubsidyGwei p) @
     omit_none ''total_value_override_gwei'' enc_u64 (ap_TotalValueOverrideGwei p) @
     omit_none ''response_delay_ms'' JNum (ap_ResponseDelayMs p)"

definition zero_reveal :: RevealPlan where
  "zero_reveal = \<lparr>rp_Mode = [], rp_RevealTimeMs = None, rp_GateMode = None,
     rp_VoteThresholdPct = None, rp_BroadcastValidation = None\<rparr>"

definition reveal_fields :: "RevealPlan json_field list" where
  "reveal_fields = [
     (''mode'', set_str rp_Mode (\<lambda>v. rp_Mode_update (\<lambda>_. v))),
     (''reveal_time_ms'', set_ptr json_i64_ptr (\<lambda>v. rp_RevealTimeMs_update (\<lambda>_. v))),
     (''gate_mode'', set_ptr json_string_ptr (\<lambda>v. rp_GateMode_update (\<lambda>_. v))),
     (''vote_threshold_pct'', set_ptr json_u64_ptr (\<lambda>v. rp_VoteThresholdPct_update (\<lambda>_. v))),
     (''broadcast_validation'', set_ptr json_string_ptr (\<lambda>v. rp_BroadcastValidation_update (\<lambda>_. v)))]"

definition enc_reveal :: "RevealPlan \<Rightarrow> (string \<times> json) list" where
  "enc_reveal p = (''mode'', JStr (rp_Mode p)) #
     omit_none ''reveal_time_ms'' JNum (rp_RevealTimeMs p) @
     omit_none ''gate_mode'' JStr (rp_GateMode p) @
     omit_none ''vote_threshold_pct'' enc_u64 (rp_VoteThresholdPct p) @
     omit_none ''broadcast_validation'' JStr (rp_BroadcastValidation p)"

definition zero_build :: BuildPlan where
  "zero_build = \<lparr>bd_ReorgParentPayload = False\<rparr>"

definition build_fields :: "BuildPlan json_field list" where
  "build_fields = [(''reorg_parent_payload'',
     set_bool bd_ReorgParentPayload (\<lambda>v. bd_ReorgParentPayload_update (\<lambda>_. v)))]"

definition enc_build :: "BuildPlan \<Rightarrow> (string \<times> json) list" where
  "enc_build p = omit_false ''reorg_parent_payload'' (bd_ReorgParentPayload p)"

definition zero_transforms :: TransformPlan where
  "zero_transforms = \<lparr>tp_Payload = [], tp_Bid = [], tp_Envelope = []\<rparr>"

definition transform_fields :: "TransformPlan json_field list" where
  "transform_fields = [
     (''payload'', set_str tp_Payload (\<lambda>v. tp_Payload_update (\<lambda>_. v))),
     (''bid'', set_str tp_Bid (\<lambda>v. tp_Bid_update (\<lambda>_. v))),
     (''envelope'', set_str tp_Envelope (\<lambda>v. tp_Envelope_update (\<lambda>_. v)))]"

definition enc_transforms :: "TransformPlan \<Rightarrow> (string \<times> json) list" where
  "enc_transforms p = omit_empty ''payload'' (tp_Payload p) @ omit_empty ''bid'' (tp_Bid p) @
     omit_empty ''envelope'' (tp_Envelope p)"

section \<open>Updates\<close>

record PlanUpdate =
  pu_Slots :: "u64 list"
  pu_FromSlot :: "u64 option"
  pu_ToSlot :: "u64 option"
  pu_Delete :: bool
  pu_Bid :: "json option"
  pu_BuilderAPI :: "json option"
  pu_Reveal :: "json option"
  pu_Build :: "json option"
  pu_Transforms :: "json option"
  pu_Set :: "(string \<times> json) list"

definition MaxSlotsPerUpdate :: u64 where
  "MaxSlotsPerUpdate = 6400"

datatype target_error = FromToTogether | InvalidRange u64 u64 | RangeTooLarge u64 | TargetsNoSlots
  | TooManySlots u64

text \<open>\<open>for slot := from; ; slot++ { append; if slot == to { break } }\<close>\<close>

function slot_loop :: "u64 \<Rightarrow> u64 \<Rightarrow> u64 list" where
  "slot_loop s to = s # (if s = to then [] else slot_loop (s + 1) to)"
  by pat_completeness auto

termination
proof (relation "measure (\<lambda>(s, to). unat (to - s))")
  fix s to :: u64
  assume "s \<noteq> to"
  then have "to - s \<noteq> 0" by simp
  then have "unat (to - s - 1) < unat (to - s)" by (simp add: unat_minus_one unat_gt_0)
  then show "((s + 1, to), (s, to)) \<in> measure (\<lambda>(s, to). unat (to - s))"
    by (simp add: diff_diff_eq)
qed simp

declare slot_loop.simps [simp del]

definition TargetSlots :: "PlanUpdate \<Rightarrow> target_error + slot list" where
  "TargetSlots u =
     (let count0 = of_nat (length (pu_Slots u)) in
      if (pu_FromSlot u = None) \<noteq> (pu_ToSlot u = None) then Inl FromToTogether
      else
        (case (pu_FromSlot u, pu_ToSlot u) of
           (Some from, Some to) \<Rightarrow>
             if to < from then Inl (InvalidRange from to)
             else
               (let rangeCount = to - from + 1; count = count0 + rangeCount in
                if rangeCount > MaxSlotsPerUpdate then Inl (RangeTooLarge rangeCount)
                else if count = 0 then Inl TargetsNoSlots
                else if count > MaxSlotsPerUpdate then Inl (TooManySlots count)
                else Inr (pu_Slots u @ slot_loop from to))
         | _ \<Rightarrow>
             if count0 = 0 then Inl TargetsNoSlots
             else if count0 > MaxSlotsPerUpdate then Inl (TooManySlots count0)
             else Inr (pu_Slots u)))"

text \<open>The result of a patch: the category, and whether it was changed.\<close>

definition isJSONNull :: "json \<Rightarrow> bool" where
  "isJSONNull j \<longleftrightarrow> j = JNull"

definition applyCategoryPatch ::
  "string \<Rightarrow> (json \<Rightarrow> 'a option) \<Rightarrow> json option \<Rightarrow> 'a option \<Rightarrow> plan_error + ('a option \<times> bool)" where
  "applyCategoryPatch category dec raw current =
     (case raw of
        None \<Rightarrow> Inr (current, False)
      | Some j \<Rightarrow>
          if isJSONNull j then Inr (None, True)
          else
            (case dec j of
               None \<Rightarrow> Inl (DecodeFailed category)
             | Some patch \<Rightarrow> Inr (Some patch, True)))"

definition categoryHasMode :: "string \<Rightarrow> bool" where
  "categoryHasMode category \<longleftrightarrow> category \<noteq> ''build'' \<and> category \<noteq> ''transforms''"

text \<open>
  The members of a category as a map from names to values: the association list keeps one entry
  per name, and marshalling a map writes its keys in ascending order.\<close>

definition applyFieldPatch ::
  "string \<Rightarrow> (json \<Rightarrow> 'a option) \<Rightarrow> ('a \<Rightarrow> (string \<times> json) list) \<Rightarrow> string \<Rightarrow> bool \<Rightarrow> json
     \<Rightarrow> 'a option \<Rightarrow> plan_error + 'a option" where
  "applyFieldPatch category dec enc field hasField v current =
     (if \<not> hasField then map_sum id fst (applyCategoryPatch category dec (Some v) current)
      else if field = [] then Inl (EmptyField category)
      else
        (let fields =
           (case current of
              Some c \<Rightarrow> enc c
            | None \<Rightarrow> if field \<noteq> ''mode'' \<and> categoryHasMode category
                      then [(''mode'', JStr ModeCustom)] else [])
         in
         if isJSONNull v \<and> field = ''mode'' then Inl (ModeNotNullable category)
         else
           (let fields' = (if isJSONNull v then filter (\<lambda>(k, _). k \<noteq> field) fields
                           else (field, v) # filter (\<lambda>(k, _). k \<noteq> field) fields)
            in map_sum id fst (applyCategoryPatch category dec (Some (JObj (sort_key fst fields'))) current))))"

text \<open>\<open>strings.Cut(path, ".")\<close>\<close>

fun Cut :: "string \<Rightarrow> string \<times> string \<times> bool" where
  "Cut [] = ([], [], False)"
| "Cut (c # cs) = (if c = CHR ''.'' then ([], cs, True)
     else (case Cut cs of (a, b, f) \<Rightarrow> (c # a, b, f)))"

definition dec_bid :: "json \<Rightarrow> BidPlan option" where
  "dec_bid = decode_struct True bid_fields zero_bid"
definition dec_api :: "json \<Rightarrow> BuilderAPIPlan option" where
  "dec_api = decode_struct True api_fields zero_api"
definition dec_reveal :: "json \<Rightarrow> RevealPlan option" where
  "dec_reveal = decode_struct True reveal_fields zero_reveal"
definition dec_build :: "json \<Rightarrow> BuildPlan option" where
  "dec_build = decode_struct True build_fields zero_build"
definition dec_transforms :: "json \<Rightarrow> TransformPlan option" where
  "dec_transforms = decode_struct True transform_fields zero_transforms"

definition applySetPath :: "string \<times> json \<Rightarrow> SlotPlan \<Rightarrow> plan_error + SlotPlan" where
  "applySetPath e plan =
     (case Cut (fst e) of (category, field, hasField) \<Rightarrow>
      if category = ''bid'' then
        map_sum id (\<lambda>p. plan\<lparr>sp_Bid := p\<rparr>)
          (applyFieldPatch ''bid'' dec_bid enc_bid field hasField (snd e) (sp_Bid plan))
      else if category = ''builder_api'' then
        map_sum id (\<lambda>p. plan\<lparr>sp_BuilderAPI := p\<rparr>)
          (applyFieldPatch ''builder_api'' dec_api enc_api field hasField (snd e) (sp_BuilderAPI plan))
      else if category = ''reveal'' then
        map_sum id (\<lambda>p. plan\<lparr>sp_Reveal := p\<rparr>)
          (applyFieldPatch ''reveal'' dec_reveal enc_reveal field hasField (snd e) (sp_Reveal plan))
      else if category = ''build'' then
        map_sum id (\<lambda>p. plan\<lparr>sp_Build := p\<rparr>)
          (applyFieldPatch ''build'' dec_build enc_build field hasField (snd e) (sp_Build plan))
      else if category = ''transforms'' then
        map_sum id (\<lambda>p. plan\<lparr>sp_Transforms := p\<rparr>)
          (applyFieldPatch ''transforms'' dec_transforms enc_transforms field hasField (snd e)
            (sp_Transforms plan))
      else Inl (UnknownPath (fst e)))"

fun set_path_loop :: "(string \<times> json) list \<Rightarrow> SlotPlan \<Rightarrow> plan_error + SlotPlan" where
  "set_path_loop [] plan = Inr plan"
| "set_path_loop (e # es) plan =
     (case applySetPath e plan of Inl err \<Rightarrow> Inl err | Inr plan' \<Rightarrow> set_path_loop es plan')"

definition applySetPaths :: "(string \<times> json) list \<Rightarrow> SlotPlan \<Rightarrow> plan_error + SlotPlan" where
  "applySetPaths sets plan = set_path_loop (sort_key fst sets) plan"

definition empty_plan :: SlotPlan where
  "empty_plan = \<lparr>sp_Slot = 0, sp_Bid = None, sp_BuilderAPI = None, sp_Reveal = None, sp_Build = None,
     sp_Transforms = None, sp_UpdatedAt = 0, sp_UpdatedBy = []\<rparr>"

text \<open>One category step: \<open>patched, changed, err := applyCategoryPatch(...)\<close>.\<close>

definition patch_step ::
  "string \<Rightarrow> (json \<Rightarrow> 'a option) \<Rightarrow> json option \<Rightarrow> (SlotPlan \<Rightarrow> 'a option)
     \<Rightarrow> ('a option \<Rightarrow> SlotPlan \<Rightarrow> SlotPlan) \<Rightarrow> plan_error + SlotPlan \<Rightarrow> plan_error + SlotPlan" where
  "patch_step category dec raw get upd r =
     (case r of Inl e \<Rightarrow> Inl e
      | Inr plan \<Rightarrow>
          (case applyCategoryPatch category dec raw (get plan) of
             Inl e \<Rightarrow> Inl e
           | Inr (p, changed) \<Rightarrow> Inr (if changed then upd p plan else plan)))"

definition drop_zero :: "SlotPlan \<Rightarrow> SlotPlan" where
  "drop_zero p =
     (let p1 = (if build_isZero (sp_Build p) then p\<lparr>sp_Build := None\<rparr> else p)
      in if transform_isZero (sp_Transforms p1) then p1\<lparr>sp_Transforms := None\<rparr> else p1)"

definition ApplyUpdateToPlan :: "SlotPlan option \<Rightarrow> PlanUpdate \<Rightarrow> plan_error + SlotPlan option" where
  "ApplyUpdateToPlan existing u =
     (if pu_Delete u then Inr None
      else
        (let r0 = Inr (case existing of Some p \<Rightarrow> p | None \<Rightarrow> empty_plan);
             r1 = patch_step ''bid'' dec_bid (pu_Bid u) sp_Bid (\<lambda>v. sp_Bid_update (\<lambda>_. v)) r0;
             r2 = patch_step ''builder_api'' dec_api (pu_BuilderAPI u) sp_BuilderAPI
                    (\<lambda>v. sp_BuilderAPI_update (\<lambda>_. v)) r1;
             r3 = patch_step ''reveal'' dec_reveal (pu_Reveal u) sp_Reveal
                    (\<lambda>v. sp_Reveal_update (\<lambda>_. v)) r2;
             r4 = patch_step ''build'' dec_build (pu_Build u) sp_Build (\<lambda>v. sp_Build_update (\<lambda>_. v)) r3;
             r5 = patch_step ''transforms'' dec_transforms (pu_Transforms u) sp_Transforms
                    (\<lambda>v. sp_Transforms_update (\<lambda>_. v)) r4
         in case r5 of Inl e \<Rightarrow> Inl e
            | Inr plan \<Rightarrow>
                (case applySetPaths (pu_Set u) plan of Inl e \<Rightarrow> Inl e
                 | Inr plan' \<Rightarrow>
                     (let result = drop_zero plan' in
                      if IsEmpty result then Inr None else Inr (Some result)))))"

section \<open>Lemmas on validation\<close>

lemma first_error_None [simp]: "first_error cs = None \<longleftrightarrow> list_all (\<lambda>c. c = None) cs"
proof (induction cs)
  case (Cons c cs)
  then show ?case by (cases c) simp_all
qed simp

lemma check_opt_None [simp]: "check_opt f p = None \<longleftrightarrow> (\<forall>x. p = Some x \<longrightarrow> f x = None)"
  by (simp add: check_opt_def split: option.splits)

lemma validateTimeBound_None [simp]:
  "validateTimeBound n v lo hi = None \<longleftrightarrow> (\<forall>x. v = Some x \<longrightarrow> lo \<le> x \<and> x \<le> hi)"
  by (auto simp: validateTimeBound_def split: option.splits)

lemma validateMode_None [simp]: "validateMode c m = None \<longleftrightarrow> m \<in> {ModeDisabled, ModeCustom}"
  by (simp add: validateMode_def)

text \<open>What it means for a plan to be valid on a slot of \<open>ms\<close> milliseconds.\<close>

definition bid_wf :: "int \<Rightarrow> BidPlan \<Rightarrow> bool" where
  "bid_wf ms p \<longleftrightarrow> bp_Mode p \<in> {ModeDisabled, ModeCustom} \<and>
     (bp_Mode p = ModeDisabled \<longrightarrow> \<not> bid_hasOverrides p) \<and>
     (\<forall>t. bp_BidStartTime p = Some t \<or> bp_BidEndTime p = Some t \<longrightarrow> - ms \<le> t \<and> t \<le> ms) \<and>
     (\<forall>a b. bp_BidStartTime p = Some a \<longrightarrow> bp_BidEndTime p = Some b \<longrightarrow> a < b) \<and>
     (\<forall>i. bp_BidInterval p = Some i \<longrightarrow> 0 \<le> i)"

definition api_wf :: "int \<Rightarrow> BuilderAPIPlan \<Rightarrow> bool" where
  "api_wf ms p \<longleftrightarrow> ap_Mode p \<in> {ModeDisabled, ModeCustom} \<and>
     (ap_Mode p = ModeDisabled \<longrightarrow> \<not> api_hasOverrides p) \<and>
     (\<forall>d. ap_ResponseDelayMs p = Some d \<longrightarrow> 0 \<le> d \<and> d \<le> ms)"

definition reveal_wf :: "int \<Rightarrow> RevealPlan \<Rightarrow> bool" where
  "reveal_wf ms p \<longleftrightarrow> rp_Mode p \<in> {ModeDisabled, ModeCustom} \<and>
     (rp_Mode p = ModeDisabled \<longrightarrow> rp_RevealTimeMs p = None \<and> rp_GateMode p = None \<and>
        rp_VoteThresholdPct p = None \<and> rp_BroadcastValidation p = None) \<and>
     (\<forall>m. rp_GateMode p = Some m \<longrightarrow> m \<in> set gate_modes) \<and>
     (\<forall>t. rp_VoteThresholdPct p = Some t \<longrightarrow> t \<le> 100) \<and>
     (\<forall>b. rp_BroadcastValidation p = Some b \<longrightarrow> b \<in> set broadcast_levels) \<and>
     (\<forall>t. rp_RevealTimeMs p = Some t \<longrightarrow> - ms \<le> t \<and> t \<le> 2 * ms)"

definition plan_wf :: "(string \<Rightarrow> bool) \<Rightarrow> int \<Rightarrow> SlotPlan \<Rightarrow> bool" where
  "plan_wf jqValid ms p \<longleftrightarrow> 0 < ms \<and>
     (\<forall>b. sp_Bid p = Some b \<longrightarrow> bid_wf ms b) \<and>
     (\<forall>a. sp_BuilderAPI p = Some a \<longrightarrow> api_wf ms a) \<and>
     (\<forall>r. sp_Reveal p = Some r \<longrightarrow> reveal_wf ms r) \<and>
     (\<forall>t. sp_Transforms p = Some t \<longrightarrow>
        (\<forall>e \<in> {tp_Payload t, tp_Bid t, tp_Envelope t}. e = [] \<or> jqValid e))"

lemma bid_validate_wf:
  assumes "0 < ms" "2 * ms \<le> max_i64"
  shows "bid_validate ms p = None \<longleftrightarrow> bid_wf ms p"
proof -
  have "swrap64 (- ms) = - ms" using assms by (simp add: swrap64_id is_i64_def min_i64_def max_i64_def)
  then show ?thesis
    by (cases "bp_BidStartTime p"; cases "bp_BidEndTime p"; cases "bp_BidInterval p")
      (auto simp: bid_validate_def bid_wf_def)
qed

lemma api_validate_wf: "api_validate ms p = None \<longleftrightarrow> api_wf ms p"
  by (cases "ap_ResponseDelayMs p") (auto simp: api_validate_def api_wf_def)

lemma reveal_validate_wf:
  assumes "0 < ms" "2 * ms \<le> max_i64"
  shows "reveal_validate ms p = None \<longleftrightarrow> reveal_wf ms p"
proof -
  have "swrap64 (- ms) = - ms" "swrap64 (2 * ms) = 2 * ms"
    using assms by (simp_all add: swrap64_id is_i64_def min_i64_def max_i64_def)
  then show ?thesis
    by (cases "rp_GateMode p"; cases "rp_VoteThresholdPct p"; cases "rp_BroadcastValidation p")
      (auto simp: reveal_validate_def reveal_wf_def not_less)
qed

lemma dur_ms_bound: "is_i64 d \<Longrightarrow> 2 * dur_ms d \<le> max_i64"
proof -
  assume d: "is_i64 d"
  show ?thesis
  proof (cases "d \<le> 0")
    case True
    then have "dur_ms d \<le> 0"
      by (auto simp: dur_ms_def signed_divide_int_def nanos_per_ms_def sgn_mult sgn_if div_pos_pos_trivial
          intro: mult_nonpos_nonneg pos_imp_zdiv_nonneg_iff [THEN iffD2])
    then show ?thesis by (simp add: max_i64_def)
  next
    case False
    then have "dur_ms d = d div 1000000" by (simp add: dur_ms_def nanos_per_ms_def sdiv_nonneg)
    moreover have "d div 1000000 * 1000000 \<le> d" by (simp add: minus_mod_eq_div_mult [symmetric])
    moreover have "d \<le> 9223372036854775807" using d by (simp add: is_i64_def max_i64_def)
    ultimately show ?thesis by (simp add: max_i64_def)
  qed
qed

section \<open>Lemmas on target slots\<close>

lemma slot_loop_conv:
  "slot_loop s to = map (\<lambda>i. s + of_nat i) [0..<Suc (unat (to - s))]"
proof (induction s to rule: slot_loop.induct)
  case (1 s to)
  show ?case
  proof (cases "s = to")
    case True
    then show ?thesis by (simp add: slot_loop.simps [of to])
  next
    case False
    then have "to - s \<noteq> 0" by simp
    then have n: "unat (to - s) = Suc (unat (to - (s + 1)))"
      using unat_minus_one [of "to - s"] unat_gt_0 [of "to - s"] by (simp add: diff_diff_eq)
    have "slot_loop s to = s # slot_loop (s + 1) to" using False by (simp add: slot_loop.simps [of s])
    also have "\<dots> = s # map (\<lambda>i. s + 1 + of_nat i) [0..<Suc (unat (to - (s + 1)))]"
      by (simp only: 1 [OF False])
    also have "\<dots> = map (\<lambda>i. s + of_nat i) (0 # map Suc [0..<Suc (unat (to - (s + 1)))])"
      by (simp add: comp_def add.assoc del: upt_Suc)
    also have "0 # map Suc [0..<Suc (unat (to - (s + 1)))] = [0..<Suc (unat (to - s))]"
      unfolding n map_Suc_upt by (simp add: upt_conv_Cons del: upt_Suc)
    finally show ?thesis .
  qed
qed

lemma length_slot_loop: "length (slot_loop s to) = Suc (unat (to - s))"
  by (simp add: slot_loop_conv)

lemma set_slot_loop:
  assumes "s \<le> to"
  shows "set (slot_loop s to) = {t. s \<le> t \<and> t \<le> to}"
proof -
  have n: "unat (to - s) = unat to - unat s" using assms by (simp add: unat_sub)
  have le: "unat s \<le> unat to" using assms by (simp add: word_le_nat_alt)
  have el: "unat (s + of_nat i) = unat s + i" if "i \<le> unat to - unat s" for i
  proof -
    have "unat s + i \<le> unat to" using that le by simp
    also have "unat to < 2 ^ 64" using unsigned_less [of to, where ?'a = nat] by simp
    finally show ?thesis by (simp add: unat_word_ariths unat_of_nat)
  qed
  have "t \<in> set (slot_loop s to) \<longleftrightarrow> s \<le> t \<and> t \<le> to" for t
  proof
    assume "t \<in> set (slot_loop s to)"
    then obtain i where i: "t = s + of_nat i" "i \<le> unat to - unat s"
      by (auto simp: slot_loop_conv n less_Suc_eq_le simp del: upt_Suc)
    then show "s \<le> t \<and> t \<le> to" using el [OF i(2)] le by (simp add: word_le_nat_alt)
  next
    assume t: "s \<le> t \<and> t \<le> to"
    then have "t = s + of_nat (unat (t - s))" by simp
    moreover have "unat (t - s) \<le> unat (to - s)"
      using t by (auto simp: unat_sub n word_le_nat_alt intro: diff_le_mono)
    ultimately show "t \<in> set (slot_loop s to)"
      unfolding slot_loop_conv by (auto simp: less_Suc_eq_le simp del: upt_Suc intro!: image_eqI)
  qed
  then show ?thesis by blast
qed

section \<open>Lemmas on category patches\<close>

text \<open>
  Field names are lower case, so a member written by the encoder is stored into its own field.\<close>

lemmas name_eval = ToLower_def ascii_lower_def Let_def

text \<open>The value of each bid field after decoding members with different names.\<close>

definition member :: "string \<Rightarrow> (json \<Rightarrow> 'v option) \<Rightarrow> 'v \<Rightarrow> (string \<times> json) list \<Rightarrow> 'v" where
  "member name dec old ms = (case map_of ms name of None \<Rightarrow> old | Some j \<Rightarrow> the (dec j))"

definition bid_of_members :: "(string \<times> json) list \<Rightarrow> BidPlan \<Rightarrow> BidPlan" where
  "bid_of_members ms x = \<lparr>
     bp_Mode = member ''mode'' (json_string (bp_Mode x)) (bp_Mode x) ms,
     bp_BidStartTime = member ''bid_start_time'' json_i64_ptr (bp_BidStartTime x) ms,
     bp_BidEndTime = member ''bid_end_time'' json_i64_ptr (bp_BidEndTime x) ms,
     bp_BidMinAmount = member ''bid_min_amount'' json_u64_ptr (bp_BidMinAmount x) ms,
     bp_BidIncrease = member ''bid_increase'' json_u64_ptr (bp_BidIncrease x) ms,
     bp_BidInterval = member ''bid_interval'' json_i64_ptr (bp_BidInterval x) ms,
     bp_BidSubsidy = member ''bid_subsidy'' json_u64_ptr (bp_BidSubsidy x) ms,
     bp_BidValueGwei = member ''bid_value_gwei'' json_u64_ptr (bp_BidValueGwei x) ms,
     bp_IgnoreMissingPrefs =
       member ''ignore_missing_prefs'' (json_bool (bp_IgnoreMissingPrefs x)) (bp_IgnoreMissingPrefs x) ms\<rparr>"

text \<open>A member with a known name and a value of the right type.\<close>

definition bid_member_ok :: "string \<times> json \<Rightarrow> bool" where
  "bid_member_ok m \<longleftrightarrow>
     (fst m = ''mode'' \<and> json_string [] (snd m) \<noteq> None) \<or>
     (fst m \<in> {''bid_start_time'', ''bid_end_time'', ''bid_interval''} \<and> json_i64_ptr (snd m) \<noteq> None) \<or>
     (fst m \<in> {''bid_min_amount'', ''bid_increase'', ''bid_subsidy'', ''bid_value_gwei''} \<and>
        json_u64_ptr (snd m) \<noteq> None) \<or>
     (fst m = ''ignore_missing_prefs'' \<and> json_bool False (snd m) \<noteq> None)"

lemma find_bid_field:
  "find (\<lambda>f. ToLower (fst f) = ToLower ''mode'') bid_fields = Some (bid_fields ! 0)"
  "find (\<lambda>f. ToLower (fst f) = ToLower ''bid_start_time'') bid_fields = Some (bid_fields ! 1)"
  "find (\<lambda>f. ToLower (fst f) = ToLower ''bid_end_time'') bid_fields = Some (bid_fields ! 2)"
  "find (\<lambda>f. ToLower (fst f) = ToLower ''bid_min_amount'') bid_fields = Some (bid_fields ! 3)"
  "find (\<lambda>f. ToLower (fst f) = ToLower ''bid_increase'') bid_fields = Some (bid_fields ! 4)"
  "find (\<lambda>f. ToLower (fst f) = ToLower ''bid_interval'') bid_fields = Some (bid_fields ! 5)"
  "find (\<lambda>f. ToLower (fst f) = ToLower ''bid_subsidy'') bid_fields = Some (bid_fields ! 6)"
  "find (\<lambda>f. ToLower (fst f) = ToLower ''bid_value_gwei'') bid_fields = Some (bid_fields ! 7)"
  "find (\<lambda>f. ToLower (fst f) = ToLower ''ignore_missing_prefs'') bid_fields = Some (bid_fields ! 8)"
  by (simp_all add: bid_fields_def name_eval)


lemma bid_field_at:
  "snd (bid_fields ! 0) = set_str bp_Mode (\<lambda>v. bp_Mode_update (\<lambda>_. v))"
  "snd (bid_fields ! Suc 0) = set_ptr json_i64_ptr (\<lambda>v. bp_BidStartTime_update (\<lambda>_. v))"
  "snd (bid_fields ! 2) = set_ptr json_i64_ptr (\<lambda>v. bp_BidEndTime_update (\<lambda>_. v))"
  "snd (bid_fields ! 3) = set_ptr json_u64_ptr (\<lambda>v. bp_BidMinAmount_update (\<lambda>_. v))"
  "snd (bid_fields ! 4) = set_ptr json_u64_ptr (\<lambda>v. bp_BidIncrease_update (\<lambda>_. v))"
  "snd (bid_fields ! 5) = set_ptr json_i64_ptr (\<lambda>v. bp_BidInterval_update (\<lambda>_. v))"
  "snd (bid_fields ! 6) = set_ptr json_u64_ptr (\<lambda>v. bp_BidSubsidy_update (\<lambda>_. v))"
  "snd (bid_fields ! 7) = set_ptr json_u64_ptr (\<lambda>v. bp_BidValueGwei_update (\<lambda>_. v))"
  "snd (bid_fields ! 8) = set_bool bp_IgnoreMissingPrefs (\<lambda>v. bp_IgnoreMissingPrefs_update (\<lambda>_. v))"
  by (simp_all add: bid_fields_def)

lemma json_indep:
  "json_string a j \<noteq> None \<Longrightarrow> json_string b j \<noteq> None"
  "json_bool c j \<noteq> None \<Longrightarrow> json_bool d j \<noteq> None"
  by (cases j; simp)+

text \<open>One member: it is stored into the field of its name.\<close>

lemma decode_bid_member:
  assumes ok: "bid_member_ok (k, j)" and fresh: "map_of ms k = None"
  shows "\<exists>y. Option.bind (find (\<lambda>f. ToLower (fst f) = ToLower k) bid_fields) (\<lambda>f. snd f j x) = Some y \<and>
    bid_of_members ms y = bid_of_members ((k, j) # ms) x"
proof -
  from ok show ?thesis
    unfolding bid_member_ok_def fst_conv snd_conv
  proof (elim disjE conjE)
    assume k: "k = ''mode''" and "json_string [] j \<noteq> None"
    then obtain v where "json_string (bp_Mode x) j = Some v" using json_indep(1) by blast
    then show ?thesis using fresh
      by (simp add: k find_bid_field bid_field_at set_str_def bid_of_members_def member_def cong: option.case_cong)
  next
    assume k: "k = ''ignore_missing_prefs''" and "json_bool False j \<noteq> None"
    then obtain v where "json_bool (bp_IgnoreMissingPrefs x) j = Some v" using json_indep(2) by blast
    then show ?thesis using fresh
      by (simp add: k find_bid_field bid_field_at set_bool_def bid_of_members_def member_def cong: option.case_cong)
  next
    assume k: "k \<in> {''bid_start_time'', ''bid_end_time'', ''bid_interval''}" and "json_i64_ptr j \<noteq> None"
    then obtain v where "json_i64_ptr j = Some v" by blast
    then show ?thesis using fresh k
      by (elim insertE emptyE) (simp_all add: find_bid_field bid_field_at set_ptr_def bid_of_members_def member_def cong: option.case_cong)
  next
    assume k: "k \<in> {''bid_min_amount'', ''bid_increase'', ''bid_subsidy'', ''bid_value_gwei''}"
      and "json_u64_ptr j \<noteq> None"
    then obtain v where "json_u64_ptr j = Some v" by blast
    then show ?thesis using fresh k
      by (elim insertE emptyE) (simp_all add: find_bid_field bid_field_at set_ptr_def bid_of_members_def member_def cong: option.case_cong)
  qed
qed

lemma decode_bid_members:
  assumes "distinct (map fst ms)" "list_all bid_member_ok ms"
  shows "decode_members strict bid_fields ms x = Some (bid_of_members ms x)"
  using assms
proof (induction ms arbitrary: x)
  case Nil
  then show ?case by (simp add: bid_of_members_def member_def)
next
  case (Cons m ms)
  obtain k j where m: "m = (k, j)" by (cases m)
  have "bid_member_ok (k, j)" "map_of ms k = None"
    using Cons.prems by (auto simp: m map_of_eq_None_iff)
  then obtain y where y:
    "Option.bind (find (\<lambda>f. ToLower (fst f) = ToLower k) bid_fields) (\<lambda>f. snd f j x) = Some y"
    "bid_of_members ms y = bid_of_members (m # ms) x"
    using decode_bid_member [of k j ms x] m by blast
  have "decode_members strict bid_fields (m # ms) x = decode_members strict bid_fields ms y"
    using y(1) by (auto simp: m Option.bind_eq_Some_conv split: option.splits)
  then show ?case using Cons y(2) by simp
qed

text \<open>The members the encoder writes.\<close>

lemma map_of_omit [simp]:
  "map_of (omit_none n e v) k = (if k = n then map_option e v else None)"
  "map_of (omit_false n b) k = (if k = n \<and> b then Some (JBool True) else None)"
  by (auto simp: omit_none_def omit_false_def split: option.splits)

definition present :: "bool \<Rightarrow> string \<Rightarrow> string list" where
  "present c n = (if c then [n] else [])"

lemma present_simps [simp]:
  "distinct (present c n @ ys) \<longleftrightarrow> distinct ys \<and> (c \<longrightarrow> n \<notin> set ys)"
  "distinct (present c n)" "k \<in> set (present c n) \<longleftrightarrow> c \<and> k = n"
  "map fst (omit_none n e v) = present (v \<noteq> None) n" "map fst (omit_false n b) = present b n"
  by (auto simp: present_def omit_none_def omit_false_def split: option.splits)

definition bid_ints_ok :: "BidPlan \<Rightarrow> bool" where
  "bid_ints_ok p \<longleftrightarrow> pred_option is_i64 (bp_BidStartTime p) \<and> pred_option is_i64 (bp_BidEndTime p) \<and>
     pred_option is_i64 (bp_BidInterval p)"

lemma enc_bid_lookup:
  "map_of (enc_bid p) ''mode'' = Some (JStr (bp_Mode p))"
  "map_of (enc_bid p) ''bid_start_time'' = map_option JNum (bp_BidStartTime p)"
  "map_of (enc_bid p) ''bid_end_time'' = map_option JNum (bp_BidEndTime p)"
  "map_of (enc_bid p) ''bid_min_amount'' = map_option enc_u64 (bp_BidMinAmount p)"
  "map_of (enc_bid p) ''bid_increase'' = map_option enc_u64 (bp_BidIncrease p)"
  "map_of (enc_bid p) ''bid_interval'' = map_option JNum (bp_BidInterval p)"
  "map_of (enc_bid p) ''bid_subsidy'' = map_option enc_u64 (bp_BidSubsidy p)"
  "map_of (enc_bid p) ''bid_value_gwei'' = map_option enc_u64 (bp_BidValueGwei p)"
  "map_of (enc_bid p) ''ignore_missing_prefs'' = (if bp_IgnoreMissingPrefs p then Some (JBool True) else None)"
  by (simp_all add: enc_bid_def map_add_def split: option.split)

lemma enc_bid_distinct: "distinct (map fst (enc_bid p))"
  by (simp add: enc_bid_def del: distinct_append)

lemma bid_member_okI:
  "n \<in> {''bid_start_time'', ''bid_end_time'', ''bid_interval''} \<Longrightarrow> json_i64_ptr j \<noteq> None \<Longrightarrow> bid_member_ok (n, j)"
  "n \<in> {''bid_min_amount'', ''bid_increase'', ''bid_subsidy'', ''bid_value_gwei''} \<Longrightarrow>
     json_u64_ptr j \<noteq> None \<Longrightarrow> bid_member_ok (n, j)"
  "bid_member_ok (''mode'', JStr m)" "bid_member_ok (''ignore_missing_prefs'', JBool b)"
  unfolding bid_member_ok_def fst_conv snd_conv by (blast | simp)+

lemma list_all_omit:
  "(\<And>x. v = Some x \<Longrightarrow> P (n, e x)) \<Longrightarrow> list_all P (omit_none n e v)"
  "P (n, JBool True) \<Longrightarrow> list_all P (omit_false n b)"
  by (simp_all add: omit_none_def omit_false_def split: option.splits)

lemma enc_bid_ok:
  assumes "bid_ints_ok p"
  shows "list_all bid_member_ok (enc_bid p)"
proof -
  have i: "list_all bid_member_ok (omit_none n JNum v)"
    if "n \<in> {''bid_start_time'', ''bid_end_time'', ''bid_interval''}" "pred_option is_i64 v" for n v
    by (rule list_all_omit(1), rule bid_member_okI(1) [OF that(1)]) (use that(2) in simp)
  have u: "list_all bid_member_ok (omit_none n enc_u64 v)"
    if "n \<in> {''bid_min_amount'', ''bid_increase'', ''bid_subsidy'', ''bid_value_gwei''}" for n v
    by (rule list_all_omit(1), rule bid_member_okI(2) [OF that]) simp
  have "list_all bid_member_ok (omit_false ''ignore_missing_prefs'' b)" for b
    by (rule list_all_omit(2), rule bid_member_okI(4))
  then show ?thesis
    using assms by (simp add: enc_bid_def bid_ints_ok_def i u bid_member_okI(3))
qed

lemma bid_of_members_cong: "map_of ms = map_of ms' \<Longrightarrow> bid_of_members ms x = bid_of_members ms' x"
  by (simp add: bid_of_members_def member_def)

lemma map_of_sort [simp]:
  assumes "distinct (map fst ms)"
  shows "map_of (sort_key fst ms) = map_of ms"
proof -
  have "distinct (map fst (sort_key fst ms))"
    using assms by (metis distinct_map distinct_sort set_sort)
  then show ?thesis using assms by (simp add: map_of_inject_set)
qed

lemma dec_bid_sorted:
  assumes "distinct (map fst ms)" "list_all bid_member_ok ms"
  shows "dec_bid (JObj (sort_key fst ms)) = Some (bid_of_members ms zero_bid)"
proof -
  have d: "distinct (map fst (sort_key fst ms))"
    using assms(1) by (metis distinct_map distinct_sort set_sort)
  have "list_all bid_member_ok (sort_key fst ms)" using assms(2) by (simp add: list_all_iff)
  from decode_bid_members [OF d this]
  show ?thesis
    using bid_of_members_cong [OF map_of_sort [OF assms(1)]] by (simp add: dec_bid_def)
qed

lemma map_of_filter_neq:
  "map_of (filter (\<lambda>(k, _). k \<noteq> f) ms) k = (if k = f then None else map_of ms k)"
  by (induction ms) auto

lemma member_enc:
  "map_of ms n = map_option JNum x \<Longrightarrow> pred_option is_i64 x \<Longrightarrow> member n json_i64_ptr None ms = x"
  "map_of ms n = map_option enc_u64 y \<Longrightarrow> member n json_u64_ptr None ms = y"
  by (cases x; simp add: member_def) (cases y; simp add: member_def)

lemma enc_bid_member:
  assumes "bid_ints_ok c"
  shows "member ''mode'' (json_string a) b (enc_bid c) = bp_Mode c"
    "member ''bid_start_time'' json_i64_ptr None (enc_bid c) = bp_BidStartTime c"
    "member ''bid_end_time'' json_i64_ptr None (enc_bid c) = bp_BidEndTime c"
    "member ''bid_min_amount'' json_u64_ptr None (enc_bid c) = bp_BidMinAmount c"
    "member ''bid_increase'' json_u64_ptr None (enc_bid c) = bp_BidIncrease c"
    "member ''bid_interval'' json_i64_ptr None (enc_bid c) = bp_BidInterval c"
    "member ''bid_subsidy'' json_u64_ptr None (enc_bid c) = bp_BidSubsidy c"
    "member ''bid_value_gwei'' json_u64_ptr None (enc_bid c) = bp_BidValueGwei c"
    "member ''ignore_missing_prefs'' (json_bool d) False (enc_bid c) = bp_IgnoreMissingPrefs c"
  using assms
  by (simp_all only: bid_ints_ok_def member_enc(1) [OF enc_bid_lookup(2)] member_enc(1) [OF enc_bid_lookup(3)]
      member_enc(2) [OF enc_bid_lookup(4)] member_enc(2) [OF enc_bid_lookup(5)]
      member_enc(1) [OF enc_bid_lookup(6)] member_enc(2) [OF enc_bid_lookup(7)] member_enc(2) [OF enc_bid_lookup(8)])
    (simp_all add: member_def enc_bid_lookup)

text \<open>Replacing one member of the encoding replaces one field.\<close>

lemma bid_of_members_patch:
  assumes "map_of ms = (map_of (enc_bid c))(f \<mapsto> v)" "v \<noteq> JNull" "bid_ints_ok c"
  shows "bid_of_members ms zero_bid = bid_of_members [(f, v)] c"
proof -
  have m: "member n dec old ms = (if n = f then the (dec v) else member n dec old (enc_bid c))"
    for n and dec :: "json \<Rightarrow> 'z option" and old
    by (simp add: member_def assms(1))
  have e: "member n dec x [(f, v)] = (if n = f then the (dec v) else x)"
    for n and dec :: "json \<Rightarrow> 'z option" and x
    by (simp add: member_def)
  have strs: "json_string a v = json_string [] v" "json_bool b v = json_bool False v"
    for a b using assms(2) by (cases v; simp)+
  have z: "bp_Mode zero_bid = []" "bp_BidStartTime zero_bid = None" "bp_BidEndTime zero_bid = None"
    "bp_BidMinAmount zero_bid = None" "bp_BidIncrease zero_bid = None" "bp_BidInterval zero_bid = None"
    "bp_BidSubsidy zero_bid = None" "bp_BidValueGwei zero_bid = None"
    "bp_IgnoreMissingPrefs zero_bid = False"
    by (simp_all add: zero_bid_def)
  show ?thesis
    unfolding bid_of_members_def z m e enc_bid_member [OF assms(3)]
    by (simp only: strs(1) [of "bp_Mode c"] strs(2) [of "bp_IgnoreMissingPrefs c"])
qed

section \<open>Lemmas on updates\<close>

text \<open>The category after a patch: absent keeps it, null clears it, an object replaces it.\<close>

definition patched :: "(json \<Rightarrow> 'a option) \<Rightarrow> json option \<Rightarrow> 'a option \<Rightarrow> 'a option" where
  "patched dec raw cur = (case raw of None \<Rightarrow> cur | Some j \<Rightarrow> if j = JNull then None else dec j)"

definition decodable :: "(json \<Rightarrow> 'a option) \<Rightarrow> json option \<Rightarrow> bool" where
  "decodable dec raw \<longleftrightarrow> (\<forall>j. raw = Some j \<longrightarrow> j = JNull \<or> dec j \<noteq> None)"

lemma patch_step_ok:
  assumes "decodable dec raw" "\<And>v p. upd (get p) p = p"
  shows "patch_step c dec raw get upd (Inr plan) = Inr (upd (patched dec raw (get plan)) plan)"
  using assms
  by (auto simp: patch_step_def applyCategoryPatch_def isJSONNull_def patched_def decodable_def
      split: option.splits)

lemma patch_step_fail:
  assumes "\<not> decodable dec raw"
  shows "patch_step c dec raw get upd (Inr plan) = Inl (DecodeFailed c)"
  using assms
  by (auto simp: patch_step_def applyCategoryPatch_def isJSONNull_def decodable_def split: option.splits)

lemma patch_step_Inl [simp]: "patch_step c dec raw get upd (Inl e) = Inl e"
  by (simp add: patch_step_def)

lemma drop_zero_sel [simp]:
  "sp_Slot (drop_zero p) = sp_Slot p" "sp_Bid (drop_zero p) = sp_Bid p"
  "sp_BuilderAPI (drop_zero p) = sp_BuilderAPI p" "sp_Reveal (drop_zero p) = sp_Reveal p"
  "sp_Build (drop_zero p) = (if build_isZero (sp_Build p) then None else sp_Build p)"
  "sp_Transforms (drop_zero p) = (if transform_isZero (sp_Transforms p) then None else sp_Transforms p)"
  by (simp_all add: drop_zero_def Let_def)

section \<open>Properties\<close>

text \<open>
  A plan passes validation exactly when it is well formed for the slot duration: the modes are
  known, a disabled category has no overrides, bid times lie within one slot of the slot start and
  start before they end, the interval and delay are in range, the reveal may run at most one slot
  past the end, thresholds are percentages, and every jq expression is accepted.\<close>
theorem plan_validation:
  assumes "is_i64 secondsPerSlot"
  shows "plan_Validate jqValid secondsPerSlot p = None \<longleftrightarrow> plan_wf jqValid (dur_ms secondsPerSlot) p"
proof (cases "dur_ms secondsPerSlot \<le> 0")
  case True
  then show ?thesis by (simp add: plan_Validate_def plan_wf_def)
next
  case False
  then have ms: "0 < dur_ms secondsPerSlot" "2 * dur_ms secondsPerSlot \<le> max_i64"
    using dur_ms_bound [OF assms] by auto
  have "transform_validate jqValid t = None \<longleftrightarrow>
      (\<forall>e \<in> {tp_Payload t, tp_Bid t, tp_Envelope t}. e = [] \<or> jqValid e)" for t
    by (simp add: transform_validate_def jq_Validate_def)
  then show ?thesis
    using False ms(1)
    by (simp add: plan_Validate_def plan_wf_def Let_def bid_validate_wf [OF ms] api_validate_wf
        reveal_validate_wf [OF ms])
qed

theorem plan_validation_witness:
  "plan_Validate (\<lambda>_. False) 12000000000
     (empty_plan\<lparr>sp_Bid := Some (zero_bid\<lparr>bp_Mode := ModeCustom, bp_BidStartTime := Some 12001\<rparr>)\<rparr>) \<noteq> None"
proof -
  have r: "is_i64 12000000000" by (simp add: is_i64_def min_i64_def max_i64_def)
  have ms: "dur_ms 12000000000 = 12000" by (simp add: dur_ms_def nanos_per_ms_def sdiv_nonneg)
  show ?thesis
    unfolding plan_validation [OF r] ms by (simp add: plan_wf_def bid_wf_def empty_plan_def zero_bid_def)
qed

text \<open>
  Expanding an update's targets: unless the range is the whole 64-bit range, a successful
  expansion is the listed slots followed by every slot of the inclusive range, is not empty, and
  has at most MaxSlotsPerUpdate entries; a lone bound or an inverted range is an error.\<close>
theorem target_slots_bounded:
  assumes "length (pu_Slots u) < 2 ^ 63"
    and "\<not> (pu_FromSlot u = Some 0 \<and> pu_ToSlot u = Some max_u64)"
  shows "case TargetSlots u of
      Inr ts \<Rightarrow> set ts = set (pu_Slots u) \<union>
          (case (pu_FromSlot u, pu_ToSlot u) of (Some a, Some b) \<Rightarrow> {t. a \<le> t \<and> t \<le> b} | _ \<Rightarrow> {}) \<and>
        0 < length ts \<and> length ts \<le> 6400
    | Inl e \<Rightarrow> e \<noteq> FromToTogether \<longrightarrow> (\<forall>a b. e \<noteq> InvalidRange a b) \<longrightarrow>
        (let n = length (pu_Slots u) +
           (case (pu_FromSlot u, pu_ToSlot u) of (Some a, Some b) \<Rightarrow> Suc (unat (b - a)) | _ \<Rightarrow> 0)
         in n = 0 \<or> 6400 < n)"
proof -
  let ?n = "length (pu_Slots u)"
  have u0: "unat (of_nat ?n :: u64) = ?n" using assms(1) by (simp add: unat_of_nat)
  show ?thesis
  proof (cases "pu_FromSlot u")
    case None
    then show ?thesis
      using u0 by (cases "pu_ToSlot u")
        (auto simp: TargetSlots_def Let_def MaxSlotsPerUpdate_def word_less_nat_alt unat_eq_0 [symmetric])
  next
    case (Some a)
    show ?thesis
    proof (cases "pu_ToSlot u")
      case None
      then show ?thesis using Some by (simp add: TargetSlots_def Let_def)
    next
      case (Some b)
      note ab = \<open>pu_FromSlot u = Some a\<close> Some
      show ?thesis
      proof (cases "b < a")
        case True
        then show ?thesis using ab by (simp add: TargetSlots_def Let_def)
      next
        case False
        then have le: "a \<le> b" by simp
        have "b - a \<noteq> max_u64"
        proof
          assume m: "b - a = max_u64"
          then have "unat b - unat a = unat max_u64" using le by (metis unat_sub)
          then have "unat b = unat max_u64" "unat a = 0"
            using unat_le_max_u64 [of b] by auto
          then have "b = max_u64" "a = 0" by (simp_all add: word_unat_eq_iff [of b] unat_eq_0)
          then show False using assms(2) ab by simp
        qed
        then have w: "b - a + 1 \<noteq> 0" by (auto simp: max_u64_def add_eq_0_iff2)
        then have rc: "unat (b - a + 1) = Suc (unat (b - a))" 
          using unat_minus_one [OF w] unat_gt_0 [of "b - a + 1"] by simp
        show ?thesis
        proof (cases "b - a + 1 > MaxSlotsPerUpdate")
          case True
          then show ?thesis
            using ab le rc by (simp add: TargetSlots_def Let_def MaxSlotsPerUpdate_def word_less_nat_alt)
        next
          case small: False
          then have "Suc (unat (b - a)) \<le> 6400"
            using rc by (simp add: MaxSlotsPerUpdate_def word_less_nat_alt)
          then have cnt: "unat (of_nat ?n + (b - a + 1)) = ?n + Suc (unat (b - a))"
            using assms(1) rc u0 by (simp add: unat_word_ariths)
          then have "of_nat ?n + (b - a + 1) \<noteq> 0" by (metis Zero_not_Suc add_Suc_right unat_0)
          then have eq: "TargetSlots u =
              (if of_nat ?n + (b - a + 1) > MaxSlotsPerUpdate then Inl (TooManySlots (of_nat ?n + (b - a + 1)))
               else Inr (pu_Slots u @ slot_loop a b))"
            using ab le small by (simp add: TargetSlots_def Let_def)
          have big: "of_nat ?n + (b - a + 1) > MaxSlotsPerUpdate \<longleftrightarrow> 6400 < ?n + Suc (unat (b - a))"
            unfolding word_less_nat_alt cnt by (simp add: MaxSlotsPerUpdate_def)
          show ?thesis
          proof (cases "6400 < ?n + Suc (unat (b - a))")
            case True
            then show ?thesis unfolding eq big ab by (simp del: add_Suc_right)
          next
            case False
            then show ?thesis
              unfolding eq big ab by (simp add: set_slot_loop [OF le] length_slot_loop)
          qed
        qed
      qed
    qed
  qed
qed


definition no_update :: PlanUpdate where
  "no_update = \<lparr>pu_Slots = [], pu_FromSlot = None, pu_ToSlot = None, pu_Delete = False, pu_Bid = None,
     pu_BuilderAPI = None, pu_Reveal = None, pu_Build = None, pu_Transforms = None, pu_Set = []\<rparr>"

theorem target_slots_bounded_witness:
  "\<exists>ts. TargetSlots (no_update\<lparr>pu_Slots := [5], pu_FromSlot := Some 10, pu_ToSlot := Some 12\<rparr>) = Inr ts \<and>
     set ts = {5} \<union> {t. 10 \<le> t \<and> t \<le> 12} \<and> length ts \<le> 6400"
proof -
  let ?u = "no_update\<lparr>pu_Slots := [5], pu_FromSlot := Some 10, pu_ToSlot := Some 12\<rparr>"
  have "length (pu_Slots ?u) < 2 ^ 63" "\<not> (pu_FromSlot ?u = Some 0 \<and> pu_ToSlot ?u = Some max_u64)"
    by simp_all
  note p = target_slots_bounded [OF this]
  have "TargetSlots ?u = Inr ([5] @ slot_loop 10 12)"
    by (simp add: TargetSlots_def no_update_def MaxSlotsPerUpdate_def)
  then show ?thesis using p by simp
qed

text \<open>
  The bound does not hold for the whole range: the count of the range wraps to zero, and with one
  listed slot the expansion has 2^64 + 1 entries.\<close>

lemma target_slots_unbounded:
  "\<exists>ts. TargetSlots (no_update\<lparr>pu_Slots := [5], pu_FromSlot := Some 0, pu_ToSlot := Some max_u64\<rparr>) = Inr ts \<and>
     length ts = 2 ^ 64 + 1"
proof -
  have "max_u64 + 1 = 0" by (simp add: max_u64_def)
  then have "TargetSlots (no_update\<lparr>pu_Slots := [5], pu_FromSlot := Some 0, pu_ToSlot := Some max_u64\<rparr>)
      = Inr ([5] @ slot_loop 0 max_u64)"
    by (simp add: TargetSlots_def MaxSlotsPerUpdate_def Let_def)
  moreover have "length ([5] @ slot_loop 0 max_u64) = 2 ^ 64 + 1" by (simp add: length_slot_loop)
  ultimately show ?thesis by blast
qed

text \<open>
  Patching one field of a bid category is the update of that one field: although the code goes
  through a JSON object, merges, sorts and strictly decodes it again, every other field keeps its
  value; on an absent category the field is set on a fresh category in custom mode.  A null value
  for the mode is an error, and so is an empty field name.\<close>
theorem bid_field_patch:
  assumes "pred_option bid_ints_ok current" "bid_member_ok (field, v)" "v \<noteq> JNull"
    and "current = None \<longrightarrow> field \<noteq> ''mode''"
  shows "applyFieldPatch ''bid'' dec_bid enc_bid field True v current =
      Inr (Some (bid_of_members [(field, v)]
        (case current of Some c \<Rightarrow> c | None \<Rightarrow> zero_bid\<lparr>bp_Mode := ModeCustom\<rparr>))) \<and>
    applyFieldPatch ''bid'' dec_bid enc_bid ''mode'' True JNull current = Inl (ModeNotNullable ''bid'') \<and>
    applyFieldPatch ''bid'' dec_bid enc_bid [] True v current = Inl (EmptyField ''bid'')"
proof -
  define base where "base = (case current of Some c \<Rightarrow> c | None \<Rightarrow> zero_bid\<lparr>bp_Mode := ModeCustom\<rparr>)"
  define fs where "fs = (case current of Some c \<Rightarrow> enc_bid c
    | None \<Rightarrow> if field \<noteq> ''mode'' \<and> categoryHasMode ''bid'' then [(''mode'', JStr ModeCustom)] else [])"
  let ?fs = "(field, v) # filter (\<lambda>(k, _). k \<noteq> field) fs"
  have ne: "field \<noteq> []" using assms(2) by (auto simp: bid_member_ok_def)
  have ints: "bid_ints_ok base"
    using assms(1) by (auto simp: base_def bid_ints_ok_def zero_bid_def split: option.splits)
  have fs_enc: "map_of fs = map_of (enc_bid base) \<and> distinct (map fst fs) \<and> list_all bid_member_ok fs"
  proof (cases current)
    case None
    then have "fs = enc_bid base" using assms(4)
      by (simp add: fs_def base_def categoryHasMode_def enc_bid_def zero_bid_def omit_none_def omit_false_def)
    then show ?thesis using enc_bid_distinct enc_bid_ok [OF ints] by simp
  next
    case (Some c)
    then show ?thesis using enc_bid_distinct enc_bid_ok [OF ints] by (simp add: fs_def base_def)
  qed
  have d: "distinct (map fst ?fs)"
    using fs_enc by (force simp: distinct_map inj_on_def)
  have ok: "list_all bid_member_ok ?fs" using fs_enc assms(2) by (auto simp: list_all_iff)
  have mo: "map_of ?fs = (map_of (enc_bid base))(field \<mapsto> v)"
    using fs_enc by (auto simp: map_of_filter_neq fun_eq_iff)
  have "bid_of_members ?fs zero_bid = bid_of_members [(field, v)] base"
    by (rule bid_of_members_patch [OF mo assms(3) ints])
  then have "dec_bid (JObj (sort_key fst ?fs)) = Some (bid_of_members [(field, v)] base)"
    using dec_bid_sorted [OF d ok] by simp
  then show ?thesis
    using ne assms(3) unfolding applyFieldPatch_def fs_def [symmetric] base_def [symmetric]
    by (simp add: Let_def applyCategoryPatch_def isJSONNull_def)
qed


theorem bid_field_patch_witness:
  "applyFieldPatch ''bid'' dec_bid enc_bid ''bid_min_amount'' True (JNum 7)
     (Some (zero_bid\<lparr>bp_Mode := ModeCustom, bp_BidStartTime := Some (- 400)\<rparr>)) =
   Inr (Some (zero_bid\<lparr>bp_Mode := ModeCustom, bp_BidStartTime := Some (- 400), bp_BidMinAmount := Some 7\<rparr>))"
proof -
  let ?c = "zero_bid\<lparr>bp_Mode := ModeCustom, bp_BidStartTime := Some (- 400)\<rparr>"
  have "pred_option bid_ints_ok (Some ?c)" "JNum 7 \<noteq> JNull"
    "Some ?c = None \<longrightarrow> ''bid_min_amount'' \<noteq> ''mode''"
    by (simp_all add: bid_ints_ok_def zero_bid_def is_i64_def min_i64_def max_i64_def)
  moreover have "bid_member_ok (''bid_min_amount'', JNum 7)" by (rule bid_member_okI(2)) simp_all
  ultimately have "applyFieldPatch ''bid'' dec_bid enc_bid ''bid_min_amount'' True (JNum 7) (Some ?c) =
      Inr (Some (bid_of_members [(''bid_min_amount'', JNum 7)] ?c))"
    using bid_field_patch [of "Some ?c" "''bid_min_amount''" "JNum 7"] by simp
  then show ?thesis by (simp add: bid_of_members_def member_def zero_bid_def)
qed

text \<open>
  Clearing a field of an absent category does not leave it absent: the category is created in
  custom mode, which activates bidding for the slot.\<close>

lemma null_field_activates:
  "applyFieldPatch ''bid'' dec_bid enc_bid ''bid_min_amount'' True JNull None =
     Inr (Some (zero_bid\<lparr>bp_Mode := ModeCustom\<rparr>))"
proof -
  have "dec_bid (JObj (sort_key fst [(''mode'', JStr ModeCustom)])) =
      Some (bid_of_members [(''mode'', JStr ModeCustom)] zero_bid)"
    by (rule dec_bid_sorted) (simp_all add: bid_member_okI(3))
  then show ?thesis
    by (simp add: applyFieldPatch_def categoryHasMode_def isJSONNull_def applyCategoryPatch_def
        bid_of_members_def member_def zero_bid_def)
qed

text \<open>
  Category members have three states.  For an update without field paths: if every member that
  is present decodes, each category is kept when its member is absent, cleared when it is null and
  replaced otherwise, build and transform categories without content are dropped, and a plan with
  nothing left disappears; if one does not decode, the update fails.  A delete always clears.\<close>
theorem update_three_state:
  assumes "pu_Set u = []"
  shows "ApplyUpdateToPlan existing u =
    (if pu_Delete u then Inr None
     else if \<not> decodable dec_bid (pu_Bid u) then Inl (DecodeFailed ''bid'')
     else if \<not> decodable dec_api (pu_BuilderAPI u) then Inl (DecodeFailed ''builder_api'')
     else if \<not> decodable dec_reveal (pu_Reveal u) then Inl (DecodeFailed ''reveal'')
     else if \<not> decodable dec_build (pu_Build u) then Inl (DecodeFailed ''build'')
     else if \<not> decodable dec_transforms (pu_Transforms u) then Inl (DecodeFailed ''transforms'')
     else
       (let old = (case existing of Some p \<Rightarrow> p | None \<Rightarrow> empty_plan);
            new = drop_zero (old\<lparr>
              sp_Bid := patched dec_bid (pu_Bid u) (sp_Bid old),
              sp_BuilderAPI := patched dec_api (pu_BuilderAPI u) (sp_BuilderAPI old),
              sp_Reveal := patched dec_reveal (pu_Reveal u) (sp_Reveal old),
              sp_Build := patched dec_build (pu_Build u) (sp_Build old),
              sp_Transforms := patched dec_transforms (pu_Transforms u) (sp_Transforms old)\<rparr>)
        in if IsEmpty new then Inr None else Inr (Some new)))"
  using assms
  by (simp add: ApplyUpdateToPlan_def Let_def patch_step_ok patch_step_fail applySetPaths_def)

theorem update_three_state_witness:
  "ApplyUpdateToPlan (Some (empty_plan\<lparr>sp_Bid := Some zero_bid\<rparr>)) (no_update\<lparr>pu_Bid := Some JNull\<rparr>) = Inr None"
  by (subst update_three_state)
    (simp_all add: no_update_def decodable_def patched_def empty_plan_def drop_zero_def IsEmpty_def
      build_isZero_def transform_isZero_def)

end
