(* ===== verification/Plan_Frozen.thy ===== *)
theory Plan_Frozen
  imports Plan_Types Chain_Spec
begin

text \<open>
  \<open>pkg/action_plan/frozen.go\<close>: resolving the live configuration and a slot's plan into the frozen
  snapshot the consumers act on.  The fork is kept as the enumeration value (the code stores its
  name).
\<close>

datatype build_skip = BuildSkipReasonSchedule | BuildSkipReasonPlanDisabled | BuildSkipReasonNoConsumer

record ResolvedTransforms =
  rt_Payload :: string
  rt_Bid :: string
  rt_Envelope :: string

record ResolvedBuildSettings =
  rb_Build :: bool
  rb_Forced :: bool
  rb_SkipReason :: "build_skip option"
  rb_PlanInvolved :: bool
  rb_BuildStartTimeMs :: i64
  rb_ReorgParentPayload :: bool

record ResolvedBidSettings =
  rs_StartMs :: i64
  rs_EndMs :: i64
  rs_IntervalMs :: i64
  rs_MinGwei :: u64
  rs_IncreaseGwei :: u64
  rs_SubsidyGwei :: u64
  rs_ValueGwei :: "u64 option"
  rs_IgnoreMissingPrefs :: bool
  rs_Forced :: bool

record ResolvedBuilderAPISettings =
  ra_SubsidyGwei :: u64
  ra_TotalValueGwei :: "u64 option"
  ra_DelayMs :: i64
  ra_Forced :: bool

record ResolvedRevealSettings =
  rv_Suppressed :: bool
  rv_RevealTimeMs :: i64
  rv_GateMode :: string
  rv_VoteThresholdPct :: u64
  rv_BroadcastValidation :: string
  rv_MaxAttempts :: u64
  rv_RetryIntervalMs :: i64
  rv_BypassDeadline :: bool

record FrozenPlan =
  fp_Slot :: slot
  fp_Plan :: "SlotPlan option"
  fp_Fork :: DataVersion
  fp_FrozenAt :: gotime
  fp_Build :: ResolvedBuildSettings
  fp_Bid :: "ResolvedBidSettings option"
  fp_BuilderAPI :: "ResolvedBuilderAPISettings option"
  fp_Reveal :: ResolvedRevealSettings
  fp_Transforms :: "ResolvedTransforms option"

definition applyOverride :: "'a \<Rightarrow> 'a option \<Rightarrow> 'a" where
  "applyOverride target override = (case override of None \<Rightarrow> target | Some v \<Rightarrow> v)"

definition resolveBid :: "SlotPlan option \<Rightarrow> Config \<Rightarrow> DataVersion \<Rightarrow> ResolvedBidSettings option" where
  "resolveBid plan cfg fork =
     (if fork < DataVersionGloas then None
      else
        (let active = (case BidOverride plan of None \<Rightarrow> cfg_EPBSEnabled cfg | Some o' \<Rightarrow> o');
             forced = (case BidOverride plan of None \<Rightarrow> False | Some o' \<Rightarrow> o' \<and> \<not> cfg_EPBSEnabled cfg);
             e = cfg_EPBS cfg;
             base = \<lparr>rs_StartMs = ec_BidStartTime e, rs_EndMs = ec_BidEndTime e,
               rs_IntervalMs = ec_BidInterval e, rs_MinGwei = ec_BidMinAmount e,
               rs_IncreaseGwei = ec_BidIncrease e, rs_SubsidyGwei = ec_BidSubsidy e,
               rs_ValueGwei = (if ec_BidValueOverride e > 0 then Some (ec_BidValueOverride e) else None),
               rs_IgnoreMissingPrefs = False, rs_Forced = forced\<rparr>
         in
         if \<not> active then None
         else
           (case Option.bind plan sp_Bid of
              None \<Rightarrow> Some base
            | Some bid \<Rightarrow>
                if bp_Mode bid \<noteq> ModeCustom then Some base
                else Some (base\<lparr>
                  rs_StartMs := applyOverride (rs_StartMs base) (bp_BidStartTime bid),
                  rs_EndMs := applyOverride (rs_EndMs base) (bp_BidEndTime bid),
                  rs_IntervalMs := applyOverride (rs_IntervalMs base) (bp_BidInterval bid),
                  rs_MinGwei := applyOverride (rs_MinGwei base) (bp_BidMinAmount bid),
                  rs_IncreaseGwei := applyOverride (rs_IncreaseGwei base) (bp_BidIncrease bid),
                  rs_SubsidyGwei := applyOverride (rs_SubsidyGwei base) (bp_BidSubsidy bid),
                  rs_ValueGwei := (if bp_BidValueGwei bid \<noteq> None then bp_BidValueGwei bid
                                   else rs_ValueGwei base),
                  rs_IgnoreMissingPrefs := bp_IgnoreMissingPrefs bid\<rparr>))))"

definition resolveBuilderAPI :: "SlotPlan option \<Rightarrow> Config \<Rightarrow> ResolvedBuilderAPISettings option" where
  "resolveBuilderAPI plan cfg =
     (if cfg_APIPort cfg \<le> 0 then None
      else
        (let active = (case BuilderAPIOverride plan of None \<Rightarrow> cfg_BuilderAPIEnabled cfg | Some o' \<Rightarrow> o');
             forced = (case BuilderAPIOverride plan of None \<Rightarrow> False
                       | Some o' \<Rightarrow> o' \<and> \<not> cfg_BuilderAPIEnabled cfg);
             b = cfg_BuilderAPI cfg;
             base = \<lparr>ra_SubsidyGwei = bc_BlockValueSubsidyGwei b,
               ra_TotalValueGwei = (if bc_ValueOverrideGwei b > 0 then Some (bc_ValueOverrideGwei b) else None),
               ra_DelayMs = 0, ra_Forced = forced\<rparr>
         in
         if \<not> active then None
         else
           (case Option.bind plan sp_BuilderAPI of
              None \<Rightarrow> Some base
            | Some api \<Rightarrow>
                if ap_Mode api \<noteq> ModeCustom then Some base
                else Some (base\<lparr>
                  ra_SubsidyGwei := applyOverride (ra_SubsidyGwei base) (ap_ValueSubsidyGwei api),
                  ra_DelayMs := applyOverride (ra_DelayMs base) (ap_ResponseDelayMs api),
                  ra_TotalValueGwei := (if ap_TotalValueOverrideGwei api \<noteq> None
                                        then ap_TotalValueOverrideGwei api
                                        else ra_TotalValueGwei base)\<rparr>))))"

definition resolveReveal :: "SlotPlan option \<Rightarrow> Config \<Rightarrow> ResolvedRevealSettings" where
  "resolveReveal plan cfg =
     (let r = cfg_Reveal cfg;
          base = \<lparr>rv_Suppressed = \<not> rc_Enabled r, rv_RevealTimeMs = rc_TimeMs r,
            rv_GateMode = NormalizedGateMode (rc_GateMode r),
            rv_VoteThresholdPct = rc_VoteThresholdPct r,
            rv_BroadcastValidation = NormalizedBroadcastValidation (rc_BroadcastValidation r),
            rv_MaxAttempts = max (rc_MaxAttempts r) 1, rv_RetryIntervalMs = rc_RetryIntervalMs r,
            rv_BypassDeadline = False\<rparr>
      in case Option.bind plan sp_Reveal of
           None \<Rightarrow> base
         | Some p \<Rightarrow>
             if rp_Mode p = ModeDisabled then base\<lparr>rv_Suppressed := True\<rparr>
             else base\<lparr>
               rv_Suppressed := False,
               rv_BypassDeadline := True,
               rv_RevealTimeMs := applyOverride (rv_RevealTimeMs base) (rp_RevealTimeMs p),
               rv_GateMode := applyOverride (rv_GateMode base) (rp_GateMode p),
               rv_VoteThresholdPct := applyOverride (rv_VoteThresholdPct base) (rp_VoteThresholdPct p),
               rv_BroadcastValidation :=
                 applyOverride (rv_BroadcastValidation base) (rp_BroadcastValidation p)\<rparr>)"

definition resolveTransforms :: "SlotPlan option \<Rightarrow> ResolvedTransforms option" where
  "resolveTransforms plan = map_option (\<lambda>t. \<lparr>rt_Payload = tp_Payload t, rt_Bid = tp_Bid t,
     rt_Envelope = tp_Envelope t\<rparr>) (Option.bind plan sp_Transforms)"

text \<open>The decisions below look at the partly resolved snapshot: plan, bid and API settings.\<close>

definition planForcesConsumer ::
  "SlotPlan option \<Rightarrow> ResolvedBidSettings option \<Rightarrow> ResolvedBuilderAPISettings option \<Rightarrow> bool" where
  "planForcesConsumer plan bid api \<longleftrightarrow>
     BidOverride plan = Some True \<and> bid \<noteq> None \<or> BuilderAPIOverride plan = Some True \<and> api \<noteq> None"

definition planSuppressesActiveConsumer :: "SlotPlan option \<Rightarrow> Config \<Rightarrow> bool" where
  "planSuppressesActiveConsumer plan cfg \<longleftrightarrow>
     BidOverride plan = Some False \<and> cfg_EPBSEnabled cfg \<or>
     BuilderAPIOverride plan = Some False \<and> cfg_BuilderAPIEnabled cfg \<and> cfg_APIPort cfg > 0"

definition resolveBuild ::
  "slot \<Rightarrow> SlotPlan option \<Rightarrow> ResolvedBidSettings option \<Rightarrow> ResolvedBuilderAPISettings option
     \<Rightarrow> Config \<Rightarrow> u64 \<Rightarrow> ResolvedBuildSettings" where
  "resolveBuild s plan bid api cfg slotsBuilt =
     (let build = \<lparr>rb_Build = False, rb_Forced = False, rb_SkipReason = None,
            rb_PlanInvolved = (plan \<noteq> None \<or> bid \<noteq> None \<or> api \<noteq> None),
            rb_BuildStartTimeMs = ec_BuildStartTime (cfg_EPBS cfg),
            rb_ReorgParentPayload = (case Option.bind plan sp_Build of
               None \<Rightarrow> False | Some b \<Rightarrow> bd_ReorgParentPayload b)\<rparr>;
          yes = build\<lparr>rb_Build := True\<rparr>;
          skip = build\<lparr>rb_SkipReason := Some BuildSkipReasonSchedule\<rparr>;
          sched = cfg_Schedule cfg;
          startSlot = sc_StartSlot sched
      in
      if planForcesConsumer plan bid api then build\<lparr>rb_Build := True, rb_Forced := True\<rparr>
      else if bid = None \<and> api = None then
        build\<lparr>rb_SkipReason := Some (if planSuppressesActiveConsumer plan cfg
                                    then BuildSkipReasonPlanDisabled else BuildSkipReasonNoConsumer)\<rparr>
      else if startSlot > 0 \<and> s < startSlot then skip
      else if sc_Mode sched = ScheduleModeEveryN then
        (if sc_EveryNth sched = 0 then yes
         else
           (let slotsSinceStart = (if startSlot > 0 then s - startSlot else s)
            in if slotsSinceStart mod sc_EveryNth sched = 0 then yes else skip))
      else if sc_Mode sched = ScheduleModeNextN then
        (if sc_NextN sched > 0 \<and> slotsBuilt < sc_NextN sched then yes else skip)
      else yes)"

definition resolveFrozenPlan ::
  "slot \<Rightarrow> SlotPlan option \<Rightarrow> Config \<Rightarrow> DataVersion \<Rightarrow> gotime \<Rightarrow> u64 \<Rightarrow> FrozenPlan" where
  "resolveFrozenPlan s plan cfg fork frozenAt slotsBuilt =
     (let bid = resolveBid plan cfg fork; api = resolveBuilderAPI plan cfg in
      \<lparr>fp_Slot = s, fp_Plan = plan, fp_Fork = fork, fp_FrozenAt = frozenAt,
       fp_Build = resolveBuild s plan bid api cfg slotsBuilt,
       fp_Bid = bid, fp_BuilderAPI = api, fp_Reveal = resolveReveal plan cfg,
       fp_Transforms = resolveTransforms plan\<rparr>)"

section \<open>Lemmas\<close>

lemma Modes_differ [simp]: "ModeDisabled \<noteq> ModeCustom" "ModeCustom \<noteq> ModeDisabled"
  by (simp_all add: ModeDisabled_def ModeCustom_def)

lemma ScheduleModes_differ [simp]:
  "ScheduleModeAll \<noteq> ScheduleModeEveryN" "ScheduleModeAll \<noteq> ScheduleModeNextN"
  "ScheduleModeEveryN \<noteq> ScheduleModeNextN" "ScheduleModeNextN \<noteq> ScheduleModeEveryN"
  by (simp_all add: ScheduleModeAll_def ScheduleModeEveryN_def ScheduleModeNextN_def)

text \<open>When the global schedule takes a slot.\<close>

definition schedule_takes :: "ScheduleConfig \<Rightarrow> slot \<Rightarrow> u64 \<Rightarrow> bool" where
  "schedule_takes sc s slotsBuilt \<longleftrightarrow>
     sc_StartSlot sc \<le> s \<and>
     (sc_Mode sc = ScheduleModeEveryN \<longrightarrow>
        (unat s - unat (sc_StartSlot sc)) mod unat (sc_EveryNth sc) = 0 \<or> sc_EveryNth sc = 0) \<and>
     (sc_Mode sc = ScheduleModeNextN \<longrightarrow> slotsBuilt < sc_NextN sc)"

text \<open>When a consumer is active for a slot: the plan decides, else the global switch.\<close>

definition bid_active :: "SlotPlan option \<Rightarrow> Config \<Rightarrow> DataVersion \<Rightarrow> bool" where
  "bid_active plan cfg fork \<longleftrightarrow> DataVersionGloas \<le> fork \<and>
     (case BidOverride plan of None \<Rightarrow> cfg_EPBSEnabled cfg | Some b \<Rightarrow> b)"

definition api_active :: "SlotPlan option \<Rightarrow> Config \<Rightarrow> bool" where
  "api_active plan cfg \<longleftrightarrow> 0 < cfg_APIPort cfg \<and>
     (case BuilderAPIOverride plan of None \<Rightarrow> cfg_BuilderAPIEnabled cfg | Some b \<Rightarrow> b)"

lemma resolveBid_active: "resolveBid plan cfg fork \<noteq> None \<longleftrightarrow> bid_active plan cfg fork"
  by (auto simp: resolveBid_def bid_active_def Let_def split: option.splits if_splits)

lemma resolveAPI_active: "resolveBuilderAPI plan cfg \<noteq> None \<longleftrightarrow> api_active plan cfg"
  by (auto simp: resolveBuilderAPI_def api_active_def Let_def split: option.splits if_splits)

lemma resolveBuild_Forced:
  "rb_Forced (resolveBuild s plan bid api cfg n) \<longleftrightarrow> planForcesConsumer plan bid api"
  by (simp add: resolveBuild_def Let_def)

lemma every_nth_conv:
  assumes "st \<le> s" "(n :: u64) \<noteq> 0"
  shows "(if 0 < st then s - st else s) mod n = 0 \<longleftrightarrow> (unat s - unat st) mod unat n = 0"
proof -
  have "(if 0 < st then s - st else s) = s - st" by (auto simp: word_gt_0)
  moreover have "unat ((s - st) mod n) = (unat s - unat st) mod unat n"
    using assms(1) by (simp add: unat_mod unat_sub)
  moreover have "(s - st) mod n = 0 \<longleftrightarrow> unat ((s - st) mod n) = 0" by (simp only: unat_eq_zero)
  ultimately show ?thesis by simp
qed

lemma resolveBuild_Build:
  "rb_Build (resolveBuild s plan bid api cfg n) \<longleftrightarrow>
     planForcesConsumer plan bid api \<or> (bid \<noteq> None \<or> api \<noteq> None) \<and> schedule_takes (cfg_Schedule cfg) s n"
proof -
  let ?sc = "cfg_Schedule cfg"
  have start: "(sc_StartSlot ?sc > 0 \<and> s < sc_StartSlot ?sc) \<longleftrightarrow> \<not> sc_StartSlot ?sc \<le> s"
    by (auto simp: not_le intro: le_less_trans [of 0])
  have nextn: "(sc_NextN ?sc > 0 \<and> n < sc_NextN ?sc) \<longleftrightarrow> n < sc_NextN ?sc"
    by (auto intro: le_less_trans [of 0])
  show ?thesis
    by (auto simp: resolveBuild_def Let_def start nextn schedule_takes_def every_nth_conv)
qed

lemma resolveBuild_skip:
  "rb_SkipReason (resolveBuild s plan bid api cfg n) = None \<longleftrightarrow> rb_Build (resolveBuild s plan bid api cfg n)"
  by (simp add: resolveBuild_def Let_def)

section \<open>Properties\<close>

text \<open>
  C3: The build decision.  A slot is built exactly when the plan forces it (a category in custom
  mode whose consumer is available) or some consumer is active and the schedule takes the slot
  (start slot, every n-th slot counted from the start, or an unused next-n budget); forcing is
  reported, a skip always carries its reason, and the reason blames the plan only when no consumer
  is active and the plan disabled one that is globally enabled.\<close>
theorem build_decision:
  "let f = resolveFrozenPlan s plan cfg fork t n; b = fp_Build f;
       forces = (bid_active plan cfg fork \<and> BidOverride plan = Some True \<or>
                 api_active plan cfg \<and> BuilderAPIOverride plan = Some True);
       consumer = (bid_active plan cfg fork \<or> api_active plan cfg)
   in (rb_Build b \<longleftrightarrow> forces \<or> consumer \<and> schedule_takes (cfg_Schedule cfg) s n) \<and>
      (rb_Forced b \<longleftrightarrow> forces) \<and>
      (rb_SkipReason b = None \<longleftrightarrow> rb_Build b) \<and>
      (rb_SkipReason b = Some BuildSkipReasonSchedule \<longleftrightarrow>
         consumer \<and> \<not> forces \<and> \<not> schedule_takes (cfg_Schedule cfg) s n) \<and>
      (rb_SkipReason b = Some BuildSkipReasonPlanDisabled \<longleftrightarrow>
         \<not> consumer \<and> planSuppressesActiveConsumer plan cfg)"
proof -
  let ?bid = "resolveBid plan cfg fork" and ?api = "resolveBuilderAPI plan cfg"
  let ?b = "resolveBuild s plan ?bid ?api cfg n"
  have act: "?bid \<noteq> None \<longleftrightarrow> bid_active plan cfg fork" "?api \<noteq> None \<longleftrightarrow> api_active plan cfg"
    by (rule resolveBid_active, rule resolveAPI_active)
  have forces: "planForcesConsumer plan ?bid ?api \<longleftrightarrow>
      bid_active plan cfg fork \<and> BidOverride plan = Some True \<or>
      api_active plan cfg \<and> BuilderAPIOverride plan = Some True"
    unfolding planForcesConsumer_def act by blast
  have none: "rb_SkipReason ?b = Some BuildSkipReasonPlanDisabled \<longleftrightarrow>
      \<not> planForcesConsumer plan ?bid ?api \<and> ?bid = None \<and> ?api = None \<and> planSuppressesActiveConsumer plan cfg"
    by (simp add: resolveBuild_def Let_def)
  have sched: "rb_SkipReason ?b = Some BuildSkipReasonSchedule \<longleftrightarrow>
      \<not> rb_Build ?b \<and> (?bid \<noteq> None \<or> ?api \<noteq> None)"
    by (simp add: resolveBuild_def Let_def)
  show ?thesis
    unfolding Let_def resolveFrozenPlan_def
    using none sched resolveBuild_skip [of s plan ?bid ?api cfg n]
    unfolding resolveBuild_Build resolveBuild_Forced forces
    using act by (auto simp: resolveBuild_Build resolveBuild_Forced forces)
qed

text \<open>The value of a setting: the plan's override in custom mode, else the global one.\<close>

definition bid_setting :: "SlotPlan option \<Rightarrow> (BidPlan \<Rightarrow> 'v option) \<Rightarrow> 'v \<Rightarrow> 'v" where
  "bid_setting plan get dflt =
     (case Option.bind plan sp_Bid of
        Some b \<Rightarrow> if bp_Mode b = ModeCustom \<and> get b \<noteq> None then the (get b) else dflt
      | None \<Rightarrow> dflt)"

text \<open>
  Precedence of settings in the frozen snapshot.  Bidding never activates before Gloas nor
  against a disabling plan; when it is active every parameter is the plan's override if there is
  one and the global value otherwise, and bidding counts as forced exactly when the global switch
  is off.  The reveal is suppressed by a disabling plan, activated by a custom one, and otherwise
  follows the global switch; only a custom plan bypasses the deadline, and there is always at
  least one publish attempt.\<close>
theorem frozen_settings:
  "(case resolveBid plan cfg fork of
      None \<Rightarrow> \<not> bid_active plan cfg fork
    | Some r \<Rightarrow> bid_active plan cfg fork \<and> DataVersionGloas \<le> fork \<and> BidOverride plan \<noteq> Some False \<and>
        rs_StartMs r = bid_setting plan bp_BidStartTime (ec_BidStartTime (cfg_EPBS cfg)) \<and>
        rs_EndMs r = bid_setting plan bp_BidEndTime (ec_BidEndTime (cfg_EPBS cfg)) \<and>
        rs_IntervalMs r = bid_setting plan bp_BidInterval (ec_BidInterval (cfg_EPBS cfg)) \<and>
        rs_MinGwei r = bid_setting plan bp_BidMinAmount (ec_BidMinAmount (cfg_EPBS cfg)) \<and>
        rs_IncreaseGwei r = bid_setting plan bp_BidIncrease (ec_BidIncrease (cfg_EPBS cfg)) \<and>
        rs_SubsidyGwei r = bid_setting plan bp_BidSubsidy (ec_BidSubsidy (cfg_EPBS cfg)) \<and>
        (rs_Forced r \<longleftrightarrow> \<not> cfg_EPBSEnabled cfg)) \<and>
   (let r = resolveReveal plan cfg in
      (rv_Suppressed r \<longleftrightarrow> (case Option.bind plan sp_Reveal of
          None \<Rightarrow> \<not> rc_Enabled (cfg_Reveal cfg) | Some p \<Rightarrow> rp_Mode p = ModeDisabled)) \<and>
      (rv_BypassDeadline r \<longleftrightarrow> (\<exists>p. Option.bind plan sp_Reveal = Some p \<and> rp_Mode p \<noteq> ModeDisabled)) \<and>
      1 \<le> rv_MaxAttempts r)"
proof (intro conjI)
  show "case resolveBid plan cfg fork of
      None \<Rightarrow> \<not> bid_active plan cfg fork
    | Some r \<Rightarrow> bid_active plan cfg fork \<and> DataVersionGloas \<le> fork \<and> BidOverride plan \<noteq> Some False \<and>
        rs_StartMs r = bid_setting plan bp_BidStartTime (ec_BidStartTime (cfg_EPBS cfg)) \<and>
        rs_EndMs r = bid_setting plan bp_BidEndTime (ec_BidEndTime (cfg_EPBS cfg)) \<and>
        rs_IntervalMs r = bid_setting plan bp_BidInterval (ec_BidInterval (cfg_EPBS cfg)) \<and>
        rs_MinGwei r = bid_setting plan bp_BidMinAmount (ec_BidMinAmount (cfg_EPBS cfg)) \<and>
        rs_IncreaseGwei r = bid_setting plan bp_BidIncrease (ec_BidIncrease (cfg_EPBS cfg)) \<and>
        rs_SubsidyGwei r = bid_setting plan bp_BidSubsidy (ec_BidSubsidy (cfg_EPBS cfg)) \<and>
        (rs_Forced r \<longleftrightarrow> \<not> cfg_EPBSEnabled cfg)"
    by (auto simp: resolveBid_def bid_active_def bid_setting_def BidOverride_def Let_def applyOverride_def
        split: option.splits if_splits)
  have "1 \<le> max a (1 :: u64)" for a by simp
  then show "let r = resolveReveal plan cfg in
      (rv_Suppressed r \<longleftrightarrow> (case Option.bind plan sp_Reveal of
          None \<Rightarrow> \<not> rc_Enabled (cfg_Reveal cfg) | Some p \<Rightarrow> rp_Mode p = ModeDisabled)) \<and>
      (rv_BypassDeadline r \<longleftrightarrow> (\<exists>p. Option.bind plan sp_Reveal = Some p \<and> rp_Mode p \<noteq> ModeDisabled)) \<and>
      1 \<le> rv_MaxAttempts r"
    by (auto simp: resolveReveal_def Let_def split: option.splits)
qed

end
