(* ===== verification/Store_Iface.thy ===== *)
theory Store_Iface
  imports Memstore
begin

text \<open>
  What the services rely on when they use \<open>pkg/memstore\<close> as a map: the laws of lookup after put,
  delete and prune, for the two write policies, as locales, and their interpretation on the model
  of the store.
\<close>

section \<open>The interfaces\<close>

locale pruning_store =
  fixes get :: "'k \<Rightarrow> 's \<Rightarrow> 'v option"
    and del :: "'k \<Rightarrow> 's \<Rightarrow> 's"
    and prune :: "('k \<Rightarrow> bool) \<Rightarrow> 's \<Rightarrow> 's"
    and inv :: "'s \<Rightarrow> bool"
  assumes get_del: "inv s \<Longrightarrow> get k (del j s) = (if k = j then None else get k s)"
    and get_prune: "inv s \<Longrightarrow> get k (prune drp s) = (if drp k then None else get k s)"
    and inv_del: "inv s \<Longrightarrow> inv (del j s)"
    and inv_prune: "inv s \<Longrightarrow> inv (prune drp s)"

locale lww_store = pruning_store get del prune inv
  for get :: "'k \<Rightarrow> 's \<Rightarrow> 'v option" and del prune inv +
  fixes put :: "'k \<Rightarrow> 'v \<Rightarrow> 's \<Rightarrow> 's"
  assumes get_put: "inv s \<Longrightarrow> get k (put j v s) = (if k = j then Some v else get k s)"
    and inv_put: "inv s \<Longrightarrow> inv (put j v s)"
begin

text \<open>Committing a list of changes, a deletion being \<open>None\<close>: the last change of a key counts.\<close>

lemma commit_inv:
  assumes "inv s"
  shows "inv (fold (\<lambda>(k, c). case c of None \<Rightarrow> del k | Some v \<Rightarrow> put k v) cs s)"
  using assms by (induction cs arbitrary: s) (auto simp: inv_del inv_put split: option.splits)

lemma commit_get:
  assumes "inv s"
  shows "get k (fold (\<lambda>(k, c). case c of None \<Rightarrow> del k | Some v \<Rightarrow> put k v) cs s) =
    (case map_of (rev cs) k of None \<Rightarrow> get k s | Some c \<Rightarrow> c)"
  using assms
proof (induction cs rule: rev_induct)
  case (snoc c cs)
  obtain j v where c: "c = (j, v)" by (cases c)
  note i = commit_inv [OF snoc.prems, of cs]
  show ?case
    using snoc i by (cases v) (auto simp: c get_del get_put split: option.splits)
qed simp

text \<open>With one change per key the order does not matter.\<close>

lemma commit_get_distinct:
  assumes "inv s" "distinct (map fst cs)"
  shows "get k (fold (\<lambda>(k, c). case c of None \<Rightarrow> del k | Some v \<Rightarrow> put k v) cs s) =
    (case map_of cs k of None \<Rightarrow> get k s | Some c \<Rightarrow> c)"
proof -
  have "map_of (rev cs) = map_of cs" using assms(2) by (simp add: map_of_inject_set rev_map [symmetric])
  then show ?thesis by (simp add: commit_get [OF assms(1)])
qed

end

locale keep_store = pruning_store get del prune inv
  for get :: "'k \<Rightarrow> 's \<Rightarrow> 'v option" and del prune inv +
  fixes put :: "'k \<Rightarrow> 'v \<Rightarrow> 's \<Rightarrow> bool \<times> 's"
  assumes get_put: "inv s \<Longrightarrow> get k (snd (put j v s)) =
      (if k = j \<and> get j s = None then Some v else get k s)"
    and put_reports: "inv s \<Longrightarrow> fst (put j v s) \<longleftrightarrow> get j s = None"
    and inv_put: "inv s \<Longrightarrow> inv (snd (put j v s))"
begin

text \<open>The first value put under a key stays until it is deleted.\<close>

lemma first_put_wins:
  assumes "inv s" "get k s = Some v"
  shows "get k (fold (\<lambda>(j, w) s. snd (put j w s)) ps s) = Some v"
  using assms
proof (induction ps arbitrary: s)
  case (Cons p ps)
  obtain j w where p: "p = (j, w)" by (cases p)
  have "inv (snd (put j w s))" "get k (snd (put j w s)) = Some v"
    using Cons.prems by (auto simp: inv_put get_put)
  then show ?case using Cons.IH by (simp add: p)
qed simp

end

section \<open>The store implements them\<close>

definition store_put :: "'k \<Rightarrow> 'v \<Rightarrow> ('k, 'v) store \<Rightarrow> ('k, 'v) store" where
  "store_put k v s = snd (Put k v s)"

definition store_prune :: "('k \<Rightarrow> bool) \<Rightarrow> ('k, 'v) store \<Rightarrow> ('k, 'v) store" where
  "store_prune drp s = snd (Prune drp s)"

lemma mark_keep [simp]:
  "keepExisting (snd (markDirtyLocked k s)) = keepExisting s"
  "keepExisting (snd (markDeletedLocked k s)) = keepExisting s"
  "entries (snd (markDirtyLocked k s)) = entries s"
  "entries (snd (markDeletedLocked k s)) = entries s"
  by (simp_all add: markDirtyLocked_def markDeletedLocked_def Let_def)

lemma notify_keep [simp]:
  "keepExisting (notify p s) = keepExisting s" "entries (notify p s) = entries s"
  by (simp_all add: notify_def Let_def)

lemma Get_Put:
  "Get k (snd (Put j v s)) =
     (if k = j \<and> \<not> (keepExisting s \<and> Get j s \<noteq> None) then Some v else Get k s)"
  by (auto simp: Get_def Put_def case_prod_beta Let_def)

lemma Put_reports: "fst (Put j v s) \<longleftrightarrow> \<not> (keepExisting s \<and> Get j s \<noteq> None)"
  by (auto simp: Get_def Put_def case_prod_beta Let_def)

lemma Put_keep [simp]: "keepExisting (snd (Put j v s)) = keepExisting s"
  by (auto simp: Put_def case_prod_beta Let_def)

lemma Get_Delete: "Get k (Delete j s) = (if k = j then None else Get k s)"
  by (auto simp: Get_def Delete_def case_prod_beta Let_def)

lemma Delete_keep [simp]: "keepExisting (Delete j s) = keepExisting s"
  by (auto simp: Delete_def case_prod_beta Let_def)

lemma drop_key_keep [simp]:
  "entries (snd (drop_key k s)) = AList.delete k (entries s)"
  "keepExisting (snd (drop_key k s)) = keepExisting s"
  by (simp_all add: drop_key_def)

lemma prune_loop_entries:
  "map_of (entries (snd (snd (prune_loop drp ks n p s)))) k =
     (if k \<in> set ks \<and> drp k then None else map_of (entries s) k) \<and>
   keepExisting (snd (snd (prune_loop drp ks n p s))) = keepExisting s"
  by (induction ks arbitrary: n p s) (auto simp: case_prod_beta Let_def)

lemma Get_Prune: "Get k (snd (Prune drp s)) = (if drp k then None else Get k s)"
  using prune_loop_entries [of drp "map fst (entries s)" 0 0 s k]
  by (auto simp: Get_def Prune_def case_prod_beta Let_def map_of_eq_None_iff)

lemma Prune_keep [simp]: "keepExisting (snd (Prune drp s)) = keepExisting s"
  using prune_loop_entries [of drp "map fst (entries s)" 0 0 s]
  by (simp add: Prune_def case_prod_beta Let_def)

interpretation lww: lww_store Get Delete store_prune "\<lambda>s. \<not> keepExisting s" store_put
  by unfold_locales (auto simp: store_put_def store_prune_def Get_Put Get_Delete Get_Prune)

interpretation keep: keep_store Get Delete store_prune keepExisting Put
  by unfold_locales
    (auto simp: store_prune_def Get_Put Get_Delete Get_Prune Put_reports)

end
