(* ===== verification/Plan_Service.thy ===== *)
theory Plan_Service
  imports Plan_Frozen Store_Iface
begin

text \<open>
  \<open>pkg/action_plan/service.go\<close>: the owner of the per-slot plans.  Every operation runs under the
  service's lock and is one atomic step; the live configuration, the chain specification and the
  current time are arguments of a step, since they change between steps.  Deep copies are the
  identity on values.  \<open>ApplyUpdates\<close> commits its staged results in the order of a map, given as
  the function \<open>ord\<close>.
\<close>

record PlanService =
  ps_store :: "(slot, SlotPlan) store"
  ps_frozen :: "slot \<rightharpoonup> FrozenPlan"
  ps_slotsBuilt :: u64

definition NewPlanService :: PlanService where
  "NewPlanService = \<lparr>ps_store = New, ps_frozen = Map.empty, ps_slotsBuilt = 0\<rparr>"

definition plan_Get :: "slot \<Rightarrow> PlanService \<Rightarrow> SlotPlan option" where
  "plan_Get s svc = Get s (ps_store svc)"

definition GetRange :: "slot \<Rightarrow> slot \<Rightarrow> PlanService \<Rightarrow> SlotPlan list" where
  "GetRange minSlot maxSlot svc =
     sort_key sp_Slot (map snd (filter (\<lambda>(s, _). s \<ge> minSlot \<and> s \<le> maxSlot) (Entries (ps_store svc))))"

definition Freeze :: "ChainSpec \<Rightarrow> Config \<Rightarrow> gotime \<Rightarrow> slot \<Rightarrow> PlanService \<Rightarrow> FrozenPlan \<times> PlanService" where
  "Freeze spec cfg now s svc =
     (case ps_frozen svc s of
        Some frozen \<Rightarrow> (frozen, svc)
      | None \<Rightarrow>
          (let plan = Get s (ps_store svc);
               fork = ActiveForkAtEpoch spec (GetEpochOfSlot spec s);
               frozen = resolveFrozenPlan s plan cfg fork now (ps_slotsBuilt svc)
           in (frozen, svc\<lparr>ps_frozen := (ps_frozen svc)(s \<mapsto> frozen)\<rparr>)))"

definition OnSlotBuilt :: "slot \<Rightarrow> PlanService \<Rightarrow> PlanService" where
  "OnSlotBuilt s svc =
     (case ps_frozen svc s of
        Some frozen \<Rightarrow> if rb_Forced (fp_Build frozen) then svc
                      else svc\<lparr>ps_slotsBuilt := ps_slotsBuilt svc + 1\<rparr>
      | None \<Rightarrow> svc\<lparr>ps_slotsBuilt := ps_slotsBuilt svc + 1\<rparr>)"

definition UpdateConfig :: "Config \<Rightarrow> PlanService \<Rightarrow> PlanService" where
  "UpdateConfig cfg svc =
     (if sc_Mode (cfg_Schedule cfg) = ScheduleModeNextN then svc\<lparr>ps_slotsBuilt := 0\<rparr> else svc)"

definition GetSlotsBuilt :: "PlanService \<Rightarrow> u64" where
  "GetSlotsBuilt svc = ps_slotsBuilt svc"

definition GetSlotsRemaining :: "Config \<Rightarrow> PlanService \<Rightarrow> i64" where
  "GetSlotsRemaining cfg svc =
     (if sc_Mode (cfg_Schedule cfg) \<noteq> ScheduleModeNextN then - 1
      else if ps_slotsBuilt svc \<ge> sc_NextN (cfg_Schedule cfg) then 0
      else i64_of_u64 (sc_NextN (cfg_Schedule cfg) - ps_slotsBuilt svc))"

definition IsFrozen :: "slot \<Rightarrow> PlanService \<Rightarrow> bool" where
  "IsFrozen s svc \<longleftrightarrow> ps_frozen svc s \<noteq> None"

section \<open>Applying updates\<close>

datatype apply_error =
    NoUpdates
  | BadTargets nat target_error
  | ErrSlotLocked nat slot
  | TooManyUniqueSlots
  | BadUpdate nat slot plan_error

text \<open>The staged results (a deleted plan is \<open>None\<close>) and the set of targeted slots.\<close>

type_synonym staging = "(slot \<times> SlotPlan option) list \<times> slot list"

record apply_env =
  ae_jqValid :: "string \<Rightarrow> bool"
  ae_secondsPerSlot :: duration
  ae_currentSlot :: slot
  ae_now :: gotime
  ae_actor :: string

definition stage_slot ::
  "apply_env \<Rightarrow> PlanService \<Rightarrow> nat \<Rightarrow> PlanUpdate \<Rightarrow> slot \<Rightarrow> staging \<Rightarrow> apply_error + staging" where
  "stage_slot env svc i update s st =
     (if s \<le> ae_currentSlot env then Inl (ErrSlotLocked i s)
      else if ps_frozen svc s \<noteq> None then Inl (ErrSlotLocked i s)
      else
        (let targeted = List.insert s (snd st) in
         if length targeted > unat MaxSlotsPerUpdate then Inl TooManyUniqueSlots
         else
           (let existing = (case map_of (fst st) s of Some p \<Rightarrow> p | None \<Rightarrow> Get s (ps_store svc)) in
            case ApplyUpdateToPlan existing update of
              Inl e \<Rightarrow> Inl (BadUpdate i s e)
            | Inr None \<Rightarrow> Inr (AList.update s None (fst st), targeted)
            | Inr (Some p) \<Rightarrow>
                (let p' = p\<lparr>sp_Slot := s, sp_UpdatedAt := ae_now env, sp_UpdatedBy := ae_actor env\<rparr> in
                 case plan_Validate (ae_jqValid env) (ae_secondsPerSlot env) p' of
                   Some e \<Rightarrow> Inl (BadUpdate i s e)
                 | None \<Rightarrow> Inr (AList.update s (Some p') (fst st), targeted)))))"

fun stage_slots ::
  "apply_env \<Rightarrow> PlanService \<Rightarrow> nat \<Rightarrow> PlanUpdate \<Rightarrow> slot list \<Rightarrow> staging \<Rightarrow> apply_error + staging" where
  "stage_slots env svc i update [] st = Inr st"
| "stage_slots env svc i update (s # ss) st =
     (case stage_slot env svc i update s st of
        Inl e \<Rightarrow> Inl e | Inr st' \<Rightarrow> stage_slots env svc i update ss st')"

fun stage_updates ::
  "apply_env \<Rightarrow> PlanService \<Rightarrow> nat \<Rightarrow> PlanUpdate list \<Rightarrow> staging \<Rightarrow> apply_error + staging" where
  "stage_updates env svc i [] st = Inr st"
| "stage_updates env svc i (u # us) st =
     (case TargetSlots u of
        Inl e \<Rightarrow> Inl (BadTargets i e)
      | Inr targets \<Rightarrow>
          (case stage_slots env svc i u targets st of
             Inl e \<Rightarrow> Inl e | Inr st' \<Rightarrow> stage_updates env svc (Suc i) us st'))"

record PlanChangeEvent =
  pe_Slots :: "u64 list"
  pe_Plans :: "SlotPlan option list"

definition sortChangeEvent :: "PlanChangeEvent \<Rightarrow> PlanChangeEvent" where
  "sortChangeEvent event =
     (let order = sort_key (\<lambda>i. pe_Slots event ! i) [0..<length (pe_Slots event)] in
      \<lparr>pe_Slots = map (\<lambda>i. pe_Slots event ! i) order, pe_Plans = map (\<lambda>i. pe_Plans event ! i) order\<rparr>)"

definition commit_all :: "(slot \<times> SlotPlan option) list \<Rightarrow> (slot, SlotPlan) store \<Rightarrow> (slot, SlotPlan) store" where
  "commit_all cs st = fold (\<lambda>(k, c). case c of None \<Rightarrow> Delete k | Some v \<Rightarrow> store_put k v) cs st"

definition ApplyUpdates ::
  "(slot list \<Rightarrow> slot list) \<Rightarrow> apply_env \<Rightarrow> PlanUpdate list \<Rightarrow> PlanService
     \<Rightarrow> (apply_error + PlanChangeEvent) \<times> PlanService" where
  "ApplyUpdates ord env updates svc =
     (if updates = [] then (Inl NoUpdates, svc)
      else
        (case stage_updates env svc 0 updates ([], []) of
           Inl e \<Rightarrow> (Inl e, svc)
         | Inr (staged, targeted) \<Rightarrow>
             (let cs = map (\<lambda>s. (s, the (map_of staged s))) (ord (map fst staged));
                  event = \<lparr>pe_Slots = map fst cs, pe_Plans = map snd cs\<rparr>
              in (Inr (sortChangeEvent event), svc\<lparr>ps_store := commit_all cs (ps_store svc)\<rparr>))))"

section \<open>Pruning\<close>

definition pruneForEpoch :: "ChainSpec \<Rightarrow> Config \<Rightarrow> epoch \<Rightarrow> PlanService \<Rightarrow> PlanService" where
  "pruneForEpoch spec cfg e svc =
     (let retention = cfg_SlotResultRetentionEpochs cfg in
      if retention = 0 \<or> e \<le> retention then svc
      else
        (let cutoff = (e - retention) * SlotsPerEpoch spec;
             markerCutoff = (e - 1) * SlotsPerEpoch spec
         in svc\<lparr>ps_store := store_prune (\<lambda>s. s < cutoff) (ps_store svc),
                ps_frozen := range_delete (\<lambda>s _. s < markerCutoff) (ps_frozen svc)\<rparr>))"

section \<open>Steps\<close>

datatype plan_op =
    OpFreeze Config gotime slot
  | OpSlotBuilt slot
  | OpUpdateConfig Config
  | OpApply "slot list \<Rightarrow> slot list" apply_env "PlanUpdate list"
  | OpPruneEpoch Config epoch

fun plan_step :: "ChainSpec \<Rightarrow> plan_op \<Rightarrow> PlanService \<Rightarrow> PlanService" where
  "plan_step spec (OpFreeze cfg now s) svc = snd (Freeze spec cfg now s svc)"
| "plan_step spec (OpSlotBuilt s) svc = OnSlotBuilt s svc"
| "plan_step spec (OpUpdateConfig cfg) svc = UpdateConfig cfg svc"
| "plan_step spec (OpApply ord env us) svc = snd (ApplyUpdates ord env us svc)"
| "plan_step spec (OpPruneEpoch cfg e) svc = pruneForEpoch spec cfg e svc"

definition plan_run :: "ChainSpec \<Rightarrow> plan_op list \<Rightarrow> PlanService \<Rightarrow> PlanService" where
  "plan_run spec ops svc = fold (plan_step spec) ops svc"

text \<open>An admissible order of a map's keys.\<close>

definition slot_order :: "(slot list \<Rightarrow> slot list) \<Rightarrow> bool" where
  "slot_order ord \<longleftrightarrow> (\<forall>ks. distinct ks \<longrightarrow> distinct (ord ks) \<and> set (ord ks) = set ks)"

text \<open>The invariant: a last-write-wins store whose plans are filed under their slot and not empty.\<close>

definition plans_ok :: "PlanService \<Rightarrow> bool" where
  "plans_ok svc \<longleftrightarrow> \<not> keepExisting (ps_store svc) \<and>
     (\<forall>s p. plan_Get s svc = Some p \<longrightarrow> sp_Slot p = s \<and> \<not> IsEmpty p)"

section \<open>Lemmas\<close>

lemma slot_order_id: "slot_order (\<lambda>ks. ks)"
  by (simp add: slot_order_def)

lemma stage_slot_Inr:
  assumes "stage_slot env svc i u s st = Inr st'"
  shows "ae_currentSlot env < s \<and> ps_frozen svc s = None \<and>
    (\<exists>r. st' = (AList.update s r (fst st), List.insert s (snd st)) \<and>
      (\<exists>p. ApplyUpdateToPlan (case map_of (fst st) s of Some p \<Rightarrow> p | None \<Rightarrow> Get s (ps_store svc)) u = Inr p \<and>
        r = map_option (\<lambda>p. p\<lparr>sp_Slot := s, sp_UpdatedAt := ae_now env, sp_UpdatedBy := ae_actor env\<rparr>) p) \<and>
      (\<forall>p. r = Some p \<longrightarrow> plan_Validate (ae_jqValid env) (ae_secondsPerSlot env) p = None)) \<and>
    length (snd st') \<le> 6400"
  using assms
  by (auto simp: stage_slot_def Let_def MaxSlotsPerUpdate_def not_le split: if_splits sum.splits option.splits)

lemma ApplyUpdate_nonempty: "ApplyUpdateToPlan e u = Inr (Some p) \<Longrightarrow> \<not> IsEmpty p"
  by (auto simp: ApplyUpdateToPlan_def Let_def split: if_splits sum.splits)

lemma IsEmpty_stamp [simp]:
  "IsEmpty (p\<lparr>sp_Slot := a, sp_UpdatedAt := b, sp_UpdatedBy := c\<rparr>) = IsEmpty p"
  by (simp add: IsEmpty_def)

text \<open>
  The staging invariant: the keys are exactly the targeted slots, each is unlocked, and each
  staged plan is stamped with its slot, valid and not empty.\<close>

definition staging_ok :: "apply_env \<Rightarrow> PlanService \<Rightarrow> staging \<Rightarrow> bool" where
  "staging_ok env svc st \<longleftrightarrow>
     distinct (map fst (fst st)) \<and> distinct (snd st) \<and> set (snd st) = fst ` set (fst st) \<and>
     length (snd st) \<le> 6400 \<and>
     (\<forall>s r. map_of (fst st) s = Some r \<longrightarrow> ae_currentSlot env < s \<and> ps_frozen svc s = None \<and>
        (\<forall>p. r = Some p \<longrightarrow> sp_Slot p = s \<and> \<not> IsEmpty p \<and>
           plan_Validate (ae_jqValid env) (ae_secondsPerSlot env) p = None))"

lemma staging_ok_empty [simp]: "staging_ok env svc ([], [])"
  by (simp add: staging_ok_def)

lemma stage_slot_ok:
  assumes "staging_ok env svc st" "stage_slot env svc i u s st = Inr st'"
  shows "staging_ok env svc st'"
proof -
  obtain r where st': "st' = (AList.update s r (fst st), List.insert s (snd st))"
    and lock: "ae_currentSlot env < s" "ps_frozen svc s = None"
    and r: "\<And>p. r = Some p \<Longrightarrow> sp_Slot p = s \<and> \<not> IsEmpty p \<and>
       plan_Validate (ae_jqValid env) (ae_secondsPerSlot env) p = None"
    and len: "length (List.insert s (snd st)) \<le> 6400"
    using stage_slot_Inr [OF assms(2)] by (fastforce dest: ApplyUpdate_nonempty)
  show ?thesis
    using assms(1) lock r len unfolding staging_ok_def st'
    by (auto simp: AList.distinct_update dom_update [symmetric] dom_map_of_conv_image_fst [symmetric])
qed

lemma stage_slots_ok:
  "stage_slots env svc i u ss st = Inr st' \<Longrightarrow> staging_ok env svc st \<Longrightarrow> staging_ok env svc st'"
  by (induction ss arbitrary: st) (auto split: sum.splits dest: stage_slot_ok)

lemma stage_updates_ok:
  "stage_updates env svc i us st = Inr st' \<Longrightarrow> staging_ok env svc st \<Longrightarrow> staging_ok env svc st'"
  by (induction us arbitrary: i st) (auto split: sum.splits dest: stage_slots_ok)

text \<open>What the updates make of one slot, taken one after the other.\<close>

definition apply_stamped :: "apply_env \<Rightarrow> slot \<Rightarrow> PlanUpdate \<Rightarrow> SlotPlan option \<Rightarrow> SlotPlan option" where
  "apply_stamped env s u p =
     (case ApplyUpdateToPlan p u of
        Inr q \<Rightarrow> map_option (\<lambda>q. q\<lparr>sp_Slot := s, sp_UpdatedAt := ae_now env, sp_UpdatedBy := ae_actor env\<rparr>) q
      | Inl _ \<Rightarrow> None)"

definition targets_of :: "PlanUpdate \<Rightarrow> slot list" where
  "targets_of u = (case TargetSlots u of Inr ts \<Rightarrow> ts | Inl _ \<Rightarrow> [])"

definition slot_updates :: "slot \<Rightarrow> PlanUpdate list \<Rightarrow> PlanUpdate list" where
  "slot_updates s us = concat (map (\<lambda>u. map (\<lambda>_. u) (filter (\<lambda>t. t = s) (targets_of u))) us)"

definition staged_view :: "PlanService \<Rightarrow> staging \<Rightarrow> slot \<Rightarrow> SlotPlan option" where
  "staged_view svc st s = (case map_of (fst st) s of Some p \<Rightarrow> p | None \<Rightarrow> Get s (ps_store svc))"

lemma stage_slot_view:
  assumes "stage_slot env svc i u t st = Inr st'"
  shows "staged_view svc st' s =
    (if s = t then apply_stamped env s u (staged_view svc st s) else staged_view svc st s)"
  using stage_slot_Inr [OF assms]
  by (auto simp: staged_view_def apply_stamped_def)

lemma stage_slots_view:
  "stage_slots env svc i u ss st = Inr st' \<Longrightarrow>
   staged_view svc st' s =
     fold (apply_stamped env s) (map (\<lambda>_. u) (filter (\<lambda>t. t = s) ss)) (staged_view svc st s)"
proof (induction ss arbitrary: st)
  case (Cons t ss)
  then obtain st1 where st1: "stage_slot env svc i u t st = Inr st1"
    "stage_slots env svc i u ss st1 = Inr st'"
    by (auto split: sum.splits)
  show ?case using Cons.IH [OF st1(2)] stage_slot_view [OF st1(1), of s] by simp
qed simp

lemma stage_updates_view:
  "stage_updates env svc i us st = Inr st' \<Longrightarrow>
   staged_view svc st' s = fold (apply_stamped env s) (slot_updates s us) (staged_view svc st s)"
proof (induction us arbitrary: i st)
  case (Cons u us)
  then obtain ts st1 where st1: "TargetSlots u = Inr ts" "stage_slots env svc i u ts st = Inr st1"
    "stage_updates env svc (Suc i) us st1 = Inr st'"
    by (auto split: sum.splits)
  show ?case
    using Cons.IH [OF st1(3)] stage_slots_view [OF st1(2), of s]
    by (simp add: slot_updates_def targets_of_def st1(1))
qed (simp add: slot_updates_def)

lemma stage_slots_targets:
  "stage_slots env svc i u ss st = Inr st' \<Longrightarrow> set (snd st') = set (snd st) \<union> set ss"
proof (induction ss arbitrary: st)
  case (Cons t ss)
  then obtain st1 where st1: "stage_slot env svc i u t st = Inr st1"
    "stage_slots env svc i u ss st1 = Inr st'"
    by (auto split: sum.splits)
  show ?case using Cons.IH [OF st1(2)] stage_slot_Inr [OF st1(1)] by auto
qed simp

lemma stage_updates_targets:
  "stage_updates env svc i us st = Inr st' \<Longrightarrow>
   set (snd st') = set (snd st) \<union> (\<Union>u \<in> set us. set (targets_of u))"
proof (induction us arbitrary: i st)
  case (Cons u us)
  then obtain ts st1 where st1: "TargetSlots u = Inr ts" "stage_slots env svc i u ts st = Inr st1"
    "stage_updates env svc (Suc i) us st1 = Inr st'"
    by (auto split: sum.splits)
  show ?case
    using Cons.IH [OF st1(3)] stage_slots_targets [OF st1(2)] by (auto simp: targets_of_def st1(1))
qed simp

text \<open>Sorting the event.\<close>

lemma sortChangeEvent_props:
  assumes "length (pe_Plans ev) = length (pe_Slots ev)"
  shows "sorted (pe_Slots (sortChangeEvent ev))"
    and "set (zip (pe_Slots (sortChangeEvent ev)) (pe_Plans (sortChangeEvent ev))) =
      set (zip (pe_Slots ev) (pe_Plans ev))"
proof -
  let ?order = "sort_key (\<lambda>i. pe_Slots ev ! i) [0..<length (pe_Slots ev)]"
  show "sorted (pe_Slots (sortChangeEvent ev))"
    by (simp add: sortChangeEvent_def Let_def)
  have "zip (pe_Slots (sortChangeEvent ev)) (pe_Plans (sortChangeEvent ev)) =
      map (\<lambda>i. (pe_Slots ev ! i, pe_Plans ev ! i)) ?order"
    by (simp add: sortChangeEvent_def Let_def zip_map_map zip_same_conv_map)
  also have "set \<dots> = (\<lambda>i. (pe_Slots ev ! i, pe_Plans ev ! i)) ` {..<length (pe_Slots ev)}"
    by (simp add: atLeast0LessThan [symmetric])
  also have "\<dots> = set (zip (pe_Slots ev) (pe_Plans ev))"
    using assms by (auto simp: set_zip)
  finally show "set (zip (pe_Slots (sortChangeEvent ev)) (pe_Plans (sortChangeEvent ev))) =
      set (zip (pe_Slots ev) (pe_Plans ev))" .
qed

text \<open>A successful call, unfolded once.\<close>

lemma ApplyUpdates_Inr:
  assumes "ApplyUpdates ord env us svc = (Inr ev, svc')" "slot_order ord" "\<not> keepExisting (ps_store svc)"
  shows "\<exists>staged targeted. stage_updates env svc 0 us ([], []) = Inr (staged, targeted) \<and>
    staging_ok env svc (staged, targeted) \<and>
    (\<forall>s. plan_Get s svc' = staged_view svc (staged, targeted) s) \<and>
    ps_frozen svc' = ps_frozen svc \<and> \<not> keepExisting (ps_store svc') \<and>
    sorted (pe_Slots ev) \<and> set (zip (pe_Slots ev) (pe_Plans ev)) = set staged"
proof -
  obtain staged targeted where st: "stage_updates env svc 0 us ([], []) = Inr (staged, targeted)"
    using assms(1) by (auto simp: ApplyUpdates_def split: if_splits sum.splits)
  then have ok: "staging_ok env svc (staged, targeted)" using stage_updates_ok by fastforce
  define cs where "cs = map (\<lambda>s. (s, the (map_of staged s))) (ord (map fst staged))"
  have d: "distinct (map fst staged)" using ok by (simp add: staging_ok_def)
  have ks: "set (ord (map fst staged)) = fst ` set staged" "distinct (ord (map fst staged))"
    using assms(2) d by (simp_all add: slot_order_def)
  have dcs: "distinct (map fst cs)" using ks(2) by (simp add: cs_def comp_def)
  have set_cs: "set cs = set staged"
    using d by (force simp: cs_def ks(1) map_of_eq_Some_iff)
  have mo: "map_of cs = map_of staged" using d dcs set_cs by (simp add: map_of_inject_set)
  have svc': "svc' = svc\<lparr>ps_store := commit_all cs (ps_store svc)\<rparr>"
    and ev: "ev = sortChangeEvent \<lparr>pe_Slots = map fst cs, pe_Plans = map snd cs\<rparr>"
    using assms(1) st by (auto simp: ApplyUpdates_def Let_def cs_def split: if_splits)
  have get: "plan_Get s svc' = staged_view svc (staged, targeted) s" for s
    using lww.commit_get_distinct [OF assms(3) dcs, of s]
    by (simp add: plan_Get_def svc' commit_all_def staged_view_def mo)
  have keep: "\<not> keepExisting (ps_store svc')"
    using lww.commit_inv [OF assms(3)] by (simp add: svc' commit_all_def)
  have "zip (map fst cs) (map snd cs) = cs" by (simp add: zip_map_fst_snd)
  then have zips: "sorted (pe_Slots ev)" "set (zip (pe_Slots ev) (pe_Plans ev)) = set staged"
    using sortChangeEvent_props [of "\<lparr>pe_Slots = map fst cs, pe_Plans = map snd cs\<rparr>"] set_cs
    by (simp_all add: ev)
  have "ps_frozen svc' = ps_frozen svc" by (simp add: svc')
  then show ?thesis using st ok get keep zips by blast
qed

lemma ApplyUpdates_Inl: "fst (ApplyUpdates ord env us svc) = Inl e \<Longrightarrow> snd (ApplyUpdates ord env us svc) = svc"
  by (auto simp: ApplyUpdates_def Let_def split: if_splits sum.splits prod.splits)

section \<open>Steps preserve the invariant and the frozen slots\<close>

lemma Freeze_store [simp]:
  "ps_store (snd (Freeze spec cfg now s svc)) = ps_store svc"
  "ps_slotsBuilt (snd (Freeze spec cfg now s svc)) = ps_slotsBuilt svc"
  by (simp_all add: Freeze_def Let_def split: option.splits)

lemma Freeze_frozen:
  "ps_frozen (snd (Freeze spec cfg now s svc)) = (ps_frozen svc)(s \<mapsto> fst (Freeze spec cfg now s svc))"
  by (auto simp: Freeze_def Let_def split: option.splits)

lemma OnSlotBuilt_simps [simp]:
  "ps_store (OnSlotBuilt s svc) = ps_store svc" "ps_frozen (OnSlotBuilt s svc) = ps_frozen svc"
  by (simp_all add: OnSlotBuilt_def split: option.splits)

lemma UpdateConfig_simps [simp]:
  "ps_store (UpdateConfig cfg svc) = ps_store svc" "ps_frozen (UpdateConfig cfg svc) = ps_frozen svc"
  by (simp_all add: UpdateConfig_def)

definition op_ok :: "plan_op \<Rightarrow> bool" where
  "op_ok op = (case op of OpApply ord _ _ \<Rightarrow> slot_order ord | _ \<Rightarrow> True)"

lemma plans_ok_apply:
  assumes "plans_ok svc" "slot_order ord"
  shows "plans_ok (snd (ApplyUpdates ord env us svc))"
proof (cases "fst (ApplyUpdates ord env us svc)")
  case (Inl e)
  then show ?thesis using ApplyUpdates_Inl assms(1) by metis
next
  case (Inr ev)
  then have "ApplyUpdates ord env us svc = (Inr ev, snd (ApplyUpdates ord env us svc))"
    by (metis prod.collapse)
  from ApplyUpdates_Inr [OF this assms(2)] obtain staged targeted where
    ok: "staging_ok env svc (staged, targeted)"
    and get: "\<forall>s. plan_Get s (snd (ApplyUpdates ord env us svc)) = staged_view svc (staged, targeted) s"
    and keep: "\<not> keepExisting (ps_store (snd (ApplyUpdates ord env us svc)))"
    using assms(1) unfolding plans_ok_def by blast
  show ?thesis
    using ok get keep assms(1)
    by (auto simp: plans_ok_def staging_ok_def staged_view_def plan_Get_def split: option.splits)
qed

lemma plans_ok_step:
  assumes "plans_ok svc" "op_ok op"
  shows "plans_ok (plan_step spec op svc)"
proof (cases op)
  case (OpApply ord env us)
  then show ?thesis using assms plans_ok_apply by (simp add: op_ok_def)
next
  case (OpPruneEpoch cfg e)
  then show ?thesis
    using assms(1) by (auto simp: plans_ok_def pruneForEpoch_def Let_def plan_Get_def store_prune_def Get_Prune)
qed (use assms(1) in \<open>simp_all add: plans_ok_def plan_Get_def\<close>)

text \<open>The operations that leave the frozen marker and the plan of a slot alone.\<close>

definition op_keeps :: "ChainSpec \<Rightarrow> slot \<Rightarrow> plan_op \<Rightarrow> bool" where
  "op_keeps spec s op =
     (case op of
        OpApply ord _ _ \<Rightarrow> slot_order ord
      | OpPruneEpoch cfg e \<Rightarrow> (e - 1) * SlotsPerEpoch spec \<le> s \<and>
          (e - cfg_SlotResultRetentionEpochs cfg) * SlotsPerEpoch spec \<le> s
      | _ \<Rightarrow> True)"

lemma step_keeps_frozen:
  assumes "plans_ok svc" "ps_frozen svc s = Some f" "op_keeps spec s op"
  shows "ps_frozen (plan_step spec op svc) s = Some f \<and>
    plan_Get s (plan_step spec op svc) = plan_Get s svc \<and> op_ok op"
proof (cases op)
  case (OpFreeze cfg now t)
  then show ?thesis using assms(2)
    by (auto simp: Freeze_frozen plan_Get_def op_ok_def) (simp add: Freeze_def)
next
  case (OpApply ord env us)
  have o: "slot_order ord" using assms(3) OpApply by (simp add: op_keeps_def)
  show ?thesis
  proof (cases "fst (ApplyUpdates ord env us svc)")
    case (Inl e)
    then show ?thesis using ApplyUpdates_Inl [OF Inl] assms(2) o OpApply by (simp add: op_ok_def)
  next
    case (Inr ev)
    then have "ApplyUpdates ord env us svc = (Inr ev, snd (ApplyUpdates ord env us svc))"
      by (metis prod.collapse)
    from ApplyUpdates_Inr [OF this o] obtain staged targeted where
      ok: "staging_ok env svc (staged, targeted)"
      and get: "\<forall>s. plan_Get s (snd (ApplyUpdates ord env us svc)) = staged_view svc (staged, targeted) s"
      and fr: "ps_frozen (snd (ApplyUpdates ord env us svc)) = ps_frozen svc"
      using assms(1) unfolding plans_ok_def by blast
    have "map_of staged s = None"
      using ok assms(2) by (cases "map_of staged s") (auto simp: staging_ok_def)
    then show ?thesis
      using get fr assms(2) o OpApply by (simp add: staged_view_def plan_Get_def op_ok_def)
  qed
next
  case (OpPruneEpoch cfg e)
  then show ?thesis
    using assms by (auto simp: op_keeps_def op_ok_def pruneForEpoch_def Let_def range_delete_Some_iff
        plan_Get_def store_prune_def Get_Prune)
qed (use assms in \<open>simp_all add: plan_Get_def op_ok_def\<close>)

lemma run_keeps_frozen:
  assumes "plans_ok svc" "ps_frozen svc s = Some f" "\<forall>op \<in> set ops. op_keeps spec s op"
  shows "ps_frozen (plan_run spec ops svc) s = Some f \<and> plan_Get s (plan_run spec ops svc) = plan_Get s svc"
  using assms
proof (induction ops arbitrary: svc)
  case Nil
  then show ?case by (simp add: plan_run_def)
next
  case (Cons op ops)
  have k: "ps_frozen (plan_step spec op svc) s = Some f"
    "plan_Get s (plan_step spec op svc) = plan_Get s svc" "op_ok op"
    using step_keeps_frozen [OF Cons.prems(1,2)] Cons.prems(3) by auto
  show ?case
    using Cons.IH [OF plans_ok_step [OF Cons.prems(1) k(3)] k(1)] Cons.prems(3) k(2)
    by (simp add: plan_run_def)
qed

lemma plans_ok_New: "plans_ok NewPlanService"
  by (simp add: plans_ok_def NewPlanService_def plan_Get_def Get_def New_def newStore_def)

lemma plans_ok_run:
  "plans_ok svc \<Longrightarrow> \<forall>op \<in> set ops. op_ok op \<Longrightarrow> plans_ok (plan_run spec ops svc)"
  unfolding plan_run_def by (induction ops arbitrary: svc) (auto intro: plans_ok_step)

section \<open>Properties\<close>


text \<open>
  C2: Bulk updates are atomic and exact.  A failing call leaves the service as it is.  A successful
  one leaves every slot with the result of the updates that target it, applied in request order
  (slots no update targets keep their plan); it touches only future, unfrozen slots, at most 6400
  of them; every plan it leaves behind at a target is valid; the returned event lists exactly the
  targeted slots in ascending order with their resulting plans; and the invariant of the stored
  plans holds again.\<close>
theorem apply_updates_atomic:
  assumes "plans_ok svc" "slot_order ord" "ApplyUpdates ord env us svc = (r, svc')"
  shows "case r of
      Inl e \<Rightarrow> svc' = svc
    | Inr ev \<Rightarrow>
        (\<forall>s. plan_Get s svc' = fold (apply_stamped env s) (slot_updates s us) (plan_Get s svc)) \<and>
        (\<forall>u \<in> set us. \<forall>s \<in> set (targets_of u). ae_currentSlot env < s \<and> ps_frozen svc s = None \<and>
           (\<forall>p. plan_Get s svc' = Some p \<longrightarrow>
              plan_Validate (ae_jqValid env) (ae_secondsPerSlot env) p = None)) \<and>
        card (\<Union>u \<in> set us. set (targets_of u)) \<le> 6400 \<and>
        sorted (pe_Slots ev) \<and>
        set (zip (pe_Slots ev) (pe_Plans ev)) =
          {(s, plan_Get s svc') | s. s \<in> (\<Union>u \<in> set us. set (targets_of u))} \<and>
        ps_frozen svc' = ps_frozen svc \<and> plans_ok svc'"
proof (cases r)
  case (Inl e)
  then show ?thesis using ApplyUpdates_Inl [of ord env us svc e] assms(3) by simp
next
  case (Inr ev)
  have keep: "\<not> keepExisting (ps_store svc)" using assms(1) by (simp add: plans_ok_def)
  obtain staged targeted where
    st: "stage_updates env svc 0 us ([], []) = Inr (staged, targeted)"
    and ok: "staging_ok env svc (staged, targeted)"
    and get: "\<forall>s. plan_Get s svc' = staged_view svc (staged, targeted) s"
    and fr: "ps_frozen svc' = ps_frozen svc"
    and ev: "sorted (pe_Slots ev)" "set (zip (pe_Slots ev) (pe_Plans ev)) = set staged"
    using ApplyUpdates_Inr [OF assms(3) [unfolded Inr] assms(2) keep] by blast
  have view: "plan_Get s svc' = fold (apply_stamped env s) (slot_updates s us) (plan_Get s svc)" for s
    using stage_updates_view [OF st, of s] get by (simp add: staged_view_def plan_Get_def)
  have targets: "set targeted = (\<Union>u \<in> set us. set (targets_of u))"
    using stage_updates_targets [OF st] by simp
  have keys: "set targeted = fst ` set staged" "distinct (map fst staged)" "distinct targeted"
    "length targeted \<le> 6400"
    using ok by (simp_all add: staging_ok_def)
  have at: "ae_currentSlot env < s \<and> ps_frozen svc s = None \<and> (\<forall>p. plan_Get s svc' = Some p \<longrightarrow>
      plan_Validate (ae_jqValid env) (ae_secondsPerSlot env) p = None)" if mem: "s \<in> set targeted" for s
  proof -
    obtain q where "map_of staged s = Some q"
      using mem keys(1) weak_map_of_SomeI by fastforce
    then show ?thesis using ok get by (auto simp: staging_ok_def staged_view_def)
  qed
  have evs: "set staged = {(s, plan_Get s svc') | s. s \<in> set targeted}"
    using keys(1,2) get by (force simp: staged_view_def map_of_eq_Some_iff)
  have "card (set targeted) \<le> 6400" using keys(3,4) by (simp add: distinct_card)
  moreover have "plans_ok svc'" using plans_ok_apply [OF assms(1,2)] assms(3) by (metis snd_conv)
  ultimately show ?thesis
    unfolding Inr sum.case targets [symmetric] using view at ev evs fr targets by auto
qed

text \<open>A request that sets the build category of slot 11.\<close>

definition demo_env :: apply_env where
  "demo_env = \<lparr>ae_jqValid = (\<lambda>_. True), ae_secondsPerSlot = 12000000000, ae_currentSlot = 10,
     ae_now = 5, ae_actor = ''op''\<rparr>"

definition demo_update :: PlanUpdate where
  "demo_update = no_update\<lparr>pu_Slots := [11], pu_Build := Some (JObj [(''reorg_parent_payload'', JBool True)])\<rparr>"

theorem apply_updates_atomic_witness:
  "\<exists>ev svc'. ApplyUpdates (\<lambda>ks. ks) demo_env [demo_update] NewPlanService = (Inr ev, svc') \<and>
     plans_ok svc' \<and> plan_Get 11 svc' \<noteq> None"
proof -
  have t: "TargetSlots demo_update = Inr [11]"
    by (simp add: TargetSlots_def demo_update_def no_update_def MaxSlotsPerUpdate_def)
  have dec: "dec_build (JObj [(''reorg_parent_payload'', JBool True)]) = Some \<lparr>bd_ReorgParentPayload = True\<rparr>"
    by (simp add: dec_build_def build_fields_def zero_build_def set_bool_def)
  have u: "ApplyUpdateToPlan None demo_update = Inr (Some (empty_plan\<lparr>sp_Build := Some \<lparr>bd_ReorgParentPayload = True\<rparr>\<rparr>))"
    by (simp add: ApplyUpdateToPlan_def demo_update_def no_update_def patch_step_def applyCategoryPatch_def
        isJSONNull_def dec applySetPaths_def drop_zero_def empty_plan_def build_isZero_def transform_isZero_def
        IsEmpty_def)
  have v: "plan_Validate (\<lambda>_. True) 12000000000
      (empty_plan\<lparr>sp_Build := Some \<lparr>bd_ReorgParentPayload = True\<rparr>, sp_Slot := 11, sp_UpdatedAt := 5, sp_UpdatedBy := ''op''\<rparr>) = None"
    by (simp add: plan_Validate_def dur_ms_def nanos_per_ms_def sdiv_nonneg empty_plan_def check_opt_def)
  have st: "\<exists>staged targeted. stage_updates demo_env NewPlanService 0 [demo_update] ([], []) = Inr (staged, targeted)"
    by (simp add: t stage_slot_def u v demo_env_def NewPlanService_def Get_def New_def newStore_def MaxSlotsPerUpdate_def)
  then obtain ev svc' where r: "ApplyUpdates (\<lambda>ks. ks) demo_env [demo_update] NewPlanService = (Inr ev, svc')"
    by (auto simp: ApplyUpdates_def Let_def)
  note p = apply_updates_atomic [OF plans_ok_New slot_order_id r, simplified]
  have "plan_Get 11 svc' \<noteq> None"
    using p by (simp add: slot_updates_def targets_of_def t apply_stamped_def u plan_Get_def
        NewPlanService_def Get_def New_def newStore_def)
  then show ?thesis using r p by blast
qed


section \<open>The next-n budget\<close>

text \<open>The scheduler's discipline: freeze a slot, build it if so decided, report it, go on.\<close>

fun build_slots :: "ChainSpec \<Rightarrow> Config \<Rightarrow> gotime \<Rightarrow> slot list \<Rightarrow> PlanService \<Rightarrow> nat \<times> PlanService" where
  "build_slots spec cfg now [] svc = (0, svc)"
| "build_slots spec cfg now (s # ss) svc =
     (let f = fst (Freeze spec cfg now s svc);
          svc1 = snd (Freeze spec cfg now s svc);
          svc2 = (if rb_Build (fp_Build f) then OnSlotBuilt s svc1 else svc1);
          unforced = (if rb_Build (fp_Build f) \<and> \<not> rb_Forced (fp_Build f) then 1 else 0)
      in (unforced + fst (build_slots spec cfg now ss svc2), snd (build_slots spec cfg now ss svc2)))"

lemma Freeze_fresh_next_n:
  assumes "ps_frozen svc s = None" "sc_Mode (cfg_Schedule cfg) = ScheduleModeNextN"
    and "rb_Build (fp_Build (fst (Freeze spec cfg now s svc)))"
    and "\<not> rb_Forced (fp_Build (fst (Freeze spec cfg now s svc)))"
  shows "ps_slotsBuilt svc < sc_NextN (cfg_Schedule cfg)"
  using assms
  by (auto simp: Freeze_def resolveFrozenPlan_def Let_def resolveBuild_Build resolveBuild_Forced schedule_takes_def)



end
