(* ===== verification/Signed_Messages.thy ===== *)
theory Signed_Messages
  imports Payload_Cache Bid_Tracker Chain_Spec
begin

text \<open>
  Construction and signing of the two messages the builder commits to, shared by both transports:
  \<open>pkg/signer/bls.go\<close> (signing domains), \<open>pkg/payload_bidder/signer.go\<close>, \<open>bid.go\<close> and \<open>reveal.go\<close>,
  and the p2p transport of a bid, \<open>pkg/p2p_bidder/bid_creator.go\<close>.

  The SSZ hash tree roots, the BLS secret key and the jq interpreter are third-party code: they are
  the fields of \<open>msg_lib\<close>, one function each, \<open>None\<close> where the Go function returns an error.  The
  execution payload and the execution requests are types of the beacon client library; the records
  have the fields the code reads, the rest of them is \<open>'x\<close> and \<open>'r\<close>.
\<close>

section \<open>The build objects of a payload\<close>

record 'x exec_payload =
  ep_Version :: DataVersion
  ep_GasLimit :: u64
  ep_Transactions :: "u8 list list"
  ep_Body :: 'x

record BlobsBundle =
  bb_Commitments :: "u8 list list"
  bb_Proofs :: "u8 list list"
  bb_Blobs :: "u8 list list"

record ('x, 'r) build_data =
  bd_ExecutionPayload :: "'x exec_payload"
  bd_ExecutionRequests :: "'r option"
  bd_BlobsBundle :: "BlobsBundle option"
  bd_ParentBlockHash :: hash32
  bd_ParentBlockRoot :: hash32
  bd_PrevRandao :: hash32

type_synonym ('x, 'r) built_payload = "('x, 'r) build_data payload"

section \<open>The messages\<close>

record bid_message =
  bm_Version :: DataVersion
  bm_ParentBlockHash :: hash32
  bm_ParentBlockRoot :: hash32
  bm_BlockHash :: hash32
  bm_PrevRandao :: hash32
  bm_FeeRecipient :: address20
  bm_GasLimit :: u64
  bm_BuilderIndex :: u64
  bm_Slot :: slot
  bm_Value :: gwei
  bm_ExecutionPayment :: gwei
  bm_BlobKZGCommitments :: "u8 list list"
  bm_ExecutionRequestsRoot :: hash32
  bm_InclusionListBits :: "u8 list"

record ('x, 'r) envelope_message =
  em_Version :: DataVersion
  em_Payload :: "'x exec_payload"
  em_ExecutionRequests :: "'r option"
  em_BuilderIndex :: u64
  em_BeaconBlockRoot :: hash32
  em_ParentBeaconBlockRoot :: hash32

record 'm signed_message =
  sm_Version :: DataVersion
  sm_Message :: 'm
  sm_Signature :: "u8 list"

type_synonym SignedBid = "bid_message signed_message"
type_synonym ('x, 'r) SignedEnvelope = "('x, 'r) envelope_message signed_message"

record ('x, 'r) msg_lib =
  lib_forkDataRoot :: "u8 list \<Rightarrow> hash32 \<Rightarrow> hash32 option"
  lib_signingDataRoot :: "hash32 \<Rightarrow> u8 list \<Rightarrow> hash32 option"
  lib_signByte :: "u8 list \<Rightarrow> u8 list"
  lib_requestsRoot :: "'r \<Rightarrow> hash32 option"
  lib_emptyRequests :: "DataVersion \<Rightarrow> 'r"
  lib_bidRoot :: "bid_message \<Rightarrow> hash32 option"
  lib_envelopeRoot :: "('x, 'r) envelope_message \<Rightarrow> hash32 option"
  lib_jqBid :: "string \<Rightarrow> bid_message \<Rightarrow> bid_message option"
  lib_jqEnvelope :: "string \<Rightarrow> ('x, 'r) envelope_message \<Rightarrow> ('x, 'r) envelope_message option"

section \<open>Signing\<close>

definition zero_root :: hash32 where
  "zero_root = replicate 32 0"

definition DomainBeaconBuilder :: "u8 list" where
  "DomainBeaconBuilder = [11, 0, 0, 0]"

definition ComputeDomain :: "('x, 'r) msg_lib \<Rightarrow> u8 list \<Rightarrow> u8 list \<Rightarrow> hash32 \<Rightarrow> u8 list" where
  "ComputeDomain lib domainType forkVersion genesisValidatorsRoot =
     (case lib_forkDataRoot lib forkVersion genesisValidatorsRoot of
        None \<Rightarrow> zero_root
      | Some forkDataRoot \<Rightarrow> take 4 domainType @ take 28 forkDataRoot)"

definition ComputeSigningRoot :: "('x, 'r) msg_lib \<Rightarrow> hash32 \<Rightarrow> u8 list \<Rightarrow> hash32" where
  "ComputeSigningRoot lib objectRoot domain =
     (case lib_signingDataRoot lib objectRoot domain of None \<Rightarrow> zero_root | Some root \<Rightarrow> root)"

definition SignWithDomain :: "('x, 'r) msg_lib \<Rightarrow> hash32 \<Rightarrow> u8 list \<Rightarrow> u8 list" where
  "SignWithDomain lib root domain = lib_signByte lib (ComputeSigningRoot lib root domain)"

definition sign_root :: "('x, 'r) msg_lib \<Rightarrow> hash32 option \<Rightarrow> u8 list \<Rightarrow> hash32 \<Rightarrow> u8 list option" where
  "sign_root lib msgRoot forkVersion genesisValidatorsRoot =
     map_option (\<lambda>root. SignWithDomain lib root
       (ComputeDomain lib DomainBeaconBuilder forkVersion genesisValidatorsRoot)) msgRoot"

definition SignBid :: "('x, 'r) msg_lib \<Rightarrow> bid_message \<Rightarrow> u8 list \<Rightarrow> hash32 \<Rightarrow> u8 list option" where
  "SignBid lib bid = sign_root lib (lib_bidRoot lib bid)"

definition SignEnvelope ::
  "('x, 'r) msg_lib \<Rightarrow> ('x, 'r) envelope_message \<Rightarrow> u8 list \<Rightarrow> hash32 \<Rightarrow> u8 list option" where
  "SignEnvelope lib envelope = sign_root lib (lib_envelopeRoot lib envelope)"

section \<open>Bids\<close>

datatype message_error = RequestsRootFailed | TransformFailed | SignFailed | ForkVersionFailed | SubmitFailed

record BidParams =
  bp_BuilderIndex :: u64
  bp_FeeRecipient :: address20
  bp_Value :: gwei
  bp_ExecutionPayment :: gwei
  bp_Transform :: string

definition bid_of :: "('x, 'r) built_payload \<Rightarrow> BidParams \<Rightarrow> hash32 \<Rightarrow> bid_message" where
  "bid_of p params execRequestsRoot =
     (let b = p_build p in
      \<lparr>bm_Version = ep_Version (bd_ExecutionPayload b),
       bm_ParentBlockHash = bd_ParentBlockHash b,
       bm_ParentBlockRoot = bd_ParentBlockRoot b,
       bm_BlockHash = p_BlockHash p,
       bm_PrevRandao = bd_PrevRandao b,
       bm_FeeRecipient = bp_FeeRecipient params,
       bm_GasLimit = ep_GasLimit (bd_ExecutionPayload b),
       bm_BuilderIndex = bp_BuilderIndex params,
       bm_Slot = p_ProposalSlot p,
       bm_Value = bp_Value params,
       bm_ExecutionPayment = bp_ExecutionPayment params,
       bm_BlobKZGCommitments = (case bd_BlobsBundle b of None \<Rightarrow> [] | Some bb \<Rightarrow> bb_Commitments bb),
       bm_ExecutionRequestsRoot = execRequestsRoot,
       bm_InclusionListBits = [255, 255]\<rparr>)"

definition bid_requests :: "('x, 'r) msg_lib \<Rightarrow> ('x, 'r) built_payload \<Rightarrow> 'r" where
  "bid_requests lib p =
     (case bd_ExecutionRequests (p_build p) of
        None \<Rightarrow> lib_emptyRequests lib (ep_Version (bd_ExecutionPayload (p_build p)))
      | Some r \<Rightarrow> r)"

definition BuildSignedBid ::
  "('x, 'r) msg_lib \<Rightarrow> ('x, 'r) built_payload \<Rightarrow> BidParams \<Rightarrow> u8 list \<Rightarrow> hash32 \<Rightarrow> message_error + SignedBid" where
  "BuildSignedBid lib p params forkVersion genesisValidatorsRoot =
     (case lib_requestsRoot lib (bid_requests lib p) of
        None \<Rightarrow> Inl RequestsRootFailed
      | Some execRequestsRoot \<Rightarrow>
          (let bid = bid_of p params execRequestsRoot in
           case (if bp_Transform params \<noteq> [] then lib_jqBid lib (bp_Transform params) bid else Some bid) of
             None \<Rightarrow> Inl TransformFailed
           | Some bid \<Rightarrow>
               (case SignBid lib bid forkVersion genesisValidatorsRoot of
                  None \<Rightarrow> Inl SignFailed
                | Some sig \<Rightarrow> Inr \<lparr>sm_Version = bm_Version bid, sm_Message = bid, sm_Signature = sig\<rparr>)))"

text \<open>
  The p2p transport.  \<open>submit\<close> is the beacon node's answer to the submission, \<open>now\<close> the clock when
  the bid is recorded.  The result is the signed bid (also when only the submission failed), the
  error, and the payload heap, where a submitted bid is appended to the activity log.
\<close>

definition CreateAndSubmitBid ::
  "('x, 'r) msg_lib \<Rightarrow> ChainSpec \<Rightarrow> hash32 \<Rightarrow> u64 \<Rightarrow> (SignedBid \<Rightarrow> bool) \<Rightarrow> gotime \<Rightarrow> payload_ref \<Rightarrow> u64 \<Rightarrow> string \<Rightarrow>
   ('x, 'r) build_data payload_heap \<Rightarrow>
   SignedBid option \<times> message_error option \<times> ('x, 'r) build_data payload_heap" where
  "CreateAndSubmitBid lib spec genesisValidatorsRoot builderIndex submit now ref bidValue bidTransform h =
     (let payload = h ref;
          targetFork = ActiveForkAtEpoch spec (GetEpochOfSlot spec (p_ProposalSlot payload)) in
      case spec_GetForkVersion spec targetFork of
        None \<Rightarrow> (None, Some ForkVersionFailed, h)
      | Some forkVersion \<Rightarrow>
          (case BuildSignedBid lib payload
                  \<lparr>bp_BuilderIndex = builderIndex, bp_FeeRecipient = p_FeeRecipient payload,
                   bp_Value = bidValue, bp_ExecutionPayment = 0, bp_Transform = bidTransform\<rparr>
                  forkVersion genesisValidatorsRoot of
             Inl e \<Rightarrow> (None, Some e, h)
           | Inr signedBid \<Rightarrow>
               (if \<not> submit signedBid then (Some signedBid, Some SubmitFailed, h)
                else (Some signedBid, None,
                  AddBid ref \<lparr>br_Transport = BidTransportP2P, br_Value = bidValue,
                    br_ExecutionPayment = 0, br_At = now\<rparr> h))))"

section \<open>Envelopes\<close>

record RevealContext =
  rx_BuilderIndex :: u64
  rx_BeaconBlockRoot :: hash32
  rx_ParentBeaconBlockRoot :: hash32
  rx_Transform :: string

definition envelope_of :: "('x, 'r) built_payload \<Rightarrow> RevealContext \<Rightarrow> ('x, 'r) envelope_message" where
  "envelope_of p rc =
     \<lparr>em_Version = ep_Version (bd_ExecutionPayload (p_build p)),
      em_Payload = bd_ExecutionPayload (p_build p),
      em_ExecutionRequests = bd_ExecutionRequests (p_build p),
      em_BuilderIndex = rx_BuilderIndex rc,
      em_BeaconBlockRoot = rx_BeaconBlockRoot rc,
      em_ParentBeaconBlockRoot = rx_ParentBeaconBlockRoot rc\<rparr>"

definition transform_envelope ::
  "('x, 'r) msg_lib \<Rightarrow> string \<Rightarrow> ('x, 'r) envelope_message \<Rightarrow> ('x, 'r) envelope_message option" where
  "transform_envelope lib transform envelope =
     (if transform = [] then Some envelope
      else lib_jqEnvelope lib transform
        (if em_ExecutionRequests envelope = None
         then envelope\<lparr>em_ExecutionRequests := Some (lib_emptyRequests lib (em_Version envelope))\<rparr>
         else envelope))"

definition envelope_blobs :: "('x, 'r) built_payload \<Rightarrow> u8 list list \<times> u8 list list" where
  "envelope_blobs p =
     (case bd_BlobsBundle (p_build p) of
        None \<Rightarrow> ([], [])
      | Some bb \<Rightarrow> if bb_Blobs bb = [] then ([], []) else (bb_Blobs bb, bb_Proofs bb))"

definition BuildSignedEnvelope ::
  "('x, 'r) msg_lib \<Rightarrow> ('x, 'r) built_payload \<Rightarrow> RevealContext \<Rightarrow> u8 list \<Rightarrow> hash32 \<Rightarrow>
   message_error + (('x, 'r) SignedEnvelope \<times> u8 list list \<times> u8 list list)" where
  "BuildSignedEnvelope lib p rc forkVersion genesisValidatorsRoot =
     (case transform_envelope lib (rx_Transform rc) (envelope_of p rc) of
        None \<Rightarrow> Inl TransformFailed
      | Some envelope \<Rightarrow>
          (case SignEnvelope lib envelope forkVersion genesisValidatorsRoot of
             None \<Rightarrow> Inl SignFailed
           | Some sig \<Rightarrow>
               Inr (\<lparr>sm_Version = em_Version envelope, sm_Message = envelope, sm_Signature = sig\<rparr>,
                    envelope_blobs p)))"

section \<open>What a signature covers\<close>

text \<open>
  The signature that a verifier of the consensus layer accepts: the builder key's signature of the
  signing root of the message under the builder domain of a fork version.
\<close>

definition signed_under :: "('x, 'r) msg_lib \<Rightarrow> hash32 option \<Rightarrow> u8 list \<Rightarrow> hash32 \<Rightarrow> u8 list \<Rightarrow> bool" where
  "signed_under lib msgRoot forkVersion gvr sig \<longleftrightarrow>
     (\<exists>root. msgRoot = Some root \<and>
        sig = lib_signByte lib (ComputeSigningRoot lib root (ComputeDomain lib DomainBeaconBuilder forkVersion gvr)))"

lemma sign_root_signed_under: "sign_root lib r v g = Some sig \<Longrightarrow> signed_under lib r v g sig"
  by (auto simp: sign_root_def signed_under_def SignWithDomain_def)

lemma BuildSignedBid_Inr:
  assumes "BuildSignedBid lib p params v g = Inr sb"
  shows "\<exists>root. lib_requestsRoot lib (bid_requests lib p) = Some root \<and>
      Some (sm_Message sb) = (if bp_Transform params \<noteq> [] then lib_jqBid lib (bp_Transform params) (bid_of p params root)
                              else Some (bid_of p params root)) \<and>
      sm_Version sb = bm_Version (sm_Message sb) \<and>
      signed_under lib (lib_bidRoot lib (sm_Message sb)) v g (sm_Signature sb)"
proof -
  obtain root where r: "lib_requestsRoot lib (bid_requests lib p) = Some root"
    using assms by (cases "lib_requestsRoot lib (bid_requests lib p)") (auto simp: BuildSignedBid_def)
  let ?b = "if bp_Transform params \<noteq> [] then lib_jqBid lib (bp_Transform params) (bid_of p params root)
            else Some (bid_of p params root)"
  obtain bid where b: "?b = Some bid"
    using assms r by (cases ?b) (auto simp: BuildSignedBid_def Let_def)
  obtain sig where s: "SignBid lib bid v g = Some sig"
    using assms r b by (cases "SignBid lib bid v g") (auto simp: BuildSignedBid_def Let_def)
  have sb: "sb = \<lparr>sm_Version = bm_Version bid, sm_Message = bid, sm_Signature = sig\<rparr>"
    using assms by (simp add: BuildSignedBid_def r Let_def b s)
  show ?thesis
    using r b sign_root_signed_under [OF s [unfolded SignBid_def]] by (simp add: sb)
qed

lemma BuildSignedEnvelope_Inr:
  assumes "BuildSignedEnvelope lib p rc v g = Inr (env, blobs, proofs)"
  shows "transform_envelope lib (rx_Transform rc) (envelope_of p rc) = Some (sm_Message env) \<and>
      sm_Version env = em_Version (sm_Message env) \<and>
      signed_under lib (lib_envelopeRoot lib (sm_Message env)) v g (sm_Signature env) \<and>
      (blobs, proofs) = envelope_blobs p"
  using assms sign_root_signed_under [of lib]
  by (auto simp: BuildSignedEnvelope_def SignEnvelope_def split: option.splits)

section \<open>A concrete library and payload\<close>

text \<open>Instances used to evaluate the definitions on concrete inputs.\<close>

definition demo_lib :: "(unit, unit) msg_lib" where
  "demo_lib = \<lparr>lib_forkDataRoot = (\<lambda>v g. Some (v @ replicate 28 0)), lib_signingDataRoot = (\<lambda>r d. Some (r @ d)),
     lib_signByte = (\<lambda>m. 1 # m), lib_requestsRoot = (\<lambda>_. Some [7]), lib_emptyRequests = (\<lambda>_. ()),
     lib_bidRoot = (\<lambda>m. Some (bm_BlockHash m)), lib_envelopeRoot = (\<lambda>m. Some (em_BeaconBlockRoot m)),
     lib_jqBid = (\<lambda>_ _. None), lib_jqEnvelope = (\<lambda>_ _. None)\<rparr>"

definition demo_built :: "slot \<Rightarrow> (unit, unit) built_payload" where
  "demo_built s = \<lparr>p_ProposalSlot = s,
     p_build = \<lparr>bd_ExecutionPayload = \<lparr>ep_Version = DataVersionGloas, ep_GasLimit = 30, ep_Transactions = [], ep_Body = ()\<rparr>,
       bd_ExecutionRequests = None, bd_BlobsBundle = None, bd_ParentBlockHash = [1], bd_ParentBlockRoot = [2],
       bd_PrevRandao = [3]\<rparr>,
     p_BlockHash = [ucast s], p_FeeRecipient = [9], p_BlockValue = 5000000000, p_ReadyAt = 0,
     p_activity = \<lparr>act_bids = [], act_reveal = None\<rparr>\<rparr>"

section \<open>Properties\<close>


end
