(* ===== verification/Builder_Info.thy ===== *)
theory Builder_Info
  imports Chain_Spec
begin

text \<open>
  The builder registry as \<open>pkg/chain\<close> reads it from a beacon state: \<open>constants.go\<close> and the
  extraction functions of \<open>state.go\<close>.  The registry entries are types of the beacon client
  library; the records below have the fields the code reads, a nil entry is \<open>None\<close>.  The slice of
  builder pointers that \<open>applyPendingPayments\<close> writes through is updated in place, so the function
  returns the updated list.
\<close>

type_synonym bls_pubkey = "u8 list"

definition FarFutureEpoch :: u64 where
  "FarFutureEpoch = max_u64"

definition BuilderIndexFlag :: u64 where
  "BuilderIndexFlag = 1099511627776"

record BuilderInfo =
  bi_Index :: u64
  bi_Pubkey :: bls_pubkey
  bi_Balance :: u64
  bi_Active :: bool
  bi_DepositEpoch :: u64
  bi_WithdrawableEpoch :: u64
  bi_PendingPayments :: u64

record gloas_Builder =
  gb_PublicKey :: bls_pubkey
  gb_Balance :: u64
  gb_DepositEpoch :: u64
  gb_WithdrawableEpoch :: u64

text \<open>A pending payment: the builder index and the amount of its withdrawal, if it has one.\<close>

record BuilderPendingPayment =
  pay_Withdrawal :: "(u64 \<times> gwei) option"

record PendingDeposit =
  pd_Pubkey :: bls_pubkey
  pd_Amount :: gwei
  pd_Slot :: slot

record PendingDepositInfo =
  di_Pubkey :: bls_pubkey
  di_Amount :: u64
  di_Slot :: slot

definition IsBuilderActive :: "BuilderInfo option \<Rightarrow> u64 \<Rightarrow> bool" where
  "IsBuilderActive info finalizedEpoch =
     (case info of None \<Rightarrow> False
      | Some i \<Rightarrow> bi_DepositEpoch i < finalizedEpoch \<and> bi_WithdrawableEpoch i = FarFutureEpoch)"

definition HasBuilderExited :: "BuilderInfo option \<Rightarrow> bool" where
  "HasBuilderExited info = (case info of None \<Rightarrow> False | Some i \<Rightarrow> bi_WithdrawableEpoch i \<noteq> FarFutureEpoch)"

definition zero_pubkey :: bls_pubkey where
  "zero_pubkey = replicate 48 0"

definition builderToInfo :: "u64 \<Rightarrow> gloas_Builder option \<Rightarrow> BuilderInfo" where
  "builderToInfo index builder =
     (case builder of
        None \<Rightarrow> \<lparr>bi_Index = index, bi_Pubkey = zero_pubkey, bi_Balance = 0, bi_Active = False,
                 bi_DepositEpoch = 0, bi_WithdrawableEpoch = 0, bi_PendingPayments = 0\<rparr>
      | Some b \<Rightarrow> \<lparr>bi_Index = index, bi_Pubkey = gb_PublicKey b, bi_Balance = gb_Balance b,
                   bi_Active = (gb_WithdrawableEpoch b = FarFutureEpoch),
                   bi_DepositEpoch = gb_DepositEpoch b, bi_WithdrawableEpoch = gb_WithdrawableEpoch b,
                   bi_PendingPayments = 0\<rparr>)"

definition extractBuilders :: "gloas_Builder option list \<Rightarrow> BuilderInfo list" where
  "extractBuilders builders = map (\<lambda>i. builderToInfo (of_nat i) (builders ! i)) [0..<length builders]"

definition apply_payment :: "BuilderPendingPayment option \<Rightarrow> BuilderInfo list \<Rightarrow> BuilderInfo list" where
  "apply_payment payment builders =
     (case Option.bind payment pay_Withdrawal of
        None \<Rightarrow> builders
      | Some (idx, amount) \<Rightarrow>
          if amount = 0 then builders
          else if idx \<ge> of_nat (length builders) then builders
          else builders[unat idx := (builders ! unat idx)
                 \<lparr>bi_PendingPayments := bi_PendingPayments (builders ! unat idx) + amount\<rparr>])"

definition applyPendingPayments ::
  "BuilderInfo list \<Rightarrow> BuilderPendingPayment option list \<Rightarrow> BuilderInfo list" where
  "applyPendingPayments builders payments =
     (if payments = [] \<or> builders = [] then builders else fold apply_payment payments builders)"

definition extractPendingDeposits :: "PendingDeposit option list \<Rightarrow> PendingDepositInfo list" where
  "extractPendingDeposits deposits =
     List.map_filter (map_option (\<lambda>d. \<lparr>di_Pubkey = pd_Pubkey d, di_Amount = pd_Amount d, di_Slot = pd_Slot d\<rparr>))
       deposits"

text \<open>The lookups of the chain service in the current epoch's registry.\<close>

definition builder_by_pubkey :: "bls_pubkey \<Rightarrow> BuilderInfo list \<Rightarrow> BuilderInfo option" where
  "builder_by_pubkey pk builders = find (\<lambda>b. bi_Pubkey b = pk) builders"

definition builder_by_index :: "u64 \<Rightarrow> BuilderInfo list \<Rightarrow> BuilderInfo option" where
  "builder_by_index i builders =
     (if i \<ge> of_nat (length builders) then None else Some (builders ! unat i))"

section \<open>Lemmas\<close>

text \<open>The amounts that the payments of a list owe to the builder at an index.\<close>

definition owed :: "u64 \<Rightarrow> BuilderPendingPayment option list \<Rightarrow> u64" where
  "owed i payments = sum_list (map (\<lambda>p. case Option.bind p pay_Withdrawal of
     None \<Rightarrow> 0 | Some (idx, amount) \<Rightarrow> if idx = i then amount else 0) payments)"

lemma length_apply_payment [simp]: "length (apply_payment p bs) = length bs"
  by (simp add: apply_payment_def split: option.splits prod.splits)

lemma unat_of_nat_len:
  assumes "length bs < 2 ^ 64"
  shows "unat (of_nat (length bs) :: u64) = length bs"
  using assms by (simp add: unat_of_nat)

lemma apply_payment_nth:
  assumes "length bs < 2 ^ 64" "n < length bs"
  shows "apply_payment p bs ! n = (bs ! n)\<lparr>bi_PendingPayments := bi_PendingPayments (bs ! n) + owed (of_nat n) [p]\<rparr>"
proof (cases "Option.bind p pay_Withdrawal")
  case None
  then show ?thesis by (simp add: apply_payment_def owed_def)
next
  case (Some w)
  obtain idx amount where w: "w = (idx, amount)" by (cases w)
  have n: "unat (of_nat n :: u64) = n" using assms by (simp add: unat_of_nat)
  have lt: "idx \<ge> of_nat (length bs) \<longleftrightarrow> length bs \<le> unat idx"
    by (simp add: word_le_nat_alt unat_of_nat_len [OF assms(1)])
  have "idx = of_nat n \<longleftrightarrow> unat idx = n" using n by (metis word_unat_eq_iff)
  then show ?thesis
    using Some w assms(2) lt by (auto simp: apply_payment_def owed_def nth_list_update)
qed

lemma owed_Cons: "owed i (p # ps) = owed i [p] + owed i ps"
  by (simp add: owed_def)

lemma apply_payments_nth:
  assumes "length bs < 2 ^ 64" "n < length bs"
  shows "fold apply_payment ps bs ! n = (bs ! n)\<lparr>bi_PendingPayments := bi_PendingPayments (bs ! n) + owed (of_nat n) ps\<rparr>
    \<and> length (fold apply_payment ps bs) = length bs"
  using assms
proof (induction ps arbitrary: bs)
  case Nil
  then show ?case by (simp add: owed_def)
next
  case (Cons p ps)
  then show ?case
    using Cons.IH [of "apply_payment p bs"] apply_payment_nth [of bs n p]
    by (simp add: owed_Cons [of _ p ps] add.assoc)
qed

section \<open>Properties\<close>

text \<open>
  The registry read from a state.  Every builder keeps its position as its index and its
  fields, a nil entry never counts as active, and its pending payments are the sum (modulo 2^64) of
  the payments owed to its index; payments to indices outside the registry are ignored.  Active
  and exited exclude each other.\<close>
theorem builder_registry:
  assumes "length builders < 2 ^ 64" "n < length builders"
  shows "let infos = applyPendingPayments (extractBuilders builders) payments; info = infos ! n in
     length infos = length builders \<and>
     builder_by_index (of_nat n) infos = Some info \<and>
     bi_Index info = of_nat n \<and>
     bi_PendingPayments info = owed (of_nat n) payments \<and>
     (case builders ! n of
        None \<Rightarrow> \<not> IsBuilderActive (Some info) finalized
      | Some b \<Rightarrow> bi_Pubkey info = gb_PublicKey b \<and> bi_Balance info = gb_Balance b \<and>
          (bi_Active info \<longleftrightarrow> gb_WithdrawableEpoch b = FarFutureEpoch)) \<and>
     (IsBuilderActive (Some info) finalized \<longleftrightarrow>
        bi_DepositEpoch info < finalized \<and> \<not> HasBuilderExited (Some info))"
proof -
  let ?bs = "extractBuilders builders"
  have len: "length ?bs = length builders" by (simp add: extractBuilders_def)
  have n: "?bs ! n = builderToInfo (of_nat n) (builders ! n)"
    using assms(2) by (simp add: extractBuilders_def)
  have info: "applyPendingPayments ?bs payments ! n =
      (?bs ! n)\<lparr>bi_PendingPayments := bi_PendingPayments (?bs ! n) + owed (of_nat n) payments\<rparr>"
    "length (applyPendingPayments ?bs payments) = length builders"
    using apply_payments_nth [of ?bs n payments] assms len
    by (auto simp: applyPendingPayments_def owed_def)
  have un: "unat (of_nat n :: u64) = n" using assms by (simp add: unat_of_nat)
  have idx: "builder_by_index (of_nat n) (applyPendingPayments ?bs payments) =
      Some (applyPendingPayments ?bs payments ! n)"
    using assms by (simp add: builder_by_index_def info(2) word_le_nat_alt un unat_of_nat_len)
  have pp: "bi_PendingPayments (?bs ! n) = 0" by (simp add: n builderToInfo_def split: option.splits)
  show ?thesis
    unfolding Let_def
    by (auto simp: idx info pp n builderToInfo_def IsBuilderActive_def HasBuilderExited_def
        FarFutureEpoch_def max_u64_def split: option.splits)
qed

theorem builder_registry_witness:
  "bi_PendingPayments (applyPendingPayments
     (extractBuilders [None, Some \<lparr>gb_PublicKey = [1], gb_Balance = 50, gb_DepositEpoch = 3, gb_WithdrawableEpoch = FarFutureEpoch\<rparr>])
     [Some \<lparr>pay_Withdrawal = Some (1, 20)\<rparr>, None, Some \<lparr>pay_Withdrawal = Some (1, 5)\<rparr>, Some \<lparr>pay_Withdrawal = Some (9, 7)\<rparr>] ! 1) = 25"
  using builder_registry [of "[None, Some \<lparr>gb_PublicKey = [1], gb_Balance = 50, gb_DepositEpoch = 3, gb_WithdrawableEpoch = FarFutureEpoch\<rparr>]" 1
      "[Some \<lparr>pay_Withdrawal = Some (1, 20)\<rparr>, None, Some \<lparr>pay_Withdrawal = Some (1, 5)\<rparr>, Some \<lparr>pay_Withdrawal = Some (9, 7)\<rparr>]" 0]
  by (simp add: Let_def owed_def)

end
