(* ===== verification/Bid_Scheduler.thy ===== *)
theory Bid_Scheduler
  imports Signed_Messages Plan_Service Builder_Info
begin

text \<open>
  The time-based bid scheduler, \<open>pkg/p2p_bidder/scheduler.go\<close>, with every component it drives: the
  action plan service (freezing the slot), the payload cache and heap, the bid creator, the bid
  tracker, the submission events and the counter of submitted bids.

  The zero \<open>time.Time\<close> of a slot that was never bid on is \<open>None\<close>: \<open>time.Since\<close> of it saturates.
  Every reading of the clock and the order of the scan over competitor bids are inputs
  (\<open>bid_oracle\<close>).  What a tick reads from the rest of the program (configuration, payload cache,
  proposer preferences, the registry snapshot) may differ from tick to tick: \<open>bid_env\<close>.
\<close>

section \<open>State\<close>

record SlotState =
  ss_LastBidTime :: "gotime option"
  ss_LastBidHash :: hash32
  ss_BidCount :: int
  ss_BidsClosed :: bool
  ss_NoPrefsWarnedFor :: bool
  ss_Frozen :: "FrozenPlan option"

definition zero_SlotState :: SlotState where
  "zero_SlotState = \<lparr>ss_LastBidTime = None, ss_LastBidHash = zero_root, ss_BidCount = 0,
     ss_BidsClosed = False, ss_NoPrefsWarnedFor = False, ss_Frozen = None\<rparr>"

datatype BidStatus = BidStatusNone | BidStatusSubmitted | BidStatusConstructed | BidStatusFailed

datatype BidWarning = NoWarning | BidSkippedNoPrefs | BidSentWithoutPrefs

record BidSubmissionEvent =
  be_Slot :: slot
  be_BlockHash :: hash32
  be_Value :: u64
  be_BidCount :: int
  be_Success :: bool
  be_Warning :: BidWarning
  be_Error :: "message_error option"
  be_Status :: BidStatus
  be_SignedBid :: "SignedBid option"
  be_CompetitorHighGwei :: "u64 option"

record ('x, 'r) Scheduler =
  sd_slotStates :: "slot \<rightharpoonup> SlotState"
  sd_planSvc :: PlanService
  sd_bidTracker :: BidTracker
  sd_builderIndex :: u64
  sd_heap :: "('x, 'r) build_data payload_heap"
  sd_events :: "BidSubmissionEvent list"
  sd_bidsSubmitted :: u64

record ('x, 'r, 'p) bid_env =
  en_lib :: "('x, 'r) msg_lib"
  en_spec :: ChainSpec
  en_genesisTime :: gotime
  en_genesisRoot :: hash32
  en_cfg :: Config
  en_pubkey :: bls_pubkey
  en_cache :: PayloadCache
  en_prefs :: "(slot, 'p) store option"
  en_builders :: "BuilderInfo list"
  en_finalized :: epoch
  en_submit :: "SignedBid \<Rightarrow> bool"

record bid_oracle =
  or_freezeAt :: gotime
  or_sinceAt :: gotime
  or_bidAt :: gotime
  or_order :: "u64 list"

section \<open>Operations\<close>

definition slot_state :: "slot \<Rightarrow> ('x, 'r) Scheduler \<Rightarrow> SlotState" where
  "slot_state s sd = (case sd_slotStates sd s of Some st \<Rightarrow> st | None \<Rightarrow> zero_SlotState)"

definition set_slot_state :: "slot \<Rightarrow> SlotState \<Rightarrow> ('x, 'r) Scheduler \<Rightarrow> ('x, 'r) Scheduler" where
  "set_slot_state s st sd = sd\<lparr>sd_slotStates := (sd_slotStates sd)(s \<mapsto> st)\<rparr>"

definition getSlotState :: "slot \<Rightarrow> ('x, 'r) Scheduler \<Rightarrow> SlotState \<times> ('x, 'r) Scheduler" where
  "getSlotState s sd =
     (case sd_slotStates sd s of
        Some st \<Rightarrow> (st, sd)
      | None \<Rightarrow> (zero_SlotState, set_slot_state s zero_SlotState sd))"

definition FireBidSubmission :: "BidSubmissionEvent \<Rightarrow> ('x, 'r) Scheduler \<Rightarrow> ('x, 'r) Scheduler" where
  "FireBidSubmission event sd = sd\<lparr>sd_events := sd_events sd @ [event]\<rparr>"

definition OnHeadEvent :: "slot \<Rightarrow> ('x, 'r) Scheduler \<Rightarrow> ('x, 'r) Scheduler" where
  "OnHeadEvent s sd =
     (case getSlotState s sd of (st, sd) \<Rightarrow>
        if \<not> ss_BidsClosed st then set_slot_state s (st\<lparr>ss_BidsClosed := True\<rparr>) sd else sd)"

definition weiToGweiClamped :: "int option \<Rightarrow> u64" where
  "weiToGweiClamped wei =
     (case wei of None \<Rightarrow> 0
      | Some w \<Rightarrow> (let g = w div 1000000000 in
          if 0 \<le> g \<and> g < 18446744073709551616 then word_of_int g else max_u64))"

definition addGweiClamped :: "u64 \<Rightarrow> u64 \<Rightarrow> u64" where
  "addGweiClamped a b = (if uint a + uint b \<ge> 18446744073709551616 then max_u64 else a + b)"

definition mulGweiClamped :: "u64 \<Rightarrow> u64 \<Rightarrow> u64" where
  "mulGweiClamped a b = (if uint a * uint b \<ge> 18446744073709551616 then max_u64 else a * b)"

definition effectiveBidSettings ::
  "('x, 'r, 'p) bid_env \<Rightarrow> gotime \<Rightarrow> slot \<Rightarrow> ('x, 'r) Scheduler \<Rightarrow>
   ResolvedBidSettings option \<times> ('x, 'r) Scheduler" where
  "effectiveBidSettings env now s sd =
     (case getSlotState s sd of (st, sd) \<Rightarrow>
        case ss_Frozen st of
          Some frozen \<Rightarrow> (fp_Bid frozen, sd)
        | None \<Rightarrow>
            (case Freeze (en_spec env) (en_cfg env) now s (sd_planSvc sd) of (frozen, plan) \<Rightarrow>
               case getSlotState s (sd\<lparr>sd_planSvc := plan\<rparr>) of (st, sd) \<Rightarrow>
                 (fp_Bid frozen, set_slot_state s (st\<lparr>ss_Frozen := Some frozen\<rparr>) sd)))"

definition time_since :: "gotime \<Rightarrow> gotime option \<Rightarrow> duration" where
  "time_since now t = (case t of None \<Rightarrow> max_i64 | Some t \<Rightarrow> time_sub now t)"

text \<open>The interval rule, or the rule of single bid mode.\<close>

definition bid_due :: "ResolvedBidSettings \<Rightarrow> gotime \<Rightarrow> hash32 \<Rightarrow> SlotState \<Rightarrow> bool" where
  "bid_due bidSettings now blockHash st =
     (if rs_IntervalMs bidSettings > 0
      then \<not> time_since now (ss_LastBidTime st) < dur_mul (rs_IntervalMs bidSettings) nanos_per_ms
      else \<not> (ss_BidCount st > 0 \<and> ss_LastBidHash st = blockHash))"

definition bid_value_of :: "ResolvedBidSettings \<Rightarrow> int option \<Rightarrow> int \<Rightarrow> u64" where
  "bid_value_of bidSettings blockValue bidCount =
     (let bidBase = (case rs_ValueGwei bidSettings of
                       Some v \<Rightarrow> v
                     | None \<Rightarrow> addGweiClamped (max (weiToGweiClamped blockValue) (rs_MinGwei bidSettings))
                                 (rs_SubsidyGwei bidSettings))
      in if rs_IntervalMs bidSettings > 0 \<and> bidCount > 0
         then addGweiClamped bidBase (mulGweiClamped (u64_of_i64 bidCount) (rs_IncreaseGwei bidSettings))
         else bidBase)"

datatype bid_decision = NoBid | SkipNoPrefs payload_ref | PlaceBid ResolvedBidSettings payload_ref bool

definition bid_decide ::
  "('x, 'r, 'p) bid_env \<Rightarrow> gotime \<Rightarrow> slot \<Rightarrow> i64 \<Rightarrow> ResolvedBidSettings option \<Rightarrow> ('x, 'r) Scheduler \<Rightarrow>
   bid_decision" where
  "bid_decide env since s msRelativeToSlot settings sd =
     (case settings of None \<Rightarrow> NoBid | Some bidSettings \<Rightarrow>
        if msRelativeToSlot < rs_StartMs bidSettings \<or> msRelativeToSlot \<ge> rs_EndMs bidSettings then NoBid
        else case cache_Get s (en_cache env) of None \<Rightarrow> NoBid | Some payload \<Rightarrow>
          (let prefsMissing = (case en_prefs env of None \<Rightarrow> True | Some store \<Rightarrow> \<not> Has s store);
               prefsBypassed = (prefsMissing \<and> rs_IgnoreMissingPrefs bidSettings);
               st = slot_state s sd
           in if prefsMissing \<and> \<not> prefsBypassed then SkipNoPrefs payload
              else if ss_BidsClosed st then NoBid
              else if \<not> bid_due bidSettings since (p_BlockHash (sd_heap sd payload)) st then NoBid
              else PlaceBid bidSettings payload prefsBypassed))"

definition skip_no_prefs :: "slot \<Rightarrow> payload_ref \<Rightarrow> ('x, 'r) Scheduler \<Rightarrow> ('x, 'r) Scheduler" where
  "skip_no_prefs s payload sd =
     (case getSlotState s sd of (st, sd) \<Rightarrow>
        let alreadyWarned = ss_NoPrefsWarnedFor st;
            sd = set_slot_state s (st\<lparr>ss_NoPrefsWarnedFor := True\<rparr>) sd
        in if alreadyWarned then sd
           else FireBidSubmission
             \<lparr>be_Slot = s, be_BlockHash = p_BlockHash (sd_heap sd payload), be_Value = 0, be_BidCount = 0,
              be_Success = False, be_Warning = BidSkippedNoPrefs, be_Error = None,
              be_Status = BidStatusNone, be_SignedBid = None, be_CompetitorHighGwei = None\<rparr> sd)"

definition frozen_bid_transform :: "SlotState \<Rightarrow> string" where
  "frozen_bid_transform st =
     (case ss_Frozen st of None \<Rightarrow> [] | Some f \<Rightarrow>
        (case fp_Transforms f of None \<Rightarrow> [] | Some t \<Rightarrow> rt_Bid t))"

definition competitor_high :: "u64 list \<Rightarrow> slot \<Rightarrow> ('x, 'r) Scheduler \<Rightarrow> u64 option" where
  "competitor_high ks s sd =
     (case GetHighestCompetitorBid ks s (sd_builderIndex sd) (sd_bidTracker sd) of
        (high, ok) \<Rightarrow> if ok then Some high else None)"

definition submission_event ::
  "slot \<Rightarrow> hash32 \<Rightarrow> u64 \<Rightarrow> int \<Rightarrow> bool \<Rightarrow> SignedBid option \<Rightarrow> message_error option \<Rightarrow> u64 option \<Rightarrow> BidSubmissionEvent" where
  "submission_event s blockHash bidValue bidCount prefsBypassed signedBid err high =
     \<lparr>be_Slot = s, be_BlockHash = blockHash, be_Value = bidValue, be_BidCount = bidCount,
      be_Success = (err = None),
      be_Warning = (if prefsBypassed then BidSentWithoutPrefs else NoWarning),
      be_Error = err,
      be_Status = (if err = None then BidStatusSubmitted
                   else if signedBid \<noteq> None then BidStatusConstructed else BidStatusFailed),
      be_SignedBid = signedBid,
      be_CompetitorHighGwei = high\<rparr>"

definition place_bid ::
  "('x, 'r, 'p) bid_env \<Rightarrow> bid_oracle \<Rightarrow> slot \<Rightarrow> gotime \<Rightarrow> ResolvedBidSettings \<Rightarrow> payload_ref \<Rightarrow> bool \<Rightarrow>
   ('x, 'r) Scheduler \<Rightarrow> ('x, 'r) Scheduler" where
  "place_bid env orc s now bidSettings payload prefsBypassed sd =
     (let st = slot_state s sd;
          p = sd_heap sd payload;
          bidValue = bid_value_of bidSettings (Some (p_BlockValue p)) (ss_BidCount st)
      in case CreateAndSubmitBid (en_lib env) (en_spec env) (en_genesisRoot env) (sd_builderIndex sd)
                (en_submit env) (or_bidAt orc) payload bidValue (frozen_bid_transform st) (sd_heap sd) of
           (signedBid, err, heap) \<Rightarrow>
             (let bidCount = swrap64 (ss_BidCount st + 1);
                  sd = set_slot_state s (st\<lparr>ss_LastBidTime := Some now, ss_LastBidHash := p_BlockHash p,
                         ss_BidCount := bidCount\<rparr>) (sd\<lparr>sd_heap := heap\<rparr>);
                  event = submission_event s (p_BlockHash p) bidValue bidCount prefsBypassed signedBid err
                            (competitor_high (or_order orc) s sd)
              in if err \<noteq> None then FireBidSubmission event sd
                 else (FireBidSubmission event
                   (sd\<lparr>sd_bidTracker := TrackBid
                      \<lparr>eb_ParentBlockHash = zero_root, eb_ParentBlockRoot = zero_root,
                       eb_BlockHash = p_BlockHash p, eb_FeeRecipient = replicate 20 0, eb_GasLimit = 0,
                       eb_BuilderIndex = sd_builderIndex sd, eb_Slot = s, eb_Value = bidValue,
                       eb_ExecutionPayment = 0\<rparr> True (sd_bidTracker sd)\<rparr>))
                   \<lparr>sd_bidsSubmitted := sd_bidsSubmitted sd + 1\<rparr>))"

definition checkSlotForBidding ::
  "('x, 'r, 'p) bid_env \<Rightarrow> bid_oracle \<Rightarrow> slot \<Rightarrow> gotime \<Rightarrow> i64 \<Rightarrow> ('x, 'r) Scheduler \<Rightarrow> ('x, 'r) Scheduler" where
  "checkSlotForBidding env orc s now msRelativeToSlot sd =
     (case effectiveBidSettings env (or_freezeAt orc) s sd of (settings, sd) \<Rightarrow>
        case bid_decide env (or_sinceAt orc) s msRelativeToSlot settings sd of
          NoBid \<Rightarrow> sd
        | SkipNoPrefs payload \<Rightarrow> skip_no_prefs s payload sd
        | PlaceBid bidSettings payload prefsBypassed \<Rightarrow>
            place_bid env orc s now bidSettings payload prefsBypassed sd)"

text \<open>\<open>now\<close> is the clock at the start of the tick, \<open>forkNow\<close> when the current fork is looked up.\<close>

definition ms_into_slot :: "('x, 'r, 'p) bid_env \<Rightarrow> gotime \<Rightarrow> i64" where
  "ms_into_slot env now =
     dur_ms (time_sub now (en_genesisTime env) smod SecondsPerSlot (en_spec env))"

definition ProcessTick ::
  "('x, 'r, 'p) bid_env \<Rightarrow> gotime \<Rightarrow> gotime \<Rightarrow> bid_oracle \<Rightarrow> bid_oracle \<Rightarrow> ('x, 'r) Scheduler \<Rightarrow> ('x, 'r) Scheduler" where
  "ProcessTick env now forkNow orc orc' sd =
     (if now < en_genesisTime env then sd
      else let currentSlot = TimeToSlot (en_spec env) (en_genesisTime env) now;
               msIntoSlot = ms_into_slot env now
           in if GetCurrentFork (en_spec env) (en_genesisTime env) forkNow < DataVersionGloas then sd
              else if \<not> IsBuilderActive (builder_by_pubkey (en_pubkey env) (en_builders env)) (en_finalized env)
                then sd
              else checkSlotForBidding env orc' (currentSlot + 1) now
                     (swrap64 (msIntoSlot - dur_ms (SecondsPerSlot (en_spec env))))
                     (checkSlotForBidding env orc currentSlot now msIntoSlot sd))"

definition sched_Cleanup :: "slot \<Rightarrow> ('x, 'r) Scheduler \<Rightarrow> ('x, 'r) Scheduler" where
  "sched_Cleanup olderThan sd =
     sd\<lparr>sd_slotStates := range_delete (\<lambda>s _. s < olderThan) (sd_slotStates sd)\<rparr>"

section \<open>Bid values\<close>

lemma uint_add_clamped: "uint (addGweiClamped a b) = min 18446744073709551615 (uint a + uint b)"
proof (cases "uint a + uint b \<ge> 18446744073709551616")
  case True
  then show ?thesis by (simp add: addGweiClamped_def max_u64_def)
next
  case False
  then have "uint (a + b) = uint a + uint b" by (simp add: uint_plus_simple_iff no_olen_add uint_word_ariths)
  then show ?thesis using False by (simp add: addGweiClamped_def)
qed

lemma uint_mul_clamped: "uint (mulGweiClamped a b) = min 18446744073709551615 (uint a * uint b)"
proof (cases "uint a * uint b \<ge> 18446744073709551616")
  case True
  then show ?thesis by (simp add: mulGweiClamped_def max_u64_def)
next
  case False
  then have "uint (a * b) = uint a * uint b" by (simp add: uint_word_ariths)
  then show ?thesis using False by (simp add: mulGweiClamped_def)
qed

lemma uint_max_u64_word: "uint (max a b :: u64) = max (uint a) (uint b)"
  by (simp add: max_def word_le_def)

lemma uint_weiToGwei:
  assumes "0 \<le> w"
  shows "uint (weiToGweiClamped (Some w)) = min 18446744073709551615 (w div 1000000000)"
proof -
  have "0 \<le> w div 1000000000" using assms by simp
  then show ?thesis
    by (auto simp: weiToGweiClamped_def Let_def max_u64_def uint_word_of_int)
qed

lemma uint_bound_u64: "0 \<le> uint (w :: u64) \<and> uint w \<le> 18446744073709551615"
  using uint_bounded [of w] uint_ge_0 [of w] by simp

lemma uint_count:
  assumes "0 \<le> n" "n \<le> max_i64"
  shows "uint (u64_of_i64 n) = n"
  using assms by (simp add: u64_of_i64_def max_i64_def uint_word_of_int)

lemma saturate_max: "(m :: int) \<le> M \<Longrightarrow> 0 \<le> s \<Longrightarrow> min M (max (min M g) m + s) = min M (max g m + s)"
  by (simp add: min_def max_def)

lemma saturate_add: "0 \<le> M \<Longrightarrow> 0 \<le> (a :: int) \<Longrightarrow> 0 \<le> b \<Longrightarrow> min M (min M a + min M b) = min M (a + b)"
  by (simp add: min_def)

section \<open>Attempts\<close>

text \<open>The attempts of a slot: the events of bids that were built, in the order they were fired.\<close>

definition attempts :: "slot \<Rightarrow> ('x, 'r) Scheduler \<Rightarrow> BidSubmissionEvent list" where
  "attempts s sd = filter (\<lambda>e. be_Slot e = s \<and> be_Status e \<noteq> BidStatusNone) (sd_events sd)"

lemma slot_state_set [simp]:
  "slot_state t (set_slot_state s st sd) = (if t = s then st else slot_state t sd)"
  by (simp add: slot_state_def set_slot_state_def)

lemma set_slot_state_frame [simp]:
  "sd_events (set_slot_state s st sd) = sd_events sd"
  "sd_heap (set_slot_state s st sd) = sd_heap sd"
  "sd_planSvc (set_slot_state s st sd) = sd_planSvc sd"
  "sd_builderIndex (set_slot_state s st sd) = sd_builderIndex sd"
  "sd_bidTracker (set_slot_state s st sd) = sd_bidTracker sd"
  by (simp_all add: set_slot_state_def)

lemma getSlotState_simp:
  "fst (getSlotState s sd) = slot_state s sd"
  "slot_state t (snd (getSlotState s sd)) = slot_state t sd"
  "sd_events (snd (getSlotState s sd)) = sd_events sd"
  "sd_heap (snd (getSlotState s sd)) = sd_heap sd"
  "sd_planSvc (snd (getSlotState s sd)) = sd_planSvc sd"
  "sd_builderIndex (snd (getSlotState s sd)) = sd_builderIndex sd"
  "sd_bidTracker (snd (getSlotState s sd)) = sd_bidTracker sd"
  by (auto simp: getSlotState_def slot_state_def set_slot_state_def split: option.splits)

lemma slot_state_cong: "sd_slotStates sd = sd_slotStates sd' \<Longrightarrow> slot_state s sd = slot_state s sd'"
  by (simp add: slot_state_def)

lemma slot_state_frame [simp]:
  "slot_state t (sd\<lparr>sd_planSvc := x\<rparr>) = slot_state t sd"
  "slot_state t (sd\<lparr>sd_heap := y\<rparr>) = slot_state t sd"
  "slot_state t (sd\<lparr>sd_bidTracker := z\<rparr>) = slot_state t sd"
  "slot_state t (sd\<lparr>sd_builderIndex := i\<rparr>) = slot_state t sd"
  "slot_state t (sd\<lparr>sd_bidsSubmitted := n\<rparr>) = slot_state t sd"
  "slot_state t (FireBidSubmission e sd) = slot_state t sd"
  by (simp_all add: slot_state_def FireBidSubmission_def)

lemma attempts_frame [simp]:
  "attempts t (sd\<lparr>sd_planSvc := x\<rparr>) = attempts t sd"
  "attempts t (sd\<lparr>sd_heap := y\<rparr>) = attempts t sd"
  "attempts t (sd\<lparr>sd_bidTracker := z\<rparr>) = attempts t sd"
  "attempts t (sd\<lparr>sd_builderIndex := i\<rparr>) = attempts t sd"
  "attempts t (sd\<lparr>sd_bidsSubmitted := n\<rparr>) = attempts t sd"
  "attempts t (set_slot_state s st sd) = attempts t sd"
  "attempts t (snd (getSlotState s sd)) = attempts t sd"
  by (simp_all add: attempts_def getSlotState_simp)

lemma attempts_fire [simp]:
  "attempts t (FireBidSubmission e sd) =
     attempts t sd @ (if be_Slot e = t \<and> be_Status e \<noteq> BidStatusNone then [e] else [])"
  by (simp add: attempts_def FireBidSubmission_def)

text \<open>Freezing: the slot's state gets a snapshot once, nothing else changes.\<close>

definition frozen_state :: "('x, 'r, 'p) bid_env \<Rightarrow> gotime \<Rightarrow> slot \<Rightarrow> ('x, 'r) Scheduler \<Rightarrow> FrozenPlan" where
  "frozen_state env now s sd =
     (case ss_Frozen (slot_state s sd) of Some f \<Rightarrow> f
      | None \<Rightarrow> fst (Freeze (en_spec env) (en_cfg env) now s (sd_planSvc sd)))"

lemma effectiveBidSettings_result:
  "fst (effectiveBidSettings env now s sd) = fp_Bid (frozen_state env now s sd)"
  "slot_state t (snd (effectiveBidSettings env now s sd)) =
     (if t = s then (slot_state s sd)\<lparr>ss_Frozen := Some (frozen_state env now s sd)\<rparr> else slot_state t sd)"
  "sd_events (snd (effectiveBidSettings env now s sd)) = sd_events sd"
  "sd_heap (snd (effectiveBidSettings env now s sd)) = sd_heap sd"
  "sd_builderIndex (snd (effectiveBidSettings env now s sd)) = sd_builderIndex sd"
  "sd_bidTracker (snd (effectiveBidSettings env now s sd)) = sd_bidTracker sd"
  unfolding effectiveBidSettings_def frozen_state_def
  by (cases "ss_Frozen (slot_state s sd)";
      simp add: case_prod_beta getSlotState_simp; fail)+

text \<open>The decision a check takes, over the state with the slot frozen.\<close>

definition decision ::
  "('x, 'r, 'p) bid_env \<Rightarrow> bid_oracle \<Rightarrow> slot \<Rightarrow> i64 \<Rightarrow> ('x, 'r) Scheduler \<Rightarrow> bid_decision" where
  "decision env orc s ms sd =
     bid_decide env (or_sinceAt orc) s ms (fp_Bid (frozen_state env (or_freezeAt orc) s sd))
       (snd (effectiveBidSettings env (or_freezeAt orc) s sd))"

lemma check_decision:
  "checkSlotForBidding env orc s now ms sd =
     (let sd1 = snd (effectiveBidSettings env (or_freezeAt orc) s sd) in
      case decision env orc s ms sd of
        NoBid \<Rightarrow> sd1
      | SkipNoPrefs payload \<Rightarrow> skip_no_prefs s payload sd1
      | PlaceBid bidSettings payload byp \<Rightarrow> place_bid env orc s now bidSettings payload byp sd1)"
  unfolding checkSlotForBidding_def decision_def
  by (simp add: case_prod_beta effectiveBidSettings_result Let_def)

definition placing :: "bid_decision \<Rightarrow> bool" where
  "placing d \<longleftrightarrow> (case d of PlaceBid _ _ _ \<Rightarrow> True | _ \<Rightarrow> False)"

lemma skip_no_prefs_frame:
  "attempts t (skip_no_prefs s p sd) = attempts t sd"
  "slot_state t (skip_no_prefs s p sd) =
     (if t = s then (slot_state s sd)\<lparr>ss_NoPrefsWarnedFor := True\<rparr> else slot_state t sd)"
  "sd_heap (skip_no_prefs s p sd) = sd_heap sd"
  "sd_builderIndex (skip_no_prefs s p sd) = sd_builderIndex sd"
  by (simp_all add: skip_no_prefs_def case_prod_beta getSlotState_simp Let_def)
     (simp_all add: FireBidSubmission_def getSlotState_simp)

text \<open>The bidding part of a slot's state, which only an attempt changes.\<close>

definition bid_state :: "slot \<Rightarrow> ('x, 'r) Scheduler \<Rightarrow> gotime option \<times> hash32 \<times> int \<times> bool" where
  "bid_state s sd = (let st = slot_state s sd in
     (ss_LastBidTime st, ss_LastBidHash st, ss_BidCount st, ss_BidsClosed st))"

lemma check_quiet:
  assumes "\<not> placing (decision env orc s ms sd)"
  shows "attempts t (checkSlotForBidding env orc s now ms sd) = attempts t sd"
    and "bid_state t (checkSlotForBidding env orc s now ms sd) = bid_state t sd"
    and "ss_Frozen (slot_state t (checkSlotForBidding env orc s now ms sd)) =
      (if t = s then Some (frozen_state env (or_freezeAt orc) s sd) else ss_Frozen (slot_state t sd))"
  using assms
  by (cases "decision env orc s ms sd";
      simp add: check_decision Let_def placing_def bid_state_def skip_no_prefs_frame
        effectiveBidSettings_result attempts_def [of t "snd _"] attempts_def [of t sd]; fail)+

lemma submission_event_attempt [simp]:
  "be_Slot (submission_event s h v n byp sb err hi) = s"
  "be_Status (submission_event s h v n byp sb err hi) \<noteq> BidStatusNone"
  "be_BlockHash (submission_event s h v n byp sb err hi) = h"
  "be_Value (submission_event s h v n byp sb err hi) = v"
  "be_BidCount (submission_event s h v n byp sb err hi) = n"
  by (simp_all add: submission_event_def)

text \<open>What the bid creator answers to an attempt.\<close>

definition bid_answer ::
  "('x, 'r, 'p) bid_env \<Rightarrow> bid_oracle \<Rightarrow> slot \<Rightarrow> ResolvedBidSettings \<Rightarrow> payload_ref \<Rightarrow> ('x, 'r) Scheduler \<Rightarrow>
   SignedBid option \<times> message_error option \<times> ('x, 'r) build_data payload_heap" where
  "bid_answer env orc s bidSettings payload sd =
     CreateAndSubmitBid (en_lib env) (en_spec env) (en_genesisRoot env) (sd_builderIndex sd)
       (en_submit env) (or_bidAt orc) payload
       (bid_value_of bidSettings (Some (p_BlockValue (sd_heap sd payload))) (ss_BidCount (slot_state s sd)))
       (frozen_bid_transform (slot_state s sd)) (sd_heap sd)"

definition attempt_event ::
  "('x, 'r, 'p) bid_env \<Rightarrow> bid_oracle \<Rightarrow> slot \<Rightarrow> ResolvedBidSettings \<Rightarrow> payload_ref \<Rightarrow> bool \<Rightarrow> ('x, 'r) Scheduler \<Rightarrow>
   BidSubmissionEvent" where
  "attempt_event env orc s bidSettings payload byp sd =
     submission_event s (p_BlockHash (sd_heap sd payload))
       (bid_value_of bidSettings (Some (p_BlockValue (sd_heap sd payload))) (ss_BidCount (slot_state s sd)))
       (swrap64 (ss_BidCount (slot_state s sd) + 1)) byp
       (fst (bid_answer env orc s bidSettings payload sd))
       (fst (snd (bid_answer env orc s bidSettings payload sd)))
       (competitor_high (or_order orc) s sd)"

lemma competitor_high_frame [simp]:
  "competitor_high ks t (set_slot_state s st sd) = competitor_high ks t sd"
  "competitor_high ks t (sd\<lparr>sd_heap := h\<rparr>) = competitor_high ks t sd"
  by (simp_all add: competitor_high_def)

lemma place_bid_result:
  "attempts t (place_bid env orc s now bidSettings payload byp sd) =
     attempts t sd @ (if t = s then [attempt_event env orc s bidSettings payload byp sd] else [])"
  "slot_state t (place_bid env orc s now bidSettings payload byp sd) =
     (if t = s then (slot_state s sd)\<lparr>ss_LastBidTime := Some now,
        ss_LastBidHash := p_BlockHash (sd_heap sd payload),
        ss_BidCount := swrap64 (ss_BidCount (slot_state s sd) + 1)\<rparr> else slot_state t sd)"
  unfolding place_bid_def Let_def bid_answer_def [symmetric] attempt_event_def
  by (cases "bid_answer env orc s bidSettings payload sd"; cases "fst (snd (bid_answer env orc s bidSettings payload sd))";
      simp; fail)+

lemma check_place:
  assumes "decision env orc s ms sd = PlaceBid bidSettings payload byp"
  defines "sd1 \<equiv> snd (effectiveBidSettings env (or_freezeAt orc) s sd)"
  shows "attempts t (checkSlotForBidding env orc s now ms sd) =
      attempts t sd @ (if t = s then [attempt_event env orc s bidSettings payload byp sd1] else [])"
    and "bid_state t (checkSlotForBidding env orc s now ms sd) =
      (if t = s then (Some now, p_BlockHash (sd_heap sd payload), swrap64 (ss_BidCount (slot_state s sd) + 1),
         ss_BidsClosed (slot_state s sd)) else bid_state t sd)"
    and "ss_Frozen (slot_state t (checkSlotForBidding env orc s now ms sd)) =
      (if t = s then Some (frozen_state env (or_freezeAt orc) s sd) else ss_Frozen (slot_state t sd))"
  using assms(1)
  by (simp_all add: check_decision Let_def bid_state_def place_bid_result
      effectiveBidSettings_result sd1_def attempts_def [of t "snd _"] attempts_def [of t sd])

text \<open>The guards of an attempt.\<close>

lemma decision_guards:
  assumes "decision env orc s ms sd = PlaceBid bidSettings payload byp"
  shows "fp_Bid (frozen_state env (or_freezeAt orc) s sd) = Some bidSettings"
    and "rs_StartMs bidSettings \<le> ms \<and> ms < rs_EndMs bidSettings"
    and "cache_Get s (en_cache env) = Some payload"
    and "rs_IgnoreMissingPrefs bidSettings \<or> (\<exists>store. en_prefs env = Some store \<and> Has s store)"
    and "\<not> ss_BidsClosed (slot_state s sd)"
    and "bid_due bidSettings (or_sinceAt orc) (p_BlockHash (sd_heap sd payload)) (slot_state s sd)"
  using assms unfolding decision_def bid_decide_def
  by (auto simp: Let_def effectiveBidSettings_result bid_due_def split: option.splits if_splits)

text \<open>Bidding writes the activity logs of payloads only.\<close>

lemma CreateAndSubmitBid_heap:
  assumes "CreateAndSubmitBid lib spec gvr idx submit now ref v tr h = (sb, err, h')"
  shows "p_BlockHash (h' r) = p_BlockHash (h r)" "p_BlockValue (h' r) = p_BlockValue (h r)"
  using assms
  by (auto simp: CreateAndSubmitBid_def Let_def AddBid_def split: option.splits sum.splits if_splits)

lemma check_heap:
  "p_BlockHash (sd_heap (checkSlotForBidding env orc s now ms sd) r) = p_BlockHash (sd_heap sd r)"
  "p_BlockValue (sd_heap (checkSlotForBidding env orc s now ms sd) r) = p_BlockValue (sd_heap sd r)"
proof -
  let ?sd1 = "snd (effectiveBidSettings env (or_freezeAt orc) s sd)"
  have place: "p_BlockHash (sd_heap (place_bid env orc s now bs p byp ?sd1) r) = p_BlockHash (sd_heap sd r) \<and>
      p_BlockValue (sd_heap (place_bid env orc s now bs p byp ?sd1) r) = p_BlockValue (sd_heap sd r)" for bs p byp
  proof -
    obtain sb err h' where a: "bid_answer env orc s bs p ?sd1 = (sb, err, h')" by (metis prod_cases3)
    have "sd_heap (place_bid env orc s now bs p byp ?sd1) = h'"
      unfolding place_bid_def Let_def bid_answer_def [symmetric] a
      by (simp add: FireBidSubmission_def)
    then show ?thesis
      using CreateAndSubmitBid_heap [OF a [unfolded bid_answer_def], of r]
      by (simp add: effectiveBidSettings_result)
  qed
  show "p_BlockHash (sd_heap (checkSlotForBidding env orc s now ms sd) r) = p_BlockHash (sd_heap sd r)"
    "p_BlockValue (sd_heap (checkSlotForBidding env orc s now ms sd) r) = p_BlockValue (sd_heap sd r)"
    by (cases "decision env orc s ms sd";
        simp add: check_decision Let_def skip_no_prefs_frame effectiveBidSettings_result place; fail)+
qed

text \<open>One check: either nothing is attempted for a slot, or one bid passes every guard.\<close>

definition attempt_step ::
  "('x, 'r, 'p) bid_env \<Rightarrow> bid_oracle \<Rightarrow> slot \<Rightarrow> i64 \<Rightarrow> ('x, 'r) Scheduler \<Rightarrow> ('x, 'r) Scheduler \<Rightarrow> bool" where
  "attempt_step env orc s ms sd sd' \<longleftrightarrow>
     (\<exists>frozen bs payload e.
        ss_Frozen (slot_state s sd') = Some frozen \<and> fp_Bid frozen = Some bs \<and>
        (\<forall>f. ss_Frozen (slot_state s sd) = Some f \<longrightarrow> f = frozen) \<and>
        rs_StartMs bs \<le> ms \<and> ms < rs_EndMs bs \<and>
        cache_Get s (en_cache env) = Some payload \<and>
        (rs_IgnoreMissingPrefs bs \<or> (\<exists>store. en_prefs env = Some store \<and> Has s store)) \<and>
        \<not> ss_BidsClosed (slot_state s sd) \<and>
        bid_due bs (or_sinceAt orc) (p_BlockHash (sd_heap sd payload)) (slot_state s sd) \<and>
        attempts s sd' = attempts s sd @ [e] \<and>
        be_BlockHash e = p_BlockHash (sd_heap sd payload) \<and>
        be_Value e = bid_value_of bs (Some (p_BlockValue (sd_heap sd payload))) (ss_BidCount (slot_state s sd)) \<and>
        be_BidCount e = swrap64 (ss_BidCount (slot_state s sd) + 1) \<and>
        ss_BidCount (slot_state s sd') = be_BidCount e \<and>
        ss_LastBidHash (slot_state s sd') = be_BlockHash e \<and>
        ss_BidsClosed (slot_state s sd') = ss_BidsClosed (slot_state s sd))"

definition quiet_step :: "slot \<Rightarrow> ('x, 'r) Scheduler \<Rightarrow> ('x, 'r) Scheduler \<Rightarrow> bool" where
  "quiet_step s sd sd' \<longleftrightarrow> attempts s sd' = attempts s sd \<and> bid_state s sd' = bid_state s sd \<and>
     (\<forall>f. ss_Frozen (slot_state s sd) = Some f \<longrightarrow> ss_Frozen (slot_state s sd') = Some f)"

lemma check_step:
  "quiet_step t sd (checkSlotForBidding env orc s now ms sd) \<or>
   t = s \<and> attempt_step env orc s ms sd (checkSlotForBidding env orc s now ms sd)"
proof (cases "decision env orc s ms sd")
  case (PlaceBid bs payload byp)
  show ?thesis
  proof (cases "t = s")
    case True
    have frz: "\<forall>f. ss_Frozen (slot_state s sd) = Some f \<longrightarrow> f = frozen_state env (or_freezeAt orc) s sd"
      by (simp add: frozen_state_def)
    have st: "ss_BidCount (slot_state s (snd (effectiveBidSettings env (or_freezeAt orc) s sd))) =
        ss_BidCount (slot_state s sd)" by (simp add: effectiveBidSettings_result)
    have "attempt_step env orc s ms sd (checkSlotForBidding env orc s now ms sd)"
      unfolding attempt_step_def
      using check_place [OF PlaceBid, of s now] decision_guards [OF PlaceBid] frz
      by (auto simp: bid_state_def Let_def attempt_event_def effectiveBidSettings_result st)
    then show ?thesis using True by simp
  next
    case False
    then show ?thesis
      using check_place [OF PlaceBid, of t now] by (simp add: quiet_step_def)
  qed
qed (use check_quiet [of env orc s ms sd t now] in
      \<open>auto simp: placing_def quiet_step_def frozen_state_def\<close>)

lemma quiet_refl [simp]: "quiet_step s sd sd"
  by (simp add: quiet_step_def)

lemma quiet_trans: "quiet_step s a b \<Longrightarrow> quiet_step s b c \<Longrightarrow> quiet_step s a c"
  by (simp add: quiet_step_def)

lemma bid_due_cong:
  assumes "bid_state s a = bid_state s b"
  shows "bid_due bs now h (slot_state s a) = bid_due bs now h (slot_state s b)"
  using assms by (simp add: bid_due_def bid_state_def Let_def)

lemma attempt_quiet:
  assumes "attempt_step env orc s ms a b" "quiet_step s b c"
  shows "attempt_step env orc s ms a c"
  using assms unfolding attempt_step_def quiet_step_def bid_state_def Let_def by auto

lemma quiet_attempt:
  assumes q: "quiet_step s a b" and s: "attempt_step env orc s ms b c"
    and h: "\<And>r. p_BlockHash (sd_heap b r) = p_BlockHash (sd_heap a r)"
      "\<And>r. p_BlockValue (sd_heap b r) = p_BlockValue (sd_heap a r)"
  shows "attempt_step env orc s ms a c"
proof -
  have bs: "bid_state s b = bid_state s a" using q by (simp add: quiet_step_def)
  then have eq: "ss_BidCount (slot_state s b) = ss_BidCount (slot_state s a)"
    "ss_BidsClosed (slot_state s b) = ss_BidsClosed (slot_state s a)"
    by (simp_all add: bid_state_def Let_def)
  show ?thesis
    using s q unfolding attempt_step_def quiet_step_def h eq bid_due_cong [OF bs] by metis
qed

text \<open>The conditions under which a tick looks at slots at all, and where in the slot it is.\<close>

definition tick_allowed :: "('x, 'r, 'p) bid_env \<Rightarrow> gotime \<Rightarrow> gotime \<Rightarrow> bool" where
  "tick_allowed env now forkNow \<longleftrightarrow> en_genesisTime env \<le> now \<and>
     DataVersionGloas \<le> GetCurrentFork (en_spec env) (en_genesisTime env) forkNow \<and>
     IsBuilderActive (builder_by_pubkey (en_pubkey env) (en_builders env)) (en_finalized env)"

definition tick_position :: "('x, 'r, 'p) bid_env \<Rightarrow> gotime \<Rightarrow> slot \<Rightarrow> i64 \<Rightarrow> bool" where
  "tick_position env now s ms \<longleftrightarrow>
     (let cur = TimeToSlot (en_spec env) (en_genesisTime env) now in
      s = cur \<and> ms = ms_into_slot env now \<or>
      s = cur + 1 \<and> ms = swrap64 (ms_into_slot env now - dur_ms (SecondsPerSlot (en_spec env))))"

lemma tick_step:
  "quiet_step t sd (ProcessTick env now forkNow orc orc' sd) \<or>
   tick_allowed env now forkNow \<and>
   (\<exists>ms ob. ob \<in> {orc, orc'} \<and> tick_position env now t ms \<and>
      attempt_step env ob t ms sd (ProcessTick env now forkNow orc orc' sd))"
proof (cases "tick_allowed env now forkNow")
  case True
  let ?cur = "TimeToSlot (en_spec env) (en_genesisTime env) now"
  let ?ms = "ms_into_slot env now"
  let ?ms' = "swrap64 (?ms - dur_ms (SecondsPerSlot (en_spec env)))"
  let ?a = "checkSlotForBidding env orc ?cur now ?ms sd"
  let ?b = "checkSlotForBidding env orc' (?cur + 1) now ?ms' ?a"
  have tick: "ProcessTick env now forkNow orc orc' sd = ?b"
    using True by (auto simp: ProcessTick_def tick_allowed_def Let_def dest: leD)
  have ne: "?cur + 1 \<noteq> ?cur" by simp
  consider "quiet_step t sd ?a" "quiet_step t ?a ?b"
    | "t = ?cur" "attempt_step env orc ?cur ?ms sd ?a" "quiet_step t ?a ?b"
    | "t = ?cur + 1" "quiet_step t sd ?a" "attempt_step env orc' (?cur + 1) ?ms' ?a ?b"
    using check_step [of t sd env orc ?cur now ?ms] check_step [of t ?a env orc' "?cur + 1" now ?ms'] ne
    by (elim disjE conjE) metis+
  then show ?thesis
  proof cases
    case 1
    then show ?thesis unfolding tick by (blast intro: quiet_trans)
  next
    case 2
    then show ?thesis unfolding tick
      using attempt_quiet [of env orc ?cur ?ms sd ?a ?b] True by (auto simp: tick_position_def Let_def)
  next
    case 3
    then show ?thesis unfolding tick
      using quiet_attempt [of t sd ?a env orc' ?ms' ?b] True check_heap [of env orc ?cur now ?ms sd]
      by (auto simp: tick_position_def Let_def)
  qed
next
  case False
  then show ?thesis by (auto simp: ProcessTick_def tick_allowed_def Let_def not_le)
qed

lemma head_step: "attempts t (OnHeadEvent s sd) = attempts t sd"
  "slot_state t (OnHeadEvent s sd) = (if t = s then (slot_state s sd)\<lparr>ss_BidsClosed := True\<rparr> else slot_state t sd)"
  by (simp_all add: OnHeadEvent_def case_prod_beta getSlotState_simp)

section \<open>Properties\<close>

text \<open>
  C5: A tick never bids outside its guards.  For every slot, a tick either attempts no bid for
  it, or attempts exactly one, and then: genesis has passed, the current fork is Gloas or later and
  the builder is active on chain; the slot is the current or the next one and the tick's offset
  lies in the bid window of the slot's frozen settings (frozen once, never replaced); a payload is
  cached; the proposer's preferences are known or the plan bypasses them; bidding is not closed;
  the interval or single-bid rule allows it; and the attempt carries the payload's hash and the
  value the frozen settings give for the attempt's ordinal.\<close>
theorem bid_attempt_gate:
  "quiet_step s sd (ProcessTick env now forkNow orc orc' sd) \<or>
   (tick_allowed env now forkNow \<and>
    (\<exists>ms ob. ob \<in> {orc, orc'} \<and> tick_position env now s ms \<and>
      attempt_step env ob s ms sd (ProcessTick env now forkNow orc orc' sd)))"
  by (rule tick_step)

text \<open>
  The value of a bid is the mathematical one, saturated at the largest amount: the slot's
  absolute value, or the block value (at least the minimum) plus the subsidy; in interval mode each
  earlier attempt adds one increase.  No intermediate clamp loses precision.\<close>
theorem bid_value_formula:
  assumes "0 \<le> blockValue" "0 \<le> n" "n \<le> max_i64"
  shows "uint (bid_value_of bs (Some blockValue) n) =
     min 18446744073709551615
       ((case rs_ValueGwei bs of
           Some v \<Rightarrow> uint v
         | None \<Rightarrow> max (blockValue div 1000000000) (uint (rs_MinGwei bs)) + uint (rs_SubsidyGwei bs)) +
        (if rs_IntervalMs bs > 0 then n * uint (rs_IncreaseGwei bs) else 0))"
proof -
  define base where "base = (case rs_ValueGwei bs of Some v \<Rightarrow> v
    | None \<Rightarrow> addGweiClamped (max (weiToGweiClamped (Some blockValue)) (rs_MinGwei bs)) (rs_SubsidyGwei bs))"
  define mbase where "mbase = (case rs_ValueGwei bs of Some v \<Rightarrow> uint v
    | None \<Rightarrow> max (blockValue div 1000000000) (uint (rs_MinGwei bs)) + uint (rs_SubsidyGwei bs))"
  have base: "uint base = min 18446744073709551615 mbase"
    using uint_bound_u64 [of "rs_MinGwei bs"] uint_bound_u64 [of "rs_SubsidyGwei bs"] uint_bound_u64
    by (cases "rs_ValueGwei bs")
       (simp_all add: base_def mbase_def uint_add_clamped uint_max_u64_word uint_weiToGwei [OF assms(1)] saturate_max)
  have "0 \<le> mbase"
    using assms(1) by (simp add: mbase_def pos_imp_zdiv_nonneg_iff le_max_iff_disj add_nonneg_nonneg split: option.splits)
  then have inc: "uint (addGweiClamped base (mulGweiClamped (u64_of_i64 n) (rs_IncreaseGwei bs))) =
      min 18446744073709551615 (mbase + n * uint (rs_IncreaseGwei bs))"
    using assms(2) by (simp add: uint_add_clamped uint_mul_clamped base uint_count [OF assms(2,3)] saturate_add)
  show ?thesis
    using assms(2) base inc unfolding bid_value_of_def base_def [symmetric] mbase_def [symmetric] Let_def
    by (cases "n = 0") auto
qed

theorem bid_value_formula_witness:
  "uint (bid_value_of \<lparr>rs_StartMs = - 1000, rs_EndMs = 3000, rs_IntervalMs = 250, rs_MinGwei = 5,
      rs_IncreaseGwei = 9223372036854775808, rs_SubsidyGwei = 100, rs_ValueGwei = None,
      rs_IgnoreMissingPrefs = False, rs_Forced = False\<rparr> (Some 7000000000) 2) = 18446744073709551615"
  using bid_value_formula [of 7000000000 2 "\<lparr>rs_StartMs = - 1000, rs_EndMs = 3000, rs_IntervalMs = 250, rs_MinGwei = 5,
      rs_IncreaseGwei = 9223372036854775808, rs_SubsidyGwei = 100, rs_ValueGwei = None,
      rs_IgnoreMissingPrefs = False, rs_Forced = False\<rparr>"]
  by (simp add: max_i64_def)

end
