(* ===== verification/Bid_Service.thy ===== *)
theory Bid_Service
  imports Bid_Scheduler
begin

text \<open>
  The p2p bidder service, \<open>pkg/p2p_bidder/service.go\<close>: the registration state machine and the main
  loop that feeds head events, bid events, epoch statistics and ticks to the scheduler.  The loop
  handles one event at a time, so a run is a sequence of events; the callbacks of the lifecycle
  manager and everything other goroutines do to the shared plan service and payloads are events
  too.  The scheduler, bid tracker and bid creator exist from \<open>Start\<close> on.
\<close>

section \<open>State\<close>

datatype RegistrationState =
    RegistrationStateUnknown
  | RegistrationStatePending
  | RegistrationStateRegistered
  | RegistrationStateWaitingGloas
  | RegistrationStatePendingFinalization
  | RegistrationStateExiting
  | RegistrationStateExited
  | RegistrationStateUnregistered

fun RegistrationStateName :: "RegistrationState \<Rightarrow> string" where
  "RegistrationStateName RegistrationStateUnknown = ''unknown''"
| "RegistrationStateName RegistrationStatePending = ''pending''"
| "RegistrationStateName RegistrationStateRegistered = ''registered''"
| "RegistrationStateName RegistrationStateWaitingGloas = ''waiting_gloas''"
| "RegistrationStateName RegistrationStatePendingFinalization = ''pending_finalization''"
| "RegistrationStateName RegistrationStateExiting = ''exiting''"
| "RegistrationStateName RegistrationStateExited = ''exited''"
| "RegistrationStateName RegistrationStateUnregistered = ''unregistered''"

record ('x, 'r) BidService =
  sv_builderIndex :: u64
  sv_builderPubkey :: bls_pubkey
  sv_enabled :: bool
  sv_registrationState :: RegistrationState
  sv_scheduler :: "('x, 'r) Scheduler option"

text \<open>What the chain service answers: the registry of its current epoch and the finalized epoch.\<close>

record chain_view =
  cv_builders :: "BuilderInfo list"
  cv_finalized :: epoch

record BidEvent =
  ev_Slot :: slot
  ev_ParentBlockHash :: hash32
  ev_ParentBlockRoot :: hash32
  ev_BlockHash :: hash32
  ev_FeeRecipient :: address20
  ev_GasLimit :: u64
  ev_BuilderIndex :: u64
  ev_Value :: u64
  ev_ExecutionPayment :: u64

section \<open>Operations\<close>

definition NewBidService :: "bls_pubkey \<Rightarrow> ('x, 'r) BidService" where
  "NewBidService pubkey = \<lparr>sv_builderIndex = 0, sv_builderPubkey = pubkey, sv_enabled = False,
     sv_registrationState = RegistrationStateUnknown, sv_scheduler = None\<rparr>"

definition SetEnabled :: "bool \<Rightarrow> ('x, 'r) BidService \<Rightarrow> ('x, 'r) BidService" where
  "SetEnabled b sv = sv\<lparr>sv_enabled := b\<rparr>"

definition IsRegistered :: "('x, 'r) BidService \<Rightarrow> bool" where
  "IsRegistered sv \<longleftrightarrow> sv_registrationState sv = RegistrationStateRegistered"

definition IsActive :: "('x, 'r) BidService \<Rightarrow> bool" where
  "IsActive sv \<longleftrightarrow> sv_registrationState sv \<in> {RegistrationStateRegistered, RegistrationStatePendingFinalization}"

definition computeRegistrationState :: "epoch \<Rightarrow> BuilderInfo \<Rightarrow> RegistrationState" where
  "computeRegistrationState finalizedEpoch info =
     (if bi_WithdrawableEpoch info \<noteq> FarFutureEpoch then
        (if bi_WithdrawableEpoch info \<le> finalizedEpoch then RegistrationStateExited else RegistrationStateExiting)
      else if bi_DepositEpoch info < finalizedEpoch then RegistrationStateRegistered
      else RegistrationStatePendingFinalization)"

definition NewScheduler ::
  "u64 \<Rightarrow> PlanService \<Rightarrow> ('x, 'r) build_data payload_heap \<Rightarrow> ('x, 'r) Scheduler" where
  "NewScheduler builderIndex plan heap =
     \<lparr>sd_slotStates = Map.empty, sd_planSvc = plan, sd_bidTracker = NewBidTracker builderIndex,
      sd_builderIndex = builderIndex, sd_heap = heap, sd_events = [], sd_bidsSubmitted = 0\<rparr>"

definition start_registration ::
  "DataVersion \<Rightarrow> chain_view \<Rightarrow> ('x, 'r) BidService \<Rightarrow> ('x, 'r) BidService" where
  "start_registration currentFork cv sv =
     (if currentFork < DataVersionGloas
      then sv\<lparr>sv_builderIndex := 0, sv_registrationState := RegistrationStateWaitingGloas\<rparr>
      else case builder_by_pubkey (sv_builderPubkey sv) (cv_builders cv) of
             None \<Rightarrow> sv\<lparr>sv_builderIndex := 0, sv_registrationState := RegistrationStateUnregistered\<rparr>
           | Some info \<Rightarrow> sv\<lparr>sv_builderIndex := bi_Index info,
                             sv_registrationState := computeRegistrationState (cv_finalized cv) info\<rparr>)"

definition svc_Start ::
  "DataVersion \<Rightarrow> chain_view \<Rightarrow> PlanService \<Rightarrow> ('x, 'r) build_data payload_heap \<Rightarrow>
   ('x, 'r) BidService \<Rightarrow> ('x, 'r) BidService" where
  "svc_Start currentFork cv plan heap sv =
     (let sv = start_registration currentFork cv sv in
      sv\<lparr>sv_scheduler := Some (NewScheduler (sv_builderIndex sv) plan heap)\<rparr>)"

definition on_scheduler ::
  "(('x, 'r) Scheduler \<Rightarrow> ('x, 'r) Scheduler) \<Rightarrow> ('x, 'r) BidService \<Rightarrow> ('x, 'r) BidService" where
  "on_scheduler f sv = sv\<lparr>sv_scheduler := map_option f (sv_scheduler sv)\<rparr>"

definition handleHeadEvent :: "slot \<Rightarrow> ('x, 'r) BidService \<Rightarrow> ('x, 'r) BidService" where
  "handleHeadEvent s sv = on_scheduler (OnHeadEvent s) sv"

definition handleBidEvent :: "BidEvent \<Rightarrow> ('x, 'r) BidService \<Rightarrow> ('x, 'r) BidService" where
  "handleBidEvent ev sv =
     (let isOurs = (ev_BuilderIndex ev = sv_builderIndex sv);
          bid = \<lparr>eb_ParentBlockHash = ev_ParentBlockHash ev, eb_ParentBlockRoot = ev_ParentBlockRoot ev,
                 eb_BlockHash = ev_BlockHash ev, eb_FeeRecipient = ev_FeeRecipient ev,
                 eb_GasLimit = ev_GasLimit ev, eb_BuilderIndex = ev_BuilderIndex ev,
                 eb_Slot = ev_Slot ev, eb_Value = ev_Value ev, eb_ExecutionPayment = ev_ExecutionPayment ev\<rparr>
      in on_scheduler (\<lambda>sd. sd\<lparr>sd_bidTracker := TrackBid bid isOurs (sd_bidTracker sd)\<rparr>) sv)"

definition SetRegistrationPending :: "('x, 'r) BidService \<Rightarrow> ('x, 'r) BidService" where
  "SetRegistrationPending sv = sv\<lparr>sv_registrationState := RegistrationStatePending\<rparr>"

definition SetBuilderRegistered :: "u64 \<Rightarrow> chain_view \<Rightarrow> ('x, 'r) BidService \<Rightarrow> ('x, 'r) BidService" where
  "SetBuilderRegistered index cv sv =
     (let sv = on_scheduler (\<lambda>sd. sd\<lparr>sd_builderIndex := index,
                 sd_bidTracker := SetBuilderIndex index (sd_bidTracker sd)\<rparr>) (sv\<lparr>sv_builderIndex := index\<rparr>)
      in case builder_by_pubkey (sv_builderPubkey sv) (cv_builders cv) of
           Some info \<Rightarrow> sv\<lparr>sv_registrationState := computeRegistrationState (cv_finalized cv) info\<rparr>
         | None \<Rightarrow> sv\<lparr>sv_registrationState := RegistrationStatePendingFinalization\<rparr>)"

definition RefreshRegistrationState :: "chain_view \<Rightarrow> ('x, 'r) BidService \<Rightarrow> ('x, 'r) BidService" where
  "RefreshRegistrationState cv sv =
     (let currentState = sv_registrationState sv in
      if currentState = RegistrationStateWaitingGloas \<or> currentState = RegistrationStateUnknown then sv
      else case builder_by_pubkey (sv_builderPubkey sv) (cv_builders cv) of
             None \<Rightarrow>
               (if currentState \<noteq> RegistrationStatePending \<and> currentState \<noteq> RegistrationStateUnregistered
                then sv\<lparr>sv_registrationState := RegistrationStateUnregistered\<rparr> else sv)
           | Some info \<Rightarrow>
               (let newState = computeRegistrationState (cv_finalized cv) info in
                if newState \<noteq> currentState then sv\<lparr>sv_registrationState := newState\<rparr> else sv))"

definition svc_Tick ::
  "('x, 'r, 'p) bid_env \<Rightarrow> gotime \<Rightarrow> gotime \<Rightarrow> bid_oracle \<Rightarrow> bid_oracle \<Rightarrow> ('x, 'r) BidService \<Rightarrow> ('x, 'r) BidService" where
  "svc_Tick env now forkNow orc orc' sv =
     (if IsRegistered sv then on_scheduler (ProcessTick env now forkNow orc orc') sv else sv)"

section \<open>Runs\<close>

datatype ('x, 'r, 'p) svc_op =
    SvcTick "('x, 'r, 'p) bid_env" gotime gotime bid_oracle bid_oracle
  | SvcHead slot
  | SvcBid BidEvent
  | SvcEpoch chain_view
  | SvcPending
  | SvcRegistered u64 chain_view
  | SvcEnable bool
  | SvcOther PlanService "('x, 'r) build_data payload_heap"

fun svc_step :: "('x, 'r, 'p) svc_op \<Rightarrow> ('x, 'r) BidService \<Rightarrow> ('x, 'r) BidService" where
  "svc_step (SvcTick env now forkNow orc orc') sv = svc_Tick env now forkNow orc orc' sv"
| "svc_step (SvcHead s) sv = handleHeadEvent s sv"
| "svc_step (SvcBid ev) sv = handleBidEvent ev sv"
| "svc_step (SvcEpoch cv) sv = RefreshRegistrationState cv sv"
| "svc_step SvcPending sv = SetRegistrationPending sv"
| "svc_step (SvcRegistered index cv) sv = SetBuilderRegistered index cv sv"
| "svc_step (SvcEnable b) sv = SetEnabled b sv"
| "svc_step (SvcOther plan heap) sv = on_scheduler (\<lambda>sd. sd\<lparr>sd_planSvc := plan, sd_heap := heap\<rparr>) sv"

definition svc_run :: "('x, 'r, 'p) svc_op list \<Rightarrow> ('x, 'r) BidService \<Rightarrow> ('x, 'r) BidService" where
  "svc_run ops sv = fold svc_step ops sv"

definition svc_attempts :: "slot \<Rightarrow> ('x, 'r) BidService \<Rightarrow> BidSubmissionEvent list" where
  "svc_attempts s sv = (case sv_scheduler sv of None \<Rightarrow> [] | Some sd \<Rightarrow> attempts s sd)"

section \<open>Invariants of a run\<close>

text \<open>
  A property of the scheduler that survives quiet steps, attempts and closing a slot survives every
  event of the loop.
\<close>

lemma svc_step_scheduler:
  fixes op :: "('x, 'r, 'p) svc_op"
  shows
  "sv_scheduler (svc_step op sv) = None \<and> sv_scheduler sv = None \<or>
   (\<exists>sd sd'. sv_scheduler sv = Some sd \<and> sv_scheduler (svc_step op sv) = Some sd' \<and>
      (quiet_step t sd sd' \<or> (\<exists>(env :: ('x, 'r, 'p) bid_env) orc ms. attempt_step env orc t ms sd sd') \<or>
       (\<exists>s. sd' = OnHeadEvent s sd)))"
proof (cases "sv_scheduler sv")
  case None
  then show ?thesis
    by (cases op) (simp_all add: svc_Tick_def on_scheduler_def handleHeadEvent_def handleBidEvent_def
        RefreshRegistrationState_def SetRegistrationPending_def SetBuilderRegistered_def SetEnabled_def
        Let_def split: option.split)
next
  case (Some sd)
  have fr: "quiet_step t sd (sd\<lparr>sd_bidTracker := b\<rparr>)" "quiet_step t sd (sd\<lparr>sd_builderIndex := i, sd_bidTracker := b\<rparr>)"
    "quiet_step t sd (sd\<lparr>sd_planSvc := p, sd_heap := h\<rparr>)" for b i p h
    by (simp_all add: quiet_step_def bid_state_def)
  show ?thesis
  proof (cases op)
    case (SvcTick env now forkNow orc orc')
    then show ?thesis
      using Some tick_step [of t sd env now forkNow orc orc']
      by (auto simp: svc_Tick_def on_scheduler_def simp del: insert_iff)
  qed (use Some fr in \<open>auto simp: on_scheduler_def handleHeadEvent_def handleBidEvent_def
        RefreshRegistrationState_def SetRegistrationPending_def SetBuilderRegistered_def SetEnabled_def
        Let_def split: option.split\<close>)
qed

text \<open>The rules the attempts of one slot follow under its frozen settings.\<close>

definition bid_log_rules :: "ResolvedBidSettings \<Rightarrow> BidSubmissionEvent list \<Rightarrow> bool" where
  "bid_log_rules bs as \<longleftrightarrow>
     (\<forall>i < length as. be_BidCount (as ! i) = swrap64 (int (Suc i)) \<and>
        (\<exists>v. be_Value (as ! i) = bid_value_of bs (Some v) (swrap64 (int i)))) \<and>
     (rs_IntervalMs bs \<le> 0 \<longrightarrow>
        (\<forall>i. Suc i < length as \<and> int (Suc i) \<le> max_i64 \<longrightarrow> be_BlockHash (as ! i) \<noteq> be_BlockHash (as ! Suc i)))"

definition bid_log_ok :: "slot \<Rightarrow> ('x, 'r) Scheduler \<Rightarrow> bool" where
  "bid_log_ok s sd \<longleftrightarrow>
     (let as = attempts s sd; st = slot_state s sd in
      ss_BidCount st = swrap64 (int (length as)) \<and>
      (as \<noteq> [] \<longrightarrow> ss_LastBidHash st = be_BlockHash (last as) \<and>
         (\<exists>f bs. ss_Frozen st = Some f \<and> fp_Bid f = Some bs \<and> bid_log_rules bs as)))"

lemma bid_log_quiet: "bid_log_ok s sd \<Longrightarrow> quiet_step s sd sd' \<Longrightarrow> bid_log_ok s sd'"
  by (auto simp: bid_log_ok_def quiet_step_def bid_state_def Let_def)

lemma bid_log_head: "bid_log_ok s sd \<Longrightarrow> bid_log_ok s (OnHeadEvent t sd)"
  by (auto simp: bid_log_ok_def head_step Let_def)

lemma bid_log_rules_snoc:
  assumes r: "as = [] \<or> bid_log_rules bs as"
    and n: "be_BidCount e = swrap64 (int (Suc (length as)))"
    and v: "be_Value e = bid_value_of bs (Some v) (swrap64 (int (length as)))"
    and h: "rs_IntervalMs bs \<le> 0 \<Longrightarrow> as \<noteq> [] \<Longrightarrow> int (length as) \<le> max_i64 \<Longrightarrow>
      be_BlockHash (last as) \<noteq> be_BlockHash e"
  shows "bid_log_rules bs (as @ [e])"
proof -
  have "be_BidCount ((as @ [e]) ! i) = swrap64 (int (Suc i)) \<and>
      (\<exists>v. be_Value ((as @ [e]) ! i) = bid_value_of bs (Some v) (swrap64 (int i)))" if "i < length (as @ [e])" for i
    using that r n v by (cases "i = length as") (auto simp: bid_log_rules_def nth_append)
  moreover have "be_BlockHash ((as @ [e]) ! i) \<noteq> be_BlockHash ((as @ [e]) ! Suc i)"
    if "rs_IntervalMs bs \<le> 0" "Suc i < length (as @ [e])" "int (Suc i) \<le> max_i64" for i
  proof (cases "Suc i = length as")
    case True
    then have "as \<noteq> []" by auto
    moreover from this have "last as = as ! i" using True by (simp add: last_conv_nth flip: True)
    ultimately show ?thesis using h that True by (simp add: nth_append)
  next
    case False
    then have "Suc i < length as" using that(2) by simp
    then show ?thesis using r that by (auto simp: bid_log_rules_def nth_append)
  qed
  ultimately show ?thesis by (simp add: bid_log_rules_def)
qed

lemma bid_log_attempt:
  assumes ok: "bid_log_ok s sd" and a: "attempt_step env orc s ms sd sd'"
  shows "bid_log_ok s sd'"
proof -
  let ?as = "attempts s sd" and ?st = "slot_state s sd"
  obtain f bs payload e where
    f: "ss_Frozen (slot_state s sd') = Some f" "fp_Bid f = Some bs"
    "\<forall>f'. ss_Frozen ?st = Some f' \<longrightarrow> f' = f"
    and due: "bid_due bs (or_sinceAt orc) (p_BlockHash (sd_heap sd payload)) ?st"
    and e: "attempts s sd' = ?as @ [e]" "be_BlockHash e = p_BlockHash (sd_heap sd payload)"
      "be_Value e = bid_value_of bs (Some (p_BlockValue (sd_heap sd payload))) (ss_BidCount ?st)"
      "be_BidCount e = swrap64 (ss_BidCount ?st + 1)" "ss_BidCount (slot_state s sd') = be_BidCount e"
      "ss_LastBidHash (slot_state s sd') = be_BlockHash e"
    using a unfolding attempt_step_def by blast
  have cnt: "ss_BidCount ?st = swrap64 (int (length ?as))" using ok by (simp add: bid_log_ok_def Let_def)
  have n: "be_BidCount e = swrap64 (int (Suc (length ?as)))" using swrap64_add_left [of "int (length ?as)" 1] by (simp add: e cnt add.commute)
  have old: "?as = [] \<or> bid_log_rules bs ?as"
    using ok f by (auto simp: bid_log_ok_def Let_def)
  have h: "be_BlockHash (last ?as) \<noteq> be_BlockHash e"
    if "rs_IntervalMs bs \<le> 0" "?as \<noteq> []" "int (length ?as) \<le> max_i64"
  proof -
    have "ss_BidCount ?st > 0"
      using that by (simp add: cnt swrap64_id is_i64_def min_i64_def)
    moreover have "ss_LastBidHash ?st = be_BlockHash (last ?as)"
      using ok that by (simp add: bid_log_ok_def Let_def)
    ultimately show ?thesis using due that e(2) by (auto simp: bid_due_def)
  qed
  have "bid_log_rules bs (?as @ [e])"
    by (rule bid_log_rules_snoc [OF old n e(3) [unfolded cnt]]) (use h in blast)
  then show ?thesis using f e n by (simp add: bid_log_ok_def Let_def)
qed

lemma bid_log_run:
  assumes "sv_scheduler sv = Some sd" "bid_log_ok s sd"
  shows "\<exists>sd'. sv_scheduler (svc_run ops sv) = Some sd' \<and> bid_log_ok s sd'"
  using assms
proof (induction ops arbitrary: sv sd)
  case Nil
  then show ?case by (simp add: svc_run_def)
next
  case (Cons op ops)
  have "\<exists>sd'. sv_scheduler (svc_step op sv) = Some sd' \<and> bid_log_ok s sd'"
    using svc_step_scheduler [of op sv s] Cons.prems bid_log_quiet bid_log_attempt bid_log_head
    by (metis option.distinct(1) option.inject)
  then show ?case using Cons.IH by (auto simp: svc_run_def)
qed

text \<open>A closed slot stays closed and quiet.\<close>

lemma closed_run:
  assumes "sv_scheduler sv = Some sd" "ss_BidsClosed (slot_state s sd)"
  shows "\<exists>sd'. sv_scheduler (svc_run ops sv) = Some sd' \<and> ss_BidsClosed (slot_state s sd') \<and>
    attempts s sd' = attempts s sd"
  using assms
proof (induction ops arbitrary: sv sd)
  case Nil
  then show ?case by (simp add: svc_run_def)
next
  case (Cons op ops)
  have "\<exists>sd'. sv_scheduler (svc_step op sv) = Some sd' \<and> ss_BidsClosed (slot_state s sd') \<and>
      attempts s sd' = attempts s sd"
    using svc_step_scheduler [of op sv s] Cons.prems
    by (auto simp: quiet_step_def bid_state_def Let_def attempt_step_def head_step)
  then show ?case using Cons.IH by (fastforce simp: svc_run_def)
qed

lemma no_scheduler_run:
  assumes "sv_scheduler sv = None"
  shows "sv_scheduler (svc_run ops sv) = None"
  using assms
proof (induction ops arbitrary: sv)
  case Nil
  then show ?case by (simp add: svc_run_def)
next
  case (Cons op ops)
  then have "sv_scheduler (svc_step op sv) = None" using svc_step_scheduler [of op sv] by auto
  then show ?case using Cons.IH by (simp add: svc_run_def)
qed

section \<open>Registration\<close>

lemma registered_iff_active:
  "computeRegistrationState fin info = RegistrationStateRegistered \<longleftrightarrow> IsBuilderActive (Some info) fin"
  by (simp add: computeRegistrationState_def IsBuilderActive_def)

text \<open>
  A refresh that finds the builder in the registry turns an unregistered service into a registered
  one without loading the builder's index, which stays the one of \<open>Start\<close>.
\<close>

lemma refresh_keeps_stale_index:
  "let info = \<lparr>bi_Index = 7, bi_Pubkey = pk, bi_Balance = 1, bi_Active = True, bi_DepositEpoch = 3,
               bi_WithdrawableEpoch = FarFutureEpoch, bi_PendingPayments = 0\<rparr>;
       sv = svc_Start DataVersionGloas \<lparr>cv_builders = [], cv_finalized = 4\<rparr> plan heap (NewBidService pk);
       sv' = RefreshRegistrationState \<lparr>cv_builders = [info], cv_finalized = 5\<rparr> sv
   in sv_registrationState sv = RegistrationStateUnregistered \<and> IsRegistered sv' \<and>
      sv_builderIndex sv' \<noteq> bi_Index info \<and>
      (case sv_scheduler sv' of None \<Rightarrow> False | Some sd \<Rightarrow> sd_builderIndex sd \<noteq> bi_Index info)"
  by (simp add: Let_def svc_Start_def start_registration_def builder_by_pubkey_def NewBidService_def
      RefreshRegistrationState_def computeRegistrationState_def IsRegistered_def NewScheduler_def)

text \<open>A service started before Gloas is moved by no epoch: only the lifecycle callbacks do.\<close>

lemma waiting_gloas_stuck:
  assumes "sv_registrationState sv = RegistrationStateWaitingGloas"
  shows "sv_registrationState (fold RefreshRegistrationState cvs sv) = RegistrationStateWaitingGloas"
  using assms by (induction cvs arbitrary: sv) (simp_all add: RefreshRegistrationState_def)

section \<open>Properties\<close>

text \<open>
  C7: The log of a slot.  Whatever the sequence of ticks, head events, bid events, epochs,
  lifecycle callbacks and foreign changes of plans and payloads after the start, the attempts of a
  slot are numbered consecutively; all of them follow one frozen snapshot of the bid settings;
  the \<open>i\<close>-th carries the value of \<open>i\<close> earlier attempts; and in single bid mode no two consecutive
  attempts are for the same payload.\<close>
theorem bid_log_invariant:
  "case sv_scheduler (svc_run ops (svc_Start fork cv plan heap sv)) of
     None \<Rightarrow> False
   | Some sd \<Rightarrow> bid_log_ok s sd"
proof -
  let ?sv = "svc_Start fork cv plan heap sv"
  obtain sd where sd: "sv_scheduler ?sv = Some sd" "sd_events sd = []" "sd_slotStates sd = Map.empty"
    by (auto simp: svc_Start_def NewScheduler_def Let_def)
  then have "bid_log_ok s sd"
    by (simp add: bid_log_ok_def attempts_def slot_state_def zero_SlotState_def Let_def swrap64_id)
  then show ?thesis using bid_log_run [OF sd(1), of s ops] by auto
qed

text \<open>
  C6: Once a block was seen for a slot, no bid is attempted for it any more, in any sequence of
  later events.\<close>
theorem closed_slot_silent:
  "svc_attempts s (svc_run ops (handleHeadEvent s sv)) = svc_attempts s sv"
proof (cases "sv_scheduler sv")
  case None
  then show ?thesis
    by (simp add: svc_attempts_def handleHeadEvent_def on_scheduler_def no_scheduler_run)
next
  case (Some sd)
  then have "sv_scheduler (handleHeadEvent s sv) = Some (OnHeadEvent s sd)"
    by (simp add: handleHeadEvent_def on_scheduler_def)
  moreover have "ss_BidsClosed (slot_state s (OnHeadEvent s sd))" by (simp add: head_step)
  ultimately show ?thesis
    using closed_run [of "handleHeadEvent s sv" "OnHeadEvent s sd" s ops] Some
    by (auto simp: svc_attempts_def head_step)
qed


end
