(* ===== verification/Reveal_Service.thy ===== *)
theory Reveal_Service
  imports Complex_Main Signed_Messages Plan_Service Payment_Tracker
begin

text \<open>
  The reveal service, \<open>pkg/payload_bidder/reveal_service.go\<close>: scheduling of reveal requests under
  the slot's frozen plan, the time and vote gates, publishing with bounded retries, pruning of
  finished entries and the timer.  The pending map is owned by the main loop, which handles one
  event at a time; \<open>reveal_op\<close> are its events.

  Participation percentages are \<open>float64\<close> values; every finite one is a rational number and
  comparing floats is comparing those numbers, so they are \<open>rat\<close> here.  The threshold converts to
  \<open>float64\<close> exactly below \<open>2^53\<close>.  The vote tracker (\<open>None\<close> when absent), the publisher and the
  readings of the clock are inputs of an event.
\<close>

section \<open>State\<close>

record BlockInfo =
  bl_Slot :: slot
  bl_Root :: hash32
  bl_ExecutionBlockHash :: hash32
  bl_FinalitySafeExecutionBlockHash :: hash32
  bl_ParentRoot :: hash32
  bl_StateRoot :: hash32

record BuilderStats =
  bst_SlotsBuilt :: u64
  bst_BidsSubmitted :: u64
  bst_BidsWon :: u64
  bst_BlocksIncluded :: u64
  bst_TotalPaid :: u64
  bst_RevealsSuccess :: u64
  bst_RevealsFailed :: u64
  bst_RevealsSkipped :: u64

definition IncrementBlocksIncluded :: "BuilderStats \<Rightarrow> BuilderStats" where
  "IncrementBlocksIncluded st = st\<lparr>bst_BlocksIncluded := bst_BlocksIncluded st + 1, bst_BidsWon := bst_BidsWon st + 1\<rparr>"

definition IncrementRevealsSuccess :: "BuilderStats \<Rightarrow> BuilderStats" where
  "IncrementRevealsSuccess st = st\<lparr>bst_RevealsSuccess := bst_RevealsSuccess st + 1\<rparr>"

definition IncrementRevealsFailed :: "BuilderStats \<Rightarrow> BuilderStats" where
  "IncrementRevealsFailed st = st\<lparr>bst_RevealsFailed := bst_RevealsFailed st + 1\<rparr>"

record RevealRequest =
  rq_Payload :: payload_ref
  rq_BlockInfo :: BlockInfo
  rq_Transport :: BidTransport

text \<open>A request as it arrives: the payload or the block may be missing (nil).\<close>

record raw_request =
  rw_Payload :: "payload_ref option"
  rw_BlockInfo :: "BlockInfo option"
  rw_Transport :: BidTransport

datatype RevealSkipReason = RevealSkipReasonPlanDisabled | RevealSkipReasonDisabled
  | RevealSkipReasonLate | RevealSkipReasonVoteGateTimeout

record RevealStarted =
  rsd_Slot :: slot
  rsd_Transport :: BidTransport
  rsd_Attempt :: int
  rsd_StartedAt :: gotime

record ('x, 'r) RevealResult =
  rr_Slot :: slot
  rrs_Transport :: BidTransport
  rr_Success :: bool
  rr_Skipped :: bool
  rr_SkipReason :: "RevealSkipReason option"
  rr_Error :: "message_error option"
  rr_Attempt :: int
  rr_MaxAttempts :: int
  rr_StartedAt :: "gotime option"
  rr_CompletedAt :: "gotime option"
  rr_Envelope :: "('x, 'r) SignedEnvelope option"

record ('x, 'r) revealState =
  rst_req :: RevealRequest
  rst_settings :: ResolvedRevealSettings
  rst_envelope :: "('x, 'r) SignedEnvelope option"
  rst_blobs :: "u8 list list"
  rst_proofs :: "u8 list list"
  rst_attempts :: int
  rst_attemptStartedAt :: "gotime option"
  rst_voteGateMet :: bool
  rst_timeDue :: gotime
  rst_expiry :: gotime
  rst_nextAttempt :: gotime
  rst_done :: bool

record HeadVoteUpdate =
  hv_Slot :: slot
  hv_BlockRoot :: hash32
  hv_ParticipationPct :: rat
  hv_ParticipationETH :: u64
  hv_TotalSlotETH :: u64
  hv_VoteCount :: int
  hv_TotalMembers :: nat
  hv_ThresholdPct :: rat
  hv_ThresholdMet :: bool
  hv_Timestamp :: i64

record ('x, 'r) RevealService =
  rvs_pending :: "slot \<rightharpoonup> ('x, 'r) revealState"
  rvs_requests :: "raw_request option list"
  rvs_builderIndex :: u64
  rvs_planSvc :: PlanService
  rvs_heap :: "('x, 'r) build_data payload_heap"
  rvs_payments :: "PaymentTracker option"
  rvs_stats :: BuilderStats
  rvs_results :: "('x, 'r) RevealResult list"
  rvs_starts :: "RevealStarted list"

record ('x, 'r) reveal_env =
  rve_lib :: "('x, 'r) msg_lib"
  rve_spec :: ChainSpec
  rve_genesisTime :: gotime
  rve_genesisRoot :: hash32
  rve_cfg :: Config
  rve_freezeAt :: gotime
  rve_votes :: "(slot \<Rightarrow> hash32 \<Rightarrow> rat option) option"
  rve_publish :: "('x, 'r) SignedEnvelope \<Rightarrow> u8 list list \<Rightarrow> u8 list list \<Rightarrow> string \<Rightarrow> bool"
  rve_startedAt :: "slot \<Rightarrow> gotime"
  rve_completedAt :: "slot \<Rightarrow> gotime"

section \<open>Gates\<close>

definition voteGated :: "('x, 'r) revealState \<Rightarrow> bool" where
  "voteGated st \<longleftrightarrow> rv_GateMode (rst_settings st) \<in> {RevealGateVote, RevealGateVoteOrTime, RevealGateVoteAndTime}"

definition gateSatisfied :: "gotime \<Rightarrow> ('x, 'r) revealState \<Rightarrow> bool" where
  "gateSatisfied now st =
     (let mode = rv_GateMode (rst_settings st) in
      if mode = RevealGateVote then rst_voteGateMet st
      else if mode = RevealGateVoteOrTime then rst_voteGateMet st \<or> \<not> now < rst_timeDue st
      else if mode = RevealGateVoteAndTime then rst_voteGateMet st \<and> \<not> now < rst_timeDue st
      else \<not> now < rst_timeDue st)"

definition pct_reaches :: "rat \<Rightarrow> ResolvedRevealSettings \<Rightarrow> bool" where
  "pct_reaches pct settings \<longleftrightarrow> \<not> pct < of_int (uint (rv_VoteThresholdPct settings))"

definition handleVoteUpdate ::
  "gotime \<Rightarrow> HeadVoteUpdate \<Rightarrow> ('x, 'r) RevealService \<Rightarrow> ('x, 'r) RevealService" where
  "handleVoteUpdate now update sv =
     (case rvs_pending sv (hv_Slot update) of
        None \<Rightarrow> sv
      | Some st \<Rightarrow>
          if rst_done st \<or> rst_voteGateMet st \<or> \<not> voteGated st then sv
          else if rst_attempts st > 0
            then sv\<lparr>rvs_pending := (rvs_pending sv)(hv_Slot update \<mapsto> st\<lparr>rst_voteGateMet := True\<rparr>)\<rparr>
          else if hv_BlockRoot update \<noteq> bl_Root (rq_BlockInfo (rst_req st)) \<or>
                  \<not> pct_reaches (hv_ParticipationPct update) (rst_settings st) then sv
          else
            (let nxt = (if rv_GateMode (rst_settings st) = RevealGateVoteAndTime \<and> rst_timeDue st > now
                        then rst_timeDue st else now)
             in sv\<lparr>rvs_pending := (rvs_pending sv)(hv_Slot update \<mapsto>
                    st\<lparr>rst_voteGateMet := True, rst_nextAttempt := nxt\<rparr>)\<rparr>))"

section \<open>Requests\<close>

definition requests_cap :: nat where
  "requests_cap = 16"

definition RequestReveal :: "raw_request option \<Rightarrow> ('x, 'r) RevealService \<Rightarrow> ('x, 'r) RevealService" where
  "RequestReveal req sv =
     (if length (rvs_requests sv) < requests_cap then sv\<lparr>rvs_requests := rvs_requests sv @ [req]\<rparr> else sv)"

definition fire_result :: "('x, 'r) RevealResult \<Rightarrow> ('x, 'r) RevealService \<Rightarrow> ('x, 'r) RevealService" where
  "fire_result r sv = sv\<lparr>rvs_results := rvs_results sv @ [r]\<rparr>"

definition skip_result :: "slot \<Rightarrow> BidTransport \<Rightarrow> RevealSkipReason \<Rightarrow> int \<Rightarrow> ('x, 'r) RevealResult" where
  "skip_result s transport reason maxAttempts =
     \<lparr>rr_Slot = s, rrs_Transport = transport, rr_Success = False, rr_Skipped = True,
      rr_SkipReason = Some reason, rr_Error = None, rr_Attempt = 0, rr_MaxAttempts = maxAttempts,
      rr_StartedAt = None, rr_CompletedAt = None, rr_Envelope = None\<rparr>"

definition max_attempts :: "ResolvedRevealSettings \<Rightarrow> int" where
  "max_attempts settings = i64_of_u64 (rv_MaxAttempts settings)"

definition new_state :: "RevealRequest \<Rightarrow> ResolvedRevealSettings \<Rightarrow> ('x, 'r) revealState" where
  "new_state req settings =
     \<lparr>rst_req = req, rst_settings = settings, rst_envelope = None, rst_blobs = [], rst_proofs = [],
      rst_attempts = 0, rst_attemptStartedAt = None, rst_voteGateMet = False, rst_timeDue = 0,
      rst_expiry = 0, rst_nextAttempt = 0, rst_done = False\<rparr>"

definition first_attempt :: "string \<Rightarrow> bool \<Rightarrow> gotime \<Rightarrow> gotime \<Rightarrow> gotime \<Rightarrow> gotime" where
  "first_attempt mode met now timeDue expiry =
     (let nxt = (if mode = RevealGateVote then (if met then now else expiry)
                 else if mode = RevealGateVoteOrTime then (if met then now else timeDue)
                 else if mode = RevealGateVoteAndTime then (if met then timeDue else expiry)
                 else timeDue)
      in if nxt < now then now else nxt)"

definition participation_met ::
  "('x, 'r) reveal_env \<Rightarrow> slot \<Rightarrow> ('x, 'r) revealState \<Rightarrow> bool" where
  "participation_met env s st =
     (voteGated st \<and>
      (case rve_votes env of None \<Rightarrow> False
       | Some votes \<Rightarrow>
           (case votes s (bl_Root (rq_BlockInfo (rst_req st))) of None \<Rightarrow> False
            | Some p \<Rightarrow> pct_reaches p (rst_settings st))))"

definition schedule_state ::
  "('x, 'r) reveal_env \<Rightarrow> gotime \<Rightarrow> slot \<Rightarrow> RevealRequest \<Rightarrow> ResolvedRevealSettings \<Rightarrow> ('x, 'r) revealState" where
  "schedule_state env now s req settings =
     (let slotStart = SlotToTime (rve_spec env) (rve_genesisTime env) s;
          slotDuration = SecondsPerSlot (rve_spec env);
          timeDue = time_add slotStart (dur_mul (rv_RevealTimeMs settings) nanos_per_ms);
          deadline = time_add slotStart slotDuration;
          expiry = (if rv_BypassDeadline settings then time_add deadline slotDuration else deadline);
          st = (new_state req settings)\<lparr>rst_timeDue := timeDue, rst_expiry := expiry\<rparr>;
          met = participation_met env s st
      in st\<lparr>rst_voteGateMet := met,
            rst_nextAttempt := first_attempt (rv_GateMode settings) met now timeDue expiry\<rparr>)"

definition schedule_valid ::
  "('x, 'r) reveal_env \<Rightarrow> gotime \<Rightarrow> RevealRequest \<Rightarrow> ('x, 'r) RevealService \<Rightarrow> ('x, 'r) RevealService" where
  "schedule_valid env now req sv =
     (let s = p_ProposalSlot (rvs_heap sv (rq_Payload req)) in
      if rvs_pending sv s \<noteq> None then sv
      else case Freeze (rve_spec env) (rve_cfg env) (rve_freezeAt env) s (rvs_planSvc sv) of (frozen, plan) \<Rightarrow>
        (let sv = sv\<lparr>rvs_planSvc := plan\<rparr>;
             settings = fp_Reveal frozen;
             finished = (new_state req settings)\<lparr>rst_done := True\<rparr>
         in if rv_Suppressed settings then
              fire_result (skip_result s (rq_Transport req)
                 (if (case Option.bind (fp_Plan frozen) sp_Reveal of None \<Rightarrow> False | Some r \<Rightarrow> rp_Mode r = ModeDisabled)
                  then RevealSkipReasonPlanDisabled else RevealSkipReasonDisabled) (max_attempts settings))
                (sv\<lparr>rvs_pending := (rvs_pending sv)(s \<mapsto> finished)\<rparr>)
            else if \<not> rv_BypassDeadline settings \<and>
                    now > time_add (SlotToTime (rve_spec env) (rve_genesisTime env) s) (SecondsPerSlot (rve_spec env)) then
              fire_result (skip_result s (rq_Transport req) RevealSkipReasonLate (max_attempts settings))
                (sv\<lparr>rvs_pending := (rvs_pending sv)(s \<mapsto> finished)\<rparr>)
            else sv\<lparr>rvs_pending := (rvs_pending sv)(s \<mapsto> schedule_state env now s req settings)\<rparr>))"

definition schedule ::
  "('x, 'r) reveal_env \<Rightarrow> gotime \<Rightarrow> raw_request option \<Rightarrow> ('x, 'r) RevealService \<Rightarrow> ('x, 'r) RevealService" where
  "schedule env now req sv =
     (case req of None \<Rightarrow> sv | Some r \<Rightarrow>
        (case (rw_Payload r, rw_BlockInfo r) of
           (Some p, Some b) \<Rightarrow>
             schedule_valid env now \<lparr>rq_Payload = p, rq_BlockInfo = b, rq_Transport = rw_Transport r\<rparr> sv
         | _ \<Rightarrow> sv))"

section \<open>Publishing\<close>

definition buildEnvelope ::
  "('x, 'r) reveal_env \<Rightarrow> RevealRequest \<Rightarrow> ('x, 'r) RevealService \<Rightarrow>
   (message_error + (('x, 'r) SignedEnvelope \<times> u8 list list \<times> u8 list list)) \<times> ('x, 'r) RevealService" where
  "buildEnvelope env req sv =
     (let payload = rvs_heap sv (rq_Payload req);
          s = p_ProposalSlot payload;
          fork = ActiveForkAtEpoch (rve_spec env) (GetEpochOfSlot (rve_spec env) s)
      in case spec_GetForkVersion (rve_spec env) fork of
           None \<Rightarrow> (Inl ForkVersionFailed, sv)
         | Some forkVersion \<Rightarrow>
             (case Freeze (rve_spec env) (rve_cfg env) (rve_freezeAt env) s (rvs_planSvc sv) of (frozen, plan) \<Rightarrow>
                (BuildSignedEnvelope (rve_lib env) payload
                   \<lparr>rx_BuilderIndex = rvs_builderIndex sv,
                    rx_BeaconBlockRoot = bl_Root (rq_BlockInfo req),
                    rx_ParentBeaconBlockRoot = bl_ParentRoot (rq_BlockInfo req),
                    rx_Transform = (case fp_Transforms frozen of None \<Rightarrow> [] | Some t \<Rightarrow> rt_Envelope t)\<rparr>
                   forkVersion (rve_genesisRoot env),
                 sv\<lparr>rvs_planSvc := plan\<rparr>)))"

definition attempt_result ::
  "('x, 'r) reveal_env \<Rightarrow> slot \<Rightarrow> ('x, 'r) revealState \<Rightarrow> message_error option \<Rightarrow> ('x, 'r) RevealResult" where
  "attempt_result env s st err =
     \<lparr>rr_Slot = s, rrs_Transport = rq_Transport (rst_req st), rr_Success = (err = None), rr_Skipped = False,
      rr_SkipReason = None, rr_Error = err, rr_Attempt = rst_attempts st,
      rr_MaxAttempts = max_attempts (rst_settings st), rr_StartedAt = rst_attemptStartedAt st,
      rr_CompletedAt = Some (rve_completedAt env s), rr_Envelope = rst_envelope st\<rparr>"

definition set_state :: "slot \<Rightarrow> ('x, 'r) revealState \<Rightarrow> ('x, 'r) RevealService \<Rightarrow> ('x, 'r) RevealService" where
  "set_state s st sv = sv\<lparr>rvs_pending := (rvs_pending sv)(s \<mapsto> st)\<rparr>"

definition handlePublishFailure ::
  "('x, 'r) reveal_env \<Rightarrow> gotime \<Rightarrow> slot \<Rightarrow> ('x, 'r) revealState \<Rightarrow> message_error \<Rightarrow>
   ('x, 'r) RevealService \<Rightarrow> ('x, 'r) RevealService" where
  "handlePublishFailure env now s st err sv =
     (let sv = fire_result (attempt_result env s st (Some err)) sv in
      if rst_attempts st \<ge> max_attempts (rst_settings st)
      then set_state s (st\<lparr>rst_done := True\<rparr>) (sv\<lparr>rvs_stats := IncrementRevealsFailed (rvs_stats sv)\<rparr>)
      else set_state s (st\<lparr>rst_nextAttempt :=
             time_add now (dur_mul (rv_RetryIntervalMs (rst_settings st)) nanos_per_ms)\<rparr>) sv)"

definition reveal_success ::
  "('x, 'r) reveal_env \<Rightarrow> gotime \<Rightarrow> slot \<Rightarrow> ('x, 'r) revealState \<Rightarrow> ('x, 'r) RevealService \<Rightarrow> ('x, 'r) RevealService" where
  "reveal_success env now s st sv =
     fire_result (attempt_result env s st None)
       (set_state s (st\<lparr>rst_done := True\<rparr>)
         (sv\<lparr>rvs_heap := MarkRevealed (rq_Payload (rst_req st))
                \<lparr>rr_Transport = rq_Transport (rst_req st), rr_BeaconBlockRoot = bl_Root (rq_BlockInfo (rst_req st)),
                 rr_At = now\<rparr> (rvs_heap sv),
              rvs_payments := map_option (pt_MarkRevealed (rve_spec env) s) (rvs_payments sv),
              rvs_stats := IncrementRevealsSuccess (rvs_stats sv)\<rparr>))"

definition with_envelope ::
  "('x, 'r) reveal_env \<Rightarrow> ('x, 'r) revealState \<Rightarrow> ('x, 'r) RevealService \<Rightarrow>
   (message_error + ('x, 'r) revealState) \<times> ('x, 'r) RevealService" where
  "with_envelope env st sv =
     (case rst_envelope st of
        Some _ \<Rightarrow> (Inr st, sv)
      | None \<Rightarrow>
          (case buildEnvelope env (rst_req st) sv of
             (Inl e, sv) \<Rightarrow> (Inl e, sv)
           | (Inr (envelope, blobs, proofs), sv) \<Rightarrow>
               (Inr (st\<lparr>rst_envelope := Some envelope, rst_blobs := blobs, rst_proofs := proofs\<rparr>), sv)))"

definition attempt_reveal ::
  "('x, 'r) reveal_env \<Rightarrow> gotime \<Rightarrow> slot \<Rightarrow> ('x, 'r) revealState \<Rightarrow> ('x, 'r) RevealService \<Rightarrow> ('x, 'r) RevealService" where
  "attempt_reveal env now s st sv =
     (let st = st\<lparr>rst_attempts := swrap64 (rst_attempts st + 1), rst_attemptStartedAt := Some (rve_startedAt env s)\<rparr>;
          sv = sv\<lparr>rvs_starts := rvs_starts sv @ [\<lparr>rsd_Slot = s, rsd_Transport = rq_Transport (rst_req st),
                 rsd_Attempt = rst_attempts st, rsd_StartedAt = rve_startedAt env s\<rparr>]\<rparr>
      in case with_envelope env st sv of
           (Inl e, sv) \<Rightarrow> handlePublishFailure env now s st e sv
         | (Inr st, sv) \<Rightarrow>
             if \<not> rve_publish env (the (rst_envelope st)) (rst_blobs st) (rst_proofs st)
                    (rv_BroadcastValidation (rst_settings st))
             then handlePublishFailure env now s st SubmitFailed sv
             else reveal_success env now s st sv)"

definition process_slot ::
  "('x, 'r) reveal_env \<Rightarrow> gotime \<Rightarrow> slot \<Rightarrow> ('x, 'r) RevealService \<Rightarrow> ('x, 'r) RevealService" where
  "process_slot env now s sv =
     (case rvs_pending sv s of None \<Rightarrow> sv | Some st \<Rightarrow>
        if rst_done st \<or> rst_nextAttempt st > now then sv
        else if \<not> gateSatisfied now st then
          (if now < rst_expiry st then set_state s (st\<lparr>rst_nextAttempt := rst_expiry st\<rparr>) sv
           else fire_result (skip_result s (rq_Transport (rst_req st)) RevealSkipReasonVoteGateTimeout
                   (max_attempts (rst_settings st)))
                  (set_state s (st\<lparr>rst_done := True\<rparr>) sv))
        else attempt_reveal env now s st sv)"

definition pruneDone :: "('x, 'r) reveal_env \<Rightarrow> gotime \<Rightarrow> ('x, 'r) RevealService \<Rightarrow> ('x, 'r) RevealService" where
  "pruneDone env now sv =
     sv\<lparr>rvs_pending := range_delete (\<lambda>s st. rst_done st \<and>
          now > time_add (SlotToTime (rve_spec env) (rve_genesisTime env) s) (dur_mul 2 (SecondsPerSlot (rve_spec env))))
        (rvs_pending sv)\<rparr>"

definition processDue ::
  "('x, 'r) reveal_env \<Rightarrow> gotime \<Rightarrow> slot list \<Rightarrow> ('x, 'r) RevealService \<Rightarrow> ('x, 'r) RevealService" where
  "processDue env now ks sv = pruneDone env now (fold (process_slot env now) ks sv)"

definition one_hour :: duration where
  "one_hour = 3600 * nanos_per_s"

definition rearm_scan :: "gotime \<Rightarrow> ('x, 'r) RevealService \<Rightarrow> slot \<Rightarrow> duration \<Rightarrow> duration" where
  "rearm_scan now sv s nxt =
     (case rvs_pending sv s of None \<Rightarrow> nxt | Some st \<Rightarrow>
        if rst_done st then nxt
        else if time_sub (rst_nextAttempt st) now < nxt then time_sub (rst_nextAttempt st) now else nxt)"

definition rearm :: "gotime \<Rightarrow> slot list \<Rightarrow> ('x, 'r) RevealService \<Rightarrow> duration" where
  "rearm now ks sv = (let nxt = fold (rearm_scan now sv) ks one_hour in if nxt < 0 then 0 else nxt)"

section \<open>Runs of the main loop\<close>

definition NewRevealService ::
  "PlanService \<Rightarrow> ('x, 'r) build_data payload_heap \<Rightarrow> PaymentTracker option \<Rightarrow> BuilderStats \<Rightarrow> ('x, 'r) RevealService" where
  "NewRevealService plan heap payments stats =
     \<lparr>rvs_pending = Map.empty, rvs_requests = [], rvs_builderIndex = 0, rvs_planSvc = plan, rvs_heap = heap,
      rvs_payments = payments, rvs_stats = stats, rvs_results = [], rvs_starts = []\<rparr>"

definition receive :: "('x, 'r) reveal_env \<Rightarrow> gotime \<Rightarrow> ('x, 'r) RevealService \<Rightarrow> ('x, 'r) RevealService" where
  "receive env now sv =
     (case rvs_requests sv of [] \<Rightarrow> sv | r # rs \<Rightarrow> schedule env now r (sv\<lparr>rvs_requests := rs\<rparr>))"

text \<open>\<open>RvOther\<close> is what other goroutines do to the shared plans, payloads and payments.\<close>

datatype ('x, 'r) reveal_op =
    RvRequest "raw_request option"
  | RvReceive "('x, 'r) reveal_env" gotime
  | RvVote gotime HeadVoteUpdate
  | RvTimer "('x, 'r) reveal_env" gotime "slot list"
  | RvIndex u64
  | RvOther PlanService "('x, 'r) build_data payload_heap" "PaymentTracker option"

fun reveal_step :: "('x, 'r) reveal_op \<Rightarrow> ('x, 'r) RevealService \<Rightarrow> ('x, 'r) RevealService" where
  "reveal_step (RvRequest r) sv = RequestReveal r sv"
| "reveal_step (RvReceive env now) sv = receive env now sv"
| "reveal_step (RvVote now update) sv = handleVoteUpdate now update sv"
| "reveal_step (RvTimer env now ks) sv = processDue env now ks sv"
| "reveal_step (RvIndex i) sv = sv\<lparr>rvs_builderIndex := i\<rparr>"
| "reveal_step (RvOther plan heap payments) sv = sv\<lparr>rvs_planSvc := plan, rvs_heap := heap, rvs_payments := payments\<rparr>"

definition reveal_run :: "('x, 'r) reveal_op list \<Rightarrow> ('x, 'r) RevealService \<Rightarrow> ('x, 'r) RevealService" where
  "reveal_run ops sv = fold reveal_step ops sv"

section \<open>What happens to one slot\<close>

definition results_for :: "slot \<Rightarrow> ('x, 'r) RevealService \<Rightarrow> ('x, 'r) RevealResult list" where
  "results_for s sv = filter (\<lambda>r. rr_Slot r = s) (rvs_results sv)"

definition starts_for :: "slot \<Rightarrow> ('x, 'r) RevealService \<Rightarrow> RevealStarted list" where
  "starts_for s sv = filter (\<lambda>r. rsd_Slot r = s) (rvs_starts sv)"

lemma gate_modes_distinct [simp]:
  "RevealGateVote \<noteq> RevealGateVoteOrTime" "RevealGateVote \<noteq> RevealGateVoteAndTime"
  "RevealGateVoteOrTime \<noteq> RevealGateVoteAndTime"
  "RevealGateVoteOrTime \<noteq> RevealGateVote" "RevealGateVoteAndTime \<noteq> RevealGateVote"
  "RevealGateVoteAndTime \<noteq> RevealGateVoteOrTime"
  by (simp_all add: RevealGateVote_def RevealGateVoteOrTime_def RevealGateVoteAndTime_def)

lemma skip_result_simps [simp]:
  "rr_Slot (skip_result s tr re m) = s" "rr_Skipped (skip_result s tr re m)"
  "\<not> rr_Success (skip_result s tr re m)" "rr_SkipReason (skip_result s tr re m) = Some re"
  by (simp_all add: skip_result_def)

lemma attempt_result_simps [simp]:
  "rr_Slot (attempt_result env s st e) = s" "\<not> rr_Skipped (attempt_result env s st e)"
  "rr_Success (attempt_result env s st e) \<longleftrightarrow> e = None"
  "rr_Attempt (attempt_result env s st e) = rst_attempts st"
  "rr_Envelope (attempt_result env s st e) = rst_envelope st"
  by (simp_all add: attempt_result_def)

lemma fire_frame [simp]:
  "rvs_pending (fire_result r sv) = rvs_pending sv" "rvs_starts (fire_result r sv) = rvs_starts sv"
  "rvs_heap (fire_result r sv) = rvs_heap sv" "rvs_results (fire_result r sv) = rvs_results sv @ [r]"
  "rvs_stats (fire_result r sv) = rvs_stats sv" "rvs_builderIndex (fire_result r sv) = rvs_builderIndex sv"
  by (simp_all add: fire_result_def)

lemma set_state_frame [simp]:
  "rvs_pending (set_state s st sv) = (rvs_pending sv)(s \<mapsto> st)" "rvs_starts (set_state s st sv) = rvs_starts sv"
  "rvs_heap (set_state s st sv) = rvs_heap sv" "rvs_results (set_state s st sv) = rvs_results sv"
  "rvs_builderIndex (set_state s st sv) = rvs_builderIndex sv"
  by (simp_all add: set_state_def)

lemma buildEnvelope_frame:
  assumes "buildEnvelope env req sv = (res, sv')"
  shows "rvs_pending sv' = rvs_pending sv" "rvs_results sv' = rvs_results sv" "rvs_starts sv' = rvs_starts sv"
    "rvs_heap sv' = rvs_heap sv" "rvs_builderIndex sv' = rvs_builderIndex sv"
  using assms by (auto simp: buildEnvelope_def Let_def split: option.splits prod.splits)

lemma with_envelope_frame:
  assumes "with_envelope env st sv = (res, sv')"
  shows "rvs_pending sv' = rvs_pending sv" "rvs_results sv' = rvs_results sv" "rvs_starts sv' = rvs_starts sv"
    "rvs_heap sv' = rvs_heap sv" "rvs_builderIndex sv' = rvs_builderIndex sv"
  using assms buildEnvelope_frame [of env "rst_req st" sv]
  by (auto simp: with_envelope_def split: option.splits prod.splits sum.splits)

text \<open>
  An envelope built for a request: a signed envelope for some version of the payload, bound to the
  roots of the committing block.
\<close>

definition envelope_for :: "('x, 'r) revealState \<Rightarrow> ('x, 'r) SignedEnvelope \<Rightarrow> bool" where
  "envelope_for st e \<longleftrightarrow>
     (\<exists>lib p rc v g. BuildSignedEnvelope lib p rc v g = Inr (e, rst_blobs st, rst_proofs st) \<and>
        rx_BeaconBlockRoot rc = bl_Root (rq_BlockInfo (rst_req st)) \<and>
        rx_ParentBeaconBlockRoot rc = bl_ParentRoot (rq_BlockInfo (rst_req st)))"

lemma envelope_for_frame [simp]:
  "envelope_for (st\<lparr>rst_done := d\<rparr>) = envelope_for st"
  "envelope_for (st\<lparr>rst_nextAttempt := n\<rparr>) = envelope_for st"
  "envelope_for (st\<lparr>rst_voteGateMet := v\<rparr>) = envelope_for st"
  by (simp_all add: fun_eq_iff envelope_for_def)

lemma with_envelope_Inr:
  assumes "with_envelope env st sv = (Inr st', sv')" "pred_option (envelope_for st) (rst_envelope st)"
  shows "\<exists>e blobs proofs. st' = st\<lparr>rst_envelope := Some e, rst_blobs := blobs, rst_proofs := proofs\<rparr> \<and> envelope_for st' e"
proof (cases "rst_envelope st")
  case (Some e)
  then have st': "st' = st" using assms(1) by (simp add: with_envelope_def)
  have "st\<lparr>rst_envelope := Some e, rst_blobs := rst_blobs st, rst_proofs := rst_proofs st\<rparr> = st"
    by (simp flip: Some)
  moreover have "envelope_for st e" using assms(2) Some by simp
  ultimately show ?thesis using st' by metis
next
  case None
  obtain e blobs proofs where b: "buildEnvelope env (rst_req st) sv = (Inr (e, blobs, proofs), sv')"
    and st': "st' = st\<lparr>rst_envelope := Some e, rst_blobs := blobs, rst_proofs := proofs\<rparr>"
    using assms(1) None by (auto simp: with_envelope_def split: prod.splits sum.splits)
  have "envelope_for st' e"
    using b unfolding envelope_for_def st'
    by (fastforce simp: buildEnvelope_def Let_def split: option.splits prod.splits)
  then show ?thesis using st' by blast
qed

text \<open>The outcome of an attempt for a slot with entry \<open>st\<close>: the new entry, the result and the start.\<close>

definition same_job :: "('x, 'r) revealState \<Rightarrow> ('x, 'r) revealState \<Rightarrow> bool" where
  "same_job st st' \<longleftrightarrow> rst_req st' = rst_req st \<and> rst_settings st' = rst_settings st \<and>
     rst_voteGateMet st' = rst_voteGateMet st \<and> rst_timeDue st' = rst_timeDue st \<and> rst_expiry st' = rst_expiry st"

definition attempt_outcome ::
  "('x, 'r) reveal_env \<Rightarrow> slot \<Rightarrow> ('x, 'r) revealState \<Rightarrow> ('x, 'r) revealState \<Rightarrow> ('x, 'r) RevealResult \<Rightarrow>
   RevealStarted \<Rightarrow> ('x, 'r) build_data payload_heap \<Rightarrow> bool" where
  "attempt_outcome env s st st' r b h' \<longleftrightarrow>
     same_job st st' \<and> rst_attempts st' = swrap64 (rst_attempts st + 1) \<and>
     rsd_Slot b = s \<and> rsd_Attempt b = rst_attempts st' \<and>
     rr_Slot r = s \<and> \<not> rr_Skipped r \<and> rr_Attempt r = rst_attempts st' \<and>
     (rst_done st' \<longleftrightarrow> rr_Success r \<or> rst_attempts st' \<ge> max_attempts (rst_settings st)) \<and>
     pred_option (envelope_for st') (rst_envelope st') \<and>
     (rr_Success r \<longrightarrow>
        Reveal (rq_Payload (rst_req st)) h' \<noteq> None \<and>
        (\<exists>e. rr_Envelope r = Some e \<and> envelope_for st' e \<and>
           rve_publish env e (rst_blobs st') (rst_proofs st') (rv_BroadcastValidation (rst_settings st))))"

lemma marked_reveal: "Reveal p (MarkRevealed p rec h) \<noteq> None"
  by (simp add: Reveal_def MarkRevealed_def)

lemma attempt_reveal_outcome:
  assumes nd: "\<not> rst_done st" and env: "pred_option (envelope_for st) (rst_envelope st)"
  shows "\<exists>st' r b. let sv' = attempt_reveal env now s st sv in
      attempt_outcome env s st st' r b (rvs_heap sv') \<and> rvs_pending sv' = (rvs_pending sv)(s \<mapsto> st') \<and>
      rvs_results sv' = rvs_results sv @ [r] \<and> rvs_starts sv' = rvs_starts sv @ [b]"
proof -
  define st1 where "st1 = st\<lparr>rst_attempts := swrap64 (rst_attempts st + 1), rst_attemptStartedAt := Some (rve_startedAt env s)\<rparr>"
  define b where "b = \<lparr>rsd_Slot = s, rsd_Transport = rq_Transport (rst_req st1),
      rsd_Attempt = rst_attempts st1, rsd_StartedAt = rve_startedAt env s\<rparr>"
  define sv1 where "sv1 = sv\<lparr>rvs_starts := rvs_starts sv @ [b]\<rparr>"
  have st1: "pred_option (envelope_for st1) (rst_envelope st1)" "\<not> rst_done st1"
    using env nd by (auto simp: st1_def envelope_for_def pred_option_def)
  obtain res sv2 where w: "with_envelope env st1 sv1 = (res, sv2)" by (cases "with_envelope env st1 sv1")
  note fr = with_envelope_frame [OF w]
  have a: "attempt_reveal env now s st sv = (case res of
      Inl e \<Rightarrow> handlePublishFailure env now s st1 e sv2
    | Inr st2 \<Rightarrow> if \<not> rve_publish env (the (rst_envelope st2)) (rst_blobs st2) (rst_proofs st2)
                    (rv_BroadcastValidation (rst_settings st2))
             then handlePublishFailure env now s st2 SubmitFailed sv2 else reveal_success env now s st2 sv2)"
    unfolding attempt_reveal_def st1_def [symmetric] b_def [symmetric] sv1_def [symmetric] Let_def w by simp
  have fail: "\<exists>st' r. let sv' = handlePublishFailure env now s st2 e sv2 in
      attempt_outcome env s st st' r b (rvs_heap sv') \<and> rvs_pending sv' = (rvs_pending sv)(s \<mapsto> st') \<and>
      rvs_results sv' = rvs_results sv @ [r] \<and> rvs_starts sv' = rvs_starts sv @ [b]"
    if "same_job st st2" "rst_attempts st2 = rst_attempts st1" "\<not> rst_done st2"
      "pred_option (envelope_for st2) (rst_envelope st2)" for st2 e
  proof -
    let ?st' = "if rst_attempts st2 \<ge> max_attempts (rst_settings st2) then st2\<lparr>rst_done := True\<rparr>
      else st2\<lparr>rst_nextAttempt := time_add now (dur_mul (rv_RetryIntervalMs (rst_settings st2)) nanos_per_ms)\<rparr>"
    let ?r = "attempt_result env s st2 (Some e)" and ?sv' = "handlePublishFailure env now s st2 e sv2"
    have "attempt_outcome env s st ?st' ?r b (rvs_heap ?sv')"
      using that unfolding attempt_outcome_def by (auto simp: same_job_def b_def st1_def)
    moreover have "rvs_pending ?sv' = (rvs_pending sv)(s \<mapsto> ?st')" "rvs_results ?sv' = rvs_results sv @ [?r]"
      "rvs_starts ?sv' = rvs_starts sv @ [b]"
      using fr by (auto simp: handlePublishFailure_def Let_def sv1_def)
    ultimately show ?thesis unfolding Let_def by blast
  qed
  show ?thesis
  proof (cases res)
    case (Inl e)
    have "same_job st st1" by (simp add: same_job_def st1_def)
    then show ?thesis using a Inl fail [of st1 e] st1 by (auto simp: Let_def)
  next
    case (Inr st2)
    obtain e blobs proofs where st2: "st2 = st1\<lparr>rst_envelope := Some e, rst_blobs := blobs, rst_proofs := proofs\<rparr>"
      and e: "envelope_for st2 e"
      using with_envelope_Inr [OF w [unfolded Inr] st1(1)] by blast
    have job: "same_job st st2" "rst_attempts st2 = rst_attempts st1" "\<not> rst_done st2"
      "pred_option (envelope_for st2) (rst_envelope st2)"
      using e st1(2) by (simp_all add: st2 same_job_def st1_def)
    show ?thesis
    proof (cases "rve_publish env (the (rst_envelope st2)) (rst_blobs st2) (rst_proofs st2)
                    (rv_BroadcastValidation (rst_settings st2))")
      case False
      then show ?thesis using a Inr fail [OF job, of SubmitFailed] by (auto simp: Let_def)
    next
      case True
      let ?sv' = "reveal_success env now s st2 sv2"
      let ?st' = "st2\<lparr>rst_done := True\<rparr>" and ?r = "attempt_result env s st2 None"
      have "attempt_outcome env s st ?st' ?r b (rvs_heap ?sv')"
        using job e True unfolding attempt_outcome_def
        by (simp add: same_job_def reveal_success_def marked_reveal b_def st1_def envelope_for_def st2)
      moreover have "rvs_pending ?sv' = (rvs_pending sv)(s \<mapsto> ?st')" "rvs_results ?sv' = rvs_results sv @ [?r]"
        "rvs_starts ?sv' = rvs_starts sv @ [b]"
        using fr by (simp_all add: reveal_success_def sv1_def)
      ultimately show ?thesis using a Inr True by (auto simp: Let_def)
    qed
  qed
qed

section \<open>The invariant of an entry\<close>

definition strict_vote :: "('x, 'r) revealState \<Rightarrow> bool" where
  "strict_vote st \<longleftrightarrow> rv_GateMode (rst_settings st) \<in> {RevealGateVote, RevealGateVoteAndTime}"

definition budget :: "('x, 'r) revealState \<Rightarrow> int" where
  "budget st = max 1 (max_attempts (rst_settings st))"

text \<open>The participation figures a run has seen for a block, from vote updates and from lookups.\<close>

definition votes_seen :: "('x, 'r) reveal_op list \<Rightarrow> slot \<Rightarrow> hash32 \<Rightarrow> rat \<Rightarrow> bool" where
  "votes_seen ops s blockRoot pct \<longleftrightarrow>
     (\<exists>now update. RvVote now update \<in> set ops \<and> hv_Slot update = s \<and> hv_BlockRoot update = blockRoot \<and>
        hv_ParticipationPct update = pct) \<or>
     (\<exists>env now votes. RvReceive env now \<in> set ops \<and> rve_votes env = Some votes \<and> votes s blockRoot = Some pct)"

definition vote_evidence :: "('x, 'r) reveal_op list \<Rightarrow> slot \<Rightarrow> ('x, 'r) revealState \<Rightarrow> bool" where
  "vote_evidence ops s st \<longleftrightarrow>
     (\<exists>pct. votes_seen ops s (bl_Root (rq_BlockInfo (rst_req st))) pct \<and> pct_reaches pct (rst_settings st))"

definition entry_ok :: "('x, 'r) reveal_op list \<Rightarrow> slot \<Rightarrow> ('x, 'r) revealState \<Rightarrow> bool" where
  "entry_ok ops s st \<longleftrightarrow>
     0 \<le> rst_attempts st \<and> rst_attempts st \<le> budget st \<and> (\<not> rst_done st \<longrightarrow> rst_attempts st < budget st) \<and>
     (strict_vote st \<longrightarrow> (rst_attempts st > 0 \<longrightarrow> rst_voteGateMet st) \<and> (rst_voteGateMet st \<longrightarrow> vote_evidence ops s st)) \<and>
     pred_option (envelope_for st) (rst_envelope st)"

definition entries_ok :: "('x, 'r) reveal_op list \<Rightarrow> ('x, 'r) RevealService \<Rightarrow> bool" where
  "entries_ok ops sv \<longleftrightarrow> (\<forall>s. pred_option (entry_ok ops s) (rvs_pending sv s))"

lemma votes_seen_mono: "votes_seen ops s blockRoot pct \<Longrightarrow> set ops \<subseteq> set ops' \<Longrightarrow> votes_seen ops' s blockRoot pct"
  unfolding votes_seen_def by blast

lemma entries_ok_mono: "entries_ok ops sv \<Longrightarrow> set ops \<subseteq> set ops' \<Longrightarrow> entries_ok ops' sv"
  unfolding entries_ok_def entry_ok_def vote_evidence_def pred_option_def
  using votes_seen_mono by blast

lemma budget_next:
  assumes "0 \<le> rst_attempts st" "rst_attempts st < budget st"
  shows "swrap64 (rst_attempts st + 1) = rst_attempts st + 1"
proof -
  have "is_i64 (max_attempts (rst_settings st))" by (simp add: max_attempts_def i64_of_u64_def)
  then have "budget st \<le> max_i64" by (auto simp: budget_def is_i64_def max_i64_def)
  then show ?thesis using assms by (intro swrap64_id) (simp add: is_i64_def min_i64_def)
qed

lemma gate_strict: "gateSatisfied now st \<Longrightarrow> strict_vote st \<Longrightarrow> rst_voteGateMet st"
  by (auto simp: gateSatisfied_def strict_vote_def Let_def)

lemma vote_evidence_job: "same_job st st' \<Longrightarrow> vote_evidence ops s st' = vote_evidence ops s st"
  by (simp add: vote_evidence_def same_job_def)

lemma attempt_entry_ok:
  assumes ok: "entry_ok ops s st" "\<not> rst_done st" and g: "gateSatisfied now st"
    and out: "attempt_outcome env s st st' r b h"
  shows "entry_ok ops s st'" "rst_attempts st' = rst_attempts st + 1"
proof -
  have job: "same_job st st'" and att: "rst_attempts st' = swrap64 (rst_attempts st + 1)"
    and fin: "rst_done st' \<longleftrightarrow> rr_Success r \<or> rst_attempts st' \<ge> max_attempts (rst_settings st)"
    and env: "pred_option (envelope_for st') (rst_envelope st')"
    using out by (auto simp: attempt_outcome_def)
  have bud: "0 \<le> rst_attempts st" "rst_attempts st < budget st" using ok by (auto simp: entry_ok_def)
  show att': "rst_attempts st' = rst_attempts st + 1" using att budget_next [OF bud] by simp
  have b': "budget st' = budget st" "strict_vote st' = strict_vote st"
    using job by (simp_all add: budget_def strict_vote_def same_job_def)
  have "rst_attempts st' < budget st'" if "\<not> rst_done st'"
    using that fin job by (auto simp: budget_def same_job_def)
  then show "entry_ok ops s st'"
    using ok bud att' job env gate_strict [OF g] vote_evidence_job [OF job, of ops s]
    by (auto simp: entry_ok_def b' same_job_def)
qed

text \<open>
  What one pass over a slot does to its entry, results and starts.
\<close>

definition slot_pass ::
  "('x, 'r) reveal_env \<Rightarrow> gotime \<Rightarrow> slot \<Rightarrow> ('x, 'r) RevealService \<Rightarrow> ('x, 'r) RevealService \<Rightarrow> bool" where
  "slot_pass env now s sv sv' \<longleftrightarrow>
     (case rvs_pending sv s of
        None \<Rightarrow> sv' = sv
      | Some st \<Rightarrow>
          if rst_done st \<or> now < rst_nextAttempt st then sv' = sv
          else if gateSatisfied now st then
            (\<exists>st' r b. attempt_outcome env s st st' r b (rvs_heap sv') \<and>
               rvs_pending sv' = (rvs_pending sv)(s \<mapsto> st') \<and>
               rvs_results sv' = rvs_results sv @ [r] \<and> rvs_starts sv' = rvs_starts sv @ [b])
          else if now < rst_expiry st then
            rvs_pending sv' = (rvs_pending sv)(s \<mapsto> st\<lparr>rst_nextAttempt := rst_expiry st\<rparr>) \<and>
            rvs_results sv' = rvs_results sv \<and> rvs_starts sv' = rvs_starts sv
          else
            rvs_pending sv' = (rvs_pending sv)(s \<mapsto> st\<lparr>rst_done := True\<rparr>) \<and>
            rvs_results sv' = rvs_results sv @ [skip_result s (rq_Transport (rst_req st))
              RevealSkipReasonVoteGateTimeout (max_attempts (rst_settings st))] \<and>
            rvs_starts sv' = rvs_starts sv)"

lemma process_slot_pass:
  assumes "pred_option (entry_ok ops s) (rvs_pending sv s)"
  shows "slot_pass env now s sv (process_slot env now s sv)"
proof (cases "rvs_pending sv s")
  case None
  then show ?thesis by (simp add: slot_pass_def process_slot_def)
next
  case (Some st)
  then have "pred_option (envelope_for st) (rst_envelope st)" using assms by (simp add: entry_ok_def)
  then show ?thesis
    using Some attempt_reveal_outcome [of st env now s sv]
    by (auto simp: slot_pass_def process_slot_def Let_def not_le)
qed

lemma slot_pass_frame:
  assumes "slot_pass env now s sv sv'" "t \<noteq> s"
  shows "rvs_pending sv' t = rvs_pending sv t" "results_for t sv' = results_for t sv" "starts_for t sv' = starts_for t sv"
  using assms
  by (auto simp: slot_pass_def results_for_def starts_for_def attempt_outcome_def split: option.splits if_splits)

lemma slot_pass_ok:
  assumes pass: "slot_pass env now s sv sv'" and ok: "pred_option (entry_ok ops s) (rvs_pending sv s)"
  shows "pred_option (entry_ok ops s) (rvs_pending sv' s)"
proof (cases "rvs_pending sv s")
  case None
  then show ?thesis using pass ok by (simp add: slot_pass_def)
next
  case (Some st)
  have st: "entry_ok ops s st" using ok Some by simp
  show ?thesis
  proof (cases "rst_done st \<or> now < rst_nextAttempt st")
    case True
    then show ?thesis using pass ok Some by (simp add: slot_pass_def)
  next
    case due: False
    show ?thesis
    proof (cases "gateSatisfied now st")
      case True
      then obtain st' r b where "attempt_outcome env s st st' r b (rvs_heap sv')" "rvs_pending sv' = (rvs_pending sv)(s \<mapsto> st')"
        using pass Some due by (auto simp: slot_pass_def)
      then show ?thesis using attempt_entry_ok(1) [OF st _ True] due by auto
    next
      case False
      then show ?thesis using pass Some due st
        by (auto simp: slot_pass_def entry_ok_def budget_def strict_vote_def vote_evidence_def split: if_splits)
    qed
  qed
qed

lemma pass_entries_ok:
  assumes "slot_pass env now s sv sv'" "entries_ok ops sv"
  shows "entries_ok ops sv'"
  unfolding entries_ok_def
proof
  fix t
  show "pred_option (entry_ok ops t) (rvs_pending sv' t)"
    using assms slot_pass_frame(1) [OF assms(1), of t] slot_pass_ok [OF assms(1), of ops]
    by (cases "t = s") (simp_all add: entries_ok_def)
qed

lemma processDue_passes:
  assumes "entries_ok ops sv"
  shows "entries_ok ops (fold (process_slot env now) ks sv)"
  using assms
proof (induction ks arbitrary: sv)
  case Nil
  then show ?case by simp
next
  case (Cons k ks)
  have "slot_pass env now k sv (process_slot env now k sv)"
    by (rule process_slot_pass [of ops]) (use Cons.prems in \<open>simp add: entries_ok_def\<close>)
  then have "entries_ok ops (process_slot env now k sv)" using pass_entries_ok Cons.prems by blast
  then show ?case using Cons.IH by simp
qed

lemma range_delete_cases: "range_delete p m k = None \<or> range_delete p m k = m k"
  by (simp add: range_delete_def split: option.splits)

lemma prune_entries_ok: "entries_ok ops sv \<Longrightarrow> entries_ok ops (pruneDone env now sv)"
  unfolding entries_ok_def pruneDone_def
  using range_delete_cases by (metis (no_types, lifting) RevealService.select_convs(1) RevealService.surjective
      RevealService.update_convs(1) option.pred_inject(1))

lemma new_entry_ok:
  assumes "rst_attempts st = 0" "rst_envelope st = None" "strict_vote st \<Longrightarrow> rst_voteGateMet st \<Longrightarrow> vote_evidence ops s st"
  shows "entry_ok ops s st"
  using assms by (auto simp: entry_ok_def budget_def)

lemma schedule_state_ok:
  assumes "RvReceive env now \<in> set ops"
  shows "entry_ok ops s (schedule_state env now s req settings)"
proof (rule new_entry_ok)
  assume "rst_voteGateMet (schedule_state env now s req settings)"
  then show "vote_evidence ops s (schedule_state env now s req settings)"
    using assms
    by (fastforce simp: schedule_state_def Let_def participation_met_def new_state_def vote_evidence_def votes_seen_def
        split: option.splits)
qed (simp_all add: schedule_state_def new_state_def Let_def)

lemma entries_ok_update:
  assumes "entries_ok ops sv" "entry_ok ops s st" "rvs_pending sv' = (rvs_pending sv)(s \<mapsto> st)"
  shows "entries_ok ops sv'"
  using assms by (simp add: entries_ok_def)

lemma finished_ok: "entry_ok ops s ((new_state req settings)\<lparr>rst_done := True\<rparr>)"
  by (rule new_entry_ok) (simp_all add: new_state_def)

lemma schedule_valid_ok:
  assumes "entries_ok ops sv" "RvReceive env now \<in> set ops"
  shows "entries_ok ops (schedule_valid env now req sv)"
proof -
  let ?s = "p_ProposalSlot (rvs_heap sv (rq_Payload req))"
  obtain frozen plan where f: "Freeze (rve_spec env) (rve_cfg env) (rve_freezeAt env) ?s (rvs_planSvc sv) = (frozen, plan)"
    by (cases "Freeze (rve_spec env) (rve_cfg env) (rve_freezeAt env) ?s (rvs_planSvc sv)")
  have "rvs_pending (schedule_valid env now req sv) \<in>
      {rvs_pending sv, (rvs_pending sv)(?s \<mapsto> (new_state req (fp_Reveal frozen))\<lparr>rst_done := True\<rparr>),
       (rvs_pending sv)(?s \<mapsto> schedule_state env now ?s req (fp_Reveal frozen))}"
    by (simp add: schedule_valid_def Let_def f)
  then show ?thesis
    using assms(1) entries_ok_update [OF assms(1) finished_ok] entries_ok_update [OF assms(1) schedule_state_ok [OF assms(2)]]
    by (auto simp: entries_ok_def)
qed

lemma receive_ok:
  assumes "entries_ok ops sv" "RvReceive env now \<in> set ops"
  shows "entries_ok ops (receive env now sv)"
proof -
  have "entries_ok ops (sv\<lparr>rvs_requests := rs\<rparr>)" for rs using assms(1) by (simp add: entries_ok_def)
  then have "entries_ok ops (schedule_valid env now req (sv\<lparr>rvs_requests := rs\<rparr>))" for req rs
    using schedule_valid_ok assms(2) by blast
  then show ?thesis
    using \<open>\<And>rs. entries_ok ops (sv\<lparr>rvs_requests := rs\<rparr>)\<close> assms(1)
    by (auto simp: receive_def schedule_def split: list.splits option.splits)
qed

lemma vote_ok:
  assumes ok: "entries_ok ops sv" and op: "RvVote now update \<in> set ops"
  shows "entries_ok ops (handleVoteUpdate now update sv)"
proof (cases "rvs_pending sv (hv_Slot update)")
  case None
  then show ?thesis using ok by (simp add: handleVoteUpdate_def)
next
  case (Some st)
  then have st: "entry_ok ops (hv_Slot update) st" using ok by (metis entries_ok_def option.pred_inject(2))
  have seen: "votes_seen ops (hv_Slot update) (hv_BlockRoot update) (hv_ParticipationPct update)"
    unfolding votes_seen_def using op by blast
  have late: "entry_ok ops (hv_Slot update) (st\<lparr>rst_voteGateMet := True\<rparr>)"
    if "rst_attempts st > 0" "\<not> rst_voteGateMet st"
    using st that by (auto simp: entry_ok_def budget_def strict_vote_def vote_evidence_def)
  have reached: "entry_ok ops (hv_Slot update) (st\<lparr>rst_voteGateMet := True, rst_nextAttempt := n\<rparr>)"
    if "hv_BlockRoot update = bl_Root (rq_BlockInfo (rst_req st))" "pct_reaches (hv_ParticipationPct update) (rst_settings st)" for n
    using st that seen by (auto simp: entry_ok_def budget_def strict_vote_def vote_evidence_def)
  have put: "entries_ok ops (sv\<lparr>rvs_pending := (rvs_pending sv)(hv_Slot update \<mapsto> st')\<rparr>)"
    if "entry_ok ops (hv_Slot update) st'" for st'
    using entries_ok_update [OF ok that] by simp
  show ?thesis
    using ok Some put [OF late] put [OF reached] by (simp add: handleVoteUpdate_def Let_def)
qed

lemma reveal_run_ok:
  assumes "entries_ok ops0 sv"
  shows "entries_ok (ops0 @ ops) (reveal_run ops sv)"
  using assms
proof (induction ops arbitrary: ops0 sv)
  case Nil
  then show ?case by (simp add: reveal_run_def)
next
  case (Cons op ops)
  have sv: "entries_ok (ops0 @ [op]) sv" by (rule entries_ok_mono [OF Cons.prems]) auto
  have "entries_ok (ops0 @ [op]) (reveal_step op sv)"
  proof (cases op)
    case (RvReceive env now)
    then show ?thesis using receive_ok [OF sv] by simp
  next
    case (RvVote now update)
    then show ?thesis using vote_ok [OF sv] by simp
  next
    case (RvTimer env now ks)
    then show ?thesis
      using prune_entries_ok [OF processDue_passes [OF sv, of env now ks], of env now] by (simp add: processDue_def)
  qed (use sv in \<open>simp_all add: RequestReveal_def entries_ok_def\<close>)
  then show ?case using Cons.IH [of "ops0 @ [op]"] by (simp add: reveal_run_def)
qed

lemma new_service_ok: "entries_ok ops (NewRevealService plan heap payments stats)"
  by (simp add: entries_ok_def NewRevealService_def)

lemma loop_state_ok:
  "entries_ok ops (fold (process_slot env now) ks (reveal_run ops (NewRevealService plan heap payments stats)))"
  using processDue_passes [OF reveal_run_ok [where ?ops0.0 = "[]", OF new_service_ok]] by simp

section \<open>A finished slot\<close>

definition timely :: "slot \<Rightarrow> ('x, 'r) reveal_op \<Rightarrow> bool" where
  "timely s op = (case op of
     RvTimer env now ks \<Rightarrow>
       now \<le> time_add (SlotToTime (rve_spec env) (rve_genesisTime env) s) (dur_mul 2 (SecondsPerSlot (rve_spec env)))
   | _ \<Rightarrow> True)"

definition finished_with :: "slot \<Rightarrow> ('x, 'r) revealState \<Rightarrow> ('x, 'r) RevealService \<Rightarrow> ('x, 'r) RevealService \<Rightarrow> bool" where
  "finished_with s st sv sv' \<longleftrightarrow> rvs_pending sv' s = Some st \<and> rst_done st \<and>
     results_for s sv' = results_for s sv \<and> starts_for s sv' = starts_for s sv"

lemma passes_finished:
  assumes "entries_ok ops sv" "rvs_pending sv s = Some st" "rst_done st"
  shows "finished_with s st sv (fold (process_slot env now) ks sv)"
  using assms
proof (induction ks arbitrary: sv)
  case Nil
  then show ?case by (simp add: finished_with_def)
next
  case (Cons k ks)
  let ?sv = "process_slot env now k sv"
  have p: "slot_pass env now k sv ?sv"
    by (rule process_slot_pass [of ops]) (use Cons.prems in \<open>simp add: entries_ok_def\<close>)
  have same: "rvs_pending ?sv s = Some st" "results_for s ?sv = results_for s sv" "starts_for s ?sv = starts_for s sv"
    using slot_pass_frame [OF p, of s] Cons.prems p by (cases "s = k"; auto simp: slot_pass_def)+
  then show ?case
    using Cons.IH [OF pass_entries_ok [OF p Cons.prems(1)] _ Cons.prems(3)] by (simp add: finished_with_def)
qed

lemma schedule_valid_finished:
  assumes "rvs_pending sv s = Some st" "rst_done st"
  shows "finished_with s st sv (schedule_valid env now req sv)"
  using assms
  by (cases "rvs_pending sv (p_ProposalSlot (rvs_heap sv (rq_Payload req)))")
     (auto simp: schedule_valid_def Let_def finished_with_def results_for_def starts_for_def split: prod.splits)

lemma receive_finished:
  assumes "rvs_pending sv s = Some st" "rst_done st"
  shows "finished_with s st sv (receive env now sv)"
proof -
  have "finished_with s st sv (schedule_valid env now req (sv\<lparr>rvs_requests := rs\<rparr>))" for req rs
    using schedule_valid_finished [of "sv\<lparr>rvs_requests := rs\<rparr>" s st env now req] assms
    by (simp add: finished_with_def results_for_def starts_for_def)
  then show ?thesis
    using assms by (auto simp: receive_def schedule_def finished_with_def results_for_def starts_for_def
        split: list.splits option.splits)
qed

lemma step_finished:
  assumes "entries_ok ops sv" "rvs_pending sv s = Some st" "rst_done st" "timely s op"
  shows "finished_with s st sv (reveal_step op sv)"
proof (cases op)
  case (RvTimer env now ks)
  have "rvs_pending (processDue env now ks sv) s = Some st"
    using passes_finished [OF assms(1-3), of env now ks] assms(3,4) RvTimer
    by (simp add: processDue_def pruneDone_def range_delete_def finished_with_def timely_def)
  then show ?thesis
    using passes_finished [OF assms(1-3), of env now ks] RvTimer
    by (simp add: finished_with_def processDue_def pruneDone_def results_for_def starts_for_def)
next
  case (RvReceive env now)
  then show ?thesis using receive_finished assms by simp
next
  case (RvVote now update)
  then show ?thesis using assms
    by (cases "hv_Slot update = s")
       (auto simp: handleVoteUpdate_def finished_with_def Let_def results_for_def starts_for_def split: option.splits)
qed (use assms in \<open>auto simp: finished_with_def RequestReveal_def results_for_def starts_for_def\<close>)

lemma run_finished:
  assumes "entries_ok ops0 sv" "rvs_pending sv s = Some st" "rst_done st" "list_all (timely s) ops"
  shows "finished_with s st sv (reveal_run ops sv)"
  using assms
proof (induction ops arbitrary: ops0 sv)
  case Nil
  then show ?case by (simp add: reveal_run_def finished_with_def)
next
  case (Cons op ops)
  have st: "finished_with s st sv (reveal_step op sv)" by (rule step_finished [OF Cons.prems(1-3)]) (use Cons.prems in simp)
  have ok: "entries_ok (ops0 @ [op]) (reveal_step op sv)"
    using reveal_run_ok [OF Cons.prems(1), of "[op]"] by (simp add: reveal_run_def)
  show ?case
    using Cons.IH [OF ok] st Cons.prems by (simp add: reveal_run_def finished_with_def)
qed

section \<open>Progress\<close>

text \<open>A measure of the passes an entry may still need.\<close>

definition reveal_rank :: "('x, 'r) revealState \<Rightarrow> nat" where
  "reveal_rank st = (if rst_done st then 0
     else 2 * nat (budget st - rst_attempts st) + (if rst_nextAttempt st < rst_expiry st then 1 else 0))"

lemma pass_decreases:
  assumes pass: "slot_pass env now s sv sv'" and st: "rvs_pending sv s = Some st" "entry_ok ops s st"
    and due: "\<not> rst_done st" "\<not> now < rst_nextAttempt st"
  shows "\<exists>st'. rvs_pending sv' s = Some st' \<and> reveal_rank st' < reveal_rank st"
proof -
  have b: "0 \<le> rst_attempts st" "rst_attempts st < budget st" using st due by (auto simp: entry_ok_def)
  show ?thesis
  proof (cases "gateSatisfied now st")
    case True
    then obtain st' r c where o: "attempt_outcome env s st st' r c (rvs_heap sv')" "rvs_pending sv' s = Some st'"
      using pass st due by (auto simp: slot_pass_def)
    have a: "rst_attempts st' = rst_attempts st + 1" using attempt_entry_ok(2) [OF st(2) due(1) True o(1)] .
    have "budget st' = budget st" using o(1) by (simp add: attempt_outcome_def same_job_def budget_def)
    then have "reveal_rank st' < reveal_rank st"
      using a b due by (auto simp: reveal_rank_def nat_diff_distrib)
    then show ?thesis using o by blast
  next
    case False
    show ?thesis
    proof (cases "now < rst_expiry st")
      case True
      then show ?thesis using pass st due False by (simp add: slot_pass_def reveal_rank_def budget_def)
    next
      case exp: False
      then show ?thesis using pass st due False b by (simp add: slot_pass_def reveal_rank_def)
    qed
  qed
qed

lemma rearm_fold: "fold (rearm_scan now sv) ks n \<le> n"
proof (induction ks arbitrary: n)
  case Nil
  then show ?case by simp
next
  case (Cons k ks)
  have "rearm_scan now sv k n \<le> n" by (simp add: rearm_scan_def split: option.splits)
  then show ?case using Cons.IH [of "rearm_scan now sv k n"] by simp
qed

section \<open>Properties\<close>

text \<open>
  C10: In every state the main loop reaches, every entry is sound and a pass of the loop over a
  slot does exactly what the gates allow: nothing for an unknown, finished or not yet due entry;
  with the gate open, one attempt, whose success publishes a signed envelope bound to the
  committing block and marks the payload revealed; with the gate closed, waiting until the expiry
  and then giving up.  A sound entry has made at most its budget of attempts, and in the modes that
  require votes its gate is open, and an attempt was made, only after participation at or above the
  threshold was seen for the committing block itself.\<close>
theorem reveal_attempt_gate:
  "let sv = fold (process_slot env now) ks (reveal_run ops (NewRevealService plan heap payments stats)) in
   pred_option (entry_ok ops s) (rvs_pending sv s) \<and> slot_pass env now s sv (process_slot env now s sv)"
proof -
  let ?sv = "fold (process_slot env now) ks (reveal_run ops (NewRevealService plan heap payments stats))"
  have "pred_option (entry_ok ops s) (rvs_pending ?sv s)"
    using loop_state_ok [of ops env now ks plan heap payments stats] by (simp add: entries_ok_def)
  then show ?thesis using process_slot_pass [of ops s ?sv env now] by (simp add: Let_def)
qed

text \<open>
  C11: A slot is revealed at most once.  Once its entry is finished (revealed, given up or
  skipped), later requests from either transport, votes and timers fire no further result and start
  no further attempt for it, as long as the timer runs within two slots of the slot's start, until
  when the entry is kept.\<close>
theorem reveal_done_silent:
  assumes "rvs_pending (reveal_run ops0 (NewRevealService plan heap payments stats)) s = Some st" "rst_done st"
    and "list_all (timely s) ops"
  shows "finished_with s st (reveal_run ops0 (NewRevealService plan heap payments stats))
    (reveal_run ops (reveal_run ops0 (NewRevealService plan heap payments stats)))"
  using run_finished [OF loop_state_ok [of ops0 _ _ "[]", simplified] assms] .

text \<open>
  C12: Reveals terminate.  Every pass over a due entry strictly decreases its rank, which starts
  at no more than twice the attempt budget plus one and is zero only for finished entries, and a
  pass over any other entry leaves it alone; the timer is always armed for a time between now and
  one hour, and no later than any unfinished entry's next attempt.\<close>
theorem reveal_progress:
  "let sv = fold (process_slot env now) ks (reveal_run ops (NewRevealService plan heap payments stats));
       sv' = process_slot env now s sv
   in (case rvs_pending sv s of
         None \<Rightarrow> rvs_pending sv' s = None
       | Some st \<Rightarrow>
           (if rst_done st \<or> now < rst_nextAttempt st then rvs_pending sv' s = Some st
            else (\<exists>st'. rvs_pending sv' s = Some st' \<and> reveal_rank st' < reveal_rank st)) \<and>
           int (reveal_rank st) \<le> 2 * budget st + 1 \<and>
           (reveal_rank st = 0 \<longleftrightarrow> rst_done st) \<and>
           rearm t (ks1 @ s # ks2) sv \<le> (if rst_done st then one_hour else max 0 (time_sub (rst_nextAttempt st) t))) \<and>
      0 \<le> rearm t ks' sv \<and> rearm t ks' sv \<le> one_hour"
proof -
  let ?sv = "fold (process_slot env now) ks (reveal_run ops (NewRevealService plan heap payments stats))"
  have ok: "pred_option (entry_ok ops s) (rvs_pending ?sv s)"
    using loop_state_ok [of ops env now ks plan heap payments stats] by (simp add: entries_ok_def)
  have pass: "slot_pass env now s ?sv (process_slot env now s ?sv)" by (rule process_slot_pass [OF ok])
  have hour: "0 \<le> rearm t ks' ?sv \<and> rearm t ks' ?sv \<le> one_hour" for ks'
    using rearm_fold [of t ?sv ks' one_hour] by (auto simp: rearm_def Let_def one_hour_def nanos_per_s_def)
  have step: "(if rst_done st \<or> now < rst_nextAttempt st then rvs_pending (process_slot env now s ?sv) s = Some st
       else (\<exists>st'. rvs_pending (process_slot env now s ?sv) s = Some st' \<and> reveal_rank st' < reveal_rank st)) \<and>
      int (reveal_rank st) \<le> 2 * budget st + 1 \<and> (reveal_rank st = 0 \<longleftrightarrow> rst_done st) \<and>
      rearm t (ks1 @ s # ks2) ?sv \<le> (if rst_done st then one_hour else max 0 (time_sub (rst_nextAttempt st) t))"
    if st: "rvs_pending ?sv s = Some st" for st
  proof -
    have eo: "entry_ok ops s st" using ok st by simp
    have "fold (rearm_scan t ?sv) (ks1 @ s # ks2) one_hour \<le> time_sub (rst_nextAttempt st) t" if "\<not> rst_done st"
      using rearm_fold [of t ?sv ks2 "rearm_scan t ?sv s (fold (rearm_scan t ?sv) ks1 one_hour)"] st that
      by (auto simp: rearm_scan_def split: if_splits)
    then show ?thesis
      using pass_decreases [OF pass st eo] pass st hour [of "ks1 @ s # ks2"] eo
      by (auto simp: slot_pass_def rearm_def Let_def reveal_rank_def entry_ok_def)
  qed
  show ?thesis
    unfolding Let_def
    using hour pass step by (cases "rvs_pending ?sv s") (simp_all add: slot_pass_def)
qed

text \<open>A reveal of slot 300 that succeeds at its first attempt.\<close>

definition demo_reveal_env :: "(unit, unit) reveal_env" where
  "demo_reveal_env = \<lparr>rve_lib = demo_lib, rve_spec = demo_spec, rve_genesisTime = 0, rve_genesisRoot = [4],
     rve_cfg = DefaultConfig, rve_freezeAt = 0, rve_votes = None, rve_publish = (\<lambda>_ _ _ _. True),
     rve_startedAt = (\<lambda>_. 1), rve_completedAt = (\<lambda>_. 2)\<rparr>"

definition demo_block :: BlockInfo where
  "demo_block = \<lparr>bl_Slot = 300, bl_Root = [5], bl_ExecutionBlockHash = [44], bl_FinalitySafeExecutionBlockHash = [1],
     bl_ParentRoot = [6], bl_StateRoot = []\<rparr>"

definition demo_request :: "raw_request option" where
  "demo_request = Some \<lparr>rw_Payload = Some 0, rw_BlockInfo = Some demo_block, rw_Transport = BidTransportP2P\<rparr>"

definition demo_stats :: BuilderStats where
  "demo_stats = \<lparr>bst_SlotsBuilt = 0, bst_BidsSubmitted = 0, bst_BidsWon = 0, bst_BlocksIncluded = 0,
     bst_TotalPaid = 0, bst_RevealsSuccess = 0, bst_RevealsFailed = 0, bst_RevealsSkipped = 0\<rparr>"

definition demo_reveal :: "(unit, unit) RevealService" where
  "demo_reveal = NewRevealService NewPlanService (\<lambda>_. demo_built 300) None demo_stats"

definition demo_reveal_ops :: "(unit, unit) reveal_op list" where
  "demo_reveal_ops = [RvRequest demo_request, RvReceive demo_reveal_env 3600000000000,
     RvTimer demo_reveal_env 3600000000000 [300]]"

lemma demo_settings:
  "fp_Reveal (fst (Freeze demo_spec DefaultConfig 0 300 NewPlanService)) = resolveReveal None DefaultConfig"
  "fp_Transforms (fst (Freeze demo_spec DefaultConfig 0 300 NewPlanService)) = None"
  "fst (Freeze demo_spec DefaultConfig 0 300 (snd (Freeze demo_spec DefaultConfig 0 300 NewPlanService))) =
     fst (Freeze demo_spec DefaultConfig 0 300 NewPlanService)"
  by (simp_all add: Freeze_def NewPlanService_def New_def newStore_def Get_def resolveFrozenPlan_def
      resolveTransforms_def Let_def)

lemma demo_reveal_settings:
  "rv_Suppressed (resolveReveal None DefaultConfig) = False"
  "rv_BypassDeadline (resolveReveal None DefaultConfig) = False"
  "rv_GateMode (resolveReveal None DefaultConfig) = RevealGateVoteOrTime"
  "rv_RevealTimeMs (resolveReveal None DefaultConfig) = 0"
  by (simp_all add: resolveReveal_def DefaultConfig_def Let_def NormalizedGateMode_def gate_modes_def)

lemma demo_times: "SlotToTime demo_spec 0 300 = 3600000000000" "SecondsPerSlot demo_spec = 12000000000"
  by (simp_all add: SlotToTime_def demo_spec_def time_add_def dur_mul_def nanos_per_s_def i64_of_u64_def swrap64_def)

lemma demo_fork_version:
  "spec_GetForkVersion demo_spec (ActiveForkAtEpoch demo_spec (GetEpochOfSlot demo_spec 300)) = Some [8, 0, 0, 0]"
  by (simp add: spec_GetForkVersion_def ActiveForkAtEpoch_def GetEpochOfSlot_def demo_spec_def fork_entry_def
      word_div_def word_le_nat_alt)

lemma demo_scheduled:
  "rvs_pending (reveal_run [RvRequest demo_request, RvReceive demo_reveal_env 3600000000000] demo_reveal) 300 =
     Some ((new_state \<lparr>rq_Payload = 0, rq_BlockInfo = demo_block, rq_Transport = BidTransportP2P\<rparr>
       (resolveReveal None DefaultConfig))
       \<lparr>rst_timeDue := 3600000000000, rst_expiry := 3612000000000, rst_nextAttempt := 3600000000000\<rparr>)"
  using demo_settings(1)
  by (simp add: reveal_run_def demo_reveal_def NewRevealService_def RequestReveal_def requests_cap_def receive_def
      demo_request_def schedule_def schedule_valid_def Let_def demo_built_def demo_reveal_env_def case_prod_beta
      demo_reveal_settings schedule_state_def demo_times time_add_def participation_met_def
      first_attempt_def new_state_def dur_mul_def swrap64_id)

lemma demo_scheduled_heap:
  "rvs_heap (reveal_run [RvRequest demo_request, RvReceive demo_reveal_env 3600000000000] demo_reveal) = (\<lambda>_. demo_built 300)"
  by (simp add: reveal_run_def demo_reveal_def NewRevealService_def RequestReveal_def requests_cap_def receive_def
      demo_request_def schedule_def schedule_valid_def Let_def case_prod_beta)

lemma demo_envelope:
  assumes "rvs_heap sv = (\<lambda>_. demo_built 300)" "rst_req st = \<lparr>rq_Payload = 0, rq_BlockInfo = demo_block, rq_Transport = BidTransportP2P\<rparr>"
    and "fp_Transforms (fst (Freeze demo_spec DefaultConfig 0 300 (rvs_planSvc sv))) = None"
    and "rst_envelope st = None"
  shows "\<exists>st' sv'. with_envelope demo_reveal_env st sv = (Inr st', sv') \<and> rst_envelope st' \<noteq> None"
  using assms
  by (simp add: with_envelope_def buildEnvelope_def demo_reveal_env_def demo_fork_version Let_def case_prod_beta
      BuildSignedEnvelope_def transform_envelope_def SignEnvelope_def sign_root_def demo_lib_def demo_built_def)

lemma demo_finished:
  "\<exists>st. rvs_pending (reveal_run demo_reveal_ops demo_reveal) 300 = Some st \<and> rst_done st"
proof -
  let ?sv = "reveal_run [RvRequest demo_request, RvReceive demo_reveal_env 3600000000000] demo_reveal"
  let ?now = "3600000000000 :: gotime"
  obtain st where st: "rvs_pending ?sv 300 = Some st" "st = (new_state \<lparr>rq_Payload = 0, rq_BlockInfo = demo_block, rq_Transport = BidTransportP2P\<rparr>
       (resolveReveal None DefaultConfig))
       \<lparr>rst_timeDue := ?now, rst_expiry := 3612000000000, rst_nextAttempt := ?now\<rparr>"
    using demo_scheduled by blast
  have plan: "rvs_planSvc ?sv = snd (Freeze demo_spec DefaultConfig 0 300 NewPlanService)"
    using demo_settings(1)
    by (simp add: reveal_run_def demo_reveal_def NewRevealService_def RequestReveal_def requests_cap_def receive_def
      demo_request_def schedule_def schedule_valid_def Let_def demo_built_def demo_reveal_env_def case_prod_beta
      demo_reveal_settings demo_times time_add_def)
  have due: "process_slot demo_reveal_env ?now 300 ?sv = attempt_reveal demo_reveal_env ?now 300 st ?sv"
    using st by (simp add: process_slot_def new_state_def gateSatisfied_def demo_reveal_settings)
  define st1 where "st1 = st\<lparr>rst_attempts := swrap64 (rst_attempts st + 1), rst_attemptStartedAt := Some (rve_startedAt demo_reveal_env 300)\<rparr>"
  define sv1 where "sv1 = ?sv\<lparr>rvs_starts := rvs_starts ?sv @ [\<lparr>rsd_Slot = 300, rsd_Transport = rq_Transport (rst_req st1),
      rsd_Attempt = rst_attempts st1, rsd_StartedAt = rve_startedAt demo_reveal_env 300\<rparr>]\<rparr>"
  have "\<exists>st' sv'. with_envelope demo_reveal_env st1 sv1 = (Inr st', sv') \<and> rst_envelope st' \<noteq> None"
    by (rule demo_envelope) (simp_all add: sv1_def st1_def st(2) new_state_def demo_scheduled_heap plan demo_settings)
  then obtain st' sv' where w: "with_envelope demo_reveal_env st1 sv1 = (Inr st', sv')" by blast
  have "attempt_reveal demo_reveal_env ?now 300 st ?sv = reveal_success demo_reveal_env ?now 300 st' sv'"
    unfolding attempt_reveal_def Let_def st1_def [symmetric] sv1_def [symmetric] w
    by (simp add: demo_reveal_env_def)
  then have "rvs_pending (process_slot demo_reveal_env ?now 300 ?sv) 300 = Some (st'\<lparr>rst_done := True\<rparr>)"
    using due by (simp add: reveal_success_def)
  moreover have "dur_mul 2 12000000000 = 24000000000" by (simp add: dur_mul_def swrap64_id is_i64_def min_i64_def max_i64_def)
  ultimately show ?thesis
    by (simp add: demo_reveal_ops_def reveal_run_def processDue_def pruneDone_def range_delete_def demo_times time_add_def
        demo_reveal_env_def [THEN arg_cong [of _ _ rve_spec]] demo_reveal_env_def [THEN arg_cong [of _ _ rve_genesisTime]])
qed

theorem reveal_done_silent_witness:
  "\<exists>st. finished_with 300 st (reveal_run demo_reveal_ops demo_reveal)
     (reveal_run [RvRequest demo_request, RvReceive demo_reveal_env 3601000000000, RvTimer demo_reveal_env 3602000000000 [300]]
       (reveal_run demo_reveal_ops demo_reveal))"
proof -
  obtain st where st: "rvs_pending (reveal_run demo_reveal_ops demo_reveal) 300 = Some st" "rst_done st"
    using demo_finished by blast
  have "list_all (timely 300) [RvRequest demo_request, RvReceive demo_reveal_env 3601000000000, RvTimer demo_reveal_env 3602000000000 [300]]"
    by (simp add: timely_def demo_reveal_env_def demo_times time_add_def dur_mul_def swrap64_id is_i64_def min_i64_def max_i64_def)
  then show ?thesis
    using reveal_done_silent [OF st [unfolded demo_reveal_def]] unfolding demo_reveal_def by blast
qed

end
