(* ===== verification/Inclusion_Tracker.thy ===== *)
theory Inclusion_Tracker
  imports Reveal_Service
begin

text \<open>
  The inclusion tracker, \<open>pkg/payload_bidder/inclusion_tracker.go\<close>, and the won-block summary of
  \<open>won_blocks.go\<close>: recognising our payload in a head block (payment, reveal request, inclusion
  event, tracking), and re-deriving the canonical verdict of every tracked win from the ancestry of
  each new head.

  The reveal service, payment tracker, payloads and statistics it drives are the shared state
  \<open>RevealService\<close>; on networks without Gloas the reveal service and the payment tracker are absent
  (\<open>it_hasReveal\<close>, \<open>rvs_payments = None\<close>).  The beacon node that resolves blocks by root is the
  argument \<open>fetch\<close>.  The walk along parent roots is a loop over blocks the node returns, which
  nothing bounds: \<open>None\<close> is the value of a walk that does not end.  The decimal and ETH texts of a
  summary are represented by the amount they print.
\<close>

section \<open>State\<close>

datatype PayloadVerdict = PayloadVerdictCanonical | PayloadVerdictMissed | PayloadVerdictOrphaned

record PayloadStatusEvent =
  pse_Slot :: slot
  pse_Verdict :: PayloadVerdict
  pse_NextBlockSlot :: slot
  pse_NextParentHash :: hash32

datatype WonBlockSource = WonBlockSourceBuilderAPI | WonBlockSourceEPBS

record WonBlock =
  wb_Source :: WonBlockSource
  wb_Slot :: u64
  wb_BlockHash :: hash32
  wb_NumTransactions :: nat
  wb_NumBlobs :: nat
  wb_ValueWei :: int
  wb_Timestamp :: int

record PayloadIncludedEvent =
  pie_Payload :: payload_ref
  pie_BlockInfo :: BlockInfo
  pie_BidValueGwei :: u64
  pie_WonBlock :: WonBlock

record wonTracking =
  wt_blockRoot :: hash32
  wt_execHash :: hash32
  wt_verdict :: "PayloadVerdict option"

record InclusionTracker =
  it_trackedWins :: "slot \<rightharpoonup> wonTracking"
  it_blockCache :: "hash32 \<rightharpoonup> BlockInfo"
  it_included :: "PayloadIncludedEvent list"
  it_statusEvents :: "PayloadStatusEvent list"
  it_hasReveal :: bool

definition wonTrackingWindowSlots :: u64 where
  "wonTrackingWindowSlots = 16"

definition blockCacheExtraSlots :: u64 where
  "blockCacheExtraSlots = 4"

definition NewInclusionTracker :: "bool \<Rightarrow> InclusionTracker" where
  "NewInclusionTracker hasReveal = \<lparr>it_trackedWins = Map.empty, it_blockCache = Map.empty,
     it_included = [], it_statusEvents = [], it_hasReveal = hasReveal\<rparr>"

section \<open>Verdicts\<close>

type_synonym block_cache = "hash32 \<rightharpoonup> BlockInfo"

definition getBlock ::
  "(hash32 \<Rightarrow> BlockInfo option) \<Rightarrow> hash32 \<Rightarrow> block_cache \<Rightarrow> BlockInfo option \<times> block_cache" where
  "getBlock fetch blockRoot cache =
     (case cache blockRoot of
        Some info \<Rightarrow> (Some info, cache)
      | None \<Rightarrow>
          (case fetch blockRoot of
             None \<Rightarrow> (None, cache)
           | Some info \<Rightarrow> (Some info, cache(blockRoot \<mapsto> info))))"

text \<open>The walk: the canonical block at or before the won slot (unless a block cannot be resolved),
  the last block visited after it, and the cache.\<close>

partial_function (option) verdict_walk ::
  "(hash32 \<Rightarrow> BlockInfo option) \<Rightarrow> slot \<Rightarrow> BlockInfo \<Rightarrow> BlockInfo \<Rightarrow> block_cache \<Rightarrow>
   (BlockInfo option \<times> BlockInfo \<times> block_cache) option" where
  "verdict_walk fetch s cursor nxt cache =
     (if bl_Slot cursor > s
      then (case getBlock fetch (bl_ParentRoot cursor) cache of
              (None, cache') \<Rightarrow> Some (None, cursor, cache')
            | (Some parent, cache') \<Rightarrow> verdict_walk fetch s parent cursor cache')
      else Some (Some cursor, nxt, cache))"

definition verdict_of :: "wonTracking \<Rightarrow> BlockInfo \<Rightarrow> BlockInfo \<Rightarrow> PayloadVerdict" where
  "verdict_of win cursor nxt =
     (if bl_Root cursor \<noteq> wt_blockRoot win then PayloadVerdictOrphaned
      else if bl_FinalitySafeExecutionBlockHash nxt = wt_execHash win then PayloadVerdictCanonical
      else PayloadVerdictMissed)"

definition resolveVerdict ::
  "(hash32 \<Rightarrow> BlockInfo option) \<Rightarrow> BlockInfo \<Rightarrow> slot \<Rightarrow> wonTracking \<Rightarrow> block_cache \<Rightarrow>
   (((PayloadVerdict \<times> BlockInfo) option) \<times> block_cache) option" where
  "resolveVerdict fetch head s win cache =
     (case verdict_walk fetch s head head cache of
        None \<Rightarrow> None
      | Some (None, _, cache') \<Rightarrow> Some (None, cache')
      | Some (Some cursor, nxt, cache') \<Rightarrow> Some (Some (verdict_of win cursor nxt, nxt), cache'))"

definition evaluate_win ::
  "(hash32 \<Rightarrow> BlockInfo option) \<Rightarrow> BlockInfo \<Rightarrow> slot \<Rightarrow> InclusionTracker \<Rightarrow> InclusionTracker option" where
  "evaluate_win fetch head s t =
     (case it_trackedWins t s of None \<Rightarrow> Some t | Some win \<Rightarrow>
        if bl_Slot head \<le> s then Some t
        else case resolveVerdict fetch head s win (it_blockCache t) of
               None \<Rightarrow> None
             | Some (res, cache') \<Rightarrow>
                 (let t = t\<lparr>it_blockCache := cache'\<rparr> in
                  case res of
                    None \<Rightarrow> Some t
                  | Some (verdict, nxt) \<Rightarrow>
                      if wt_verdict win = Some verdict then Some t
                      else Some (t\<lparr>it_trackedWins := (it_trackedWins t)(s \<mapsto> win\<lparr>wt_verdict := Some verdict\<rparr>),
                             it_statusEvents := it_statusEvents t @
                               [\<lparr>pse_Slot = s, pse_Verdict = verdict, pse_NextBlockSlot = bl_Slot nxt,
                                 pse_NextParentHash = bl_FinalitySafeExecutionBlockHash nxt\<rparr>]\<rparr>)))"

text \<open>The loop over the tracked wins in the order \<open>ks\<close>.\<close>

fun evaluateTrackedWins ::
  "(hash32 \<Rightarrow> BlockInfo option) \<Rightarrow> BlockInfo \<Rightarrow> slot list \<Rightarrow> InclusionTracker \<Rightarrow> InclusionTracker option" where
  "evaluateTrackedWins fetch head [] t = Some t"
| "evaluateTrackedWins fetch head (k # ks) t =
     (case evaluate_win fetch head k t of None \<Rightarrow> None | Some t' \<Rightarrow> evaluateTrackedWins fetch head ks t')"

definition pruneTracking :: "slot \<Rightarrow> InclusionTracker \<Rightarrow> InclusionTracker" where
  "pruneTracking headSlot t =
     (if headSlot \<le> wonTrackingWindowSlots then t
      else let t = t\<lparr>it_trackedWins := range_delete (\<lambda>s _. s < headSlot - wonTrackingWindowSlots) (it_trackedWins t)\<rparr>
           in if headSlot \<le> wonTrackingWindowSlots + blockCacheExtraSlots then t
              else t\<lparr>it_blockCache := range_delete
                     (\<lambda>_ info. bl_Slot info < headSlot - wonTrackingWindowSlots - blockCacheExtraSlots)
                     (it_blockCache t)\<rparr>)"

section \<open>Inclusion\<close>

definition bid_value_gwei :: "int \<Rightarrow> u64" where
  "bid_value_gwei blockValue = (if blockValue > 0 then word_of_int (blockValue div 1000000000) else 0)"

definition buildWonBlock :: "int \<Rightarrow> ('x, 'r) built_payload \<Rightarrow> hash32 \<Rightarrow> WonBlock" where
  "buildWonBlock nowMs payload blockHash =
     \<lparr>wb_Source = (if \<exists>b \<in> set (act_bids (p_activity payload)). br_Transport b = BidTransportBuilderAPI
                   then WonBlockSourceBuilderAPI else WonBlockSourceEPBS),
      wb_Slot = p_ProposalSlot payload, wb_BlockHash = blockHash,
      wb_NumTransactions = length (ep_Transactions (bd_ExecutionPayload (p_build payload))),
      wb_NumBlobs = (case bd_BlobsBundle (p_build payload) of None \<Rightarrow> 0 | Some bb \<Rightarrow> length (bb_Commitments bb)),
      wb_ValueWei = p_BlockValue payload, wb_Timestamp = nowMs\<rparr>"

record inclusion_env =
  ie_spec :: ChainSpec
  ie_genesisTime :: gotime
  ie_cache :: PayloadCache
  ie_order :: "slot list \<Rightarrow> slot list"
  ie_fork :: DataVersion
  ie_nowMs :: int

definition charge_and_reveal ::
  "inclusion_env \<Rightarrow> payload_ref \<Rightarrow> BlockInfo \<Rightarrow> u64 \<Rightarrow> ('x, 'r) RevealService \<Rightarrow> ('x, 'r) RevealService" where
  "charge_and_reveal env p blockInfo bidValueGwei sys =
     RequestReveal (Some \<lparr>rw_Payload = Some p, rw_BlockInfo = Some blockInfo, rw_Transport = BidTransportP2P\<rparr>)
       (if bidValueGwei > 0
        then sys\<lparr>rvs_payments := map_option
               (RecordWonBid (ie_spec env) (p_ProposalSlot (rvs_heap sys p)) bidValueGwei) (rvs_payments sys)\<rparr>
        else sys)"

definition checkForOurPayload ::
  "inclusion_env \<Rightarrow> BlockInfo \<Rightarrow> InclusionTracker \<times> ('x, 'r) RevealService \<Rightarrow> InclusionTracker \<times> ('x, 'r) RevealService" where
  "checkForOurPayload env blockInfo ts =
     (case ts of (t, sys) \<Rightarrow>
      case GetByBlockHash (ie_order env) (rvs_heap sys) (bl_ExecutionBlockHash blockInfo) (ie_cache env) of
        None \<Rightarrow> (t, sys)
      | Some p \<Rightarrow>
          (let payload = rvs_heap sys p;
               bidValueGwei = bid_value_gwei (p_BlockValue payload);
               sys = (if ie_fork env \<ge> DataVersionGloas \<and> it_hasReveal t \<and> rvs_payments sys \<noteq> None
                      then charge_and_reveal env p blockInfo bidValueGwei sys else sys);
               wonBlock = buildWonBlock (ie_nowMs env) payload (bl_ExecutionBlockHash blockInfo);
               sys = sys\<lparr>rvs_stats := IncrementBlocksIncluded (rvs_stats sys)\<rparr>;
               t = t\<lparr>it_included := it_included t @
                      [\<lparr>pie_Payload = p, pie_BlockInfo = blockInfo, pie_BidValueGwei = bidValueGwei, pie_WonBlock = wonBlock\<rparr>]\<rparr>;
               s = p_ProposalSlot payload
           in if ActiveForkAtEpoch (ie_spec env) (GetEpochOfSlot (ie_spec env) s) \<ge> DataVersionGloas
              then (t\<lparr>it_trackedWins := (it_trackedWins t)(s \<mapsto>
                       \<lparr>wt_blockRoot = bl_Root blockInfo, wt_execHash = bl_ExecutionBlockHash blockInfo, wt_verdict = None\<rparr>)\<rparr>, sys)
              else (t, sys)))"

definition processBlockInfo ::
  "inclusion_env \<Rightarrow> (hash32 \<Rightarrow> BlockInfo option) \<Rightarrow> slot list \<Rightarrow> BlockInfo \<Rightarrow>
   InclusionTracker \<times> ('x, 'r) RevealService \<Rightarrow> (InclusionTracker \<times> ('x, 'r) RevealService) option" where
  "processBlockInfo env fetch ks blockInfo ts =
     (case checkForOurPayload env blockInfo
             ((fst ts)\<lparr>it_blockCache := (it_blockCache (fst ts))(bl_Root blockInfo \<mapsto> blockInfo)\<rparr>, snd ts) of (t, sys) \<Rightarrow>
        map_option (\<lambda>t. (pruneTracking (bl_Slot blockInfo) t, sys)) (evaluateTrackedWins fetch blockInfo ks t))"

definition processHead ::
  "inclusion_env \<Rightarrow> (hash32 \<Rightarrow> BlockInfo option) \<Rightarrow> slot list \<Rightarrow> hash32 \<Rightarrow>
   InclusionTracker \<times> ('x, 'r) RevealService \<Rightarrow> (InclusionTracker \<times> ('x, 'r) RevealService) option" where
  "processHead env fetch ks blockRoot ts =
     (case fetch blockRoot of None \<Rightarrow> Some ts
      | Some blockInfo \<Rightarrow> processBlockInfo env fetch ks blockInfo ts)"

text \<open>The epoch handler: expired payments are dropped, then earlier deltas are reconciled.\<close>

definition handle_epoch :: "epoch \<Rightarrow> ('x, 'r) RevealService \<Rightarrow> ('x, 'r) RevealService" where
  "handle_epoch e sys = sys\<lparr>rvs_payments := map_option (\<lambda>p. ReconcileToEpoch e (PruneExpiredPayments e p)) (rvs_payments sys)\<rparr>"

section \<open>Ancestry\<close>

text \<open>The block a root resolves to: cached, or what the node returns.\<close>

definition lookup :: "(hash32 \<Rightarrow> BlockInfo option) \<Rightarrow> block_cache \<Rightarrow> hash32 \<Rightarrow> BlockInfo option" where
  "lookup fetch cache r = (case cache r of Some b \<Rightarrow> Some b | None \<Rightarrow> fetch r)"

lemma getBlock_lookup:
  "fst (getBlock fetch r cache) = lookup fetch cache r"
  "lookup fetch (snd (getBlock fetch r cache)) = lookup fetch cache"
  by (auto simp: getBlock_def lookup_def fun_eq_iff split: option.splits)

text \<open>A chain of blocks, each followed by the block its parent root resolves to.\<close>

fun linked :: "(hash32 \<Rightarrow> BlockInfo option) \<Rightarrow> BlockInfo list \<Rightarrow> bool" where
  "linked lk (b # p # bs) \<longleftrightarrow> lk (bl_ParentRoot b) = Some p \<and> linked lk (p # bs)"
| "linked lk bs \<longleftrightarrow> True"

text \<open>The rule of the consensus layer that a block's slot is larger than its parent's.\<close>

definition slots_descend :: "(hash32 \<Rightarrow> BlockInfo option) \<Rightarrow> BlockInfo \<Rightarrow> bool" where
  "slots_descend lk head \<longleftrightarrow>
     (\<forall>b p. (b = head \<or> (\<exists>r. lk r = Some b)) \<longrightarrow> lk (bl_ParentRoot b) = Some p \<longrightarrow> bl_Slot p < bl_Slot b)"

lemma walk_step:
  assumes "bl_Slot cursor > s" "getBlock fetch (bl_ParentRoot cursor) cache = (Some p, cache')"
  shows "verdict_walk fetch s cursor nxt cache = verdict_walk fetch s p cursor cache'"
  by (subst verdict_walk.simps) (simp add: assms)

lemma walk_finds:
  assumes "linked (lookup fetch cache) (pre @ [cur])" "list_all (\<lambda>b. s < bl_Slot b) pre" "bl_Slot cur \<le> s"
  shows "\<exists>cache'. verdict_walk fetch s (hd (pre @ [cur])) nxt cache = Some (Some cur, last (nxt # pre), cache') \<and>
    lookup fetch cache' = lookup fetch cache"
  using assms
proof (induction pre arbitrary: nxt cache)
  case Nil
  then show ?case by (subst verdict_walk.simps) (auto simp: not_less)
next
  case (Cons b pre)
  obtain cache1 where g: "getBlock fetch (bl_ParentRoot b) cache = (Some (hd (pre @ [cur])), cache1)"
    and lk: "lookup fetch cache1 = lookup fetch cache"
    using Cons.prems(1) getBlock_lookup [of fetch "bl_ParentRoot b" cache]
    by (cases "getBlock fetch (bl_ParentRoot b) cache"; cases pre) auto
  have "linked (lookup fetch cache1) (pre @ [cur])" using Cons.prems(1) lk by (cases pre) auto
  then obtain cache' where "verdict_walk fetch s (hd (pre @ [cur])) b cache1 = Some (Some cur, last (b # pre), cache')"
    "lookup fetch cache' = lookup fetch cache1"
    using Cons.IH [of cache1 b] Cons.prems by auto
  then show ?case using walk_step [OF _ g, of s nxt] Cons.prems lk by auto
qed

lemma walk_terminates:
  assumes "slots_descend (lookup fetch cache) head" "cursor = head \<or> (\<exists>r. lookup fetch cache r = Some cursor)"
  shows "\<exists>res nxt' cache'. verdict_walk fetch s cursor nxt cache = Some (res, nxt', cache') \<and>
    lookup fetch cache' = lookup fetch cache"
  using assms
proof (induction "unat (bl_Slot cursor)" arbitrary: cursor nxt cache rule: less_induct)
  case less
  show ?case
  proof (cases "bl_Slot cursor > s")
    case False
    then show ?thesis by (subst verdict_walk.simps) auto
  next
    case True
    obtain res cache1 where g: "getBlock fetch (bl_ParentRoot cursor) cache = (res, cache1)"
      by (cases "getBlock fetch (bl_ParentRoot cursor) cache")
    have res: "res = lookup fetch cache (bl_ParentRoot cursor)" and lk: "lookup fetch cache1 = lookup fetch cache"
      using getBlock_lookup [of fetch "bl_ParentRoot cursor" cache] g by auto
    show ?thesis
    proof (cases res)
      case None
      then show ?thesis using True g lk by (subst verdict_walk.simps) auto
    next
      case (Some p)
      have "bl_Slot p < bl_Slot cursor"
        using less.prems res Some unfolding slots_descend_def by metis
      then have "unat (bl_Slot p) < unat (bl_Slot cursor)" by (simp add: word_less_nat_alt)
      moreover have "\<exists>r. lookup fetch cache1 r = Some p" using res Some lk by metis
      ultimately have "\<exists>res nxt' cache'. verdict_walk fetch s p cursor cache1 = Some (res, nxt', cache') \<and>
          lookup fetch cache' = lookup fetch cache1"
        using less.hyps [of p cache1 cursor] less.prems lk by simp
      then show ?thesis using walk_step [OF True, of fetch cache p cache1 nxt] g Some lk by auto
    qed
  qed
qed

lemma evaluate_win_terminates:
  assumes "slots_descend (lookup fetch (it_blockCache t)) head"
  shows "\<exists>t'. evaluate_win fetch head s t = Some t' \<and>
    lookup fetch (it_blockCache t') = lookup fetch (it_blockCache t)"
  using walk_terminates [OF assms, of head s head]
  by (auto simp: evaluate_win_def resolveVerdict_def Let_def split: option.splits)

lemma evaluate_all_terminates:
  assumes "slots_descend (lookup fetch (it_blockCache t)) head"
  shows "\<exists>t'. evaluateTrackedWins fetch head ks t = Some t' \<and>
    lookup fetch (it_blockCache t') = lookup fetch (it_blockCache t)"
  using assms
proof (induction ks arbitrary: t)
  case Nil
  then show ?case by simp
next
  case (Cons k ks)
  obtain t1 where t1: "evaluate_win fetch head k t = Some t1" "lookup fetch (it_blockCache t1) = lookup fetch (it_blockCache t)"
    using evaluate_win_terminates [OF Cons.prems] by blast
  then show ?case using Cons.IH [of t1] Cons.prems by auto
qed

text \<open>One evaluation leaves the other slots alone.\<close>

lemma evaluate_win_other:
  assumes "evaluate_win fetch head k t = Some t'" "s \<noteq> k"
  shows "it_trackedWins t' s = it_trackedWins t s"
    "filter (\<lambda>e. pse_Slot e = s) (it_statusEvents t') = filter (\<lambda>e. pse_Slot e = s) (it_statusEvents t)"
  using assms by (auto simp: evaluate_win_def Let_def split: option.splits if_splits prod.splits)

definition status_events :: "slot \<Rightarrow> InclusionTracker \<Rightarrow> PayloadStatusEvent list" where
  "status_events s t = filter (\<lambda>e. pse_Slot e = s) (it_statusEvents t)"

text \<open>The state of a won slot after a head was evaluated: the verdict of the head's chain, with an
  event exactly when it differs from the last one.\<close>

definition verdict_recorded ::
  "slot \<Rightarrow> wonTracking \<Rightarrow> PayloadVerdict \<Rightarrow> BlockInfo \<Rightarrow> InclusionTracker \<Rightarrow> InclusionTracker \<Rightarrow> bool" where
  "verdict_recorded s win v nxt t t' \<longleftrightarrow>
     it_trackedWins t' s = Some (win\<lparr>wt_verdict := Some v\<rparr>) \<and>
     status_events s t' = status_events s t @
       (if wt_verdict win = Some v then []
        else [\<lparr>pse_Slot = s, pse_Verdict = v, pse_NextBlockSlot = bl_Slot nxt,
               pse_NextParentHash = bl_FinalitySafeExecutionBlockHash nxt\<rparr>])"

lemma evaluate_win_verdict:
  assumes "it_trackedWins t s = Some win" "linked (lookup fetch (it_blockCache t)) ((head # mids) @ [cur])"
    and "list_all (\<lambda>b. s < bl_Slot b) (head # mids)" "bl_Slot cur \<le> s"
  shows "\<exists>t'. evaluate_win fetch head s t = Some t' \<and> lookup fetch (it_blockCache t') = lookup fetch (it_blockCache t) \<and>
    verdict_recorded s win (verdict_of win cur (last (head # mids))) (last (head # mids)) t t'"
proof -
  obtain c' where w: "verdict_walk fetch s head head (it_blockCache t) = Some (Some cur, last (head # mids), c')"
    "lookup fetch c' = lookup fetch (it_blockCache t)"
    using walk_finds [OF assms(2,3,4), of head] by auto
  have late: "\<not> bl_Slot head \<le> s" using assms(3) by (simp add: not_le)
  show ?thesis
  proof (cases "wt_verdict win = Some (verdict_of win cur (last (head # mids)))")
    case True
    then have "win\<lparr>wt_verdict := Some (verdict_of win cur (last (head # mids)))\<rparr> = win" by simp
    then show ?thesis
      using True assms(1) w late
      by (simp add: evaluate_win_def resolveVerdict_def Let_def verdict_recorded_def status_events_def)
  next
    case False
    then show ?thesis
      using assms(1) w late
      by (simp add: evaluate_win_def resolveVerdict_def Let_def verdict_recorded_def status_events_def)
  qed
qed

lemma evaluate_all_frame:
  assumes "evaluateTrackedWins fetch head ks t = Some t'" "s \<notin> set ks"
  shows "it_trackedWins t' s = it_trackedWins t s \<and> status_events s t' = status_events s t"
  using assms
proof (induction ks arbitrary: t)
  case Nil
  then show ?case by simp
next
  case (Cons k ks)
  then obtain t1 where "evaluate_win fetch head k t = Some t1" "evaluateTrackedWins fetch head ks t1 = Some t'"
    by (auto split: option.splits)
  then show ?case using Cons evaluate_win_other [of fetch head k t t1 s] by (simp add: status_events_def)
qed

lemma evaluate_all_verdict:
  assumes "slots_descend (lookup fetch (it_blockCache t)) head" "distinct ks" "s \<in> set ks"
    and "it_trackedWins t s = Some win" "linked (lookup fetch (it_blockCache t)) ((head # mids) @ [cur])"
    and "list_all (\<lambda>b. s < bl_Slot b) (head # mids)" "bl_Slot cur \<le> s"
  shows "\<exists>t'. evaluateTrackedWins fetch head ks t = Some t' \<and>
    verdict_recorded s win (verdict_of win cur (last (head # mids))) (last (head # mids)) t t'"
  using assms
proof (induction ks arbitrary: t)
  case Nil
  then show ?case by simp
next
  case (Cons k ks)
  obtain t1 where t1: "evaluate_win fetch head k t = Some t1" "lookup fetch (it_blockCache t1) = lookup fetch (it_blockCache t)"
    using evaluate_win_terminates [OF Cons.prems(1)] by blast
  obtain t2 where t2: "evaluateTrackedWins fetch head ks t1 = Some t2"
    using evaluate_all_terminates [of fetch t1 head ks] Cons.prems(1) t1 by auto
  show ?case
  proof (cases "k = s")
    case True
    have r: "verdict_recorded s win (verdict_of win cur (last (head # mids))) (last (head # mids)) t t1"
      using evaluate_win_verdict [OF Cons.prems(4-7)] t1 True by auto
    moreover have "it_trackedWins t2 s = it_trackedWins t1 s \<and> status_events s t2 = status_events s t1"
      by (rule evaluate_all_frame [OF t2]) (use Cons.prems True in auto)
    ultimately show ?thesis using t1 t2 by (simp add: verdict_recorded_def)
  next
    case False
    have fr: "it_trackedWins t1 s = it_trackedWins t s" "status_events s t1 = status_events s t"
      using evaluate_win_other [OF t1(1)] False by (auto simp: status_events_def)
    then show ?thesis
      using Cons.IH [of t1] Cons.prems t1 False by (simp add: verdict_recorded_def)
  qed
qed

section \<open>Properties\<close>

text \<open>
  C13: Evaluating a head terminates and tells the truth about its chain.  As long as the blocks
  the node returns obey the consensus rule that slots decrease towards the ancestors, the loop over
  all tracked wins ends; and for a tracked win whose chain can be resolved down to the block \<open>cur\<close>
  at or before the won slot, the recorded verdict is the one of that chain (orphaned if \<open>cur\<close> is not
  the block that committed to our payload, canonical if the first block after it builds on our
  payload, missed otherwise), revised by a reorg and announced exactly when it changed.\<close>
theorem verdict_tracks_chain:
  assumes "slots_descend (lookup fetch (it_blockCache t)) head" "range_order ks (it_trackedWins t)"
    and "it_trackedWins t s = Some win"
    and "linked (lookup fetch (it_blockCache t)) ((head # mids) @ [cur])"
    and "list_all (\<lambda>b. s < bl_Slot b) (head # mids)" "bl_Slot cur \<le> s"
  shows "\<exists>t'. evaluateTrackedWins fetch head ks t = Some t' \<and>
    (let v = (if bl_Root cur \<noteq> wt_blockRoot win then PayloadVerdictOrphaned
              else if bl_FinalitySafeExecutionBlockHash (last (head # mids)) = wt_execHash win
                then PayloadVerdictCanonical else PayloadVerdictMissed)
     in verdict_recorded s win v (last (head # mids)) t t')"
proof -
  have ks: "distinct ks" "s \<in> set ks" using assms(2,3) by (auto simp: range_order_def)
  show ?thesis
    unfolding Let_def verdict_of_def [symmetric] by (rule evaluate_all_verdict [OF assms(1) ks assms(3-6)])
qed

definition demo_chain_block :: "slot \<Rightarrow> u8 \<Rightarrow> u8 \<Rightarrow> u8 \<Rightarrow> BlockInfo" where
  "demo_chain_block s r par exec = \<lparr>bl_Slot = s, bl_Root = [r], bl_ExecutionBlockHash = [], bl_FinalitySafeExecutionBlockHash = [exec],
     bl_ParentRoot = [par], bl_StateRoot = []\<rparr>"

definition demo_win :: wonTracking where
  "demo_win = \<lparr>wt_blockRoot = [1], wt_execHash = [44], wt_verdict = None\<rparr>"

definition demo_tracker :: InclusionTracker where
  "demo_tracker = (NewInclusionTracker True)\<lparr>it_trackedWins := [10 \<mapsto> demo_win],
     it_blockCache := [[3] \<mapsto> demo_chain_block 13 3 2 9]\<rparr>"

definition demo_fetch :: "hash32 \<Rightarrow> BlockInfo option" where
  "demo_fetch r = (if r = [2] then Some (demo_chain_block 12 2 1 44)
     else if r = [1] then Some (demo_chain_block 10 1 0 7) else None)"

text \<open>The block of slot 10 won; slot 11 is empty; the block of slot 12 builds on our payload.\<close>

theorem verdict_tracks_chain_witness:
  "\<exists>t'. evaluateTrackedWins demo_fetch (demo_chain_block 13 3 2 9) [10] demo_tracker = Some t' \<and>
     it_trackedWins t' 10 = Some (demo_win\<lparr>wt_verdict := Some PayloadVerdictCanonical\<rparr>)"
proof -
  have lk: "lookup demo_fetch (it_blockCache demo_tracker) r =
      (if r = [3] then Some (demo_chain_block 13 3 2 9) else demo_fetch r)" for r
    by (simp add: lookup_def demo_tracker_def)
  have desc: "slots_descend (lookup demo_fetch (it_blockCache demo_tracker)) (demo_chain_block 13 3 2 9)"
    unfolding slots_descend_def lk by (auto simp: demo_fetch_def demo_chain_block_def split: if_splits)
  have "range_order [10] (it_trackedWins demo_tracker)" "it_trackedWins demo_tracker 10 = Some demo_win"
    by (simp_all add: range_order_def demo_tracker_def)
  moreover have "linked (lookup demo_fetch (it_blockCache demo_tracker))
      ((demo_chain_block 13 3 2 9 # [demo_chain_block 12 2 1 44]) @ [demo_chain_block 10 1 0 7])"
    by (simp add: lk demo_fetch_def demo_chain_block_def)
  ultimately show ?thesis
    using verdict_tracks_chain [OF desc, of "[10]" 10 demo_win "[demo_chain_block 12 2 1 44]" "demo_chain_block 10 1 0 7"]
    by (auto simp: demo_chain_block_def demo_win_def verdict_recorded_def Let_def)
qed

text \<open>
  The amount a win is charged with is the block value the execution client reported; the values of
  the bids recorded on the payload play no role in it.
\<close>

lemma charge_ignores_bids:
  assumes "GetByBlockHash (ie_order env) (rvs_heap sys) (bl_ExecutionBlockHash blk) (ie_cache env) = Some p"
    and "ie_fork env \<ge> DataVersionGloas" "it_hasReveal t" "rvs_payments sys = Some pay"
    and "p_BlockValue (rvs_heap sys p) = 3000000000" "Bids p (rvs_heap sys) = [b]" "br_Value b = 8"
  shows "\<exists>pay'. rvs_payments (snd (checkForOurPayload env blk (t, sys))) = Some pay' \<and>
    map_option pp_Value (pt_pendingPayments pay' (p_ProposalSlot (rvs_heap sys p))) = Some 3"
  using assms
  by (simp add: checkForOurPayload_def charge_and_reveal_def bid_value_gwei_def Let_def RequestReveal_def RecordWonBid_def)

end
