(* ===== verification/Duties.thy ===== *)
theory Duties
  imports Chain_Spec Go_Codec
begin

text \<open>
  Duty computation, \<open>pkg/chain/duties.go\<close>: the seed, the swap-or-not shuffle of the active
  validators and the committees cut from it, and the payload timeliness committee.

  \<open>hash\<close> is SHA-256; nothing below depends on which function it is beyond its 32 bytes of output.
  Positions in the list are \<open>nat\<close>; where the code converts a \<open>uint64\<close> to \<open>uint32\<close> the reduction
  is written out (\<open>trunc32\<close>).  The shuffle updates its list in place, one pair at a time, and
  carries the last hash and the last byte it read from one pair to the next.  A panic (an index out
  of range) is \<open>None\<close>.
\<close>

type_synonym hashfn = "u8 list \<Rightarrow> u8 list"

definition maxShuffleListSize :: nat where
  "maxShuffleListSize = 2 ^ 40"

definition EtherGweiFactor :: gwei where
  "EtherGweiFactor = 1000000000"

definition trunc32 :: "nat \<Rightarrow> nat" where
  "trunc32 n = n mod 2 ^ 32"

section \<open>Seeds\<close>

record DutyState =
  ds_RandaoMix :: "u8 list option"
  ds_NextRandaoMix :: "u8 list option"
  ds_RandaoMixes :: "u8 list list"
  ds_EffectiveBalances :: "u32 list"

definition GetActiveCount :: "DutyState \<Rightarrow> u64" where
  "GetActiveCount st = of_nat (length (ds_EffectiveBalances st))"

definition getRandaoMix :: "ChainSpec \<Rightarrow> DutyState \<Rightarrow> epoch \<Rightarrow> u8 list option" where
  "getRandaoMix spec st e =
     (if EpochsPerHistoricalVector spec = 0 then None
      else let index = unat (e mod EpochsPerHistoricalVector spec) in
           if index < length (ds_RandaoMixes st) then Some (ds_RandaoMixes st ! index) else None)"

definition getSeed ::
  "hashfn \<Rightarrow> ChainSpec \<Rightarrow> DutyState \<Rightarrow> epoch \<Rightarrow> u8 list \<Rightarrow> (u8 list \<times> DutyState) option" where
  "getSeed hash spec st e domainType =
     Option.bind
       (case ds_RandaoMix st of
          Some mix \<Rightarrow> Some (mix, st)
        | None \<Rightarrow>
            (let e' = e + (EpochsPerHistoricalVector spec - MinSeedLookahead spec - 1) in
             Option.bind (getRandaoMix spec st e') (\<lambda>mix.
             Option.bind (getRandaoMix spec st (e' + 1)) (\<lambda>nextMix.
               Some (mix, st\<lparr>ds_RandaoMix := Some mix, ds_NextRandaoMix := Some nextMix\<rparr>)))))
       (\<lambda>(mix, st). Some (hash (domainType @ PutUint64 e @ mix), st))"

section \<open>The shuffle\<close>

text \<open>The contents of \<open>buf\<close> when it is hashed: seed and round, or seed, round and window.\<close>

definition window_hash :: "hashfn \<Rightarrow> u8 list \<Rightarrow> nat \<Rightarrow> nat \<Rightarrow> u8 list" where
  "window_hash hash seed r w = hash (seed @ [of_nat r] @ le_bytes 4 (trunc32 w))"

definition bit_set :: "u8 \<Rightarrow> nat \<Rightarrow> bool" where
  "bit_set byteV j \<longleftrightarrow> and (drop_bit (j mod 8) byteV) 1 = 1"

definition swapOrNot ::
  "hashfn \<Rightarrow> u8 list \<Rightarrow> nat \<Rightarrow> u8 \<Rightarrow> nat \<Rightarrow> 'a list \<Rightarrow> nat \<Rightarrow> u8 list \<Rightarrow> u8 \<times> u8 list \<times> 'a list" where
  "swapOrNot hash seed r byteV i input j source =
     (let source = (if j mod 256 = 255 then window_hash hash seed r (j div 256) else source);
          byteV = (if j mod 8 = 7 then source ! ((j mod 256) div 8) else byteV)
      in (byteV, source, if bit_set byteV j then input[i := input ! j, j := input ! i] else input))"

text \<open>\<open>for i, j := ...; i < mirror; i, j = i+1, j-1\<close>\<close>

function swap_loop ::
  "hashfn \<Rightarrow> u8 list \<Rightarrow> nat \<Rightarrow> nat \<Rightarrow> nat \<Rightarrow> nat \<Rightarrow> u8 \<Rightarrow> u8 list \<Rightarrow> 'a list \<Rightarrow> 'a list" where
  "swap_loop hash seed r mirror i j byteV source input =
     (if i < mirror
      then (case swapOrNot hash seed r byteV (trunc32 i) input (trunc32 j) source of
              (byteV, source, input) \<Rightarrow> swap_loop hash seed r mirror (i + 1) (j - 1) byteV source input)
      else input)"
  by pat_completeness auto
termination
  by (relation "measure (\<lambda>(_, _, _, mirror, i, _). mirror - i)") auto

declare swap_loop.simps [simp del]

definition round_pivot :: "hashfn \<Rightarrow> u8 list \<Rightarrow> nat \<Rightarrow> nat \<Rightarrow> nat" where
  "round_pivot hash seed r listSize = le_nat (take 8 (hash (seed @ [of_nat r]))) mod listSize"

definition start_loop :: "hashfn \<Rightarrow> u8 list \<Rightarrow> nat \<Rightarrow> nat \<Rightarrow> nat \<Rightarrow> nat \<Rightarrow> 'a list \<Rightarrow> 'a list" where
  "start_loop hash seed r mirror i j input =
     (let source = window_hash hash seed r (j div 256)
      in swap_loop hash seed r mirror i j (source ! ((j mod 256) div 8)) source input)"

definition shuffle_round :: "hashfn \<Rightarrow> u8 list \<Rightarrow> nat \<Rightarrow> 'a list \<Rightarrow> 'a list" where
  "shuffle_round hash seed r input =
     (let listSize = length input;
          pivot = round_pivot hash seed r listSize;
          input = start_loop hash seed r ((pivot + 1) div 2) 0 pivot input
      in start_loop hash seed r ((pivot + listSize + 1) div 2) (pivot + 1) (listSize - 1) input)"

function round_loop :: "hashfn \<Rightarrow> u8 list \<Rightarrow> bool \<Rightarrow> nat \<Rightarrow> nat \<Rightarrow> 'a list \<Rightarrow> 'a list" where
  "round_loop hash seed shuffle rounds r input =
     (let input = shuffle_round hash seed r input in
      if shuffle then (if r + 1 \<ge> rounds then input else round_loop hash seed shuffle rounds (r + 1) input)
      else (if r = 0 then input else round_loop hash seed shuffle rounds (r - 1) input))"
  by pat_completeness auto
termination
  by (relation "measure (\<lambda>(_, _, shuffle, rounds, r, _). if shuffle then rounds - r else r)") auto

declare round_loop.simps [simp del]

definition innerShuffleList :: "hashfn \<Rightarrow> ChainSpec \<Rightarrow> 'a list \<Rightarrow> u8 list \<Rightarrow> bool \<Rightarrow> 'a list option" where
  "innerShuffleList hash spec input seed shuffle =
     (if length input \<le> 1 then Some input
      else if length input > maxShuffleListSize then None
      else let rounds = unat (ShuffleRoundCount spec) mod 256 in
           if rounds = 0 then Some input
           else Some (round_loop hash seed shuffle rounds (if shuffle then 0 else rounds - 1) input))"

definition unshuffleList :: "hashfn \<Rightarrow> ChainSpec \<Rightarrow> 'a list \<Rightarrow> u8 list \<Rightarrow> 'a list option" where
  "unshuffleList hash spec input seed = innerShuffleList hash spec input seed False"

section \<open>Committees\<close>

definition splitOffset :: "u64 \<Rightarrow> u64 \<Rightarrow> u64 \<Rightarrow> u64 option" where
  "splitOffset listSize chunks index = (if chunks = 0 then None else Some ((listSize * index) div chunks))"

definition slotCommitteeCount :: "ChainSpec \<Rightarrow> u64 \<Rightarrow> u64 option" where
  "slotCommitteeCount spec activeValidatorCount =
     (if SlotsPerEpoch spec = 0 \<or> TargetCommitteeSize spec = 0 then None
      else let committeesPerSlot = activeValidatorCount div SlotsPerEpoch spec div TargetCommitteeSize spec in
           Some (if committeesPerSlot > MaxCommitteesPerSlot spec then MaxCommitteesPerSlot spec
                 else if committeesPerSlot = 0 then 1 else committeesPerSlot))"

datatype duty_error = ListSizeOutOfBounds | IndexOutOfRange | EmptyCommitteeIndices

text \<open>The committee with a global index; slicing with \<open>start > end\<close> panics.\<close>

definition committee_slice :: "u64 \<Rightarrow> u64 \<Rightarrow> 'a list \<Rightarrow> u64 \<Rightarrow> (duty_error + 'a list) option" where
  "committee_slice validatorCount committeesCount shuffled indexOffset =
     Option.bind (splitOffset validatorCount committeesCount indexOffset) (\<lambda>start.
     Option.bind (splitOffset validatorCount committeesCount (indexOffset + 1)) (\<lambda>stop.
       if start > validatorCount \<or> stop > validatorCount then Some (Inl IndexOutOfRange)
       else if start > stop then None
       else Some (Inr (drop (unat start) (take (unat stop) shuffled)))))"

text \<open>A counting loop that appends one result per round and returns the first error.\<close>

fun collect :: "('k \<Rightarrow> (duty_error + 'b) option) \<Rightarrow> 'k list \<Rightarrow> (duty_error + 'b list) option" where
  "collect f [] = Some (Inr [])"
| "collect f (k # ks) =
     (case f k of
        None \<Rightarrow> None
      | Some (Inl e) \<Rightarrow> Some (Inl e)
      | Some (Inr c) \<Rightarrow> map_option (map_sum id (\<lambda>cs. c # cs)) (collect f ks))"

definition u64_upt :: "u64 \<Rightarrow> u64 list" where
  "u64_upt n = map of_nat [0..<unat n]"

definition cut_committees ::
  "ChainSpec \<Rightarrow> u64 \<Rightarrow> u64 \<Rightarrow> 'a list \<Rightarrow> (duty_error + 'a list list list) option" where
  "cut_committees spec validatorCount committeesPerSlot shuffled =
     collect (\<lambda>slotIndex. collect (\<lambda>committeeIndex.
         committee_slice validatorCount (committeesPerSlot * SlotsPerEpoch spec) shuffled
           (committeeIndex + slotIndex * committeesPerSlot)) (u64_upt committeesPerSlot))
       (u64_upt (SlotsPerEpoch spec))"

definition getAttesterDuties ::
  "hashfn \<Rightarrow> ChainSpec \<Rightarrow> DutyState \<Rightarrow> epoch \<Rightarrow> ((duty_error + u32 list list list) \<times> DutyState) option" where
  "getAttesterDuties hash spec st e =
     Option.bind (getSeed hash spec st e (DomainBeaconAttester spec)) (\<lambda>(seed, st).
     Option.bind (slotCommitteeCount spec (GetActiveCount st)) (\<lambda>committeesPerSlot.
       case unshuffleList hash spec (map of_nat [0..<unat (GetActiveCount st)]) seed of
         None \<Rightarrow> Some (Inl ListSizeOutOfBounds, st)
       | Some shuffled \<Rightarrow>
           map_option (\<lambda>duties. (duties, st))
             (cut_committees spec (GetActiveCount st) committeesPerSlot shuffled)))"

section \<open>The payload timeliness committee\<close>

text \<open>\<open>None\<close> is the panic of a candidate without a balance.\<close>

definition ptc_accepts :: "hashfn \<Rightarrow> ChainSpec \<Rightarrow> DutyState \<Rightarrow> u8 list \<Rightarrow> u32 list \<Rightarrow> u64 \<Rightarrow> bool option" where
  "ptc_accepts hash spec st seed indices i =
     (let candidate = indices ! unat (i mod of_nat (length indices));
          h = hash (seed @ PutUint64 (i div 16));
          offset = unat (i mod 16) * 2;
          randomValue = of_nat (le_nat (take 2 (drop offset h)))
      in if unat candidate < length (ds_EffectiveBalances st)
         then Some (ucast (ds_EffectiveBalances st ! unat candidate) * EtherGweiFactor * 65535
                      \<ge> MaxEffectiveBalanceElectra spec * randomValue)
         else None)"

text \<open>The selection loop; \<open>None\<close> is the value of a run that does not end, \<open>Some None\<close> a panic.\<close>

partial_function (option) ptc_loop ::
  "(u64 \<Rightarrow> bool option) \<Rightarrow> (u64 \<Rightarrow> u32) \<Rightarrow> u64 \<Rightarrow> u64 \<Rightarrow> u32 list \<Rightarrow> u32 list option option" where
  "ptc_loop accepts candidate ptcSize i selected =
     (if of_nat (length selected) < ptcSize
      then (case accepts i of
              None \<Rightarrow> Some None
            | Some ok \<Rightarrow> ptc_loop accepts candidate ptcSize (i + 1) (if ok then selected @ [candidate i] else selected))
      else Some (Some selected))"

datatype 'a outcome = Panics | Diverges | Returns 'a

definition outcome_of :: "'a option option \<Rightarrow> 'a outcome" where
  "outcome_of x = (case x of None \<Rightarrow> Diverges | Some None \<Rightarrow> Panics | Some (Some y) \<Rightarrow> Returns y)"

definition ptc_candidate :: "u32 list \<Rightarrow> u64 \<Rightarrow> u32" where
  "ptc_candidate indices i = indices ! unat (i mod of_nat (length indices))"

definition getPtcDuties ::
  "hashfn \<Rightarrow> ChainSpec \<Rightarrow> DutyState \<Rightarrow> u32 list list \<Rightarrow> slot \<Rightarrow> ((duty_error + u32 list) \<times> DutyState) outcome" where
  "getPtcDuties hash spec st attesterDuties s =
     (if PtcSize spec = 0 then Returns (Inr [], st)
      else if SlotsPerEpoch spec = 0 then Panics
      else case getSeed hash spec st (s div SlotsPerEpoch spec) (DomainPtcAttester spec) of
        None \<Rightarrow> Panics
      | Some (seedHash, st) \<Rightarrow>
          (let seed = hash (seedHash @ PutUint64 s);
               indices = concat attesterDuties
           in if indices = [] then Returns (Inl EmptyCommitteeIndices, st)
              else map_outcome (\<lambda>selected. (Inr selected, st))
                     (outcome_of (ptc_loop (ptc_accepts hash spec st seed indices) (ptc_candidate indices)
                        (PtcSize spec) 0 []))))"

section \<open>The shuffle is the permutation of the consensus specification\<close>

definition spec_bit :: "hashfn \<Rightarrow> u8 list \<Rightarrow> nat \<Rightarrow> nat \<Rightarrow> bool" where
  "spec_bit hash seed r p = bit_set (window_hash hash seed r (p div 256) ! ((p mod 256) div 8)) p"

definition round_index :: "hashfn \<Rightarrow> u8 list \<Rightarrow> nat \<Rightarrow> nat \<Rightarrow> nat \<Rightarrow> nat" where
  "round_index hash seed n r i =
     (let pivot = round_pivot hash seed r n; flip = (pivot + n - i) mod n; position = max i flip
      in if spec_bit hash seed r position then flip else i)"

definition compute_shuffled_index :: "hashfn \<Rightarrow> u8 list \<Rightarrow> nat \<Rightarrow> nat \<Rightarrow> nat \<Rightarrow> nat" where
  "compute_shuffled_index hash seed rounds n i = fold (round_index hash seed n) [0..<rounds] i"

text \<open>The bit the loop reads at position \<open>j\<close> from the hash and the byte it carries along.\<close>

definition carried :: "hashfn \<Rightarrow> u8 list \<Rightarrow> nat \<Rightarrow> nat \<Rightarrow> u8 \<Rightarrow> u8 list \<Rightarrow> bool" where
  "carried hash seed r j byteV source \<longleftrightarrow>
     (j mod 256 \<noteq> 255 \<longrightarrow> source = window_hash hash seed r (j div 256)) \<and>
     (j mod 8 \<noteq> 7 \<longrightarrow> byteV = window_hash hash seed r (j div 256) ! ((j mod 256) div 8))"

lemma pred_div_mod:
  fixes j m :: nat
  assumes "0 < j" "0 < m" "(j - 1) mod m \<noteq> m - 1"
  shows "(j - 1) div m = j div m" "(j - 1) mod m = j mod m - 1"
proof -
  have "Suc (j - 1) = j" using assms by simp
  then have "Suc ((j - 1) mod m) \<noteq> m" using assms by auto
  then have *: "Suc (j - 1) mod m = Suc ((j - 1) mod m)" "Suc (j - 1) div m = (j - 1) div m"
    by (simp_all add: mod_Suc div_Suc)
  show "(j - 1) div m = j div m" "(j - 1) mod m = j mod m - 1"
    using * \<open>Suc (j - 1) = j\<close> by simp_all
qed

lemma byte_position: "(x mod 256) div 8 = (x div 8) mod (32::nat)"
  using mod_mult2_eq [of x 8 32] by simp

lemma swapOrNot_carried:
  assumes "carried hash seed r j byteV source" "0 < j"
    and "swapOrNot hash seed r byteV i input j source = (byteV', source', input')"
  shows "carried hash seed r (j - 1) byteV' source'"
    "input' = (if spec_bit hash seed r j then input[i := input ! j, j := input ! i] else input)"
proof -
  have src: "source' = window_hash hash seed r (j div 256)"
    using assms by (auto simp: swapOrNot_def carried_def Let_def)
  have "byteV' = (if j mod 8 = 7 then source' ! ((j mod 256) div 8) else byteV)"
    using assms(3) by (auto simp: swapOrNot_def Let_def)
  then have byte: "byteV' = window_hash hash seed r (j div 256) ! ((j mod 256) div 8)"
    using assms(1) by (simp add: carried_def src)
  show "input' = (if spec_bit hash seed r j then input[i := input ! j, j := input ! i] else input)"
    unfolding spec_bit_def byte [symmetric] using assms(3) by (auto simp: swapOrNot_def Let_def)
  have "(j - 1) mod 256 \<noteq> 255 \<longrightarrow> (j - 1) div 256 = j div 256"
    using pred_div_mod(1) [of j 256] assms(2) by simp
  moreover have "((j - 1) mod 256) div 8 = (j mod 256) div 8 \<and> (j - 1) div 256 = j div 256"
    if *: "(j - 1) mod 8 \<noteq> 7"
  proof -
    have "(j - 1) mod 256 \<noteq> 255" using * mod_mod_cancel [of 8 256 "j - 1"] by (intro notI) simp
    then show ?thesis
      using pred_div_mod(1) [of j 256] pred_div_mod(1) [of j 8] * assms(2) by (simp add: byte_position)
  qed
  ultimately show "carried hash seed r (j - 1) byteV' source'"
    by (simp add: carried_def src byte)
qed

text \<open>One loop mirrors the positions from \<open>i\<close> to \<open>j\<close> and swaps the pairs whose bit is set.\<close>

lemma swap_loop_nth:
  assumes "i + j = S" "j < length input" "i \<le> j + 1" "length input \<le> 2 ^ 32" "carried hash seed r j byteV source"
  shows "length (swap_loop hash seed r ((S + 1) div 2) i j byteV source input) = length input \<and>
    (\<forall>k. swap_loop hash seed r ((S + 1) div 2) i j byteV source input ! k =
       (if i \<le> k \<and> k \<le> j \<and> spec_bit hash seed r (max k (S - k)) then input ! (S - k) else input ! k))"
  using assms
proof (induction "(S + 1) div 2 - i" arbitrary: i j byteV source input)
  case 0
  have "k = S - k" if "i \<le> k" "k \<le> j" for k using that 0 by linarith
  then show ?case using 0 by (simp add: swap_loop.simps [of _ _ _ _ i])
next
  case (Suc d)
  have ij: "i < j" using Suc.hyps(2) Suc.prems(1) by linarith
  have tr: "trunc32 i = i" "trunc32 j = j" using ij Suc.prems by (simp_all add: trunc32_def)
  obtain byteV' source' input' where sw: "swapOrNot hash seed r byteV i input j source = (byteV', source', input')"
    by (metis prod_cases3)
  note car = swapOrNot_carried [OF Suc.prems(5) _ sw]
  have len: "length input' = length input" using car(2) ij by simp
  have step: "swap_loop hash seed r ((S + 1) div 2) i j byteV source input =
      swap_loop hash seed r ((S + 1) div 2) (i + 1) (j - 1) byteV' source' input'"
  proof -
    have "i < (S + 1) div 2" using Suc.hyps(2) by linarith
    then show ?thesis by (simp add: swap_loop.simps [of _ _ _ _ i] tr sw)
  qed
  have IH: "length (swap_loop hash seed r ((S + 1) div 2) (i + 1) (j - 1) byteV' source' input') = length input' \<and>
    (\<forall>k. swap_loop hash seed r ((S + 1) div 2) (i + 1) (j - 1) byteV' source' input' ! k =
       (if i + 1 \<le> k \<and> k \<le> j - 1 \<and> spec_bit hash seed r (max k (S - k)) then input' ! (S - k) else input' ! k))"
    by (rule Suc.hyps(1)) (use Suc.hyps(2) Suc.prems ij len car(1) in auto)
  have S: "S - i = j" "S - j = i" "max i j = j" "max j i = j" using Suc.prems(1) ij by auto
  have mid: "input' ! k = input ! k" if "k \<noteq> i" "k \<noteq> j" for k using that car(2) ij by simp
  have ends: "input' ! i = (if spec_bit hash seed r j then input ! j else input ! i)"
    "input' ! j = (if spec_bit hash seed r j then input ! i else input ! j)"
    using car(2) ij Suc.prems(2) by simp_all
  have inner: "S - k \<noteq> i \<and> S - k \<noteq> j" if "i + 1 \<le> k" "k \<le> j - 1" for k using that Suc.prems(1) by linarith
  have "swap_loop hash seed r ((S + 1) div 2) i j byteV source input ! k =
      (if i \<le> k \<and> k \<le> j \<and> spec_bit hash seed r (max k (S - k)) then input ! (S - k) else input ! k)" for k
  proof -
    consider "k = i" | "k = j" | "i + 1 \<le> k \<and> k \<le> j - 1" | "k < i \<or> j < k" using ij by linarith
    then show ?thesis
      unfolding step IH [THEN conjunct2, rule_format]
      by cases (use ij in \<open>auto simp: S ends mid inner\<close>)
  qed
  then show ?case using IH len unfolding step by simp
qed

lemma start_loop_nth:
  assumes "i + j = S" "j < length input" "i \<le> j + 1" "length input \<le> 2 ^ 32"
  shows "length (start_loop hash seed r ((S + 1) div 2) i j input) = length input"
    "start_loop hash seed r ((S + 1) div 2) i j input ! k =
       (if i \<le> k \<and> k \<le> j \<and> spec_bit hash seed r (max k (S - k)) then input ! (S - k) else input ! k)"
  using swap_loop_nth [OF assms] by (simp_all add: start_loop_def Let_def carried_def)

lemma round_pivot_less: "0 < n \<Longrightarrow> round_pivot hash seed r n < n"
  by (simp add: round_pivot_def)

lemma flip_cases:
  fixes n :: nat
  assumes "k < n" "pivot < n"
  shows "(pivot + n - k) mod n = (if k \<le> pivot then pivot - k else pivot + n - k)"
proof (cases "k \<le> pivot")
  case True
  then have "pivot + n - k = (pivot - k) + n" by simp
  then have "(pivot + n - k) mod n = (pivot - k) mod n" by (metis mod_add_self2)
  then show ?thesis using True assms by simp
next
  case False
  then show ?thesis using assms by simp
qed

lemma round_index_less: "k < n \<Longrightarrow> round_index hash seed n r k < n"
  by (simp add: round_index_def Let_def)

lemma round_index_invol:
  assumes "k < n"
  shows "round_index hash seed n r (round_index hash seed n r k) = k"
proof -
  let ?p = "round_pivot hash seed r n" and ?f = "\<lambda>i. (round_pivot hash seed r n + n - i) mod n"
  have p: "?p < n" using assms by (intro round_pivot_less) linarith
  have f: "?f k < n" using assms by simp
  have "?f (?f k) = k"
    unfolding flip_cases [OF f p] using flip_cases [OF assms p] assms p by (auto split: if_splits)
  then show ?thesis by (auto simp: round_index_def Let_def max.commute)
qed

lemma shuffle_round_nth:
  assumes "length input \<le> 2 ^ 32" "k < length input"
  shows "length (shuffle_round hash seed r input) = length input"
    "shuffle_round hash seed r input ! k = input ! round_index hash seed (length input) r k"
proof -
  let ?n = "length input" and ?p = "round_pivot hash seed r (length input)"
  let ?in1 = "start_loop hash seed r ((?p + 1) div 2) 0 ?p input"
  have p: "?p < ?n" using assms by (intro round_pivot_less) linarith
  note l1 = start_loop_nth [of 0 ?p ?p input hash seed r]
  have len1: "length ?in1 = ?n" using l1(1) p assms by simp
  have in1: "?in1 ! m = (if m \<le> ?p \<and> spec_bit hash seed r (max m (?p - m)) then input ! (?p - m) else input ! m)" for m
    using l1(2) p assms by simp
  have c: "(?p + 1) + (?n - 1) = ?p + ?n" "?n - 1 < length ?in1" "?p + 1 \<le> ?n - 1 + 1" "length ?in1 \<le> 2 ^ 32"
    using len1 p assms(1) by linarith+
  note l2 = start_loop_nth [OF c, of hash seed r]
  have sr: "shuffle_round hash seed r input = start_loop hash seed r ((?p + ?n + 1) div 2) (?p + 1) (?n - 1) ?in1"
    by (simp add: shuffle_round_def Let_def)
  show "length (shuffle_round hash seed r input) = ?n" using l2(1) len1 unfolding sr by simp
  have "shuffle_round hash seed r input ! k =
      (if ?p + 1 \<le> k \<and> spec_bit hash seed r (max k (?p + ?n - k)) then ?in1 ! (?p + ?n - k) else ?in1 ! k)"
    unfolding sr l2(2) using assms(2) by auto
  also have "\<dots> = input ! round_index hash seed ?n r k"
    unfolding in1 using assms(2) p by (auto simp: round_index_def Let_def flip_cases)
  finally show "shuffle_round hash seed r input ! k = input ! round_index hash seed ?n r k" .
qed

lemma shuffle_round_length [simp]:
  "length input \<le> 2 ^ 32 \<Longrightarrow> input \<noteq> [] \<Longrightarrow> length (shuffle_round hash seed r input) = length input"
  using shuffle_round_nth(1) [of input 0 hash seed r] by simp

lemma shuffle_round_invol:
  assumes "length input \<le> 2 ^ 32" "input \<noteq> []"
  shows "shuffle_round hash seed r (shuffle_round hash seed r input) = input"
proof (rule nth_equalityI)
  show "length (shuffle_round hash seed r (shuffle_round hash seed r input)) = length input"
    using assms shuffle_round_length [of input] by (metis length_greater_0_conv shuffle_round_length)
  fix k assume "k < length (shuffle_round hash seed r (shuffle_round hash seed r input))"
  then have k: "k < length input" using assms by (metis length_greater_0_conv shuffle_round_length)
  have "shuffle_round hash seed r (shuffle_round hash seed r input) ! k =
      shuffle_round hash seed r input ! round_index hash seed (length input) r k"
    using shuffle_round_nth(2) [of "shuffle_round hash seed r input" k] k assms by simp
  also have "\<dots> = input ! k"
    using shuffle_round_nth(2) [of input "round_index hash seed (length input) r k"] k assms
    by (simp add: round_index_less round_index_invol)
  finally show "shuffle_round hash seed r (shuffle_round hash seed r input) ! k = input ! k" .
qed

lemma fold_round_less: "k < n \<Longrightarrow> fold (round_index hash seed n) rs k < n"
  by (induction rs arbitrary: k) (simp_all add: round_index_less)

lemma round_loop_unshuffle:
  assumes "length input \<le> 2 ^ 32" "input \<noteq> []"
  shows "round_loop hash seed False rounds r input =
    map (\<lambda>k. input ! compute_shuffled_index hash seed (Suc r) (length input) k) [0..<length input]"
  using assms
proof (induction r arbitrary: input)
  case 0
  show ?case
    by (rule nth_equalityI) (use 0 in \<open>auto simp: round_loop.simps [of _ _ _ _ 0] Let_def shuffle_round_nth compute_shuffled_index_def\<close>)
next
  case (Suc r)
  let ?in = "shuffle_round hash seed (Suc r) input"
  have len: "length ?in = length input" "?in \<noteq> []" using Suc.prems by (simp, metis length_0_conv shuffle_round_length)
  have "round_loop hash seed False rounds (Suc r) input = round_loop hash seed False rounds r ?in"
    by (simp add: round_loop.simps [of _ _ _ _ "Suc r"] Let_def)
  also have "\<dots> = map (\<lambda>k. ?in ! compute_shuffled_index hash seed (Suc r) (length ?in) k) [0..<length ?in]"
    by (rule Suc.IH) (use Suc.prems len in auto)
  also have "\<dots> = map (\<lambda>k. input ! compute_shuffled_index hash seed (Suc (Suc r)) (length input) k) [0..<length input]"
    unfolding len(1)
    by (rule map_cong) (use Suc.prems in \<open>auto simp: shuffle_round_nth fold_round_less round_index_less compute_shuffled_index_def\<close>)
  finally show ?case .
qed

lemma unshuffleList_spec:
  assumes "length input \<le> 2 ^ 32"
  shows "unshuffleList hash spec input seed =
    Some (map (\<lambda>k. input ! compute_shuffled_index hash seed (unat (ShuffleRoundCount spec) mod 256) (length input) k)
            [0..<length input])"
proof -
  let ?rounds = "unat (ShuffleRoundCount spec) mod 256"
  consider "length input \<le> 1" | "1 < length input" "?rounds = 0" | "1 < length input" "?rounds \<noteq> 0" by linarith
  then show ?thesis
  proof cases
    case 1
    then have "map (\<lambda>k. input ! compute_shuffled_index hash seed ?rounds (length input) k) [0..<length input] = input"
      using fold_round_less [of 0 1 hash seed "[0..<?rounds]"]
      by (intro nth_equalityI) (auto simp: compute_shuffled_index_def le_Suc_eq)
    then show ?thesis using 1 by (simp add: unshuffleList_def innerShuffleList_def)
  next
    case 2
    then show ?thesis using assms
      by (simp add: unshuffleList_def innerShuffleList_def maxShuffleListSize_def compute_shuffled_index_def map_nth)
  next
    case 3
    then have ne: "input \<noteq> []" "Suc (?rounds - 1) = ?rounds" by auto
    show ?thesis
      using 3 assms round_loop_unshuffle [OF assms ne(1), of hash seed ?rounds "?rounds - 1"]
      by (simp add: unshuffleList_def innerShuffleList_def maxShuffleListSize_def Let_def ne(2))
  qed
qed

lemma compute_shuffled_index_inj: "inj_on (compute_shuffled_index hash seed rounds n) {..<n}"
proof -
  have inj: "inj_on (round_index hash seed n r) {..<n}" for r
    by (rule inj_on_inverseI [of _ "round_index hash seed n r"]) (simp add: round_index_invol)
  have "inj_on (fold (round_index hash seed n) rs) {..<n}" for rs
  proof (induction rs)
    case (Cons r rs)
    have "round_index hash seed n r ` {..<n} \<subseteq> {..<n}" by (auto simp: round_index_less)
    then have "inj_on (fold (round_index hash seed n) rs) (round_index hash seed n r ` {..<n})"
      by (rule inj_on_subset [OF Cons.IH])
    from comp_inj_on [OF inj this] show ?case by (simp add: o_def)
  qed simp
  then show ?thesis by (simp add: compute_shuffled_index_def [abs_def])
qed

lemma compute_shuffled_index_perm:
  "distinct (map (compute_shuffled_index hash seed rounds n) [0..<n])"
  "set (map (compute_shuffled_index hash seed rounds n) [0..<n]) = {..<n}"
proof -
  let ?f = "compute_shuffled_index hash seed rounds n"
  have sub: "?f ` {..<n} \<subseteq> {..<n}" by (auto simp: compute_shuffled_index_def fold_round_less)
  have "?f ` {..<n} = {..<n}"
    by (rule card_subset_eq [OF _ sub]) (simp_all add: card_image compute_shuffled_index_inj)
  then show "set (map ?f [0..<n]) = {..<n}" by (simp add: atLeast0LessThan)
  show "distinct (map ?f [0..<n])"
    using compute_shuffled_index_inj [of hash seed rounds n] by (simp add: distinct_map atLeast0LessThan)
qed

section \<open>The committees partition the shuffled list\<close>

text \<open>The offsets cut a list of length \<open>n\<close> into \<open>count\<close> consecutive pieces.\<close>

definition cut :: "nat \<Rightarrow> nat \<Rightarrow> nat \<Rightarrow> nat" where
  "cut n count m = n * m div count"

definition piece :: "nat \<Rightarrow> nat \<Rightarrow> 'a list \<Rightarrow> nat \<Rightarrow> 'a list" where
  "piece n count xs m = drop (cut n count m) (take (cut n count (m + 1)) xs)"

lemma cut_mono: "m \<le> m' \<Longrightarrow> cut n count m \<le> cut n count m'"
  by (simp add: cut_def div_le_mono)

lemma concat_pieces: "concat (map (piece n count xs) [0..<m]) = take (cut n count m) xs"
proof (induction m)
  case (Suc m)
  have "take (cut n count m) xs @ piece n count xs m =
      take (cut n count m) (take (cut n count (m + 1)) xs) @ drop (cut n count m) (take (cut n count (m + 1)) xs)"
    using cut_mono [of m "m + 1" n count] by (simp add: piece_def min_def)
  then show ?case using Suc.IH by (simp del: take_take)
qed (simp add: cut_def)

lemma concat_blocks:
  "concat (concat (map (\<lambda>s. map (\<lambda>c. f (s * cps + c)) [0..<cps]) [0..<slots])) = concat (map f [0..<slots * cps])"
proof (induction slots)
  case (Suc k)
  have "map (\<lambda>c. f (k * cps + c)) [0..<cps] = map f [k * cps..<k * cps + cps]"
    by (simp add: map_add_upt [symmetric] o_def add.commute)
  moreover have "[0..<Suc k * cps] = [0..<k * cps] @ [k * cps..<k * cps + cps]"
    using upt_add_eq_append [of 0 "k * cps" cps] by (simp add: add.commute)
  ultimately show ?case using Suc.IH by simp
qed simp

lemma committees_concat:
  assumes "0 < slots * cps" "length xs = n"
  shows "concat (concat (map (\<lambda>s. map (\<lambda>c. piece n (cps * slots) xs (s * cps + c)) [0..<cps]) [0..<slots])) = xs"
  using assms by (simp add: concat_blocks concat_pieces cut_def mult.commute [of cps])

lemma collect_map:
  "(\<And>k. k \<in> set ks \<Longrightarrow> f k = Some (Inr (g k))) \<Longrightarrow> collect f ks = Some (Inr (map g ks))"
  by (induction ks) simp_all

text \<open>The number of committees of a slot, as the consensus specification defines it.\<close>

definition committees_per_slot :: "ChainSpec \<Rightarrow> nat \<Rightarrow> nat" where
  "committees_per_slot spec n =
     max 1 (min (unat (MaxCommitteesPerSlot spec)) (n div unat (SlotsPerEpoch spec) div unat (TargetCommitteeSize spec)))"

definition sane_committees :: "ChainSpec \<Rightarrow> bool" where
  "sane_committees spec \<longleftrightarrow> 0 < SlotsPerEpoch spec \<and> 0 < TargetCommitteeSize spec \<and> 0 < MaxCommitteesPerSlot spec \<and>
     unat (MaxCommitteesPerSlot spec) * unat (SlotsPerEpoch spec) \<le> 2 ^ 31"

lemma slotCommitteeCount_spec:
  assumes "sane_committees spec"
  shows "\<exists>cps. slotCommitteeCount spec v = Some cps \<and> unat cps = committees_per_slot spec (unat v) \<and>
    unat cps * unat (SlotsPerEpoch spec) \<le> 2 ^ 31"
proof -
  let ?q = "v div SlotsPerEpoch spec div TargetCommitteeSize spec"
  have u: "unat ?q = unat v div unat (SlotsPerEpoch spec) div unat (TargetCommitteeSize spec)"
    by (simp add: unat_div)
  have m: "1 \<le> unat (MaxCommitteesPerSlot spec)"
    using assms by (simp add: sane_committees_def word_less_nat_alt)
  obtain cps where cps: "slotCommitteeCount spec v = Some cps"
    "cps = (if ?q > MaxCommitteesPerSlot spec then MaxCommitteesPerSlot spec else if ?q = 0 then 1 else ?q)"
    using assms by (simp add: slotCommitteeCount_def sane_committees_def Let_def word_gt_0)
  have z: "?q = 0 \<longleftrightarrow> unat ?q = 0" by (simp add: unat_eq_0)
  have "unat cps = max 1 (min (unat (MaxCommitteesPerSlot spec)) (unat ?q))"
    using m z by (auto simp: cps(2) word_less_nat_alt)
  then have c: "unat cps = committees_per_slot spec (unat v)" by (simp only: committees_per_slot_def u)
  have "unat cps \<le> unat (MaxCommitteesPerSlot spec)" using m by (simp add: c committees_per_slot_def)
  then have "unat cps * unat (SlotsPerEpoch spec) \<le> 2 ^ 31"
    using assms le_trans [OF mult_le_mono1 [of "unat cps" "unat (MaxCommitteesPerSlot spec)" "unat (SlotsPerEpoch spec)"]]
    unfolding sane_committees_def by blast
  then show ?thesis using cps(1) c by blast
qed

lemma splitOffset_cut:
  assumes "chunks \<noteq> 0" "unat listSize * unat index < 2 ^ 64"
  shows "\<exists>w. splitOffset listSize chunks index = Some w \<and> unat w = cut (unat listSize) (unat chunks) (unat index)"
proof -
  have "unat (listSize * index) = unat listSize * unat index"
    using assms(2) unat_mult_lem [of listSize index] by simp
  then show ?thesis using assms(1) by (simp add: splitOffset_def cut_def unat_div)
qed

lemma committee_slice_piece:
  assumes "unat count = c" "0 < c" "unat v = n" "n * c < 2 ^ 64" "unat idx < c" "length xs = n"
  shows "committee_slice v count xs idx = Some (Inr (piece n c xs (unat idx)))"
proof -
  have c0: "count \<noteq> 0" using assms(1,2) by auto
  have i1: "unat (idx + 1) = unat idx + 1"
    using assms(5) unat_le_max_u64 [of count] assms(1) by (subst unat_add_lem [THEN iffD1]) simp_all
  have le: "n * m \<le> n * c" if "m \<le> c" for m using that by simp
  obtain a where a: "splitOffset v count idx = Some a" "unat a = cut n c (unat idx)"
    using splitOffset_cut [OF c0, of v idx] le [of "unat idx"] assms by fastforce
  obtain b where b: "splitOffset v count (idx + 1) = Some b" "unat b = cut n c (unat idx + 1)"
    using splitOffset_cut [OF c0, of v "idx + 1"] le [of "unat idx + 1"] assms i1 by fastforce
  have ab: "unat a \<le> unat b" using a b cut_mono by simp
  have "cut n c (unat idx + 1) \<le> cut n c c" using assms(5) by (intro cut_mono) simp
  then have bn: "unat b \<le> unat v" using assms(2,3) b by (simp add: cut_def)
  have "\<not> a > v" "\<not> b > v" "\<not> a > b" using ab bn by (simp_all add: word_less_nat_alt)
  then show ?thesis by (simp add: committee_slice_def a b piece_def)
qed

lemma unat_u64_upt: "k \<in> set (u64_upt n) \<Longrightarrow> unat k < unat n"
  using unat_le_max_u64 [of n] by (auto simp: u64_upt_def unat_of_nat)

lemma map_u64_upt: "map (\<lambda>k. f (unat k)) (u64_upt n) = map f [0..<unat n]"
  using unat_le_max_u64 [of n] by (auto simp: u64_upt_def unat_of_nat)

lemma cut_committees_pieces:
  assumes "unat (cps :: u64) = c" "unat (SlotsPerEpoch spec) = slots" "c * slots \<le> 2 ^ 31" "0 < c * slots"
    and "unat v = n" "n \<le> 2 ^ 32" "length xs = n"
  shows "cut_committees spec v cps xs =
    Some (Inr (map (\<lambda>s. map (\<lambda>k. piece n (c * slots) xs (s * c + k)) [0..<c]) [0..<slots]))"
proof -
  have cnt: "unat (cps * SlotsPerEpoch spec) = c * slots"
    using assms(1-3) by (subst unat_mult_lem [THEN iffD1]) simp_all
  have big: "n * (c * slots) < 2 ^ 64"
    using mult_le_mono [OF assms(6,3)] by (rule le_less_trans) simp
  have "committee_slice v (cps * SlotsPerEpoch spec) xs (k + s * cps) = Some (Inr (piece n (c * slots) xs (unat s * c + unat k)))"
    if k: "k \<in> set (u64_upt cps)" and s: "s \<in> set (u64_upt (SlotsPerEpoch spec))" for k s
  proof -
    have "unat s + 1 \<le> slots" using unat_u64_upt [OF s] assms(2) by simp
    then have "(unat s + 1) * c \<le> slots * c" by (rule mult_le_mono1)
    then have lt: "unat s * c + unat k < c * slots"
      using unat_u64_upt [OF k] assms(1) by (simp add: algebra_simps)
    have sc: "unat (s * cps) = unat s * c"
      using lt assms(1,3) by (subst unat_mult_lem [THEN iffD1]) simp_all
    have "unat (k + s * cps) = unat s * c + unat k"
      using lt assms(3) sc by (subst unat_add_lem [THEN iffD1]) simp_all
    then show ?thesis using committee_slice_piece [OF cnt assms(4,5) big, of "k + s * cps"] lt assms(7) by simp
  qed
  then have "cut_committees spec v cps xs =
      Some (Inr (map (\<lambda>s. map (\<lambda>k. piece n (c * slots) xs (unat s * c + unat k)) (u64_upt cps)) (u64_upt (SlotsPerEpoch spec))))"
    unfolding cut_committees_def by (intro collect_map) simp
  then show ?thesis
    by (simp add: map_u64_upt [of "\<lambda>k. piece n (c * slots) xs (_ + k)"]
        map_u64_upt [of "\<lambda>s. map (\<lambda>k. piece n (c * slots) xs (s * c + k)) [0..<c]"] assms(1,2))
qed

section \<open>The selection loop\<close>

definition ptc_picks :: "(u64 \<Rightarrow> bool option) \<Rightarrow> (u64 \<Rightarrow> u32) \<Rightarrow> nat \<Rightarrow> u32 list" where
  "ptc_picks accepts candidate N = map candidate (filter (\<lambda>i. accepts i = Some True) (map of_nat [0..<N]))"

lemma ptc_picks_Suc:
  "ptc_picks accepts candidate (Suc N) =
     (if accepts (of_nat N) = Some True then ptc_picks accepts candidate N @ [candidate (of_nat N)]
      else ptc_picks accepts candidate N)"
  by (simp add: ptc_picks_def)

lemma ptc_loop_steps:
  assumes "\<And>i. accepts i \<noteq> None" "\<And>M. M < N \<Longrightarrow> length (ptc_picks accepts candidate M) < unat sz"
  shows "ptc_loop accepts candidate sz 0 [] = ptc_loop accepts candidate sz (of_nat N) (ptc_picks accepts candidate N)"
  using assms(2)
proof (induction N)
  case 0
  then show ?case by (simp add: ptc_picks_def)
next
  case (Suc N)
  have "unat (of_nat (length (ptc_picks accepts candidate N)) :: u64) = length (ptc_picks accepts candidate N)"
    using Suc.prems [of N] unat_le_max_u64 [of sz] by (simp add: unat_of_nat)
  then have "(of_nat (length (ptc_picks accepts candidate N)) :: u64) < sz"
    using Suc.prems [of N] by (simp add: word_less_nat_alt)
  then have "ptc_loop accepts candidate sz (of_nat N) (ptc_picks accepts candidate N) =
      ptc_loop accepts candidate sz (of_nat (Suc N)) (ptc_picks accepts candidate (Suc N))"
    using assms(1) [of "of_nat N"]
    by (subst ptc_loop.simps) (auto simp: ptc_picks_Suc add.commute)
  then show ?case using Suc by simp
qed

lemma ptc_picks_unbounded:
  assumes "accepts j = Some True"
  shows "m \<le> length (ptc_picks accepts candidate (m * 2 ^ 64))"
proof (induction m)
  case (Suc m)
  let ?n = "m * 2 ^ 64"
  have split: "[0..<Suc m * 2 ^ 64] = [0..<?n] @ [?n..<?n + 2 ^ 64]"
    using upt_add_eq_append [of 0 ?n "2 ^ 64"] by (simp add: add.commute)
  have j: "(of_nat (?n + unat j) :: u64) = j"
  proof -
    have "(of_nat ?n :: u64) = 0" by (simp only: word_of_nat_eq_0_iff) simp
    then show ?thesis by (simp only: of_nat_add add_0) simp
  qed
  have "?n + unat j \<in> set [?n..<?n + 2 ^ 64]" using unat_le_max_u64 [of j] by simp
  then have "of_nat (?n + unat j) \<in> set (map of_nat [?n..<?n + 2 ^ 64] :: u64 list)" unfolding set_map by (rule imageI)
  then have "j \<in> set (filter (\<lambda>i. accepts i = Some True) (map of_nat [?n..<?n + 2 ^ 64]))"
    unfolding j using assms by (simp del: set_map set_upt)
  then have "0 < length (filter (\<lambda>i. accepts i = Some True) (map of_nat [?n..<?n + 2 ^ 64]))"
    by (rule length_pos_if_in_set)
  then show ?case using Suc.IH unfolding ptc_picks_def split map_append filter_append length_append length_map by linarith
qed simp

lemma ptc_loop_returns:
  assumes total: "\<And>i. accepts i \<noteq> None" and "accepts j = Some True"
  shows "\<exists>N. ptc_loop accepts candidate sz 0 [] = Some (Some (ptc_picks accepts candidate N)) \<and>
    length (ptc_picks accepts candidate N) = unat sz"
proof -
  let ?len = "\<lambda>N. length (ptc_picks accepts candidate N)"
  have ex: "\<exists>N. unat sz \<le> ?len N" using ptc_picks_unbounded [of accepts j, OF assms(2)] by blast
  define N where "N = (LEAST N. unat sz \<le> ?len N)"
  have ge: "unat sz \<le> ?len N" unfolding N_def using ex by (rule LeastI_ex)
  have lt: "?len M < unat sz" if "M < N" for M using not_less_Least that unfolding N_def by (metis not_le)
  have len: "?len N = unat sz"
  proof (cases N)
    case 0
    then show ?thesis using ge by (simp add: ptc_picks_def)
  next
    case (Suc M)
    then have "?len N \<le> Suc (?len M)" by (simp add: ptc_picks_Suc)
    then show ?thesis using lt [of M] Suc ge by linarith
  qed
  have "\<not> (of_nat (?len N) :: u64) < sz" by (simp add: len)
  then have "ptc_loop accepts candidate sz (of_nat N) (ptc_picks accepts candidate N) = Some (Some (ptc_picks accepts candidate N))"
    by (subst ptc_loop.simps) simp
  then have "ptc_loop accepts candidate sz 0 [] = Some (Some (ptc_picks accepts candidate N))"
    using ptc_loop_steps [OF total lt] by simp
  then show ?thesis using len by blast
qed

lemma ptc_loop_needs_pick:
  assumes "ptc_loop accepts candidate sz i sel = Some y" "\<forall>i. accepts i = Some False" "0 < sz"
  shows "sel \<noteq> []"
proof -
  have "(\<forall>i. accepts i = Some False) \<and> 0 < sz \<longrightarrow> sel \<noteq> []"
  proof (rule ptc_loop.raw_induct [OF _ assms(1)], goal_cases)
    case (1 loop accepts candidate sz i sel y)
    show ?case using 1(1) [of accepts candidate sz "i + 1" "[]" y] 1(2) by (auto split: if_splits)
  qed
  then show ?thesis using assms(2,3) by blast
qed

lemma ptc_loop_diverges:
  assumes "\<forall>i. accepts i = Some False" "0 < sz"
  shows "ptc_loop accepts candidate sz 0 [] = None"
  using ptc_loop_needs_pick [OF _ assms] by (metis not_Some_eq)

section \<open>Properties\<close>

text \<open>The committee of a slot, as the consensus specification defines it (\<open>compute_committee\<close>).\<close>

definition compute_committee :: "hashfn \<Rightarrow> u8 list \<Rightarrow> nat \<Rightarrow> nat \<Rightarrow> nat \<Rightarrow> nat \<Rightarrow> u32 list" where
  "compute_committee hash seed rounds n count index =
     map (\<lambda>k. of_nat (compute_shuffled_index hash seed rounds n k)) [n * index div count..<n * (index + 1) div count]"

lemma piece_committee:
  assumes "count > 0" "m < count"
  shows "piece n count (map (\<lambda>k. of_nat (compute_shuffled_index hash seed rounds n k)) [0..<n]) m =
    compute_committee hash seed rounds n count m"
proof -
  have "n * (m + 1) \<le> n * count" using assms by (intro mult_le_mono2) simp
  then have "n * (m + 1) div count \<le> n" using assms(1) by (metis div_le_mono nonzero_mult_div_cancel_right less_not_refl)
  then show ?thesis by (simp add: piece_def cut_def compute_committee_def take_map drop_map del: mult_Suc_right)
qed

lemma shuffled_active:
  fixes xs :: "u32 list"
  assumes "xs = map (\<lambda>k. of_nat (compute_shuffled_index hash seed rounds n k)) [0..<n]" "n \<le> 2 ^ 32"
  shows "distinct xs" "set xs = of_nat ` {..<n}" "length xs = n"
    "rounds = unat (ShuffleRoundCount spec) mod 256 \<Longrightarrow> unshuffleList hash spec (map of_nat [0..<n]) seed = Some xs"
proof -
  let ?p = "map (compute_shuffled_index hash seed rounds n) [0..<n]"
  have xs: "xs = map of_nat ?p" using assms(1) by simp
  have "inj_on (of_nat :: nat \<Rightarrow> u32) {..<n}"
    by (rule inj_on_inverseI [of _ unat]) (use assms(2) in \<open>simp add: unat_of_nat\<close>)
  then have "inj_on (of_nat :: nat \<Rightarrow> u32) (set ?p)" by (simp only: compute_shuffled_index_perm)
  then show "distinct xs" unfolding xs distinct_map [of of_nat] using compute_shuffled_index_perm(1) by blast
  show "set xs = of_nat ` {..<n}" unfolding xs set_map [of of_nat] compute_shuffled_index_perm ..
  show "length xs = n" by (simp add: assms(1))
  have "compute_shuffled_index hash seed rounds n k < n" if "k < n" for k
    using that by (simp add: compute_shuffled_index_def fold_round_less)
  then show "unshuffleList hash spec (map of_nat [0..<n]) seed = Some xs"
    if "rounds = unat (ShuffleRoundCount spec) mod 256"
    using unshuffleList_spec [of "map of_nat [0..<n] :: u32 list" hash spec seed] assms that by simp
qed

lemma attester_duties_run:
  assumes "getSeed hash spec st e (DomainBeaconAttester spec) = Some (seed, st')"
    and "ds_EffectiveBalances st' = bals" "length bals = n" "n \<le> 2 ^ 32" "sane_committees spec"
  shows "\<exists>duties. getAttesterDuties hash spec st e = Some (Inr duties, st') \<and>
    (let c = committees_per_slot spec n; slots = unat (SlotsPerEpoch spec); rounds = unat (ShuffleRoundCount spec) mod 256 in
     duties = map (\<lambda>s. map (\<lambda>k. compute_committee hash seed rounds n (c * slots) (s * c + k)) [0..<c]) [0..<slots]) \<and>
    distinct (concat (concat duties)) \<and> set (concat (concat duties)) = of_nat ` {..<n}"
proof -
  define c where "c = committees_per_slot spec n"
  define slots where "slots = unat (SlotsPerEpoch spec)"
  define rounds where "rounds = unat (ShuffleRoundCount spec) mod 256"
  define xs :: "u32 list" where "xs = map (\<lambda>k. of_nat (compute_shuffled_index hash seed rounds n k)) [0..<n]"
  define duties where "duties = map (\<lambda>s. map (\<lambda>k. piece n (c * slots) xs (s * c + k)) [0..<c]) [0..<slots]"
  note xs = shuffled_active [OF xs_def assms(4)]
  have n: "unat (GetActiveCount st') = n" using assms(2-4) by (simp add: GetActiveCount_def unat_of_nat)
  obtain cps where cps: "slotCommitteeCount spec (GetActiveCount st') = Some cps" "unat cps = c" "c * slots \<le> 2 ^ 31"
    using slotCommitteeCount_spec [OF assms(5), of "GetActiveCount st'"] unfolding n c_def slots_def by metis
  have pos: "0 < c * slots"
    using assms(5) by (simp add: c_def committees_per_slot_def slots_def sane_committees_def word_less_nat_alt)
  have "getAttesterDuties hash spec st e = Some (Inr duties, st')"
    using cut_committees_pieces [OF cps(2) slots_def [symmetric] cps(3) pos n assms(4) xs(3)] xs(4) [OF rounds_def]
    by (simp add: getAttesterDuties_def assms(1) n cps(1) duties_def)
  moreover have "s * c + k < c * slots" if "s < slots" "k < c" for s k
    using mult_le_mono1 [of "s + 1" slots c] that by (simp add: algebra_simps)
  then have "duties = map (\<lambda>s. map (\<lambda>k. compute_committee hash seed rounds n (c * slots) (s * c + k)) [0..<c]) [0..<slots]"
    unfolding duties_def by (intro map_cong) (use pos in \<open>auto simp: xs_def piece_committee\<close>)
  moreover have "concat (concat duties) = xs"
    unfolding duties_def by (rule committees_concat) (use pos xs(3) in \<open>auto simp: mult.commute\<close>)
  ultimately show ?thesis
    using xs(1,2) unfolding Let_def c_def [symmetric] slots_def [symmetric] rounds_def [symmetric] by (intro exI [of _ duties]) simp
qed

text \<open>
  C14: The attester duties are those of the consensus specification.  With sane committee
  parameters and at most \<open>2^32\<close> active validators the computation neither fails nor panics; the
  in-place swap-or-not shuffle with its cached hashes gives, for every slot and committee of the
  epoch, the committee defined by mapping positions through \<open>compute_shuffled_index\<close>; and the
  committees of the epoch contain every active validator exactly once.\<close>
theorem attester_duties_spec:
  assumes "getSeed hash spec st e (DomainBeaconAttester spec) = Some (seed, st')"
    and "ds_EffectiveBalances st' = bals" "length bals = n" "n \<le> 2 ^ 32" "sane_committees spec"
  shows "\<exists>duties. getAttesterDuties hash spec st e = Some (Inr duties, st') \<and>
    (let c = committees_per_slot spec n; slots = unat (SlotsPerEpoch spec); rounds = unat (ShuffleRoundCount spec) mod 256 in
     duties = map (\<lambda>s. map (\<lambda>k. compute_committee hash seed rounds n (c * slots) (s * c + k)) [0..<c]) [0..<slots]) \<and>
    distinct (concat (concat duties)) \<and> set (concat (concat duties)) = of_nat ` {..<n}"
  by (rule attester_duties_run [OF assms])

lemma ptc_accepts_total:
  assumes "indices \<noteq> []" "length indices \<le> 2 ^ 32" "\<forall>c \<in> set indices. unat c < length (ds_EffectiveBalances st)"
  shows "ptc_accepts hash spec st seed indices i \<noteq> None" "ptc_candidate indices i \<in> set indices"
proof -
  have "unat (of_nat (length indices) :: u64) = length indices" using assms(2) by (simp add: unat_of_nat)
  then have "unat (i mod of_nat (length indices)) < length indices" using assms(1) by (simp add: unat_mod)
  then show "ptc_candidate indices i \<in> set indices" by (simp add: ptc_candidate_def)
  then show "ptc_accepts hash spec st seed indices i \<noteq> None"
    using assms(3) by (simp add: ptc_accepts_def ptc_candidate_def Let_def)
qed

lemma ptc_selection_run:
  assumes "getSeed hash spec st (s div SlotsPerEpoch spec) (DomainPtcAttester spec) = Some (seedHash, st')"
    and "0 < PtcSize spec" "0 < SlotsPerEpoch spec" "concat committees = indices" "indices \<noteq> []" "length indices \<le> 2 ^ 32"
    and "\<forall>c \<in> set indices. unat c < length (ds_EffectiveBalances st')"
  shows "let accepts = ptc_accepts hash spec st' (hash (seedHash @ PutUint64 s)) indices in
    if \<exists>i. accepts i = Some True
    then \<exists>N. getPtcDuties hash spec st committees s = Returns (Inr (ptc_picks accepts (ptc_candidate indices) N), st') \<and>
           length (ptc_picks accepts (ptc_candidate indices) N) = unat (PtcSize spec) \<and>
           set (ptc_picks accepts (ptc_candidate indices) N) \<subseteq> set indices
    else getPtcDuties hash spec st committees s = Diverges"
proof -
  define accepts where "accepts = ptc_accepts hash spec st' (hash (seedHash @ PutUint64 s)) indices"
  note total = ptc_accepts_total [OF assms(5-7)]
  have duties: "getPtcDuties hash spec st committees s =
      map_outcome (\<lambda>selected. (Inr selected, st')) (outcome_of (ptc_loop accepts (ptc_candidate indices) (PtcSize spec) 0 []))"
    using assms(1-5) by (simp add: getPtcDuties_def accepts_def Let_def word_gt_0)
  have nn: "accepts i \<noteq> None" for i unfolding accepts_def by (rule total)
  have "set (ptc_picks accepts (ptc_candidate indices) N) \<subseteq> set indices" for N
    using total(2) by (auto simp: ptc_picks_def)
  moreover have "ptc_loop accepts (ptc_candidate indices) (PtcSize spec) 0 [] = None" if "\<nexists>i. accepts i = Some True"
  proof (rule ptc_loop_diverges [OF _ assms(2)])
    show "\<forall>i. accepts i = Some False" using that nn by (metis (full_types) not_Some_eq)
  qed
  moreover have "\<exists>N. ptc_loop accepts (ptc_candidate indices) (PtcSize spec) 0 [] = Some (Some (ptc_picks accepts (ptc_candidate indices) N)) \<and>
      length (ptc_picks accepts (ptc_candidate indices) N) = unat (PtcSize spec)" if "accepts i = Some True" for i
    using nn that by (rule ptc_loop_returns)
  ultimately show ?thesis
    unfolding Let_def accepts_def [symmetric] duties
    by (cases "\<exists>i. accepts i = Some True") (simp add: outcome_of_def, fastforce, simp add: outcome_of_def)
qed

text \<open>
  C15: The payload timeliness committee.  The selection loop, whose counter wraps, returns if and
  only if the balance-weighted test accepts some counter value; the committee it then returns is
  the accepted candidates in counter order, has exactly \<open>PtcSize\<close> entries, and all of them sit in
  the slot's beacon committees.\<close>
theorem ptc_selection:
  assumes "getSeed hash spec st (s div SlotsPerEpoch spec) (DomainPtcAttester spec) = Some (seedHash, st')"
    and "0 < PtcSize spec" "0 < SlotsPerEpoch spec" "concat committees = indices" "indices \<noteq> []" "length indices \<le> 2 ^ 32"
    and "\<forall>c \<in> set indices. unat c < length (ds_EffectiveBalances st')"
  shows "let accepts = ptc_accepts hash spec st' (hash (seedHash @ PutUint64 s)) indices in
    if \<exists>i. accepts i = Some True
    then \<exists>N. getPtcDuties hash spec st committees s = Returns (Inr (ptc_picks accepts (ptc_candidate indices) N), st') \<and>
           length (ptc_picks accepts (ptc_candidate indices) N) = unat (PtcSize spec) \<and>
           set (ptc_picks accepts (ptc_candidate indices) N) \<subseteq> set indices
    else getPtcDuties hash spec st committees s = Diverges"
  by (rule ptc_selection_run [OF assms])

definition demo_hash :: hashfn where
  "demo_hash data = map of_nat [length data..<length data + 32]"

definition demo_duty_state :: DutyState where
  "demo_duty_state = \<lparr>ds_RandaoMix = Some [7], ds_NextRandaoMix = None, ds_RandaoMixes = [], ds_EffectiveBalances = [32, 32, 2048]\<rparr>"

theorem attester_duties_spec_witness:
  "\<exists>duties. getAttesterDuties demo_hash demo_spec demo_duty_state 5 = Some (Inr duties, demo_duty_state) \<and>
     length duties = 32 \<and> distinct (concat (concat duties)) \<and> set (concat (concat duties)) = {0, 1, 2}"
proof -
  have seed: "getSeed demo_hash demo_spec demo_duty_state 5 (DomainBeaconAttester demo_spec) =
      Some (demo_hash ([1, 0, 0, 0] @ PutUint64 5 @ [7]), demo_duty_state)"
    by (simp add: getSeed_def demo_duty_state_def demo_spec_def)
  have sane: "sane_committees demo_spec" by (simp add: sane_committees_def demo_spec_def)
  have "(of_nat :: nat \<Rightarrow> u32) ` {..<3} = {0, 1, 2}" by (simp add: lessThan_nat_numeral lessThan_Suc insert_commute)
  then show ?thesis
    using attester_duties_spec [OF seed, of "[32, 32, 2048]" 3, OF _ _ _ sane]
    by (auto simp: demo_duty_state_def demo_spec_def Let_def)
qed

theorem ptc_selection_witness:
  "\<exists>selected. getPtcDuties demo_hash demo_spec demo_duty_state [[2, 0], [1]] 160 = Returns (Inr selected, demo_duty_state) \<and>
     length selected = 512 \<and> set selected \<subseteq> {0, 1, 2}"
proof -
  have seed: "getSeed demo_hash demo_spec demo_duty_state (160 div SlotsPerEpoch demo_spec) (DomainPtcAttester demo_spec) =
      Some (demo_hash ([12, 0, 0, 0] @ PutUint64 5 @ [7]), demo_duty_state)"
    by (simp add: getSeed_def demo_duty_state_def demo_spec_def)
  define A where "A = ptc_accepts demo_hash demo_spec demo_duty_state
    (demo_hash (demo_hash ([12, 0, 0, 0] @ PutUint64 5 @ [7]) @ PutUint64 160)) [2, 0, 1]"
  have "A 0 = Some True"
    by (simp add: A_def ptc_accepts_def demo_hash_def demo_spec_def demo_duty_state_def Let_def PutUint64_def EtherGweiFactor_def)
  then have acc: "\<exists>i. A i = Some True" by blast
  have bal: "\<forall>c \<in> set [2, 0, 1]. unat (c :: u32) < length (ds_EffectiveBalances demo_duty_state)"
    by (simp add: demo_duty_state_def)
  have "\<exists>N. getPtcDuties demo_hash demo_spec demo_duty_state [[2, 0], [1]] 160 =
        Returns (Inr (ptc_picks A (ptc_candidate [2, 0, 1]) N), demo_duty_state) \<and>
      length (ptc_picks A (ptc_candidate [2, 0, 1]) N) = unat (PtcSize demo_spec) \<and>
      set (ptc_picks A (ptc_candidate [2, 0, 1]) N) \<subseteq> set [2, 0, 1]"
    using ptc_selection [OF seed _ _ _ _ _ bal, of "[[2, 0], [1]]"] acc
    unfolding A_def [symmetric] Let_def by (simp add: demo_spec_def)
  then show ?thesis by (fastforce simp: demo_spec_def)
qed

lemma shuffle_then_unshuffle:
  assumes "length input \<le> 2 ^ 32" "innerShuffleList hash spec input seed True = Some shuffled"
  shows "unshuffleList hash spec shuffled seed = Some input"
proof -
  have fwd: "round_loop hash seed True rounds r xs = fold (shuffle_round hash seed) [r..<rounds] xs"
    if "r < rounds" for rounds r and xs :: "'a list"
    using that
  proof (induction "rounds - r" arbitrary: r xs)
    case (Suc d)
    then show ?case
      by (cases "r + 1 = rounds") (auto simp: round_loop.simps [of _ _ _ _ r] Let_def upt_conv_Cons)
  qed simp
  have bwd: "round_loop hash seed False rounds r xs = fold (shuffle_round hash seed) (rev [0..<Suc r]) xs"
    for rounds r and xs :: "'a list"
    by (induction r arbitrary: xs) (simp_all add: round_loop.simps Let_def)
  have inv: "fold (shuffle_round hash seed) (rev rs) (fold (shuffle_round hash seed) rs xs) = xs \<and>
      length (fold (shuffle_round hash seed) rs xs) = length xs"
    if "length xs \<le> 2 ^ 32" "xs \<noteq> []" for rs and xs :: "'a list"
    using that
  proof (induction rs arbitrary: xs)
    case (Cons r rs)
    have len: "length (shuffle_round hash seed r xs) = length xs" using Cons.prems by simp
    then have "shuffle_round hash seed r xs \<noteq> []" using Cons.prems(2) by (metis length_0_conv)
    then show ?case
      using Cons.IH [of "shuffle_round hash seed r xs"] Cons.prems len by (simp add: shuffle_round_invol)
  qed simp
  let ?rounds = "unat (ShuffleRoundCount spec) mod 256"
  have "shuffled = (if length input \<le> 1 \<or> ?rounds = 0 then input else fold (shuffle_round hash seed) [0..<?rounds] input)"
    using assms by (auto simp: innerShuffleList_def maxShuffleListSize_def Let_def fwd split: if_splits)
  then show ?thesis
    using inv [OF assms(1), of "[0..<?rounds]"] assms(1)
    by (cases "length input \<le> 1 \<or> ?rounds = 0"; cases input)
       (auto simp: unshuffleList_def innerShuffleList_def maxShuffleListSize_def Let_def bwd)
qed

end
