(* ===== verification/Chain_Service.thy ===== *)
theory Chain_Service
  imports Duties Builder_Info
begin

text \<open>
  The chain service: the statistics of an epoch computed from a beacon state (\<open>state.go\<close>) and the
  cache of the latest epochs (\<open>service.go\<close>).

  The beacon state is a type of the beacon client library; \<open>BeaconState\<close> has the fields the code
  reads, as the decoder delivers them (no nil validators, slices without spare capacity).  What the
  node answers to a fetch is an argument, \<open>None\<close> for every error.  A pointer to a missing
  slice or map entry is \<open>None\<close>.  Handlers return an \<open>outcome\<close>, because duty computation may panic
  or run forever.
\<close>

section \<open>Epoch statistics\<close>

record Validator =
  v_PublicKey :: bls_pubkey
  v_EffectiveBalance :: gwei
  v_ActivationEpoch :: epoch
  v_ExitEpoch :: epoch

record BeaconState =
  be_Version :: DataVersion
  be_Slot :: slot
  be_FinalizedCheckpoint :: "epoch option"
  be_Validators :: "Validator list"
  be_RANDAOMixes :: "u8 list list"
  be_ProposerLookahead :: "u64 list"
  be_Builders :: "gloas_Builder option list"
  be_BuilderPendingPayments :: "BuilderPendingPayment option list"
  be_DepositBalanceToConsume :: gwei
  be_ETH1DepositIndex :: u64
  be_DepositRequestsStartIndex :: u64
  be_PendingDeposits :: "PendingDeposit option list"

record EpochStats =
  es_Version :: DataVersion
  es_Epoch :: epoch
  es_FinalizedEpoch :: epoch
  es_StateSlot :: slot
  es_ActiveValidators :: u64
  es_ValidatorCount :: u64
  es_ActiveIndices :: "u64 list"
  es_EffectiveBalances :: "u32 list"
  es_Builders :: "BuilderInfo list"
  es_TotalActiveBalance :: u64
  es_PendingDeposits :: "PendingDepositInfo list"
  es_DepositBalanceToConsume :: u64
  es_Eth1DepositIndex :: u64
  es_DepositRequestsStartIndex :: u64
  es_RandaoMix :: "u8 list"
  es_NextRandaoMix :: "u8 list"
  es_ProposerDuties :: "u64 list"
  es_AttesterDuties :: "u32 list list list option"
  es_PtcDuties :: "u32 list list option"

definition isActiveValidator :: "Validator \<Rightarrow> epoch \<Rightarrow> bool" where
  "isActiveValidator v e \<longleftrightarrow> v_ActivationEpoch v \<le> e \<and> e < v_ExitEpoch v"

text \<open>The loop over the validators: indices, balances in ETH, and their sum.\<close>

definition active_entries :: "Validator list \<Rightarrow> epoch \<Rightarrow> (nat \<times> Validator) list" where
  "active_entries vs e = filter (\<lambda>(i, v). isActiveValidator v e) (zip [0..<length vs] vs)"

definition active_indices :: "Validator list \<Rightarrow> epoch \<Rightarrow> u64 list" where
  "active_indices vs e = map (\<lambda>(i, v). of_nat i) (active_entries vs e)"

definition effective_balances :: "Validator list \<Rightarrow> epoch \<Rightarrow> u32 list" where
  "effective_balances vs e = map (\<lambda>(i, v). ucast (v_EffectiveBalance v div EtherGweiFactor)) (active_entries vs e)"

definition total_active_balance :: "Validator list \<Rightarrow> epoch \<Rightarrow> gwei" where
  "total_active_balance vs e = sum_list (map (\<lambda>(i, v). v_EffectiveBalance v) (active_entries vs e))"

definition zero_hash :: "u8 list" where
  "zero_hash = replicate 32 0"

text \<open>The loop that computes the payload timeliness committee of every slot; a failed slot gets nil.\<close>

fun ptc_slots ::
  "hashfn \<Rightarrow> ChainSpec \<Rightarrow> slot \<Rightarrow> (nat \<times> u32 list list) list \<Rightarrow> DutyState \<Rightarrow> (u32 list list \<times> DutyState) outcome" where
  "ptc_slots hash spec firstSlot [] st = Returns ([], st)"
| "ptc_slots hash spec firstSlot ((k, committees) # rest) st =
     (case getPtcDuties hash spec st committees (firstSlot + of_nat k) of
        Panics \<Rightarrow> Panics
      | Diverges \<Rightarrow> Diverges
      | Returns (res, st) \<Rightarrow>
          map_outcome (\<lambda>(ptcs, st). ((case res of Inl _ \<Rightarrow> [] | Inr ptc \<Rightarrow> ptc) # ptcs, st))
            (ptc_slots hash spec firstSlot rest st))"

definition ptc_duties ::
  "hashfn \<Rightarrow> ChainSpec \<Rightarrow> DataVersion \<Rightarrow> slot \<Rightarrow> u32 list list list option \<Rightarrow> DutyState \<Rightarrow>
   (u32 list list option \<times> DutyState) outcome" where
  "ptc_duties hash spec version firstSlot attesterDuties st =
     (case attesterDuties of
        Some duties \<Rightarrow>
          if version \<ge> DataVersionGloas \<and> PtcSize spec > 0
          then map_outcome (\<lambda>(ptcs, st). (Some ptcs, st))
                 (ptc_slots hash spec firstSlot (zip [0..<unat (SlotsPerEpoch spec)] duties) st)
          else Returns (None, st)
      | None \<Rightarrow> Returns (None, st))"

definition duty_state :: "BeaconState \<Rightarrow> epoch \<Rightarrow> DutyState" where
  "duty_state state e = \<lparr>ds_RandaoMix = None, ds_NextRandaoMix = None, ds_RandaoMixes = be_RANDAOMixes state,
     ds_EffectiveBalances = effective_balances (be_Validators state) e\<rparr>"

definition epoch_stats_of ::
  "ChainSpec \<Rightarrow> BeaconState \<Rightarrow> epoch \<Rightarrow> u32 list list list option \<Rightarrow> u32 list list option \<Rightarrow> DutyState \<Rightarrow> EpochStats" where
  "epoch_stats_of spec state e attesterDuties ptcDuties st =
     \<lparr>es_Version = be_Version state, es_Epoch = e,
      es_FinalizedEpoch = (case be_FinalizedCheckpoint state of None \<Rightarrow> 0 | Some f \<Rightarrow> f),
      es_StateSlot = be_Slot state,
      es_ActiveValidators = of_nat (length (active_indices (be_Validators state) e)),
      es_ValidatorCount = of_nat (length (be_Validators state)),
      es_ActiveIndices = active_indices (be_Validators state) e,
      es_EffectiveBalances = effective_balances (be_Validators state) e,
      es_Builders = (if be_Version state \<ge> DataVersionGloas
        then applyPendingPayments (extractBuilders (be_Builders state)) (be_BuilderPendingPayments state) else []),
      es_TotalActiveBalance = total_active_balance (be_Validators state) e,
      es_PendingDeposits = (if be_Version state \<ge> DataVersionElectra then extractPendingDeposits (be_PendingDeposits state) else []),
      es_DepositBalanceToConsume = (if be_Version state \<ge> DataVersionElectra then be_DepositBalanceToConsume state else 0),
      es_Eth1DepositIndex = (if be_Version state \<ge> DataVersionElectra then be_ETH1DepositIndex state else 0),
      es_DepositRequestsStartIndex = (if be_Version state \<ge> DataVersionElectra then be_DepositRequestsStartIndex state else 0),
      es_RandaoMix = (case ds_RandaoMix st of None \<Rightarrow> zero_hash | Some m \<Rightarrow> m),
      es_NextRandaoMix = (case ds_NextRandaoMix st of None \<Rightarrow> zero_hash | Some m \<Rightarrow> m),
      es_ProposerDuties = take (unat (SlotsPerEpoch spec)) (be_ProposerLookahead state),
      es_AttesterDuties = attesterDuties, es_PtcDuties = ptcDuties\<rparr>"

definition computeEpochStats :: "hashfn \<Rightarrow> ChainSpec \<Rightarrow> BeaconState \<Rightarrow> epoch \<Rightarrow> EpochStats outcome" where
  "computeEpochStats hash spec state e =
     (if be_ProposerLookahead state \<noteq> [] \<and> length (be_ProposerLookahead state) < unat (SlotsPerEpoch spec) then Panics
      else case getAttesterDuties hash spec (duty_state state e) e of
        None \<Rightarrow> Panics
      | Some (res, st) \<Rightarrow>
          (let attesterDuties = (case res of Inl _ \<Rightarrow> None | Inr duties \<Rightarrow> Some duties) in
           map_outcome (\<lambda>(ptcDuties, st). epoch_stats_of spec state e attesterDuties ptcDuties st)
             (ptc_duties hash spec (be_Version state) (e * SlotsPerEpoch spec) attesterDuties st)))"

section \<open>The service\<close>

record ChainService =
  chs_stateCache :: "epoch \<rightharpoonup> EpochStats"
  chs_validatorIndexCache :: "bls_pubkey list"
  chs_currentEpoch :: epoch
  chs_fired :: "EpochStats list"

definition NewChainService :: ChainService where
  "NewChainService = \<lparr>chs_stateCache = Map.empty, chs_validatorIndexCache = [], chs_currentEpoch = 0, chs_fired = []\<rparr>"

text \<open>\<open>None\<close> is the error of a fetch.  The pubkey cache is replaced before the statistics are computed.\<close>

definition fetchEpochStats ::
  "hashfn \<Rightarrow> ChainSpec \<Rightarrow> BeaconState option \<Rightarrow> epoch \<Rightarrow> ChainService \<Rightarrow> (EpochStats option \<times> ChainService) outcome" where
  "fetchEpochStats hash spec resp e sv =
     (case resp of
        None \<Rightarrow> Returns (None, sv)
      | Some state \<Rightarrow>
          map_outcome (\<lambda>stats. (Some stats, sv\<lparr>chs_validatorIndexCache := map v_PublicKey (be_Validators state)\<rparr>))
            (computeEpochStats hash spec state e))"

definition fetchAndCacheEpochState ::
  "hashfn \<Rightarrow> ChainSpec \<Rightarrow> BeaconState option \<Rightarrow> epoch \<Rightarrow> ChainService \<Rightarrow> (bool \<times> ChainService) outcome" where
  "fetchAndCacheEpochState hash spec resp e sv =
     map_outcome (\<lambda>(stats, sv). case stats of
         None \<Rightarrow> (False, sv)
       | Some st \<Rightarrow> (True, sv\<lparr>chs_stateCache := (chs_stateCache sv)(e \<mapsto> st)\<rparr>))
       (fetchEpochStats hash spec resp e sv)"

definition fetchCurrentEpochState ::
  "hashfn \<Rightarrow> ChainSpec \<Rightarrow> slot \<Rightarrow> BeaconState option \<Rightarrow> ChainService \<Rightarrow> (bool \<times> ChainService) outcome" where
  "fetchCurrentEpochState hash spec currentSlot resp sv =
     (let e = GetEpochOfSlot spec currentSlot in
      map_outcome (\<lambda>(ok, sv). if ok then (True, sv\<lparr>chs_currentEpoch := e\<rparr>) else (False, sv))
        (fetchAndCacheEpochState hash spec resp e sv))"

definition GetEpochStats :: "epoch \<Rightarrow> ChainService \<Rightarrow> EpochStats option" where
  "GetEpochStats e sv = chs_stateCache sv e"

definition GetCurrentEpochStats :: "ChainService \<Rightarrow> EpochStats option" where
  "GetCurrentEpochStats sv = chs_stateCache sv (chs_currentEpoch sv)"

definition evict_and_fire :: "epoch \<Rightarrow> ChainService \<Rightarrow> ChainService" where
  "evict_and_fire newEpoch sv =
     (let sv = sv\<lparr>chs_currentEpoch := newEpoch,
                 chs_stateCache := range_delete (\<lambda>e _. e < newEpoch - 1) (chs_stateCache sv)\<rparr>
      in case GetEpochStats newEpoch sv of None \<Rightarrow> sv | Some stats \<Rightarrow> sv\<lparr>chs_fired := chs_fired sv @ [stats]\<rparr>)"

definition chain_handleHeadEvent ::
  "hashfn \<Rightarrow> ChainSpec \<Rightarrow> slot \<Rightarrow> BeaconState option \<Rightarrow> ChainService \<Rightarrow> ChainService outcome" where
  "chain_handleHeadEvent hash spec eventSlot resp sv =
     (let newEpoch = GetEpochOfSlot spec eventSlot in
      if newEpoch \<le> chs_currentEpoch sv \<or> chs_stateCache sv newEpoch \<noteq> None then Returns sv
      else map_outcome (\<lambda>(ok, sv). if ok then evict_and_fire newEpoch sv else sv)
             (fetchAndCacheEpochState hash spec resp newEpoch sv))"

text \<open>\<open>RefreshBuilders\<close> reads the current epoch before the fetch and again, without the lock, when it
  stores the result: two steps, between which a head event may change it.\<close>

definition refresh_fetch ::
  "hashfn \<Rightarrow> ChainSpec \<Rightarrow> BeaconState option \<Rightarrow> ChainService \<Rightarrow> (EpochStats option \<times> ChainService) outcome" where
  "refresh_fetch hash spec resp sv = fetchEpochStats hash spec resp (chs_currentEpoch sv) sv"

definition refresh_store :: "EpochStats \<Rightarrow> ChainService \<Rightarrow> ChainService" where
  "refresh_store stats sv = sv\<lparr>chs_stateCache := (chs_stateCache sv)(chs_currentEpoch sv \<mapsto> stats)\<rparr>"

definition RefreshBuilders ::
  "hashfn \<Rightarrow> ChainSpec \<Rightarrow> BeaconState option \<Rightarrow> ChainService \<Rightarrow> ChainService outcome" where
  "RefreshBuilders hash spec resp sv =
     map_outcome (\<lambda>(stats, sv). case stats of None \<Rightarrow> sv | Some st \<Rightarrow> refresh_store st sv) (refresh_fetch hash spec resp sv)"

definition GetFinalizedEpoch :: "ChainService \<Rightarrow> epoch" where
  "GetFinalizedEpoch sv = (case GetCurrentEpochStats sv of None \<Rightarrow> 0 | Some stats \<Rightarrow> es_FinalizedEpoch stats)"

definition GetBuilders :: "ChainService \<Rightarrow> BuilderInfo list" where
  "GetBuilders sv = (case GetCurrentEpochStats sv of None \<Rightarrow> [] | Some stats \<Rightarrow> es_Builders stats)"

definition GetBuilderByIndex :: "u64 \<Rightarrow> ChainService \<Rightarrow> BuilderInfo option" where
  "GetBuilderByIndex i sv = builder_by_index i (GetBuilders sv)"

definition GetBuilderByPubkey :: "bls_pubkey \<Rightarrow> ChainService \<Rightarrow> BuilderInfo option" where
  "GetBuilderByPubkey pk sv = builder_by_pubkey pk (GetBuilders sv)"

definition GetValidatorPubkeyByIndex :: "u64 \<Rightarrow> ChainService \<Rightarrow> bls_pubkey option" where
  "GetValidatorPubkeyByIndex i sv =
     (if i \<ge> of_nat (length (chs_validatorIndexCache sv)) then None else Some (chs_validatorIndexCache sv ! unat i))"

section \<open>Runs\<close>

datatype chain_op = ChHead slot "BeaconState option" | ChRefresh "BeaconState option"

fun chain_step :: "hashfn \<Rightarrow> ChainSpec \<Rightarrow> chain_op \<Rightarrow> ChainService \<Rightarrow> ChainService outcome" where
  "chain_step hash spec (ChHead s resp) sv = chain_handleHeadEvent hash spec s resp sv"
| "chain_step hash spec (ChRefresh resp) sv = RefreshBuilders hash spec resp sv"

fun chain_run :: "hashfn \<Rightarrow> ChainSpec \<Rightarrow> chain_op list \<Rightarrow> ChainService \<Rightarrow> ChainService outcome" where
  "chain_run hash spec [] sv = Returns sv"
| "chain_run hash spec (op # ops) sv =
     (case chain_step hash spec op sv of
        Panics \<Rightarrow> Panics | Diverges \<Rightarrow> Diverges | Returns sv \<Rightarrow> chain_run hash spec ops sv)"

section \<open>Lemmas on the statistics\<close>

lemma getSeed_cached:
  "ds_RandaoMix st = Some m \<Longrightarrow> getSeed hash spec st e d = Some (hash (d @ PutUint64 e @ m), st)"
  by (simp add: getSeed_def)

definition mixes_ok :: "ChainSpec \<Rightarrow> u8 list list \<Rightarrow> bool" where
  "mixes_ok spec mixes \<longleftrightarrow> 0 < EpochsPerHistoricalVector spec \<and> unat (EpochsPerHistoricalVector spec) \<le> length mixes"

lemma getSeed_fresh:
  assumes "mixes_ok spec (ds_RandaoMixes st)"
  shows "\<exists>seed st'. getSeed hash spec st e d = Some (seed, st') \<and> ds_RandaoMix st' \<noteq> None \<and>
    ds_EffectiveBalances st' = ds_EffectiveBalances st"
proof -
  have "unat (x mod EpochsPerHistoricalVector spec) < length (ds_RandaoMixes st)" for x
    using assms by (simp add: mixes_ok_def unat_mod word_less_nat_alt less_le_trans [OF mod_less_divisor])
  then have "\<exists>mix. getRandaoMix spec st x = Some mix" for x
    using assms by (simp add: getRandaoMix_def mixes_ok_def Let_def word_gt_0)
  then obtain f where "\<And>x. getRandaoMix spec st x = Some (f x)" by metis
  then show ?thesis
    by (cases "ds_RandaoMix st") (simp_all add: getSeed_def Let_def)
qed

definition ptc_ok :: "ChainSpec \<Rightarrow> u32 list list \<Rightarrow> u32 list \<Rightarrow> bool" where
  "ptc_ok spec committees ptc \<longleftrightarrow>
     (if concat committees = [] then ptc = []
      else length ptc = unat (PtcSize spec) \<and> set ptc \<subseteq> set (concat committees))"

definition in_range :: "DutyState \<Rightarrow> u32 list list \<Rightarrow> bool" where
  "in_range st committees \<longleftrightarrow> length (concat committees) \<le> 2 ^ 32 \<and>
     (\<forall>c \<in> set (concat committees). unat c < length (ds_EffectiveBalances st))"

lemma getPtcDuties_ok:
  assumes "ds_RandaoMix st = Some m" "0 < PtcSize spec" "0 < SlotsPerEpoch spec" "in_range st committees"
  shows "case getPtcDuties hash spec st committees s of
      Panics \<Rightarrow> False | Diverges \<Rightarrow> True
    | Returns (res, st') \<Rightarrow> st' = st \<and> ptc_ok spec committees (case res of Inl _ \<Rightarrow> [] | Inr ptc \<Rightarrow> ptc)"
proof (cases "concat committees = []")
  case True
  then show ?thesis
    using assms(2,3) by (simp add: getPtcDuties_def getSeed_cached [OF assms(1)] ptc_ok_def word_gt_0)
next
  case False
  obtain ptc where "getPtcDuties hash spec st committees s = Diverges \<or>
      getPtcDuties hash spec st committees s = Returns (Inr ptc, st) \<and> length ptc = unat (PtcSize spec) \<and>
      set ptc \<subseteq> set (concat committees)"
    using ptc_selection_run [OF getSeed_cached [OF assms(1)] assms(2,3) refl False, of hash s] assms(4)
    unfolding in_range_def Let_def by (metis (no_types, lifting))
  then show ?thesis using False by (auto simp: ptc_ok_def)
qed

lemma ptc_slots_ok:
  assumes "ds_RandaoMix st = Some m" "0 < PtcSize spec" "0 < SlotsPerEpoch spec" "list_all (\<lambda>(k, c). in_range st c) ks"
  shows "case ptc_slots hash spec firstSlot ks st of
      Panics \<Rightarrow> False | Diverges \<Rightarrow> True | Returns (ptcs, st') \<Rightarrow> st' = st \<and> list_all2 (ptc_ok spec) (map snd ks) ptcs"
  using assms(4)
proof (induction ks)
  case (Cons kc ks)
  obtain k c where kc: "kc = (k, c)" by force
  have "in_range st c" using Cons.prems kc by simp
  note p = getPtcDuties_ok [OF assms(1-3) this, of hash "firstSlot + of_nat k"]
  have "case ptc_slots hash spec firstSlot ks st of
      Panics \<Rightarrow> False | Diverges \<Rightarrow> True | Returns (ptcs, st') \<Rightarrow> st' = st \<and> list_all2 (ptc_ok spec) (map snd ks) ptcs"
    using Cons by simp
  then show ?case
    using p by (auto simp: kc split: outcome.splits)
qed simp

lemma active_lengths:
  "length (active_indices vs e) = length (active_entries vs e)"
  "length (effective_balances vs e) = length (active_entries vs e)"
  "length (active_entries vs e) \<le> length vs"
  using length_filter_le [of "\<lambda>(i, v). isActiveValidator v e" "zip [0..<length vs] vs"]
  by (simp_all add: active_indices_def effective_balances_def active_entries_def)

lemma set_active_indices:
  "set (active_indices vs e) = of_nat ` {i. i < length vs \<and> isActiveValidator (vs ! i) e}"
  by (force simp: active_indices_def active_entries_def set_zip)

lemma member_concat:
  "duties \<in> set xss \<Longrightarrow> set (concat duties) \<subseteq> set (concat (concat xss)) \<and> length (concat duties) \<le> length (concat (concat xss))"
  by (induction xss) (auto simp: le_SucI trans_le_add2)

definition duties_ok :: "ChainSpec \<Rightarrow> Validator list \<Rightarrow> EpochStats \<Rightarrow> bool" where
  "duties_ok spec vs stats \<longleftrightarrow>
     length (es_EffectiveBalances stats) = length (es_ActiveIndices stats) \<and>
     (case es_AttesterDuties stats of
        None \<Rightarrow> False
      | Some duties \<Rightarrow>
          length duties = unat (SlotsPerEpoch spec) \<and> distinct (concat (concat duties)) \<and>
          list_all (\<lambda>a. unat a < length (es_ActiveIndices stats)) (concat (concat duties)) \<and>
          set (map (\<lambda>a. es_ActiveIndices stats ! unat a) (concat (concat duties))) =
            of_nat ` {i. i < length vs \<and> isActiveValidator (vs ! i) (es_Epoch stats)} \<and>
          (case es_PtcDuties stats of
             None \<Rightarrow> es_Version stats < DataVersionGloas \<or> PtcSize spec = 0
           | Some ptcs \<Rightarrow> list_all2 (ptc_ok spec) duties ptcs))"

lemma epoch_stats_of_sel [simp]:
  "es_Epoch (epoch_stats_of spec state e duties ptcs st) = e"
  "es_Version (epoch_stats_of spec state e duties ptcs st) = be_Version state"
  "es_ActiveIndices (epoch_stats_of spec state e duties ptcs st) = active_indices (be_Validators state) e"
  "es_EffectiveBalances (epoch_stats_of spec state e duties ptcs st) = effective_balances (be_Validators state) e"
  "es_AttesterDuties (epoch_stats_of spec state e duties ptcs st) = duties"
  "es_PtcDuties (epoch_stats_of spec state e duties ptcs st) = ptcs"
  by (simp_all add: epoch_stats_of_def)

lemma of_nat_index_image:
  assumes "n \<le> 2 ^ 32" "length xs = n"
  shows "(\<lambda>a. xs ! unat a) ` ((of_nat :: nat \<Rightarrow> u32) ` {..<n}) = set xs"
proof -
  have "unat (of_nat i :: u32) = i" if "i < n" for i using that assms(1) by (simp add: unat_of_nat)
  then show ?thesis using assms(2) by (force simp: image_image in_set_conv_nth)
qed

lemma ptc_duties_ok:
  assumes "ds_RandaoMix st \<noteq> None" "0 < SlotsPerEpoch spec" "list_all (in_range st) duties"
    and "length duties = unat (SlotsPerEpoch spec)"
  shows "case ptc_duties hash spec version firstSlot (Some duties) st of
      Panics \<Rightarrow> False | Diverges \<Rightarrow> version \<ge> DataVersionGloas \<and> PtcSize spec > 0
    | Returns (ptcs, st') \<Rightarrow> (case ptcs of None \<Rightarrow> version < DataVersionGloas \<or> PtcSize spec = 0
                              | Some ptcs \<Rightarrow> list_all2 (ptc_ok spec) duties ptcs)"
proof (cases "version \<ge> DataVersionGloas \<and> PtcSize spec > 0")
  case True
  obtain m where m: "ds_RandaoMix st = Some m" using assms(1) by auto
  have ks: "list_all (\<lambda>(k, c). in_range st c) (zip [0..<unat (SlotsPerEpoch spec)] duties)"
    using assms(3) by (auto simp: list_all_iff dest: set_zip_rightD)
  show ?thesis
    using ptc_slots_ok [OF m _ assms(2) ks, of hash firstSlot] True assms(4)
    by (auto simp: ptc_duties_def split: outcome.splits)
qed (auto simp: ptc_duties_def not_le word_gt_0)

lemma epoch_duties_run:
  assumes "sane_committees spec" "mixes_ok spec (be_RANDAOMixes state)" "length (be_Validators state) \<le> 2 ^ 32"
    and "length (be_ProposerLookahead state) \<in> {0} \<union> {unat (SlotsPerEpoch spec)..}"
  shows "case computeEpochStats hash spec state e of
      Panics \<Rightarrow> False | Diverges \<Rightarrow> be_Version state \<ge> DataVersionGloas \<and> PtcSize spec > 0
    | Returns stats \<Rightarrow> es_Epoch stats = e \<and> duties_ok spec (be_Validators state) stats"
proof -
  let ?st0 = "duty_state state e" and ?vs = "be_Validators state"
  define n where "n = length (active_entries ?vs e)"
  have n: "n \<le> 2 ^ 32" using active_lengths(3) [of ?vs e] assms(3) n_def by simp
  have spe: "0 < SlotsPerEpoch spec" using assms(1) by (simp add: sane_committees_def)
  obtain seed st where seed: "getSeed hash spec ?st0 e (DomainBeaconAttester spec) = Some (seed, st)"
    "ds_RandaoMix st \<noteq> None" "ds_EffectiveBalances st = effective_balances ?vs e"
    using getSeed_fresh [of spec ?st0 hash e "DomainBeaconAttester spec"] assms(2) by (auto simp: duty_state_def)
  obtain duties where duties: "getAttesterDuties hash spec ?st0 e = Some (Inr duties, st)"
    "length duties = unat (SlotsPerEpoch spec)" "distinct (concat (concat duties))"
    "set (concat (concat duties)) = (of_nat :: nat \<Rightarrow> u32) ` {..<n}"
    using attester_duties_run [OF seed(1,3) _ n assms(1)] active_lengths(2) [of ?vs e] n_def by (auto simp: Let_def)
  have small: "unat a < n" if "a \<in> set (concat (concat duties))" for a
    using that n unfolding duties(4) by (auto simp: unat_of_nat)
  have "card (set (concat (concat duties))) \<le> n" unfolding duties(4) using card_image_le [of "{..<n}"] by simp
  then have len: "length (concat (concat duties)) \<le> n" using distinct_card [OF duties(3)] by simp
  have "in_range st c" if "c \<in> set duties" for c
    using member_concat [OF that] small len n seed(3) active_lengths(2) [of ?vs e] n_def
    by (auto simp: in_range_def simp del: set_concat)
  then have "list_all (in_range st) duties" by (simp add: list_all_iff)
  note ptc = ptc_duties_ok [OF seed(2) spe this duties(2), where hash = hash and version = "be_Version state"
    and firstSlot = "e * SlotsPerEpoch spec"]
  have ok: "duties_ok spec ?vs (epoch_stats_of spec state e (Some duties) ptcs st')"
    if "case ptcs of None \<Rightarrow> be_Version state < DataVersionGloas \<or> PtcSize spec = 0
        | Some ptcs \<Rightarrow> list_all2 (ptc_ok spec) duties ptcs" for ptcs st'
    using that duties(2,3) small of_nat_index_image [OF n, of "active_indices ?vs e"] active_lengths [of ?vs e] duties(4)
    by (cases ptcs) (simp_all add: duties_ok_def n_def list_all_iff set_active_indices del: set_concat)
  show ?thesis
    using ptc assms(4) ok
    by (auto simp: computeEpochStats_def duties(1) Let_def split: outcome.splits)
qed

section \<open>The cache\<close>

definition chain_inv :: "ChainService \<Rightarrow> bool" where
  "chain_inv sv \<longleftrightarrow>
     (\<forall>e st. chs_stateCache sv e = Some st \<longrightarrow>
        es_Epoch st = e \<and> e \<le> chs_currentEpoch sv \<and> unat (chs_currentEpoch sv) \<le> unat e + 1) \<and>
     GetCurrentEpochStats sv \<noteq> None \<and>
     sorted_wrt (<) (map es_Epoch (chs_fired sv)) \<and> (\<forall>st \<in> set (chs_fired sv). es_Epoch st \<le> chs_currentEpoch sv)"

lemma map_outcome_Returns: "map_outcome f x = Returns y \<longleftrightarrow> (\<exists>z. x = Returns z \<and> y = f z)"
  by (cases x) auto

lemma computeEpochStats_epoch: "computeEpochStats hash spec state e = Returns st \<Longrightarrow> es_Epoch st = e"
  by (auto simp: computeEpochStats_def Let_def map_outcome_Returns
      split: if_splits option.splits prod.splits)

lemma fetchEpochStats_Returns:
  "fetchEpochStats hash spec resp e sv = Returns (res, sv') \<Longrightarrow>
     (case res of None \<Rightarrow> resp = None \<and> sv' = sv
      | Some st \<Rightarrow> resp \<noteq> None \<and> es_Epoch st = e \<and> chs_stateCache sv' = chs_stateCache sv \<and>
          chs_currentEpoch sv' = chs_currentEpoch sv \<and> chs_fired sv' = chs_fired sv)"
  by (auto simp: fetchEpochStats_def map_outcome_Returns computeEpochStats_epoch split: option.splits)

lemma fetchAndCache_Returns:
  assumes "fetchAndCacheEpochState hash spec resp e sv = Returns (ok, sv')"
  shows "if ok then resp \<noteq> None \<and> (\<exists>st. es_Epoch st = e \<and> chs_stateCache sv' = (chs_stateCache sv)(e \<mapsto> st)) \<and>
        chs_currentEpoch sv' = chs_currentEpoch sv \<and> chs_fired sv' = chs_fired sv
      else resp = None \<and> sv' = sv"
proof -
  obtain res sv1 where run: "fetchEpochStats hash spec resp e sv = Returns (res, sv1)"
    "(ok, sv') = (case res of None \<Rightarrow> (False, sv1) | Some st \<Rightarrow> (True, sv1\<lparr>chs_stateCache := (chs_stateCache sv1)(e \<mapsto> st)\<rparr>))"
    using assms by (auto simp: fetchAndCacheEpochState_def map_outcome_Returns)
  show ?thesis
    using fetchEpochStats_Returns [OF run(1)] run(2) by (cases res) (simp, simp, blast)
qed

lemma unat_pred: "(c :: u64) < e \<Longrightarrow> unat (e - 1) = unat e - 1 \<and> 0 < unat e"
  by (metis unat_minus_one unat_gt_0 word_not_simps(1))

text \<open>The effect of a head event on a consistent cache.\<close>

lemma head_event_effect:
  assumes "chain_inv sv" "chain_handleHeadEvent hash spec s resp sv = Returns sv'"
  shows "if GetEpochOfSlot spec s \<le> chs_currentEpoch sv \<or> resp = None then sv' = sv
    else \<exists>st. es_Epoch st = GetEpochOfSlot spec s \<and> chs_currentEpoch sv' = GetEpochOfSlot spec s \<and>
      chs_stateCache sv' = range_delete (\<lambda>e _. e < GetEpochOfSlot spec s - 1) ((chs_stateCache sv)(GetEpochOfSlot spec s \<mapsto> st)) \<and>
      chs_fired sv' = chs_fired sv @ [st]"
proof (cases "GetEpochOfSlot spec s \<le> chs_currentEpoch sv")
  case True
  then show ?thesis using assms(2) by (simp add: chain_handleHeadEvent_def Let_def)
next
  case False
  let ?e = "GetEpochOfSlot spec s"
  have fresh: "chs_stateCache sv ?e = None"
    using assms(1) False by (cases "chs_stateCache sv ?e") (auto simp: chain_inv_def)
  then obtain ok sv1 where run: "fetchAndCacheEpochState hash spec resp ?e sv = Returns (ok, sv1)"
    "sv' = (if ok then evict_and_fire ?e sv1 else sv1)"
    using assms(2) False by (auto simp: chain_handleHeadEvent_def Let_def map_outcome_Returns)
  have "\<not> ?e < ?e - 1" using unat_pred [of "chs_currentEpoch sv" ?e] False by (simp add: not_le word_less_nat_alt)
  then show ?thesis
    using fetchAndCache_Returns [OF run(1)] run(2) False
    by (auto simp: evict_and_fire_def Let_def GetEpochStats_def range_delete_def split: if_splits)
qed

lemma head_event_inv:
  assumes "chain_inv sv" "chain_handleHeadEvent hash spec s resp sv = Returns sv'"
  shows "chain_inv sv' \<and> chs_currentEpoch sv \<le> chs_currentEpoch sv'"
proof (cases "GetEpochOfSlot spec s \<le> chs_currentEpoch sv \<or> resp = None")
  case True
  then show ?thesis using head_event_effect [OF assms] assms(1) by simp
next
  case False
  define e where "e = GetEpochOfSlot spec s"
  have e: "chs_currentEpoch sv < e" using False by (simp add: e_def not_le)
  obtain st where st: "es_Epoch st = e" "chs_currentEpoch sv' = e"
    "chs_stateCache sv' = range_delete (\<lambda>k _. k < e - 1) ((chs_stateCache sv)(e \<mapsto> st))" "chs_fired sv' = chs_fired sv @ [st]"
    using head_event_effect [OF assms] False by (auto simp: e_def)
  have pos: "unat (e - 1) = unat e - 1" "0 < unat e"
    using unat_pred [OF e] by simp_all
  have "k \<le> e \<and> unat e \<le> unat k + 1 \<and> es_Epoch x = k" if "chs_stateCache sv' k = Some x" for k x
  proof (cases "k = e")
    case True
    then show ?thesis using that st(1) by (simp add: st(3) range_delete_def split: if_splits)
  next
    case False
    then have "chs_stateCache sv k = Some x" "\<not> k < e - 1"
      using that by (simp_all add: st(3) range_delete_Some_iff)
    moreover from this(1) have "es_Epoch x = k" "k \<le> chs_currentEpoch sv" using assms(1) unfolding chain_inv_def by blast+
    ultimately show ?thesis using e pos by (simp add: word_less_nat_alt word_le_nat_alt)
  qed
  moreover have "GetCurrentEpochStats sv' \<noteq> None"
    using pos by (simp add: GetCurrentEpochStats_def st range_delete_def word_less_nat_alt)
  moreover have "es_Epoch x < e" if "x \<in> set (chs_fired sv)" for x
    using assms(1) e that by (auto simp: chain_inv_def)
  moreover have "sorted_wrt (<) (map es_Epoch (chs_fired sv))" using assms(1) by (simp add: chain_inv_def)
  ultimately have "chain_inv sv'"
    unfolding chain_inv_def st(2) by (simp add: st(1,4) sorted_wrt_append) (metis order_less_imp_le)
  then show ?thesis using e st(2) by simp
qed

lemma chain_step_inv:
  assumes "chain_inv sv" "chain_step hash spec op sv = Returns sv'"
  shows "chain_inv sv' \<and> chs_currentEpoch sv \<le> chs_currentEpoch sv'"
proof (cases op)
  case (ChHead s resp)
  then show ?thesis using head_event_inv [OF assms(1)] assms(2) by simp
next
  case (ChRefresh resp)
  then obtain res sv1 where run: "fetchEpochStats hash spec resp (chs_currentEpoch sv) sv = Returns (res, sv1)"
    "sv' = (case res of None \<Rightarrow> sv1 | Some st \<Rightarrow> refresh_store st sv1)"
    using assms(2) by (auto simp: RefreshBuilders_def refresh_fetch_def map_outcome_Returns)
  show ?thesis
    using fetchEpochStats_Returns [OF run(1)] run(2) assms(1)
    by (cases res) (auto simp: chain_inv_def refresh_store_def GetCurrentEpochStats_def)
qed

lemma chain_run_inv:
  "chain_inv sv \<Longrightarrow> chain_run hash spec ops sv = Returns sv' \<Longrightarrow> chain_inv sv' \<and> chs_currentEpoch sv \<le> chs_currentEpoch sv'"
proof (induction ops arbitrary: sv)
  case (Cons op ops)
  then obtain sv1 where "chain_step hash spec op sv = Returns sv1" "chain_run hash spec ops sv1 = Returns sv'"
    by (auto split: outcome.splits)
  then show ?case using Cons.IH [of sv1] chain_step_inv [OF Cons.prems(1)] by (metis order_trans)
qed simp

lemma start_inv:
  assumes "fetchCurrentEpochState hash spec s0 resp NewChainService = Returns (True, sv)"
  shows "chain_inv sv"
proof -
  obtain sv1 where run: "fetchAndCacheEpochState hash spec resp (GetEpochOfSlot spec s0) NewChainService = Returns (True, sv1)"
    "sv = sv1\<lparr>chs_currentEpoch := GetEpochOfSlot spec s0\<rparr>"
    using assms by (auto simp: fetchCurrentEpochState_def Let_def map_outcome_Returns split: if_splits)
  show ?thesis
    using fetchAndCache_Returns [OF run(1)] run(2)
    by (auto simp: chain_inv_def GetCurrentEpochStats_def NewChainService_def split: if_splits)
qed

section \<open>Properties\<close>

text \<open>
  C16: The statistics of an epoch are well formed.  For a state with sane committee parameters,
  complete randao mixes, a proposer lookahead that is empty or long enough and at most \<open>2^32\<close>
  validators, computing them never panics, and never diverges before Gloas; the result is for the
  requested epoch, its attester duties index into its own active validators, every active validator
  of the state has exactly one duty in the epoch, no other validator has one, and on Gloas every
  slot with a committee has a payload timeliness committee of the configured size drawn from it.\<close>
theorem epoch_duties_well_formed:
  assumes "sane_committees spec" "mixes_ok spec (be_RANDAOMixes state)" "length (be_Validators state) \<le> 2 ^ 32"
    and "length (be_ProposerLookahead state) \<in> {0} \<union> {unat (SlotsPerEpoch spec)..}"
  shows "case computeEpochStats hash spec state e of
      Panics \<Rightarrow> False | Diverges \<Rightarrow> be_Version state \<ge> DataVersionGloas \<and> PtcSize spec > 0
    | Returns stats \<Rightarrow> es_Epoch stats = e \<and> duties_ok spec (be_Validators state) stats"
  by (rule epoch_duties_run [OF assms])

definition demo_beacon_state :: BeaconState where
  "demo_beacon_state = \<lparr>be_Version = DataVersionFulu, be_Slot = 320, be_FinalizedCheckpoint = Some 8,
     be_Validators = [\<lparr>v_PublicKey = [1], v_EffectiveBalance = 32000000000, v_ActivationEpoch = 0, v_ExitEpoch = 100\<rparr>,
       \<lparr>v_PublicKey = [2], v_EffectiveBalance = 32000000000, v_ActivationEpoch = 0, v_ExitEpoch = 5\<rparr>],
     be_RANDAOMixes = replicate 65536 [9], be_ProposerLookahead = [], be_Builders = [],
     be_BuilderPendingPayments = [], be_DepositBalanceToConsume = 0, be_ETH1DepositIndex = 0,
     be_DepositRequestsStartIndex = 0, be_PendingDeposits = []\<rparr>"

theorem epoch_duties_well_formed_witness:
  "\<exists>stats. computeEpochStats demo_hash demo_spec demo_beacon_state 10 = Returns stats \<and> es_Epoch stats = 10 \<and>
     duties_ok demo_spec (be_Validators demo_beacon_state) stats"
proof -
  have "sane_committees demo_spec" "mixes_ok demo_spec (be_RANDAOMixes demo_beacon_state)"
    "length (be_Validators demo_beacon_state) \<le> 2 ^ 32"
    "length (be_ProposerLookahead demo_beacon_state) \<in> {0} \<union> {unat (SlotsPerEpoch demo_spec)..}"
    by (simp_all add: sane_committees_def mixes_ok_def demo_spec_def demo_beacon_state_def)
  from epoch_duties_well_formed [OF this, where hash = demo_hash and e = 10] show ?thesis
    by (auto simp: demo_beacon_state_def less_eq_DataVersion_def split: outcome.splits)
qed

definition advanced :: "epoch \<Rightarrow> ChainService \<Rightarrow> ChainService \<Rightarrow> bool" where
  "advanced e sv sv' \<longleftrightarrow> (\<exists>st. es_Epoch st = e \<and> chs_currentEpoch sv' = e \<and>
     GetCurrentEpochStats sv' = Some st \<and> chs_fired sv' = chs_fired sv @ [st])"


text \<open>
  When a head event changes the epoch between the two reads of \<open>RefreshBuilders\<close>, the statistics of
  the old epoch, duties included, are stored as those of the new one.
\<close>

lemma refresh_race:
  assumes "refresh_fetch hash spec resp sv = Returns (Some st, sv1)"
    and "chain_handleHeadEvent hash spec s resp' sv1 = Returns sv2" "chs_currentEpoch sv2 \<noteq> chs_currentEpoch sv"
  shows "GetCurrentEpochStats (refresh_store st sv2) = Some st \<and> es_Epoch st \<noteq> chs_currentEpoch (refresh_store st sv2)"
  using assms fetchEpochStats_Returns [of hash spec resp "chs_currentEpoch sv" sv "Some st" sv1]
  by (simp add: refresh_fetch_def refresh_store_def GetCurrentEpochStats_def)

end
