(* ===== verification/Proposer_Prefs.thy ===== *)
theory Proposer_Prefs
  imports Store_Iface KV_Store Chain_Spec
begin

text \<open>
  The proposer preferences service, \<open>pkg/payload_bidder/proposer_prefs.go\<close> and its codec: the
  first preference gossiped for a slot is cached in a keep-existing store, slots of past epochs are
  pruned, and from Gloas on the cached preference gives a build its fee recipient and gas limit.
  The SSZ encoding of a preference is third-party code, the argument \<open>ssz\<close> of the codec.
\<close>

record ProposerPreferences =
  pf_ProposalSlot :: slot
  pf_ValidatorIndex :: u64
  pf_FeeRecipient :: "u8 list"
  pf_TargetGasLimit :: u64

record SignedProposerPreferences =
  sp_Message :: "ProposerPreferences option"
  sp_Signature :: "u8 list"

record ProposerSettings =
  st_FeeRecipient :: "u8 list"
  st_TargetGasLimit :: u64

type_synonym pref_store = "(slot, SignedProposerPreferences) store"

definition NewProposerPreferencesService :: pref_store where
  "NewProposerPreferencesService = NewKeepExisting"

definition pref_handleEvent :: "SignedProposerPreferences option \<Rightarrow> pref_store \<Rightarrow> pref_store" where
  "pref_handleEvent ev store =
     (case ev of None \<Rightarrow> store | Some sg \<Rightarrow>
        (case sp_Message sg of None \<Rightarrow> store | Some msg \<Rightarrow> snd (Put (pf_ProposalSlot msg) sg store)))"

definition pref_pruneForEpoch :: "ChainSpec \<Rightarrow> epoch \<Rightarrow> pref_store \<Rightarrow> pref_store" where
  "pref_pruneForEpoch spec e store = snd (Prune (\<lambda>s. s < e * SlotsPerEpoch spec) store)"

definition ResolveProposerSettings :: "DataVersion \<Rightarrow> slot \<Rightarrow> pref_store \<Rightarrow> ProposerSettings option" where
  "ResolveProposerSettings currentFork s store =
     (if currentFork < DataVersionGloas then None
      else case Get s store of None \<Rightarrow> None | Some sg \<Rightarrow>
        (case sp_Message sg of None \<Rightarrow> None
         | Some msg \<Rightarrow> Some \<lparr>st_FeeRecipient = pf_FeeRecipient msg, st_TargetGasLimit = pf_TargetGasLimit msg\<rparr>))"

section \<open>Codec\<close>

definition Slot_EncodeKey :: "slot \<Rightarrow> string" where
  "Slot_EncodeKey s = FormatUint s"

definition Slot_DecodeKey :: "string \<Rightarrow> slot option" where
  "Slot_DecodeKey key = ParseUint key"

record ssz_lib =
  ssz_Marshal :: "SignedProposerPreferences \<Rightarrow> u8 list option"
  ssz_Unmarshal :: "u8 list \<Rightarrow> SignedProposerPreferences option"

definition ProposerPreferencesCodec :: "ssz_lib \<Rightarrow> (slot, SignedProposerPreferences) codec" where
  "ProposerPreferencesCodec ssz =
     \<lparr>EncodeKey = Slot_EncodeKey, DecodeKey = Slot_DecodeKey,
      EncodeValue = (\<lambda>p. if sp_Message p = None then None else ssz_Marshal ssz p),
      DecodeValue = ssz_Unmarshal ssz\<rparr>"

section \<open>Runs of the main loop\<close>

datatype pref_op = PrefEvent "SignedProposerPreferences option" | PrefEpoch epoch

fun pref_step :: "ChainSpec \<Rightarrow> pref_op \<Rightarrow> pref_store \<Rightarrow> pref_store" where
  "pref_step spec (PrefEvent ev) store = pref_handleEvent ev store"
| "pref_step spec (PrefEpoch e) store = pref_pruneForEpoch spec e store"

definition pref_run :: "ChainSpec \<Rightarrow> pref_op list \<Rightarrow> pref_store \<Rightarrow> pref_store" where
  "pref_run spec ops store = fold (pref_step spec) ops store"

section \<open>The first announcement counts\<close>

text \<open>The events since the slot was last pruned, and the announcements for it among them.\<close>

fun drops :: "ChainSpec \<Rightarrow> slot \<Rightarrow> pref_op \<Rightarrow> bool" where
  "drops spec s (PrefEpoch e) \<longleftrightarrow> s < e * SlotsPerEpoch spec"
| "drops spec s (PrefEvent ev) \<longleftrightarrow> False"

fun announces :: "slot \<Rightarrow> pref_op \<Rightarrow> SignedProposerPreferences option" where
  "announces s (PrefEvent (Some sg)) =
     (case sp_Message sg of None \<Rightarrow> None | Some msg \<Rightarrow> if pf_ProposalSlot msg = s then Some sg else None)"
| "announces s _ = None"

definition since_prune :: "ChainSpec \<Rightarrow> slot \<Rightarrow> pref_op list \<Rightarrow> pref_op list" where
  "since_prune spec s ops = rev (takeWhile (\<lambda>op. \<not> drops spec s op) (rev ops))"

definition first_announced :: "ChainSpec \<Rightarrow> slot \<Rightarrow> pref_op list \<Rightarrow> SignedProposerPreferences option" where
  "first_announced spec s ops =
     (case List.map_filter (announces s) (since_prune spec s ops) of [] \<Rightarrow> None | p # _ \<Rightarrow> Some p)"

lemma first_announced_snoc:
  "first_announced spec s (ops @ [op]) =
     (if drops spec s op then None
      else case first_announced spec s ops of Some p \<Rightarrow> Some p | None \<Rightarrow> announces s op)"
  by (cases "announces s op")
     (auto simp: first_announced_def since_prune_def map_filter_def split: list.splits)

lemma pref_step_get:
  assumes "keepExisting store"
  shows "keepExisting (pref_step spec op store)"
    "Get s (pref_step spec op store) =
       (if drops spec s op then None else case Get s store of Some p \<Rightarrow> Some p | None \<Rightarrow> announces s op)"
  using assms
  by (cases op; auto simp: pref_handleEvent_def pref_pruneForEpoch_def keep.inv_put keep.inv_prune [unfolded store_prune_def]
      keep.get_put keep.get_prune [unfolded store_prune_def] split: option.splits)+

lemma pref_run_get:
  "keepExisting (pref_run spec ops NewProposerPreferencesService) \<and>
   Get s (pref_run spec ops NewProposerPreferencesService) = first_announced spec s ops"
proof (induction ops rule: rev_induct)
  case Nil
  show ?case
    by (simp add: pref_run_def NewProposerPreferencesService_def NewKeepExisting_def newStore_def Get_def
        first_announced_def since_prune_def map_filter_def)
next
  case (snoc op ops)
  then show ?case
    using pref_step_get [of "pref_run spec ops NewProposerPreferencesService"]
    by (simp add: pref_run_def first_announced_snoc)
qed

lemma announces_message: "announces s op = Some sg \<Longrightarrow> \<exists>msg. sp_Message sg = Some msg \<and> pf_ProposalSlot msg = s"
  by (cases "(s, op)" rule: announces.cases) (auto split: option.splits if_splits)

lemma first_announced_message:
  "first_announced spec s ops = Some sg \<Longrightarrow> \<exists>msg. sp_Message sg = Some msg \<and> pf_ProposalSlot msg = s"
proof (induction ops rule: rev_induct)
  case (snoc op ops)
  then show ?case by (auto simp: first_announced_snoc announces_message split: if_splits option.splits)
qed (simp add: first_announced_def since_prune_def map_filter_def)

text \<open>
  A build uses the first preference its proposer announced.  After any sequence of gossip
  events and epoch transitions, the settings resolved for a slot are, from Gloas on, exactly the fee
  recipient and gas limit of the first announcement for that slot since an epoch transition pruned
  it; later announcements and announcements for other slots never change them, and before Gloas or
  without an announcement nothing is resolved.\<close>
theorem first_preference_wins:
  "ResolveProposerSettings fork s (pref_run spec ops NewProposerPreferencesService) =
     (if fork < DataVersionGloas then None
      else map_option (\<lambda>sg. \<lparr>st_FeeRecipient = pf_FeeRecipient (the (sp_Message sg)),
             st_TargetGasLimit = pf_TargetGasLimit (the (sp_Message sg))\<rparr>) (first_announced spec s ops))"
  using pref_run_get [of spec ops s] first_announced_message [of spec s ops]
  by (auto simp: ResolveProposerSettings_def split: option.splits)

end
