(* ===== verification/Go_Float.thy ===== *)
theory Go_Float
  imports Go_Prelude Complex_Main "HOL-Library.Log_Nat"
begin

text \<open>
  Arithmetic on \<open>float64\<close> as the sources use it: conversions of integers, quotients, products and
  differences of values far from overflow and underflow.  A finite float is a rational number, an
  operation is the exact operation followed by rounding to 53 significant bits, to nearest, ties to
  even (IEEE 754 binary64, which Go prescribes).  Rounding changes a number by at most one part in
  \<open>2^53\<close>.
\<close>

definition two_powi :: "int \<Rightarrow> rat" where
  "two_powi k = (if 0 \<le> k then 2 ^ nat k else 1 / 2 ^ nat (- k))"

definition round_even :: "rat \<Rightarrow> int" where
  "round_even x =
     (let f = \<lfloor>x\<rfloor>; d = x - of_int f
      in if d < 1 / 2 then f else if d > 1 / 2 then f + 1 else if even f then f else f + 1)"

text \<open>The exponent \<open>k\<close> with \<open>2^k \<le> x < 2^(k+1)\<close> of a positive number.\<close>

definition binary_exponent :: "rat \<Rightarrow> int" where
  "binary_exponent x =
     (case quotient_of x of (p, q) \<Rightarrow>
        let k = int (floorlog 2 (nat p)) - int (floorlog 2 (nat q)) in if two_powi k \<le> x then k else k - 1)"

definition round_pos :: "rat \<Rightarrow> rat" where
  "round_pos x = (let ulp = two_powi (binary_exponent x - 52) in of_int (round_even (x / ulp)) * ulp)"

definition float64 :: "rat \<Rightarrow> rat" where
  "float64 x = (if x = 0 then 0 else if x < 0 then - round_pos (- x) else round_pos x)"

definition float_of_u64 :: "u64 \<Rightarrow> rat" where
  "float_of_u64 w = float64 (of_int (uint w))"

definition float_div :: "rat \<Rightarrow> rat \<Rightarrow> rat" where
  "float_div a b = float64 (a / b)"

definition float_mul :: "rat \<Rightarrow> rat \<Rightarrow> rat" where
  "float_mul a b = float64 (a * b)"

definition float_sub :: "rat \<Rightarrow> rat \<Rightarrow> rat" where
  "float_sub a b = float64 (a - b)"

lemma two_powi_pos [simp]: "0 < two_powi k"
  by (simp add: two_powi_def)

lemma two_powi_abs [simp]: "\<bar>two_powi k\<bar> = two_powi k"
  by (simp add: less_imp_le)

lemma two_powi_add: "two_powi (a + b) = two_powi a * two_powi b"
proof -
  have r: "two_powi k = 2 powi k" for k
    by (cases "0 \<le> k") (simp_all add: two_powi_def power_int_def field_simps)
  show ?thesis unfolding r by (rule power_int_add) simp
qed

lemma round_even_error: "\<bar>of_int (round_even x) - x\<bar> \<le> 1 / 2"
proof -
  have "of_int \<lfloor>x\<rfloor> \<le> x" "x < of_int \<lfloor>x\<rfloor> + 1" by linarith+
  then show ?thesis by (auto simp: round_even_def Let_def abs_le_iff)
qed

lemma floorlog_powi:
  assumes "0 < p"
  shows "two_powi (int (floorlog 2 (nat p)) - 1) \<le> of_int p" "of_int p < two_powi (int (floorlog 2 (nat p)))"
proof -
  let ?a = "floorlog 2 (nat p)"
  have bnd: "2 ^ (?a - 1) \<le> nat p" "nat p < 2 ^ ?a" using floorlog_bounds [of "nat p" 2] assms by simp_all
  have a1: "1 \<le> ?a" using assms by (simp add: floorlog_def)
  have "(2 :: rat) ^ (?a - 1) \<le> of_nat (nat p)" using bnd(1) by (metis of_nat_le_iff of_nat_numeral of_nat_power)
  moreover have "nat (int ?a - 1) = ?a - 1" using a1 by linarith
  ultimately show "two_powi (int ?a - 1) \<le> of_int p" using a1 assms by (simp add: two_powi_def)
  have "of_nat (nat p) < (2 :: rat) ^ ?a" using bnd(2) by (metis of_nat_less_iff of_nat_numeral of_nat_power)
  then show "of_int p < two_powi (int ?a)" using assms by (simp add: two_powi_def)
qed

lemma binary_exponent_bounds:
  assumes "0 < x"
  shows "two_powi (binary_exponent x) \<le> x" "x < two_powi (binary_exponent x + 1)"
proof -
  obtain p q where pq: "quotient_of x = (p, q)" by force
  have q: "0 < q" using quotient_of_denom_pos [OF pq] .
  have x: "x = of_int p / of_int q" using quotient_of_div [OF pq] .
  then have p: "0 < p" using assms q by (simp add: zero_less_divide_iff)
  define a where "a = int (floorlog 2 (nat p))"
  define b where "b = int (floorlog 2 (nat q))"
  note P = floorlog_powi [OF p, folded a_def] and Q = floorlog_powi [OF q, folded b_def]
  have "two_powi (a - b - 1) * of_int q \<le> two_powi (a - b - 1) * two_powi b"
    by (rule mult_left_mono [OF less_imp_le [OF Q(2)]]) (simp add: less_imp_le)
  also have "\<dots> = two_powi (a - 1)" by (simp add: two_powi_add [symmetric])
  also have "\<dots> \<le> of_int p" by (rule P(1))
  finally have lo: "two_powi (a - b - 1) \<le> x" using q by (simp add: x pos_le_divide_eq)
  have "of_int p < two_powi a" by (rule P(2))
  also have "\<dots> = two_powi (a - b + 1) * two_powi (b - 1)" by (simp add: two_powi_add [symmetric])
  also have "\<dots> \<le> two_powi (a - b + 1) * of_int q" by (rule mult_left_mono [OF Q(1)]) (simp add: less_imp_le)
  finally have hi: "x < two_powi (a - b + 1)" using q by (simp add: x pos_divide_less_eq)
  show "two_powi (binary_exponent x) \<le> x" "x < two_powi (binary_exponent x + 1)"
    using lo hi by (simp_all add: binary_exponent_def pq Let_def a_def b_def)
qed

lemma two_powi_mono: "a \<le> b \<Longrightarrow> two_powi a \<le> two_powi b"
proof -
  assume "a \<le> b"
  then have "two_powi b = two_powi a * 2 ^ nat (b - a)"
    using two_powi_add [of a "b - a"] by (simp add: two_powi_def [of "b - a"])
  moreover have "1 \<le> (2 :: rat) ^ nat (b - a)" by simp
  ultimately show ?thesis using mult_left_mono [of 1 "2 ^ nat (b - a)" "two_powi a"] by (simp add: less_imp_le)
qed

lemma binary_exponent_unique:
  assumes "two_powi k \<le> x" "x < two_powi (k + 1)"
  shows "binary_exponent x = k"
proof -
  have "0 < x" using assms(1) two_powi_pos [of k] by linarith
  note e = binary_exponent_bounds [OF this]
  have "\<not> binary_exponent x + 1 \<le> k" "\<not> k + 1 \<le> binary_exponent x"
    using e assms two_powi_mono [of "binary_exponent x + 1" k] two_powi_mono [of "k + 1" "binary_exponent x"] by linarith+
  then show ?thesis by linarith
qed

lemma float64_error:
  assumes "0 \<le> x"
  shows "\<bar>float64 x - x\<bar> \<le> x / 2 ^ 53"
proof (cases "x = 0")
  case False
  let ?u = "two_powi (binary_exponent x - 52)"
  have "?u * 2 ^ 52 = two_powi (binary_exponent x)"
    using two_powi_add [of "binary_exponent x - 52" 52] by (simp add: two_powi_def)
  then have "?u * 2 ^ 52 \<le> x" using binary_exponent_bounds(1) [of x] assms False by simp
  then have u: "?u / 2 \<le> x / 2 ^ 53" by (simp add: field_simps)
  have "float64 x - x = (of_int (round_even (x / ?u)) - x / ?u) * ?u"
    using assms False by (simp add: float64_def round_pos_def Let_def algebra_simps less_imp_neq [OF two_powi_pos, symmetric])
  then have "\<bar>float64 x - x\<bar> = \<bar>of_int (round_even (x / ?u)) - x / ?u\<bar> * ?u"
    by (simp add: abs_mult)
  also have "\<dots> \<le> 1 / 2 * ?u" by (rule mult_right_mono [OF round_even_error]) (simp add: less_imp_le)
  finally show ?thesis using u by simp
qed (simp add: float64_def)

lemma float64_bounds:
  assumes "0 \<le> x"
  shows "x * (1 - 1 / 2 ^ 53) \<le> float64 x" "float64 x \<le> x * (1 + 1 / 2 ^ 53)"
proof -
  have "float64 x - x \<le> x / 2 ^ 53" "x - float64 x \<le> x / 2 ^ 53"
    using float64_error [OF assms] by (simp_all only: abs_le_iff minus_diff_eq)
  then show "x * (1 - 1 / 2 ^ 53) \<le> float64 x" "float64 x \<le> x * (1 + 1 / 2 ^ 53)"
    by (simp_all add: algebra_simps)
qed

text \<open>Rounding a number between \<open>2^k\<close> and \<open>2^(k+1)\<close> whose nearest multiple of the ulp is \<open>m\<close>.\<close>

lemma float64_eval:
  assumes "two_powi k \<le> x" "x < two_powi (k + 1)" "\<bar>of_int m - x / two_powi (k - 52)\<bar> < 1 / 2"
  shows "float64 x = of_int m * two_powi (k - 52)"
proof -
  have "0 < x" using assms(1) two_powi_pos [of k] by linarith
  define y where "y = x / two_powi (k - 52)"
  have m: "of_int m - y < 1 / 2" "y - of_int m < 1 / 2" using assms(3) by (simp_all only: y_def abs_less_iff minus_diff_eq)
  have "round_even y = m"
  proof (cases "of_int m \<le> y")
    case True
    then have "\<lfloor>y\<rfloor> = m" using m by (intro floor_unique) linarith+
    then show ?thesis using m by (simp add: round_even_def Let_def)
  next
    case False
    moreover have "of_int (m - 1) = of_int m - (1 :: rat)" by simp
    ultimately have "\<lfloor>y\<rfloor> = m - 1" using m by (intro floor_unique) linarith+
    then show ?thesis using m by (simp add: round_even_def Let_def)
  qed
  then show ?thesis
    using \<open>0 < x\<close> by (simp add: float64_def round_pos_def binary_exponent_unique [OF assms(1,2)] y_def Let_def)
qed

lemma round_even_of_int [simp]: "round_even (of_int m) = m"
  by (simp add: round_even_def)

lemma float64_int_exact:
  assumes "0 \<le> n" "n < 2 ^ 53"
  shows "float64 (of_int n) = of_int n"
proof (cases "n = 0")
  case False
  then have pos: "0 < (of_int n :: rat)" using assms by simp
  let ?e = "binary_exponent (of_int n)"
  note e = binary_exponent_bounds [OF pos]
  have "(of_int n :: rat) < 2 ^ 53" using assms(2) by (metis of_int_less_iff of_int_numeral of_int_power)
  then have "two_powi ?e < two_powi 53" using e(1) by (simp add: two_powi_def [of 53])
  then have e52: "?e \<le> 52" using two_powi_mono [of 53 ?e] by linarith
  have inv: "two_powi (?e - 52) * two_powi (52 - ?e) = 1" by (simp add: two_powi_add [symmetric]) (simp add: two_powi_def)
  have "of_int n / two_powi (?e - 52) = of_int n * (two_powi (?e - 52) * two_powi (52 - ?e)) / two_powi (?e - 52)"
    by (simp only: inv mult_1_right)
  also have "\<dots> = of_int n * two_powi (52 - ?e)"
    using two_powi_pos [of "?e - 52"] by (simp add: less_imp_neq [THEN not_sym])
  also have "\<dots> = of_int (n * 2 ^ nat (52 - ?e))" using e52 by (simp add: two_powi_def)
  finally have "round_even (of_int n / two_powi (?e - 52)) = n * 2 ^ nat (52 - ?e)"
    by (simp only: round_even_of_int)
  then have "round_pos (of_int n) = of_int n * (two_powi (52 - ?e) * two_powi (?e - 52))"
    using e52 by (simp add: round_pos_def Let_def two_powi_def [of "52 - ?e"])
  then show ?thesis using pos inv by (simp add: float64_def mult.commute)
qed (simp add: float64_def)

lemma float_of_u64_exact: "uint w < 2 ^ 53 \<Longrightarrow> float_of_u64 w = of_int (uint w)"
  unfolding float_of_u64_def by (rule float64_int_exact) simp_all

text \<open>Relative errors in units of \<open>2^-53\<close>, and how they add up.\<close>

definition near_rel :: "rat \<Rightarrow> rat \<Rightarrow> rat \<Rightarrow> bool" where
  "near_rel k x y \<longleftrightarrow> y * (1 - k / 2 ^ 53) \<le> x \<and> x \<le> y * (1 + k / 2 ^ 53)"

lemma within_float64:
  assumes "near_rel k x y" "0 \<le> y" "0 \<le> k" "k \<le> 2 ^ 53"
  shows "near_rel (k + 2) (float64 x) y"
proof -
  define e :: rat where "e = 1 / 2 ^ 53"
  have e: "0 \<le> e" "e \<le> 1" "k * e \<le> 1" using assms(4) by (simp_all add: e_def)
  have x: "y * (1 - k * e) \<le> x" "x \<le> y * (1 + k * e)" using assms(1) by (simp_all add: near_rel_def e_def)
  have "0 \<le> y * (1 - k * e)" using assms(2) e(3) by simp
  then have "0 \<le> x" using x(1) by linarith
  note f = float64_bounds [OF this, folded e_def]
  have "y * (1 - (k + 2) * e) \<le> y * ((1 - k * e) * (1 - e))"
    using assms(2,3) e by (intro mult_left_mono) (simp_all add: algebra_simps)
  also have "\<dots> \<le> x * (1 - e)" using mult_right_mono [OF x(1), of "1 - e"] e by (simp add: mult.assoc)
  finally have lo: "y * (1 - (k + 2) * e) \<le> float64 x" using f(1) by linarith
  have "k * e * e \<le> 1 * e" using e by (intro mult_right_mono) simp_all
  then have "(1 + k * e) * (1 + e) \<le> 1 + (k + 2) * e" by (simp add: algebra_simps)
  then have "y * ((1 + k * e) * (1 + e)) \<le> y * (1 + (k + 2) * e)" using assms(2) by (intro mult_left_mono)
  moreover have "x * (1 + e) \<le> y * (1 + k * e) * (1 + e)" using mult_right_mono [OF x(2), of "1 + e"] e by simp
  ultimately have "float64 x \<le> y * (1 + (k + 2) * e)" using f(2) by (simp add: mult.assoc)
  with lo show ?thesis by (simp add: near_rel_def e_def)
qed

lemma within_divide:
  assumes "near_rel 1 x a" "near_rel 1 y b" "0 \<le> a" "0 < b"
  shows "near_rel 3 (x / y) (a / b)"
proof -
  define e :: rat where "e = 1 / 2 ^ 53"
  have e: "0 \<le> e" "3 * e \<le> 1" by (simp_all add: e_def)
  have x: "a * (1 - e) \<le> x" "x \<le> a * (1 + e)" and y: "b * (1 - e) \<le> y" "y \<le> b * (1 + e)"
    using assms(1,2) by (simp_all add: near_rel_def e_def)
  have "0 < b * (1 - e)" using assms(4) e by simp
  then have y0: "0 < y" using y(1) by linarith
  have "a / b * (1 - 3 * e) * y \<le> a / b * (1 - 3 * e) * (b * (1 + e))"
    using y(2) assms(3,4) e by (intro mult_left_mono) simp_all
  also have "\<dots> = a * ((1 - 3 * e) * (1 + e))" using assms(4) by simp
  also have "\<dots> \<le> a * (1 - e)" using assms(3) e by (intro mult_left_mono) (simp_all add: algebra_simps)
  finally have lo: "a / b * (1 - 3 * e) \<le> x / y" using x(1) y0 by (simp add: pos_le_divide_eq)
  have "3 * e * e \<le> 1 * e" using e by (intro mult_right_mono) simp_all
  then have "a * (1 + e) \<le> a * ((1 + 3 * e) * (1 - e))"
    using assms(3) by (intro mult_left_mono) (simp_all add: algebra_simps)
  also have "\<dots> = a / b * (1 + 3 * e) * (b * (1 - e))" using assms(4) by simp
  also have "\<dots> \<le> a / b * (1 + 3 * e) * y" using y(1) assms(3,4) e by (intro mult_left_mono) simp_all
  finally have "x / y \<le> a / b * (1 + 3 * e)" using x(2) y0 by (simp add: pos_divide_le_eq)
  with lo show ?thesis by (simp add: near_rel_def e_def)
qed

lemma within_scale:
  assumes "near_rel k x y" "0 \<le> c"
  shows "near_rel k (x * c) (y * c)"
proof -
  have swap: "y * c * z = y * z * c" for z by (simp add: ac_simps)
  show ?thesis
    using assms unfolding near_rel_def swap by (blast intro: mult_right_mono)
qed

lemma within_float_of_u64: "near_rel 1 (float_of_u64 w) (of_int (uint w))"
proof -
  have "0 \<le> (of_int (uint w) :: rat)" by (simp only: of_int_0_le_iff uint_ge_0)
  from float64_bounds [OF this] show ?thesis unfolding near_rel_def float_of_u64_def by blast
qed

end
