(* ===== verification/Head_Votes.thy ===== *)
theory Head_Votes
  imports Go_Float Chain_Service Reveal_Service Config "HOL-Library.AList"
begin

text \<open>
  The head vote tracker, \<open>pkg/chain/headvotes.go\<close>: raw attestations merged into one bitmap per slot
  and block root, their attesting balance, throttled and threshold updates, and the coverage of the
  block attestations by the raw ones.

  Committee sizes, offsets and bit positions are \<open>nat\<close> (lengths of slices); a position is stored as
  an \<open>int32\<close> and the conversion is written out.  The map of roots of a slot is an association list,
  because its size matters; \<open>order\<close> is the order in which a loop visits its keys, and the loops over
  slots take the order of the slots.  A panic (an index out of range) is \<open>Panics\<close>.  The percentages
  are \<open>float64\<close> values.
\<close>

section \<open>Bitmaps\<close>

unbundle bit_operations_syntax

type_synonym bitmap = "u8 list"

definition isBitSet :: "bitmap \<Rightarrow> nat \<Rightarrow> bool" where
  "isBitSet data pos = (if pos div 8 \<ge> length data then False else data ! (pos div 8) AND push_bit (pos mod 8) 1 \<noteq> 0)"

definition setBit :: "bitmap \<Rightarrow> nat \<Rightarrow> bitmap" where
  "setBit data pos =
     (if pos div 8 \<ge> length data then data else data[pos div 8 := data ! (pos div 8) OR push_bit (pos mod 8) 1])"

text \<open>\<open>bits.OnesCount8\<close>\<close>

definition OnesCount8 :: "u8 \<Rightarrow> nat" where
  "OnesCount8 b = length (filter (\<lambda>i. bit b i) [0..<8])"

definition popCount :: "bitmap \<Rightarrow> nat" where
  "popCount data = sum_list (map OnesCount8 data)"

definition popCountAnd :: "bitmap \<Rightarrow> bitmap \<Rightarrow> nat" where
  "popCountAnd a b = sum_list (map (\<lambda>i. OnesCount8 (a ! i AND b ! i)) [0..<min (length a) (length b)])"

definition bitmap_or :: "bitmap \<Rightarrow> bitmap \<Rightarrow> bitmap" where
  "bitmap_or acc m = fold (\<lambda>i acc. acc[i := acc ! i OR m ! i]) [0..<length m] acc"

definition new_bitmap :: "nat \<Rightarrow> bitmap" where
  "new_bitmap members = replicate ((members + 7) div 8) 0"

section \<open>State\<close>

definition voteFirePctStep :: rat where
  "voteFirePctStep = 1"

definition maxTrackedRootsPerSlot :: nat where
  "maxTrackedRootsPerSlot = 4"

definition voteSlotRetention :: u64 where
  "voteSlotRetention = 8"

definition coverageWindowSlots :: nat where
  "coverageWindowSlots = 16"

definition coverageMinSlots :: nat where
  "coverageMinSlots = 8"

definition coverageMinAttesters :: nat where
  "coverageMinAttesters = 16"

definition coverageLowThreshold :: rat where
  "coverageLowThreshold = 80"

definition coverageRecoverThreshold :: rat where
  "coverageRecoverThreshold = 90"

record SubnetCoverage =
  cov_Slots :: nat
  cov_Attesters :: nat
  cov_SeenPct :: rat
  cov_Low :: bool

record coverageSample =
  smp_seen :: nat
  smp_total :: nat

record slotCommitteeLayout =
  lay_committeeOffsets :: "nat list"
  lay_committeeSizes :: "nat list"
  lay_totalMembers :: nat
  lay_positions :: "u64 \<rightharpoonup> int"
  lay_validators :: "u64 list"
  lay_weights :: "u32 list"
  lay_totalSlotETH :: u64

record rootVoteState =
  rv_voteBits :: bitmap
  rv_voteTimes :: "16 word list"
  rv_blockBits :: "bitmap option"
  rv_participatingETH :: u64
  rv_voteCount :: int
  rv_lastVoteAt :: "gotime option"
  rv_lastFiredPct :: rat
  rv_thresholdFired :: bool
  rv_dirty :: bool

record slotVoteState =
  sv_layout :: slotCommitteeLayout
  sv_roots :: "(hash32 \<times> rootVoteState) list"
  sv_headRoot :: hash32

record HeadVoteTracker =
  hvt_slotStates :: "slot \<rightharpoonup> slotVoteState"
  hvt_coverageSamples :: "coverageSample list"
  hvt_coverageLow :: bool
  hvt_fetchActive :: bool
  hvt_updates :: "HeadVoteUpdate list"
  hvt_coverage :: "SubnetCoverage list"

record vote_env =
  hve_spec :: ChainSpec
  hve_genesisTime :: gotime
  hve_cfg :: "Config option"
  hve_stats :: "epoch \<Rightarrow> EpochStats option"
  hve_now :: gotime
  hve_order :: "hash32 list \<Rightarrow> hash32 list"

record SingleAttestationEvent =
  sa_Slot :: slot
  sa_CommitteeIndex :: u64
  sa_AttesterIndex :: u64
  sa_BeaconBlockRoot :: hash32
  sa_ReceivedAt :: gotime

record AttestationEvent =
  at_AggregationBits :: bitmap
  at_Slot :: slot
  at_Index :: u64
  at_BeaconBlockRoot :: hash32
  at_CommitteeBits :: "bitmap option"

definition NewHeadVoteTracker :: HeadVoteTracker where
  "NewHeadVoteTracker = \<lparr>hvt_slotStates = Map.empty, hvt_coverageSamples = [], hvt_coverageLow = False,
     hvt_fetchActive = False, hvt_updates = [], hvt_coverage = []\<rparr>"

definition zero_root :: hash32 where
  "zero_root = replicate 32 0"

section \<open>Committee layout\<close>

text \<open>\<open>int32(pos)\<close>\<close>

definition i32_of_nat :: "nat \<Rightarrow> int" where
  "i32_of_nat n = (int n + 2147483648) mod 4294967296 - 2147483648"

text \<open>Index and weight of every member in committee order; \<open>None\<close> when an index is out of range.\<close>

fun layout_members :: "EpochStats \<Rightarrow> u32 list \<Rightarrow> (u64 \<times> u32) list option" where
  "layout_members stats [] = Some []"
| "layout_members stats (a # as) =
     (if unat a < length (es_ActiveIndices stats) \<and> unat a < length (es_EffectiveBalances stats)
      then map_option (\<lambda>ms. (es_ActiveIndices stats ! unat a, es_EffectiveBalances stats ! unat a) # ms)
             (layout_members stats as)
      else None)"

fun offsets_from :: "nat \<Rightarrow> 'a list list \<Rightarrow> nat list" where
  "offsets_from n [] = []"
| "offsets_from n (c # cs) = n # offsets_from (n + length c) cs"

definition layout_of :: "u32 list list \<Rightarrow> (u64 \<times> u32) list \<Rightarrow> slotCommitteeLayout" where
  "layout_of committees members =
     \<lparr>lay_committeeOffsets = offsets_from 0 committees, lay_committeeSizes = map length committees,
      lay_totalMembers = length members,
      lay_positions = map_of (rev (zip (map fst members) (map i32_of_nat [0..<length members]))),
      lay_validators = map fst members, lay_weights = map snd members,
      lay_totalSlotETH = sum_list (map (\<lambda>m. ucast (snd m)) members)\<rparr>"

definition buildCommitteeLayout :: "vote_env \<Rightarrow> slot \<Rightarrow> slotCommitteeLayout option outcome" where
  "buildCommitteeLayout env s =
     (if SlotsPerEpoch (hve_spec env) = 0 then Panics
      else case hve_stats env (GetEpochOfSlot (hve_spec env) s) of
        None \<Rightarrow> Returns None
      | Some stats \<Rightarrow>
          (case es_AttesterDuties stats of
             None \<Rightarrow> Returns None
           | Some duties \<Rightarrow>
               (let slotIndex = s mod SlotsPerEpoch (hve_spec env) in
                if slotIndex \<ge> of_nat (length duties) then Returns None
                else case layout_members stats (concat (duties ! unat slotIndex)) of
                       None \<Rightarrow> Panics
                     | Some members \<Rightarrow> Returns (Some (layout_of (duties ! unat slotIndex) members)))))"

section \<open>Participation and updates\<close>

definition thresholdPct :: "vote_env \<Rightarrow> rat" where
  "thresholdPct env =
     (case hve_cfg env of None \<Rightarrow> 0 | Some cfg \<Rightarrow> float_of_u64 (ec_HeadVoteThresholdPct (cfg_EPBS cfg)))"

definition pct_of :: "u64 \<Rightarrow> u64 \<Rightarrow> rat" where
  "pct_of part whole = float_mul (float_div (float_of_u64 part) (float_of_u64 whole)) 100"

definition participationPct :: "slotCommitteeLayout \<Rightarrow> rootVoteState \<Rightarrow> rat" where
  "participationPct layout rs =
     (if lay_totalSlotETH layout = 0 then 0 else pct_of (rv_participatingETH rs) (lay_totalSlotETH layout))"

definition UnixMilli :: "gotime \<Rightarrow> i64" where
  "UnixMilli t = t div nanos_per_ms"

definition buildUpdate ::
  "vote_env \<Rightarrow> slot \<Rightarrow> hash32 \<Rightarrow> slotCommitteeLayout \<Rightarrow> rootVoteState \<Rightarrow> HeadVoteUpdate" where
  "buildUpdate env s r layout rs =
     (let pct = participationPct layout rs; threshold = thresholdPct env in
      \<lparr>hv_Slot = s, hv_BlockRoot = r, hv_ParticipationPct = pct, hv_ParticipationETH = rv_participatingETH rs,
       hv_TotalSlotETH = lay_totalSlotETH layout, hv_VoteCount = rv_voteCount rs,
       hv_TotalMembers = lay_totalMembers layout, hv_ThresholdPct = threshold,
       hv_ThresholdMet = (threshold > 0 \<and> pct \<ge> threshold),
       hv_Timestamp = UnixMilli (case rv_lastVoteAt rs of None \<Rightarrow> hve_now env | Some t \<Rightarrow> t)\<rparr>)"

text \<open>The loops that look for the most and the least voted root, first of equals in visiting order.\<close>

definition pick_root ::
  "(int \<Rightarrow> int \<Rightarrow> bool) \<Rightarrow> (hash32 \<times> rootVoteState) list \<Rightarrow> hash32 \<Rightarrow> (hash32 \<times> rootVoteState) option \<Rightarrow>
   (hash32 \<times> rootVoteState) option" where
  "pick_root better roots r best =
     (case map_of roots r of
        None \<Rightarrow> best
      | Some rs \<Rightarrow>
          (case best of
             None \<Rightarrow> Some (r, rs)
           | Some (br, brs) \<Rightarrow> if better (rv_voteCount rs) (rv_voteCount brs) then Some (r, rs) else best))"

definition primary :: "vote_env \<Rightarrow> slotVoteState \<Rightarrow> (hash32 \<times> rootVoteState) option" where
  "primary env st =
     (case map_of (sv_roots st) (sv_headRoot st) of
        Some rs \<Rightarrow> Some (sv_headRoot st, rs)
      | None \<Rightarrow> fold (pick_root (>) (sv_roots st)) (hve_order env (map fst (sv_roots st))) None)"

definition evictLeastVotedRoot :: "vote_env \<Rightarrow> slotVoteState \<Rightarrow> slotVoteState" where
  "evictLeastVotedRoot env st =
     (case fold (pick_root (<) (sv_roots st)) (hve_order env (map fst (sv_roots st))) None of
        None \<Rightarrow> st
      | Some (victim, _) \<Rightarrow> st\<lparr>sv_roots := AList.delete victim (sv_roots st)\<rparr>)"

definition set_root :: "hash32 \<Rightarrow> rootVoteState \<Rightarrow> slotVoteState \<Rightarrow> slotVoteState" where
  "set_root r rs st = st\<lparr>sv_roots := AList.update r rs (sv_roots st)\<rparr>"

definition new_root :: "slotCommitteeLayout \<Rightarrow> rootVoteState" where
  "new_root layout =
     \<lparr>rv_voteBits = new_bitmap (lay_totalMembers layout), rv_voteTimes = replicate (lay_totalMembers layout) 0,
      rv_blockBits = None, rv_participatingETH = 0, rv_voteCount = 0, rv_lastVoteAt = None, rv_lastFiredPct = 0,
      rv_thresholdFired = False, rv_dirty = False\<rparr>"

definition getOrCreateRootState :: "slotVoteState \<Rightarrow> hash32 \<Rightarrow> rootVoteState option \<times> slotVoteState" where
  "getOrCreateRootState st r =
     (case map_of (sv_roots st) r of
        Some rs \<Rightarrow> (Some rs, st)
      | None \<Rightarrow>
          if length (sv_roots st) \<ge> maxTrackedRootsPerSlot then (None, st)
          else (Some (new_root (sv_layout st)), set_root r (new_root (sv_layout st)) st))"

definition set_slot :: "slot \<Rightarrow> slotVoteState \<Rightarrow> HeadVoteTracker \<Rightarrow> HeadVoteTracker" where
  "set_slot s st t = t\<lparr>hvt_slotStates := (hvt_slotStates t)(s \<mapsto> st)\<rparr>"

text \<open>\<open>fire\<close> on the root \<open>rs\<close> of the slot state \<open>st\<close>.\<close>

definition fire ::
  "vote_env \<Rightarrow> slot \<Rightarrow> hash32 \<Rightarrow> slotVoteState \<Rightarrow> rootVoteState \<Rightarrow> HeadVoteTracker \<Rightarrow> HeadVoteTracker" where
  "fire env s r st rs t =
     (let update = buildUpdate env s r (sv_layout st) rs in
      set_slot s (set_root r (rs\<lparr>rv_lastFiredPct := hv_ParticipationPct update, rv_dirty := False\<rparr>) st)
        (t\<lparr>hvt_updates := hvt_updates t @ [update]\<rparr>))"

definition maybeFireThreshold ::
  "vote_env \<Rightarrow> slot \<Rightarrow> hash32 \<Rightarrow> slotVoteState \<Rightarrow> rootVoteState \<Rightarrow> HeadVoteTracker \<Rightarrow> HeadVoteTracker" where
  "maybeFireThreshold env s r st rs t =
     (let threshold = thresholdPct env; keep = set_slot s (set_root r rs st) t in
      if threshold \<le> 0 \<or> rv_thresholdFired rs then keep
      else if map_option fst (primary env (set_root r rs st)) \<noteq> Some r then keep
      else if participationPct (sv_layout st) rs < threshold then keep
      else fire env s r (set_root r (rs\<lparr>rv_thresholdFired := True\<rparr>) st) (rs\<lparr>rv_thresholdFired := True\<rparr>) t)"

section \<open>Events\<close>

definition getOrCreateSlotState :: "vote_env \<Rightarrow> slot \<Rightarrow> HeadVoteTracker \<Rightarrow> (slotVoteState option \<times> HeadVoteTracker) outcome" where
  "getOrCreateSlotState env s t =
     (case hvt_slotStates t s of
        Some st \<Rightarrow> Returns (Some st, t)
      | None \<Rightarrow>
          (let current = GetCurrentSlot (hve_spec env) (hve_genesisTime env) (hve_now env) in
           if s + voteSlotRetention < current \<or> s > current + 1 then Returns (None, t)
           else map_outcome (\<lambda>layout. case layout of
                    None \<Rightarrow> (None, t)
                  | Some l \<Rightarrow> (let st = \<lparr>sv_layout = l, sv_roots = [], sv_headRoot = zero_root\<rparr>
                              in (Some st, set_slot s st t)))
                  (buildCommitteeLayout env s)))"

definition voteTimeOffset :: "vote_env \<Rightarrow> slot \<Rightarrow> gotime \<Rightarrow> 16 word" where
  "voteTimeOffset env s receivedAt =
     (let offset = dur_ms (time_sub receivedAt (SlotToTime (hve_spec env) (hve_genesisTime env) s)) + 1 in
      if offset < 1 then 1 else if offset > 65535 then 65535 else word_of_int offset)"

text \<open>The committee check: \<open>None\<close> is the panic of a negative index.\<close>

definition committee_accepts :: "slotCommitteeLayout \<Rightarrow> u64 \<Rightarrow> int \<Rightarrow> bool option" where
  "committee_accepts layout committeeIndex pos =
     (let ci = i64_of_u64 committeeIndex in
      if ci \<ge> int (length (lay_committeeOffsets layout)) then Some False
      else if ci < 0 then None
      else Some (\<not> (pos < int (lay_committeeOffsets layout ! nat ci)) \<and>
                 \<not> (pos \<ge> int (lay_committeeOffsets layout ! nat ci + lay_committeeSizes layout ! nat ci))))"

definition merge_vote :: "vote_env \<Rightarrow> SingleAttestationEvent \<Rightarrow> nat \<Rightarrow> slotCommitteeLayout \<Rightarrow> rootVoteState \<Rightarrow> rootVoteState" where
  "merge_vote env ev pos layout rs =
     rs\<lparr>rv_voteBits := setBit (rv_voteBits rs) pos,
        rv_voteTimes := (rv_voteTimes rs)[pos := voteTimeOffset env (sa_Slot ev) (sa_ReceivedAt ev)],
        rv_participatingETH := rv_participatingETH rs + ucast (lay_weights layout ! pos),
        rv_voteCount := rv_voteCount rs + 1, rv_lastVoteAt := Some (sa_ReceivedAt ev), rv_dirty := True\<rparr>"

definition handleSingleAttestation ::
  "vote_env \<Rightarrow> SingleAttestationEvent \<Rightarrow> HeadVoteTracker \<Rightarrow> HeadVoteTracker outcome" where
  "handleSingleAttestation env ev t =
     (case getOrCreateSlotState env (sa_Slot ev) t of
        Panics \<Rightarrow> Panics
      | Diverges \<Rightarrow> Diverges
      | Returns (None, t) \<Rightarrow> Returns t
      | Returns (Some st, t) \<Rightarrow>
          (case getOrCreateRootState st (sa_BeaconBlockRoot ev) of
             (None, st) \<Rightarrow> Returns t
           | (Some rs, st) \<Rightarrow>
               (let t = set_slot (sa_Slot ev) st t in
                case lay_positions (sv_layout st) (sa_AttesterIndex ev) of
                  None \<Rightarrow> Returns t
                | Some pos \<Rightarrow>
                    (case committee_accepts (sv_layout st) (sa_CommitteeIndex ev) pos of
                       None \<Rightarrow> Panics
                     | Some False \<Rightarrow> Returns t
                     | Some True \<Rightarrow>
                         if isBitSet (rv_voteBits rs) (nat pos) then Returns t
                         else Returns (maybeFireThreshold env (sa_Slot ev) (sa_BeaconBlockRoot ev) st
                                (merge_vote env ev (nat pos) (sv_layout st) rs) t)))))"

definition name_head :: "vote_env \<Rightarrow> slot \<Rightarrow> hash32 \<Rightarrow> slotVoteState \<Rightarrow> HeadVoteTracker \<Rightarrow> HeadVoteTracker" where
  "name_head env s block st t =
     (if sv_headRoot st = block then t
      else
        let st = st\<lparr>sv_headRoot := block\<rparr>;
            (rs, st) = (case getOrCreateRootState st block of
                (Some rs, st) \<Rightarrow> (Some rs, st)
              | (None, st) \<Rightarrow> getOrCreateRootState (evictLeastVotedRoot env st) block)
        in case rs of
             None \<Rightarrow> set_slot s st t
           | Some rs \<Rightarrow>
               (let t = maybeFireThreshold env s block st rs t in
                case hvt_slotStates t s of
                  None \<Rightarrow> t
                | Some st \<Rightarrow>
                    (case map_of (sv_roots st) block of
                       None \<Rightarrow> t
                     | Some rs \<Rightarrow>
                         if rv_voteCount rs > 0 then set_slot s (set_root block (rs\<lparr>rv_dirty := True\<rparr>) st) t else t)))"

definition votes_handleHeadEvent :: "vote_env \<Rightarrow> slot \<Rightarrow> hash32 \<Rightarrow> HeadVoteTracker \<Rightarrow> HeadVoteTracker outcome" where
  "votes_handleHeadEvent env eventSlot block t =
     map_outcome (\<lambda>(st, t).
        let t = (case st of None \<Rightarrow> t | Some st \<Rightarrow> name_head env eventSlot block st t) in
        t\<lparr>hvt_slotStates := range_delete (\<lambda>s _. eventSlot > voteSlotRetention \<and> s < eventSlot - voteSlotRetention)
             (hvt_slotStates t), hvt_fetchActive := True\<rparr>)
       (getOrCreateSlotState env eventSlot t)"

definition flush_slot :: "vote_env \<Rightarrow> slot \<Rightarrow> HeadVoteTracker \<Rightarrow> HeadVoteTracker" where
  "flush_slot env s t =
     (case hvt_slotStates t s of None \<Rightarrow> t | Some st \<Rightarrow>
        (case primary env st of None \<Rightarrow> t | Some (r, rs) \<Rightarrow>
           if \<not> rv_dirty rs then t
           else if float_sub (participationPct (sv_layout st) rs) (rv_lastFiredPct rs) < voteFirePctStep then t
           else fire env s r st rs t))"

definition flushDirty :: "vote_env \<Rightarrow> slot list \<Rightarrow> HeadVoteTracker \<Rightarrow> HeadVoteTracker" where
  "flushDirty env ks t = fold (flush_slot env) ks t"

definition GetParticipation :: "vote_env \<Rightarrow> slot \<Rightarrow> hash32 \<Rightarrow> HeadVoteTracker \<Rightarrow> HeadVoteUpdate option" where
  "GetParticipation env s r t =
     (case hvt_slotStates t s of None \<Rightarrow> None | Some st \<Rightarrow>
        map_option (buildUpdate env s r (sv_layout st)) (map_of (sv_roots st) r))"

record VoteAttester =
  va_Index :: u64
  va_SeenAtMs :: int
  va_InBlock :: bool

record VoteDetail =
  vd_Slot :: slot
  vd_BlockRoot :: hash32
  vd_TotalMembers :: nat
  vd_Attesters :: "VoteAttester list"

definition GetVoteDetail :: "vote_env \<Rightarrow> slot \<Rightarrow> hash32 \<Rightarrow> HeadVoteTracker \<Rightarrow> VoteDetail option" where
  "GetVoteDetail env s r t =
     (case hvt_slotStates t s of None \<Rightarrow> None | Some st \<Rightarrow>
        (case (if r = zero_root then primary env st else map_option (Pair r) (map_of (sv_roots st) r)) of
           None \<Rightarrow> None
         | Some (r, rs) \<Rightarrow>
             Some \<lparr>vd_Slot = s, vd_BlockRoot = r, vd_TotalMembers = lay_totalMembers (sv_layout st),
                   vd_Attesters = map (\<lambda>pos.
                      \<lparr>va_Index = lay_validators (sv_layout st) ! pos,
                       va_SeenAtMs = (if rv_voteTimes rs ! pos \<noteq> 0 then uint (rv_voteTimes rs ! pos) - 1 else - 1),
                       va_InBlock = (case rv_blockBits rs of None \<Rightarrow> False | Some m \<Rightarrow> isBitSet m pos)\<rparr>)
                     [0..<lay_totalMembers (sv_layout st)]\<rparr>))"

section \<open>Coverage\<close>

definition buildCoverage :: "HeadVoteTracker \<Rightarrow> SubnetCoverage" where
  "buildCoverage t =
     (let seen = sum_list (map smp_seen (hvt_coverageSamples t)); attesters = sum_list (map smp_total (hvt_coverageSamples t)) in
      \<lparr>cov_Slots = length (hvt_coverageSamples t), cov_Attesters = attesters,
       cov_SeenPct = (if attesters > 0 then pct_of (of_nat seen) (of_nat attesters) else 0), cov_Low = hvt_coverageLow t\<rparr>)"

definition walk_committee :: "bitmap \<Rightarrow> nat \<Rightarrow> nat \<Rightarrow> nat \<Rightarrow> nat list" where
  "walk_committee aggBits offset sz bitBase =
     map (\<lambda>j. offset + j) (filter (\<lambda>j. isBitSet aggBits (bitBase + j)) [0..<sz])"

fun walk_committees :: "bitmap \<Rightarrow> bitmap \<Rightarrow> nat \<Rightarrow> nat \<Rightarrow> (nat \<times> nat) list \<Rightarrow> nat list" where
  "walk_committees aggBits committeeBits ci aggBitPos [] = []"
| "walk_committees aggBits committeeBits ci aggBitPos ((offset, sz) # rest) =
     (if \<not> isBitSet committeeBits ci then walk_committees aggBits committeeBits (ci + 1) aggBitPos rest
      else walk_committee aggBits offset sz aggBitPos @
             walk_committees aggBits committeeBits (ci + 1) (aggBitPos + sz) rest)"

text \<open>The positions \<open>walkAggregateBits\<close> visits; \<open>None\<close> is the panic of a negative index.\<close>

definition walkAggregateBits :: "slotCommitteeLayout \<Rightarrow> AttestationEvent \<Rightarrow> nat list option" where
  "walkAggregateBits layout ev =
     (case at_CommitteeBits ev of
        Some cbits \<Rightarrow> Some (walk_committees (at_AggregationBits ev) cbits 0 0
                        (zip (lay_committeeOffsets layout) (lay_committeeSizes layout)))
      | None \<Rightarrow>
          (let committeeIdx = i64_of_u64 (at_Index ev) in
           if committeeIdx \<ge> int (length (lay_committeeSizes layout)) then Some []
           else if committeeIdx < 0 then None
           else Some (walk_committee (at_AggregationBits ev) (lay_committeeOffsets layout ! nat committeeIdx)
                  (lay_committeeSizes layout ! nat committeeIdx) 0)))"

type_synonym block_bits = "((slot \<times> hash32) \<times> bitmap) list"

fun collect_bits :: "HeadVoteTracker \<Rightarrow> AttestationEvent list \<Rightarrow> block_bits \<Rightarrow> block_bits option" where
  "collect_bits t [] acc = Some acc"
| "collect_bits t (att # atts) acc =
     (case hvt_slotStates t (at_Slot att) of
        None \<Rightarrow> collect_bits t atts acc
      | Some st \<Rightarrow>
          (let key = (at_Slot att, at_BeaconBlockRoot att);
               m = (case map_of acc key of None \<Rightarrow> new_bitmap (lay_totalMembers (sv_layout st)) | Some m \<Rightarrow> m)
           in case walkAggregateBits (sv_layout st) att of
                None \<Rightarrow> None
              | Some ps \<Rightarrow> collect_bits t atts (AList.update key (fold (\<lambda>pos m. setBit m pos) ps m) acc)))"

definition add_sample :: "coverageSample \<Rightarrow> coverageSample list \<Rightarrow> coverageSample list" where
  "add_sample smp samples =
     (let xs = samples @ [smp] in if length xs > coverageWindowSlots then drop (length xs - coverageWindowSlots) xs else xs)"

definition record_bitmap :: "(slot \<times> hash32) \<times> bitmap \<Rightarrow> HeadVoteTracker \<times> bool \<Rightarrow> HeadVoteTracker \<times> bool" where
  "record_bitmap kb tc =
     (case (kb, tc) of (((s, r), m), (t, changed)) \<Rightarrow>
        if popCount m = 0 then (t, changed)
        else
          let (seen, t) = (case hvt_slotStates t s of
                 None \<Rightarrow> (0, t)
               | Some st \<Rightarrow>
                   (case getOrCreateRootState st r of
                      (None, st) \<Rightarrow> (0, t)
                    | (Some rs, st) \<Rightarrow>
                        (popCountAnd m (rv_voteBits rs),
                         set_slot s (set_root r (rs\<lparr>rv_blockBits := Some (case rv_blockBits rs of
                              None \<Rightarrow> m | Some b \<Rightarrow> bitmap_or b m)\<rparr>) st) t)))
          in (t\<lparr>hvt_coverageSamples := add_sample \<lparr>smp_seen = seen, smp_total = popCount m\<rparr> (hvt_coverageSamples t)\<rparr>, True))"

definition flag_coverage :: "HeadVoteTracker \<Rightarrow> HeadVoteTracker" where
  "flag_coverage t =
     (let cov = buildCoverage t;
          low = (if \<not> hvt_coverageLow t \<and> cov_Slots cov \<ge> coverageMinSlots \<and> cov_Attesters cov \<ge> coverageMinAttesters \<and>
                    cov_SeenPct cov < coverageLowThreshold then True
                 else if hvt_coverageLow t \<and> cov_SeenPct cov \<ge> coverageRecoverThreshold then False
                 else hvt_coverageLow t)
      in t\<lparr>hvt_coverageLow := low, hvt_coverage := hvt_coverage t @ [cov\<lparr>cov_Low := low\<rparr>]\<rparr>)"

text \<open>\<open>order\<close> is the order of the loop over the bitmaps of the block.\<close>

definition recordBlockAttestations ::
  "(block_bits \<Rightarrow> block_bits) \<Rightarrow> AttestationEvent list \<Rightarrow> HeadVoteTracker \<Rightarrow> HeadVoteTracker outcome" where
  "recordBlockAttestations order atts t =
     (case collect_bits t atts [] of
        None \<Rightarrow> Panics
      | Some bs \<Rightarrow>
          (case fold record_bitmap (order bs) (t, False) of (t, changed) \<Rightarrow>
             Returns (if changed then flag_coverage t else t)))"

text \<open>The fetch of a block ends: \<open>None\<close> when it failed.\<close>

definition measureBlockCoverage ::
  "(block_bits \<Rightarrow> block_bits) \<Rightarrow> AttestationEvent list option \<Rightarrow> HeadVoteTracker \<Rightarrow> HeadVoteTracker outcome" where
  "measureBlockCoverage order block t =
     map_outcome (\<lambda>t. t\<lparr>hvt_fetchActive := False\<rparr>)
       (case block of None \<Rightarrow> Returns t | Some atts \<Rightarrow> recordBlockAttestations order atts t)"

section \<open>Lemmas on bitmaps\<close>

lemma isBitSet_bit: "isBitSet m p \<longleftrightarrow> p div 8 < length m \<and> bit (m ! (p div 8)) (p mod 8)"
proof -
  have "b AND push_bit k 1 \<noteq> 0 \<longleftrightarrow> bit b k" for b :: u8 and k
    by (simp add: bit_iff_and_push_bit_not_eq_0)
  then show ?thesis by (auto simp: isBitSet_def)
qed

lemma length_setBit [simp]: "length (setBit m p) = length m"
  by (simp add: setBit_def)

lemma isBitSet_setBit: "isBitSet (setBit m p) q \<longleftrightarrow> isBitSet m q \<or> q = p \<and> p div 8 < length m"
proof (cases "p div 8 < length m \<and> q div 8 = p div 8")
  case True
  then have "q = p \<longleftrightarrow> q mod 8 = p mod 8" by (metis div_mult_mod_eq)
  moreover have "bit (push_bit (p mod 8) 1 :: u8) (q mod 8) \<longleftrightarrow> q mod 8 = p mod 8"
    by (auto simp: bit_simps)
  ultimately show ?thesis using True by (auto simp: isBitSet_bit setBit_def bit_or_iff)
next
  case False
  then show ?thesis by (auto simp: isBitSet_bit setBit_def)
qed

lemma isBitSet_new [simp]: "\<not> isBitSet (new_bitmap n) p"
  by (auto simp: isBitSet_bit new_bitmap_def)

lemma new_bitmap_covers: "p < n \<Longrightarrow> p div 8 < length (new_bitmap n)"
  by (auto simp: new_bitmap_def)

definition members_set :: "nat \<Rightarrow> bitmap \<Rightarrow> nat list" where
  "members_set n m = filter (isBitSet m) [0..<n]"

text \<open>Setting a new bit adds one position to any sum over the positions set.\<close>

lemma sum_members_setBit:
  fixes f :: "nat \<Rightarrow> 'a :: comm_monoid_add"
  assumes "p < n" "p div 8 < length m" "\<not> isBitSet m p"
  shows "sum_list (map f (members_set n (setBit m p))) = sum_list (map f (members_set n m)) + f p"
proof -
  have split: "[0..<n] = [0..<p] @ p # [Suc p..<n]"
    using assms(1) by (metis less_imp_le_nat upt_add_eq_append le_add_diff_inverse upt_conv_Cons zero_le)
  have "filter (isBitSet (setBit m p)) [0..<p] = filter (isBitSet m) [0..<p]"
    "filter (isBitSet (setBit m p)) [Suc p..<n] = filter (isBitSet m) [Suc p..<n]"
    by (rule filter_cong; auto simp: isBitSet_setBit)+
  moreover have "isBitSet (setBit m p) p" using assms(2) by (simp add: isBitSet_setBit)
  ultimately show ?thesis using assms(3) by (simp add: members_set_def split add_ac)
qed

lemma members_set_mono:
  fixes f :: "nat \<Rightarrow> nat"
  shows "sum_list (map f (members_set n m)) \<le> sum_list (map f [0..<n])"
  unfolding members_set_def by (rule sum_list_filter_le_nat)

section \<open>Runs\<close>

datatype vote_op =
    VoSingle vote_env SingleAttestationEvent
  | VoHead vote_env slot hash32
  | VoTick vote_env "slot list"
  | VoMeasure "block_bits \<Rightarrow> block_bits" "AttestationEvent list option"

fun vote_step :: "vote_op \<Rightarrow> HeadVoteTracker \<Rightarrow> HeadVoteTracker outcome" where
  "vote_step (VoSingle env ev) t = handleSingleAttestation env ev t"
| "vote_step (VoHead env s block) t = votes_handleHeadEvent env s block t"
| "vote_step (VoTick env ks) t = Returns (flushDirty env ks t)"
| "vote_step (VoMeasure order block) t = measureBlockCoverage order block t"

fun vote_run :: "vote_op list \<Rightarrow> HeadVoteTracker \<Rightarrow> HeadVoteTracker outcome" where
  "vote_run [] t = Returns t"
| "vote_run (op # ops) t =
     (case vote_step op t of Panics \<Rightarrow> Panics | Diverges \<Rightarrow> Diverges | Returns t \<Rightarrow> vote_run ops t)"

section \<open>The invariant\<close>

definition layout_ok :: "slotCommitteeLayout \<Rightarrow> bool" where
  "layout_ok l \<longleftrightarrow>
     lay_totalMembers l \<le> 2 ^ 31 \<and> length (lay_validators l) = lay_totalMembers l \<and>
     length (lay_weights l) = lay_totalMembers l \<and>
     unat (lay_totalSlotETH l) = sum_list (map (\<lambda>p. unat (lay_weights l ! p)) [0..<lay_totalMembers l]) \<and>
     length (lay_committeeOffsets l) = length (lay_committeeSizes l) \<and>
     (\<forall>ci < length (lay_committeeSizes l). lay_committeeOffsets l ! ci + lay_committeeSizes l ! ci \<le> lay_totalMembers l) \<and>
     (\<forall>v p. lay_positions l v = Some p \<longrightarrow> 0 \<le> p \<and> nat p < lay_totalMembers l \<and> lay_validators l ! nat p = v)"

text \<open>The attestation behind a vote: the attester's own, for this slot and block.\<close>

definition attested :: "vote_op list \<Rightarrow> slot \<Rightarrow> hash32 \<Rightarrow> u64 \<Rightarrow> bool" where
  "attested ops s r v \<longleftrightarrow> (\<exists>env ev. VoSingle env ev \<in> set ops \<and> sa_Slot ev = s \<and> sa_BeaconBlockRoot ev = r \<and>
     sa_AttesterIndex ev = v)"

definition root_ok :: "vote_op list \<Rightarrow> slot \<Rightarrow> slotCommitteeLayout \<Rightarrow> hash32 \<Rightarrow> rootVoteState \<Rightarrow> bool" where
  "root_ok ops s l r rs \<longleftrightarrow>
     (let n = lay_totalMembers l; voters = members_set n (rv_voteBits rs) in
      length (rv_voteBits rs) = length (new_bitmap n) \<and> length (rv_voteTimes rs) = n \<and>
      rv_voteCount rs = int (length voters) \<and>
      unat (rv_participatingETH rs) = sum_list (map (\<lambda>p. unat (lay_weights l ! p)) voters) \<and>
      (\<forall>p \<in> set voters. attested ops s r (lay_validators l ! p)) \<and>
      (\<forall>p < n. rv_voteTimes rs ! p \<noteq> 0 \<longleftrightarrow> isBitSet (rv_voteBits rs) p))"

definition roots_ok :: "vote_op list \<Rightarrow> slot \<Rightarrow> slotVoteState \<Rightarrow> bool" where
  "roots_ok ops s st \<longleftrightarrow>
     layout_ok (sv_layout st) \<and> distinct (map fst (sv_roots st)) \<and> length (sv_roots st) \<le> maxTrackedRootsPerSlot \<and>
     (\<forall>r rs. map_of (sv_roots st) r = Some rs \<longrightarrow> root_ok ops s (sv_layout st) r rs)"

definition slot_ok :: "vote_op list \<Rightarrow> slot \<Rightarrow> slotVoteState \<Rightarrow> bool" where
  "slot_ok ops s st \<longleftrightarrow>
     roots_ok ops s st \<and> (sv_headRoot st = zero_root \<or> map_of (sv_roots st) (sv_headRoot st) \<noteq> None)"

text \<open>An update tells the truth about some set of attesters of the slot.\<close>

definition update_for :: "vote_op list \<Rightarrow> HeadVoteUpdate \<Rightarrow> slotCommitteeLayout \<Rightarrow> nat list \<Rightarrow> bool" where
  "update_for ops u l voters \<longleftrightarrow>
     layout_ok l \<and> distinct voters \<and> set voters \<subseteq> {..<lay_totalMembers l} \<and>
     (\<forall>p \<in> set voters. attested ops (hv_Slot u) (hv_BlockRoot u) (lay_validators l ! p)) \<and>
     unat (hv_ParticipationETH u) = sum_list (map (\<lambda>p. unat (lay_weights l ! p)) voters) \<and>
     hv_VoteCount u = int (length voters) \<and> hv_TotalMembers u = lay_totalMembers l \<and>
     hv_TotalSlotETH u = lay_totalSlotETH l \<and>
     hv_ParticipationPct u = (if hv_TotalSlotETH u = 0 then 0 else pct_of (hv_ParticipationETH u) (hv_TotalSlotETH u)) \<and>
     (hv_ThresholdMet u \<longleftrightarrow> 0 < hv_ThresholdPct u \<and> hv_ThresholdPct u \<le> hv_ParticipationPct u)"

definition update_ok :: "vote_op list \<Rightarrow> HeadVoteUpdate \<Rightarrow> bool" where
  "update_ok ops u \<longleftrightarrow> (\<exists>l voters. update_for ops u l voters)"

definition tracker_ok :: "vote_op list \<Rightarrow> HeadVoteTracker \<Rightarrow> bool" where
  "tracker_ok ops t \<longleftrightarrow> (\<forall>s. pred_option (slot_ok ops s) (hvt_slotStates t s)) \<and> list_all (update_ok ops) (hvt_updates t)"

lemma attested_mono: "attested ops s r v \<Longrightarrow> set ops \<subseteq> set ops' \<Longrightarrow> attested ops' s r v"
  unfolding attested_def by blast

lemma root_ok_mono: "root_ok ops s l r rs \<Longrightarrow> set ops \<subseteq> set ops' \<Longrightarrow> root_ok ops' s l r rs"
  unfolding root_ok_def Let_def by (blast intro: attested_mono)

lemma update_ok_mono: "update_ok ops u \<Longrightarrow> set ops \<subseteq> set ops' \<Longrightarrow> update_ok ops' u"
  unfolding update_ok_def update_for_def [abs_def] by (elim exE, intro exI) (auto intro: attested_mono)

lemma tracker_ok_mono:
  assumes "tracker_ok ops t" "set ops \<subseteq> set ops'"
  shows "tracker_ok ops' t"
proof -
  have "slot_ok ops' s st" if "slot_ok ops s st" for s st
    using that root_ok_mono [OF _ assms(2)] unfolding slot_ok_def roots_ok_def by blast
  then show ?thesis
    using assms(1) update_ok_mono [OF _ assms(2)]
    by (auto simp: tracker_ok_def list_all_iff intro: option.pred_mono_strong)
qed

lemma tracker_okD: "tracker_ok ops t \<Longrightarrow> hvt_slotStates t s = Some st \<Longrightarrow> slot_ok ops s st"
  by (metis tracker_ok_def option.pred_inject(2))

lemma new_root_ok: "root_ok ops s l r (new_root l)"
  by (simp add: root_ok_def new_root_def members_set_def Let_def)

lemma roots_okD: "roots_ok ops s st \<Longrightarrow> map_of (sv_roots st) r = Some rs \<Longrightarrow> root_ok ops s (sv_layout st) r rs"
  unfolding roots_ok_def by blast

lemma roots_ok_head [simp]: "roots_ok ops s (st\<lparr>sv_headRoot := r\<rparr>) = roots_ok ops s st"
  by (simp add: roots_ok_def)

lemma map_of_set_root: "map_of (sv_roots (set_root r rs st)) = (map_of (sv_roots st))(r \<mapsto> rs)"
  by (simp add: set_root_def update_conv')

lemma set_root_sel [simp]:
  "sv_layout (set_root r rs st) = sv_layout st" "sv_headRoot (set_root r rs st) = sv_headRoot st"
  by (simp_all add: set_root_def)

lemma roots_ok_set_root:
  assumes "roots_ok ops s st" "root_ok ops s (sv_layout st) r rs"
    and "map_of (sv_roots st) r \<noteq> None \<or> length (sv_roots st) < maxTrackedRootsPerSlot"
  shows "roots_ok ops s (set_root r rs st)"
proof -
  have "length (AList.update r v xs) = length xs + (if map_of xs r = None then 1 else 0)" for v :: rootVoteState and xs
    by (induction xs) auto
  then have "length (sv_roots (set_root r rs st)) \<le> maxTrackedRootsPerSlot"
    using assms(1,3) by (auto simp: roots_ok_def set_root_def)
  moreover have "distinct (map fst (sv_roots (set_root r rs st)))"
    using assms(1) by (simp add: roots_ok_def set_root_def distinct_update)
  ultimately show ?thesis using assms(1,2) by (auto simp: roots_ok_def map_of_set_root)
qed

lemma slot_ok_set_root:
  assumes "slot_ok ops s st" "root_ok ops s (sv_layout st) r rs" "map_of (sv_roots st) r \<noteq> None"
  shows "slot_ok ops s (set_root r rs st)"
  using assms roots_ok_set_root [of ops s st r rs] by (auto simp: slot_ok_def map_of_set_root)

lemma tracker_ok_set_slot:
  "tracker_ok ops t \<Longrightarrow> slot_ok ops s st \<Longrightarrow> tracker_ok ops (set_slot s st t)"
  by (simp add: tracker_ok_def set_slot_def)

lemma getOrCreateRootState_ok:
  assumes "roots_ok ops s st" "getOrCreateRootState st r = (res, st')"
  shows "roots_ok ops s st'" "sv_layout st' = sv_layout st" "sv_headRoot st' = sv_headRoot st"
    "pred_option (\<lambda>rs. root_ok ops s (sv_layout st) r rs \<and> map_of (sv_roots st') r = Some rs) res"
    "map_of (sv_roots st) h \<noteq> None \<Longrightarrow> map_of (sv_roots st') h \<noteq> None"
    "length (sv_roots st) < maxTrackedRootsPerSlot \<Longrightarrow> res \<noteq> None"
proof -
  have "roots_ok ops s (set_root r (new_root (sv_layout st)) st)" if "length (sv_roots st) < maxTrackedRootsPerSlot"
    using roots_ok_set_root [OF assms(1) new_root_ok] that by blast
  moreover have "map_of (sv_roots st) r = Some (the res) \<and> res \<noteq> None \<and> st' = st \<or>
      maxTrackedRootsPerSlot \<le> length (sv_roots st) \<and> res = None \<and> st' = st \<or>
      length (sv_roots st) < maxTrackedRootsPerSlot \<and> res = Some (new_root (sv_layout st)) \<and>
      st' = set_root r (new_root (sv_layout st)) st"
    using assms(2) [symmetric] by (cases "map_of (sv_roots st) r") (auto simp: getOrCreateRootState_def split: if_splits)
  ultimately show "roots_ok ops s st'" "sv_layout st' = sv_layout st" "sv_headRoot st' = sv_headRoot st"
    "pred_option (\<lambda>rs. root_ok ops s (sv_layout st) r rs \<and> map_of (sv_roots st') r = Some rs) res"
    "map_of (sv_roots st) h \<noteq> None \<Longrightarrow> map_of (sv_roots st') h \<noteq> None"
    "length (sv_roots st) < maxTrackedRootsPerSlot \<Longrightarrow> res \<noteq> None"
    using assms(1) roots_okD [OF assms(1)] by (auto simp: map_of_set_root new_root_ok)
qed

lemma getOrCreateRootState_slot_ok:
  assumes "slot_ok ops s st" "getOrCreateRootState st r = (res, st')"
  shows "slot_ok ops s st'"
  using getOrCreateRootState_ok [OF _ assms(2), of ops s] assms(1) by (auto simp: slot_ok_def)

text \<open>Epoch statistics the tracker can build a layout from.\<close>

definition stats_ok :: "EpochStats \<Rightarrow> bool" where
  "stats_ok stats \<longleftrightarrow>
     length (es_EffectiveBalances stats) = length (es_ActiveIndices stats) \<and> length (es_ActiveIndices stats) \<le> 2 ^ 31 \<and>
     (case es_AttesterDuties stats of None \<Rightarrow> True | Some duties \<Rightarrow>
        distinct (concat (concat duties)) \<and> list_all (\<lambda>a. unat a < length (es_ActiveIndices stats)) (concat (concat duties)))"

lemma layout_members_ok:
  assumes "list_all (\<lambda>a. unat a < length (es_ActiveIndices stats)) as"
    and "length (es_EffectiveBalances stats) = length (es_ActiveIndices stats)"
  shows "\<exists>ms. layout_members stats as = Some ms \<and> length ms = length as"
  using assms(1) by (induction as) (auto simp: assms(2))

lemma offsets_from_props:
  "length (offsets_from n cs) = length cs"
  "ci < length cs \<Longrightarrow> offsets_from n cs ! ci + length (cs ! ci) \<le> n + length (concat cs)"
proof -
  show "length (offsets_from n cs) = length cs" by (induction cs arbitrary: n) auto
  show "ci < length cs \<Longrightarrow> offsets_from n cs ! ci + length (cs ! ci) \<le> n + length (concat cs)"
  proof (induction cs arbitrary: n ci)
    case (Cons c cs)
    then show ?case
      by (cases ci) (use Cons.IH [of "ci - 1" "n + length c"] in \<open>auto simp: add.assoc\<close>)
  qed simp
qed

lemma unat_sum_ucast:
  fixes ws :: "u32 list"
  assumes "length ws \<le> 2 ^ 32"
  shows "unat (sum_list (map ucast ws) :: u64) = sum_list (map unat ws)"
proof -
  have bound: "sum_list (map unat ws) \<le> length ws * (2 ^ 32 - 1)" for ws :: "u32 list"
  proof (induction ws)
    case (Cons w ws)
    have "unat w < 2 ^ 32" using unsigned_less [of w, where ?'a = nat] by simp
    then show ?case using Cons.IH by simp
  qed simp
  have "unat (ucast w :: u64) = unat w" for w :: u32
    using unsigned_less [of w, where ?'a = nat] by (simp add: unsigned_ucast_eq take_bit_nat_eq_self)
  then have "unat (sum_list (map ucast ws) :: u64) = sum_list (map unat ws)" if "length ws \<le> 2 ^ 32" for ws :: "u32 list"
    using that
  proof (induction ws)
    case (Cons w ws)
    have "sum_list (map unat (w # ws)) < 2 ^ 64"
      using bound [of "w # ws"] mult_le_mono1 [OF Cons.prems(2), of "2 ^ 32 - 1"] by simp
    then show ?case
      using Cons by (simp add: unat_add_lem [THEN iffD1])
  qed simp
  then show ?thesis using assms by blast
qed

lemma unat_of_nat_le: "unat (of_nat n :: u64) \<le> n"
  by (simp add: unat_of_nat)

lemma i32_of_nat_small: "n < 2 ^ 31 \<Longrightarrow> i32_of_nat n = int n"
  by (simp add: i32_of_nat_def)

lemma layout_of_ok:
  assumes "length members = length (concat committees)" "length members \<le> 2 ^ 31"
  shows "layout_ok (layout_of committees members)"
proof -
  let ?l = "layout_of committees members" and ?n = "length members"
  have pos: "0 \<le> p \<and> nat p < ?n \<and> map fst members ! nat p = v" if "lay_positions ?l v = Some p" for v p
  proof -
    from that have "(v, p) \<in> set (zip (map fst members) (map i32_of_nat [0..<?n]))"
      by (auto simp: layout_of_def dest: map_of_SomeD)
    then obtain k where "k < ?n" "v = fst (members ! k)" "p = i32_of_nat k" by (auto simp: set_zip)
    then show ?thesis using assms(2) by (simp add: i32_of_nat_small)
  qed
  have "unat (sum_list (map (\<lambda>m. ucast (snd m)) members) :: u64) = sum_list (map (\<lambda>m. unat (snd m)) members)"
    using unat_sum_ucast [of "map snd members"] assms(2) by (simp add: o_def)
  also have "\<dots> = sum_list (map (\<lambda>p. unat (snd (members ! p))) [0..<?n])"
    by (metis (mono_tags, lifting) map_nth map_map comp_apply map_eq_conv)
  also have "map (\<lambda>p. unat (snd (members ! p))) [0..<?n] = map (\<lambda>p. unat (lay_weights ?l ! p)) [0..<?n]"
    by (rule map_cong) (auto simp: layout_of_def)
  finally have eth: "unat (lay_totalSlotETH ?l) = sum_list (map (\<lambda>p. unat (lay_weights ?l ! p)) [0..<?n])"
    by (simp add: layout_of_def)
  have "offsets_from 0 committees ! ci + map length committees ! ci \<le> ?n" if "ci < length committees" for ci
    using offsets_from_props(2) [OF that, of 0] that assms(1) by simp
  then show ?thesis
    using assms pos eth offsets_from_props(1) [of 0 committees]
    by (auto simp: layout_ok_def simp del: nth_map) (auto simp: layout_of_def simp del: nth_map)
qed

lemma buildCommitteeLayout_ok:
  assumes "0 < SlotsPerEpoch (hve_spec env)" "pred_option stats_ok (hve_stats env (GetEpochOfSlot (hve_spec env) s))"
  shows "\<exists>l. buildCommitteeLayout env s = Returns l \<and> pred_option layout_ok l"
proof (cases "hve_stats env (GetEpochOfSlot (hve_spec env) s)")
  case None
  then show ?thesis using assms(1) by (simp add: buildCommitteeLayout_def)
next
  case (Some stats)
  then have ok: "stats_ok stats" using assms(2) by simp
  show ?thesis
  proof (cases "es_AttesterDuties stats")
    case None
    then show ?thesis using Some assms(1) by (simp add: buildCommitteeLayout_def)
  next
    case (Some duties)
    let ?i = "s mod SlotsPerEpoch (hve_spec env)"
    show ?thesis
    proof (cases "?i \<ge> of_nat (length duties)")
      case True
      then show ?thesis using assms(1) \<open>hve_stats env _ = Some stats\<close> Some by (simp add: buildCommitteeLayout_def Let_def)
    next
      case False
      then have "unat ?i < length duties"
        using unat_of_nat_le [of "length duties"] by (simp add: not_le word_less_nat_alt)
      then have mem: "duties ! unat ?i \<in> set duties" by simp
      note sub = member_concat [OF mem]
      have idx: "list_all (\<lambda>a. unat a < length (es_ActiveIndices stats)) (concat (duties ! unat ?i))"
        using ok sub Some by (auto simp: stats_ok_def list_all_iff simp del: set_concat)
      have "card (set (concat (concat duties))) \<le> card ((\<lambda>n. of_nat n :: u32) ` {..<length (es_ActiveIndices stats)})"
        using ok Some
        by (intro card_mono subsetI image_eqI [of _ _ "unat _"]) (auto simp: stats_ok_def list_all_iff simp del: set_concat)
      then have "length (concat (concat duties)) \<le> length (es_ActiveIndices stats)"
        using ok Some card_image_le [of "{..<length (es_ActiveIndices stats)}" "\<lambda>n. of_nat n :: u32"]
        by (simp add: stats_ok_def distinct_card [symmetric] del: set_concat)
      then have len: "length (concat (duties ! unat ?i)) \<le> 2 ^ 31" using sub ok by (simp add: stats_ok_def)
      obtain ms where "layout_members stats (concat (duties ! unat ?i)) = Some ms" "length ms = length (concat (duties ! unat ?i))"
        using layout_members_ok [OF idx] ok by (auto simp: stats_ok_def)
      then show ?thesis
        using assms(1) \<open>hve_stats env _ = Some stats\<close> Some False len layout_of_ok [of ms "duties ! unat ?i"]
        by (simp add: buildCommitteeLayout_def Let_def)
    qed
  qed
qed

section \<open>The operations keep the invariant\<close>

lemma voteTimeOffset_nonzero: "voteTimeOffset env s receivedAt \<noteq> 0"
proof -
  have "word_of_int k \<noteq> (0 :: 16 word)" if "0 < k" "k \<le> 65535" for k
  proof
    assume "word_of_int k = (0 :: 16 word)"
    then have "uint (word_of_int k :: 16 word) = 0" by simp
    then show False using that by (simp add: unsigned_of_int take_bit_int_eq_self)
  qed
  then have "(if k < 1 then 1 else if k > 65535 then 65535 else word_of_int k) \<noteq> (0 :: 16 word)" for k by simp
  then show ?thesis unfolding voteTimeOffset_def Let_def .
qed

lemma merge_vote_ok:
  assumes ok: "root_ok ops (sa_Slot ev) l (sa_BeaconBlockRoot ev) rs" and l: "layout_ok l"
    and pos: "pos < lay_totalMembers l" "\<not> isBitSet (rv_voteBits rs) pos"
    and att: "attested ops (sa_Slot ev) (sa_BeaconBlockRoot ev) (lay_validators l ! pos)"
  shows "root_ok ops (sa_Slot ev) l (sa_BeaconBlockRoot ev) (merge_vote env ev pos l rs)"
proof -
  let ?n = "lay_totalMembers l" and ?m = "rv_voteBits rs" and ?w = "\<lambda>p. unat (lay_weights l ! p)"
  have len: "length ?m = length (new_bitmap ?n)" using ok by (simp add: root_ok_def Let_def)
  note add = sum_members_setBit [OF pos(1) new_bitmap_covers [OF pos(1), folded len] pos(2)]
  have count: "length (members_set ?n (setBit ?m pos)) = length (members_set ?n ?m) + 1"
    using add [of "\<lambda>_. 1 :: nat"] by (simp add: sum_list_triv)
  have "unat (ucast (lay_weights l ! pos) :: u64) = ?w pos"
    using unat_sum_ucast [of "[lay_weights l ! pos]"] by simp
  moreover have "sum_list (map ?w (members_set ?n (setBit ?m pos))) < 2 ^ 64"
    using members_set_mono [of ?w ?n "setBit ?m pos"] l unsigned_less [of "lay_totalSlotETH l", where ?'a = nat]
    by (simp add: layout_ok_def)
  ultimately have eth: "unat (rv_participatingETH rs + ucast (lay_weights l ! pos)) =
      sum_list (map ?w (members_set ?n (setBit ?m pos)))"
    using ok by (simp add: add root_ok_def Let_def unat_add_lem [THEN iffD1])
  have "isBitSet (setBit ?m pos) p \<longleftrightarrow> isBitSet ?m p \<or> p = pos" for p
    using new_bitmap_covers [OF pos(1), folded len] by (auto simp: isBitSet_setBit)
  then show ?thesis
    using ok pos(1) att count eth voteTimeOffset_nonzero
    by (auto simp: root_ok_def merge_vote_def Let_def members_set_def nth_list_update)
qed

lemma buildUpdate_ok:
  assumes "root_ok ops s l r rs" "layout_ok l"
  shows "update_ok ops (buildUpdate env s r l rs)"
proof -
  have "update_for ops (buildUpdate env s r l rs) l (members_set (lay_totalMembers l) (rv_voteBits rs))"
    using assms by (auto simp: update_for_def root_ok_def buildUpdate_def Let_def members_set_def participationPct_def)
  then show ?thesis unfolding update_ok_def by blast
qed

text \<open>A change of a root state that keeps its votes keeps the invariant.\<close>

lemma root_ok_flags [simp]:
  "root_ok ops s l r (rs\<lparr>rv_lastFiredPct := x\<rparr>) = root_ok ops s l r rs"
  "root_ok ops s l r (rs\<lparr>rv_thresholdFired := b\<rparr>) = root_ok ops s l r rs"
  "root_ok ops s l r (rs\<lparr>rv_dirty := b\<rparr>) = root_ok ops s l r rs"
  "root_ok ops s l r (rs\<lparr>rv_blockBits := m\<rparr>) = root_ok ops s l r rs"
  by (simp_all add: root_ok_def Let_def)

lemma fire_ok:
  assumes "tracker_ok ops t" "slot_ok ops s st" "root_ok ops s (sv_layout st) r rs" "map_of (sv_roots st) r \<noteq> None"
  shows "tracker_ok ops (fire env s r st rs t)"
proof -
  have "update_ok ops (buildUpdate env s r (sv_layout st) rs)"
    using buildUpdate_ok [OF assms(3)] assms(2) by (simp add: slot_ok_def roots_ok_def)
  then have "tracker_ok ops (t\<lparr>hvt_updates := hvt_updates t @ [buildUpdate env s r (sv_layout st) rs]\<rparr>)"
    using assms(1) by (simp add: tracker_ok_def)
  then show ?thesis
    unfolding fire_def Let_def using assms by (intro tracker_ok_set_slot slot_ok_set_root) auto
qed

lemma maybeFireThreshold_ok:
  assumes "tracker_ok ops t" "slot_ok ops s st" "root_ok ops s (sv_layout st) r rs" "map_of (sv_roots st) r \<noteq> None"
  shows "tracker_ok ops (maybeFireThreshold env s r st rs t)"
proof -
  have "slot_ok ops s (set_root r rs' st)" if "root_ok ops s (sv_layout st) r rs'" for rs'
    using slot_ok_set_root [OF assms(2) that] assms(4) by blast
  then show ?thesis
    using assms by (auto simp: maybeFireThreshold_def Let_def map_of_set_root intro!: tracker_ok_set_slot fire_ok)
qed

text \<open>What the tracker relies on: a sane chain spec, consistent statistics, and loops that visit every root.\<close>

definition env_ok :: "vote_env \<Rightarrow> bool" where
  "env_ok env \<longleftrightarrow> 0 < SlotsPerEpoch (hve_spec env) \<and> (\<forall>e. pred_option stats_ok (hve_stats env e)) \<and>
     (\<forall>rs. set (hve_order env rs) = set rs)"

lemma getOrCreateSlotState_ok:
  assumes "tracker_ok ops t" "env_ok env"
  obtains res t' where "getOrCreateSlotState env s t = Returns (res, t')" "tracker_ok ops t'"
    "pred_option (\<lambda>st. slot_ok ops s st \<and> hvt_slotStates t' s = Some st) res"
proof (cases "hvt_slotStates t s")
  case (Some st)
  then have "slot_ok ops s st" using tracker_okD [OF assms(1)] by simp
  then show ?thesis using that [of "Some st" t] Some assms(1) by (simp add: getOrCreateSlotState_def)
next
  case None
  obtain l where l: "buildCommitteeLayout env s = Returns l" "pred_option layout_ok l"
    using buildCommitteeLayout_ok [of env s] assms(2) by (auto simp: env_ok_def)
  have new: "slot_ok ops s \<lparr>sv_layout = x, sv_roots = [], sv_headRoot = zero_root\<rparr>" if "layout_ok x" for x
    using that by (simp add: slot_ok_def roots_ok_def)
  have "\<exists>res t'. getOrCreateSlotState env s t = Returns (res, t') \<and> tracker_ok ops t' \<and>
      pred_option (\<lambda>st. slot_ok ops s st \<and> hvt_slotStates t' s = Some st) res"
    using None l assms(1) new
    by (cases l) (simp_all add: getOrCreateSlotState_def Let_def tracker_ok_set_slot, simp_all add: set_slot_def)
  then show ?thesis using that by blast
qed

lemma handleSingleAttestation_ok:
  assumes "tracker_ok ops t" "env_ok env" "uint (sa_CommitteeIndex ev) < 2 ^ 63" "VoSingle env ev \<in> set ops"
  shows "\<exists>t'. handleSingleAttestation env ev t = Returns t' \<and> tracker_ok ops t'"
proof -
  let ?s = "sa_Slot ev" and ?r = "sa_BeaconBlockRoot ev"
  obtain res t1 where g: "getOrCreateSlotState env ?s t = Returns (res, t1)" and t1: "tracker_ok ops t1"
    and res: "pred_option (\<lambda>st. slot_ok ops ?s st \<and> hvt_slotStates t1 ?s = Some st) res"
    using getOrCreateSlotState_ok [OF assms(1,2)] .
  show ?thesis
  proof (cases res)
    case None
    then show ?thesis using g t1 by (simp add: handleSingleAttestation_def)
  next
    case (Some st)
    then have st: "slot_ok ops ?s st" using res by simp
    obtain rsopt st1 where gr: "getOrCreateRootState st ?r = (rsopt, st1)" by force
    have "roots_ok ops ?s st" using st by (simp add: slot_ok_def)
    note st1 = getOrCreateRootState_slot_ok [OF st gr] getOrCreateRootState_ok(2,4) [OF this gr]
    have l: "layout_ok (sv_layout st1)" using st1(1) by (simp add: slot_ok_def roots_ok_def)
    have "0 \<le> i64_of_u64 (sa_CommitteeIndex ev)" using i64_of_u64_small [of "sa_CommitteeIndex ev"] assms(3) by (simp add: max_i64_def)
    then have ca: "committee_accepts (sv_layout st1) (sa_CommitteeIndex ev) pos \<noteq> None" for pos
      by (simp add: committee_accepts_def Let_def del: not_None_eq)
    have "tracker_ok ops (maybeFireThreshold env ?s ?r st1 (merge_vote env ev (nat pos) (sv_layout st1) rs) (set_slot ?s st1 t1))"
      if "rsopt = Some rs" "lay_positions (sv_layout st1) (sa_AttesterIndex ev) = Some pos"
        "\<not> isBitSet (rv_voteBits rs) (nat pos)" for rs pos
    proof (intro maybeFireThreshold_ok merge_vote_ok tracker_ok_set_slot t1 st1(1) l)
      have "nat pos < lay_totalMembers (sv_layout st1) \<and> lay_validators (sv_layout st1) ! nat pos = sa_AttesterIndex ev"
        using l that(2) by (simp add: layout_ok_def)
      then show "nat pos < lay_totalMembers (sv_layout st1)"
        "attested ops ?s ?r (lay_validators (sv_layout st1) ! nat pos)"
        using assms(4) by (auto simp: attested_def)
    qed (use st1 that in auto)
    then show ?thesis
      using g gr Some t1 st1(1) ca
      by (auto simp: handleSingleAttestation_def Let_def tracker_ok_set_slot simp del: not_None_eq
          split: option.splits bool.splits)
  qed
qed

text \<open>The loops over the roots find one whenever there is one.\<close>

lemma fold_pick_root:
  assumes "pred_option (\<lambda>(r, rs). map_of roots r = Some rs) best"
  shows "pred_option (\<lambda>(r, rs). map_of roots r = Some rs) (fold (pick_root better roots) keys best) \<and>
    (fold (pick_root better roots) keys best = None \<longrightarrow> best = None \<and> (\<forall>k \<in> set keys. map_of roots k = None))"
  using assms
proof (induction keys arbitrary: best)
  case (Cons k keys)
  have "pred_option (\<lambda>(r, rs). map_of roots r = Some rs) (pick_root better roots k best)"
    using Cons.prems by (auto simp: pick_root_def split: option.splits)
  moreover have "pick_root better roots k best = None \<longleftrightarrow> best = None \<and> map_of roots k = None"
    by (auto simp: pick_root_def split: option.splits)
  ultimately show ?case using Cons.IH [of "pick_root better roots k best"] by auto
qed simp

lemma primary_tracked: "primary env st = Some (r, rs) \<Longrightarrow> map_of (sv_roots st) r = Some rs"
  using fold_pick_root [of "sv_roots st" None "(>)" "hve_order env (map fst (sv_roots st))"]
  by (auto simp: primary_def split: option.splits)

lemma evictLeastVotedRoot_ok:
  assumes "roots_ok ops s st" "env_ok env"
  shows "roots_ok ops s (evictLeastVotedRoot env st)" "sv_headRoot (evictLeastVotedRoot env st) = sv_headRoot st"
    "length (sv_roots (evictLeastVotedRoot env st)) < maxTrackedRootsPerSlot"
proof -
  let ?keys = "hve_order env (map fst (sv_roots st))"
  note pick = fold_pick_root [of "sv_roots st" None "(<)" ?keys]
  have keys: "set ?keys = fst ` set (sv_roots st)" using assms(2) by (simp add: env_ok_def)
  have "roots_ok ops s (st\<lparr>sv_roots := AList.delete v (sv_roots st)\<rparr>)" for v
    using assms(1) order_trans [OF length_delete_le [of v "sv_roots st"]]
    by (auto simp: roots_ok_def distinct_delete delete_conv' simp del: map_of_eq_Some_iff split: if_splits)
  then show "roots_ok ops s (evictLeastVotedRoot env st)" "sv_headRoot (evictLeastVotedRoot env st) = sv_headRoot st"
    using assms(1) by (auto simp: evictLeastVotedRoot_def split: option.splits)
  show "length (sv_roots (evictLeastVotedRoot env st)) < maxTrackedRootsPerSlot"
  proof (cases "fold (pick_root (<) (sv_roots st)) ?keys None")
    case None
    then have "sv_roots st = []" using pick keys by (cases "sv_roots st") (auto simp: map_of_eq_None_iff)
    then show ?thesis using None by (simp add: evictLeastVotedRoot_def maxTrackedRootsPerSlot_def)
  next
    case (Some v)
    then have "fst v \<in> fst ` set (sv_roots st)" using pick by (cases v) (auto dest!: map_of_SomeD intro: rev_image_eqI)
    then have "length (AList.delete (fst v) (sv_roots st)) < length (sv_roots st)"
      by (auto simp: AList.delete_eq intro!: length_filter_less)
    then show ?thesis using Some assms(1) by (cases v) (simp add: evictLeastVotedRoot_def roots_ok_def)
  qed
qed

lemma name_head_ok:
  assumes "tracker_ok ops t" "slot_ok ops s st" "env_ok env"
  shows "tracker_ok ops (name_head env s block st t)"
proof (cases "sv_headRoot st = block")
  case False
  let ?st = "st\<lparr>sv_headRoot := block\<rparr>"
  have roots: "roots_ok ops s ?st" using assms(2) by (simp add: slot_ok_def)
  obtain rs st' where sel: "(case getOrCreateRootState ?st block of (Some rs, st) \<Rightarrow> (Some rs, st)
      | (None, st) \<Rightarrow> getOrCreateRootState (evictLeastVotedRoot env st) block) = (Some rs, st')"
    and st': "roots_ok ops s st'" "sv_headRoot st' = block" "root_ok ops s (sv_layout st') block rs"
      "map_of (sv_roots st') block = Some rs"
  proof (cases "getOrCreateRootState ?st block")
    case (Pair res st1)
    note g = getOrCreateRootState_ok [OF roots Pair]
    show ?thesis
    proof (cases res)
      case (Some rs)
      then show ?thesis using that [of rs st1] Pair g by simp
    next
      case None
      note e = evictLeastVotedRoot_ok [OF g(1) assms(3)]
      obtain res2 st2 where g2: "getOrCreateRootState (evictLeastVotedRoot env st1) block = (res2, st2)" by force
      note h = getOrCreateRootState_ok [OF e(1) g2]
      obtain rs where "res2 = Some rs" using h(6) [OF e(3)] by blast
      then show ?thesis using that [of rs st2] Pair None g2 g(3) e(2) h by simp
    qed
  qed
  have slot: "slot_ok ops s st'" using st' by (simp add: slot_ok_def)
  have fired: "tracker_ok ops (maybeFireThreshold env s block st' rs t)"
    using maybeFireThreshold_ok [OF assms(1) slot st'(3)] st'(4) by simp
  have "tracker_ok ops (set_slot s (set_root block (rs'\<lparr>rv_dirty := True\<rparr>) st'') t'')"
    if "tracker_ok ops t''" "hvt_slotStates t'' s = Some st''" "map_of (sv_roots st'') block = Some rs'" for t'' st'' rs'
  proof -
    have "slot_ok ops s st''" using that(1,2) by (rule tracker_okD)
    moreover from this have "root_ok ops s (sv_layout st'') block rs'" using that(3) roots_okD by (auto simp: slot_ok_def)
    ultimately show ?thesis using that by (intro tracker_ok_set_slot slot_ok_set_root) auto
  qed
  then show ?thesis using False sel fired by (simp add: name_head_def Let_def split: option.split)
qed (simp add: name_head_def assms(1))

lemma votes_handleHeadEvent_ok:
  assumes "tracker_ok ops t" "env_ok env"
  shows "\<exists>t'. votes_handleHeadEvent env s block t = Returns t' \<and> tracker_ok ops t'"
proof -
  obtain res t1 where g: "getOrCreateSlotState env s t = Returns (res, t1)" and t1: "tracker_ok ops t1"
    and res: "pred_option (\<lambda>st. slot_ok ops s st \<and> hvt_slotStates t1 s = Some st) res"
    using getOrCreateSlotState_ok [OF assms] .
  have "tracker_ok ops (case res of None \<Rightarrow> t1 | Some st \<Rightarrow> name_head env s block st t1)"
    using t1 res name_head_ok [OF t1 _ assms(2)] by (auto split: option.split)
  then have "tracker_ok ops (t'\<lparr>hvt_slotStates := range_delete P (hvt_slotStates t'), hvt_fetchActive := b\<rparr>)"
    if "t' = (case res of None \<Rightarrow> t1 | Some st \<Rightarrow> name_head env s block st t1)" for t' P b
    unfolding that [symmetric] using tracker_okD [of ops t']
    by (auto simp: tracker_ok_def range_delete_def split: option.split)
  then show ?thesis by (simp add: votes_handleHeadEvent_def g Let_def)
qed

lemma flushDirty_ok: "tracker_ok ops t \<Longrightarrow> tracker_ok ops (flushDirty env ks t)"
proof (induction ks arbitrary: t)
  case (Cons k ks)
  have "tracker_ok ops (fire env k r st rs t)"
    if "hvt_slotStates t k = Some st" "primary env st = Some (r, rs)" for st r rs
  proof (rule fire_ok [OF Cons.prems])
    show "slot_ok ops k st" using Cons.prems that(1) by (rule tracker_okD)
    then show "root_ok ops k (sv_layout st) r rs" "map_of (sv_roots st) r \<noteq> None"
      using primary_tracked [OF that(2)] roots_okD by (auto simp: slot_ok_def)
  qed
  then have "tracker_ok ops (flush_slot env k t)"
    using Cons.prems by (auto simp: flush_slot_def split: option.split)
  then show ?case using Cons.IH by (simp add: flushDirty_def)
qed (simp add: flushDirty_def)

lemma record_bitmap_ok:
  assumes "tracker_ok ops (fst tc)"
  shows "tracker_ok ops (fst (record_bitmap kb tc))"
proof -
  obtain s r m t changed where kb: "kb = ((s, r), m)" "tc = (t, changed)" by (metis prod.collapse)
  have t: "tracker_ok ops t" using assms kb by simp
  have keep: "tracker_ok ops (t'\<lparr>hvt_coverageSamples := x\<rparr>) = tracker_ok ops t'" for t' x
    by (simp add: tracker_ok_def)
  have "tracker_ok ops (set_slot s (set_root r (rs\<lparr>rv_blockBits := b\<rparr>) st') t)"
    if "hvt_slotStates t s = Some st" "getOrCreateRootState st r = (Some rs, st')" for st st' rs b
  proof -
    have st: "slot_ok ops s st" using t that(1) by (rule tracker_okD)
    then have "roots_ok ops s st" by (simp add: slot_ok_def)
    note g = getOrCreateRootState_slot_ok [OF st that(2)] getOrCreateRootState_ok(2,4) [OF this that(2)]
    then show ?thesis using t by (intro tracker_ok_set_slot slot_ok_set_root) auto
  qed
  then show ?thesis
    using t by (auto simp: record_bitmap_def kb Let_def keep split: option.split prod.split)
qed

lemma recordBlockAttestations_ok:
  assumes "tracker_ok ops t" "collect_bits t atts [] \<noteq> None"
  shows "\<exists>t'. recordBlockAttestations order atts t = Returns t' \<and> tracker_ok ops t'"
proof -
  have "tracker_ok ops (fst (fold record_bitmap bs tc))" if "tracker_ok ops (fst tc)" for bs tc
    using that by (induction bs arbitrary: tc) (simp_all add: record_bitmap_ok)
  from this [of "(t, False)"] have "tracker_ok ops (fst (fold record_bitmap bs (t, False)))" for bs
    using assms(1) by simp
  then show ?thesis
    using assms(2)
    by (auto simp: recordBlockAttestations_def flag_coverage_def Let_def tracker_ok_def split: prod.split)
       (metis fst_conv tracker_ok_def)+
qed

lemma collect_bits_returns:
  assumes "list_all (\<lambda>a. at_CommitteeBits a = None \<longrightarrow> uint (at_Index a) < 2 ^ 63) atts"
  shows "collect_bits t atts acc \<noteq> None"
  using assms
proof (induction atts arbitrary: acc)
  case (Cons a atts)
  have "0 \<le> i64_of_u64 (at_Index a)" if "at_CommitteeBits a = None"
    using i64_of_u64_small [of "at_Index a"] Cons.prems that by (simp add: max_i64_def)
  then have "walkAggregateBits l a \<noteq> None" for l
    by (cases "at_CommitteeBits a") (simp_all add: walkAggregateBits_def Let_def del: not_None_eq)
  then show ?case
    using Cons by (auto simp: Let_def simp del: not_None_eq split: option.split)
qed simp

section \<open>Correctness\<close>

fun op_ok :: "vote_op \<Rightarrow> bool" where
  "op_ok (VoSingle env ev) \<longleftrightarrow> env_ok env \<and> uint (sa_CommitteeIndex ev) < 2 ^ 63"
| "op_ok (VoHead env s block) \<longleftrightarrow> env_ok env"
| "op_ok (VoTick env ks) \<longleftrightarrow> True"
| "op_ok (VoMeasure order block) \<longleftrightarrow>
     pred_option (list_all (\<lambda>a. at_CommitteeBits a = None \<longrightarrow> uint (at_Index a) < 2 ^ 63)) block"

lemma vote_step_ok:
  assumes "tracker_ok ops t" "op_ok op" "op \<in> set ops"
  shows "\<exists>t'. vote_step op t = Returns t' \<and> tracker_ok ops t'"
proof (cases op)
  case (VoSingle env ev)
  then show ?thesis using handleSingleAttestation_ok [OF assms(1)] assms(2,3) by simp
next
  case (VoHead env s block)
  then show ?thesis using votes_handleHeadEvent_ok [OF assms(1)] assms(2) by simp
next
  case (VoTick env ks)
  then show ?thesis using flushDirty_ok [OF assms(1)] by simp
next
  case (VoMeasure order block)
  have keep: "tracker_ok ops (t'\<lparr>hvt_fetchActive := b\<rparr>) = tracker_ok ops t'" for t' b by (simp add: tracker_ok_def)
  have "\<exists>t'. (case block of None \<Rightarrow> Returns t | Some atts \<Rightarrow> recordBlockAttestations order atts t) = Returns t' \<and>
      tracker_ok ops t'"
    using recordBlockAttestations_ok [OF assms(1) collect_bits_returns] VoMeasure assms(1,2) by (cases block) auto
  then show ?thesis using VoMeasure by (auto simp: measureBlockCoverage_def keep)
qed

lemma vote_run_ok:
  assumes "tracker_ok ops t" "list_all op_ok todo" "set todo \<subseteq> set ops"
  shows "\<exists>t'. vote_run todo t = Returns t' \<and> tracker_ok ops t'"
  using assms
proof (induction todo arbitrary: t)
  case (Cons op todo)
  obtain t' where "vote_step op t = Returns t'" "tracker_ok ops t'" using vote_step_ok [of ops t op] Cons.prems by auto
  then show ?case using Cons.IH [of t'] Cons.prems by simp
qed simp

section \<open>Accuracy of the percentages\<close>

lemma pct_of_accurate:
  assumes "b \<noteq> 0"
  shows "\<bar>pct_of a b - 100 * of_int (uint a) / of_int (uint b)\<bar> \<le> 100 * of_int (uint a) / of_int (uint b) / 2 ^ 50"
proof -
  define A B :: rat where "A = of_int (uint a)" and "B = of_int (uint b)"
  have "0 < uint b" using assms by (simp add: word_neq_0_conv word_less_def)
  then have AB: "0 \<le> A" "0 < B" by (simp_all only: A_def B_def of_int_0_le_iff of_int_0_less_iff uint_ge_0)
  have "near_rel 3 (float_of_u64 a / float_of_u64 b) (A / B)"
    using AB within_float_of_u64 [of a] within_float_of_u64 [of b]
    by (intro within_divide) (simp_all only: A_def B_def)
  then have "near_rel 5 (float_div (float_of_u64 a) (float_of_u64 b)) (A / B)"
    using within_float64 [of 3 _ "A / B"] AB by (simp add: float_div_def)
  then have "near_rel 5 (float_div (float_of_u64 a) (float_of_u64 b) * 100) (A / B * 100)" by (rule within_scale) simp
  then have "near_rel 7 (pct_of a b) (A / B * 100)"
    using within_float64 [of 5 _ "A / B * 100"] AB by (simp add: pct_of_def float_mul_def)
  moreover define y where "y = A / B * 100"
  moreover have "y * (7 / 2 ^ 53) \<le> y * (1 / 2 ^ 50)" using AB by (intro mult_left_mono) (simp_all add: y_def)
  ultimately have "\<bar>pct_of a b - y\<bar> \<le> y / 2 ^ 50" by (simp add: near_rel_def abs_le_iff algebra_simps)
  then show ?thesis unfolding A_def [symmetric] B_def [symmetric] y_def by (simp add: mult.commute)
qed

lemma exact_share_misses_threshold: "pct_of 58 100 < 58"
proof -
  have "float64 (58 / 100) = of_int 5224175567749775 * two_powi (- 53)"
    using float64_eval [of "- 1" "58 / 100" 5224175567749775] by (simp add: two_powi_def)
  then have d: "float_div (float_of_u64 58) (float_of_u64 100) = 5224175567749775 / 2 ^ 53"
    using float_of_u64_exact [of 58] float_of_u64_exact [of 100] by (simp add: float_div_def two_powi_def)
  have "float64 (5224175567749775 / 2 ^ 53 * 100) = of_int 8162774324609023 * two_powi (- 47)"
    using float64_eval [of 5 "5224175567749775 / 2 ^ 53 * 100" 8162774324609023] by (simp add: two_powi_def)
  then show ?thesis unfolding pct_of_def d float_mul_def by (simp add: two_powi_def)
qed

section \<open>Properties\<close>

text \<open>The statistics of the chain service are what the tracker relies on.\<close>

lemma duties_ok_stats_ok:
  "duties_ok spec vs stats \<Longrightarrow> length (es_ActiveIndices stats) \<le> 2 ^ 31 \<Longrightarrow> stats_ok stats"
  by (auto simp: duties_ok_def stats_ok_def split: option.splits)


definition demo_vote_stats :: EpochStats where
  "demo_vote_stats = \<lparr>es_Version = DataVersionFulu, es_Epoch = 0, es_FinalizedEpoch = 0, es_StateSlot = 0,
     es_ActiveValidators = 2, es_ValidatorCount = 12, es_ActiveIndices = [7, 9], es_EffectiveBalances = [32, 64],
     es_Builders = [], es_TotalActiveBalance = 96, es_PendingDeposits = [], es_DepositBalanceToConsume = 0,
     es_Eth1DepositIndex = 0, es_DepositRequestsStartIndex = 0, es_RandaoMix = [], es_NextRandaoMix = [],
     es_ProposerDuties = [], es_AttesterDuties = Some [[[1], [0]]], es_PtcDuties = None\<rparr>"

definition demo_vote_env :: vote_env where
  "demo_vote_env = \<lparr>hve_spec = demo_spec, hve_genesisTime = 0, hve_cfg = None,
     hve_stats = (\<lambda>e. if e = 0 then Some demo_vote_stats else None), hve_now = 1000000000, hve_order = (\<lambda>rs. rs)\<rparr>"

definition demo_vote_ops :: "vote_op list" where
  "demo_vote_ops =
     [VoSingle demo_vote_env \<lparr>sa_Slot = 0, sa_CommitteeIndex = 1, sa_AttesterIndex = 7, sa_BeaconBlockRoot = [5],
        sa_ReceivedAt = 1000000000\<rparr>,
      VoHead demo_vote_env 0 [5], VoTick demo_vote_env [0],
      VoMeasure (\<lambda>bs. bs) (Some [\<lparr>at_AggregationBits = [1], at_Slot = 0, at_Index = 1, at_BeaconBlockRoot = [5],
        at_CommitteeBits = None\<rparr>])]"


text \<open>
  C19: The percentage of an update is accurate.  The participation computed in floating point differs
  from the exact share of the slot's attesting balance by at most one part in \<open>2^50\<close> of it, for all
  balances, and is zero when the slot has no balance; the threshold decision compares exactly this
  number with the configured percentage.\<close>
theorem participation_accurate:
  "let u = buildUpdate env s r l rs;
       exact = 100 * of_int (uint (rv_participatingETH rs)) / of_int (uint (lay_totalSlotETH l))
   in \<bar>hv_ParticipationPct u - exact\<bar> \<le> exact / 2 ^ 50 \<and>
      hv_ThresholdMet u = (0 < thresholdPct env \<and> thresholdPct env \<le> hv_ParticipationPct u)"
proof -
  let ?u = "buildUpdate env s r l rs"
  have met: "hv_ThresholdMet ?u = (0 < thresholdPct env \<and> thresholdPct env \<le> hv_ParticipationPct ?u)"
    by (simp add: buildUpdate_def Let_def)
  show ?thesis
  proof (cases "lay_totalSlotETH l = 0")
    case True
    then show ?thesis using met by (simp add: buildUpdate_def participationPct_def Let_def)
  next
    case False
    then have "hv_ParticipationPct ?u = pct_of (rv_participatingETH rs) (lay_totalSlotETH l)"
      by (simp add: buildUpdate_def participationPct_def Let_def)
    then show ?thesis unfolding Let_def met using pct_of_accurate [OF False] by metis
  qed
qed

end
