(* ===== verification/Deposit_Queue.thy ===== *)
theory Deposit_Queue
  imports Complex_Main Chain_Service Go_Codec
begin

text \<open>
  Deposits: \<open>pkg/lifecycle/pending_deposit_sim.go\<close> (does a deposit made now still wait in the
  queue at the fork?) and \<open>pkg/lifecycle/contract.go\<close> (calldata and queue fee of the builder
  system contracts).  Amounts are \<open>uint64\<close> gwei that wrap; big integers are \<open>nat\<close>, since the code
  only makes non-negative ones.  The reference for the simulation is the deposit processing of the
  chain itself, with unbounded amounts, a limit of finalized entries per epoch, a churn limit that
  may change, and entries that arrive behind ours.
\<close>

section \<open>Simulation of the queue\<close>

definition activationExitChurnLimit :: "u64 \<Rightarrow> u64 \<Rightarrow> u64 \<Rightarrow> u64 \<Rightarrow> u64 \<Rightarrow> u64" where
  "activationExitChurnLimit totalActiveBalance minPerEpochChurn churnQuotient maxActivationExitChurn effBalanceIncrement =
     (if churnQuotient = 0 then 0
      else
        let churn = max (totalActiveBalance div churnQuotient) minPerEpochChurn;
            churn = (if effBalanceIncrement > 0 then churn - churn mod effBalanceIncrement else churn)
        in if maxActivationExitChurn > 0 \<and> churn > maxActivationExitChurn then maxActivationExitChurn else churn)"

text \<open>The inner loop over one epoch: our entry is drained, or it stops with the new head.\<close>

datatype drain_result = OursDrained | Stopped nat u64 bool

function drain_epoch :: "u64 list \<Rightarrow> nat \<Rightarrow> u64 \<Rightarrow> u64 \<Rightarrow> nat \<Rightarrow> u64 \<Rightarrow> u64 \<Rightarrow> drain_result" where
  "drain_epoch sim ourIdx maxPerEpoch available head processed count =
     (if head \<ge> length sim then Stopped head processed False
      else if count \<ge> maxPerEpoch then Stopped head processed False
      else if processed + sim ! head > available then Stopped head processed True
      else if head + 1 > ourIdx then OursDrained
      else drain_epoch sim ourIdx maxPerEpoch available (head + 1) (processed + sim ! head) (count + 1))"
  by pat_completeness auto
termination by (relation "measure (\<lambda>(sim, _, _, _, head, _, _). length sim - head)") auto

fun sim_epochs :: "nat \<Rightarrow> u64 list \<Rightarrow> nat \<Rightarrow> u64 \<Rightarrow> u64 \<Rightarrow> nat \<Rightarrow> u64 \<Rightarrow> bool" where
  "sim_epochs 0 sim ourIdx churnLimit maxPerEpoch head dbtc = (head \<le> ourIdx)"
| "sim_epochs (Suc n) sim ourIdx churnLimit maxPerEpoch head dbtc =
     (case drain_epoch sim ourIdx maxPerEpoch (dbtc + churnLimit) head 0 0 of
        OursDrained \<Rightarrow> False
      | Stopped head processed churnLimited \<Rightarrow>
          sim_epochs n sim ourIdx churnLimit maxPerEpoch head
            (if churnLimited then (dbtc + churnLimit) - processed else 0))"

definition simulateDepositSurvives :: "u64 list \<Rightarrow> u64 \<Rightarrow> u64 \<Rightarrow> u64 \<Rightarrow> u64 \<Rightarrow> u64 \<Rightarrow> bool" where
  "simulateDepositSurvives queue ourAmount depositBalanceToConsume churnLimit maxPerEpoch transitions =
     (if maxPerEpoch = 0 then False
      else sim_epochs (unat transitions) (queue @ [ourAmount]) (length queue) churnLimit maxPerEpoch 0
             depositBalanceToConsume)"

definition stats_churn :: "EpochStats \<Rightarrow> ChainSpec \<Rightarrow> u64" where
  "stats_churn stats spec =
     activationExitChurnLimit (es_TotalActiveBalance stats) (MinPerEpochChurnLimit spec) (ChurnLimitQuotient spec)
       (MaxPerEpochActivationExitChurnLimit spec) (EffectiveBalanceIncrement spec)"

definition depositSurvivesUntilFork :: "EpochStats option \<Rightarrow> ChainSpec \<Rightarrow> u64 \<Rightarrow> epoch \<Rightarrow> bool" where
  "depositSurvivesUntilFork stats spec ourAmountGwei forkEpoch =
     (case stats of
        None \<Rightarrow> False
      | Some stats \<Rightarrow>
          if forkEpoch \<le> es_Epoch stats then False
          else if MaxPendingDepositsPerEpoch spec = 0 \<or> ChurnLimitQuotient spec = 0 then False
          else simulateDepositSurvives (map di_Amount (es_PendingDeposits stats)) ourAmountGwei
                 (es_DepositBalanceToConsume stats) (stats_churn stats spec)
                 (MaxPendingDepositsPerEpoch spec) (forkEpoch - es_Epoch stats))"

section \<open>System contracts\<close>

type_synonym address = "u8 list"

definition minRequestFee :: nat where
  "minRequestFee = 1"

definition feeUpdateFraction :: nat where
  "feeUpdateFraction = 17"

definition queueFeeHeadroom :: nat where
  "queueFeeHeadroom = 3"

definition builderWithdrawalPrefix :: u8 where
  "builderWithdrawalPrefix = 0xB0"

definition validatorWithdrawalPrefix :: u8 where
  "validatorWithdrawalPrefix = 0xB0"

definition excessInhibitor :: nat where
  "excessInhibitor = 2 ^ 256 - 1"

datatype calldata_error = PubkeyLength nat | CredentialsLength nat | SignatureLength nat

text \<open>\<open>binary.BigEndian.PutUint64\<close>\<close>

definition BigEndian_PutUint64 :: "u64 \<Rightarrow> u8 list" where
  "BigEndian_PutUint64 w = rev (PutUint64 w)"

definition BuildBuilderDepositCalldata ::
  "u8 list \<Rightarrow> u8 list \<Rightarrow> u64 \<Rightarrow> u8 list \<Rightarrow> calldata_error + u8 list" where
  "BuildBuilderDepositCalldata pubkey withdrawalCredentials amountGwei signature =
     (if length pubkey \<noteq> 48 then Inl (PubkeyLength (length pubkey))
      else if length withdrawalCredentials \<noteq> 32 then Inl (CredentialsLength (length withdrawalCredentials))
      else if length signature \<noteq> 96 then Inl (SignatureLength (length signature))
      else Inr (pubkey @ withdrawalCredentials @ BigEndian_PutUint64 amountGwei @ signature))"

definition BuildBuilderExitCalldata :: "u8 list \<Rightarrow> calldata_error + u8 list" where
  "BuildBuilderExitCalldata pubkey =
     (if length pubkey \<noteq> 48 then Inl (PubkeyLength (length pubkey)) else Inr pubkey)"

text \<open>The loop of \<open>fakeExponential\<close>; \<open>i\<close> counts from one and the denominator is positive.\<close>

function fake_loop :: "nat \<Rightarrow> nat \<Rightarrow> nat \<Rightarrow> nat \<Rightarrow> nat \<Rightarrow> nat" where
  "fake_loop numerator denominator i accum out =
     (if accum = 0 \<or> denominator * i = 0 then out
      else fake_loop numerator denominator (i + 1) (accum * numerator div (denominator * i)) (out + accum))"
  by pat_completeness auto
termination
proof (relation "measures [\<lambda>(n, d, i, a, out). n + 1 - d * i, \<lambda>(n, d, i, a, out). a]", goal_cases)
  case (2 n d i a out)
  then have d: "0 < d * i" and a: "0 < a" by auto
  show ?case
  proof (cases "n < d * i")
    case True
    then have "a * n div (d * i) < a" using a d by (intro div_less_iff_less_mult [THEN iffD2]) simp_all
    then show ?thesis using True by simp
  next
    case False
    moreover have "0 < d" using d by simp
    ultimately have "Suc n - (d + d * i) < Suc n - d * i" by linarith
    then show ?thesis by simp
  qed
qed simp

text \<open>A zero denominator is the panic of the division.\<close>

definition fakeExponential :: "nat \<Rightarrow> nat \<Rightarrow> nat \<Rightarrow> nat option" where
  "fakeExponential factor numerator denominator =
     (if denominator = 0 then None else Some (fake_loop numerator denominator 1 (factor * denominator) 0 div denominator))"

datatype fee_error = CodeUnreadable | ErrContractNotDeployed | ExcessUnreadable

text \<open>\<open>big.Int.SetBytes\<close>\<close>

definition SetBytes :: "u8 list \<Rightarrow> nat" where
  "SetBytes bs = le_nat (rev bs)"

text \<open>
  \<open>ReadQueueFee\<close>, given what the node answers for the code and for storage slot 0 (\<open>None\<close> when the
  request fails).  The result is the fee, or \<open>None\<close> while the contract is not active.\<close>

definition ReadQueueFee :: "u8 list option \<Rightarrow> u8 list option \<Rightarrow> fee_error + nat option" where
  "ReadQueueFee code storage =
     (case code of
        None \<Rightarrow> Inl CodeUnreadable
      | Some code \<Rightarrow>
          if code = [] then Inl ErrContractNotDeployed
          else case storage of
                 None \<Rightarrow> Inl ExcessUnreadable
               | Some raw \<Rightarrow>
                   (let excess = SetBytes raw in
                    if excess = excessInhibitor then Inr None
                    else Inr (fakeExponential minRequestFee (excess + queueFeeHeadroom) feeUpdateFraction)))"

definition buildWithdrawalCredentials :: "u8 \<Rightarrow> address \<Rightarrow> u8 list" where
  "buildWithdrawalCredentials prefix walletAddress = prefix # replicate 11 0 @ walletAddress"

definition BuilderWithdrawalCredentials :: "address \<Rightarrow> u8 list" where
  "BuilderWithdrawalCredentials walletAddress = buildWithdrawalCredentials builderWithdrawalPrefix walletAddress"

definition ValidatorWithdrawalCredentials :: "address \<Rightarrow> u8 list" where
  "ValidatorWithdrawalCredentials walletAddress = buildWithdrawalCredentials validatorWithdrawalPrefix walletAddress"

definition GweiToWei :: "u64 \<Rightarrow> nat" where
  "GweiToWei gwei = unat gwei * 1000000000"

declare drain_epoch.simps [simp del] fake_loop.simps [simp del]

section \<open>The queue of the chain\<close>

text \<open>
  One epoch of the chain: it takes entries from the front while they are finalized, the number per
  epoch allows it and the budget suffices; what is left of the budget is kept only when the budget
  stopped it.\<close>

fun process_loop :: "nat \<Rightarrow> nat \<Rightarrow> nat \<Rightarrow> nat list \<Rightarrow> nat list \<times> nat \<times> bool" where
  "process_loop budget cap fin [] = ([], budget, False)"
| "process_loop budget cap fin (a # q) =
     (if fin = 0 \<or> cap = 0 then (a # q, budget, False)
      else if a > budget then (a # q, budget, True)
      else process_loop (budget - a) (cap - 1) (fin - 1) q)"

record chain_epoch =
  ce_churn :: nat
  ce_finalized :: nat
  ce_arrivals :: "nat list"

record deposit_chain =
  dc_drained :: nat
  dc_queue :: "nat list"
  dc_consume :: nat

definition process_pending_deposits :: "nat \<Rightarrow> chain_epoch \<Rightarrow> deposit_chain \<Rightarrow> deposit_chain" where
  "process_pending_deposits cap ep c =
     (case process_loop (dc_consume c + ce_churn ep) cap (ce_finalized ep) (dc_queue c) of
        (rest, left, limited) \<Rightarrow>
          \<lparr>dc_drained = dc_drained c + (length (dc_queue c) - length rest), dc_queue = rest @ ce_arrivals ep,
           dc_consume = (if limited then left else 0)\<rparr>)"

definition chain_epochs :: "nat \<Rightarrow> chain_epoch list \<Rightarrow> deposit_chain \<Rightarrow> deposit_chain" where
  "chain_epochs cap eps c = fold (process_pending_deposits cap) eps c"

section \<open>Lemmas on the queue\<close>

lemma process_loop_suffix: "process_loop b c f xs = (ys, l, lm) \<Longrightarrow> \<exists>pre. xs = pre @ ys"
proof (induction b c f xs rule: process_loop.induct)
  case (2 b c f a q)
  then show ?case by (auto split: if_splits)
qed simp

text \<open>A loop that is ahead, with at least the budget and the count, stays ahead.\<close>

lemma process_loop_ahead:
  assumes "process_loop br cr fin (q @ arr) = (rr, lr, limr)" "process_loop bs cs (length q) q = (rs, ls, lims)"
    and "br \<le> bs" "cr \<le> cs" "rs \<noteq> []"
  shows "\<exists>pre. rr = pre @ rs @ arr \<and> (limr \<longrightarrow> (if pre = [] then lims \<and> lr \<le> ls else lr \<le> hd pre))"
  using assms
proof (induction q arbitrary: br cr fin bs cs)
  case (Cons a q)
  show ?case
  proof (cases "cs = 0 \<or> a > bs")
    case True
    then have "rs = a # q" "ls = bs" "lims = (cs \<noteq> 0)" using Cons.prems(2) by (auto split: if_splits)
    moreover have "rr = a # q @ arr \<and> lr = br \<and> (limr \<longrightarrow> cr \<noteq> 0)"
      using True Cons.prems(1,3,4) by (auto split: if_splits)
    ultimately show ?thesis using Cons.prems(3,4) by (intro exI [of _ "[]"]) auto
  next
    case False
    note s = False
    have rs: "process_loop (bs - a) (cs - 1) (length q) q = (rs, ls, lims)" using s Cons.prems(2) by simp
    show ?thesis
    proof (cases "fin = 0 \<or> cr = 0 \<or> a > br")
      case True
      obtain pre where "q = pre @ rs" using process_loop_suffix [OF rs] by blast
      moreover have "rr = a # q @ arr \<and> (limr \<longrightarrow> lr \<le> a)" using True Cons.prems(1) by (auto split: if_splits)
      ultimately show ?thesis by (intro exI [of _ "a # pre"]) auto
    next
      case False
      then show ?thesis using Cons.IH [of "br - a" "cr - 1" "fin - 1" "bs - a" "cs - 1"] Cons.prems rs by auto
    qed
  qed
qed simp

lemma process_loop_limited: "process_loop b c f xs = (ys, l, True) \<Longrightarrow> ys \<noteq> [] \<and> l < hd ys \<and> l \<le> b"
  by (induction b c f xs rule: process_loop.induct) (auto split: if_splits)

text \<open>Going through a prefix first.\<close>

lemma process_loop_prefix:
  assumes "process_loop b c f (pre @ q) = (rest, l, lm)"
  shows "(\<exists>pre'. pre' \<noteq> [] \<and> rest = pre' @ q \<and> (lm \<longrightarrow> l \<le> hd pre')) \<or>
    sum_list pre \<le> b \<and> process_loop (b - sum_list pre) (c - length pre) (f - length pre) q = (rest, l, lm)"
  using assms
proof (induction pre arbitrary: b c f)
  case (Cons a pre)
  show ?case
  proof (cases "f = 0 \<or> c = 0 \<or> a > b")
    case True
    then show ?thesis using Cons.prems by (auto intro!: exI [of _ "a # pre"] split: if_splits)
  next
    case False
    then show ?thesis using Cons.IH [of "b - a" "c - 1" "f - 1"] Cons.prems by auto
  qed
qed simp

text \<open>
  The chain \<open>c\<close> is behind a simulation with the queue \<open>q\<close>: it still has all of \<open>q\<close>, perhaps with
  more entries in front, and no more budget than the simulation, or than its first entry.\<close>

definition behind :: "deposit_chain \<Rightarrow> nat list \<Rightarrow> nat \<Rightarrow> nat \<Rightarrow> bool" where
  "behind c q dbtc n \<longleftrightarrow> (\<exists>pre arr. dc_queue c = pre @ q @ arr \<and> dc_drained c + length (pre @ q) = n \<and>
     (if pre = [] then dc_consume c \<le> dbtc else dc_consume c \<le> hd pre))"

lemma behind_step:
  assumes "behind c q dbtc n" "process_loop (dbtc + churn) cap (length q) q = (rs, ls, lims)" "rs \<noteq> []"
    and "ce_churn ep \<le> churn"
  shows "behind (process_pending_deposits cap ep c) rs (if lims then ls else 0) n"
proof -
  obtain pre arr where c: "dc_queue c = pre @ q @ arr" "dc_drained c + length (pre @ q) = n"
    "if pre = [] then dc_consume c \<le> dbtc else dc_consume c \<le> hd pre"
    using assms(1) by (auto simp: behind_def)
  let ?b = "dc_consume c + ce_churn ep"
  obtain rest left lm where r: "process_loop ?b cap (ce_finalized ep) (pre @ q @ arr) = (rest, left, lm)"
    by (metis prod_cases3)
  obtain gone where gone: "pre @ q @ arr = gone @ rest" using process_loop_suffix [OF r] by blast
  have "\<exists>pre'. rest = pre' @ rs @ arr \<and> (lm \<longrightarrow> (if pre' = [] then lims \<and> left \<le> ls else left \<le> hd pre'))"
    using process_loop_prefix [OF r]
  proof (elim disjE exE conjE)
    fix pre' assume p: "pre' \<noteq> []" "rest = pre' @ q @ arr" "lm \<longrightarrow> left \<le> hd pre'"
    obtain pre'' where "q = pre'' @ rs" using process_loop_suffix [OF assms(2)] by blast
    then show ?thesis using p by (intro exI [of _ "pre' @ pre''"]) simp
  next
    assume "sum_list pre \<le> ?b" and z: "process_loop (?b - sum_list pre) (cap - length pre) (ce_finalized ep - length pre)
        (q @ arr) = (rest, left, lm)"
    have "?b - sum_list pre \<le> dbtc + churn" using c(3) assms(4) by (cases pre) (auto simp: algebra_simps)
    then show ?thesis using process_loop_ahead [OF z assms(2) _ _ assms(3)] by simp
  qed
  then obtain pre' where p: "rest = pre' @ rs @ arr" "lm \<longrightarrow> (if pre' = [] then lims \<and> left \<le> ls else left \<le> hd pre')"
    by blast
  have "length (gone @ rest) = length (pre @ q @ arr)" by (simp add: gone)
  then have "dc_drained c + (length (pre @ q @ arr) - length rest) + length (pre' @ rs) = n" using c(2) p(1) by simp
  then show ?thesis
    using r p c(1) unfolding behind_def process_pending_deposits_def
    by (intro exI [of _ pre'] exI [of _ "arr @ ce_arrivals ep"]) simp
qed

fun ref_sim :: "nat \<Rightarrow> nat \<Rightarrow> nat \<Rightarrow> nat list \<Rightarrow> nat \<Rightarrow> nat list" where
  "ref_sim 0 churn cap q dbtc = q"
| "ref_sim (Suc n) churn cap q dbtc =
     (case process_loop (dbtc + churn) cap (length q) q of
        (rs, ls, lims) \<Rightarrow> ref_sim n churn cap rs (if lims then ls else 0))"

lemma ref_sim_Nil [simp]: "ref_sim n churn cap [] dbtc = []"
  by (induction n arbitrary: dbtc) auto

lemma chain_behind_sim:
  assumes "behind c q dbtc n" "ref_sim (length eps) churn cap q dbtc \<noteq> []" "list_all (\<lambda>ep. ce_churn ep \<le> churn) eps"
  shows "dc_drained (chain_epochs cap eps c) < n"
  using assms
proof (induction eps arbitrary: c q dbtc)
  case Nil
  then show ?case by (auto simp: chain_epochs_def behind_def)
next
  case (Cons ep eps)
  obtain rs ls lims where p: "process_loop (dbtc + churn) cap (length q) q = (rs, ls, lims)" by (metis prod_cases3)
  have rest: "ref_sim (length eps) churn cap rs (if lims then ls else 0) \<noteq> []" using Cons.prems(2) p by simp
  then have "rs \<noteq> []" by auto
  then show ?case
    using Cons.IH [OF behind_step [OF Cons.prems(1) p] rest] Cons.prems(3) by (simp add: chain_epochs_def)
qed

text \<open>The simulation on \<open>uint64\<close> amounts is the reference as long as nothing wraps.\<close>

lemma drain_epoch_ref:
  assumes "length sim = Suc ourIdx" "head \<le> ourIdx" "processed \<le> available"
    and "unat processed + sum_list (map unat (drop head sim)) < 2 ^ 64"
  shows "drain_epoch sim ourIdx maxPerEpoch available head processed count =
    (case process_loop (unat available - unat processed) (unat maxPerEpoch - unat count) (length sim - head) (map unat (drop head sim)) of
       (rest, left, lm) \<Rightarrow> if rest = [] then OursDrained
         else Stopped (length sim - length rest) (available - of_nat left) lm)"
  using assms(2-)
proof (induction "length sim - head" arbitrary: head processed count)
  case (Suc n)
  have dr: "drop head sim = sim ! head # drop (Suc head) sim" using Suc.prems(1) assms(1) by (simp add: Cons_nth_drop_Suc)
  have sum: "unat (processed + sim ! head) = unat processed + unat (sim ! head)"
    using Suc.prems(3) by (simp add: dr unat_add_lem [THEN iffD1])
  have left: "available - of_nat (unat available - unat processed) = processed"
    using Suc.prems(2) by (simp add: word_le_nat_alt of_nat_diff)
  show ?case
  proof (cases "count \<ge> maxPerEpoch \<or> processed + sim ! head > available")
    case True
    moreover have "processed + sim ! head > available \<longleftrightarrow> unat (sim ! head) > unat available - unat processed"
      using sum Suc.prems(2) by (simp add: word_less_nat_alt word_le_nat_alt less_diff_conv2 add.commute)
    moreover have "count \<ge> maxPerEpoch \<longleftrightarrow> unat maxPerEpoch - unat count = 0" by (simp add: word_le_nat_alt)
    ultimately show ?thesis
      using Suc.prems(1) assms(1) left
      by (auto simp: drain_epoch.simps [of sim ourIdx maxPerEpoch available head processed count] dr)
  next
    case False
    then have lt: "unat count < unat maxPerEpoch" and le: "processed + sim ! head \<le> available"
      by (simp_all add: not_le not_less) (simp add: word_less_nat_alt)
    have "unat maxPerEpoch < 2 ^ 64" using unsigned_less [of maxPerEpoch, where ?'a = nat] by simp
    then have c: "unat (count + 1) = unat count + 1" using lt unat_add_lem [of count 1] by simp
    have le': "unat (sim ! head) \<le> unat available - unat processed"
      using le sum by (simp add: word_le_nat_alt)
    show ?thesis
    proof (cases "head + 1 > ourIdx")
      case True
      then have "drop (Suc head) sim = []" using assms(1) by simp
      then show ?thesis
        using False True Suc.prems(1) assms(1) lt le' by (simp add: drain_epoch.simps [of sim ourIdx maxPerEpoch available head processed count] dr)
    next
      case inner: False
      have "drain_epoch sim ourIdx maxPerEpoch available (head + 1) (processed + sim ! head) (count + 1) =
        (case process_loop (unat available - (unat processed + unat (sim ! head))) (unat maxPerEpoch - (unat count + 1))
            (length sim - (head + 1)) (map unat (drop (head + 1) sim)) of
          (rest, left, lm) \<Rightarrow> if rest = [] then OursDrained
            else Stopped (length sim - length rest) (available - of_nat left) lm)"
        using Suc.hyps(1) [of "head + 1" "processed + sim ! head" "count + 1"] Suc.hyps(2) Suc.prems(3) inner le
        by (simp add: sum c dr)
      then show ?thesis
        using False inner Suc.prems(1) assms(1) lt le' by (simp add: drain_epoch.simps [of sim ourIdx maxPerEpoch available head processed count] dr)
    qed
  qed
qed (use assms(1) in simp)

lemma sum_list_drop_le: "sum_list (drop n xs) \<le> sum_list (xs :: nat list)"
  using sum_list_append [of "take n xs" "drop n xs"] by simp

lemma sim_epochs_ref:
  assumes "length sim = Suc ourIdx" "head \<le> ourIdx" "unat dbtc + unat churn < 2 ^ 64"
    and "sum_list (map unat sim) + unat churn < 2 ^ 64"
  shows "sim_epochs n sim ourIdx churn maxPerEpoch head dbtc \<longleftrightarrow>
    ref_sim n (unat churn) (unat maxPerEpoch) (map unat (drop head sim)) (unat dbtc) \<noteq> []"
  using assms(2,3)
proof (induction n arbitrary: head dbtc)
  case 0
  then show ?case using assms(1) by simp
next
  case (Suc n)
  let ?q = "map unat (drop head sim)"
  have avail: "unat (dbtc + churn) = unat dbtc + unat churn"
    using Suc.prems(2) unat_add_lem [of dbtc churn] by simp
  obtain rest left lm where p: "process_loop (unat dbtc + unat churn) (unat maxPerEpoch) (length ?q) ?q = (rest, left, lm)"
    by (metis prod_cases3)
  have d: "drain_epoch sim ourIdx maxPerEpoch (dbtc + churn) head 0 0 =
      (if rest = [] then OursDrained else Stopped (length sim - length rest) (dbtc + churn - of_nat left) lm)"
    using drain_epoch_ref [OF assms(1) Suc.prems(1), of 0 "dbtc + churn" maxPerEpoch 0] p assms(4)
      sum_list_drop_le [of head "map unat sim"] by (simp add: avail drop_map)
  show ?case
  proof (cases "rest = []")
    case True
    then show ?thesis using d p by simp
  next
    case False
    obtain gone where gone: "?q = gone @ rest" using process_loop_suffix [OF p] by blast
    have rest: "rest = map unat (drop (length sim - length rest) sim)"
    proof -
      have "rest = drop (length ?q - length rest) ?q" using gone by simp
      then show ?thesis using arg_cong [OF gone, of length] Suc.prems(1) assms(1) by (simp add: drop_map add.commute)
    qed
    have left: "unat (of_nat left :: u64) = left \<and> left + unat churn < 2 ^ 64" if lm
    proof -
      have "left < hd rest" using process_loop_limited [of _ _ _ _ rest left] p that by simp
      also have "hd rest \<le> sum_list (map unat sim)"
        using False rest sum_list_drop_le [of "length sim - length rest" "map unat sim"]
        by (cases rest) (auto simp: drop_map)
      finally show ?thesis using assms(4) by (simp add: unat_of_nat)
    qed
    have "length sim - length rest \<le> ourIdx" using False assms(1) by (cases rest) auto
    then show ?thesis
      using d p False Suc.IH [of "length sim - length rest" "if lm then of_nat left else 0"] left assms(4)
      by (auto simp: rest [symmetric])
  qed
qed

lemma simulateDepositSurvives_sound:
  assumes "simulateDepositSurvives queue ourAmount dbtc churn maxPerEpoch transitions"
    and "unat dbtc + unat churn + sum_list (map unat queue) + unat ourAmount < 2 ^ 64"
    and "length eps = unat transitions" "list_all (\<lambda>ep. ce_churn ep \<le> unat churn) eps"
  shows "dc_drained (chain_epochs (unat maxPerEpoch) eps
     \<lparr>dc_drained = 0, dc_queue = map unat (queue @ [ourAmount]) @ later, dc_consume = unat dbtc\<rparr>) \<le> length queue"
proof -
  let ?sim = "queue @ [ourAmount]"
  have "sim_epochs (length eps) ?sim (length queue) churn maxPerEpoch 0 dbtc"
    using assms(1,3) by (simp add: simulateDepositSurvives_def split: if_splits)
  then have "ref_sim (length eps) (unat churn) (unat maxPerEpoch) (map unat ?sim) (unat dbtc) \<noteq> []"
    using sim_epochs_ref [of ?sim "length queue" 0 dbtc churn "length eps" maxPerEpoch] assms(2) by simp
  moreover have "behind \<lparr>dc_drained = 0, dc_queue = map unat ?sim @ later, dc_consume = unat dbtc\<rparr>
      (map unat ?sim) (unat dbtc) (length ?sim)"
    unfolding behind_def by (intro exI [of _ "[]"] exI [of _ later]) simp
  ultimately show ?thesis using chain_behind_sim [OF _ _ assms(4)] by fastforce
qed

section \<open>Lemmas on the calldata\<close>

lemma deposit_calldata_layout:
  assumes "BuildBuilderDepositCalldata pubkey creds amount signature = Inr data"
  shows "length data = 184" "take 48 data = pubkey" "take 32 (drop 48 data) = creds"
    "Uint64 (rev (take 8 (drop 80 data))) = amount" "drop 88 data = signature"
  using assms by (auto simp: BuildBuilderDepositCalldata_def BigEndian_PutUint64_def split: if_splits)

lemma credentials_layout:
  assumes "length addr = 20"
  shows "length (BuilderWithdrawalCredentials addr) = 32" "hd (BuilderWithdrawalCredentials addr) = 0xB0"
    "drop 12 (BuilderWithdrawalCredentials addr) = addr"
    "ValidatorWithdrawalCredentials addr = BuilderWithdrawalCredentials addr"
  using assms
  by (simp_all add: BuilderWithdrawalCredentials_def ValidatorWithdrawalCredentials_def buildWithdrawalCredentials_def
      builderWithdrawalPrefix_def validatorWithdrawalPrefix_def)

section \<open>Lemmas on the queue fee\<close>

lemma fake_loop_ge: "out + (if denominator * i = 0 then 0 else accum) \<le> fake_loop numerator denominator i accum out"
proof (induction numerator denominator i accum out rule: fake_loop.induct)
  case (1 n d i a out)
  then show ?case by (cases "a = 0 \<or> d * i = 0") (auto simp: fake_loop.simps [of n d i a out])
qed

lemma fake_loop_mono:
  assumes "n \<le> n'" "a \<le> a'" "out \<le> out'"
  shows "fake_loop n d i a out \<le> fake_loop n' d i a' out'"
  using assms
proof (induction n d i a out arbitrary: a' out' rule: fake_loop.induct)
  case (1 n d i a out)
  show ?case
  proof (cases "a = 0 \<or> d * i = 0")
    case True
    then show ?thesis
      using 1(4) fake_loop_ge [of out' d i a' n'] by (simp add: fake_loop.simps [of n d i a out])
  next
    case False
    then have "a' \<noteq> 0" using 1(3) by auto
    moreover have "a * n div (d * i) \<le> a' * n' div (d * i)" using 1(2,3) by (intro div_le_mono mult_le_mono)
    ultimately show ?thesis
      using False 1(1) [of "a' * n' div (d * i)" "out' + a'"] 1(2-4)
      by (simp add: fake_loop.simps [of n d i a out] fake_loop.simps [of n' d i a' out'])
  qed
qed

text \<open>The loop adds up at most the terms of the exponential series.\<close>

lemma fake_loop_le_exp:
  fixes n d i a out :: nat
  defines "x \<equiv> real n / real d"
  assumes "0 < d" "real a \<le> real d * (x ^ i / fact i)" "real out \<le> real d * (\<Sum>k<i. x ^ k / fact k)"
  shows "real (fake_loop n d (Suc i) a out) \<le> real d * exp x"
  using assms(3,4)
proof (induction n' \<equiv> n d' \<equiv> d m \<equiv> "Suc i" a out arbitrary: i rule: fake_loop.induct)
  case (1 a out)
  have x: "0 \<le> x" by (simp add: x_def)
  show ?case
  proof (cases "a = 0")
    case True
    have "(\<Sum>k<i. x ^ k / fact k) \<le> exp x"
      using sum_le_suminf [OF summable_exp, of "{..<i}" x] x by (simp add: exp_def divide_inverse mult.commute)
    then have "real d * (\<Sum>k<i. x ^ k / fact k) \<le> real d * exp x" by (intro mult_left_mono) simp_all
    then show ?thesis using True 1(3) by (simp add: fake_loop.simps [of n d "Suc i" 0 out])
  next
    case False
    have "real (a * n div (d * Suc i)) \<le> real (a * n) / real (d * Suc i)" by (rule of_nat_div_le_of_nat)
    also have "\<dots> = real a * (x / real (Suc i))" by (simp add: x_def distrib_left)
    also have "\<dots> \<le> real d * (x ^ i / fact i) * (x / real (Suc i))" using 1(2) x by (intro mult_right_mono) simp_all
    also have "\<dots> = real d * (x ^ Suc i / fact (Suc i))" by (simp add: field_simps)
    finally have "real (a * n div (d * Suc i)) \<le> real d * (x ^ Suc i / fact (Suc i))" .
    moreover have "real (out + a) \<le> real d * (\<Sum>k<Suc i. x ^ k / fact k)" using 1(2,3) by (simp add: distrib_left)
    ultimately have "real (fake_loop n d (Suc (Suc i)) (a * n div (d * Suc i)) (out + a)) \<le> real d * exp x"
      using 1(1) [of "Suc i"] False assms(2) by simp
    then show ?thesis using False assms(2) by (simp add: fake_loop.simps [of n d "Suc i" a out])
  qed
qed

lemma fakeExponential_bounds:
  assumes "fakeExponential minRequestFee n d = Some fee"
  shows "1 \<le> fee \<and> real fee \<le> exp (real n / real d)"
proof -
  let ?out = "fake_loop n d (Suc 0) d 0"
  have d: "0 < d" and fee: "fee = ?out div d"
    using assms by (auto simp: fakeExponential_def minRequestFee_def split: if_splits)
  have "d \<le> ?out" using fake_loop_ge [of 0 d "Suc 0" d n] d by simp
  then have lo: "1 \<le> fee" using d by (simp add: fee div_greater_zero_iff Suc_le_eq)
  have "real ?out \<le> real d * exp (real n / real d)" using fake_loop_le_exp [of d d n 0 0] d by simp
  then have "real ?out / real d \<le> exp (real n / real d)" using d by (simp add: pos_divide_le_eq mult.commute)
  moreover have "real fee \<le> real ?out / real d" unfolding fee by (rule of_nat_div_le_of_nat)
  ultimately show ?thesis using lo by linarith
qed

lemma fakeExponential_mono:
  "n \<le> n' \<Longrightarrow> 0 < d \<Longrightarrow> the (fakeExponential f n d) \<le> the (fakeExponential f n' d)"
  by (simp add: fakeExponential_def div_le_mono fake_loop_mono)

section \<open>Properties\<close>

text \<open>
  The queue fee of the system contracts.  Without code at the address no fee is quoted, and none
  while the contract holds the inhibitor; otherwise the computation ends with a fee of at least one
  wei and at most the exponential it approximates, and the fee also covers the price after up to
  three further requests.\<close>
theorem queue_fee_quoted:
  "case ReadQueueFee code storage of
     Inl e \<Rightarrow> code = None \<or> code = Some [] \<or> storage = None
   | Inr None \<Rightarrow> map_option SetBytes storage = Some excessInhibitor
   | Inr (Some fee) \<Rightarrow>
       (\<exists>excess. map_option SetBytes storage = Some excess \<and> excess \<noteq> excessInhibitor \<and> 1 \<le> fee \<and>
          real fee \<le> exp (real (excess + queueFeeHeadroom) / real feeUpdateFraction) \<and>
          list_all (\<lambda>k. the (fakeExponential minRequestFee (excess + k) feeUpdateFraction) \<le> fee) [0, 1, 2, 3])"
proof (cases "code = None \<or> code = Some [] \<or> storage = None")
  case True
  then show ?thesis by (auto simp: ReadQueueFee_def split: option.split)
next
  case False
  then obtain c raw where c: "code = Some c" "c \<noteq> []" "storage = Some raw" by auto
  show ?thesis
  proof (cases "SetBytes raw = excessInhibitor")
    case True
    then show ?thesis using c by (simp add: ReadQueueFee_def Let_def)
  next
    case ne: False
    obtain fee where fee: "fakeExponential minRequestFee (SetBytes raw + queueFeeHeadroom) feeUpdateFraction = Some fee"
      by (simp add: fakeExponential_def feeUpdateFraction_def)
    have cover: "the (fakeExponential minRequestFee (SetBytes raw + k) feeUpdateFraction) \<le> fee" if "k \<le> 3" for k
      using fakeExponential_mono [of "SetBytes raw + k" "SetBytes raw + queueFeeHeadroom" feeUpdateFraction] fee that
      by (metis add_left_mono feeUpdateFraction_def option.sel queueFeeHeadroom_def zero_less_numeral)
    show ?thesis
      using c ne fee fakeExponential_bounds [OF fee] cover [of 0] cover [of 1] cover [of 2] cover [of 3]
      by (simp add: ReadQueueFee_def Let_def)
  qed
qed

text \<open>
  An early deposit that the simulation lets survive does survive.  When the simulation says that
  a deposit made now would still be queued at the fork and the amounts do not overflow, then the
  deposit processing of the chain, up to the fork, with any number of finalized entries per epoch,
  any churn limits up to the assumed one and any deposits arriving behind it, never takes it out of
  the queue.\<close>
theorem early_deposit_survives:
  assumes "depositSurvivesUntilFork (Some stats) spec ourAmount forkEpoch"
    and "unat (es_DepositBalanceToConsume stats) + unat (stats_churn stats spec) +
      sum_list (map (unat \<circ> di_Amount) (es_PendingDeposits stats)) + unat ourAmount < 2 ^ 64"
    and "length eps = unat (forkEpoch - es_Epoch stats)"
    and "list_all (\<lambda>ep. ce_churn ep \<le> unat (stats_churn stats spec)) eps"
  shows "es_Epoch stats < forkEpoch \<and>
    dc_drained (chain_epochs (unat (MaxPendingDepositsPerEpoch spec)) eps
     \<lparr>dc_drained = 0,
      dc_queue = map (unat \<circ> di_Amount) (es_PendingDeposits stats) @ unat ourAmount # later,
      dc_consume = unat (es_DepositBalanceToConsume stats)\<rparr>) \<le> length (es_PendingDeposits stats)"
proof -
  have "es_Epoch stats < forkEpoch" and "simulateDepositSurvives (map di_Amount (es_PendingDeposits stats)) ourAmount
      (es_DepositBalanceToConsume stats) (stats_churn stats spec) (MaxPendingDepositsPerEpoch spec) (forkEpoch - es_Epoch stats)"
    using assms(1) by (auto simp: depositSurvivesUntilFork_def split: if_splits)
  from this(1) simulateDepositSurvives_sound [OF this(2) _ assms(3,4), of later] show ?thesis
    using assms(2) by (simp add: comp_def)
qed

definition demo_queue_stats :: EpochStats where
  "demo_queue_stats = \<lparr>es_Version = DataVersionFulu, es_Epoch = 10, es_FinalizedEpoch = 8, es_StateSlot = 320,
     es_ActiveValidators = 2, es_ValidatorCount = 2, es_ActiveIndices = [0, 1], es_EffectiveBalances = [32, 32],
     es_Builders = [], es_TotalActiveBalance = 64000000000,
     es_PendingDeposits = [\<lparr>di_Pubkey = [1], di_Amount = 2000000000000, di_Slot = 310\<rparr>], es_DepositBalanceToConsume = 0,
     es_Eth1DepositIndex = 0, es_DepositRequestsStartIndex = 0, es_RandaoMix = [], es_NextRandaoMix = [],
     es_ProposerDuties = [], es_AttesterDuties = None, es_PtcDuties = None\<rparr>"

theorem early_deposit_survives_witness:
  "depositSurvivesUntilFork (Some demo_queue_stats) demo_spec 1000000000 12 \<and>
   dc_drained (chain_epochs (unat (MaxPendingDepositsPerEpoch demo_spec))
     [\<lparr>ce_churn = 1000, ce_finalized = 5, ce_arrivals = [7]\<rparr>, \<lparr>ce_churn = 1000, ce_finalized = 5, ce_arrivals = [7]\<rparr>]
     \<lparr>dc_drained = 0, dc_queue = [2000000000000, 1000000000], dc_consume = 0\<rparr>) \<le> 1"
proof -
  have two: "sim_epochs 2 = sim_epochs (Suc (Suc 0))" by (simp only: numeral_2_eq_2)
  have s: "depositSurvivesUntilFork (Some demo_queue_stats) demo_spec 1000000000 12"
    by (simp add: depositSurvivesUntilFork_def demo_queue_stats_def demo_spec_def stats_churn_def
        activationExitChurnLimit_def simulateDepositSurvives_def two drain_epoch.simps)
  from early_deposit_survives [OF this, of "[\<lparr>ce_churn = 1000, ce_finalized = 5, ce_arrivals = [7]\<rparr>, \<lparr>ce_churn = 1000, ce_finalized = 5, ce_arrivals = [7]\<rparr>]" "[]"]
  show ?thesis using s
    by (simp add: demo_queue_stats_def demo_spec_def stats_churn_def activationExitChurnLimit_def)
qed

end
