(* ===== verification/Lifecycle.thy ===== *)
theory Lifecycle
  imports Deposit_Queue Payment_Tracker Config
begin

text \<open>
  The builder's life cycle, \<open>pkg/lifecycle\<close>: deposits (\<open>deposit.go\<close>, \<open>early_deposit.go\<close>), balance
  and top-ups (\<open>balance.go\<close>), exits (\<open>exit.go\<close>) and the manager (\<open>manager.go\<close>), whose goroutine is
  a state machine: each blocking loop of \<open>runRegistrationAndMonitor\<close> is a phase, and a step is one
  event its \<open>select\<close> can receive.  What the chain, the contract and the wallet answer during a step
  is the environment of the step: it is read once and does not change within it.  A confirmed
  transaction is appended to a log.  Signing is a parameter.  The human-readable texts of the events and log
  lines are left out.
\<close>

section \<open>State\<close>

definition earlyOnboardFinalizationMargin :: u64 where
  "earlyOnboardFinalizationMargin = 4"

definition minEarlyOnboardSlots :: u64 where
  "minEarlyOnboardSlots = 10"

definition topupCooldownEpochs :: u64 where
  "topupCooldownEpochs = 8"

definition BuilderDepositContractAddress :: address where
  "BuilderDepositContractAddress = [0x00, 0x00, 0xbF, 0xF4, 0x69, 0x84, 0xe3, 0x72, 0x56, 0x91, 0xFA, 0x54, 0x0a, 0x8C,
     0x75, 0x89, 0x30, 0x0D, 0x82, 0x82]"

definition BuilderExitContractAddress :: address where
  "BuilderExitContractAddress = [0x00, 0x00, 0x64, 0xD6, 0x78, 0x50, 0x5a, 0xd4, 0x8F, 0x8c, 0xCb, 0x09, 0x3B, 0xC6,
     0x56, 0x13, 0x80, 0x0E, 0x82, 0x82]"

record BuilderState =
  bs_Pubkey :: bls_pubkey
  bs_Index :: u64
  bs_IsRegistered :: bool
  bs_Balance :: u64
  bs_DepositEpoch :: u64
  bs_WithdrawableEpoch :: u64

record LifecycleEvent =
  le_Action :: string
  le_Status :: string

record life_tx =
  tx_To :: address
  tx_Value :: nat
  tx_Data :: "u8 list"

record Manager =
  mg_builderState :: BuilderState
  mg_payments :: "PaymentTracker option"
  mg_lastTopupEpoch :: epoch
  mg_registrationDone :: bool
  mg_enabled :: bool
  mg_exitNoticed :: bool
  mg_registered :: "u64 list"
  mg_depositPending :: nat
  mg_events :: "LifecycleEvent list"
  mg_sent :: "life_tx list"

datatype life_error =
    ErrDepositFeeTooHigh | ErrContractNotActive | ErrFee fee_error | ErrBuilderExited | ErrNoDepositContract
  | ErrSigning | ErrCalldata calldata_error | ErrTransaction | ErrNotRegistered | ErrExitInitiated u64
  | ErrPendingPayments u64

text \<open>
  The environment of a step: the configuration, the chain service's view, the wallet, the answers for
  code and queue excess of the two contracts, the signatures and whether a transaction confirms.
  \<open>lf_earlyData\<close> is the ABI encoding of an early deposit.\<close>

record life_env =
  lf_cfg :: Config
  lf_spec :: ChainSpec
  lf_stats :: "EpochStats option"
  lf_epoch :: epoch
  lf_slot :: slot
  lf_pubkey :: bls_pubkey
  lf_wallet :: address
  lf_depositCode :: "u8 list option"
  lf_depositExcess :: "u8 list option"
  lf_exitCode :: "u8 list option"
  lf_exitExcess :: "u8 list option"
  lf_sign :: "u8 list \<Rightarrow> u64 \<Rightarrow> u8 list option"
  lf_earlyData :: "u8 list \<Rightarrow> u64 \<Rightarrow> u8 list option"
  lf_confirms :: bool

definition lf_builder :: "life_env \<Rightarrow> BuilderInfo option" where
  "lf_builder env = Option.bind (lf_stats env) (\<lambda>st. builder_by_pubkey (lf_pubkey env) (es_Builders st))"

definition NewManager :: Manager where
  "NewManager = \<lparr>mg_builderState = \<lparr>bs_Pubkey = [], bs_Index = 0, bs_IsRegistered = False, bs_Balance = 0,
       bs_DepositEpoch = 0, bs_WithdrawableEpoch = 0\<rparr>, mg_payments = None, mg_lastTopupEpoch = 0,
     mg_registrationDone = False, mg_enabled = False, mg_exitNoticed = False, mg_registered = [],
     mg_depositPending = 0, mg_events = [], mg_sent = []\<rparr>"

definition SetPaymentTracker :: "PaymentTracker \<Rightarrow> Manager \<Rightarrow> Manager" where
  "SetPaymentTracker payments m = m\<lparr>mg_payments := Some payments, mg_lastTopupEpoch := 0\<rparr>"

definition SetEnabled :: "bool \<Rightarrow> Manager \<Rightarrow> Manager" where
  "SetEnabled b m = m\<lparr>mg_enabled := b\<rparr>"

definition fireEvent :: "string \<Rightarrow> string \<Rightarrow> Manager \<Rightarrow> Manager" where
  "fireEvent action status m = m\<lparr>mg_events := mg_events m @ [\<lparr>le_Action = action, le_Status = status\<rparr>]\<rparr>"

section \<open>Deposits\<close>

fun isDepositDeferred :: "life_error \<Rightarrow> bool" where
  "isDepositDeferred ErrDepositFeeTooHigh = True"
| "isDepositDeferred ErrContractNotActive = True"
| "isDepositDeferred (ErrFee ErrContractNotDeployed) = True"
| "isDepositDeferred _ = False"

definition state_of_info :: "bls_pubkey \<Rightarrow> BuilderInfo \<Rightarrow> BuilderState" where
  "state_of_info pubkey info = \<lparr>bs_Pubkey = pubkey, bs_Index = bi_Index info, bs_IsRegistered = True,
     bs_Balance = bi_Balance info, bs_DepositEpoch = bi_DepositEpoch info,
     bs_WithdrawableEpoch = bi_WithdrawableEpoch info\<rparr>"

definition IsBuilderRegistered :: "life_env \<Rightarrow> bool \<times> BuilderState" where
  "IsBuilderRegistered env =
     (case lf_builder env of
        None \<Rightarrow> (False, \<lparr>bs_Pubkey = lf_pubkey env, bs_Index = 0, bs_IsRegistered = False, bs_Balance = 0,
                  bs_DepositEpoch = 0, bs_WithdrawableEpoch = 0\<rparr>)
      | Some info \<Rightarrow> (True, state_of_info (lf_pubkey env) info))"

definition resolveDepositFee :: "life_env \<Rightarrow> life_error + nat" where
  "resolveDepositFee env =
     (case ReadQueueFee (lf_depositCode env) (lf_depositExcess env) of
        Inl e \<Rightarrow> Inl (ErrFee e)
      | Inr None \<Rightarrow> Inl ErrContractNotActive
      | Inr (Some fee) \<Rightarrow>
          (let maxFeeGwei = cfg_DepositMaxFeeGwei (lf_cfg env) in
           if maxFeeGwei > 0 \<and> fee > GweiToWei maxFeeGwei then Inl ErrDepositFeeTooHigh else Inr fee))"

definition SendAndConfirm :: "life_env \<Rightarrow> address \<Rightarrow> nat \<Rightarrow> u8 list \<Rightarrow> Manager \<Rightarrow> life_error option \<times> Manager" where
  "SendAndConfirm env dest v calldata m =
     (if lf_confirms env
      then (None, m\<lparr>mg_sent := mg_sent m @ [\<lparr>tx_To = dest, tx_Value = v, tx_Data = calldata\<rparr>]\<rparr>)
      else (Some ErrTransaction, m))"

definition CreateDeposit :: "life_env \<Rightarrow> u64 \<Rightarrow> Manager \<Rightarrow> life_error option \<times> Manager" where
  "CreateDeposit env amountGwei m =
     (if HasBuilderExited (lf_builder env) then (Some ErrBuilderExited, m)
      else
        let creds = BuilderWithdrawalCredentials (lf_wallet env) in
        case lf_sign env creds amountGwei of
          None \<Rightarrow> (Some ErrSigning, m)
        | Some signature \<Rightarrow>
            (case BuildBuilderDepositCalldata (lf_pubkey env) creds amountGwei signature of
               Inl e \<Rightarrow> (Some (ErrCalldata e), m)
             | Inr calldata \<Rightarrow>
                 (case resolveDepositFee env of
                    Inl e \<Rightarrow> (Some e, m)
                  | Inr fee \<Rightarrow> SendAndConfirm env BuilderDepositContractAddress (GweiToWei amountGwei + fee) calldata m)))"

definition CreateTopup :: "life_env \<Rightarrow> u64 \<Rightarrow> Manager \<Rightarrow> life_error option \<times> Manager" where
  "CreateTopup env amountGwei m = CreateDeposit env amountGwei m"

definition HasPendingDeposit :: "life_env \<Rightarrow> bool" where
  "HasPendingDeposit env =
     (case lf_stats env of None \<Rightarrow> False
      | Some stats \<Rightarrow> list_ex (\<lambda>d. di_Pubkey d = lf_pubkey env) (es_PendingDeposits stats))"

definition CreateEarlyDeposit :: "life_env \<Rightarrow> u64 \<Rightarrow> Manager \<Rightarrow> life_error option \<times> Manager" where
  "CreateEarlyDeposit env amountGwei m =
     (case DepositContractAddress (lf_spec env) of
        None \<Rightarrow> (Some ErrNoDepositContract, m)
      | Some depositContract \<Rightarrow>
          (case lf_earlyData env (ValidatorWithdrawalCredentials (lf_wallet env)) amountGwei of
             None \<Rightarrow> (Some ErrSigning, m)
           | Some calldata \<Rightarrow> SendAndConfirm env depositContract (GweiToWei amountGwei) calldata m))"

section \<open>Exits\<close>

definition CreateExit :: "life_env \<Rightarrow> Manager \<Rightarrow> life_error option \<times> Manager" where
  "CreateExit env m =
     (case BuildBuilderExitCalldata (lf_pubkey env) of
        Inl e \<Rightarrow> (Some (ErrCalldata e), m)
      | Inr calldata \<Rightarrow>
          (case ReadQueueFee (lf_exitCode env) (lf_exitExcess env) of
             Inl e \<Rightarrow> (Some (ErrFee e), m)
           | Inr None \<Rightarrow> (Some ErrContractNotActive, m)
           | Inr (Some fee) \<Rightarrow> SendAndConfirm env BuilderExitContractAddress fee calldata m))"

definition InitiateExit :: "life_env \<Rightarrow> Manager \<Rightarrow> life_error option \<times> Manager" where
  "InitiateExit env m =
     (if \<not> bs_IsRegistered (mg_builderState m) then (Some ErrNotRegistered, m)
      else if HasBuilderExited (lf_builder env)
      then (Some (ErrExitInitiated (bi_WithdrawableEpoch (the (lf_builder env)))), m)
      else if (case lf_builder env of None \<Rightarrow> False | Some info \<Rightarrow> bi_PendingPayments info > 0)
      then (Some (ErrPendingPayments (bi_PendingPayments (the (lf_builder env)))), m)
      else (case CreateExit env (fireEvent ''exit'' ''info'' m) of
              (Some e, m) \<Rightarrow> (Some e, fireEvent ''exit'' ''error'' m)
            | (None, m) \<Rightarrow> (None, fireEvent ''exit'' ''success'' m)))"

section \<open>Balance and top-ups\<close>

definition GetCurrentBalance :: "life_env \<Rightarrow> life_error + u64" where
  "GetCurrentBalance env =
     (case IsBuilderRegistered env of (False, _) \<Rightarrow> Inl ErrNotRegistered | (True, state) \<Rightarrow> Inr (bs_Balance state))"

definition GetEffectiveBalance :: "life_env \<Rightarrow> PaymentTracker \<Rightarrow> life_error + u64" where
  "GetEffectiveBalance env payments =
     (case IsBuilderRegistered env of
        (False, _) \<Rightarrow> Inl ErrNotRegistered
      | (True, state) \<Rightarrow>
          (let liveBalance = swrap64 (i64_of_u64 (bs_Balance state) + GetBalanceAdjustment payments);
               effective = u64_of_i64 (if liveBalance < 0 then 0 else liveBalance)
           in case lf_builder env of
                None \<Rightarrow> Inr effective
              | Some info \<Rightarrow>
                  if bi_PendingPayments info > 0
                  then if bi_PendingPayments info \<ge> effective then Inr 0 else Inr (effective - bi_PendingPayments info)
                  else Inr effective))"

definition topup_amount :: "Config \<Rightarrow> u64" where
  "topup_amount cfg = (if cfg_TopupAmount cfg = 0 then cfg_TopupThreshold cfg else cfg_TopupAmount cfg)"

definition NeedsTopup :: "life_env \<Rightarrow> PaymentTracker \<Rightarrow> epoch \<Rightarrow> life_error + u64 option" where
  "NeedsTopup env payments lastTopupEpoch =
     (if HasBuilderExited (lf_builder env) then Inl ErrBuilderExited
      else case GetEffectiveBalance env payments of
             Inl e \<Rightarrow> Inl e
           | Inr effectiveBalance \<Rightarrow>
               if effectiveBalance \<ge> cfg_TopupThreshold (lf_cfg env) then Inr None
               else if lastTopupEpoch \<noteq> 0 \<and> lf_epoch env < lastTopupEpoch + topupCooldownEpochs then Inr None
               else Inr (Some (topup_amount (lf_cfg env))))"

definition CheckAndTopup :: "life_env \<Rightarrow> PaymentTracker \<Rightarrow> Manager \<Rightarrow> life_error option \<times> Manager" where
  "CheckAndTopup env payments m =
     (case NeedsTopup env payments (mg_lastTopupEpoch m) of
        Inl e \<Rightarrow> (Some e, m)
      | Inr None \<Rightarrow> (None, m)
      | Inr (Some amount) \<Rightarrow>
          (case CreateTopup env amount m of
             (Some e, m) \<Rightarrow> (Some e, m)
           | (None, m) \<Rightarrow> (None, m\<lparr>mg_lastTopupEpoch := lf_epoch env\<rparr>)))"

section \<open>Manager\<close>

definition onRegistered :: "u64 \<Rightarrow> Manager \<Rightarrow> Manager" where
  "onRegistered index m = m\<lparr>mg_registrationDone := True, mg_registered := mg_registered m @ [index]\<rparr>"

definition noticeExitOnce :: "Manager \<Rightarrow> Manager" where
  "noticeExitOnce m =
     (if mg_exitNoticed m then m else fireEvent ''state_change'' ''warning'' (m\<lparr>mg_exitNoticed := True\<rparr>))"

definition refreshBuilderState :: "life_env \<Rightarrow> Manager \<Rightarrow> Manager" where
  "refreshBuilderState env m =
     (case lf_builder env of
        None \<Rightarrow> m
      | Some info \<Rightarrow>
          (let m = (if HasBuilderExited (Some info) then noticeExitOnce m else m\<lparr>mg_exitNoticed := False\<rparr>)
           in m\<lparr>mg_builderState := state_of_info (lf_pubkey env) info\<rparr>))"

definition monitor_tick :: "life_env \<Rightarrow> Manager \<Rightarrow> Manager" where
  "monitor_tick env m =
     (let m = refreshBuilderState env m in
      case mg_payments m of
        None \<Rightarrow> m
      | Some payments \<Rightarrow>
          if \<not> mg_enabled m then m
          else case NeedsTopup env payments (mg_lastTopupEpoch m) of
                 Inl e \<Rightarrow> m
               | Inr None \<Rightarrow> m
               | Inr (Some amount) \<Rightarrow>
                   (case CheckAndTopup env payments (fireEvent ''balance_topup'' ''info'' m) of
                      (Some e, m) \<Rightarrow> fireEvent ''balance_topup'' (if isDepositDeferred e then ''info'' else ''error'') m
                    | (None, m) \<Rightarrow>
                        fireEvent ''balance_topup'' ''success''
                          (m\<lparr>mg_payments := map_option (AddDeposit (lf_epoch env) amount) (mg_payments m)\<rparr>)))"

text \<open>\<open>Inr True\<close> when the builder is registered, \<open>Inr False\<close> when a deposit was sent and is awaited.\<close>

definition EnsureBuilderRegistered :: "life_env \<Rightarrow> Manager \<Rightarrow> (life_error + bool) \<times> Manager" where
  "EnsureBuilderRegistered env m =
     (case IsBuilderRegistered env of
        (True, state) \<Rightarrow>
          (let m = onRegistered (bs_Index state) (fireEvent ''state_change'' ''info'' (m\<lparr>mg_builderState := state\<rparr>))
           in (Inr True, if bs_WithdrawableEpoch state \<noteq> FarFutureEpoch then noticeExitOnce m else m))
      | (False, state) \<Rightarrow>
          (let m = fireEvent ''deposit'' ''info'' (m\<lparr>mg_builderState := state\<rparr>);
               m = m\<lparr>mg_depositPending := mg_depositPending m + 1\<rparr>
           in case CreateDeposit env (cfg_DepositAmount (lf_cfg env)) m of
                (Some e, m) \<Rightarrow> (Inl e, fireEvent ''deposit'' (if isDepositDeferred e then ''info'' else ''error'') m)
              | (None, m) \<Rightarrow> (Inr False, fireEvent ''deposit'' ''success'' m)))"

text \<open>The check of \<open>WaitForRegistration\<close> in every slot, after a successful refresh.\<close>

definition registration_tick :: "life_env \<Rightarrow> Manager \<Rightarrow> bool \<times> Manager" where
  "registration_tick env m =
     (case lf_builder env of
        None \<Rightarrow> (False, m)
      | Some info \<Rightarrow>
          (True, onRegistered (bi_Index info)
             (fireEvent ''state_change'' ''success'' (m\<lparr>mg_builderState := state_of_info (lf_pubkey env) info\<rparr>))))"

datatype early_result = EarlyDone | EarlyAgain | EarlyAwait

definition slotsUntilFork :: "life_env \<Rightarrow> epoch \<Rightarrow> u64" where
  "slotsUntilFork env forkEpoch = forkEpoch * SlotsPerEpoch (lf_spec env) - lf_slot env"

definition lastSafeEpoch :: "life_env \<Rightarrow> epoch \<Rightarrow> bool" where
  "lastSafeEpoch env forkEpoch =
     ((forkEpoch - lf_epoch env - 1) * SlotsPerEpoch (lf_spec env) < minEarlyOnboardSlots)"

definition shouldDeposit :: "life_env \<Rightarrow> epoch \<Rightarrow> bool" where
  "shouldDeposit env forkEpoch =
     (lastSafeEpoch env forkEpoch \<or>
      forkEpoch - lf_epoch env \<ge> earlyOnboardFinalizationMargin \<and>
      depositSurvivesUntilFork (lf_stats env) (lf_spec env) (cfg_DepositAmount (lf_cfg env)) forkEpoch)"

definition tryEarlyOnboardOnce :: "life_env \<Rightarrow> epoch \<Rightarrow> Manager \<Rightarrow> early_result \<times> Manager" where
  "tryEarlyOnboardOnce env forkEpoch m =
     (if \<not> mg_enabled m then (EarlyAgain, m)
      else case lf_builder env of
             Some info \<Rightarrow> (EarlyDone, onRegistered (bi_Index info) m)
           | None \<Rightarrow>
               if lf_epoch env \<ge> forkEpoch then (EarlyDone, m)
               else if HasPendingDeposit env then (EarlyAwait, fireEvent ''early_onboard'' ''info'' m)
               else if slotsUntilFork env forkEpoch < minEarlyOnboardSlots
               then (EarlyDone, fireEvent ''early_onboard'' ''info'' m)
               else if \<not> shouldDeposit env forkEpoch then (EarlyAgain, m)
               else
                 let m = fireEvent ''early_onboard'' ''info'' m;
                     m = m\<lparr>mg_depositPending := mg_depositPending m + 1\<rparr>
                 in case CreateEarlyDeposit env (cfg_DepositAmount (lf_cfg env)) m of
                      (Some e, m) \<Rightarrow> (EarlyAgain, fireEvent ''early_onboard'' ''warning'' m)
                    | (None, m) \<Rightarrow> (EarlyAwait, fireEvent ''early_onboard'' ''success'' m))"

definition early_applies :: "life_env \<Rightarrow> bool" where
  "early_applies env \<longleftrightarrow>
     IsForkScheduled (lf_spec env) DataVersionGloas \<and> DepositContractAddress (lf_spec env) \<noteq> None \<and>
     \<not> IsForkActive (lf_spec env) DataVersionGloas (lf_epoch env) \<and> lf_builder env = None"

definition gloas_loaded :: "life_env \<Rightarrow> bool" where
  "gloas_loaded env = (case lf_stats env of None \<Rightarrow> False | Some st \<Rightarrow> es_Version st \<ge> DataVersionGloas)"

text \<open>The phases of \<open>runRegistrationAndMonitor\<close>; the early ones carry the fork epoch.\<close>

datatype phase =
    WaitEnabled | EarlyWindow epoch | EarlyRegistration epoch | WaitGloas | AwaitRegistration | RetryPause | Monitor | Halted

definition attempt_registration :: "life_env \<Rightarrow> Manager \<Rightarrow> phase \<times> Manager" where
  "attempt_registration env m =
     (case EnsureBuilderRegistered env m of
        (Inr True, m) \<Rightarrow> (Monitor, m)
      | (Inr False, m) \<Rightarrow> (AwaitRegistration, m)
      | (Inl e, m) \<Rightarrow> (RetryPause, if isDepositDeferred e then m else fireEvent ''deposit'' ''warning'' m))"

definition enter_registration :: "life_env \<Rightarrow> Manager \<Rightarrow> phase \<times> Manager" where
  "enter_registration env m = (if mg_registrationDone m then (Monitor, m) else attempt_registration env m)"

definition waitForGloasState :: "life_env \<Rightarrow> Manager \<Rightarrow> phase \<times> Manager" where
  "waitForGloasState env m =
     (if gloas_loaded env then enter_registration env m else (WaitGloas, fireEvent ''waiting_gloas'' ''info'' m))"

definition early_attempt :: "life_env \<Rightarrow> epoch \<Rightarrow> Manager \<Rightarrow> phase \<times> Manager" where
  "early_attempt env forkEpoch m =
     (case tryEarlyOnboardOnce env forkEpoch m of
        (EarlyDone, m) \<Rightarrow> waitForGloasState env m
      | (EarlyAgain, m) \<Rightarrow> (EarlyWindow forkEpoch, m)
      | (EarlyAwait, m) \<Rightarrow> (EarlyRegistration forkEpoch, m))"

definition maybeEarlyOnboard :: "life_env \<Rightarrow> Manager \<Rightarrow> phase \<times> Manager" where
  "maybeEarlyOnboard env m =
     (if \<not> early_applies env then waitForGloasState env m
      else early_attempt env (GetForkEpoch (lf_spec env) DataVersionGloas) (fireEvent ''early_onboard'' ''info'' m))"

definition life_start :: "life_env \<Rightarrow> Manager \<Rightarrow> phase \<times> Manager" where
  "life_start env m = (if mg_enabled m then maybeEarlyOnboard env m else (WaitEnabled, m))"

text \<open>The events of the loops, and calls from outside.\<close>

datatype life_op =
    LfPoll life_env | LfEpoch life_env | LfSlot life_env | LfTimeout life_env | LfRetry life_env | LfMinute life_env
  | LfEnable bool | LfExit life_env | LfStop

fun op_env :: "life_op \<Rightarrow> life_env option" where
  "op_env (LfPoll env) = Some env"
| "op_env (LfEpoch env) = Some env"
| "op_env (LfSlot env) = Some env"
| "op_env (LfTimeout env) = Some env"
| "op_env (LfRetry env) = Some env"
| "op_env (LfMinute env) = Some env"
| "op_env (LfEnable b) = None"
| "op_env (LfExit env) = Some env"
| "op_env LfStop = None"

fun life_step :: "life_op \<Rightarrow> phase \<times> Manager \<Rightarrow> phase \<times> Manager" where
  "life_step (LfEnable b) (p, m) = (p, SetEnabled b m)"
| "life_step (LfExit env) (p, m) = (p, snd (InitiateExit env m))"
| "life_step LfStop (p, m) =
     (Halted, case p of EarlyRegistration e \<Rightarrow> fireEvent ''early_onboard'' ''warning'' m | _ \<Rightarrow> m)"
| "life_step (LfPoll env) (p, m) =
     (if p = WaitEnabled \<and> mg_enabled m then maybeEarlyOnboard env (fireEvent ''state_change'' ''success'' m) else (p, m))"
| "life_step (LfEpoch env) (p, m) =
     (case p of
        EarlyWindow forkEpoch \<Rightarrow> early_attempt env forkEpoch m
      | WaitGloas \<Rightarrow> if gloas_loaded env then enter_registration env (fireEvent ''state_change'' ''success'' m) else (p, m)
      | _ \<Rightarrow> (p, m))"
| "life_step (LfSlot env) (p, m) =
     (case p of
        EarlyRegistration forkEpoch \<Rightarrow>
          (case registration_tick env m of (True, m) \<Rightarrow> waitForGloasState env m | (False, m) \<Rightarrow> (p, m))
      | AwaitRegistration \<Rightarrow>
          (case registration_tick env m of (True, m) \<Rightarrow> (Monitor, m) | (False, m) \<Rightarrow> (p, m))
      | _ \<Rightarrow> (p, m))"
| "life_step (LfTimeout env) (p, m) =
     (case p of
        EarlyRegistration forkEpoch \<Rightarrow> waitForGloasState env (fireEvent ''early_onboard'' ''warning'' m)
      | AwaitRegistration \<Rightarrow> (RetryPause, fireEvent ''deposit'' ''warning'' m)
      | _ \<Rightarrow> (p, m))"
| "life_step (LfRetry env) (p, m) = (if p = RetryPause then attempt_registration env m else (p, m))"
| "life_step (LfMinute env) (p, m) = (if p = Monitor then (Monitor, monitor_tick env m) else (p, m))"

definition life_run :: "life_op list \<Rightarrow> phase \<times> Manager \<Rightarrow> phase \<times> Manager" where
  "life_run ops pm = fold life_step ops pm"

section \<open>What a transaction must satisfy\<close>

definition deposit_tx_ok :: "life_env \<Rightarrow> life_tx \<Rightarrow> bool" where
  "deposit_tx_ok env tx \<longleftrightarrow>
     tx_To tx = BuilderDepositContractAddress \<and> \<not> HasBuilderExited (lf_builder env) \<and>
     (\<exists>amount fee signature. amount \<in> {cfg_DepositAmount (lf_cfg env), topup_amount (lf_cfg env)} \<and>
        resolveDepositFee env = Inr fee \<and> tx_Value tx = GweiToWei amount + fee \<and>
        lf_sign env (BuilderWithdrawalCredentials (lf_wallet env)) amount = Some signature \<and>
        BuildBuilderDepositCalldata (lf_pubkey env) (BuilderWithdrawalCredentials (lf_wallet env)) amount signature =
          Inr (tx_Data tx))"

definition early_tx_ok :: "life_env \<Rightarrow> life_tx \<Rightarrow> bool" where
  "early_tx_ok env tx \<longleftrightarrow>
     DepositContractAddress (lf_spec env) = Some (tx_To tx) \<and> lf_builder env = None \<and> \<not> HasPendingDeposit env \<and>
     tx_Value tx = GweiToWei (cfg_DepositAmount (lf_cfg env)) \<and>
     (\<exists>forkEpoch > lf_epoch env. minEarlyOnboardSlots \<le> slotsUntilFork env forkEpoch \<and> shouldDeposit env forkEpoch)"

definition exit_tx_ok :: "life_env \<Rightarrow> life_tx \<Rightarrow> bool" where
  "exit_tx_ok env tx \<longleftrightarrow>
     tx_To tx = BuilderExitContractAddress \<and> tx_Data tx = lf_pubkey env \<and> length (lf_pubkey env) = 48 \<and>
     ReadQueueFee (lf_exitCode env) (lf_exitExcess env) = Inr (Some (tx_Value tx)) \<and>
     (case lf_builder env of None \<Rightarrow> True
      | Some info \<Rightarrow> bi_WithdrawableEpoch info = FarFutureEpoch \<and> bi_PendingPayments info = 0)"

definition tx_ok :: "life_env \<Rightarrow> life_tx \<Rightarrow> bool" where
  "tx_ok env tx \<longleftrightarrow> deposit_tx_ok env tx \<or> early_tx_ok env tx \<or> exit_tx_ok env tx"

definition sends :: "life_env \<Rightarrow> Manager \<Rightarrow> Manager \<Rightarrow> bool" where
  "sends env m m' \<longleftrightarrow> (\<exists>txs. mg_sent m' = mg_sent m @ txs \<and> list_all (tx_ok env) txs)"

lemma sends_refl [intro, simp]: "mg_sent m' = mg_sent m \<Longrightarrow> sends env m m'"
  by (simp add: sends_def)

lemma sends_trans [trans]: "sends env m m' \<Longrightarrow> sends env m' m'' \<Longrightarrow> sends env m m''"
  by (auto simp: sends_def)

lemma sends_cong: "sends env m1 m' \<Longrightarrow> mg_sent m1 = mg_sent m \<Longrightarrow> sends env m m'"
  by (simp add: sends_def)

lemma sent_quiet [simp]:
  "mg_sent (fireEvent a s m) = mg_sent m" "mg_sent (onRegistered i m) = mg_sent m" "mg_sent (noticeExitOnce m) = mg_sent m"
  "mg_sent (refreshBuilderState env m) = mg_sent m" "mg_sent (SetEnabled b m) = mg_sent m"
  "mg_sent (snd (registration_tick env m)) = mg_sent m"
  by (simp_all add: fireEvent_def onRegistered_def noticeExitOnce_def refreshBuilderState_def SetEnabled_def
      registration_tick_def Let_def split: option.split)

lemma sends_quiet [simp]: "sends env m (fireEvent a s m') = sends env m m'" "sends env (fireEvent a s m) m' = sends env m m'"
  by (simp_all add: sends_def)

lemma CreateDeposit_sends:
  assumes "amount \<in> {cfg_DepositAmount (lf_cfg env), topup_amount (lf_cfg env)}"
  shows "sends env m (snd (CreateDeposit env amount m))"
proof (cases "snd (CreateDeposit env amount m) = m")
  case False
  then obtain signature calldata fee where
    "\<not> HasBuilderExited (lf_builder env)" "lf_sign env (BuilderWithdrawalCredentials (lf_wallet env)) amount = Some signature"
    "BuildBuilderDepositCalldata (lf_pubkey env) (BuilderWithdrawalCredentials (lf_wallet env)) amount signature = Inr calldata"
    "resolveDepositFee env = Inr fee"
    "snd (CreateDeposit env amount m) = m\<lparr>mg_sent := mg_sent m @ [\<lparr>tx_To = BuilderDepositContractAddress,
       tx_Value = GweiToWei amount + fee, tx_Data = calldata\<rparr>]\<rparr>"
    by (auto simp: CreateDeposit_def SendAndConfirm_def Let_def split: if_splits option.splits sum.splits)
  moreover from this assms have "deposit_tx_ok env \<lparr>tx_To = BuilderDepositContractAddress,
       tx_Value = GweiToWei amount + fee, tx_Data = calldata\<rparr>"
    unfolding deposit_tx_ok_def by auto
  ultimately show ?thesis by (simp add: sends_def tx_ok_def)
qed simp

lemma CreateDeposit_sends':
  assumes "CreateDeposit env amount m1 = (r, m')" "amount \<in> {cfg_DepositAmount (lf_cfg env), topup_amount (lf_cfg env)}"
    and "mg_sent m1 = mg_sent m"
  shows "sends env m m'"
  using CreateDeposit_sends [OF assms(2), of m1] assms(1,3) by (simp add: sends_def)

lemma EnsureBuilderRegistered_sends:
  assumes "EnsureBuilderRegistered env m = (r, m')"
  shows "sends env m m'"
proof (cases "lf_builder env")
  case None
  define m1 where "m1 = (fireEvent ''deposit'' ''info'' (m\<lparr>mg_builderState := snd (IsBuilderRegistered env)\<rparr>))
    \<lparr>mg_depositPending := mg_depositPending m + 1\<rparr>"
  have sent: "mg_sent m1 = mg_sent m" by (simp add: m1_def fireEvent_def)
  obtain e m2 where c: "CreateDeposit env (cfg_DepositAmount (lf_cfg env)) m1 = (e, m2)" by force
  have "sends env m m2" using CreateDeposit_sends' [OF c _ sent] by simp
  moreover have "mg_depositPending (fireEvent a x m0) = mg_depositPending m0" for a x m0 by (simp add: fireEvent_def)
  ultimately show ?thesis
    using assms None c by (auto simp: EnsureBuilderRegistered_def IsBuilderRegistered_def Let_def m1_def split: option.splits)
next
  case (Some info)
  then show ?thesis
    using assms by (auto simp: EnsureBuilderRegistered_def IsBuilderRegistered_def Let_def)
qed

lemma CheckAndTopup_sends:
  assumes "CheckAndTopup env payments m1 = (r, m')" "mg_sent m1 = mg_sent m"
  shows "sends env m m'"
proof (cases "NeedsTopup env payments (mg_lastTopupEpoch m1)")
  case (Inr am)
  show ?thesis
  proof (cases am)
    case (Some amount)
    have a: "amount = topup_amount (lf_cfg env)"
      using Inr Some by (auto simp: NeedsTopup_def split: if_splits sum.splits)
    obtain e m2 where c: "CreateDeposit env amount m1 = (e, m2)" by force
    have "sends env m m2" using CreateDeposit_sends' [OF c _ assms(2)] a by simp
    then show ?thesis using assms(1) Inr Some c by (auto simp: CheckAndTopup_def CreateTopup_def sends_def split: option.splits)
  qed (use assms Inr in \<open>simp add: CheckAndTopup_def\<close>)
qed (use assms in \<open>simp add: CheckAndTopup_def\<close>)

lemma monitor_tick_sends: "sends env m (monitor_tick env m)"
proof -
  define m1 where "m1 = refreshBuilderState env m"
  have sent: "mg_sent m1 = mg_sent m" by (simp add: m1_def)
  have "sends env m (case CheckAndTopup env payments (fireEvent a x m1) of
      (Some e, m) \<Rightarrow> fireEvent b (f e) m | (None, m) \<Rightarrow> fireEvent c y (m\<lparr>mg_payments := g m\<rparr>))" for payments a x b c y f g
  proof -
    obtain e m2 where c: "CheckAndTopup env payments (fireEvent a x m1) = (e, m2)" by force
    have "sends env m m2" using CheckAndTopup_sends [OF c] sent by simp
    then show ?thesis unfolding c by (cases e) (simp_all add: sends_def)
  qed
  then show ?thesis
    using sent by (simp add: monitor_tick_def Let_def m1_def [symmetric] split: option.split sum.split)
qed

lemma CreateEarlyDeposit_sends:
  assumes "CreateEarlyDeposit env (cfg_DepositAmount (lf_cfg env)) m1 = (r, m')" "mg_sent m1 = mg_sent m"
    and "lf_builder env = None" "\<not> HasPendingDeposit env" "lf_epoch env < forkEpoch"
      "minEarlyOnboardSlots \<le> slotsUntilFork env forkEpoch" "shouldDeposit env forkEpoch"
  shows "sends env m m'"
proof (cases "m' = m1")
  case False
  then obtain addr calldata where "DepositContractAddress (lf_spec env) = Some addr"
    "m' = m1\<lparr>mg_sent := mg_sent m1 @ [\<lparr>tx_To = addr, tx_Value = GweiToWei (cfg_DepositAmount (lf_cfg env)), tx_Data = calldata\<rparr>]\<rparr>"
    using assms(1) by (auto simp: CreateEarlyDeposit_def SendAndConfirm_def split: if_splits option.splits)
  then show ?thesis using assms(2-) by (auto simp: sends_def tx_ok_def early_tx_ok_def)
qed (simp add: assms(2))

lemma tryEarlyOnboardOnce_sends: "sends env m (snd (tryEarlyOnboardOnce env forkEpoch m))"
proof -
  define m1 where "m1 = (fireEvent ''early_onboard'' ''info'' m)\<lparr>mg_depositPending := mg_depositPending m + 1\<rparr>"
  have sent: "mg_sent m1 = mg_sent m" by (simp add: m1_def)
  obtain e m2 where c: "CreateEarlyDeposit env (cfg_DepositAmount (lf_cfg env)) m1 = (e, m2)" by force
  have pend: "mg_depositPending (fireEvent a x m0) = mg_depositPending m0" for a x m0 by (simp add: fireEvent_def)
  show ?thesis
  proof (cases "mg_enabled m \<and> lf_builder env = None \<and> \<not> lf_epoch env \<ge> forkEpoch \<and> \<not> HasPendingDeposit env \<and>
      \<not> slotsUntilFork env forkEpoch < minEarlyOnboardSlots \<and> shouldDeposit env forkEpoch")
    case True
    then have "sends env m m2" using CreateEarlyDeposit_sends [OF c sent, of forkEpoch] by (simp add: not_le not_less)
    then show ?thesis using True c
      by (cases e) (simp_all add: tryEarlyOnboardOnce_def Let_def m1_def pend)
  next
    case False
    then show ?thesis by (auto simp: tryEarlyOnboardOnce_def split: option.split)
  qed
qed

lemma InitiateExit_sends: "sends env m (snd (InitiateExit env m))"
proof (cases "snd (CreateExit env (fireEvent ''exit'' ''info'' m)) = fireEvent ''exit'' ''info'' m")
  case True
  then show ?thesis
    by (auto simp: InitiateExit_def split: option.split prod.split)
next
  case False
  then obtain fee where c: "length (lf_pubkey env) = 48" "ReadQueueFee (lf_exitCode env) (lf_exitExcess env) = Inr (Some fee)"
    "CreateExit env (fireEvent ''exit'' ''info'' m) = (None, (fireEvent ''exit'' ''info'' m)\<lparr>mg_sent :=
       mg_sent m @ [\<lparr>tx_To = BuilderExitContractAddress, tx_Value = fee, tx_Data = lf_pubkey env\<rparr>]\<rparr>)"
    by (auto simp: CreateExit_def BuildBuilderExitCalldata_def SendAndConfirm_def split: if_splits option.splits sum.splits)
  show ?thesis
  proof (cases "HasBuilderExited (lf_builder env) \<or> (case lf_builder env of None \<Rightarrow> False | Some info \<Rightarrow> bi_PendingPayments info > 0)")
    case True
    then show ?thesis by (auto simp: InitiateExit_def)
  next
    case False
    then have "exit_tx_ok env \<lparr>tx_To = BuilderExitContractAddress, tx_Value = fee, tx_Data = lf_pubkey env\<rparr>"
      using c by (auto simp: exit_tx_ok_def HasBuilderExited_def word_neq_0_conv [symmetric] split: option.split)
    then show ?thesis using c(3) False by (simp add: InitiateExit_def sends_def tx_ok_def)
  qed
qed

section \<open>Steps\<close>

lemma attempt_registration_sends: "sends env m (snd (attempt_registration env m))"
proof -
  obtain r m1 where e: "EnsureBuilderRegistered env m = (r, m1)" by force
  show ?thesis
    using EnsureBuilderRegistered_sends [OF e] by (simp add: attempt_registration_def e split: sum.split bool.split)
qed

lemma waitForGloasState_sends: "sends env m (snd (waitForGloasState env m))"
  using attempt_registration_sends [of env m] by (simp add: waitForGloasState_def enter_registration_def)

lemma early_attempt_sends: "sends env m (snd (early_attempt env forkEpoch m))"
proof -
  obtain r m1 where e: "tryEarlyOnboardOnce env forkEpoch m = (r, m1)" by force
  then have "sends env m m1" using tryEarlyOnboardOnce_sends [of env m forkEpoch] by simp
  then show ?thesis
    using sends_trans [OF _ waitForGloasState_sends] by (simp add: early_attempt_def e split: early_result.split)
qed

lemma maybeEarlyOnboard_sends: "sends env m (snd (maybeEarlyOnboard env m))"
  using waitForGloasState_sends [of env m] early_attempt_sends [of env "fireEvent ''early_onboard'' ''info'' m"]
  by (simp add: maybeEarlyOnboard_def)

lemma life_start_sends: "sends env m (snd (life_start env m))"
  using maybeEarlyOnboard_sends by (simp add: life_start_def)

lemma registration_tick_sends: "registration_tick env m = (b, m') \<Longrightarrow> sends env m m'"
  using sent_quiet(6) [of env m] by (intro sends_refl) simp

lemmas step_sends = attempt_registration_sends waitForGloasState_sends early_attempt_sends maybeEarlyOnboard_sends
  monitor_tick_sends InitiateExit_sends

lemma life_step_sends:
  "case op_env op of
     None \<Rightarrow> mg_sent (snd (life_step op (p, m))) = mg_sent m
   | Some env \<Rightarrow> sends env m (snd (life_step op (p, m)))"
proof (cases op)
  case (LfPoll env)
  then show ?thesis using maybeEarlyOnboard_sends [of env "fireEvent ''state_change'' ''success'' m"] by simp
next
  case (LfEpoch env)
  then show ?thesis
    using early_attempt_sends attempt_registration_sends [of env "fireEvent ''state_change'' ''success'' m"]
    by (simp add: enter_registration_def split: phase.split)
next
  case (LfSlot env)
  obtain b m1 where r: "registration_tick env m = (b, m1)" by force
  have "sends env m m1" using registration_tick_sends [OF r] .
  then show ?thesis
    using LfSlot sends_trans [OF _ waitForGloasState_sends] by (simp add: r split: phase.split bool.split)
next
  case (LfTimeout env)
  then show ?thesis
    using waitForGloasState_sends [of env "fireEvent ''early_onboard'' ''warning'' m"] by (simp split: phase.split)
qed (simp_all add: step_sends split: phase.split)

definition op_envs :: "life_op list \<Rightarrow> life_env set" where
  "op_envs ops = {env. \<exists>op \<in> set ops. op_env op = Some env}"

lemma life_run_sent:
  "\<forall>tx \<in> set (mg_sent (snd (life_run ops pm))). tx \<in> set (mg_sent (snd pm)) \<or> (\<exists>env \<in> op_envs ops. tx_ok env tx)"
proof (induction ops arbitrary: pm)
  case (Cons op ops)
  obtain p m where pm: "pm = (p, m)" by force
  have step: "tx \<in> set (mg_sent m) \<or> (\<exists>env \<in> op_envs [op]. tx_ok env tx)"
    if "tx \<in> set (mg_sent (snd (life_step op (p, m))))" for tx
    using life_step_sends [of op p m] that
    by (auto simp: op_envs_def sends_def list_all_iff split: option.splits)
  have "op_envs [op] \<union> op_envs ops \<subseteq> op_envs (op # ops)" by (auto simp: op_envs_def)
  then show ?case using Cons.IH [of "life_step op pm"] step by (fastforce simp: life_run_def pm)
qed (simp add: life_run_def)

section \<open>Properties\<close>


text \<open>
  When the balance is topped up.  A top-up is sent exactly when the builder is registered and has
  not exited, its effective balance is below the threshold, no top-up was sent in the last eight
  epochs, and the deposit itself goes through; then the epoch is remembered, otherwise nothing
  changes.\<close>
theorem topup_decided:
  "case CheckAndTopup env payments m of (err, m') \<Rightarrow>
     (if (case lf_builder env of
            None \<Rightarrow> False
          | Some info \<Rightarrow> bi_WithdrawableEpoch info = FarFutureEpoch \<and>
              (case GetEffectiveBalance env payments of
                 Inl e \<Rightarrow> False | Inr balance \<Rightarrow> balance < cfg_TopupThreshold (lf_cfg env))) \<and>
         (mg_lastTopupEpoch m = 0 \<or> mg_lastTopupEpoch m + 8 \<le> lf_epoch env) \<and>
         fst (CreateDeposit env (topup_amount (lf_cfg env)) m) = None
      then err = None \<and> length (mg_sent m') = length (mg_sent m) + 1 \<and> mg_lastTopupEpoch m' = lf_epoch env
      else m' = m)"
proof -
  let ?c = "CreateDeposit env (topup_amount (lf_cfg env)) m"
  have c: "fst ?c = None \<and> length (mg_sent (snd ?c)) = length (mg_sent m) + 1 \<or> fst ?c \<noteq> None \<and> snd ?c = m"
    by (auto simp: CreateDeposit_def SendAndConfirm_def Let_def split: option.split sum.split)
  obtain e m1 where "?c = (e, m1)" by force
  then show ?thesis
    using c
    by (auto simp: CheckAndTopup_def CreateTopup_def NeedsTopup_def HasBuilderExited_def GetEffectiveBalance_def
        IsBuilderRegistered_def topupCooldownEpochs_def Let_def not_le not_less split: option.split)
qed

text \<open>
  The effective balance.  For a registered builder it is the balance on chain plus the local
  adjustment, not below zero, less the pending payments on chain, not below zero, as exact integers,
  as long as balance and sum fit a signed 64-bit integer.\<close>
theorem effective_balance_exact:
  assumes "lf_builder env = Some info" "uint (bi_Balance info) \<le> max_i64"
    and "is_i64 (uint (bi_Balance info) + GetBalanceAdjustment payments)"
  shows "map_sum id uint (GetEffectiveBalance env payments) =
    Inr (max 0 (max 0 (uint (bi_Balance info) + GetBalanceAdjustment payments) - uint (bi_PendingPayments info)))"
proof -
  define live where "live = uint (bi_Balance info) + GetBalanceAdjustment payments"
  have live: "swrap64 (i64_of_u64 (bi_Balance info) + GetBalanceAdjustment payments) = live"
    using assms(2,3) by (simp add: i64_of_u64_small swrap64_id live_def)
  have u: "uint (u64_of_i64 (if live < 0 then 0 else live)) = max 0 live"
    using assms(3) by (simp add: u64_of_i64_def live_def is_i64_def max_i64_def unsigned_of_int take_bit_int_eq_self)
  have zero: "\<not> 0 < uint w \<Longrightarrow> uint w = 0" for w :: u64 using uint_ge_0 [of w] by linarith
  show ?thesis
    using assms(1) u
    by (auto simp: GetEffectiveBalance_def IsBuilderRegistered_def state_of_info_def live live_def [symmetric] Let_def
        word_le_def word_less_def uint_sub_if' dest: zero)
qed

definition demo_life_env :: life_env where
  "demo_life_env = \<lparr>lf_cfg = DefaultConfig, lf_spec = demo_spec,
     lf_stats = Some (demo_queue_stats\<lparr>es_Builders := [\<lparr>bi_Index = 3, bi_Pubkey = [7], bi_Balance = 500, bi_Active = True,
       bi_DepositEpoch = 1, bi_WithdrawableEpoch = FarFutureEpoch, bi_PendingPayments = 40\<rparr>]\<rparr>),
     lf_epoch = 12, lf_slot = 384, lf_pubkey = [7], lf_wallet = replicate 20 1, lf_depositCode = Some [1],
     lf_depositExcess = Some [0], lf_exitCode = Some [1], lf_exitExcess = Some [0],
     lf_sign = (\<lambda>_ _. Some (replicate 96 0)), lf_earlyData = (\<lambda>_ _. Some []), lf_confirms = True\<rparr>"

theorem effective_balance_exact_witness:
  "map_sum id uint (GetEffectiveBalance demo_life_env (AddDeposit 12 100 NewPaymentTracker)) = Inr 560"
proof -
  let ?info = "\<lparr>bi_Index = 3, bi_Pubkey = [7], bi_Balance = 500, bi_Active = True, bi_DepositEpoch = 1,
    bi_WithdrawableEpoch = FarFutureEpoch, bi_PendingPayments = 40\<rparr>"
  have "lf_builder demo_life_env = Some ?info"
    by (simp add: lf_builder_def demo_life_env_def demo_queue_stats_def builder_by_pubkey_def)
  moreover have "GetBalanceAdjustment (AddDeposit 12 100 NewPaymentTracker) = 100"
    by (simp add: GetBalanceAdjustment_def AddDeposit_def NewPaymentTracker_def i64_of_u64_def swrap64_def)
  ultimately show ?thesis
    using effective_balance_exact [of demo_life_env ?info "AddDeposit 12 100 NewPaymentTracker"]
    by (simp add: max_i64_def min_i64_def is_i64_def)
qed

text \<open>
  Awaiting the registration ends after five minutes and counts as a failed attempt; the next attempt
  deposits again when the first deposit is still on its way.\<close>

lemma registration_timeout_deposits_again:
  assumes "lf_builder env = None" "fst (CreateDeposit env (cfg_DepositAmount (lf_cfg env)) m) = None"
  shows "length (mg_sent (snd (life_run [LfRetry env, LfTimeout env, LfRetry env] (RetryPause, m)))) = length (mg_sent m) + 2"
proof -
  have succeeds: "fst (CreateDeposit env a m1) = fst (CreateDeposit env a m)" for a m1
    by (auto simp: CreateDeposit_def SendAndConfirm_def Let_def split: option.split sum.split)
  have adds: "length (mg_sent (snd (CreateDeposit env a m1))) = length (mg_sent m1) + 1" if "fst (CreateDeposit env a m1) = None" for a m1
    using that by (auto simp: CreateDeposit_def SendAndConfirm_def Let_def split: option.splits sum.splits if_splits)
  have "\<exists>m2. attempt_registration env m1 = (AwaitRegistration, m2) \<and> length (mg_sent m2) = length (mg_sent m1) + 1" for m1
  proof -
    define m0 where "m0 = (fireEvent ''deposit'' ''info'' (m1\<lparr>mg_builderState := snd (IsBuilderRegistered env)\<rparr>))
      \<lparr>mg_depositPending := mg_depositPending m1 + 1\<rparr>"
    have m0: "mg_sent m0 = mg_sent m1" by (simp add: m0_def fireEvent_def)
    have pend: "mg_depositPending (fireEvent a x m9) = mg_depositPending m9" for a x m9 by (simp add: fireEvent_def)
    obtain m2 where "CreateDeposit env (cfg_DepositAmount (lf_cfg env)) m0 = (None, m2)"
      using succeeds [of _ m0] assms(2) by (metis prod.collapse)
    moreover from this have "length (mg_sent m2) = length (mg_sent m1) + 1"
      using adds [of "cfg_DepositAmount (lf_cfg env)" m0] m0 by simp
    ultimately show ?thesis
      using assms(1) by (simp add: attempt_registration_def EnsureBuilderRegistered_def IsBuilderRegistered_def Let_def m0_def pend)
  qed
  from this [of m] obtain m2 where m2: "attempt_registration env m = (AwaitRegistration, m2)" "length (mg_sent m2) = length (mg_sent m) + 1"
    by blast
  obtain m3 where "attempt_registration env (fireEvent ''deposit'' ''warning'' m2) = (AwaitRegistration, m3)"
    "length (mg_sent m3) = length (mg_sent m2) + 1"
    using \<open>\<And>m1. \<exists>m2. attempt_registration env m1 = _ \<and> _\<close> [of "fireEvent ''deposit'' ''warning'' m2"] by auto
  then show ?thesis using m2 by (simp add: life_run_def)
qed

end
