(* ===== verification/Attr_Events.thy ===== *)
theory Attr_Events
  imports Payload_Cache
begin

text \<open>
  The \<open>payload_attributes\<close> event and the cache of the latest one per slot, of
  \<open>pkg/rpc/beacon/events.go\<close>.  The cache is written by the stream and by the builder's fallback and
  read by the builder; \<open>ac_fired\<close> is what its dispatcher delivered.
\<close>

record Withdrawal =
  wd_Index :: u64
  wd_ValidatorIndex :: u64
  wd_Address :: address20
  wd_Amount :: u64

record PayloadAttributesEvent =
  pa_Version :: string
  pa_ProposalSlot :: slot
  pa_ProposerIndex :: u64
  pa_ParentBlockRoot :: hash32
  pa_ParentBlockNumber :: u64
  pa_ParentBlockHash :: hash32
  pa_Timestamp :: u64
  pa_PrevRandao :: hash32
  pa_SuggestedFeeRecipient :: address20
  pa_Withdrawals :: "Withdrawal list"
  pa_ParentBeaconBlockRoot :: hash32
  pa_TargetGasLimit :: u64
  pa_InclusionListTransactions :: "u8 list list"

record AttrStream =
  ac_cache :: "slot \<rightharpoonup> PayloadAttributesEvent"
  ac_fired :: "PayloadAttributesEvent list"

definition NewAttrStream :: AttrStream where
  "NewAttrStream = \<lparr>ac_cache = Map.empty, ac_fired = []\<rparr>"

definition GetLatestPayloadAttributes :: "slot \<Rightarrow> AttrStream \<Rightarrow> PayloadAttributesEvent option" where
  "GetLatestPayloadAttributes s es = ac_cache es s"

text \<open>An event of the node always replaces the cached one.\<close>

definition received_attributes :: "PayloadAttributesEvent \<Rightarrow> AttrStream \<Rightarrow> AttrStream" where
  "received_attributes event es =
     es\<lparr>ac_cache := (ac_cache es)(pa_ProposalSlot event \<mapsto> event), ac_fired := ac_fired es @ [event]\<rparr>"

definition InjectPayloadAttributes :: "PayloadAttributesEvent \<Rightarrow> AttrStream \<Rightarrow> bool \<times> AttrStream" where
  "InjectPayloadAttributes event es =
     (if ac_cache es (pa_ProposalSlot event) \<noteq> None then (False, es)
      else (True, received_attributes event es))"

definition CleanupPayloadAttributesCache :: "slot \<Rightarrow> AttrStream \<Rightarrow> AttrStream" where
  "CleanupPayloadAttributesCache beforeSlot es =
     es\<lparr>ac_cache := range_delete (\<lambda>s _. s < beforeSlot) (ac_cache es)\<rparr>"

text \<open>Every cached event is filed under its own slot.\<close>

definition attrs_filed :: "AttrStream \<Rightarrow> bool" where
  "attrs_filed es \<longleftrightarrow> (\<forall>s a. ac_cache es s = Some a \<longrightarrow> pa_ProposalSlot a = s)"

lemma attrs_filed_New: "attrs_filed NewAttrStream"
  by (simp add: attrs_filed_def NewAttrStream_def)

lemma attrs_filed_received: "attrs_filed es \<Longrightarrow> attrs_filed (received_attributes event es)"
  by (simp add: attrs_filed_def received_attributes_def)

lemma attrs_filed_inject: "attrs_filed es \<Longrightarrow> attrs_filed (snd (InjectPayloadAttributes event es))"
  by (simp add: InjectPayloadAttributes_def attrs_filed_received)

lemma attrs_filed_cleanup: "attrs_filed es \<Longrightarrow> attrs_filed (CleanupPayloadAttributesCache b es)"
  by (simp add: attrs_filed_def CleanupPayloadAttributesCache_def range_delete_Some_iff)

lemmas attrs_filed_steps = attrs_filed_New attrs_filed_received attrs_filed_inject attrs_filed_cleanup

lemma attrs_filedD: "attrs_filed es \<Longrightarrow> ac_cache es s = Some a \<Longrightarrow> pa_ProposalSlot a = s"
  by (simp add: attrs_filed_def)

end
