(* ===== verification/Slot_Artifacts.thy ===== *)
theory Slot_Artifacts
  imports Chain_Spec "HOL-Library.AList" "HOL-Library.Multiset"
begin

text \<open>
  Raw artifacts of a slot, \<open>pkg/slot_results/artifacts.go\<close>, and their table,
  \<open>pkg/db/slot_artifacts.go\<close>: a bounded buffer in memory, an asynchronous writer with a bounded
  queue, and rows keyed by slot, kind and index.  Whether a query or a transaction succeeds is a
  field of the database; a failed transaction changes nothing.  An object is represented by the
  outcome of its SSZ encoding.  The map of buffered slots is an association list, because its size
  matters; the lists of a slot's three kinds are a function.
\<close>

datatype artifact_kind = ArtifactKindPayload | ArtifactKindBid | ArtifactKindEnvelope

record BidArtifactMeta =
  bam_V :: int
  bam_Transport :: string
  bam_TotalValueGwei :: u64
  bam_ExecutionPaymentGwei :: u64
  bam_At :: int

record SlotArtifact =
  art_Slot :: slot
  art_Kind :: artifact_kind
  art_Idx :: int
  art_Fork :: DataVersion
  art_Meta :: "BidArtifactMeta option"
  art_Data :: "u8 list"
  art_CreatedAt :: int

type_synonym art_key = "slot \<times> artifact_kind \<times> int"

definition art_key :: "SlotArtifact \<Rightarrow> art_key" where
  "art_key a = (art_Slot a, art_Kind a, art_Idx a)"

section \<open>The table\<close>

record artifact_db =
  ad_enabled :: bool
  ad_read_ok :: bool
  ad_write_ok :: bool
  ad_rows :: "(art_key \<times> SlotArtifact) list"

definition InsertSlotArtifacts :: "SlotArtifact list \<Rightarrow> artifact_db \<Rightarrow> bool \<times> artifact_db" where
  "InsertSlotArtifacts batch d =
     (if \<not> ad_enabled d \<or> batch = [] then (True, d)
      else if \<not> ad_write_ok d then (False, d)
      else (True, d\<lparr>ad_rows := fold (\<lambda>a rows. AList.update (art_key a) a rows) batch (ad_rows d)\<rparr>))"

datatype art_error = QueryFailed | NilArtifact | EncodeFailed | QueueFull

definition GetSlotArtifact :: "slot \<Rightarrow> artifact_kind \<Rightarrow> int \<Rightarrow> artifact_db \<Rightarrow> art_error + SlotArtifact option" where
  "GetSlotArtifact s kind idx d =
     (if \<not> ad_enabled d then Inr None
      else if \<not> ad_read_ok d then Inl QueryFailed
      else Inr (map_of (ad_rows d) (s, kind, idx)))"

definition GetSlotArtifactMetas :: "slot \<Rightarrow> artifact_kind \<Rightarrow> artifact_db \<Rightarrow> art_error + SlotArtifact list" where
  "GetSlotArtifactMetas s kind d =
     (if \<not> ad_enabled d then Inr []
      else if \<not> ad_read_ok d then Inl QueryFailed
      else Inr (map (\<lambda>a. a\<lparr>art_Data := []\<rparr>) (sort_key art_Idx
             (map snd (filter (\<lambda>r. fst (fst r) = s \<and> fst (snd (fst r)) = kind) (ad_rows d))))))"

definition GetMaxSlotArtifactIdx :: "slot \<Rightarrow> artifact_kind \<Rightarrow> artifact_db \<Rightarrow> art_error + int option" where
  "GetMaxSlotArtifactIdx s kind d =
     (if \<not> ad_enabled d then Inr None
      else if \<not> ad_read_ok d then Inl QueryFailed
      else
        let idxs = map (\<lambda>r. snd (snd (fst r))) (filter (\<lambda>r. fst (fst r) = s \<and> fst (snd (fst r)) = kind) (ad_rows d))
        in Inr (if idxs = [] then None else Some (fold max (tl idxs) (hd idxs))))"

definition DeleteSlotArtifactsBefore :: "slot \<Rightarrow> artifact_db \<Rightarrow> artifact_db" where
  "DeleteSlotArtifactsBefore cutoff d =
     (if \<not> ad_enabled d \<or> \<not> ad_write_ok d then d
      else d\<lparr>ad_rows := filter (\<lambda>r. \<not> fst (fst r) < cutoff) (ad_rows d)\<rparr>)"

section \<open>The store\<close>

definition memoryBufferSlots :: nat where
  "memoryBufferSlots = 64"

definition writerQueueCap :: nat where
  "writerQueueCap = 256"

record ArtifactStore =
  as_db :: artifact_db
  as_buffer :: "(slot \<times> (artifact_kind \<Rightarrow> SlotArtifact list)) list"
  as_bidIdx :: "slot \<rightharpoonup> int"
  as_writeQueue :: "SlotArtifact list list"
  as_pending :: "SlotArtifact list"

definition NewArtifactStore :: "artifact_db \<Rightarrow> ArtifactStore" where
  "NewArtifactStore d = \<lparr>as_db = d, as_buffer = [], as_bidIdx = Map.empty, as_writeQueue = [], as_pending = []\<rparr>"

text \<open>Replace the artifact with the same index, or append.\<close>

fun replace_idx :: "SlotArtifact \<Rightarrow> SlotArtifact list \<Rightarrow> SlotArtifact list" where
  "replace_idx a [] = [a]"
| "replace_idx a (e # es) = (if art_Idx e = art_Idx a then a # es else e # replace_idx a es)"

definition evict_oldest :: "ArtifactStore \<Rightarrow> ArtifactStore" where
  "evict_oldest st =
     (if length (as_buffer st) > memoryBufferSlots
      then let evicted = take (length (as_buffer st) - memoryBufferSlots) (sort (map fst (as_buffer st))) in
        st\<lparr>as_buffer := filter (\<lambda>(s, _). s \<notin> set evicted) (as_buffer st),
           as_bidIdx := (\<lambda>s. if s \<in> set evicted then None else as_bidIdx st s)\<rparr>
      else st)"

definition insertBuffer :: "slot \<Rightarrow> SlotArtifact \<Rightarrow> ArtifactStore \<Rightarrow> ArtifactStore" where
  "insertBuffer s a st =
     (let kinds = (case map_of (as_buffer st) s of None \<Rightarrow> (\<lambda>_. []) | Some kinds \<Rightarrow> kinds);
          kinds = kinds(art_Kind a := replace_idx a (kinds (art_Kind a)))
      in evict_oldest (st\<lparr>as_buffer := AList.update s kinds (as_buffer st)\<rparr>))"

definition enqueue :: "SlotArtifact \<Rightarrow> ArtifactStore \<Rightarrow> art_error option \<times> ArtifactStore" where
  "enqueue a st =
     (if \<not> ad_enabled (as_db st) then (None, st)
      else if length (as_writeQueue st) < writerQueueCap then (None, st\<lparr>as_writeQueue := as_writeQueue st @ [[a]]\<rparr>)
      else (Some QueueFull, st))"

text \<open>An object to store: nil, or the outcome of its SSZ encoding.\<close>

type_synonym ssz_object = "u8 list option option"

definition art_store ::
  "slot \<Rightarrow> artifact_kind \<Rightarrow> int \<Rightarrow> DataVersion \<Rightarrow> BidArtifactMeta option \<Rightarrow> ssz_object \<Rightarrow> int \<Rightarrow> ArtifactStore
     \<Rightarrow> art_error option \<times> ArtifactStore" where
  "art_store s kind idx fork meta obj nowMs st =
     (case obj of
        None \<Rightarrow> (Some NilArtifact, st)
      | Some None \<Rightarrow> (Some EncodeFailed, st)
      | Some (Some data) \<Rightarrow>
          (let a = \<lparr>art_Slot = s, art_Kind = kind, art_Idx = idx, art_Fork = fork, art_Meta = meta, art_Data = data,
                    art_CreatedAt = nowMs\<rparr>
           in enqueue a (insertBuffer s a st)))"

definition StorePayload :: "slot \<Rightarrow> DataVersion \<Rightarrow> ssz_object \<Rightarrow> int \<Rightarrow> ArtifactStore \<Rightarrow> art_error option \<times> ArtifactStore" where
  "StorePayload s fork payload nowMs st = art_store s ArtifactKindPayload 0 fork None payload nowMs st"

definition StoreEnvelope :: "slot \<Rightarrow> DataVersion \<Rightarrow> ssz_object \<Rightarrow> int \<Rightarrow> ArtifactStore \<Rightarrow> art_error option \<times> ArtifactStore" where
  "StoreEnvelope s fork envelope nowMs st = art_store s ArtifactKindEnvelope 0 fork None envelope nowMs st"

definition seed_idx :: "slot \<Rightarrow> ArtifactStore \<Rightarrow> art_error + int" where
  "seed_idx s st =
     (case as_bidIdx st s of
        Some idx \<Rightarrow> Inr idx
      | None \<Rightarrow>
          (case GetMaxSlotArtifactIdx s ArtifactKindBid (as_db st) of
             Inl e \<Rightarrow> Inl e
           | Inr None \<Rightarrow> Inr 0
           | Inr (Some maxIdx) \<Rightarrow> Inr (maxIdx + 1)))"

definition StoreBid ::
  "slot \<Rightarrow> DataVersion \<Rightarrow> ssz_object \<Rightarrow> BidArtifactMeta \<Rightarrow> int \<Rightarrow> ArtifactStore \<Rightarrow> (art_error + int) \<times> ArtifactStore" where
  "StoreBid s fork bid meta nowMs st =
     (case seed_idx s st of
        Inl e \<Rightarrow> (Inl e, st)
      | Inr idx \<Rightarrow>
          (case art_store s ArtifactKindBid idx fork (Some (meta\<lparr>bam_V := 1\<rparr>)) bid nowMs
                  (st\<lparr>as_bidIdx := (as_bidIdx st)(s \<mapsto> idx + 1)\<rparr>) of
             (Some e, st) \<Rightarrow> (Inl e, st)
           | (None, st) \<Rightarrow> (Inr idx, st)))"

definition art_Get :: "slot \<Rightarrow> artifact_kind \<Rightarrow> int \<Rightarrow> ArtifactStore \<Rightarrow> art_error + SlotArtifact option" where
  "art_Get s kind idx st =
     (case Option.bind (map_of (as_buffer st) s) (\<lambda>kinds. find (\<lambda>a. art_Idx a = idx) (kinds kind)) of
        Some a \<Rightarrow> Inr (Some a)
      | None \<Rightarrow> GetSlotArtifact s kind idx (as_db st))"

text \<open>The loop over the buffer, in the order \<open>ks\<close> of the slots.\<close>

definition latest_of :: "artifact_kind \<Rightarrow> ArtifactStore \<Rightarrow> slot \<Rightarrow> (slot \<times> SlotArtifact) option \<Rightarrow> (slot \<times> SlotArtifact) option" where
  "latest_of kind st s best =
     (if (case best of None \<Rightarrow> False | Some (bestSlot, _) \<Rightarrow> s \<le> bestSlot) then best
      else case Option.bind (map_of (as_buffer st) s) (\<lambda>kinds. find (\<lambda>a. art_Idx a = 0) (kinds kind)) of
             None \<Rightarrow> best
           | Some a \<Rightarrow> Some (s, a))"

definition LatestByKind :: "slot list \<Rightarrow> artifact_kind \<Rightarrow> ArtifactStore \<Rightarrow> SlotArtifact option" where
  "LatestByKind ks kind st = map_option snd (fold (latest_of kind st) ks None)"

definition ListBids :: "slot \<Rightarrow> ArtifactStore \<Rightarrow> art_error + SlotArtifact list" where
  "ListBids s st =
     (case map_of (as_buffer st) s of
        Some kinds \<Rightarrow>
          if kinds ArtifactKindBid \<noteq> []
          then Inr (sort_key art_Idx (map (\<lambda>a. a\<lparr>art_Data := []\<rparr>) (kinds ArtifactKindBid)))
          else GetSlotArtifactMetas s ArtifactKindBid (as_db st)
      | None \<Rightarrow> GetSlotArtifactMetas s ArtifactKindBid (as_db st))"

definition PruneBefore :: "slot \<Rightarrow> ArtifactStore \<Rightarrow> ArtifactStore" where
  "PruneBefore cutoff st =
     st\<lparr>as_buffer := filter (\<lambda>(s, _). \<not> s < cutoff) (as_buffer st),
        as_bidIdx := (\<lambda>s. if s < cutoff \<and> map_of (as_buffer st) s \<noteq> None then None else as_bidIdx st s),
        as_db := DeleteSlotArtifactsBefore cutoff (as_db st)\<rparr>"

section \<open>The writer\<close>

definition writer_flush :: "ArtifactStore \<Rightarrow> ArtifactStore" where
  "writer_flush st = st\<lparr>as_db := snd (InsertSlotArtifacts (as_pending st) (as_db st)), as_pending := []\<rparr>"

definition writer_take :: "ArtifactStore \<Rightarrow> ArtifactStore" where
  "writer_take st =
     (case as_writeQueue st of
        [] \<Rightarrow> st
      | b # q \<Rightarrow>
          (let st = st\<lparr>as_writeQueue := q, as_pending := as_pending st @ b\<rparr>
           in if length (as_pending st) \<ge> writerQueueCap then writer_flush st else st))"

definition writer_drain :: "ArtifactStore \<Rightarrow> ArtifactStore" where
  "writer_drain st = writer_flush (st\<lparr>as_writeQueue := [], as_pending := as_pending st @ concat (as_writeQueue st)\<rparr>)"

section \<open>Indices of bids\<close>

definition buffered :: "ArtifactStore \<Rightarrow> SlotArtifact set" where
  "buffered st = (\<Union>e \<in> set (as_buffer st). \<Union>k. set (snd e k))"

definition carried :: "ArtifactStore \<Rightarrow> SlotArtifact set" where
  "carried st = set (concat (as_writeQueue st)) \<union> set (as_pending st)"

definition stored :: "ArtifactStore \<Rightarrow> SlotArtifact set" where
  "stored st = snd ` set (ad_rows (as_db st))"

definition slot_bids :: "slot \<Rightarrow> SlotArtifact set \<Rightarrow> SlotArtifact set" where
  "slot_bids s as = {a \<in> as. art_Slot a = s \<and> art_Kind a = ArtifactKindBid}"

text \<open>A slot whose bids are still on their way to the table has an index counter.\<close>

definition queue_tracked :: "ArtifactStore \<Rightarrow> bool" where
  "queue_tracked st \<longleftrightarrow> (\<forall>s. as_bidIdx st s = None \<longrightarrow> slot_bids s (carried st) = {})"

definition counters_ok :: "ArtifactStore \<Rightarrow> bool" where
  "counters_ok st \<longleftrightarrow>
     (\<forall>s n. as_bidIdx st s = Some n \<longrightarrow> (\<forall>a \<in> slot_bids s (buffered st \<union> carried st \<union> stored st). art_Idx a < n)) \<and>
     (\<forall>s. as_bidIdx st s = None \<longrightarrow> slot_bids s (buffered st) = {}) \<and>
     (\<forall>e \<in> set (as_buffer st). \<forall>k. \<forall>a \<in> set (snd e k). art_Slot a = fst e) \<and>
     (\<forall>r \<in> set (ad_rows (as_db st)). art_key (snd r) = fst r) \<and>
     (ad_enabled (as_db st) \<or> ad_rows (as_db st) = [])"

lemma counters_okI:
  assumes "\<And>s n a. as_bidIdx st s = Some n \<Longrightarrow> a \<in> slot_bids s (buffered st \<union> carried st \<union> stored st) \<Longrightarrow> art_Idx a < n"
    and "\<And>s a. as_bidIdx st s = None \<Longrightarrow> a \<notin> slot_bids s (buffered st)"
    and "\<And>e k a. e \<in> set (as_buffer st) \<Longrightarrow> a \<in> set (snd e k) \<Longrightarrow> art_Slot a = fst e"
    and "\<And>r. r \<in> set (ad_rows (as_db st)) \<Longrightarrow> art_key (snd r) = fst r"
    and "ad_enabled (as_db st) \<or> ad_rows (as_db st) = []"
  shows "counters_ok st"
  using assms unfolding counters_ok_def by blast

lemma set_replace_idx: "set (replace_idx a es) \<subseteq> insert a (set es)"
  by (induction es) auto

lemma set_AList_update: "set (AList.update k v al) \<subseteq> insert (k, v) (set al)"
  by (induction al) auto

lemma evict_oldest_ok:
  assumes ok: "counters_ok st"
  shows "counters_ok (evict_oldest st)"
proof (cases "length (as_buffer st) > memoryBufferSlots")
  case True
  have slots: "art_Slot x = fst e" if "e \<in> set (as_buffer st)" "x \<in> set (snd e k)" for e x k
    using ok that unfolding counters_ok_def by blast
  define gone where "gone = set (take (length (as_buffer st) - memoryBufferSlots) (sort (map fst (as_buffer st))))"
  define st2 where "st2 = st\<lparr>as_buffer := filter (\<lambda>(s, _). s \<notin> gone) (as_buffer st),
    as_bidIdx := (\<lambda>s. if s \<in> gone then None else as_bidIdx st s)\<rparr>"
  have e: "evict_oldest st = st2" using True by (simp add: evict_oldest_def st2_def gone_def Let_def)
  have sub2: "buffered st2 \<subseteq> {x \<in> buffered st. art_Slot x \<notin> gone}"
  proof
    fix x assume "x \<in> buffered st2"
    then obtain e k where "e \<in> set (as_buffer st)" "fst e \<notin> gone" "x \<in> set (snd e k)"
      by (auto simp: buffered_def st2_def)
    moreover from this have "x \<in> buffered st" unfolding buffered_def by blast
    ultimately show "x \<in> {x \<in> buffered st. art_Slot x \<notin> gone}" using slots by auto
  qed
  have rest2: "carried st2 = carried st" "stored st2 = stored st" "as_db st2 = as_db st"
    by (simp_all add: st2_def carried_def stored_def)
  show ?thesis unfolding e
  proof (rule counters_okI)
    fix t n x assume h: "as_bidIdx st2 t = Some n" "x \<in> slot_bids t (buffered st2 \<union> carried st2 \<union> stored st2)"
    then have "as_bidIdx st t = Some n" by (auto simp: st2_def split: if_splits)
    moreover have "x \<in> slot_bids t (buffered st \<union> carried st \<union> stored st)" using h(2) sub2 by (auto simp: rest2 slot_bids_def)
    ultimately show "art_Idx x < n" using ok by (auto simp: counters_ok_def)
  next
    fix t x assume "as_bidIdx st2 t = None"
    then have "t \<in> gone \<or> as_bidIdx st t = None" by (auto simp: st2_def split: if_splits)
    then show "x \<notin> slot_bids t (buffered st2)" using ok sub2 by (auto simp: slot_bids_def counters_ok_def)
  qed (use ok in \<open>auto simp: rest2 counters_ok_def st2_def\<close>)
qed (use ok in \<open>simp add: evict_oldest_def\<close>)

text \<open>Inserting an artifact whose slot has a counter above its index.\<close>

lemma insertBuffer_ok:
  assumes ok: "counters_ok st" and a: "art_Slot a = s"
    and idx: "art_Kind a = ArtifactKindBid \<Longrightarrow> \<exists>n. as_bidIdx st s = Some n \<and> art_Idx a < n"
  shows "counters_ok (insertBuffer s a st)"
proof -
  define kinds where "kinds = (case map_of (as_buffer st) s of None \<Rightarrow> (\<lambda>_. []) | Some kinds \<Rightarrow> kinds)"
  define st1 where "st1 = st\<lparr>as_buffer := AList.update s (kinds(art_Kind a := replace_idx a (kinds (art_Kind a)))) (as_buffer st)\<rparr>"
  have kin: "x \<in> buffered st" "art_Slot x = s" if "x \<in> set (kinds k)" for x k
  proof -
    have "(s, kinds) \<in> set (as_buffer st)" using that by (auto simp: kinds_def dest: map_of_SomeD split: option.splits)
    then show "x \<in> buffered st" "art_Slot x = s" using that ok by (force simp: buffered_def, auto simp: counters_ok_def)
  qed
  have entry: "e \<in> set (as_buffer st) \<or> e = (s, kinds(art_Kind a := replace_idx a (kinds (art_Kind a))))"
    if "e \<in> set (as_buffer st1)" for e
    using that set_AList_update by (fastforce simp: st1_def)
  have new: "x = a \<or> x \<in> set (kinds k)" if "x \<in> set ((kinds(art_Kind a := replace_idx a (kinds (art_Kind a)))) k)" for x k
    using that set_replace_idx [of a "kinds (art_Kind a)"] by (auto split: if_splits)
  have slots: "art_Slot x = fst e" if "e \<in> set (as_buffer st1)" "x \<in> set (snd e k)" for e x k
    using entry [OF that(1)]
  proof
    assume "e \<in> set (as_buffer st)"
    then show ?thesis using ok that(2) unfolding counters_ok_def by blast
  next
    assume "e = (s, kinds(art_Kind a := replace_idx a (kinds (art_Kind a))))"
    then show ?thesis using new [of x k] kin that(2) a by auto
  qed
  have sub: "buffered st1 \<subseteq> insert a (buffered st)"
    using entry new kin(1) unfolding buffered_def by fastforce
  have rest: "carried st1 = carried st" "stored st1 = stored st" "as_bidIdx st1 = as_bidIdx st" "as_db st1 = as_db st"
    by (simp_all add: st1_def carried_def stored_def)
  have "counters_ok st1"
  proof (rule counters_okI)
    fix t n x assume "as_bidIdx st1 t = Some n" "x \<in> slot_bids t (buffered st1 \<union> carried st1 \<union> stored st1)"
    then have "as_bidIdx st t = Some n" "x = a \<or> x \<in> slot_bids t (buffered st \<union> carried st \<union> stored st)"
      "art_Slot x = t" "art_Kind x = ArtifactKindBid"
      using sub by (auto simp: rest slot_bids_def)
    then show "art_Idx x < n" using ok idx a by (auto simp: counters_ok_def)
  next
    fix t x assume "as_bidIdx st1 t = None"
    then show "x \<notin> slot_bids t (buffered st1)" using ok sub idx a by (auto simp: rest slot_bids_def counters_ok_def)
  qed (use slots ok in \<open>auto simp: rest counters_ok_def\<close>)
  from evict_oldest_ok [OF this] show ?thesis by (simp add: insertBuffer_def kinds_def [symmetric] st1_def [symmetric] Let_def)
qed

lemma enqueue_ok:
  assumes ok: "counters_ok st"
    and idx: "art_Kind a = ArtifactKindBid \<Longrightarrow> pred_option (\<lambda>n. art_Idx a < n) (as_bidIdx st (art_Slot a))"
  shows "counters_ok (snd (enqueue a st))"
proof (cases "snd (enqueue a st) = st")
  case False
  define st1 where "st1 = st\<lparr>as_writeQueue := as_writeQueue st @ [[a]]\<rparr>"
  have e: "snd (enqueue a st) = st1" using False by (auto simp: enqueue_def st1_def split: if_splits)
  have rest: "buffered st1 = buffered st" "carried st1 = insert a (carried st)" "stored st1 = stored st"
    "as_bidIdx st1 = as_bidIdx st" "as_db st1 = as_db st" "as_buffer st1 = as_buffer st"
    by (auto simp: st1_def buffered_def carried_def stored_def)
  show ?thesis unfolding e
  proof (rule counters_okI)
    fix t n x assume "as_bidIdx st1 t = Some n" "x \<in> slot_bids t (buffered st1 \<union> carried st1 \<union> stored st1)"
    then show "art_Idx x < n" using ok idx by (auto simp: rest slot_bids_def counters_ok_def)
  qed (use ok in \<open>auto simp: rest counters_ok_def\<close>)
qed (use ok in simp)

lemma insertBuffer_bidIdx: "as_bidIdx (insertBuffer s a st) t \<in> {None, as_bidIdx st t}"
  by (simp add: insertBuffer_def evict_oldest_def Let_def)

lemma art_store_ok:
  assumes "counters_ok st" "kind = ArtifactKindBid \<Longrightarrow> \<exists>n. as_bidIdx st s = Some n \<and> idx < n"
  shows "counters_ok (snd (art_store s kind idx fork meta obj nowMs st))"
proof -
  have "counters_ok (snd (enqueue a (insertBuffer s a st)))" if "art_Slot a = s" "art_Kind a = kind" "art_Idx a = idx" for a
  proof (rule enqueue_ok [OF insertBuffer_ok [OF assms(1) that(1)]])
    assume "art_Kind a = ArtifactKindBid"
    then show "pred_option (\<lambda>n. art_Idx a < n) (as_bidIdx (insertBuffer s a st) (art_Slot a))"
      using insertBuffer_bidIdx [of s a st s] assms(2) that by auto
  qed (use assms(2) that in auto)
  then show ?thesis using assms(1) by (simp add: art_store_def Let_def split: option.split)
qed

text \<open>The index a bid gets is above the indices of all bids of its slot.\<close>

lemma seed_idx_fresh:
  assumes "counters_ok st" "queue_tracked st" "seed_idx s st = Inr idx"
    and "a \<in> slot_bids s (buffered st \<union> carried st \<union> stored st)"
  shows "art_Idx a < idx"
proof (cases "as_bidIdx st s")
  case (Some n)
  then show ?thesis using assms by (auto simp: seed_idx_def counters_ok_def)
next
  case None
  then have "slot_bids s (buffered st) = {}" "slot_bids s (carried st) = {}"
    using assms(1,2) by (auto simp: counters_ok_def queue_tracked_def)
  then have "a \<in> slot_bids s (stored st)" using assms(4) by (auto simp: slot_bids_def)
  then obtain r where r: "r \<in> set (ad_rows (as_db st))" "snd r = a" "art_Slot a = s" "art_Kind a = ArtifactKindBid"
    by (auto simp: slot_bids_def stored_def)
  then have key: "fst r = (s, ArtifactKindBid, art_Idx a)" using assms(1) by (auto simp: counters_ok_def art_key_def)
  let ?idxs = "map (\<lambda>r. snd (snd (fst r))) (filter (\<lambda>r. fst (fst r) = s \<and> fst (snd (fst r)) = ArtifactKindBid) (ad_rows (as_db st)))"
  have mem: "art_Idx a \<in> set ?idxs" unfolding set_map set_filter by (rule image_eqI [of _ _ r]) (use r key in simp_all)
  have en: "ad_enabled (as_db st)" using r(1) assms(1) by (auto simp: counters_ok_def)
  have "x \<le> fold max ys y" if "x \<in> set (y # ys)" for x y and ys :: "int list"
    using that Max.set_eq_fold [of y ys] Max_ge [of "set (y # ys)" x] by simp
  then have "art_Idx a \<le> fold max (tl ?idxs) (hd ?idxs)" using mem by (cases ?idxs) auto
  moreover have "?idxs \<noteq> []" by (metis mem empty_iff list.set(1))
  ultimately show ?thesis
    using assms(3) None en by (simp add: seed_idx_def GetMaxSlotArtifactIdx_def Let_def split: if_splits)
qed

lemma StoreBid_ok:
  assumes "counters_ok st" "queue_tracked st"
  shows "counters_ok (snd (StoreBid s fork bid meta nowMs st))"
proof (cases "seed_idx s st")
  case (Inr idx)
  define st1 where "st1 = st\<lparr>as_bidIdx := (as_bidIdx st)(s \<mapsto> idx + 1)\<rparr>"
  have rest: "buffered st1 = buffered st" "carried st1 = carried st" "stored st1 = stored st" "as_db st1 = as_db st"
    "as_buffer st1 = as_buffer st"
    by (simp_all add: st1_def buffered_def carried_def stored_def)
  have "counters_ok st1"
  proof (rule counters_okI)
    fix t n a assume h: "as_bidIdx st1 t = Some n" "a \<in> slot_bids t (buffered st1 \<union> carried st1 \<union> stored st1)"
    have a: "a \<in> slot_bids t (buffered st \<union> carried st \<union> stored st)" using h(2) by (simp only: rest)
    have "n = idx + 1 \<and> t = s \<or> as_bidIdx st t = Some n" using h(1) by (auto simp: st1_def split: if_splits)
    then show "art_Idx a < n"
      using a seed_idx_fresh [OF assms Inr, of a] assms(1) by (auto simp: counters_ok_def)
  next
    fix t a assume "as_bidIdx st1 t = None"
    then have "as_bidIdx st t = None" by (auto simp: st1_def split: if_splits)
    then show "a \<notin> slot_bids t (buffered st1)" using assms(1) by (simp add: rest counters_ok_def)
  qed (use assms(1) in \<open>auto simp: rest counters_ok_def\<close>)
  then have "counters_ok (snd (art_store s ArtifactKindBid idx fork m bid nowMs st1))" for m
    by (rule art_store_ok) (simp add: st1_def)
  then show ?thesis by (simp add: StoreBid_def Inr st1_def split: prod.split option.split) (metis snd_conv)
qed (simp add: StoreBid_def assms(1))

lemma StorePayload_ok: "counters_ok st \<Longrightarrow> counters_ok (snd (StorePayload s fork obj nowMs st))"
  unfolding StorePayload_def by (rule art_store_ok) simp_all

lemma StoreEnvelope_ok: "counters_ok st \<Longrightarrow> counters_ok (snd (StoreEnvelope s fork obj nowMs st))"
  unfolding StoreEnvelope_def by (rule art_store_ok) simp_all

text \<open>Steps that only move artifacts to the table or drop some.\<close>

lemma counters_ok_shrink:
  assumes "counters_ok st" "buffered st' \<subseteq> buffered st" "carried st' \<union> stored st' \<subseteq> carried st \<union> stored st"
    and "\<And>s. as_bidIdx st' s \<in> {None, as_bidIdx st s}"
    and "\<And>s. as_bidIdx st' s = None \<Longrightarrow> as_bidIdx st s \<noteq> None \<Longrightarrow> slot_bids s (buffered st') = {}"
    and "set (as_buffer st') \<subseteq> set (as_buffer st)"
    and "\<And>r. r \<in> set (ad_rows (as_db st')) \<Longrightarrow> art_key (snd r) = fst r"
    and "ad_enabled (as_db st') \<or> ad_rows (as_db st') = []"
  shows "counters_ok st'"
proof (rule counters_okI)
  fix s n a assume "as_bidIdx st' s = Some n" "a \<in> slot_bids s (buffered st' \<union> carried st' \<union> stored st')"
  moreover from this have "as_bidIdx st s = Some n" using assms(4) [of s] by auto
  ultimately show "art_Idx a < n" using assms(1-3) unfolding counters_ok_def slot_bids_def by blast
next
  fix s a assume "as_bidIdx st' s = None"
  then show "a \<notin> slot_bids s (buffered st')"
    using assms(1,2,5) by (cases "as_bidIdx st s") (auto simp: counters_ok_def slot_bids_def)
qed (use assms in \<open>auto simp: counters_ok_def\<close>)

lemma PruneBefore_ok:
  assumes "counters_ok st"
  shows "counters_ok (PruneBefore cutoff st)"
proof -
  let ?st' = "PruneBefore cutoff st"
  have entry: "e \<in> set (as_buffer ?st') \<Longrightarrow> e \<in> set (as_buffer st) \<and> \<not> fst e < cutoff" for e
    by (auto simp: PruneBefore_def)
  have rows: "set (ad_rows (as_db ?st')) \<subseteq> set (ad_rows (as_db st))" "ad_enabled (as_db ?st') = ad_enabled (as_db st)"
    by (auto simp: PruneBefore_def DeleteSlotArtifactsBefore_def)
  show ?thesis
  proof (rule counters_ok_shrink [OF assms])
    show "buffered ?st' \<subseteq> buffered st" using entry unfolding buffered_def by blast
    show "carried ?st' \<union> stored ?st' \<subseteq> carried st \<union> stored st"
    proof -
      have "carried ?st' = carried st" by (simp add: carried_def PruneBefore_def)
      moreover have "stored ?st' \<subseteq> stored st" unfolding stored_def using rows(1) by (rule image_mono)
      ultimately show ?thesis by blast
    qed
    show "as_bidIdx ?st' s \<in> {None, as_bidIdx st s}" for s by (simp add: PruneBefore_def)
    show "slot_bids s (buffered ?st') = {}" if "as_bidIdx ?st' s = None" "as_bidIdx st s \<noteq> None" for s
    proof -
      have cut: "s < cutoff" using that by (auto simp: PruneBefore_def split: if_splits)
      have "art_Slot a \<noteq> s" if "e \<in> set (as_buffer ?st')" "a \<in> set (snd e k)" for e a k
      proof -
        have "art_Slot a = fst e" using entry [OF that(1)] that(2) assms unfolding counters_ok_def by blast
        then show ?thesis using entry [OF that(1)] cut by auto
      qed
      then show ?thesis unfolding slot_bids_def buffered_def by blast
    qed
  qed (use entry rows assms in \<open>auto simp: counters_ok_def\<close>)
qed

lemma writer_flush_ok:
  assumes "counters_ok st"
  shows "counters_ok (writer_flush st)"
proof -
  have upd: "r \<in> set (fold (\<lambda>a rows. AList.update (art_key a) a rows) batch rows) \<Longrightarrow>
      r \<in> set rows \<or> r \<in> (\<lambda>a. (art_key a, a)) ` set batch" for r batch rows
    by (induction batch arbitrary: rows) (use set_AList_update in \<open>fastforce+\<close>)
  have rows: "r \<in> set (ad_rows (as_db st)) \<or> r \<in> (\<lambda>a. (art_key a, a)) ` set (as_pending st)"
    if "r \<in> set (ad_rows (as_db (writer_flush st)))" for r
    using that upd [of r "as_pending st" "ad_rows (as_db st)"]
    by (auto simp: writer_flush_def InsertSlotArtifacts_def split: if_splits)
  show ?thesis
  proof (rule counters_ok_shrink [OF assms])
    show "carried (writer_flush st) \<union> stored (writer_flush st) \<subseteq> carried st \<union> stored st"
      using rows by (force simp: carried_def stored_def writer_flush_def)
    show "art_key (snd r) = fst r" if "r \<in> set (ad_rows (as_db (writer_flush st)))" for r
      using rows [OF that] assms by (auto simp: counters_ok_def)
    show "ad_enabled (as_db (writer_flush st)) \<or> ad_rows (as_db (writer_flush st)) = []"
      using assms by (auto simp: writer_flush_def InsertSlotArtifacts_def counters_ok_def)
  qed (auto simp: writer_flush_def buffered_def)
qed

lemma writer_take_ok:
  assumes "counters_ok st"
  shows "counters_ok (writer_take st)"
proof (cases "as_writeQueue st")
  case (Cons b q)
  define st1 where "st1 = st\<lparr>as_writeQueue := q, as_pending := as_pending st @ b\<rparr>"
  have "counters_ok st1"
    by (rule counters_ok_shrink [OF assms])
       (use Cons assms in \<open>auto simp: st1_def buffered_def carried_def stored_def counters_ok_def\<close>)
  then show ?thesis using writer_flush_ok [of st1] by (simp add: writer_take_def Cons st1_def Let_def)
qed (simp add: writer_take_def assms)

lemma writer_drain_ok:
  assumes "counters_ok st"
  shows "counters_ok (writer_drain st)"
proof -
  have "counters_ok (st\<lparr>as_writeQueue := [], as_pending := as_pending st @ concat (as_writeQueue st)\<rparr>)"
    by (rule counters_ok_shrink [OF assms]) (use assms in \<open>auto simp: buffered_def carried_def stored_def counters_ok_def\<close>)
  then show ?thesis unfolding writer_drain_def by (rule writer_flush_ok)
qed

section \<open>Reachable stores\<close>

text \<open>
  The stores that arise from a table, by captures, the writer and pruning, when the database works or
  fails as it likes, as long as no slot loses its counter while bids of it are still queued.\<close>

inductive art_reach :: "ArtifactStore \<Rightarrow> bool" where
  new: "list_all (\<lambda>r. art_key (snd r) = fst r) (ad_rows d) \<Longrightarrow> ad_enabled d \<or> ad_rows d = [] \<Longrightarrow>
    art_reach (NewArtifactStore d)"
| bid: "art_reach st \<Longrightarrow> st' = snd (StoreBid s fork obj meta nowMs st) \<Longrightarrow> queue_tracked st' \<Longrightarrow> art_reach st'"
| payload: "art_reach st \<Longrightarrow> st' = snd (StorePayload s fork obj nowMs st) \<Longrightarrow> queue_tracked st' \<Longrightarrow> art_reach st'"
| envelope: "art_reach st \<Longrightarrow> st' = snd (StoreEnvelope s fork obj nowMs st) \<Longrightarrow> queue_tracked st' \<Longrightarrow> art_reach st'"
| prune: "art_reach st \<Longrightarrow> st' = PruneBefore cutoff st \<Longrightarrow> queue_tracked st' \<Longrightarrow> art_reach st'"
| writer: "art_reach st \<Longrightarrow> st' \<in> {writer_take st, writer_flush st, writer_drain st} \<Longrightarrow> queue_tracked st' \<Longrightarrow> art_reach st'"
| db_state: "art_reach st \<Longrightarrow>
    art_reach (st\<lparr>as_db := (as_db st)\<lparr>ad_read_ok := r, ad_write_ok := w\<rparr>\<rparr>)"

lemma art_reach_ok: "art_reach st \<Longrightarrow> counters_ok st \<and> queue_tracked st"
proof (induction rule: art_reach.induct)
  case (new d)
  then show ?case
    by (auto simp: NewArtifactStore_def counters_ok_def queue_tracked_def buffered_def carried_def slot_bids_def list_all_iff)
next
  case (db_state st w r)
  have "counters_ok (st\<lparr>as_db := (as_db st)\<lparr>ad_read_ok := x, ad_write_ok := y\<rparr>\<rparr>)" for x y
    by (rule counters_ok_shrink [of st])
       (use db_state.IH in \<open>auto simp: buffered_def carried_def stored_def counters_ok_def\<close>)
  then show ?case using db_state.IH by (simp add: queue_tracked_def carried_def)
qed (auto simp: StoreBid_ok StorePayload_ok StoreEnvelope_ok PruneBefore_ok writer_take_ok writer_flush_ok writer_drain_ok)

text \<open>
  A captured bid never replaces another one.  In every store that arises from captures, pruning,
  the writer and any database failures, without a slot losing its counter while bids of it are still
  queued, the index given to a new bid is larger than the index of every bid of the slot that is in
  memory, on its way to the table or in the table.\<close>
theorem bid_index_fresh:
  assumes "art_reach st"
  shows "case StoreBid s fork obj meta nowMs st of
      (Inl e, _) \<Rightarrow> True
    | (Inr idx, st') \<Rightarrow> (\<forall>a. a \<in> slot_bids s (buffered st \<union> carried st \<union> stored st) \<longrightarrow> art_Idx a < idx) \<and>
        (as_bidIdx st' s = None \<or> as_bidIdx st' s = Some (idx + 1))"
proof (cases "seed_idx s st")
  case (Inr idx)
  define st1 where "st1 = st\<lparr>as_bidIdx := (as_bidIdx st)(s \<mapsto> idx + 1)\<rparr>"
  have fresh: "\<forall>a. a \<in> slot_bids s (buffered st \<union> carried st \<union> stored st) \<longrightarrow> art_Idx a < idx"
    using art_reach_ok [OF assms] seed_idx_fresh Inr by blast
  have "as_bidIdx (snd (art_store s ArtifactKindBid idx fork m obj nowMs st1)) s \<in> {None, Some (idx + 1)}" for m
    using insertBuffer_bidIdx [of s _ st1 s] by (auto simp: art_store_def enqueue_def st1_def Let_def split: option.split)
  then show ?thesis
    using fresh by (auto simp: StoreBid_def Inr st1_def split: prod.split option.split) (metis insertE singletonD snd_conv)+
qed (simp add: StoreBid_def)

definition demo_artifacts :: ArtifactStore where
  "demo_artifacts = NewArtifactStore \<lparr>ad_enabled = True, ad_read_ok = True, ad_write_ok = True,
     ad_rows = [((5, ArtifactKindBid, 2), \<lparr>art_Slot = 5, art_Kind = ArtifactKindBid, art_Idx = 2,
       art_Fork = DataVersionGloas, art_Meta = None, art_Data = [1], art_CreatedAt = 7\<rparr>)]\<rparr>"

definition demo_meta :: BidArtifactMeta where
  "demo_meta = \<lparr>bam_V = 0, bam_Transport = ''p2p'', bam_TotalValueGwei = 1, bam_ExecutionPaymentGwei = 0, bam_At = 8\<rparr>"

theorem bid_index_fresh_witness:
  "fst (StoreBid 5 DataVersionGloas (Some (Some [9])) demo_meta 8 demo_artifacts) = Inr 3 \<and>
   list_all (\<lambda>r. art_Idx (snd r) < 3) (ad_rows (as_db demo_artifacts))"
proof -
  have "art_reach demo_artifacts" unfolding demo_artifacts_def by (rule art_reach.new) (simp_all add: art_key_def)
  from bid_index_fresh [OF this, of 5 DataVersionGloas "Some (Some [9])" demo_meta 8]
  show ?thesis
    by (simp add: demo_artifacts_def NewArtifactStore_def StoreBid_def seed_idx_def GetMaxSlotArtifactIdx_def art_store_def
        enqueue_def insertBuffer_def evict_oldest_def Let_def writerQueueCap_def memoryBufferSlots_def)
qed

text \<open>
  A slot older than all of a full buffer is evicted as soon as it is inserted, with its counter: two
  bids captured for it before the writer ran get the same index, and the later row replaces the earlier.\<close>

lemma old_slot_index_reused:
  assumes "length (as_buffer st) = memoryBufferSlots" "list_all (\<lambda>e. s < fst e) (as_buffer st)" "as_bidIdx st s = None"
    and "ad_enabled (as_db st)" "ad_read_ok (as_db st)" "ad_rows (as_db st) = []" "length (as_writeQueue st) + 2 \<le> writerQueueCap"
  shows "fst (StoreBid s f (Some (Some d)) m t st) = Inr 0 \<and>
    fst (StoreBid s f' (Some (Some d')) m' t' (snd (StoreBid s f (Some (Some d)) m t st))) = Inr 0"
proof -
  have notin: "s \<notin> fst ` set (as_buffer st)" using assms(2) by (auto simp: list_all_iff)
  have upd: "map fst (AList.update s v (as_buffer st)) = map fst (as_buffer st) @ [s]" for v
    using notin by (simp add: update_keys map_of_eq_None_iff)
  have srt: "sort (map fst (as_buffer st) @ [s]) = s # sort (map fst (as_buffer st))"
    using assms(2) by (intro properties_for_sort) (auto simp: list_all_iff less_imp_le)
  have ev: "as_bidIdx (insertBuffer s a st1) s = None \<and> as_db (insertBuffer s a st1) = as_db st \<and>
      as_writeQueue (insertBuffer s a st1) = as_writeQueue st"
    if "as_buffer st1 = as_buffer st" "as_db st1 = as_db st" "as_writeQueue st1 = as_writeQueue st" for a st1
  proof -
    have len: "length (AList.update s v (as_buffer st)) = Suc memoryBufferSlots" for v
      using arg_cong [OF upd, of length v] assms(1) by simp
    show ?thesis
      using that notin by (simp add: insertBuffer_def evict_oldest_def Let_def len upd srt map_of_eq_None_iff)
  qed
  define st1 where "st1 = snd (StoreBid s f (Some (Some d)) m t st)"
  have first: "fst (StoreBid s f (Some (Some d)) m t st) = Inr 0 \<and> as_bidIdx st1 s = None \<and> as_db st1 = as_db st \<and>
      length (as_writeQueue st1) + 1 \<le> writerQueueCap"
    using assms(3-) ev
    by (simp add: st1_def StoreBid_def seed_idx_def GetMaxSlotArtifactIdx_def art_store_def enqueue_def Let_def)
  have q: "as_writeQueue (insertBuffer s a x) = as_writeQueue x" "as_db (insertBuffer s a x) = as_db x" for a x
    by (simp_all add: insertBuffer_def evict_oldest_def Let_def)
  have "fst (StoreBid s f' (Some (Some d')) m' t' st1) = Inr 0"
    using first assms(4-6)
    by (simp add: StoreBid_def seed_idx_def GetMaxSlotArtifactIdx_def art_store_def enqueue_def Let_def q)
  then show ?thesis using first by (simp add: st1_def)
qed

end
