(* ===== verification/Slot_Records.thy ===== *)
theory Slot_Records
  imports Attr_Events Inclusion_Tracker Bid_Scheduler Slot_Artifacts "HOL-Library.Sublist"
begin

text \<open>
  The recorded history of a slot, \<open>pkg/slot_results/types.go\<close>, and the events the tracker of
  \<open>tracker.go\<close> turns into records.  A text that prints bytes or a number is represented by what it
  prints; an absent pointer is \<open>None\<close>.  The statuses of bids and submissions are texts because the
  Builder API hands them over as such.  The counter of dropped attempts is a function that is zero
  where the map has no entry.  An object is captured with the outcome of its SSZ encoding.
\<close>

section \<open>The record of a slot\<close>

datatype BuildStatus =
    BuildStatusWaitingAttributes
  | BuildStatusNoAttributes
  | BuildStatusStarted
  | BuildStatusReady
  | BuildStatusFailed
  | BuildStatusSkipped

definition ResBidSuppressed :: string where "ResBidSuppressed = ''suppressed''"
definition ResBidConstructed :: string where "ResBidConstructed = ''constructed''"
definition ResBidSubmitted :: string where "ResBidSubmitted = ''submitted''"
definition ResBidFailed :: string where "ResBidFailed = ''failed''"

datatype RevealStatus =
    RevealStatusSuppressed
  | RevealStatusPublished
  | RevealStatusFailed
  | RevealStatusSkipped

datatype PayloadStatus =
    PayloadStatusPending
  | PayloadStatusCanonical
  | PayloadStatusMissed
  | PayloadStatusOrphaned

definition maxAttemptsPerKind :: nat where
  "maxAttemptsPerKind = 256"

record AttributesSnapshot =
  as_ProposerIndex :: u64
  as_ParentBlockRoot :: hash32
  as_ParentBlockHash :: hash32
  as_ParentBlockNumber :: u64
  as_Timestamp :: u64
  as_PrevRandao :: hash32
  as_SuggestedFeeRecipient :: address20
  as_ParentBeaconBlockRoot :: hash32
  as_TargetGasLimit :: u64
  as_NumWithdrawals :: nat
  as_NumInclusionListTxs :: nat

record BuildOutcome =
  bo_Status :: BuildStatus
  bo_SkipReason :: "build_skip option"
  bo_BlockHash :: hash32
  bo_BlockValueWei :: int
  bo_NumTransactions :: nat
  bo_NumBlobs :: nat
  bo_FeeRecipient :: address20
  bo_BlockNumber :: u64
  bo_ParentHash :: hash32
  bo_StateRoot :: hash32
  bo_ReceiptsRoot :: hash32
  bo_PrevRandao :: hash32
  bo_Timestamp :: u64
  bo_GasLimit :: u64
  bo_GasUsed :: u64
  bo_BaseFeePerGas :: "int option"
  bo_ExtraData :: "u8 list"
  bo_BlobGasUsed :: u64
  bo_ExcessBlobGas :: u64
  bo_NumWithdrawals :: nat
  bo_NumExecutionRequests :: nat
  bo_Attributes :: "AttributesSnapshot option"
  bo_Error :: string
  bo_At :: gotime

text \<open>An outcome with only a status and a time.\<close>

definition bare_outcome :: "BuildStatus \<Rightarrow> gotime \<Rightarrow> BuildOutcome" where
  "bare_outcome status t =
     \<lparr>bo_Status = status, bo_SkipReason = None, bo_BlockHash = [], bo_BlockValueWei = 0, bo_NumTransactions = 0,
      bo_NumBlobs = 0, bo_FeeRecipient = [], bo_BlockNumber = 0, bo_ParentHash = [], bo_StateRoot = [],
      bo_ReceiptsRoot = [], bo_PrevRandao = [], bo_Timestamp = 0, bo_GasLimit = 0, bo_GasUsed = 0,
      bo_BaseFeePerGas = None, bo_ExtraData = [], bo_BlobGasUsed = 0, bo_ExcessBlobGas = 0,
      bo_NumWithdrawals = 0, bo_NumExecutionRequests = 0, bo_Attributes = None, bo_Error = [], bo_At = t\<rparr>"

text \<open>What the text of a failed or suppressed attempt says.\<close>

datatype attempt_error =
    ErrMessage message_error
  | ErrWarning BidWarning
  | ErrArtifact art_error
  | ErrText string

record BidAttempt =
  ba_Status :: string
  ba_Transport :: BidTransport
  ba_TotalValueGwei :: u64
  ba_ExecutionPaymentGwei :: u64
  ba_CompetitorHighGwei :: "u64 option"
  ba_BlockHash :: hash32
  ba_ParentBlockHash :: hash32
  ba_ParentBlockRoot :: hash32
  ba_PrevRandao :: hash32
  ba_FeeRecipient :: address20
  ba_GasLimit :: u64
  ba_BuilderIndex :: u64
  ba_NumBlobCommitments :: nat
  ba_ArtifactIndex :: "int option"
  ba_Error :: "attempt_error option"
  ba_At :: gotime

record BlockSubmission =
  bs_Dialect :: string
  bs_Status :: string
  bs_Error :: string
  bs_At :: gotime

record RevealAttempt =
  ra_Status :: RevealStatus
  ra_Transport :: BidTransport
  ra_SkipReason :: "RevealSkipReason option"
  ra_Error :: "message_error option"
  ra_Attempt :: int
  ra_At :: gotime
  ra_StartedAt :: "gotime option"

record InclusionResult =
  ir_Source :: WonBlockSource
  ir_BlockHash :: hash32
  ir_NumTransactions :: nat
  ir_NumBlobs :: nat
  ir_ValueWei :: int
  ir_Timestamp :: int
  ir_PayloadStatus :: "PayloadStatus option"
  ir_PayloadCheckSlot :: slot

datatype attempt_kind = KindBids | KindBlockSubmissions | KindRevealAttempts

record SlotResult =
  res_Slot :: slot
  res_Epoch :: u64
  res_Fork :: "DataVersion option"
  res_AppliedPlan :: "FrozenPlan option"
  res_Build :: "BuildOutcome option"
  res_Bids :: "BidAttempt list"
  res_BlockSubmissions :: "BlockSubmission list"
  res_RevealAttempts :: "RevealAttempt list"
  res_Inclusion :: "InclusionResult option"
  res_DroppedAttempts :: "attempt_kind \<Rightarrow> nat"
  res_UpdatedAt :: gotime

text \<open>The record \<open>upsert\<close> creates: the frozen plan and its fork are stamped once.\<close>

definition new_result :: "slot \<Rightarrow> u64 \<Rightarrow> FrozenPlan \<Rightarrow> SlotResult" where
  "new_result s epoch frozen =
     \<lparr>res_Slot = s, res_Epoch = epoch, res_Fork = Some (fp_Fork frozen), res_AppliedPlan = Some frozen,
      res_Build = None, res_Bids = [], res_BlockSubmissions = [], res_RevealAttempts = [], res_Inclusion = None,
      res_DroppedAttempts = (\<lambda>_. 0), res_UpdatedAt = 0\<rparr>"

section \<open>Events\<close>

definition attributesSnapshot :: "PayloadAttributesEvent option \<Rightarrow> AttributesSnapshot option" where
  "attributesSnapshot attrs = map_option (\<lambda>a.
     \<lparr>as_ProposerIndex = pa_ProposerIndex a, as_ParentBlockRoot = pa_ParentBlockRoot a,
      as_ParentBlockHash = pa_ParentBlockHash a, as_ParentBlockNumber = pa_ParentBlockNumber a,
      as_Timestamp = pa_Timestamp a, as_PrevRandao = pa_PrevRandao a,
      as_SuggestedFeeRecipient = pa_SuggestedFeeRecipient a, as_ParentBeaconBlockRoot = pa_ParentBeaconBlockRoot a,
      as_TargetGasLimit = pa_TargetGasLimit a, as_NumWithdrawals = length (pa_Withdrawals a),
      as_NumInclusionListTxs = length (pa_InclusionListTransactions a)\<rparr>) attrs"

text \<open>The part of an execution payload the tracker reads, with the outcome of its encoding.\<close>

record ready_exec =
  re_Version :: DataVersion
  re_BlockNumber :: u64
  re_ParentHash :: hash32
  re_StateRoot :: hash32
  re_ReceiptsRoot :: hash32
  re_PrevRandao :: hash32
  re_Timestamp :: u64
  re_GasLimit :: u64
  re_GasUsed :: u64
  re_BaseFeePerGas :: "int option"
  re_ExtraData :: "u8 list"
  re_BlobGasUsed :: u64
  re_ExcessBlobGas :: u64
  re_Transactions :: "u8 list list"
  re_Withdrawals :: "u8 list list"
  re_SSZ :: "u8 list option"

record ready_requests =
  rq_Deposits :: "u8 list list"
  rq_Withdrawals :: "u8 list list"
  rq_Consolidations :: "u8 list list"
  rq_BuilderDeposits :: "u8 list list"
  rq_BuilderExits :: "u8 list list"

record ready_payload =
  rp_Attributes :: "PayloadAttributesEvent option"
  rp_ExecutionPayload :: "ready_exec option"
  rp_ExecutionRequests :: "ready_requests option"
  rp_BlobsBundle :: "BlobsBundle option"
  rp_BlockHash :: hash32
  rp_BlockValue :: "int option"
  rp_FeeRecipient :: address20
  rp_ReadyAt :: gotime

section \<open>Building the parts of a record\<close>

definition fill_exec :: "ready_exec \<Rightarrow> BuildOutcome \<Rightarrow> BuildOutcome" where
  "fill_exec ep outcome = outcome
     \<lparr>bo_BlockNumber := re_BlockNumber ep, bo_ParentHash := re_ParentHash ep, bo_StateRoot := re_StateRoot ep,
      bo_ReceiptsRoot := re_ReceiptsRoot ep, bo_PrevRandao := re_PrevRandao ep, bo_Timestamp := re_Timestamp ep,
      bo_GasLimit := re_GasLimit ep, bo_GasUsed := re_GasUsed ep, bo_ExtraData := re_ExtraData ep,
      bo_BlobGasUsed := re_BlobGasUsed ep, bo_ExcessBlobGas := re_ExcessBlobGas ep,
      bo_NumWithdrawals := length (re_Withdrawals ep), bo_BaseFeePerGas := re_BaseFeePerGas ep\<rparr>"

definition ready_outcome :: "ready_payload \<Rightarrow> BuildOutcome" where
  "ready_outcome p =
     (let outcome = (bare_outcome BuildStatusReady (rp_ReadyAt p))
            \<lparr>bo_BlockHash := rp_BlockHash p,
             bo_BlockValueWei := (case rp_BlockValue p of None \<Rightarrow> 0 | Some v \<Rightarrow> v),
             bo_NumTransactions := (case rp_ExecutionPayload p of None \<Rightarrow> 0 | Some ep \<Rightarrow> length (re_Transactions ep)),
             bo_NumBlobs := (case rp_BlobsBundle p of None \<Rightarrow> 0 | Some bb \<Rightarrow> length (bb_Commitments bb)),
             bo_FeeRecipient := rp_FeeRecipient p,
             bo_Attributes := attributesSnapshot (rp_Attributes p)\<rparr>;
          outcome = (case rp_ExecutionPayload p of None \<Rightarrow> outcome | Some ep \<Rightarrow> fill_exec ep outcome)
      in case rp_ExecutionRequests p of
           None \<Rightarrow> outcome
         | Some reqs \<Rightarrow> outcome\<lparr>bo_NumExecutionRequests :=
             length (rq_Deposits reqs) + length (rq_Withdrawals reqs) + length (rq_Consolidations reqs) +
             length (rq_BuilderDeposits reqs) + length (rq_BuilderExits reqs)\<rparr>)"

definition fillBidDetail :: "SignedBid option \<Rightarrow> BidAttempt \<Rightarrow> BidAttempt" where
  "fillBidDetail signedBid attempt =
     (case signedBid of
        None \<Rightarrow> attempt
      | Some sb \<Rightarrow>
          (let bid = sm_Message sb in attempt
             \<lparr>ba_BlockHash := bm_BlockHash bid, ba_ParentBlockHash := bm_ParentBlockHash bid,
              ba_ParentBlockRoot := bm_ParentBlockRoot bid, ba_PrevRandao := bm_PrevRandao bid,
              ba_FeeRecipient := bm_FeeRecipient bid, ba_GasLimit := bm_GasLimit bid,
              ba_BuilderIndex := bm_BuilderIndex bid, ba_NumBlobCommitments := length (bm_BlobKZGCommitments bid)\<rparr>))"

definition bare_bid :: "string \<Rightarrow> BidTransport \<Rightarrow> u64 \<Rightarrow> attempt_error option \<Rightarrow> gotime \<Rightarrow> BidAttempt" where
  "bare_bid status tr v err t =
     \<lparr>ba_Status = status, ba_Transport = tr, ba_TotalValueGwei = v, ba_ExecutionPaymentGwei = 0,
      ba_CompetitorHighGwei = None, ba_BlockHash = [], ba_ParentBlockHash = [], ba_ParentBlockRoot = [],
      ba_PrevRandao = [], ba_FeeRecipient = [], ba_GasLimit = 0, ba_BuilderIndex = 0, ba_NumBlobCommitments = 0,
      ba_ArtifactIndex = None, ba_Error = err, ba_At = t\<rparr>"

definition p2p_attempt :: "gotime \<Rightarrow> BidSubmissionEvent \<Rightarrow> BidAttempt" where
  "p2p_attempt now event =
     (let attempt = fillBidDetail (be_SignedBid event)
            ((bare_bid [] BidTransportP2P (be_Value event) (map_option ErrMessage (be_Error event)) now)
               \<lparr>ba_CompetitorHighGwei := be_CompetitorHighGwei event\<rparr>)
      in case be_Status event of
           BidStatusSubmitted \<Rightarrow> attempt\<lparr>ba_Status := ResBidSubmitted\<rparr>
         | BidStatusConstructed \<Rightarrow> attempt\<lparr>ba_Status := ResBidConstructed\<rparr>
         | BidStatusFailed \<Rightarrow> attempt\<lparr>ba_Status := ResBidFailed\<rparr>
         | BidStatusNone \<Rightarrow>
             (let attempt = attempt\<lparr>ba_Status := ResBidSuppressed\<rparr>
              in if ba_Error attempt = None \<and> be_Warning event \<noteq> NoWarning
                 then attempt\<lparr>ba_Error := Some (ErrWarning (be_Warning event))\<rparr> else attempt))"

definition reveal_attempt :: "gotime \<Rightarrow> ('x, 'r) RevealResult \<Rightarrow> RevealAttempt" where
  "reveal_attempt now result =
     \<lparr>ra_Status =
        (if rr_Skipped result \<and> rr_SkipReason result = Some RevealSkipReasonPlanDisabled then RevealStatusSuppressed
         else if rr_Skipped result then RevealStatusSkipped
         else if rr_Success result then RevealStatusPublished
         else RevealStatusFailed),
      ra_Transport = rrs_Transport result, ra_SkipReason = rr_SkipReason result, ra_Error = rr_Error result,
      ra_Attempt = rr_Attempt result,
      ra_At = (case rr_CompletedAt result of None \<Rightarrow> now | Some t \<Rightarrow> t),
      ra_StartedAt = rr_StartedAt result\<rparr>"

definition inclusion_of :: "PayloadStatus option \<Rightarrow> WonBlock \<Rightarrow> InclusionResult" where
  "inclusion_of status won =
     \<lparr>ir_Source = wb_Source won, ir_BlockHash = wb_BlockHash won, ir_NumTransactions = wb_NumTransactions won,
      ir_NumBlobs = wb_NumBlobs won, ir_ValueWei = wb_ValueWei won, ir_Timestamp = wb_Timestamp won,
      ir_PayloadStatus = status, ir_PayloadCheckSlot = 0\<rparr>"

fun status_of_verdict :: "PayloadVerdict \<Rightarrow> PayloadStatus" where
  "status_of_verdict PayloadVerdictCanonical = PayloadStatusCanonical"
| "status_of_verdict PayloadVerdictMissed = PayloadStatusMissed"
| "status_of_verdict PayloadVerdictOrphaned = PayloadStatusOrphaned"

section \<open>Mutations of a record\<close>

text \<open>\<open>appendCapped\<close> on a list and the counter of its kind.\<close>

definition appendCapped :: "'a list \<Rightarrow> 'a \<Rightarrow> attempt_kind \<Rightarrow> (attempt_kind \<Rightarrow> nat) \<Rightarrow> 'a list \<times> (attempt_kind \<Rightarrow> nat)" where
  "appendCapped xs x kind dropped =
     (if length xs \<ge> maxAttemptsPerKind then (xs, dropped(kind := dropped kind + 1))
      else (xs @ [x], dropped))"

definition append_bid :: "BidAttempt \<Rightarrow> SlotResult \<Rightarrow> SlotResult" where
  "append_bid a r =
     (let (xs, dropped) = appendCapped (res_Bids r) a KindBids (res_DroppedAttempts r)
      in r\<lparr>res_Bids := xs, res_DroppedAttempts := dropped\<rparr>)"

definition append_submission :: "BlockSubmission \<Rightarrow> SlotResult \<Rightarrow> SlotResult" where
  "append_submission a r =
     (let (xs, dropped) = appendCapped (res_BlockSubmissions r) a KindBlockSubmissions (res_DroppedAttempts r)
      in r\<lparr>res_BlockSubmissions := xs, res_DroppedAttempts := dropped\<rparr>)"

definition append_reveal :: "RevealAttempt \<Rightarrow> SlotResult \<Rightarrow> SlotResult" where
  "append_reveal a r =
     (let (xs, dropped) = appendCapped (res_RevealAttempts r) a KindRevealAttempts (res_DroppedAttempts r)
      in r\<lparr>res_RevealAttempts := xs, res_DroppedAttempts := dropped\<rparr>)"

definition set_baseline :: "FrozenPlan \<Rightarrow> gotime \<Rightarrow> SlotResult \<Rightarrow> SlotResult" where
  "set_baseline frozen now r =
     (if res_Build r \<noteq> None then r
      else if rb_Build (fp_Build frozen) then r\<lparr>res_Build := Some (bare_outcome BuildStatusWaitingAttributes now)\<rparr>
      else r\<lparr>res_Build := Some ((bare_outcome BuildStatusSkipped now)\<lparr>bo_SkipReason := rb_SkipReason (fp_Build frozen)\<rparr>)\<rparr>)"

definition still_waiting :: "SlotResult \<Rightarrow> bool" where
  "still_waiting r \<longleftrightarrow> (case res_Build r of None \<Rightarrow> False | Some b \<Rightarrow> bo_Status b = BuildStatusWaitingAttributes)"

definition set_no_attributes :: "gotime \<Rightarrow> SlotResult \<Rightarrow> SlotResult" where
  "set_no_attributes now r =
     (case res_Build r of
        None \<Rightarrow> r
      | Some b \<Rightarrow> if bo_Status b = BuildStatusWaitingAttributes
                  then r\<lparr>res_Build := Some (b\<lparr>bo_Status := BuildStatusNoAttributes, bo_At := now\<rparr>)\<rparr> else r)"

definition set_ready :: "ready_payload \<Rightarrow> SlotResult \<Rightarrow> SlotResult" where
  "set_ready p r = r\<lparr>res_Build := Some (ready_outcome p)\<rparr>"

definition set_started :: "gotime \<Rightarrow> SlotResult \<Rightarrow> SlotResult" where
  "set_started t r =
     (if (case res_Build r of None \<Rightarrow> False
          | Some b \<Rightarrow> bo_Status b \<noteq> BuildStatusWaitingAttributes \<and> bo_Status b \<noteq> BuildStatusNoAttributes) then r
      else r\<lparr>res_Build := Some (bare_outcome BuildStatusStarted t)\<rparr>)"

definition set_failed :: "string \<Rightarrow> gotime \<Rightarrow> SlotResult \<Rightarrow> SlotResult" where
  "set_failed err t r = r\<lparr>res_Build := Some ((bare_outcome BuildStatusFailed t)\<lparr>bo_Error := err\<rparr>)\<rparr>"

definition set_skipped :: "build_skip option \<Rightarrow> gotime \<Rightarrow> SlotResult \<Rightarrow> SlotResult" where
  "set_skipped reason now r =
     (if (case res_Build r of None \<Rightarrow> False | Some b \<Rightarrow> bo_Status b \<noteq> BuildStatusWaitingAttributes) then r
      else r\<lparr>res_Build := Some ((bare_outcome BuildStatusSkipped now)\<lparr>bo_SkipReason := reason\<rparr>)\<rparr>)"

definition set_included :: "PayloadStatus \<Rightarrow> WonBlock \<Rightarrow> SlotResult \<Rightarrow> SlotResult" where
  "set_included status won r = r\<lparr>res_Inclusion := Some (inclusion_of (Some status) won)\<rparr>"

definition set_verdict :: "PayloadStatusEvent \<Rightarrow> SlotResult \<Rightarrow> SlotResult" where
  "set_verdict event r =
     (case res_Inclusion r of
        None \<Rightarrow> r
      | Some i \<Rightarrow> r\<lparr>res_Inclusion := Some (i\<lparr>ir_PayloadStatus := Some (status_of_verdict (pse_Verdict event)),
                                             ir_PayloadCheckSlot := pse_NextBlockSlot event\<rparr>)\<rparr>)"

section \<open>How a record may grow\<close>

text \<open>The order of the build lifecycle.\<close>

fun build_rank :: "BuildOutcome option \<Rightarrow> nat" where
  "build_rank None = 0"
| "build_rank (Some b) =
     (case bo_Status b of
        BuildStatusWaitingAttributes \<Rightarrow> 1
      | BuildStatusNoAttributes \<Rightarrow> 2
      | BuildStatusStarted \<Rightarrow> 3
      | BuildStatusSkipped \<Rightarrow> 3
      | BuildStatusReady \<Rightarrow> 4
      | BuildStatusFailed \<Rightarrow> 4)"

definition recorded :: "attempt_kind \<Rightarrow> SlotResult \<Rightarrow> nat" where
  "recorded kind r = res_DroppedAttempts r kind +
     (case kind of
        KindBids \<Rightarrow> length (res_Bids r)
      | KindBlockSubmissions \<Rightarrow> length (res_BlockSubmissions r)
      | KindRevealAttempts \<Rightarrow> length (res_RevealAttempts r))"

definition within_caps :: "SlotResult \<Rightarrow> bool" where
  "within_caps r \<longleftrightarrow> length (res_Bids r) \<le> maxAttemptsPerKind \<and>
     length (res_BlockSubmissions r) \<le> maxAttemptsPerKind \<and> length (res_RevealAttempts r) \<le> maxAttemptsPerKind"

text \<open>A later record of the same slot keeps what an earlier one says.\<close>

definition history_kept :: "SlotResult \<Rightarrow> SlotResult \<Rightarrow> bool" where
  "history_kept r r' \<longleftrightarrow>
     res_Slot r' = res_Slot r \<and> res_Epoch r' = res_Epoch r \<and> res_Fork r' = res_Fork r \<and>
     res_AppliedPlan r' = res_AppliedPlan r \<and>
     build_rank (res_Build r) \<le> build_rank (res_Build r') \<and>
     prefix (res_Bids r) (res_Bids r') \<and> prefix (res_BlockSubmissions r) (res_BlockSubmissions r') \<and>
     prefix (res_RevealAttempts r) (res_RevealAttempts r') \<and>
     (res_Inclusion r' = None \<longrightarrow> res_Inclusion r = None)"

lemma history_kept_refl [simp]: "history_kept r r"
  by (simp add: history_kept_def)

lemma history_kept_trans: "history_kept a b \<Longrightarrow> history_kept b c \<Longrightarrow> history_kept a c"
  by (auto simp: history_kept_def intro: prefix_order.trans)

text \<open>What every mutation does to a record: it keeps the history and counts at most one attempt.\<close>

definition mutation_ok :: "attempt_kind option \<Rightarrow> (SlotResult \<Rightarrow> SlotResult) \<Rightarrow> bool" where
  "mutation_ok counted f \<longleftrightarrow>
     (\<forall>r. history_kept r (f r) \<and> (within_caps r \<longrightarrow> within_caps (f r)) \<and>
          (\<forall>kind. recorded kind (f r) = recorded kind r + (if counted = Some kind then 1 else 0)))"

lemmas mutation_defs = mutation_ok_def history_kept_def within_caps_def recorded_def

lemma append_bid_ok: "mutation_ok (Some KindBids) (append_bid a)"
  by (auto simp: mutation_defs append_bid_def appendCapped_def split: attempt_kind.split)

lemma append_submission_ok: "mutation_ok (Some KindBlockSubmissions) (append_submission a)"
  by (auto simp: mutation_defs append_submission_def appendCapped_def split: attempt_kind.split)

lemma append_reveal_ok: "mutation_ok (Some KindRevealAttempts) (append_reveal a)"
  by (auto simp: mutation_defs append_reveal_def appendCapped_def split: attempt_kind.split)

text \<open>A change of the build outcome or the inclusion counts nothing.\<close>

lemma build_change_ok:
  assumes "\<And>r. \<exists>b. f r = r\<lparr>res_Build := b\<rparr> \<and> build_rank (res_Build r) \<le> build_rank b"
  shows "mutation_ok None f"
  unfolding mutation_ok_def
proof (intro allI)
  fix r
  obtain b where "f r = r\<lparr>res_Build := b\<rparr>" "build_rank (res_Build r) \<le> build_rank b" using assms by blast
  then show "history_kept r (f r) \<and> (within_caps r \<longrightarrow> within_caps (f r)) \<and>
      (\<forall>kind. recorded kind (f r) = recorded kind r + (if None = Some kind then 1 else 0))"
    by (simp add: history_kept_def within_caps_def recorded_def split: attempt_kind.split)
qed

lemma build_rank_le: "build_rank b \<le> 4"
  by (cases b) (auto split: BuildStatus.split)

lemma bare_outcome_status [simp]: "bo_Status (bare_outcome st t) = st"
  by (simp add: bare_outcome_def)

lemma ready_outcome_status [simp]: "bo_Status (ready_outcome p) = BuildStatusReady"
  by (simp add: ready_outcome_def fill_exec_def Let_def split: option.split)

lemma set_ready_ok: "mutation_ok None (set_ready p)"
  by (rule build_change_ok) (simp add: set_ready_def exI [of _ "Some (ready_outcome p)"] build_rank_le)

lemma set_failed_ok: "mutation_ok None (set_failed err t)"
  by (rule build_change_ok)
     (simp add: set_failed_def build_rank_le exI [of _ "Some ((bare_outcome BuildStatusFailed t)\<lparr>bo_Error := err\<rparr>)"])

lemma build_rank_waiting: "res_Build r = Some b \<Longrightarrow> bo_Status b = BuildStatusWaitingAttributes \<Longrightarrow> build_rank (res_Build r) = 1"
  by simp

lemma set_started_ok: "mutation_ok None (set_started t)"
proof (rule build_change_ok)
  fix r
  show "\<exists>b. set_started t r = r\<lparr>res_Build := b\<rparr> \<and> build_rank (res_Build r) \<le> build_rank b"
    by (rule exI [of _ "res_Build (set_started t r)"])
       (cases "res_Build r"; auto simp: set_started_def split: BuildStatus.split)
qed

lemma set_skipped_ok: "mutation_ok None (set_skipped reason t)"
proof (rule build_change_ok)
  fix r
  show "\<exists>b. set_skipped reason t r = r\<lparr>res_Build := b\<rparr> \<and> build_rank (res_Build r) \<le> build_rank b"
    by (rule exI [of _ "res_Build (set_skipped reason t r)"])
       (cases "res_Build r"; auto simp: set_skipped_def split: BuildStatus.split)
qed

lemma set_baseline_ok: "mutation_ok None (set_baseline frozen t)"
proof (rule build_change_ok)
  fix r
  show "\<exists>b. set_baseline frozen t r = r\<lparr>res_Build := b\<rparr> \<and> build_rank (res_Build r) \<le> build_rank b"
    by (rule exI [of _ "res_Build (set_baseline frozen t r)"])
       (cases "res_Build r"; auto simp: set_baseline_def split: BuildStatus.split)
qed

lemma set_no_attributes_ok: "mutation_ok None (set_no_attributes t)"
proof (rule build_change_ok)
  fix r
  show "\<exists>b. set_no_attributes t r = r\<lparr>res_Build := b\<rparr> \<and> build_rank (res_Build r) \<le> build_rank b"
    by (rule exI [of _ "res_Build (set_no_attributes t r)"])
       (cases "res_Build r"; auto simp: set_no_attributes_def split: BuildStatus.split)
qed

lemma set_included_ok: "mutation_ok None (set_included status won)"
  by (auto simp: mutation_defs set_included_def split: attempt_kind.split)

lemma set_verdict_ok: "mutation_ok None (set_verdict event)"
  by (auto simp: mutation_defs set_verdict_def split: option.split attempt_kind.split)

lemmas mutations_ok = append_bid_ok append_submission_ok append_reveal_ok set_ready_ok set_failed_ok set_started_ok
  set_skipped_ok set_baseline_ok set_no_attributes_ok set_included_ok set_verdict_ok

lemma mutation_slot: "mutation_ok c f \<Longrightarrow> res_Slot (f r) = res_Slot r"
  by (simp add: mutation_ok_def history_kept_def)

end
