(* ===== verification/Slot_Results.thy ===== *)
theory Slot_Results
  imports Slot_Records
begin

text \<open>
  The slot results tracker, \<open>pkg/slot_results/tracker.go\<close>: one event of its loop, one call of a
  Builder API handler or one timer at a time.  The configuration and the reading of the clock are
  arguments of a step; a step reads the clock once.  The store is the memstore of
  \<open>Store_Iface\<close>, the plan service is shared with the other services, \<open>tk_updates\<close> is what the
  dispatcher delivered, and \<open>tk_timers\<close> are the trailing flushes \<open>time.AfterFunc\<close> has outstanding.
  Persistence of the store is the subject of \<open>Memstore\<close>.
\<close>

section \<open>State\<close>

record Tracker =
  tk_store :: "(slot, SlotResult) store"
  tk_artifacts :: ArtifactStore
  tk_planSvc :: PlanService
  tk_lastFired :: "(slot \<times> gotime) list"
  tk_pending :: "slot \<rightharpoonup> SlotResult"
  tk_flushPending :: "slot \<Rightarrow> bool"
  tk_timers :: "(slot \<times> gotime) list"
  tk_updates :: "SlotResult list"
  tk_lastTicked :: slot
  tk_slotTimer :: gotime
  tk_stopped :: bool

record ('x, 'r) tracker_env =
  te_spec :: ChainSpec
  te_genesisTime :: gotime
  te_bidSSZ :: "SignedBid \<Rightarrow> u8 list option"
  te_envelopeSSZ :: "('x, 'r) SignedEnvelope \<Rightarrow> u8 list option"
  te_forkOfName :: "string \<Rightarrow> DataVersion option"

definition updateFireInterval :: duration where
  "updateFireInterval = nanos_per_s"

definition maxSlotCatchUp :: u64 where
  "maxSlotCatchUp = 4"

definition NewTracker :: "artifact_db \<Rightarrow> PlanService \<Rightarrow> Tracker" where
  "NewTracker d svc =
     \<lparr>tk_store = New, tk_artifacts = NewArtifactStore d, tk_planSvc = svc, tk_lastFired = [], tk_pending = Map.empty,
      tk_flushPending = (\<lambda>_. False), tk_timers = [], tk_updates = [], tk_lastTicked = 0, tk_slotTimer = 0,
      tk_stopped = False\<rparr>"

section \<open>Delivering updates\<close>

definition pruneCoalescing :: "slot \<Rightarrow> Tracker \<Rightarrow> Tracker" where
  "pruneCoalescing s tk =
     (if length (tk_lastFired tk) \<le> 64 then tk
      else tk\<lparr>tk_lastFired := filter (\<lambda>(firedSlot, _). \<not> firedSlot + 64 < s) (tk_lastFired tk),
              tk_pending := (\<lambda>k. if k + 64 < s \<and> map_of (tk_lastFired tk) k \<noteq> None then None else tk_pending tk k)\<rparr>)"

definition fireUpdate :: "gotime \<Rightarrow> slot \<Rightarrow> SlotResult \<Rightarrow> Tracker \<Rightarrow> Tracker" where
  "fireUpdate now s result tk =
     (if (case map_of (tk_lastFired tk) s of None \<Rightarrow> False | Some last_fired \<Rightarrow> time_sub now last_fired < updateFireInterval)
      then
        (let tk = tk\<lparr>tk_pending := (tk_pending tk)(s \<mapsto> result)\<rparr>;
             delay = updateFireInterval - time_sub now (the (map_of (tk_lastFired tk) s))
         in if tk_flushPending tk s then tk
            else tk\<lparr>tk_flushPending := (tk_flushPending tk)(s := True),
                    tk_timers := tk_timers tk @ [(s, time_add now delay)]\<rparr>)
      else
        (let tk = pruneCoalescing s (tk\<lparr>tk_lastFired := AList.update s now (tk_lastFired tk),
                                         tk_pending := (tk_pending tk)(s := None)\<rparr>)
         in tk\<lparr>tk_updates := tk_updates tk @ [result]\<rparr>))"

definition flushTrailing :: "gotime \<Rightarrow> slot \<Rightarrow> Tracker \<Rightarrow> Tracker" where
  "flushTrailing now s tk =
     (let tk = tk\<lparr>tk_flushPending := (tk_flushPending tk)(s := False)\<rparr> in
      case tk_pending tk s of
        None \<Rightarrow> tk
      | Some result \<Rightarrow>
          if tk_stopped tk then tk
          else tk\<lparr>tk_pending := (tk_pending tk)(s := None), tk_lastFired := AList.update s now (tk_lastFired tk),
                  tk_updates := tk_updates tk @ [result]\<rparr>)"

text \<open>The record a mutation starts from, and the plan service after it was looked up.\<close>

definition start_record :: "ChainSpec \<Rightarrow> Config \<Rightarrow> gotime \<Rightarrow> slot \<Rightarrow> Tracker \<Rightarrow> SlotResult \<times> PlanService" where
  "start_record spec cfg now s tk =
     (case Get s (tk_store tk) of
        Some existing \<Rightarrow> (existing, tk_planSvc tk)
      | None \<Rightarrow>
          (let (frozen, svc) = Freeze spec cfg now s (tk_planSvc tk)
           in (new_result s (GetEpochOfSlot spec s) frozen, svc)))"

definition upsert :: "ChainSpec \<Rightarrow> Config \<Rightarrow> gotime \<Rightarrow> slot \<Rightarrow> (SlotResult \<Rightarrow> SlotResult) \<Rightarrow> Tracker \<Rightarrow> Tracker" where
  "upsert spec cfg now s mutate tk =
     (let (result, svc) = start_record spec cfg now s tk;
          result = (mutate result)\<lparr>res_UpdatedAt := now\<rparr>
      in fireUpdate now s result (tk\<lparr>tk_planSvc := svc, tk_store := store_put s result (tk_store tk)\<rparr>))"

section \<open>The slot clock\<close>

definition materializeBaseline :: "ChainSpec \<Rightarrow> Config \<Rightarrow> gotime \<Rightarrow> slot \<Rightarrow> Tracker \<Rightarrow> Tracker" where
  "materializeBaseline spec cfg now s tk =
     (let (frozen, svc) = Freeze spec cfg now s (tk_planSvc tk); tk = tk\<lparr>tk_planSvc := svc\<rparr>
      in if \<not> rb_PlanInvolved (fp_Build frozen) then tk
         else upsert spec cfg now s (set_baseline frozen now) tk)"

definition finalizeWaitingBaseline :: "ChainSpec \<Rightarrow> Config \<Rightarrow> gotime \<Rightarrow> slot \<Rightarrow> Tracker \<Rightarrow> Tracker" where
  "finalizeWaitingBaseline spec cfg now s tk =
     (case Get s (tk_store tk) of
        None \<Rightarrow> tk
      | Some existing \<Rightarrow>
          if \<not> still_waiting existing then tk
          else upsert spec cfg now s (set_no_attributes now) tk)"

definition durationToNextSlot :: "ChainSpec \<Rightarrow> gotime \<Rightarrow> gotime \<Rightarrow> duration" where
  "durationToNextSlot spec genesisTime now =
     (let wait = time_sub (SlotToTime spec genesisTime (GetCurrentSlot spec genesisTime now + 1)) now
      in if wait < 10 * nanos_per_ms then 10 * nanos_per_ms else wait)"

definition first_slot :: "slot \<Rightarrow> slot \<Rightarrow> slot" where
  "first_slot lastTicked currentSlot =
     (if currentSlot > lastTicked + 1 + maxSlotCatchUp then currentSlot - maxSlotCatchUp else lastTicked + 1)"

text \<open>
  \<open>for slot := first; slot <= current; slot++\<close>, for a current slot that is not the largest number
  of its type.\<close>

definition slots_upto :: "slot \<Rightarrow> slot \<Rightarrow> slot list" where
  "slots_upto a b = map word_of_nat [unat a ..< Suc (unat b)]"

definition tick_slot :: "ChainSpec \<Rightarrow> Config \<Rightarrow> gotime \<Rightarrow> slot \<Rightarrow> Tracker \<Rightarrow> Tracker" where
  "tick_slot spec cfg now s tk =
     finalizeWaitingBaseline spec cfg now (s - 1) (materializeBaseline spec cfg now s tk)"

definition slot_tick :: "ChainSpec \<Rightarrow> gotime \<Rightarrow> Config \<Rightarrow> gotime \<Rightarrow> Tracker \<Rightarrow> Tracker" where
  "slot_tick spec genesisTime cfg now tk =
     (let currentSlot = GetCurrentSlot spec genesisTime now;
          firstSlot = first_slot (tk_lastTicked tk) currentSlot;
          tk = fold (tick_slot spec cfg now) (slots_upto firstSlot currentSlot) tk;
          tk = (if currentSlot > tk_lastTicked tk then tk\<lparr>tk_lastTicked := currentSlot\<rparr> else tk)
      in tk\<lparr>tk_slotTimer := time_add now (durationToNextSlot spec genesisTime now)\<rparr>)"

text \<open>The loop starts with the current slot counted as seen.\<close>

definition tracker_Start :: "ChainSpec \<Rightarrow> gotime \<Rightarrow> gotime \<Rightarrow> Tracker \<Rightarrow> Tracker" where
  "tracker_Start spec genesisTime now tk =
     tk\<lparr>tk_lastTicked := GetCurrentSlot spec genesisTime now,
        tk_slotTimer := time_add now (durationToNextSlot spec genesisTime now)\<rparr>"

section \<open>Handlers\<close>

definition handlePayloadReady :: "ChainSpec \<Rightarrow> Config \<Rightarrow> gotime \<Rightarrow> ready_payload option \<Rightarrow> Tracker \<Rightarrow> Tracker" where
  "handlePayloadReady spec cfg now payload tk =
     (case payload of None \<Rightarrow> tk | Some p \<Rightarrow>
        (case rp_Attributes p of None \<Rightarrow> tk | Some attrs \<Rightarrow>
           (let s = pa_ProposalSlot attrs;
                tk = upsert spec cfg now s (set_ready p) tk
            in case rp_ExecutionPayload p of
                 None \<Rightarrow> tk
               | Some ep \<Rightarrow>
                   if cfg_SlotArtifactCaptureEnabled cfg
                   then tk\<lparr>tk_artifacts := snd (StorePayload s (re_Version ep) (Some (re_SSZ ep))
                          (now div nanos_per_ms) (tk_artifacts tk))\<rparr>
                   else tk)))"

definition handleBuildStarted :: "ChainSpec \<Rightarrow> Config \<Rightarrow> gotime \<Rightarrow> slot \<Rightarrow> gotime \<Rightarrow> Tracker \<Rightarrow> Tracker" where
  "handleBuildStarted spec cfg now s startedAt tk = upsert spec cfg now s (set_started startedAt) tk"

definition handleBuildFailed :: "ChainSpec \<Rightarrow> Config \<Rightarrow> gotime \<Rightarrow> slot \<Rightarrow> string \<Rightarrow> gotime \<Rightarrow> Tracker \<Rightarrow> Tracker" where
  "handleBuildFailed spec cfg now s err failedAt tk = upsert spec cfg now s (set_failed err failedAt) tk"

definition handleBuildSkipped :: "ChainSpec \<Rightarrow> Config \<Rightarrow> gotime \<Rightarrow> slot \<Rightarrow> build_skip option \<Rightarrow> Tracker \<Rightarrow> Tracker" where
  "handleBuildSkipped spec cfg now s reason tk = upsert spec cfg now s (set_skipped reason now) tk"

definition appendBid :: "ChainSpec \<Rightarrow> Config \<Rightarrow> gotime \<Rightarrow> slot \<Rightarrow> BidAttempt \<Rightarrow> Tracker \<Rightarrow> Tracker" where
  "appendBid spec cfg now s attempt tk = upsert spec cfg now s (append_bid attempt) tk"

fun transport_text :: "BidTransport \<Rightarrow> string" where
  "transport_text BidTransportP2P = ''p2p''"
| "transport_text BidTransportBuilderAPI = ''builder-api''"

text \<open>The capture of a bid and what its outcome leaves in the attempt.\<close>

definition capture_bid ::
  "gotime \<Rightarrow> slot \<Rightarrow> DataVersion \<Rightarrow> u8 list option \<Rightarrow> BidAttempt \<Rightarrow> ArtifactStore \<Rightarrow> BidAttempt \<times> ArtifactStore" where
  "capture_bid now s fork encoded attempt st =
     (case StoreBid s fork (Some encoded)
             \<lparr>bam_V = 0, bam_Transport = transport_text (ba_Transport attempt),
              bam_TotalValueGwei = ba_TotalValueGwei attempt,
              bam_ExecutionPaymentGwei = ba_ExecutionPaymentGwei attempt, bam_At = now div nanos_per_ms\<rparr>
             (now div nanos_per_ms) st of
        (Inl e, st) \<Rightarrow> (if ba_Error attempt = None then attempt\<lparr>ba_Error := Some (ErrArtifact e)\<rparr> else attempt, st)
      | (Inr idx, st) \<Rightarrow> (attempt\<lparr>ba_ArtifactIndex := Some idx\<rparr>, st))"

definition handleBidSubmission ::
  "('x, 'r) tracker_env \<Rightarrow> Config \<Rightarrow> gotime \<Rightarrow> BidSubmissionEvent \<Rightarrow> Tracker \<Rightarrow> Tracker" where
  "handleBidSubmission env cfg now event tk =
     (let attempt = p2p_attempt now event;
          (attempt, st) =
            (case be_SignedBid event of
               None \<Rightarrow> (attempt, tk_artifacts tk)
             | Some sb \<Rightarrow>
                 if cfg_SlotArtifactCaptureEnabled cfg
                 then capture_bid now (be_Slot event) (sm_Version sb) (te_bidSSZ env sb) attempt (tk_artifacts tk)
                 else (attempt, tk_artifacts tk))
      in appendBid (te_spec env) cfg now (be_Slot event) attempt (tk\<lparr>tk_artifacts := st\<rparr>))"

definition handleRevealResult ::
  "('x, 'r) tracker_env \<Rightarrow> Config \<Rightarrow> gotime \<Rightarrow> ('x, 'r) RevealResult \<Rightarrow> Tracker \<Rightarrow> Tracker" where
  "handleRevealResult env cfg now result tk =
     (let tk =
            (case rr_Envelope result of
               None \<Rightarrow> tk
             | Some envelope \<Rightarrow>
                 if cfg_SlotArtifactCaptureEnabled cfg
                 then tk\<lparr>tk_artifacts := snd (StoreEnvelope (rr_Slot result) (sm_Version envelope)
                        (Some (te_envelopeSSZ env envelope)) (now div nanos_per_ms) (tk_artifacts tk))\<rparr>
                 else tk)
      in upsert (te_spec env) cfg now (rr_Slot result) (append_reveal (reveal_attempt now result)) tk)"

definition handleIncluded :: "ChainSpec \<Rightarrow> Config \<Rightarrow> gotime \<Rightarrow> WonBlock option \<Rightarrow> Tracker \<Rightarrow> Tracker" where
  "handleIncluded spec cfg now won tk =
     (case won of
        None \<Rightarrow> tk
      | Some won \<Rightarrow>
          (let s = wb_Slot won;
               payloadStatus = (if ActiveForkAtEpoch spec (GetEpochOfSlot spec s) \<ge> DataVersionGloas
                                then PayloadStatusPending else PayloadStatusCanonical)
           in upsert spec cfg now s (set_included payloadStatus won) tk))"

definition handlePayloadStatus :: "ChainSpec \<Rightarrow> Config \<Rightarrow> gotime \<Rightarrow> PayloadStatusEvent \<Rightarrow> Tracker \<Rightarrow> Tracker" where
  "handlePayloadStatus spec cfg now event tk = upsert spec cfg now (pse_Slot event) (set_verdict event) tk"

text \<open>
  The object a Builder API handler passes along: none, a Gloas bid with its message, or another
  object with the outcome of its encoding.\<close>

datatype api_bid = NoBidObject | EpbsBid SignedBid | OtherBid "u8 list option"

definition RecordBuilderAPIBid ::
  "('x, 'r) tracker_env \<Rightarrow> Config \<Rightarrow> gotime \<Rightarrow> slot \<Rightarrow> string \<Rightarrow> api_bid \<Rightarrow> u64 \<Rightarrow> u64 \<Rightarrow> string \<Rightarrow> string
     \<Rightarrow> Tracker \<Rightarrow> Tracker" where
  "RecordBuilderAPIBid env cfg now s forkName signedBid totalValueGwei executionPaymentGwei status errMsg tk =
     (let attempt = (bare_bid status BidTransportBuilderAPI totalValueGwei
                       (if errMsg = [] then None else Some (ErrText errMsg)) now)
                      \<lparr>ba_ExecutionPaymentGwei := executionPaymentGwei\<rparr>;
          attempt = (case signedBid of EpbsBid sb \<Rightarrow> fillBidDetail (Some sb) attempt | _ \<Rightarrow> attempt);
          marshaler = (case signedBid of NoBidObject \<Rightarrow> None | EpbsBid sb \<Rightarrow> Some (te_bidSSZ env sb) | OtherBid b \<Rightarrow> Some b);
          fork = (case te_forkOfName env forkName of None \<Rightarrow> DataVersionUnknown | Some v \<Rightarrow> v);
          (attempt, st) =
            (case marshaler of
               None \<Rightarrow> (attempt, tk_artifacts tk)
             | Some encoded \<Rightarrow>
                 if cfg_SlotArtifactCaptureEnabled cfg
                 then capture_bid now s fork encoded attempt (tk_artifacts tk)
                 else (attempt, tk_artifacts tk))
      in appendBid (te_spec env) cfg now s attempt (tk\<lparr>tk_artifacts := st\<rparr>))"

definition RecordBlockSubmission ::
  "ChainSpec \<Rightarrow> Config \<Rightarrow> gotime \<Rightarrow> slot \<Rightarrow> string \<Rightarrow> string \<Rightarrow> string \<Rightarrow> Tracker \<Rightarrow> Tracker" where
  "RecordBlockSubmission spec cfg now s dialect status errMsg tk =
     upsert spec cfg now s
       (append_submission \<lparr>bs_Dialect = dialect, bs_Status = status, bs_Error = errMsg, bs_At = now\<rparr>) tk"

section \<open>Queries and pruning\<close>

definition result_Get :: "slot \<Rightarrow> Tracker \<Rightarrow> SlotResult option" where
  "result_Get s tk = Get s (tk_store tk)"

definition result_GetRange :: "slot \<Rightarrow> slot \<Rightarrow> Tracker \<Rightarrow> SlotResult list" where
  "result_GetRange minSlot maxSlot tk =
     sort_key res_Slot (map snd (filter (\<lambda>(s, _). s \<ge> minSlot \<and> s \<le> maxSlot) (Entries (tk_store tk))))"

definition won_of :: "SlotResult \<Rightarrow> WonBlock option" where
  "won_of r = map_option (\<lambda>i.
     \<lparr>wb_Source = ir_Source i, wb_Slot = res_Slot r, wb_BlockHash = ir_BlockHash i,
      wb_NumTransactions = ir_NumTransactions i, wb_NumBlobs = ir_NumBlobs i, wb_ValueWei = ir_ValueWei i,
      wb_Timestamp = ir_Timestamp i\<rparr>) (res_Inclusion r)"

definition GetWonBlocks :: "int \<Rightarrow> int \<Rightarrow> Tracker \<Rightarrow> WonBlock list \<times> nat" where
  "GetWonBlocks offset limit tk =
     (let included = rev (sort_key res_Slot (filter (\<lambda>r. res_Inclusion r \<noteq> None) (Values (tk_store tk))));
          tot = int (length included);
          offset = (if offset < 0 then 0 else offset)
      in if offset \<ge> tot then ([], length included)
         else
           (let stop = (if limit > 0 \<and> offset + limit < tot then offset + limit else tot)
            in (List.map_filter won_of (drop (nat offset) (take (nat stop) included)), length included)))"

definition retention_cutoff :: "ChainSpec \<Rightarrow> u64 \<Rightarrow> epoch \<Rightarrow> slot option" where
  "retention_cutoff spec retention e =
     (if retention > 0 \<and> e > retention then Some ((e - retention) * SlotsPerEpoch spec) else None)"

definition results_pruneForEpoch :: "ChainSpec \<Rightarrow> Config \<Rightarrow> epoch \<Rightarrow> Tracker \<Rightarrow> Tracker" where
  "results_pruneForEpoch spec cfg e tk =
     (let tk = (case retention_cutoff spec (cfg_SlotResultRetentionEpochs cfg) e of
                  None \<Rightarrow> tk
                | Some cutoff \<Rightarrow> tk\<lparr>tk_store := store_prune (\<lambda>s. s < cutoff) (tk_store tk),
                    tk_lastFired := filter (\<lambda>(s, _). \<not> s < cutoff) (tk_lastFired tk)\<rparr>)
      in case retention_cutoff spec (cfg_SlotArtifactRetentionEpochs cfg) e of
           None \<Rightarrow> tk
         | Some cutoff \<Rightarrow> tk\<lparr>tk_artifacts := PruneBefore cutoff (tk_artifacts tk)\<rparr>)"

definition tracker_Stop :: "Tracker \<Rightarrow> Tracker" where
  "tracker_Stop tk = tk\<lparr>tk_stopped := True, tk_artifacts := writer_drain (tk_artifacts tk)\<rparr>"

section \<open>Steps\<close>

datatype ('x, 'r) loop_event =
    OnReady "ready_payload option"
  | OnStarted slot gotime
  | OnFailed slot string gotime
  | OnSkipped slot "build_skip option"
  | OnBid BidSubmissionEvent
  | OnReveal "('x, 'r) RevealResult"
  | OnIncluded "WonBlock option"
  | OnVerdict PayloadStatusEvent
  | OnEpoch epoch
  | OnSlotTimer

fun tracker_loop :: "('x, 'r) tracker_env \<Rightarrow> Config \<Rightarrow> gotime \<Rightarrow> ('x, 'r) loop_event \<Rightarrow> Tracker \<Rightarrow> Tracker" where
  "tracker_loop env cfg now (OnReady payload) tk = handlePayloadReady (te_spec env) cfg now payload tk"
| "tracker_loop env cfg now (OnStarted s t) tk = handleBuildStarted (te_spec env) cfg now s t tk"
| "tracker_loop env cfg now (OnFailed s err t) tk = handleBuildFailed (te_spec env) cfg now s err t tk"
| "tracker_loop env cfg now (OnSkipped s reason) tk = handleBuildSkipped (te_spec env) cfg now s reason tk"
| "tracker_loop env cfg now (OnBid event) tk = handleBidSubmission env cfg now event tk"
| "tracker_loop env cfg now (OnReveal result) tk = handleRevealResult env cfg now result tk"
| "tracker_loop env cfg now (OnIncluded won) tk = handleIncluded (te_spec env) cfg now won tk"
| "tracker_loop env cfg now (OnVerdict event) tk = handlePayloadStatus (te_spec env) cfg now event tk"
| "tracker_loop env cfg now (OnEpoch e) tk = results_pruneForEpoch (te_spec env) cfg e tk"
| "tracker_loop env cfg now OnSlotTimer tk = slot_tick (te_spec env) (te_genesisTime env) cfg now tk"

text \<open>
  Everything that reaches the tracker: events of its loop, which ends with the tracker, calls of the
  Builder API, the outstanding timers, changes of the plans by others, and the artifact writer.\<close>

datatype ('x, 'r) tracker_op =
    OpLoop "('x, 'r) loop_event"
  | OpApiBid slot string api_bid u64 u64 string string
  | OpSubmission slot string string string
  | OpTimer nat
  | OpPlan plan_op
  | OpWriter
  | OpStop

fun tracker_step :: "('x, 'r) tracker_env \<Rightarrow> Config \<times> gotime \<times> ('x, 'r) tracker_op \<Rightarrow> Tracker \<Rightarrow> Tracker" where
  "tracker_step env (cfg, now, OpLoop ev) tk = (if tk_stopped tk then tk else tracker_loop env cfg now ev tk)"
| "tracker_step env (cfg, now, OpApiBid s forkName bid v p status err) tk =
     RecordBuilderAPIBid env cfg now s forkName bid v p status err tk"
| "tracker_step env (cfg, now, OpSubmission s dialect status err) tk =
     RecordBlockSubmission (te_spec env) cfg now s dialect status err tk"
| "tracker_step env (cfg, now, OpTimer n) tk =
     (if n < length (tk_timers tk)
      then flushTrailing now (fst (tk_timers tk ! n)) (tk\<lparr>tk_timers := take n (tk_timers tk) @ drop (Suc n) (tk_timers tk)\<rparr>)
      else tk)"
| "tracker_step env (cfg, now, OpPlan pop) tk = tk\<lparr>tk_planSvc := plan_step (te_spec env) pop (tk_planSvc tk)\<rparr>"
| "tracker_step env (cfg, now, OpWriter) tk = tk\<lparr>tk_artifacts := writer_take (tk_artifacts tk)\<rparr>"
| "tracker_step env (cfg, now, OpStop) tk = tracker_Stop tk"

definition tracker_run ::
  "('x, 'r) tracker_env \<Rightarrow> (Config \<times> gotime \<times> ('x, 'r) tracker_op) list \<Rightarrow> Tracker \<Rightarrow> Tracker" where
  "tracker_run env ops tk = fold (tracker_step env) ops tk"

section \<open>What an upsert does\<close>

abbreviation record_at :: "Tracker \<Rightarrow> slot \<Rightarrow> SlotResult option" where
  "record_at tk s \<equiv> Get s (tk_store tk)"

definition plain_store :: "Tracker \<Rightarrow> bool" where
  "plain_store tk \<longleftrightarrow> \<not> keepExisting (tk_store tk) \<and> (\<forall>s. case record_at tk s of None \<Rightarrow> True | Some r \<Rightarrow> res_Slot r = s)"

lemma pruneCoalescing_store [simp]:
  "tk_store (pruneCoalescing s tk) = tk_store tk" "tk_stopped (pruneCoalescing s tk) = tk_stopped tk"
  "tk_updates (pruneCoalescing s tk) = tk_updates tk" "tk_timers (pruneCoalescing s tk) = tk_timers tk"
  "tk_flushPending (pruneCoalescing s tk) = tk_flushPending tk" "tk_planSvc (pruneCoalescing s tk) = tk_planSvc tk"
  "tk_lastTicked (pruneCoalescing s tk) = tk_lastTicked tk"
  by (simp_all add: pruneCoalescing_def)

lemma fireUpdate_store [simp]:
  "tk_store (fireUpdate now s r tk) = tk_store tk" "tk_stopped (fireUpdate now s r tk) = tk_stopped tk"
  "tk_planSvc (fireUpdate now s r tk) = tk_planSvc tk" "tk_lastTicked (fireUpdate now s r tk) = tk_lastTicked tk"
  by (simp_all add: fireUpdate_def Let_def)

lemma flushTrailing_store [simp]:
  "tk_store (flushTrailing now s tk) = tk_store tk" "tk_stopped (flushTrailing now s tk) = tk_stopped tk"
  "tk_timers (flushTrailing now s tk) = tk_timers tk"
  by (simp_all add: flushTrailing_def Let_def split: option.split)

definition upserted :: "ChainSpec \<Rightarrow> Config \<Rightarrow> gotime \<Rightarrow> slot \<Rightarrow> (SlotResult \<Rightarrow> SlotResult) \<Rightarrow> Tracker \<Rightarrow> SlotResult" where
  "upserted spec cfg now s f tk = (f (fst (start_record spec cfg now s tk)))\<lparr>res_UpdatedAt := now\<rparr>"

lemma upsert_unfold:
  "upsert spec cfg now s f tk = fireUpdate now s (upserted spec cfg now s f tk)
     (tk\<lparr>tk_planSvc := snd (start_record spec cfg now s tk),
         tk_store := store_put s (upserted spec cfg now s f tk) (tk_store tk)\<rparr>)"
  by (simp add: upsert_def upserted_def case_prod_beta Let_def)

lemma upsert_stopped [simp]: "tk_stopped (upsert spec cfg now s f tk) = tk_stopped tk"
  by (simp add: upsert_unfold)

lemma upsert_record:
  "plain_store tk \<Longrightarrow> record_at (upsert spec cfg now s f tk) t =
     (if t = s then Some (upserted spec cfg now s f tk) else record_at tk t)"
  by (simp add: upsert_unfold lww.get_put plain_store_def)

lemma start_record_cases:
  "fst (start_record spec cfg now s tk) =
     (case record_at tk s of Some r \<Rightarrow> r
      | None \<Rightarrow> new_result s (GetEpochOfSlot spec s) (fst (Freeze spec cfg now s (tk_planSvc tk))))"
  by (simp add: start_record_def case_prod_beta Let_def split: option.split)

lemma start_record_slot: "plain_store tk \<Longrightarrow> res_Slot (fst (start_record spec cfg now s tk)) = s"
  by (auto simp: start_record_cases plain_store_def new_result_def split: option.splits)

lemma upserted_slot: "plain_store tk \<Longrightarrow> mutation_ok c f \<Longrightarrow> res_Slot (upserted spec cfg now s f tk) = s"
  by (simp add: upserted_def mutation_slot start_record_slot)

lemma upsert_plain:
  assumes "plain_store tk" "mutation_ok c f"
  shows "plain_store (upsert spec cfg now s f tk)"
proof -
  have "\<not> keepExisting (tk_store (upsert spec cfg now s f tk))"
    using assms(1) by (simp add: upsert_unfold plain_store_def lww.inv_put)
  moreover have "case record_at (upsert spec cfg now s f tk) t of None \<Rightarrow> True | Some r \<Rightarrow> res_Slot r = t" for t
    using assms by (simp add: upsert_record upserted_slot) (simp add: plain_store_def)
  ultimately show ?thesis unfolding plain_store_def by blast
qed

section \<open>Records grow\<close>

definition attempt_total :: "Tracker \<Rightarrow> slot \<Rightarrow> attempt_kind \<Rightarrow> nat" where
  "attempt_total tk s kind = (case record_at tk s of None \<Rightarrow> 0 | Some r \<Rightarrow> recorded kind r)"

definition capped :: "Tracker \<Rightarrow> bool" where
  "capped tk \<longleftrightarrow> (\<forall>s. case record_at tk s of None \<Rightarrow> True | Some r \<Rightarrow> within_caps r)"

text \<open>Every record of \<open>tk\<close> is kept in \<open>tk'\<close>, with \<open>cnt\<close> further attempts counted.\<close>

definition grows :: "(slot \<Rightarrow> attempt_kind \<Rightarrow> nat) \<Rightarrow> Tracker \<Rightarrow> Tracker \<Rightarrow> bool" where
  "grows cnt tk tk' \<longleftrightarrow> plain_store tk' \<and>
     (\<forall>s r. record_at tk s = Some r \<longrightarrow> (\<exists>r'. record_at tk' s = Some r' \<and> history_kept r r')) \<and>
     (\<forall>s kind. attempt_total tk' s kind = attempt_total tk s kind + cnt s kind) \<and>
     (capped tk \<longrightarrow> capped tk')"

abbreviation none_counted :: "slot \<Rightarrow> attempt_kind \<Rightarrow> nat" where
  "none_counted \<equiv> (\<lambda>_ _. 0)"

lemma grows_plain: "grows cnt tk tk' \<Longrightarrow> plain_store tk'"
  by (simp add: grows_def)

lemma grows_same_store:
  assumes "plain_store tk" "tk_store tk' = tk_store tk"
  shows "grows none_counted tk tk'"
  using assms by (simp add: grows_def plain_store_def attempt_total_def capped_def)

lemma grows_refl: "plain_store tk \<Longrightarrow> grows none_counted tk tk"
  by (rule grows_same_store) simp_all

lemma grows_trans:
  assumes "grows c tk tk1" "grows d tk1 tk2"
  shows "grows (\<lambda>s kind. c s kind + d s kind) tk tk2"
proof -
  have "\<exists>r'. record_at tk2 s = Some r' \<and> history_kept r r'" if "record_at tk s = Some r" for s r
    using assms that unfolding grows_def by (meson history_kept_trans)
  then show ?thesis using assms by (simp add: grows_def)
qed

lemma grows_trans0: "grows none_counted tk tk1 \<Longrightarrow> grows c tk1 tk2 \<Longrightarrow> grows c tk tk2"
  using grows_trans [of none_counted tk tk1 c tk2] by simp

lemma grows_trans_right0: "grows c tk tk1 \<Longrightarrow> grows none_counted tk1 tk2 \<Longrightarrow> grows c tk tk2"
  using grows_trans [of c tk tk1 none_counted tk2] by simp

lemma stamp_simps [simp]:
  "history_kept r (r'\<lparr>res_UpdatedAt := t\<rparr>) = history_kept r r'"
  "recorded kind (r'\<lparr>res_UpdatedAt := t\<rparr>) = recorded kind r'"
  "within_caps (r'\<lparr>res_UpdatedAt := t\<rparr>) = within_caps r'"
  by (simp_all add: history_kept_def recorded_def within_caps_def split: attempt_kind.split)

lemma new_result_empty [simp]: "recorded kind (new_result s e frozen) = 0" "within_caps (new_result s e frozen)"
  by (simp_all add: new_result_def recorded_def within_caps_def split: attempt_kind.split)

definition one_attempt :: "slot \<Rightarrow> attempt_kind option \<Rightarrow> slot \<Rightarrow> attempt_kind \<Rightarrow> nat" where
  "one_attempt s c t kind = (if t = s \<and> c = Some kind then 1 else 0)"

lemma one_attempt_None [simp]: "one_attempt s None = none_counted"
  by (simp add: one_attempt_def fun_eq_iff)

lemma upsert_grows:
  assumes "plain_store tk" "mutation_ok c f"
  shows "grows (one_attempt s c) tk (upsert spec cfg now s f tk)"
proof -
  let ?r0 = "fst (start_record spec cfg now s tk)" and ?tk' = "upsert spec cfg now s f tk"
  have m: "history_kept ?r0 (f ?r0)" "within_caps ?r0 \<Longrightarrow> within_caps (f ?r0)"
    "recorded kind (f ?r0) = recorded kind ?r0 + (if c = Some kind then 1 else 0)" for kind
    using assms(2) by (simp_all add: mutation_ok_def)
  have "plain_store ?tk'" using assms by (rule upsert_plain)
  moreover have "\<exists>r'. record_at ?tk' t = Some r' \<and> history_kept r r'" if "record_at tk t = Some r" for t r
    using that m(1) assms(1) by (cases "t = s") (auto simp: upsert_record upserted_def start_record_cases)
  moreover have "attempt_total ?tk' t kind = attempt_total tk t kind + one_attempt s c t kind" for t kind
    using assms(1) m(3) [of kind]
    by (auto simp: attempt_total_def upsert_record upserted_def start_record_cases one_attempt_def split: option.splits)
  moreover have "capped ?tk'" if "capped tk"
  proof -
    have "within_caps ?r0" using that by (auto simp: capped_def start_record_cases split: option.splits)
    then show ?thesis using that assms(1) m(2) by (auto simp: capped_def upsert_record upserted_def split: option.splits)
  qed
  ultimately show ?thesis by (simp add: grows_def)
qed

section \<open>Every step\<close>

lemma upsert_grows0: "plain_store tk \<Longrightarrow> mutation_ok None f \<Longrightarrow> grows none_counted tk (upsert spec cfg now s f tk)"
  using upsert_grows [of tk None f s] by simp

lemma set_artifacts_grows: "plain_store tk \<Longrightarrow> grows none_counted tk (tk\<lparr>tk_artifacts := st\<rparr>)"
  by (rule grows_same_store) simp_all

lemma set_artifacts_later: "grows c tk tk' \<Longrightarrow> grows c tk (tk'\<lparr>tk_artifacts := st\<rparr>)"
  by (rule grows_trans_right0) (auto intro: set_artifacts_grows grows_plain)

lemma handlePayloadReady_grows: "plain_store tk \<Longrightarrow> grows none_counted tk (handlePayloadReady spec cfg now p tk)"
  by (simp add: handlePayloadReady_def Let_def grows_refl set_artifacts_later upsert_grows0 set_ready_ok split: option.split)

lemma set_planSvc_grows: "plain_store tk \<Longrightarrow> grows none_counted tk (tk\<lparr>tk_planSvc := svc\<rparr>)"
  by (rule grows_same_store) simp_all

lemma set_planSvc_first: "plain_store tk \<Longrightarrow> grows c (tk\<lparr>tk_planSvc := svc\<rparr>) tk' \<Longrightarrow> grows c tk tk'"
  by (rule grows_trans0 [OF set_planSvc_grows])

lemma materializeBaseline_grows:
  assumes "plain_store tk"
  shows "grows none_counted tk (materializeBaseline spec cfg now s tk)"
proof -
  have "grows none_counted tk (upsert spec cfg now s (set_baseline f now) (tk\<lparr>tk_planSvc := svc\<rparr>))" for f svc
    by (rule set_planSvc_first [OF assms upsert_grows0 [OF grows_plain [OF set_planSvc_grows [OF assms]] set_baseline_ok]])
  then show ?thesis
    using set_planSvc_grows [OF assms] by (simp add: materializeBaseline_def Let_def case_prod_beta)
qed

lemma finalizeWaitingBaseline_grows: "plain_store tk \<Longrightarrow> grows none_counted tk (finalizeWaitingBaseline spec cfg now s tk)"
  by (auto simp: finalizeWaitingBaseline_def grows_refl upsert_grows0 mutations_ok split: option.split)

lemma tick_slot_grows: "plain_store tk \<Longrightarrow> grows none_counted tk (tick_slot spec cfg now s tk)"
  unfolding tick_slot_def
  by (rule grows_trans0 [OF materializeBaseline_grows finalizeWaitingBaseline_grows])
     (auto intro: grows_plain materializeBaseline_grows)

lemma tick_slots_grow: "plain_store tk \<Longrightarrow> grows none_counted tk (fold (tick_slot spec cfg now) ss tk)"
proof (induction ss arbitrary: tk)
  case (Cons s ss)
  note g = tick_slot_grows [OF Cons.prems, of spec cfg now s]
  show ?case using grows_trans0 [OF g Cons.IH [OF grows_plain [OF g]]] by simp
qed (simp add: grows_refl)

lemma slot_tick_grows: "plain_store tk \<Longrightarrow> grows none_counted tk (slot_tick spec g cfg now tk)"
  unfolding slot_tick_def Let_def
  by (rule grows_trans0 [OF tick_slots_grow grows_same_store]) (auto intro: grows_plain tick_slots_grow)

lemma appendBid_grows:
  "plain_store tk \<Longrightarrow> grows (one_attempt s (Some KindBids)) tk (appendBid spec cfg now s a (tk\<lparr>tk_artifacts := st\<rparr>))"
  unfolding appendBid_def
  by (rule grows_trans0 [OF set_artifacts_grows upsert_grows]) (auto intro: grows_plain set_artifacts_grows mutations_ok)

lemma handleBidSubmission_grows:
  "plain_store tk \<Longrightarrow> grows (one_attempt (be_Slot e) (Some KindBids)) tk (handleBidSubmission env cfg now e tk)"
  by (simp add: handleBidSubmission_def Let_def case_prod_beta appendBid_grows)

lemma RecordBuilderAPIBid_grows:
  "plain_store tk \<Longrightarrow> grows (one_attempt s (Some KindBids)) tk (RecordBuilderAPIBid env cfg now s fk b v p st err tk)"
  by (simp add: RecordBuilderAPIBid_def Let_def case_prod_beta appendBid_grows)

lemma handleRevealResult_grows:
  "plain_store tk \<Longrightarrow> grows (one_attempt (rr_Slot r) (Some KindRevealAttempts)) tk (handleRevealResult env cfg now r tk)"
  unfolding handleRevealResult_def Let_def
  by (rule grows_trans0 [OF grows_same_store upsert_grows])
     (auto intro: grows_plain set_artifacts_grows mutations_ok split: option.split)

lemma handleIncluded_grows: "plain_store tk \<Longrightarrow> grows none_counted tk (handleIncluded spec cfg now won tk)"
  by (auto simp: handleIncluded_def Let_def grows_refl upsert_grows0 mutations_ok split: option.split)

lemma RecordBlockSubmission_grows:
  "plain_store tk \<Longrightarrow> grows (one_attempt s (Some KindBlockSubmissions)) tk (RecordBlockSubmission spec cfg now s d st err tk)"
  by (simp add: RecordBlockSubmission_def upsert_grows mutations_ok)

text \<open>The attempt an operation records, and the slots it prunes.\<close>

fun counted_attempt :: "bool \<Rightarrow> ('x, 'r) tracker_op \<Rightarrow> (slot \<times> attempt_kind) option" where
  "counted_attempt stopped (OpLoop (OnBid e)) = (if stopped then None else Some (be_Slot e, KindBids))"
| "counted_attempt stopped (OpLoop (OnReveal r)) = (if stopped then None else Some (rr_Slot r, KindRevealAttempts))"
| "counted_attempt stopped (OpApiBid s _ _ _ _ _ _) = Some (s, KindBids)"
| "counted_attempt stopped (OpSubmission s _ _ _) = Some (s, KindBlockSubmissions)"
| "counted_attempt stopped _ = None"

definition epoch_prunes :: "ChainSpec \<Rightarrow> Config \<Rightarrow> epoch \<Rightarrow> slot \<Rightarrow> bool" where
  "epoch_prunes spec cfg e s \<longleftrightarrow>
     (case retention_cutoff spec (cfg_SlotResultRetentionEpochs cfg) e of None \<Rightarrow> False | Some cutoff \<Rightarrow> s < cutoff)"

fun prunes_slot :: "ChainSpec \<Rightarrow> bool \<Rightarrow> Config \<times> gotime \<times> ('x, 'r) tracker_op \<Rightarrow> slot \<Rightarrow> bool" where
  "prunes_slot spec stopped (cfg, now, OpLoop (OnEpoch e)) s \<longleftrightarrow> \<not> stopped \<and> epoch_prunes spec cfg e s"
| "prunes_slot spec stopped _ s \<longleftrightarrow> False"

definition op_counts :: "bool \<Rightarrow> ('x, 'r) tracker_op \<Rightarrow> slot \<Rightarrow> attempt_kind \<Rightarrow> nat" where
  "op_counts stopped op s kind = (if counted_attempt stopped op = Some (s, kind) then 1 else 0)"

lemma op_counts_simps:
  "counted_attempt stopped op = None \<Longrightarrow> op_counts stopped op = none_counted"
  "counted_attempt stopped op = Some (s, kind) \<Longrightarrow> op_counts stopped op = one_attempt s (Some kind)"
  by (auto simp: op_counts_def one_attempt_def fun_eq_iff)

lemma loop_grows:
  assumes "plain_store tk" "\<nexists>e. ev = OnEpoch e"
  shows "grows (op_counts False (OpLoop ev)) tk (tracker_loop env cfg now ev tk)"
  using assms
  by (cases ev) (simp_all add: op_counts_simps handlePayloadReady_grows handleBuildStarted_def handleBuildFailed_def
      handleBuildSkipped_def handlePayloadStatus_def upsert_grows0 mutations_ok handleBidSubmission_grows
      handleRevealResult_grows handleIncluded_grows slot_tick_grows)

lemma step_grows:
  assumes "plain_store tk" "\<nexists>e. op = OpLoop (OnEpoch e)"
  shows "grows (op_counts (tk_stopped tk) op) tk (tracker_step env (cfg, now, op) tk)"
proof (cases op)
  case (OpLoop ev)
  then have none: "counted_attempt True (OpLoop ev) = None" by (cases ev) simp_all
  show ?thesis
    using assms OpLoop loop_grows [of tk ev env cfg now] by (simp add: grows_refl op_counts_simps(1) [OF none])
qed (use assms in \<open>simp_all add: op_counts_simps RecordBuilderAPIBid_grows RecordBlockSubmission_grows grows_same_store
  grows_refl tracker_Stop_def\<close>)

lemma prune_record:
  "plain_store tk \<Longrightarrow> record_at (results_pruneForEpoch spec cfg e tk) s =
     (if epoch_prunes spec cfg e s then None else record_at tk s)"
  by (auto simp: epoch_prunes_def results_pruneForEpoch_def Let_def plain_store_def lww.get_prune split: option.split)

lemma prune_plain:
  assumes "plain_store tk"
  shows "plain_store (results_pruneForEpoch spec cfg e tk)"
proof -
  have "\<not> keepExisting (tk_store (results_pruneForEpoch spec cfg e tk))"
    using assms by (auto simp: results_pruneForEpoch_def Let_def plain_store_def lww.inv_prune split: option.split)
  then show ?thesis
    using assms prune_record [OF assms, where spec = spec and cfg = cfg and e = e]
    by (simp add: plain_store_def)
qed

lemma step_plain:
  assumes "plain_store tk"
  shows "plain_store (tracker_step env (cfg, now, op) tk)"
proof (cases "\<exists>e. op = OpLoop (OnEpoch e)")
  case True
  then show ?thesis using assms prune_plain by auto
next
  case False
  then show ?thesis using step_grows [OF assms] grows_plain by blast
qed

section \<open>History is never rewritten\<close>

lemma step_history:
  assumes "plain_store tk" "record_at tk s = Some r" "\<not> prunes_slot (te_spec env) (tk_stopped tk) (cfg, now, op) s"
  shows "\<exists>r'. record_at (tracker_step env (cfg, now, op) tk) s = Some r' \<and> history_kept r r'"
proof (cases "\<exists>e. op = OpLoop (OnEpoch e)")
  case True
  then obtain e where e: "op = OpLoop (OnEpoch e)" by blast
  show ?thesis
    using assms by (cases "tk_stopped tk") (auto simp: e prune_record)
next
  case False
  then show ?thesis using step_grows [OF assms(1)] assms(2) unfolding grows_def by blast
qed

lemma tracker_run_Cons: "tracker_run env (x # ops) tk = tracker_run env ops (tracker_step env x tk)"
  by (simp add: tracker_run_def)

lemma tracker_run_Nil [simp]: "tracker_run env [] tk = tk"
  by (simp add: tracker_run_def)

lemma prunes_slot_live: "\<not> prunes_slot spec False op s \<Longrightarrow> \<not> prunes_slot spec stopped op s"
  by (induction spec stopped op s rule: prunes_slot.induct) simp_all

lemma run_history:
  assumes "plain_store tk" "record_at tk s = Some r" "list_all (\<lambda>op. \<not> prunes_slot (te_spec env) False op s) ops"
  shows "\<exists>r'. record_at (tracker_run env ops tk) s = Some r' \<and> history_kept r r'"
  using assms
proof (induction ops arbitrary: tk r)
  case (Cons x ops)
  obtain cfg now op where x: "x = (cfg, now, op)" by (cases x)
  have np: "\<not> prunes_slot (te_spec env) (tk_stopped tk) (cfg, now, op) s"
    using Cons.prems(3) prunes_slot_live by (fastforce simp: x)
  obtain r1 where r1: "record_at (tracker_step env x tk) s = Some r1" "history_kept r r1"
    using step_history [OF Cons.prems(1,2) np] by (auto simp: x)
  have "plain_store (tracker_step env x tk)" unfolding x by (rule step_plain [OF Cons.prems(1)])
  then obtain r2 where "record_at (tracker_run env ops (tracker_step env x tk)) s = Some r2" "history_kept r1 r2"
    using Cons.IH r1(1) Cons.prems(3) by auto
  then show ?case using r1(2) history_kept_trans by (auto simp: tracker_run_Cons)
qed simp

text \<open>
  C26: The recorded history of a slot is never rewritten.  Whatever the tracker receives afterwards, in
  whatever order (events of all sources, Builder API calls, timers, slot ticks, changes of the plans
  and of the configuration), as long as no epoch prunes the slot: its record stays, with the plan it
  was applied under, its fork and epoch; the attempts already listed stay in their places; the build
  outcome only moves forward (waiting, no attributes, started or skipped, ready or failed); and a
  recorded inclusion is not lost.\<close>
theorem slot_history_kept:
  assumes "plain_store tk" "record_at tk s = Some r" "list_all (\<lambda>op. \<not> prunes_slot (te_spec env) False op s) ops"
  shows "\<exists>r'. record_at (tracker_run env ops tk) s = Some r' \<and>
    res_Slot r' = res_Slot r \<and> res_Epoch r' = res_Epoch r \<and> res_Fork r' = res_Fork r \<and>
    res_AppliedPlan r' = res_AppliedPlan r \<and> build_rank (res_Build r) \<le> build_rank (res_Build r') \<and>
    prefix (res_Bids r) (res_Bids r') \<and> prefix (res_BlockSubmissions r) (res_BlockSubmissions r') \<and>
    prefix (res_RevealAttempts r) (res_RevealAttempts r') \<and>
    (res_Inclusion r' = None \<longrightarrow> res_Inclusion r = None)"
  using run_history [OF assms] unfolding history_kept_def by blast

definition demo_result :: SlotResult where
  "demo_result = \<lparr>res_Slot = 7, res_Epoch = 0, res_Fork = Some DataVersionGloas, res_AppliedPlan = None,
     res_Build = Some (bare_outcome BuildStatusReady 5), res_Bids = [], res_BlockSubmissions = [],
     res_RevealAttempts = [], res_Inclusion = None, res_DroppedAttempts = (\<lambda>_. 0), res_UpdatedAt = 5\<rparr>"

definition demo_results :: Tracker where
  "demo_results = (NewTracker \<lparr>ad_enabled = False, ad_read_ok = True, ad_write_ok = True, ad_rows = []\<rparr> NewPlanService)
     \<lparr>tk_store := store_put 7 demo_result New\<rparr>"

lemma demo_results_plain: "plain_store demo_results \<and> record_at demo_results 7 = Some demo_result"
proof -
  have k: "\<not> keepExisting (New :: (slot, SlotResult) store)" by (simp add: New_def newStore_def)
  have e: "Get s (New :: (slot, SlotResult) store) = None" for s by (simp add: New_def newStore_def Get_def)
  show ?thesis
    using k by (simp add: plain_store_def demo_results_def NewTracker_def lww.get_put lww.inv_put e demo_result_def)
qed

definition demo_tracker_env :: "(unit, unit) tracker_env" where
  "demo_tracker_env = \<lparr>te_spec = demo_spec, te_genesisTime = 0, te_bidSSZ = (\<lambda>_. None), te_envelopeSSZ = (\<lambda>_. None),
     te_forkOfName = (\<lambda>_. None)\<rparr>"

theorem slot_history_kept_witness:
  "\<exists>r'. record_at (tracker_run demo_tracker_env
      [(DefaultConfig, 6, OpLoop (OnStarted 7 6)), (DefaultConfig, 9, OpSubmission 7 ''epbs'' ''accepted'' [])] demo_results) 7 = Some r' \<and>
    build_rank (res_Build r') = 4"
proof -
  have 1: "list_all (\<lambda>op. \<not> prunes_slot (te_spec demo_tracker_env) False op 7)
      [(DefaultConfig, 6, OpLoop (OnStarted 7 6)), (DefaultConfig, 9, OpSubmission 7 ''epbs'' ''accepted'' [])]"
    by simp
  have 2: "build_rank (res_Build demo_result) = 4" by (simp add: demo_result_def)
  show ?thesis
    using slot_history_kept [OF conjunct1 [OF demo_results_plain] conjunct2 [OF demo_results_plain] 1] build_rank_le
    unfolding 2 by (metis le_antisym)
qed

section \<open>Every attempt is counted\<close>

fun total_step :: "ChainSpec \<Rightarrow> slot \<Rightarrow> attempt_kind \<Rightarrow> Config \<times> gotime \<times> ('x, 'r) tracker_op \<Rightarrow> bool \<times> nat \<Rightarrow> bool \<times> nat" where
  "total_step spec s kind (cfg, now, op) (stopped, n) =
     (stopped \<or> op = OpStop,
      if prunes_slot spec stopped (cfg, now, op) s then 0 else n + op_counts stopped op s kind)"

lemma tick_slots_stopped [simp]: "tk_stopped (fold (tick_slot spec cfg now) ss tk) = tk_stopped tk"
  by (induction ss arbitrary: tk)
     (simp_all add: tick_slot_def finalizeWaitingBaseline_def materializeBaseline_def Let_def case_prod_beta split: option.split)

lemma loop_stopped: "tk_stopped (tracker_loop env cfg now ev tk) = tk_stopped tk"
  by (cases ev) (simp_all add: handlePayloadReady_def handleBuildStarted_def handleBuildFailed_def handleBuildSkipped_def
      handleBidSubmission_def appendBid_def handleRevealResult_def handleIncluded_def handlePayloadStatus_def
      results_pruneForEpoch_def slot_tick_def Let_def case_prod_beta split: option.split)

lemma step_stopped: "tk_stopped (tracker_step env (cfg, now, op) tk) \<longleftrightarrow> tk_stopped tk \<or> op = OpStop"
  by (cases op) (simp_all add: loop_stopped RecordBuilderAPIBid_def RecordBlockSubmission_def appendBid_def
      tracker_Stop_def Let_def case_prod_beta)

lemma step_total:
  assumes "plain_store tk"
  shows "(tk_stopped (tracker_step env x tk), attempt_total (tracker_step env x tk) s kind) =
    total_step (te_spec env) s kind x (tk_stopped tk, attempt_total tk s kind)"
proof -
  obtain cfg now op where x: "x = (cfg, now, op)" by (cases x)
  have "attempt_total (tracker_step env x tk) s kind = snd (total_step (te_spec env) s kind x (tk_stopped tk, attempt_total tk s kind))"
  proof (cases "\<exists>e. op = OpLoop (OnEpoch e)")
    case True
    then obtain e where e: "op = OpLoop (OnEpoch e)" by blast
    show ?thesis
      using assms by (cases "tk_stopped tk") (simp_all add: x e attempt_total_def op_counts_def prune_record)
  next
    case False
    then have "\<not> prunes_slot (te_spec env) (tk_stopped tk) (cfg, now, op) s"
      by (cases op) (auto elim: prunes_slot.elims)
    then show ?thesis using step_grows [OF assms False] by (simp add: x grows_def)
  qed
  then show ?thesis by (simp add: x step_stopped)
qed

lemma step_capped:
  assumes "plain_store tk" "capped tk"
  shows "capped (tracker_step env (cfg, now, op) tk)"
proof (cases "\<exists>e. op = OpLoop (OnEpoch e)")
  case True
  then show ?thesis using assms by (auto simp: capped_def prune_record split: option.splits)
next
  case False
  then show ?thesis using step_grows [OF assms(1) False] assms(2) unfolding grows_def by blast
qed

text \<open>
  C27: No attempt goes unnoticed and no record grows without bound.  Of each kind (bids, block
  submissions, reveals) a record lists at most 256 attempts, and the listed ones together with the
  counter of dropped ones are exactly the attempts received for the slot since it was last pruned:
  over any sequence of operations the totals follow an abstract counter that adds one per attempt,
  is reset by the pruning of the slot and ignores every other operation.  Bids and reveals come
  through the loop and count until the tracker stops, calls of the Builder API always.\<close>
theorem attempts_counted:
  assumes "plain_store tk" "capped tk"
  shows "let tk' = tracker_run env ops tk in
    snd (fold (total_step (te_spec env) s kind) ops (tk_stopped tk, attempt_total tk s kind)) = attempt_total tk' s kind \<and>
    (case record_at tk' s of None \<Rightarrow> True
     | Some r \<Rightarrow> length (res_Bids r) \<le> 256 \<and> length (res_BlockSubmissions r) \<le> 256 \<and> length (res_RevealAttempts r) \<le> 256)"
proof -
  have "fold (total_step (te_spec env) s kind) ops (tk_stopped tk, attempt_total tk s kind) =
      (tk_stopped (tracker_run env ops tk), attempt_total (tracker_run env ops tk) s kind) \<and> capped (tracker_run env ops tk)"
    using assms
  proof (induction ops arbitrary: tk)
    case (Cons x ops)
    obtain cfg now op where x: "x = (cfg, now, op)" by (cases x)
    have "plain_store (tracker_step env x tk)" "capped (tracker_step env x tk)"
      unfolding x using Cons.prems by (simp_all only: step_plain step_capped)
    then show ?case using Cons.IH by (simp add: tracker_run_Cons step_total [OF Cons.prems(1), symmetric])
  qed simp
  then show ?thesis by (auto simp: capped_def within_caps_def maxAttemptsPerKind_def Let_def split: option.splits)
qed

theorem attempts_counted_witness:
  "attempt_total (tracker_run demo_tracker_env
      [(DefaultConfig, 6, OpSubmission 7 ''epbs'' ''received'' []), (DefaultConfig, 9, OpSubmission 7 ''epbs'' ''accepted'' [])]
      demo_results) 7 KindBlockSubmissions = 2"
proof -
  have "capped demo_results" unfolding capped_def
  proof
    fix s
    have e: "Get s (New :: (slot, SlotResult) store) = None" by (simp add: New_def newStore_def Get_def)
    have k: "\<not> keepExisting (New :: (slot, SlotResult) store)" by (simp add: New_def newStore_def)
    show "case record_at demo_results s of None \<Rightarrow> True | Some r \<Rightarrow> within_caps r"
      by (simp add: demo_results_def lww.get_put [OF k] e demo_result_def within_caps_def)
  qed
  moreover have "attempt_total demo_results 7 KindBlockSubmissions = 0"
    by (simp add: attempt_total_def conjunct2 [OF demo_results_plain]) (simp add: demo_result_def recorded_def)
  ultimately show ?thesis
    using attempts_counted [OF conjunct1 [OF demo_results_plain], where env = demo_tracker_env and s = 7 and kind = KindBlockSubmissions
        and ops =         "[(DefaultConfig, 6, OpSubmission 7 ''epbs'' ''received'' []), (DefaultConfig, 9, OpSubmission 7 ''epbs'' ''accepted'' [])]"]
    by (simp add: Let_def op_counts_def)
qed

section \<open>Every final state is delivered\<close>

definition latest :: "slot \<Rightarrow> SlotResult list \<Rightarrow> SlotResult option" where
  "latest s ups = find (\<lambda>r. res_Slot r = s) (rev ups)"

text \<open>An update of a slot more than 64 later has been delivered: the state of the burst may be gone.\<close>

definition overtaken :: "slot \<Rightarrow> Tracker \<Rightarrow> bool" where
  "overtaken s tk \<longleftrightarrow> list_ex (\<lambda>u. s + 64 < res_Slot u) (tk_updates tk)"

definition settled :: "Tracker \<Rightarrow> slot \<Rightarrow> Tracker \<Rightarrow> bool" where
  "settled tk0 s tk \<longleftrightarrow> tk_stopped tk \<or> record_at tk s = None \<or> record_at tk s = record_at tk0 s \<or> overtaken s tk \<or>
     tk_pending tk s = None \<and> latest s (tk_updates tk) = record_at tk s \<or>
     tk_pending tk s = record_at tk s"

definition timers_ok :: "Tracker \<Rightarrow> bool" where
  "timers_ok tk \<longleftrightarrow> (\<forall>s. tk_flushPending tk s \<longleftrightarrow> s \<in> fst ` set (tk_timers tk)) \<and> distinct (map fst (tk_timers tk)) \<and>
     (tk_stopped tk \<or> (\<forall>s. tk_pending tk s \<noteq> None \<longrightarrow> tk_flushPending tk s))"

definition pending_ok :: "Tracker \<Rightarrow> bool" where
  "pending_ok tk \<longleftrightarrow> (\<forall>s r. tk_pending tk s = Some r \<longrightarrow> res_Slot r = s)"

definition feed_inv :: "Tracker \<Rightarrow> Tracker \<Rightarrow> bool" where
  "feed_inv tk0 tk \<longleftrightarrow> plain_store tk \<and> timers_ok tk \<and> pending_ok tk \<and> (\<forall>s. settled tk0 s tk)"

lemma feed_inv_other [simp]:
  "feed_inv tk0 (tk\<lparr>tk_artifacts := a\<rparr>) = feed_inv tk0 tk" "feed_inv tk0 (tk\<lparr>tk_planSvc := b\<rparr>) = feed_inv tk0 tk"
  "feed_inv tk0 (tk\<lparr>tk_lastTicked := c\<rparr>) = feed_inv tk0 tk" "feed_inv tk0 (tk\<lparr>tk_slotTimer := d\<rparr>) = feed_inv tk0 tk"
  by (simp_all add: feed_inv_def plain_store_def timers_ok_def pending_ok_def settled_def overtaken_def)

lemma feed_settled: "feed_inv tk0 tk \<Longrightarrow> settled tk0 t tk"
  by (simp add: feed_inv_def)

lemma latest_snoc [simp]: "latest s (ups @ [r]) = (if res_Slot r = s then Some r else latest s ups)"
  by (simp add: latest_def)

lemma pruneCoalescing_pending:
  "tk_pending (pruneCoalescing s tk) t = tk_pending tk t \<or> tk_pending (pruneCoalescing s tk) t = None \<and> t + 64 < s"
  by (simp add: pruneCoalescing_def)

lemma timers_ok_shrink:
  assumes "timers_ok tk" "tk_timers tk' = tk_timers tk" "tk_flushPending tk' = tk_flushPending tk"
    and "tk_stopped tk' = tk_stopped tk" "\<And>t. tk_pending tk' t \<in> {None, tk_pending tk t}"
  shows "timers_ok tk'"
  unfolding timers_ok_def assms(2-4)
proof (intro conjI allI)
  show "tk_stopped tk \<or> (\<forall>t. tk_pending tk' t \<noteq> None \<longrightarrow> tk_flushPending tk t)"
    using assms(1,5) unfolding timers_ok_def by (metis insertE singletonD)
qed (use assms(1) in \<open>simp_all add: timers_ok_def\<close>)

lemma fireUpdate_timers:
  assumes "timers_ok tk"
  shows "timers_ok (fireUpdate now s r tk)"
proof (cases "case map_of (tk_lastFired tk) s of None \<Rightarrow> False | Some last_fired \<Rightarrow> time_sub now last_fired < updateFireInterval")
  case True
  show ?thesis
  proof (cases "tk_flushPending tk s")
    case flushing: True
    then show ?thesis using assms True by (auto simp: fireUpdate_def Let_def timers_ok_def)
  next
    case False
    then have "s \<notin> fst ` set (tk_timers tk)" using assms by (simp add: timers_ok_def)
    then show ?thesis using assms True False by (auto simp: fireUpdate_def Let_def timers_ok_def)
  qed
next
  case False
  show ?thesis
  proof (rule timers_ok_shrink [OF assms])
    show "tk_pending (fireUpdate now s r tk) t \<in> {None, tk_pending tk t}" for t
      using False pruneCoalescing_pending
        [of s "tk\<lparr>tk_lastFired := AList.update s now (tk_lastFired tk), tk_pending := (tk_pending tk)(s := None)\<rparr>" t]
      by (auto simp: fireUpdate_def Let_def)
  qed (use False in \<open>simp_all add: fireUpdate_def Let_def\<close>)
qed

lemma fireUpdate_pending:
  assumes "pending_ok tk" "res_Slot r = s"
  shows "pending_ok (fireUpdate now s r tk)"
  using assms by (auto simp: pending_ok_def fireUpdate_def Let_def pruneCoalescing_def split: if_splits)

lemma fireUpdate_settled:
  assumes "record_at tk s = Some r" "res_Slot r = s" "t \<noteq> s \<Longrightarrow> settled tk0 t tk"
  shows "settled tk0 t (fireUpdate now s r tk)"
proof (cases "case map_of (tk_lastFired tk) s of None \<Rightarrow> False | Some last_fired \<Rightarrow> time_sub now last_fired < updateFireInterval")
  case True
  then show ?thesis
    using assms by (cases "t = s") (auto simp: fireUpdate_def Let_def settled_def overtaken_def)
next
  case False
  define tk1 where "tk1 = tk\<lparr>tk_lastFired := AList.update s now (tk_lastFired tk), tk_pending := (tk_pending tk)(s := None)\<rparr>"
  have f: "fireUpdate now s r tk = (pruneCoalescing s tk1)\<lparr>tk_updates := tk_updates tk @ [r]\<rparr>"
    using False by (simp add: fireUpdate_def Let_def tk1_def)
  have same: "tk_pending tk1 t = (if t = s then None else tk_pending tk t)" "tk_store tk1 = tk_store tk" "tk_stopped tk1 = tk_stopped tk"
    by (simp_all add: tk1_def)
  show ?thesis
  proof (cases "t = s")
    case True
    then show ?thesis
      using assms(1,2) same pruneCoalescing_pending [of s tk1 t] by (auto simp: settled_def f)
  next
    case False
    then show ?thesis
      using assms(2,3) same pruneCoalescing_pending [of s tk1 t] by (auto simp: settled_def f overtaken_def)
  qed
qed

lemma upsert_feed:
  assumes "feed_inv tk0 tk" "mutation_ok c f"
  shows "feed_inv tk0 (upsert spec cfg now s f tk)"
proof -
  let ?r = "upserted spec cfg now s f tk"
  let ?tk1 = "tk\<lparr>tk_planSvc := snd (start_record spec cfg now s tk), tk_store := store_put s ?r (tk_store tk)\<rparr>"
  have p: "plain_store tk" using assms(1) by (simp add: feed_inv_def)
  have g: "record_at ?tk1 t = (if t = s then Some ?r else record_at tk t)" for t
    using p by (simp add: plain_store_def lww.get_put)
  have "timers_ok ?tk1" using assms(1) by (auto simp: feed_inv_def timers_ok_def)
  moreover have "pending_ok ?tk1" using assms(1) by (simp add: feed_inv_def pending_ok_def)
  moreover have "settled tk0 t ?tk1" if "t \<noteq> s" for t
    using feed_settled [OF assms(1), of t] that g [of t] by (simp add: settled_def overtaken_def)
  moreover have "plain_store (upsert spec cfg now s f tk)" by (rule upsert_plain [OF p assms(2)])
  ultimately show ?thesis
    using g [of s] upserted_slot [OF p assms(2)]
    by (simp add: feed_inv_def upsert_unfold fireUpdate_timers fireUpdate_pending fireUpdate_settled)
qed

lemmas upserts_feed = mutations_ok [THEN upsert_feed [rotated]]

lemma flushTrailing_settled:
  assumes "settled tk0 t tk" "pending_ok tk"
  shows "settled tk0 t (flushTrailing now s tk)"
  using assms by (auto simp: flushTrailing_def Let_def settled_def overtaken_def pending_ok_def split: option.split)

lemma flushTrailing_pending: "pending_ok tk \<Longrightarrow> pending_ok (flushTrailing now s tk)"
  by (auto simp: flushTrailing_def Let_def pending_ok_def split: option.split)

lemma settled_timers [simp]: "settled tk0 t (tk\<lparr>tk_timers := ts\<rparr>) = settled tk0 t tk"
  by (simp add: settled_def overtaken_def)

lemma pending_timers [simp]: "pending_ok (tk\<lparr>tk_timers := ts\<rparr>) = pending_ok tk"
  by (simp add: pending_ok_def)

lemma plain_store_cong: "tk_store tk' = tk_store tk \<Longrightarrow> plain_store tk' = plain_store tk"
  by (simp add: plain_store_def)

lemma timer_feed:
  assumes "feed_inv tk0 tk" "n < length (tk_timers tk)"
  shows "feed_inv tk0 (flushTrailing now (fst (tk_timers tk ! n))
    (tk\<lparr>tk_timers := take n (tk_timers tk) @ drop (Suc n) (tk_timers tk)\<rparr>))"
proof -
  let ?s = "fst (tk_timers tk ! n)" and ?ts = "take n (tk_timers tk) @ drop (Suc n) (tk_timers tk)"
  let ?tk' = "flushTrailing now ?s (tk\<lparr>tk_timers := ?ts\<rparr>)"
  have ok: "timers_ok tk" using assms(1) by (simp add: feed_inv_def)
  have split: "tk_timers tk = take n (tk_timers tk) @ tk_timers tk ! n # drop (Suc n) (tk_timers tk)"
    by (rule id_take_nth_drop [OF assms(2)])
  have d: "distinct (map fst ?ts)" "?s \<notin> fst ` set ?ts" "fst ` set (tk_timers tk) = insert ?s (fst ` set ?ts)"
  proof -
    have "distinct (map fst (take n (tk_timers tk) @ tk_timers tk ! n # drop (Suc n) (tk_timers tk)))"
      using ok split by (simp add: timers_ok_def)
    then show "distinct (map fst ?ts)" "?s \<notin> fst ` set ?ts" by auto
    show "fst ` set (tk_timers tk) = insert ?s (fst ` set ?ts)"
      using arg_cong [OF split, of "\<lambda>l. fst ` set l"] by auto
  qed
  have fl: "tk_flushPending ?tk' = (tk_flushPending tk)(?s := False)"
    by (simp add: flushTrailing_def Let_def split: option.split)
  have pend: "tk_pending ?tk' = (if tk_stopped tk then tk_pending tk else (tk_pending tk)(?s := None))"
    by (auto simp: flushTrailing_def Let_def fun_eq_iff split: option.split)
  have "\<forall>t. tk_flushPending ?tk' t \<longleftrightarrow> t \<in> fst ` set ?ts"
    using ok d(2,3) unfolding fl timers_ok_def by auto
  moreover have "tk_stopped tk \<or> (\<forall>t. tk_pending ?tk' t \<noteq> None \<longrightarrow> tk_flushPending ?tk' t)"
    using ok unfolding fl pend timers_ok_def by auto
  ultimately have "timers_ok ?tk'" unfolding timers_ok_def using d(1) by simp
  moreover have "plain_store ?tk'" using assms(1) plain_store_cong [of ?tk' tk] by (simp add: feed_inv_def)
  ultimately show ?thesis
    using assms(1) by (simp add: feed_inv_def flushTrailing_settled flushTrailing_pending)
qed

lemma prune_feed:
  assumes "feed_inv tk0 tk"
  shows "feed_inv tk0 (results_pruneForEpoch spec cfg e tk)"
proof -
  let ?tk' = "results_pruneForEpoch spec cfg e tk"
  have same: "tk_pending ?tk' = tk_pending tk" "tk_updates ?tk' = tk_updates tk" "tk_stopped ?tk' = tk_stopped tk"
    "tk_timers ?tk' = tk_timers tk" "tk_flushPending ?tk' = tk_flushPending tk"
    by (simp_all add: results_pruneForEpoch_def Let_def split: option.split)
  have p: "plain_store tk" using assms by (simp add: feed_inv_def)
  have "settled tk0 t ?tk'" for t
    using feed_settled [OF assms, of t] by (auto simp: settled_def overtaken_def same prune_record [OF p])
  moreover have "timers_ok ?tk'" by (rule timers_ok_shrink [of tk]) (use assms in \<open>simp_all add: same feed_inv_def\<close>)
  ultimately show ?thesis using assms prune_plain [OF p] by (simp add: feed_inv_def pending_ok_def same)
qed

lemma baseline_feed: "feed_inv tk0 tk \<Longrightarrow> feed_inv tk0 (materializeBaseline spec cfg now s tk)"
  by (simp add: materializeBaseline_def Let_def case_prod_beta upserts_feed)

lemma finalize_feed: "feed_inv tk0 tk \<Longrightarrow> feed_inv tk0 (finalizeWaitingBaseline spec cfg now s tk)"
  by (simp add: finalizeWaitingBaseline_def upserts_feed split: option.split)

lemma tick_slots_feed: "feed_inv tk0 tk \<Longrightarrow> feed_inv tk0 (fold (tick_slot spec cfg now) ss tk)"
  by (induction ss arbitrary: tk) (simp_all add: tick_slot_def baseline_feed finalize_feed)

lemma slot_tick_feed: "feed_inv tk0 tk \<Longrightarrow> feed_inv tk0 (slot_tick spec g cfg now tk)"
  by (simp add: slot_tick_def Let_def tick_slots_feed)

lemma appendBid_feed: "feed_inv tk0 tk \<Longrightarrow> feed_inv tk0 (appendBid spec cfg now s a tk)"
  by (simp add: appendBid_def upserts_feed)

lemma reveal_feed: "feed_inv tk0 tk \<Longrightarrow> feed_inv tk0 (handleRevealResult env cfg now r tk)"
  by (simp add: handleRevealResult_def Let_def upserts_feed split: option.split)

lemma ready_feed: "feed_inv tk0 tk \<Longrightarrow> feed_inv tk0 (handlePayloadReady spec cfg now p tk)"
  by (simp add: handlePayloadReady_def Let_def upserts_feed split: option.split)

lemma loop_feed: "feed_inv tk0 tk \<Longrightarrow> feed_inv tk0 (tracker_loop env cfg now ev tk)"
  by (cases ev) (simp_all add: ready_feed handleBuildStarted_def handleBuildFailed_def handleBuildSkipped_def
      handlePayloadStatus_def handleIncluded_def Let_def upserts_feed handleBidSubmission_def case_prod_beta appendBid_feed reveal_feed prune_feed
      slot_tick_feed split: option.split)

lemma stop_feed: "feed_inv tk0 tk \<Longrightarrow> feed_inv tk0 (tracker_Stop tk)"
  by (simp add: tracker_Stop_def feed_inv_def plain_store_def timers_ok_def pending_ok_def settled_def)

lemma step_feed: "feed_inv tk0 tk \<Longrightarrow> feed_inv tk0 (tracker_step env (cfg, now, op) tk)"
  by (cases op) (simp_all add: loop_feed timer_feed stop_feed RecordBuilderAPIBid_def RecordBlockSubmission_def Let_def
      case_prod_beta appendBid_feed upserts_feed)

lemma run_feed: "feed_inv tk0 tk \<Longrightarrow> feed_inv tk0 (tracker_run env ops tk)"
proof (induction ops arbitrary: tk)
  case (Cons x ops)
  obtain cfg now op where "x = (cfg, now, op)" by (cases x)
  then show ?case using Cons by (simp add: tracker_run_Cons step_feed)
qed simp

text \<open>A tracker before its first event: nothing fired, suppressed or scheduled.\<close>

definition quiet_tracker :: "Tracker \<Rightarrow> bool" where
  "quiet_tracker tk \<longleftrightarrow> tk_updates tk = [] \<and> tk_timers tk = [] \<and> (\<forall>s. tk_pending tk s = None \<and> \<not> tk_flushPending tk s)"

lemma quiet_feed: "plain_store tk \<Longrightarrow> quiet_tracker tk \<Longrightarrow> feed_inv tk tk"
  by (simp add: quiet_tracker_def feed_inv_def timers_ok_def pending_ok_def settled_def)

text \<open>The outstanding timers run.\<close>

definition run_timers :: "gotime \<Rightarrow> Tracker \<Rightarrow> Tracker" where
  "run_timers now tk = fold (\<lambda>e. flushTrailing now (fst e)) (tk_timers tk) (tk\<lparr>tk_timers := []\<rparr>)"

lemma flush_all:
  assumes "\<And>t. settled tk0 t tk" "pending_ok tk" "\<not> tk_stopped tk"
  shows "let tk' = fold (\<lambda>e. flushTrailing now (fst e)) ts tk in
    (\<forall>t. settled tk0 t tk') \<and> \<not> tk_stopped tk' \<and> tk_store tk' = tk_store tk \<and>
    (\<forall>t. tk_pending tk' t = (if t \<in> fst ` set ts then None else tk_pending tk t))"
  using assms
proof (induction ts arbitrary: tk)
  case (Cons e ts)
  have "tk_pending (flushTrailing now (fst e) tk) t = (if t = fst e then None else tk_pending tk t)" for t
    using Cons.prems(3) by (simp add: flushTrailing_def Let_def split: option.split)
  then show ?case
    using Cons.IH [of "flushTrailing now (fst e) tk"] Cons.prems
    by (simp add: Let_def flushTrailing_settled flushTrailing_pending)
qed simp

text \<open>
  C28: The final state of a burst is always delivered.  Updates of a slot are coalesced to one per
  second, and a suppressed one is flushed by a timer.  After any sequence of operations on a tracker
  that is not stopped, let the outstanding timers run: for every slot whose record has changed since
  the start, the last update subscribers received is its current record; unless an update of a slot
  more than 64 later was delivered, which may drop the suppressed state.\<close>
theorem final_state_delivered:
  assumes "plain_store tk" "quiet_tracker tk" "\<not> tk_stopped (tracker_run env ops tk)"
  shows "let tk' = run_timers now (tracker_run env ops tk) in
    record_at tk' s = None \<or> record_at tk' s = record_at tk s \<or> latest s (tk_updates tk') = record_at tk' s \<or>
    list_ex (\<lambda>u. s + 64 < res_Slot u) (tk_updates tk')"
proof -
  let ?tk = "tracker_run env ops tk"
  have inv: "feed_inv tk ?tk" by (rule run_feed [OF quiet_feed [OF assms(1,2)]])
  have "tk_pending ?tk t = None" if "t \<notin> fst ` set (tk_timers ?tk)" for t
    using inv assms(3) that by (auto simp: feed_inv_def timers_ok_def)
  moreover have "(\<forall>t. settled tk t (run_timers now ?tk)) \<and> \<not> tk_stopped (run_timers now ?tk) \<and>
      (\<forall>t. tk_pending (run_timers now ?tk) t = (if t \<in> fst ` set (tk_timers ?tk) then None else tk_pending ?tk t))"
    using flush_all [of tk "?tk\<lparr>tk_timers := []\<rparr>" now "tk_timers ?tk"] inv assms(3)
    by (simp add: run_timers_def Let_def feed_inv_def)
  ultimately have "settled tk s (run_timers now ?tk)" "\<not> tk_stopped (run_timers now ?tk)" "tk_pending (run_timers now ?tk) s = None"
    by simp_all
  then show ?thesis by (auto simp: settled_def overtaken_def Let_def)
qed

theorem final_state_delivered_witness:
  "let tk' = run_timers 20 (tracker_run demo_tracker_env
      [(DefaultConfig, 6, OpSubmission 7 ''epbs'' ''received'' []), (DefaultConfig, 9, OpSubmission 7 ''epbs'' ''accepted'' [])]
      demo_results) in latest 7 (tk_updates tk') = record_at tk' 7 \<and> record_at tk' 7 \<noteq> record_at demo_results 7"
proof -
  let ?ops = "[(DefaultConfig, 6, OpSubmission 7 ''epbs'' ''received'' []), (DefaultConfig, 9, OpSubmission 7 ''epbs'' ''accepted'' [])]"
  let ?tk' = "run_timers 20 (tracker_run demo_tracker_env ?ops demo_results)"
  have q: "quiet_tracker demo_results" by (simp add: quiet_tracker_def demo_results_def NewTracker_def)
  have k: "\<not> keepExisting (New :: (slot, SlotResult) store)" by (simp add: New_def newStore_def)
  note run = tracker_run_def RecordBlockSubmission_def upsert_unfold upserted_def start_record_def demo_results_def
    NewTracker_def lww.get_put k lww.inv_put fireUpdate_def pruneCoalescing_def Let_def append_submission_def
    appendCapped_def demo_result_def maxAttemptsPerKind_def time_sub_def updateFireInterval_def nanos_per_s_def
    run_timers_def flushTrailing_def max_i64_def min_i64_def
  have "\<not> tk_stopped (tracker_run demo_tracker_env ?ops demo_results)" by (simp add: run)
  from final_state_delivered [OF conjunct1 [OF demo_results_plain] q this, of 20 7]
  have "record_at ?tk' 7 = None \<or> record_at ?tk' 7 = record_at demo_results 7 \<or> latest 7 (tk_updates ?tk') = record_at ?tk' 7 \<or>
      list_ex (\<lambda>u. 7 + 64 < res_Slot u) (tk_updates ?tk')" by (simp only: Let_def)
  moreover have "record_at ?tk' 7 \<noteq> None" "record_at ?tk' 7 \<noteq> record_at demo_results 7"
    "\<not> list_ex (\<lambda>u. 7 + 64 < res_Slot u) (tk_updates ?tk')"
    by (simp_all add: run)
  ultimately show ?thesis by (simp only: Let_def) blast
qed

section \<open>The slot clock explains every slot\<close>

definition waiting_at :: "slot \<Rightarrow> Tracker \<Rightarrow> bool" where
  "waiting_at s tk \<longleftrightarrow> (case record_at tk s of None \<Rightarrow> False | Some r \<Rightarrow> still_waiting r)"

text \<open>The slot has a frozen plan, and a record with a build outcome if the plan involves it.\<close>

definition explained :: "slot \<Rightarrow> Tracker \<Rightarrow> bool" where
  "explained s tk \<longleftrightarrow>
     (case ps_frozen (tk_planSvc tk) s of
        None \<Rightarrow> False
      | Some frozen \<Rightarrow> rb_PlanInvolved (fp_Build frozen) \<longrightarrow>
          (case record_at tk s of None \<Rightarrow> False | Some r \<Rightarrow> res_Build r \<noteq> None))"

lemma Freeze_marks: "ps_frozen (snd (Freeze spec cfg now s svc)) s = Some (fst (Freeze spec cfg now s svc))"
  by (simp add: Freeze_def Let_def split: option.split)

lemma Freeze_keeps_frozen: "ps_frozen svc t = Some f \<Longrightarrow> ps_frozen (snd (Freeze spec cfg now s svc)) t = Some f"
  by (auto simp: Freeze_def Let_def split: option.split)

lemma upsert_frozen: "ps_frozen (tk_planSvc tk) t = Some f \<Longrightarrow> ps_frozen (tk_planSvc (upsert spec cfg now s g tk)) t = Some f"
  by (simp add: upsert_unfold start_record_def case_prod_beta Let_def Freeze_keeps_frozen split: option.split)

lemma build_rank_0: "build_rank b = 0 \<longleftrightarrow> b = None"
  by (cases b) (simp_all split: BuildStatus.split)

lemma explained_grows:
  assumes "explained s tk" "grows none_counted tk tk'" "\<And>f. ps_frozen (tk_planSvc tk) s = Some f \<Longrightarrow> ps_frozen (tk_planSvc tk') s = Some f"
  shows "explained s tk'"
proof -
  obtain f where f: "ps_frozen (tk_planSvc tk) s = Some f" using assms(1) by (auto simp: explained_def split: option.splits)
  show ?thesis
  proof (cases "rb_PlanInvolved (fp_Build f)")
    case True
    then obtain r where r: "record_at tk s = Some r" "res_Build r \<noteq> None"
      using assms(1) f by (auto simp: explained_def split: option.splits)
    then obtain r' where "record_at tk' s = Some r'" "history_kept r r'" using assms(2) unfolding grows_def by blast
    then show ?thesis
      using r(2) assms(3) [OF f] build_rank_0 [of "res_Build r"] build_rank_0 [of "res_Build r'"]
      by (auto simp: explained_def history_kept_def)
  qed (simp add: explained_def assms(3) [OF f])
qed

lemma materializeBaseline_frozen:
  "ps_frozen (tk_planSvc tk) t = Some f \<Longrightarrow> ps_frozen (tk_planSvc (materializeBaseline spec cfg now s tk)) t = Some f"
  by (simp add: materializeBaseline_def Let_def case_prod_beta Freeze_keeps_frozen upsert_frozen)

lemma finalizeWaitingBaseline_frozen:
  "ps_frozen (tk_planSvc tk) t = Some f \<Longrightarrow> ps_frozen (tk_planSvc (finalizeWaitingBaseline spec cfg now s tk)) t = Some f"
  by (simp add: finalizeWaitingBaseline_def upsert_frozen split: option.split)

lemma tick_slots_explained:
  assumes "plain_store tk" "explained s tk"
  shows "explained s (fold (tick_slot spec cfg now) ts tk)"
proof (rule explained_grows [OF assms(2) tick_slots_grow [OF assms(1)]])
  show "ps_frozen (tk_planSvc (fold (tick_slot spec cfg now) ts tk)) s = Some f" if "ps_frozen (tk_planSvc tk) s = Some f" for f
    using that by (induction ts arbitrary: tk) (simp_all add: tick_slot_def materializeBaseline_frozen finalizeWaitingBaseline_frozen)
qed

lemma baseline_explains:
  assumes "plain_store tk"
  shows "explained s (materializeBaseline spec cfg now s tk)"
proof -
  let ?f = "fst (Freeze spec cfg now s (tk_planSvc tk))" and ?tk1 = "tk\<lparr>tk_planSvc := snd (Freeze spec cfg now s (tk_planSvc tk))\<rparr>"
  have p: "plain_store ?tk1" using assms by (simp add: plain_store_def)
  have fr: "ps_frozen (tk_planSvc ?tk1) s = Some ?f" by (simp add: Freeze_marks)
  show ?thesis
  proof (cases "rb_PlanInvolved (fp_Build ?f)")
    case True
    have "res_Build (set_baseline ?f now r) \<noteq> None" for r by (simp add: set_baseline_def)
    then show ?thesis
      using True upsert_frozen [OF fr] upsert_record [OF p]
      by (simp add: explained_def materializeBaseline_def Let_def case_prod_beta upserted_def)
  qed (use fr in \<open>simp add: explained_def materializeBaseline_def Let_def case_prod_beta\<close>)
qed

lemma finalize_not_waiting:
  assumes "plain_store tk"
  shows "\<not> waiting_at s (finalizeWaitingBaseline spec cfg now s tk) \<and>
    (\<not> waiting_at t tk \<longrightarrow> \<not> waiting_at t (finalizeWaitingBaseline spec cfg now s tk))"
proof -
  have "\<not> still_waiting (set_no_attributes now r)" for r
    by (simp add: still_waiting_def set_no_attributes_def split: option.split)
  moreover have "still_waiting (r\<lparr>res_UpdatedAt := u\<rparr>) = still_waiting r" for r u by (simp add: still_waiting_def)
  ultimately show ?thesis
    using assms by (auto simp: waiting_at_def finalizeWaitingBaseline_def upsert_record upserted_def split: option.splits)
qed

lemma materialize_frame:
  "plain_store tk \<Longrightarrow> t \<noteq> s \<Longrightarrow> record_at (materializeBaseline spec cfg now s tk) t = record_at tk t"
  using upsert_record [of "tk\<lparr>tk_planSvc := svc\<rparr>" for svc]
  by (simp add: materializeBaseline_def Let_def case_prod_beta plain_store_def)

lemma tick_slots_not_waiting:
  assumes "plain_store tk" "\<not> waiting_at s tk" "s \<notin> set ts"
  shows "\<not> waiting_at s (fold (tick_slot spec cfg now) ts tk)"
  using assms
proof (induction ts arbitrary: tk)
  case (Cons t ts)
  let ?m = "materializeBaseline spec cfg now t tk"
  have "plain_store ?m" by (rule grows_plain [OF materializeBaseline_grows [OF Cons.prems(1)]])
  moreover have "\<not> waiting_at s ?m" using Cons.prems materialize_frame by (simp add: waiting_at_def)
  ultimately have "\<not> waiting_at s (tick_slot spec cfg now t tk)" unfolding tick_slot_def using finalize_not_waiting by blast
  then show ?case
    using Cons.IH [OF grows_plain [OF tick_slot_grows [OF Cons.prems(1)]]] Cons.prems(3) by simp
qed simp

lemma tick_slots_explain:
  assumes "plain_store tk" "sorted_wrt (\<lambda>a b. b \<noteq> a - 1) ts" "t \<in> set ts"
  shows "explained t (fold (tick_slot spec cfg now) ts tk) \<and> \<not> waiting_at (t - 1) (fold (tick_slot spec cfg now) ts tk)"
  using assms
proof (induction ts arbitrary: tk)
  case (Cons a ts)
  let ?m = "materializeBaseline spec cfg now a tk" and ?tk' = "tick_slot spec cfg now a tk"
  have m: "plain_store ?m" by (rule grows_plain [OF materializeBaseline_grows [OF Cons.prems(1)]])
  have p: "plain_store ?tk'" by (rule grows_plain [OF tick_slot_grows [OF Cons.prems(1)]])
  have "explained a ?tk'" unfolding tick_slot_def
    by (rule explained_grows [OF baseline_explains [OF Cons.prems(1)] finalizeWaitingBaseline_grows [OF m]])
       (rule finalizeWaitingBaseline_frozen)
  moreover have "\<not> waiting_at (a - 1) ?tk'" unfolding tick_slot_def using finalize_not_waiting [OF m] by blast
  moreover have "a - 1 \<notin> set ts" using Cons.prems(2) by auto
  ultimately show ?case
    using Cons.IH [OF p] Cons.prems(2,3) tick_slots_explained [OF p] tick_slots_not_waiting [OF p] by auto
qed simp

lemma set_slots_upto: "set (slots_upto a b) = {t. a \<le> t \<and> t \<le> b}"
proof -
  have "t \<in> word_of_nat ` {unat a..unat b}" if "a \<le> t" "t \<le> b" for t
    using that by (intro image_eqI [of _ _ "unat t"]) (simp_all add: word_le_nat_alt)
  moreover have "a \<le> word_of_nat n \<and> word_of_nat n \<le> b" if "n \<in> {unat a..unat b}" for n
  proof -
    have "unat (word_of_nat n :: slot) = n" using that unat_le_max_u64 [of b] by (simp add: unat_of_nat)
    then show ?thesis using that by (simp add: word_le_nat_alt)
  qed
  ultimately show ?thesis by (auto simp: slots_upto_def atLeastLessThanSuc_atLeastAtMost simp del: upt_Suc)
qed

lemma slots_upto_order:
  assumes "b \<noteq> max_u64"
  shows "sorted_wrt (\<lambda>x y. y \<noteq> x - 1) (slots_upto a b)"
proof -
  have b: "unat b < 18446744073709551615"
  proof (rule ccontr)
    assume "\<not> unat b < 18446744073709551615"
    then have "unat b = unat max_u64" using unat_le_max_u64 [of b] by simp
    then show False using assms by (simp add: word_unat_eq_iff)
  qed
  have "word_of_nat j \<noteq> (word_of_nat i - 1 :: slot)" if "i \<in> {unat a..unat b}" "j \<in> {unat a..unat b}" "i < j" for i j
  proof
    assume "word_of_nat j = (word_of_nat i - 1 :: slot)"
    then have "word_of_nat (Suc j) = (word_of_nat i :: slot)" by simp
    then have "unat (word_of_nat (Suc j) :: slot) = unat (word_of_nat i :: slot)" by (rule arg_cong)
    then show False using that b by (simp add: unat_of_nat del: of_nat_Suc)
  qed
  then show ?thesis
    unfolding slots_upto_def sorted_wrt_map
    by (intro sorted_wrt_mono_rel [OF _ sorted_wrt_upt]) (simp add: atLeastLessThanSuc_atLeastAtMost del: upt_Suc)
qed

lemma slot_tick_records:
  fixes spec g cfg now tk
  defines "c \<equiv> GetCurrentSlot spec g now"
  shows "tk_store (slot_tick spec g cfg now tk) =
      tk_store (fold (tick_slot spec cfg now) (slots_upto (first_slot (tk_lastTicked tk) c) c) tk)"
    and "tk_planSvc (slot_tick spec g cfg now tk) =
      tk_planSvc (fold (tick_slot spec cfg now) (slots_upto (first_slot (tk_lastTicked tk) c) c) tk)"
  by (simp_all add: slot_tick_def Let_def c_def)

text \<open>
  The slot clock leaves no recent slot unexplained.  After a tick at slot \<open>c\<close>, every slot from the
  first one since the last tick (at most five back after a stall) up to \<open>c\<close> has its plan frozen, and if
  that plan involves the slot then it has a record that says what became of its build; and none of the
  slots before them, from the one before the first to \<open>c - 1\<close>, is still waiting for attributes.\<close>
theorem slot_tick_explains:
  assumes "plain_store tk" "GetCurrentSlot spec g now \<noteq> max_u64"
    and "first_slot (tk_lastTicked tk) (GetCurrentSlot spec g now) \<le> t" "t \<le> GetCurrentSlot spec g now"
  shows "explained t (slot_tick spec g cfg now tk) \<and> \<not> waiting_at (t - 1) (slot_tick spec g cfg now tk)"
proof -
  let ?c = "GetCurrentSlot spec g now"
  have "t \<in> set (slots_upto (first_slot (tk_lastTicked tk) ?c) ?c)" using assms(3,4) by (simp add: set_slots_upto)
  from tick_slots_explain [OF assms(1) slots_upto_order [OF assms(2)] this, where spec = spec and cfg = cfg and now = now]
  show ?thesis unfolding explained_def waiting_at_def slot_tick_records .
qed

theorem slot_tick_explains_witness:
  "explained 2 (slot_tick demo_spec 0 DefaultConfig 25000000000 (demo_results\<lparr>tk_lastTicked := 1\<rparr>)) \<and>
   \<not> waiting_at 1 (slot_tick demo_spec 0 DefaultConfig 25000000000 (demo_results\<lparr>tk_lastTicked := 1\<rparr>))"
proof -
  have c: "GetCurrentSlot demo_spec 0 25000000000 = 2"
    by (simp add: GetCurrentSlot_def TimeToSlot_def demo_spec_def time_sub_def max_i64_def min_i64_def u64_of_i64_def nanos_per_s_def signed_divide_int_def)
  have p: "plain_store (demo_results\<lparr>tk_lastTicked := 1\<rparr>)" using demo_results_plain by (simp add: plain_store_def)
  show ?thesis
    using slot_tick_explains [OF p, of demo_spec 0 25000000000 2 DefaultConfig] by (simp add: c first_slot_def maxSlotCatchUp_def max_u64_def)
qed

text \<open>
  A baseline the clock does not come back to: when the loop stalls for more than five slots, the last
  slot it had seen is skipped by the catch-up, and stays recorded as waiting.\<close>

lemma tick_slots_frame:
  "plain_store tk \<Longrightarrow> s \<notin> set ts \<Longrightarrow> s \<notin> (\<lambda>t. t - 1) ` set ts \<Longrightarrow>
     record_at (fold (tick_slot spec cfg now) ts tk) s = record_at tk s"
proof (induction ts arbitrary: tk)
  case (Cons t ts)
  let ?m = "materializeBaseline spec cfg now t tk"
  have m: "plain_store ?m" by (rule grows_plain [OF materializeBaseline_grows [OF Cons.prems(1)]])
  have "record_at (finalizeWaitingBaseline spec cfg now (t - 1) ?m) s = record_at ?m s"
    using Cons.prems(3) by (auto simp: finalizeWaitingBaseline_def upsert_record [OF m] split: option.split)
  moreover have "record_at ?m s = record_at tk s" using materialize_frame [OF Cons.prems(1)] Cons.prems(2) by simp
  ultimately show ?case
    using Cons.IH [OF grows_plain [OF tick_slot_grows [OF Cons.prems(1)]]] Cons.prems(2,3) by (simp add: tick_slot_def)
qed simp

lemma stalled_baseline_stays_waiting:
  assumes "plain_store tk" "waiting_at s tk" "tk_lastTicked tk = s" "unat s + 5 < unat (GetCurrentSlot spec g now)"
  shows "waiting_at s (slot_tick spec g cfg now tk) \<and> tk_lastTicked (slot_tick spec g cfg now tk) \<noteq> s"
proof -
  let ?c = "GetCurrentSlot spec g now"
  have u: "unat (s + 5) = unat s + 5"
    using assms(4) unat_le_max_u64 [of ?c] by (simp add: unat_word_ariths)
  have "s + 1 + 4 < ?c" using assms(4) u by (simp add: word_less_nat_alt add.assoc)
  then have first: "first_slot s ?c = ?c - 4" by (simp add: first_slot_def maxSlotCatchUp_def)
  have d: "unat (?c - 4) = unat ?c - 4" using assms(4) by (simp add: unat_sub_if_size)
  have "s \<notin> set (slots_upto (?c - 4) ?c)" using assms(4) d by (simp add: set_slots_upto word_le_nat_alt)
  moreover have "s \<notin> (\<lambda>t. t - 1) ` set (slots_upto (?c - 4) ?c)"
  proof
    assume "s \<in> (\<lambda>t. t - 1) ` set (slots_upto (?c - 4) ?c)"
    then have "?c - 4 \<le> s + 1" by (auto simp: set_slots_upto)
    moreover have "unat (s + 1) = unat s + 1" using assms(4) unat_le_max_u64 [of ?c] by (simp add: unat_word_ariths)
    ultimately show False using assms(4) d by (simp add: word_le_nat_alt)
  qed
  ultimately have "waiting_at s (slot_tick spec g cfg now tk)"
    using assms(2) tick_slots_frame [OF assms(1)] unfolding waiting_at_def slot_tick_records assms(3) first by simp
  moreover have "tk_lastTicked (fold (tick_slot spec cfg now) ss x) = tk_lastTicked x" for ss x
    by (induction ss arbitrary: x)
       (simp_all add: tick_slot_def finalizeWaitingBaseline_def materializeBaseline_def upsert_unfold Let_def case_prod_beta split: option.split)
  ultimately show ?thesis using assms(3,4) by (auto simp: slot_tick_def Let_def word_less_nat_alt)
qed

end
