(* ===== verification/Slot_Migration.thy ===== *)
theory Slot_Migration
  imports Slot_Results KV_Store
begin

text \<open>
  The codecs of slot results (\<open>pkg/slot_results/codec.go\<close>) and won blocks
  (\<open>pkg/payload_bidder/won_blocks.go\<close>), and the move of the old namespace into the new one,
  \<open>pkg/slot_results/migrate.go\<close>.  The JSON form of a record is a parameter, a pair of functions; what
  the migration needs of it is that the records it writes are read back as they were.  The database
  may start or stop failing between its calls.
\<close>

section \<open>Codecs\<close>

record 'v json_codec =
  jc_Marshal :: "'v \<Rightarrow> u8 list option"
  jc_Unmarshal :: "u8 list \<Rightarrow> 'v option"

definition slot_key_codec :: "'v json_codec \<Rightarrow> (slot, 'v) codec" where
  "slot_key_codec json = \<lparr>EncodeKey = FormatUint, DecodeKey = ParseUint, EncodeValue = jc_Marshal json,
     DecodeValue = jc_Unmarshal json\<rparr>"

definition ResultsNamespace :: string where
  "ResultsNamespace = ''slot_results''"

definition WonBlocksNamespace :: string where
  "WonBlocksNamespace = ''won_blocks''"

definition ResultCodec :: "SlotResult json_codec \<Rightarrow> (slot, SlotResult) codec" where
  "ResultCodec json = slot_key_codec json"

definition WonBlockCodec :: "WonBlock json_codec \<Rightarrow> (slot, WonBlock) codec" where
  "WonBlockCodec json = slot_key_codec json"

interpretation res: kv_keys ResultsNamespace "ResultCodec json"
  by unfold_locales (simp add: ResultCodec_def slot_key_codec_def)

interpretation won: kv_keys WonBlocksNamespace "WonBlockCodec json"
  by unfold_locales (simp add: WonBlockCodec_def slot_key_codec_def)

section \<open>Migration\<close>

definition fresh_result :: "gotime \<Rightarrow> u64 \<Rightarrow> slot \<Rightarrow> WonBlock \<Rightarrow> SlotResult" where
  "fresh_result now slotsPerEpoch s won =
     \<lparr>res_Slot = s, res_Epoch = s div slotsPerEpoch, res_Fork = None, res_AppliedPlan = None, res_Build = None,
      res_Bids = [], res_BlockSubmissions = [], res_RevealAttempts = [],
      res_Inclusion = Some (inclusion_of None won), res_DroppedAttempts = (\<lambda>_. 0), res_UpdatedAt = now\<rparr>"

definition migrate_one :: "gotime \<Rightarrow> u64 \<Rightarrow> (slot \<times> SlotResult) list \<Rightarrow> slot \<times> WonBlock \<Rightarrow> (slot \<times> SlotResult) option" where
  "migrate_one now slotsPerEpoch existing e =
     (case map_of existing (fst e) of
        Some result \<Rightarrow>
          if res_Inclusion result \<noteq> None then None
          else Some (fst e, result\<lparr>res_Inclusion := Some (inclusion_of None (snd e)), res_UpdatedAt := now\<rparr>)
      | None \<Rightarrow> Some (fst e, fresh_result now slotsPerEpoch (fst e) (snd e)))"

text \<open>\<open>ok2\<close> says whether the database accepts the second transaction.\<close>

definition migrateWonBlocks ::
  "WonBlock json_codec \<Rightarrow> SlotResult json_codec \<Rightarrow> gotime \<Rightarrow> u64 \<Rightarrow> bool \<Rightarrow> kv_db \<Rightarrow> kv_db" where
  "migrateWonBlocks wj rj now slotsPerEpoch ok2 d =
     (if \<not> kv_enabled d \<or> slotsPerEpoch = 0 then d
      else case kv_Load WonBlocksNamespace (WonBlockCodec wj) d of
        Inl _ \<Rightarrow> d
      | Inr wonBlocks \<Rightarrow>
          if wonBlocks = [] then d
          else case kv_Load ResultsNamespace (ResultCodec rj) d of
            Inl _ \<Rightarrow> d
          | Inr existing \<Rightarrow>
              (let upserts = List.map_filter (migrate_one now slotsPerEpoch existing) wonBlocks
               in case if upserts = [] then Inr d else kv_PersistBatch ResultsNamespace (ResultCodec rj) d upserts [] of
                    Inl _ \<Rightarrow> d
                  | Inr d1 \<Rightarrow>
                      (case kv_PersistBatch WonBlocksNamespace (WonBlockCodec wj) (d1\<lparr>kv_write_ok := ok2\<rparr>) [] (map fst wonBlocks) of
                         Inl _ \<Rightarrow> d1\<lparr>kv_write_ok := ok2\<rparr>
                       | Inr d2 \<Rightarrow> d2)))"

definition results_SetPersistence ::
  "WonBlock json_codec \<Rightarrow> SlotResult json_codec \<Rightarrow> ChainSpec \<Rightarrow> gotime \<Rightarrow> bool \<Rightarrow> kv_db \<Rightarrow> Tracker \<Rightarrow> Tracker \<times> kv_db" where
  "results_SetPersistence wj rj spec now ok2 d tk =
     (let d = migrateWonBlocks wj rj now (SlotsPerEpoch spec) ok2 d
      in (tk\<lparr>tk_store := SetPersistence (kv_Load ResultsNamespace (ResultCodec rj)) d (tk_store tk)\<rparr>, d))"

section \<open>Namespaces are separate\<close>

lemma persist_other_namespace:
  assumes "kv_PersistBatch ns c d u x = Inr d'" "ns' \<noteq> ns"
  shows "map_of (kv_rows d') (ns', k) = map_of (kv_rows d) (ns', k)"
proof -
  have up: "map_of (fold (\<lambda>(s, b) rs. AList.update (ns, s) b rs) us rs) (ns', k) = map_of rs (ns', k)" for us :: "(string \<times> u8 list) list" and rs
    using assms(2) by (induction us arbitrary: rs) (auto simp: update_conv')
  have del: "map_of (fold (\<lambda>k rs. AList.delete (ns, EncodeKey c k) rs) ks rs) (ns', k) = map_of rs (ns', k)" for ks and rs :: "((string \<times> string) \<times> u8 list) list"
    using assms(2) by (induction ks arbitrary: rs) (auto simp: delete_conv')
  show ?thesis using assms(1) by (auto simp: kv_PersistBatch_def up del split: if_splits)
qed

lemma persist_content_other:
  "kv_PersistBatch ns c d u x = Inr d' \<Longrightarrow> ns' \<noteq> ns \<Longrightarrow> kv_content ns' c' d' = kv_content ns' c' d"
  by (simp add: kv_content_def persist_other_namespace)

lemma namespaces_differ [simp]: "WonBlocksNamespace \<noteq> ResultsNamespace" "ResultsNamespace \<noteq> WonBlocksNamespace"
  by (simp_all add: WonBlocksNamespace_def ResultsNamespace_def)

lemma persist_ok_other:
  assumes "kv_PersistBatch ns c d u x = Inr d'" "ns' \<noteq> ns" "kv_db_ok ns' c' d"
  shows "kv_db_ok ns' c' d'"
proof -
  have up: "distinct (map fst (fold (\<lambda>(s, b) rs. AList.update (ns, s) b rs) us rs)) \<and>
      (\<forall>r \<in> set (fold (\<lambda>(s, b) rs. AList.update (ns, s) b rs) us rs). fst (fst r) = ns' \<longrightarrow> r \<in> set rs)"
    if "distinct (map fst rs)" for us :: "(string \<times> u8 list) list" and rs
    using that
  proof (induction us arbitrary: rs)
    case (Cons a us)
    obtain k b where a: "a = (k, b)" by (cases a)
    have "distinct (map fst (AList.update (ns, k) b rs))" using Cons.prems by (simp add: distinct_update)
    moreover have "r \<in> set rs" if "r \<in> set (AList.update (ns, k) b rs)" "fst (fst r) = ns'" for r
      using that assms(2) set_AList_update [of "(ns, k)" b rs] by auto
    ultimately show ?case using Cons.IH [of "AList.update (ns, k) b rs"] by (auto simp: a)
  qed simp
  have del: "distinct (map fst (fold (\<lambda>k rs. AList.delete (ns, EncodeKey c k) rs) ks rs)) \<and>
      set (fold (\<lambda>k rs. AList.delete (ns, EncodeKey c k) rs) ks rs) \<subseteq> set rs"
    if "distinct (map fst rs)" for ks and rs :: "((string \<times> string) \<times> u8 list) list"
    using that
  proof (induction ks arbitrary: rs)
    case (Cons k ks)
    have "distinct (map fst (AList.delete (ns, EncodeKey c k) rs))" using Cons.prems by (simp add: distinct_delete)
    moreover have "set (AList.delete (ns, EncodeKey c k) rs) \<subseteq> set rs" by (auto simp: AList.delete_eq)
    ultimately show ?case using Cons.IH [of "AList.delete (ns, EncodeKey c k) rs"] by auto
  qed simp
  have "distinct (map fst (kv_rows d'))" and "\<forall>r \<in> set (kv_rows d'). fst (fst r) = ns' \<longrightarrow> r \<in> set (kv_rows d)"
    and "kv_enabled d'"
    using assms(1,3) up [of "kv_rows d" "encode_upserts c u"]
      del [of "fold (\<lambda>(s, b) rs. AList.update (ns, s) b rs) (encode_upserts c u) (kv_rows d)" x]
    by (auto simp: kv_PersistBatch_def kv_db_ok_def split: if_splits)
  then show ?thesis using assms(3) by (auto simp: kv_db_ok_def)
qed

section \<open>What the migration does\<close>

lemma load_distinct: "kv_Load ns c d = Inr l \<Longrightarrow> distinct (map fst l)"
proof -
  have "distinct (map fst (fold (load_row c) rs es))" if "distinct (map fst es)" for rs es
    using that by (induction rs arbitrary: es) (auto simp: load_row_def distinct_update split: option.split)
  then show "kv_Load ns c d = Inr l \<Longrightarrow> distinct (map fst l)" by (auto simp: kv_Load_def split: if_splits)
qed

lemma migrate_one_key: "migrate_one now spe existing e = Some (s, r) \<Longrightarrow> s = fst e"
  by (auto simp: migrate_one_def split: option.splits if_splits)

lemma upsert_keys: "distinct (map fst wons) \<Longrightarrow>
    distinct (map fst (List.map_filter (migrate_one now spe existing) wons)) \<and>
    map_of (List.map_filter (migrate_one now spe existing) wons) s =
      Option.bind (map_of wons s) (\<lambda>w. map_option snd (migrate_one now spe existing (s, w)))"
proof (induction wons)
  case (Cons e wons)
  have sub: "fst ` set (List.map_filter (migrate_one now spe existing) ws) \<subseteq> fst ` set ws" for ws
    by (induction ws) (auto simp: map_filter_simps dest: migrate_one_key split: option.splits)
  have none: "map_of wons (fst e) = None" using Cons.prems by (simp add: map_of_eq_None_iff)
  show ?case
  proof (cases "migrate_one now spe existing e")
    case (Some p)
    obtain t r where p: "p = (t, r)" by (cases p)
    have t: "t = fst e" using migrate_one_key Some p by simp
    have "t \<notin> fst ` set (List.map_filter (migrate_one now spe existing) wons)" using Cons.prems sub t by auto
    then show ?thesis using Cons Some p t by (cases e) (auto simp: map_filter_simps)
  next
    case None
    then show ?thesis using Cons none by (cases e) (auto simp: map_filter_simps)
  qed
qed (simp add: map_filter_simps)

text \<open>The records the migration would write.\<close>

definition migrated :: "WonBlock json_codec \<Rightarrow> SlotResult json_codec \<Rightarrow> gotime \<Rightarrow> u64 \<Rightarrow> kv_db \<Rightarrow> (slot \<times> SlotResult) list" where
  "migrated wj rj now slotsPerEpoch d =
     (case (kv_Load WonBlocksNamespace (WonBlockCodec wj) d, kv_Load ResultsNamespace (ResultCodec rj) d) of
        (Inr wonBlocks, Inr existing) \<Rightarrow> List.map_filter (migrate_one now slotsPerEpoch existing) wonBlocks
      | _ \<Rightarrow> [])"

definition merged_result :: "gotime \<Rightarrow> u64 \<Rightarrow> slot \<Rightarrow> WonBlock \<Rightarrow> SlotResult option \<Rightarrow> SlotResult" where
  "merged_result now spe s w r =
     (case r of
        None \<Rightarrow> fresh_result now spe s w
      | Some r \<Rightarrow> if res_Inclusion r \<noteq> None then r
                  else r\<lparr>res_Inclusion := Some (inclusion_of None w), res_UpdatedAt := now\<rparr>)"

abbreviation won_rows :: "WonBlock json_codec \<Rightarrow> kv_db \<Rightarrow> slot \<rightharpoonup> WonBlock" where
  "won_rows wj \<equiv> kv_content WonBlocksNamespace (WonBlockCodec wj)"

abbreviation result_rows :: "SlotResult json_codec \<Rightarrow> kv_db \<Rightarrow> slot \<rightharpoonup> SlotResult" where
  "result_rows rj \<equiv> kv_content ResultsNamespace (ResultCodec rj)"

lemma kv_content_write_ok [simp]: "kv_content ns c (d\<lparr>kv_write_ok := w\<rparr>) = kv_content ns c d"
  by (simp add: kv_content_def)

lemma kv_db_ok_write_ok [simp]: "kv_db_ok ns c (d\<lparr>kv_write_ok := w\<rparr>) = kv_db_ok ns c d"
  by (simp add: kv_db_ok_def)

lemma load_readable: "kv_read_ok d \<Longrightarrow> \<exists>l. kv_Load ns c d = Inr l"
  by (simp add: kv_Load_def)

text \<open>The first transaction: every won block is in the results afterwards.\<close>

lemma first_batch:
  assumes ok: "kv_db_ok WonBlocksNamespace (WonBlockCodec wj) d" "kv_db_ok ResultsNamespace (ResultCodec rj) d"
    and w: "kv_Load WonBlocksNamespace (WonBlockCodec wj) d = Inr wons"
    and r: "kv_Load ResultsNamespace (ResultCodec rj) d = Inr existing"
    and wback: "list_all (\<lambda>(k, v). writes_back (ResultCodec rj) v) (List.map_filter (migrate_one now spe existing) wons)"
    and p: "(if List.map_filter (migrate_one now spe existing) wons = [] then Inr d
       else kv_PersistBatch ResultsNamespace (ResultCodec rj) d (List.map_filter (migrate_one now spe existing) wons) []) = Inr d1"
  shows "result_rows rj d1 = (\<lambda>s. case won_rows wj d s of None \<Rightarrow> result_rows rj d s
      | Some w \<Rightarrow> Some (merged_result now spe s w (result_rows rj d s))) \<and>
    won_rows wj d1 = won_rows wj d \<and> kv_db_ok WonBlocksNamespace (WonBlockCodec wj) d1"
proof -
  let ?u = "List.map_filter (migrate_one now spe existing) wons"
  have W: "map_of wons = won_rows wj d" by (rule won.load_is_content [OF ok(1) w])
  have R: "map_of existing = result_rows rj d" by (rule res.load_is_content [OF ok(2) r])
  note k = upsert_keys [OF load_distinct [OF w], of now spe existing]
  have put: "result_rows rj d1 = apply_batch ?u [] (result_rows rj d)"
  proof (cases "?u = []")
    case True
    then show ?thesis using p by (simp add: apply_batch_def)
  next
    case False
    then show ?thesis using p res.persist_applies [OF ok(2) conjunct1 [OF k] _ _ wback] by simp
  qed
  have "result_rows rj d1 s = (case won_rows wj d s of None \<Rightarrow> result_rows rj d s
      | Some w \<Rightarrow> Some (merged_result now spe s w (result_rows rj d s)))" for s
    using k [of s] unfolding put
    by (auto simp: apply_batch_def W R migrate_one_def merged_result_def split: option.splits)
  moreover have "won_rows wj d1 = won_rows wj d \<and> kv_db_ok WonBlocksNamespace (WonBlockCodec wj) d1"
    using p ok(1) by (auto split: if_splits intro: persist_content_other persist_ok_other)
  ultimately show ?thesis by blast
qed

text \<open>
  C29: Migrating the old won blocks loses nothing and overwrites nothing, whatever fails.  Every slot
  of the old namespace is still there, or its won block is now the inclusion of the slot's result,
  or that result had an inclusion of its own; a result with an inclusion, and every result of another
  slot, is unchanged, and a result without one only gains it; if no call fails, the old namespace is
  empty afterwards.  So an interrupted migration can be run again at the next start.\<close>
theorem migration_loses_nothing:
  assumes "kv_db_ok WonBlocksNamespace (WonBlockCodec wj) d" "kv_db_ok ResultsNamespace (ResultCodec rj) d"
    and "list_all (\<lambda>(k, v). writes_back (ResultCodec rj) v) (migrated wj rj now spe d)"
  shows "let d' = migrateWonBlocks wj rj now spe ok2 d in
    (case won_rows wj d s of
       None \<Rightarrow> result_rows rj d' s = result_rows rj d s
     | Some w \<Rightarrow>
         result_rows rj d' s = Some (merged_result now spe s w (result_rows rj d s)) \<and> won_rows wj d' s \<in> {None, Some w} \<or>
         result_rows rj d' s = result_rows rj d s \<and> won_rows wj d' s = Some w) \<and>
    (kv_read_ok d \<and> kv_write_ok d \<and> ok2 \<and> spe \<noteq> 0 \<longrightarrow> won_rows wj d' s = None)"
proof -
  let ?wc = "WonBlockCodec wj" and ?rc = "ResultCodec rj"
  consider (off) "spe = 0 \<or> \<not> kv_read_ok d" | (none) "spe \<noteq> 0" "kv_Load WonBlocksNamespace ?wc d = Inr []"
    | (some) wons existing where "spe \<noteq> 0" "kv_Load WonBlocksNamespace ?wc d = Inr wons" "wons \<noteq> []"
        "kv_Load ResultsNamespace ?rc d = Inr existing"
    using load_readable by metis
  then show ?thesis
  proof cases
    case off
    then have "migrateWonBlocks wj rj now spe ok2 d = d"
      using assms(1) by (auto simp: migrateWonBlocks_def kv_Load_def kv_db_ok_def)
    then show ?thesis using off by (auto simp: Let_def split: option.split)
  next
    case none
    then have "migrateWonBlocks wj rj now spe ok2 d = d" by (simp add: migrateWonBlocks_def)
    moreover have "won_rows wj d s = None" using won.load_is_content [OF assms(1) none(2)] by (metis map_of.simps(1))
    ultimately show ?thesis by (simp add: Let_def)
  next
    case some
    let ?u = "List.map_filter (migrate_one now spe existing) wons"
    have en: "kv_enabled d" using assms(1) by (simp add: kv_db_ok_def)
    have wback: "list_all (\<lambda>(k, v). writes_back ?rc v) ?u" using assms(3) some by (simp add: migrated_def)
    let ?p = "if ?u = [] then Inr d else kv_PersistBatch ResultsNamespace ?rc d ?u []"
    show ?thesis
    proof (cases ?p)
      case (Inl e)
      then have "\<not> kv_write_ok d" using en by (auto simp: kv_PersistBatch_def split: if_splits)
      then show ?thesis using Inl some en by (simp add: migrateWonBlocks_def Let_def split: option.split)
    next
      case (Inr d1)
      note b = first_batch [OF assms(1,2) some(2,4) wback Inr]
      let ?q = "kv_PersistBatch WonBlocksNamespace ?wc (d1\<lparr>kv_write_ok := ok2\<rparr>) [] (map fst wons)"
      have m: "migrateWonBlocks wj rj now spe ok2 d = (case ?q of Inl _ \<Rightarrow> d1\<lparr>kv_write_ok := ok2\<rparr> | Inr d2 \<Rightarrow> d2)"
        using Inr some en by (simp add: migrateWonBlocks_def Let_def)
      have dom_w: "won_rows wj d t \<noteq> None \<longleftrightarrow> t \<in> fst ` set wons" for t
        using won.load_is_content [OF assms(1) some(2)] by (metis map_of_eq_None_iff)
      show ?thesis
      proof (cases ?q)
        case (Inl e)
        then have "\<not> ok2" by (auto simp: kv_PersistBatch_def split: if_splits)
        moreover have "migrateWonBlocks wj rj now spe ok2 d = d1\<lparr>kv_write_ok := ok2\<rparr>" by (simp add: m Inl)
        ultimately show ?thesis using b unfolding Let_def by (auto split: option.split)
      next
        case (Inr d2)
        have "won_rows wj d2 = apply_batch [] (map fst wons) (won_rows wj (d1\<lparr>kv_write_ok := ok2\<rparr>))"
          using won.persist_applies [OF _ _ _ Inr] b by simp
        then have "won_rows wj d2 t = None" for t using b dom_w [of t] by (auto simp: apply_batch_def)
        moreover have "result_rows rj d2 = result_rows rj d1" using persist_content_other [OF Inr, of ResultsNamespace ?rc] by simp
        moreover have "migrateWonBlocks wj rj now spe ok2 d = d2" by (simp add: m Inr)
        ultimately show ?thesis using b unfolding Let_def by (auto split: option.split)
      qed
    qed
  qed
qed

definition demo_won_block :: WonBlock where
  "demo_won_block = \<lparr>wb_Source = WonBlockSourceEPBS, wb_Slot = 7, wb_BlockHash = [1], wb_NumTransactions = 2, wb_NumBlobs = 0,
     wb_ValueWei = 9, wb_Timestamp = 3\<rparr>"

definition demo_won_json :: "WonBlock json_codec" where
  "demo_won_json = \<lparr>jc_Marshal = (\<lambda>_. Some [1]), jc_Unmarshal = (\<lambda>_. Some demo_won_block)\<rparr>"

definition demo_result_json :: "SlotResult json_codec" where
  "demo_result_json = \<lparr>jc_Marshal = (\<lambda>_. Some [2]), jc_Unmarshal = (\<lambda>_. Some (fresh_result 5 32 7 demo_won_block))\<rparr>"

definition demo_won_db :: kv_db where
  "demo_won_db = \<lparr>kv_enabled = True, kv_read_ok = True, kv_write_ok = True, kv_rows = [((''won_blocks'', FormatUint 7), [1])]\<rparr>"

theorem migration_loses_nothing_witness:
  "let d' = migrateWonBlocks demo_won_json demo_result_json 5 32 True demo_won_db in
     won_rows demo_won_json d' 7 = None \<and> result_rows demo_result_json d' 7 = Some (fresh_result 5 32 7 demo_won_block)"
proof -
  let ?wc = "WonBlockCodec demo_won_json" and ?rc = "ResultCodec demo_result_json"
  note codecs = WonBlockCodec_def ResultCodec_def slot_key_codec_def demo_won_json_def demo_result_json_def demo_won_db_def
    WonBlocksNamespace_def ResultsNamespace_def
  have 1: "kv_db_ok WonBlocksNamespace ?wc demo_won_db" "kv_db_ok ResultsNamespace ?rc demo_won_db"
    by (auto simp: kv_db_ok_def codecs)
  have 2: "migrated demo_won_json demo_result_json 5 32 demo_won_db = [(7, fresh_result 5 32 7 demo_won_block)]"
    by (simp add: migrated_def kv_Load_def load_row_def migrate_one_def map_filter_simps codecs)
  have 3: "list_all (\<lambda>(k, v). writes_back ?rc v) (migrated demo_won_json demo_result_json 5 32 demo_won_db)"
    unfolding 2 by (simp add: writes_back_def codecs)
  have 4: "won_rows demo_won_json demo_won_db 7 = Some demo_won_block" "result_rows demo_result_json demo_won_db 7 = None"
    by (simp_all add: kv_content_def codecs)
  show ?thesis
    using migration_loses_nothing [OF 1 3, of True 7] 4 by (auto simp: Let_def merged_result_def demo_won_db_def)
qed

end
