(* ===== verification/Exec_Requests.thy ===== *)
theory Exec_Requests
  imports Payload_Cache Chain_Spec Go_Codec
begin

text \<open>
  \<open>pkg/payload_builder/execution_requests.go\<close>: decoding of the EIP-7685 execution requests of the
  Engine API.  An entry is a type byte followed by the concatenated requests of that type, each of a
  fixed size with little-endian integers.
\<close>

section \<open>The requests\<close>

record DepositRequest =
  dr_Pubkey :: "u8 list"
  dr_WithdrawalCredentials :: "u8 list"
  dr_Amount :: u64
  dr_Signature :: "u8 list"
  dr_Index :: u64

record WithdrawalRequest =
  wr_SourceAddress :: "u8 list"
  wr_ValidatorPubkey :: "u8 list"
  wr_Amount :: u64

record ConsolidationRequest =
  cr_SourceAddress :: "u8 list"
  cr_SourcePubkey :: "u8 list"
  cr_TargetPubkey :: "u8 list"

record BuilderDepositRequest =
  bdr_Pubkey :: "u8 list"
  bdr_WithdrawalCredentials :: "u8 list"
  bdr_Amount :: u64
  bdr_Signature :: "u8 list"

record BuilderExitRequest =
  ber_SourceAddress :: "u8 list"
  ber_Pubkey :: "u8 list"

record ExecutionRequests =
  er_Version :: DataVersion
  er_Deposits :: "DepositRequest list"
  er_Withdrawals :: "WithdrawalRequest list"
  er_Consolidations :: "ConsolidationRequest list"
  er_BuilderDeposits :: "BuilderDepositRequest list"
  er_BuilderExits :: "BuilderExitRequest list"

datatype request_error = EmptyEntry nat | BadLength nat | NotBeforeGloas nat | UnknownType nat u8

definition depositRequestSize :: nat where "depositRequestSize = 192"
definition withdrawalRequestSize :: nat where "withdrawalRequestSize = 76"
definition consolidationRequestSize :: nat where "consolidationRequestSize = 116"
definition builderDepositRequestSize :: nat where "builderDepositRequestSize = 184"
definition builderExitRequestSize :: nat where "builderExitRequestSize = 68"

lemmas request_sizes = depositRequestSize_def withdrawalRequestSize_def consolidationRequestSize_def
  builderDepositRequestSize_def builderExitRequestSize_def

section \<open>Decoding\<close>

text \<open>\<open>d[a:b]\<close>.\<close>

definition slice :: "nat \<Rightarrow> nat \<Rightarrow> 'a list \<Rightarrow> 'a list" where
  "slice a b d = take (b - a) (drop a d)"

text \<open>The loop over \<open>data[i*size : (i+1)*size]\<close>; \<open>None\<close> when the length is not a multiple.\<close>

definition parse_chunks :: "nat \<Rightarrow> (u8 list \<Rightarrow> 'r) \<Rightarrow> u8 list \<Rightarrow> 'r list option" where
  "parse_chunks sz f data =
     (if length data mod sz \<noteq> 0 then None
      else Some (map (\<lambda>i. f (slice (i * sz) ((i + 1) * sz) data)) [0..<length data div sz]))"

definition deposit_of :: "u8 list \<Rightarrow> DepositRequest" where
  "deposit_of d = \<lparr>dr_Pubkey = slice 0 48 d, dr_WithdrawalCredentials = slice 48 80 d,
     dr_Amount = Uint64 (slice 80 88 d), dr_Signature = slice 88 184 d, dr_Index = Uint64 (slice 184 192 d)\<rparr>"

definition parseDepositRequests :: "u8 list \<Rightarrow> DepositRequest list option" where
  "parseDepositRequests data = parse_chunks depositRequestSize deposit_of data"

definition withdrawal_of :: "u8 list \<Rightarrow> WithdrawalRequest" where
  "withdrawal_of d = \<lparr>wr_SourceAddress = slice 0 20 d, wr_ValidatorPubkey = slice 20 68 d,
     wr_Amount = Uint64 (slice 68 76 d)\<rparr>"

definition parseWithdrawalRequests :: "u8 list \<Rightarrow> WithdrawalRequest list option" where
  "parseWithdrawalRequests data = parse_chunks withdrawalRequestSize withdrawal_of data"

definition consolidation_of :: "u8 list \<Rightarrow> ConsolidationRequest" where
  "consolidation_of d = \<lparr>cr_SourceAddress = slice 0 20 d, cr_SourcePubkey = slice 20 68 d,
     cr_TargetPubkey = slice 68 116 d\<rparr>"

definition parseConsolidationRequests :: "u8 list \<Rightarrow> ConsolidationRequest list option" where
  "parseConsolidationRequests data = parse_chunks consolidationRequestSize consolidation_of data"

definition builder_deposit_of :: "u8 list \<Rightarrow> BuilderDepositRequest" where
  "builder_deposit_of d = \<lparr>bdr_Pubkey = slice 0 48 d, bdr_WithdrawalCredentials = slice 48 80 d,
     bdr_Amount = Uint64 (slice 80 88 d), bdr_Signature = slice 88 184 d\<rparr>"

definition parseBuilderDepositRequests :: "u8 list \<Rightarrow> BuilderDepositRequest list option" where
  "parseBuilderDepositRequests data = parse_chunks builderDepositRequestSize builder_deposit_of data"

definition builder_exit_of :: "u8 list \<Rightarrow> BuilderExitRequest" where
  "builder_exit_of d = \<lparr>ber_SourceAddress = slice 0 20 d, ber_Pubkey = slice 20 68 d\<rparr>"

definition parseBuilderExitRequests :: "u8 list \<Rightarrow> BuilderExitRequest list option" where
  "parseBuilderExitRequests data = parse_chunks builderExitRequestSize builder_exit_of data"

definition no_requests :: "DataVersion \<Rightarrow> ExecutionRequests" where
  "no_requests v = \<lparr>er_Version = v, er_Deposits = [], er_Withdrawals = [], er_Consolidations = [],
     er_BuilderDeposits = [], er_BuilderExits = []\<rparr>"

definition or_bad :: "nat \<Rightarrow> 'a option \<Rightarrow> request_error + 'a" where
  "or_bad i r = (case r of None \<Rightarrow> Inl (BadLength i) | Some x \<Rightarrow> Inr x)"

definition parse_entry :: "DataVersion \<Rightarrow> nat \<Rightarrow> u8 list \<Rightarrow> ExecutionRequests \<Rightarrow> request_error + ExecutionRequests" where
  "parse_entry v i entry res =
     (case entry of
        [] \<Rightarrow> Inl (EmptyEntry i)
      | reqType # data \<Rightarrow>
          if data = [] then Inr res
          else if reqType = 0 then
            map_sum id (\<lambda>ds. res\<lparr>er_Deposits := ds\<rparr>) (or_bad i (parseDepositRequests data))
          else if reqType = 1 then
            map_sum id (\<lambda>ws. res\<lparr>er_Withdrawals := ws\<rparr>) (or_bad i (parseWithdrawalRequests data))
          else if reqType = 2 then
            map_sum id (\<lambda>cs. res\<lparr>er_Consolidations := cs\<rparr>) (or_bad i (parseConsolidationRequests data))
          else if reqType = 3 then
            (if v < DataVersionGloas then Inl (NotBeforeGloas i)
             else map_sum id (\<lambda>ds. res\<lparr>er_BuilderDeposits := ds\<rparr>) (or_bad i (parseBuilderDepositRequests data)))
          else if reqType = 4 then
            (if v < DataVersionGloas then Inl (NotBeforeGloas i)
             else map_sum id (\<lambda>es. res\<lparr>er_BuilderExits := es\<rparr>) (or_bad i (parseBuilderExitRequests data)))
          else Inl (UnknownType i reqType))"

fun parse_entries :: "DataVersion \<Rightarrow> nat \<Rightarrow> u8 list list \<Rightarrow> ExecutionRequests \<Rightarrow> request_error + ExecutionRequests" where
  "parse_entries v i [] res = Inr res"
| "parse_entries v i (e # es) res =
     (case parse_entry v i e res of Inl err \<Rightarrow> Inl err | Inr res \<Rightarrow> parse_entries v (Suc i) es res)"

definition ParseExecutionRequests :: "u8 list list \<Rightarrow> DataVersion \<Rightarrow> request_error + ExecutionRequests" where
  "ParseExecutionRequests raw v = parse_entries v 0 raw (no_requests v)"

section \<open>The wire format, as the specification has it\<close>

definition enc_deposit :: "DepositRequest \<Rightarrow> u8 list" where
  "enc_deposit r = dr_Pubkey r @ dr_WithdrawalCredentials r @ PutUint64 (dr_Amount r) @ dr_Signature r @ PutUint64 (dr_Index r)"

definition enc_withdrawal :: "WithdrawalRequest \<Rightarrow> u8 list" where
  "enc_withdrawal r = wr_SourceAddress r @ wr_ValidatorPubkey r @ PutUint64 (wr_Amount r)"

definition enc_consolidation :: "ConsolidationRequest \<Rightarrow> u8 list" where
  "enc_consolidation r = cr_SourceAddress r @ cr_SourcePubkey r @ cr_TargetPubkey r"

definition enc_builder_deposit :: "BuilderDepositRequest \<Rightarrow> u8 list" where
  "enc_builder_deposit r = bdr_Pubkey r @ bdr_WithdrawalCredentials r @ PutUint64 (bdr_Amount r) @ bdr_Signature r"

definition enc_builder_exit :: "BuilderExitRequest \<Rightarrow> u8 list" where
  "enc_builder_exit r = ber_SourceAddress r @ ber_Pubkey r"

definition deposit_sized :: "DepositRequest \<Rightarrow> bool" where
  "deposit_sized r \<longleftrightarrow> length (dr_Pubkey r) = 48 \<and> length (dr_WithdrawalCredentials r) = 32 \<and> length (dr_Signature r) = 96"

definition withdrawal_sized :: "WithdrawalRequest \<Rightarrow> bool" where
  "withdrawal_sized r \<longleftrightarrow> length (wr_SourceAddress r) = 20 \<and> length (wr_ValidatorPubkey r) = 48"

definition consolidation_sized :: "ConsolidationRequest \<Rightarrow> bool" where
  "consolidation_sized r \<longleftrightarrow> length (cr_SourceAddress r) = 20 \<and> length (cr_SourcePubkey r) = 48 \<and> length (cr_TargetPubkey r) = 48"

definition builder_deposit_sized :: "BuilderDepositRequest \<Rightarrow> bool" where
  "builder_deposit_sized r \<longleftrightarrow>
     length (bdr_Pubkey r) = 48 \<and> length (bdr_WithdrawalCredentials r) = 32 \<and> length (bdr_Signature r) = 96"

definition builder_exit_sized :: "BuilderExitRequest \<Rightarrow> bool" where
  "builder_exit_sized r \<longleftrightarrow> length (ber_SourceAddress r) = 20 \<and> length (ber_Pubkey r) = 48"

text \<open>One entry per type, without the types that have no request.\<close>

definition enc_entry :: "u8 \<Rightarrow> ('r \<Rightarrow> u8 list) \<Rightarrow> 'r list \<Rightarrow> u8 list list" where
  "enc_entry t enc rs = (if rs = [] then [] else [t # concat (map enc rs)])"

definition enc_requests :: "ExecutionRequests \<Rightarrow> u8 list list" where
  "enc_requests r = enc_entry 0 enc_deposit (er_Deposits r) @ enc_entry 1 enc_withdrawal (er_Withdrawals r) @
     enc_entry 2 enc_consolidation (er_Consolidations r) @ enc_entry 3 enc_builder_deposit (er_BuilderDeposits r) @
     enc_entry 4 enc_builder_exit (er_BuilderExits r)"

definition requests_sized :: "ExecutionRequests \<Rightarrow> bool" where
  "requests_sized r \<longleftrightarrow> list_all deposit_sized (er_Deposits r) \<and> list_all withdrawal_sized (er_Withdrawals r) \<and>
     list_all consolidation_sized (er_Consolidations r) \<and> list_all builder_deposit_sized (er_BuilderDeposits r) \<and>
     list_all builder_exit_sized (er_BuilderExits r) \<and>
     (er_Version r < DataVersionGloas \<longrightarrow> er_BuilderDeposits r = [] \<and> er_BuilderExits r = [])"

section \<open>Round trip\<close>

lemma slice_append_left: "b \<le> length xs \<Longrightarrow> slice a b (xs @ ys) = slice a b xs"
  by (cases "a \<le> length xs") (simp_all add: slice_def)

lemma slice_append_right: "length xs \<le> a \<Longrightarrow> slice a b (xs @ ys) = slice (a - length xs) (b - length xs) ys"
  by (simp add: slice_def)

lemma slice_all: "length xs = b \<Longrightarrow> slice 0 b xs = xs"
  by (simp add: slice_def)

lemmas slice_simps = slice_append_left slice_append_right slice_all

lemma parse_chunks_concat:
  assumes "0 < sz" "list_all (\<lambda>r. length (enc r) = sz \<and> f (enc r) = r) rs"
  shows "parse_chunks sz f (concat (map enc rs)) = Some rs"
proof -
  have len: "length (concat (map enc rs)) = length rs * sz"
    using assms(2) by (induction rs) auto
  have nth: "slice (i * sz) ((i + 1) * sz) (concat (map enc rs)) = enc (rs ! i)" if "i < length rs" for i
    using assms(2) that
  proof (induction rs arbitrary: i)
    case (Cons r rs)
    show ?case
    proof (cases i)
      case 0
      then show ?thesis using Cons.prems by (simp add: slice_def)
    next
      case (Suc j)
      have "slice (i * sz) ((i + 1) * sz) (enc r @ concat (map enc rs)) = slice (j * sz) ((j + 1) * sz) (concat (map enc rs))"
        using Cons.prems(1) by (simp add: slice_append_right Suc)
      then show ?thesis using Cons.IH [of j] Cons.prems by (simp add: Suc)
    qed
  qed simp
  have "map (\<lambda>i. f (slice (i * sz) ((i + 1) * sz) (concat (map enc rs)))) [0..<length rs] = map (\<lambda>i. rs ! i) [0..<length rs]"
    using nth assms(2) by (intro map_cong) (simp_all add: list_all_length)
  then show ?thesis using len assms(1) by (simp add: parse_chunks_def map_nth)
qed

lemma slice_PutUint64 [simp]: "slice 0 8 (PutUint64 w) = PutUint64 w"
  by (simp add: slice_all)

lemma deposit_roundtrip: "deposit_sized r \<Longrightarrow> length (enc_deposit r) = depositRequestSize \<and> deposit_of (enc_deposit r) = r"
  by (simp add: deposit_sized_def enc_deposit_def deposit_of_def slice_simps request_sizes)

lemma withdrawal_roundtrip:
  "withdrawal_sized r \<Longrightarrow> length (enc_withdrawal r) = withdrawalRequestSize \<and> withdrawal_of (enc_withdrawal r) = r"
  by (simp add: withdrawal_sized_def enc_withdrawal_def withdrawal_of_def slice_simps request_sizes)

lemma consolidation_roundtrip:
  "consolidation_sized r \<Longrightarrow> length (enc_consolidation r) = consolidationRequestSize \<and> consolidation_of (enc_consolidation r) = r"
  by (simp add: consolidation_sized_def enc_consolidation_def consolidation_of_def slice_simps request_sizes)

lemma builder_deposit_roundtrip:
  "builder_deposit_sized r \<Longrightarrow>
     length (enc_builder_deposit r) = builderDepositRequestSize \<and> builder_deposit_of (enc_builder_deposit r) = r"
  by (simp add: builder_deposit_sized_def enc_builder_deposit_def builder_deposit_of_def slice_simps request_sizes)

lemma builder_exit_roundtrip:
  "builder_exit_sized r \<Longrightarrow> length (enc_builder_exit r) = builderExitRequestSize \<and> builder_exit_of (enc_builder_exit r) = r"
  by (simp add: builder_exit_sized_def enc_builder_exit_def builder_exit_of_def slice_simps request_sizes)

lemmas parse_concat =
  parse_chunks_concat [of depositRequestSize enc_deposit deposit_of]
  parse_chunks_concat [of withdrawalRequestSize enc_withdrawal withdrawal_of]
  parse_chunks_concat [of consolidationRequestSize enc_consolidation consolidation_of]
  parse_chunks_concat [of builderDepositRequestSize enc_builder_deposit builder_deposit_of]
  parse_chunks_concat [of builderExitRequestSize enc_builder_exit builder_exit_of]

text \<open>An entry of one type changes its own list only.\<close>

lemma entry_cons:
  assumes "rs \<noteq> []" "0 < sz" "list_all (\<lambda>r. length (enc r) = sz \<and> f (enc r) = r) rs"
  shows "concat (map enc rs) \<noteq> [] \<and> parse_chunks sz f (concat (map enc rs)) = Some rs"
  using assms parse_chunks_concat [OF assms(2,3)] by (cases rs) auto

lemma sized_chunks:
  "list_all deposit_sized ds \<Longrightarrow> list_all (\<lambda>r. length (enc_deposit r) = depositRequestSize \<and> deposit_of (enc_deposit r) = r) ds"
  "list_all withdrawal_sized ws \<Longrightarrow>
     list_all (\<lambda>r. length (enc_withdrawal r) = withdrawalRequestSize \<and> withdrawal_of (enc_withdrawal r) = r) ws"
  "list_all consolidation_sized cs \<Longrightarrow>
     list_all (\<lambda>r. length (enc_consolidation r) = consolidationRequestSize \<and> consolidation_of (enc_consolidation r) = r) cs"
  "list_all builder_deposit_sized bs \<Longrightarrow>
     list_all (\<lambda>r. length (enc_builder_deposit r) = builderDepositRequestSize \<and> builder_deposit_of (enc_builder_deposit r) = r) bs"
  "list_all builder_exit_sized es \<Longrightarrow>
     list_all (\<lambda>r. length (enc_builder_exit r) = builderExitRequestSize \<and> builder_exit_of (enc_builder_exit r) = r) es"
  by (auto elim!: list.pred_mono_strong
      simp: deposit_roundtrip withdrawal_roundtrip consolidation_roundtrip builder_deposit_roundtrip builder_exit_roundtrip)

lemma parse_entries_append:
  "parse_entries v i (xs @ ys) r =
     (case parse_entries v i xs r of Inl e \<Rightarrow> Inl e | Inr r' \<Rightarrow> parse_entries v (i + length xs) ys r')"
  by (induction xs arbitrary: i r) (simp_all split: sum.split)

text \<open>Reading the entry of a type back fills in the list of that type, whatever its position.\<close>

lemma read_deposits:
  "list_all deposit_sized ds \<Longrightarrow> er_Deposits r = [] \<Longrightarrow>
     parse_entries v i (enc_entry 0 enc_deposit ds) r = Inr (r\<lparr>er_Deposits := ds\<rparr>)"
  using entry_cons [OF _ _ sized_chunks(1)]
  by (cases "ds = []") (simp_all add: enc_entry_def parse_entry_def parseDepositRequests_def or_bad_def request_sizes del: concat_eq_Nil_conv)

lemma read_withdrawals:
  "list_all withdrawal_sized ws \<Longrightarrow> er_Withdrawals r = [] \<Longrightarrow>
     parse_entries v i (enc_entry 1 enc_withdrawal ws) r = Inr (r\<lparr>er_Withdrawals := ws\<rparr>)"
  using entry_cons [OF _ _ sized_chunks(2)]
  by (cases "ws = []") (simp_all add: enc_entry_def parse_entry_def parseWithdrawalRequests_def or_bad_def request_sizes del: concat_eq_Nil_conv)

lemma read_consolidations:
  "list_all consolidation_sized cs \<Longrightarrow> er_Consolidations r = [] \<Longrightarrow>
     parse_entries v i (enc_entry 2 enc_consolidation cs) r = Inr (r\<lparr>er_Consolidations := cs\<rparr>)"
  using entry_cons [OF _ _ sized_chunks(3)]
  by (cases "cs = []") (simp_all add: enc_entry_def parse_entry_def parseConsolidationRequests_def or_bad_def request_sizes del: concat_eq_Nil_conv)

lemma read_builder_deposits:
  "list_all builder_deposit_sized bs \<Longrightarrow> er_BuilderDeposits r = [] \<Longrightarrow> (v < DataVersionGloas \<longrightarrow> bs = []) \<Longrightarrow>
     parse_entries v i (enc_entry 3 enc_builder_deposit bs) r = Inr (r\<lparr>er_BuilderDeposits := bs\<rparr>)"
  using entry_cons [OF _ _ sized_chunks(4)]
  by (cases "bs = []") (simp_all add: enc_entry_def parse_entry_def parseBuilderDepositRequests_def or_bad_def request_sizes del: concat_eq_Nil_conv)

lemma read_builder_exits:
  "list_all builder_exit_sized es \<Longrightarrow> er_BuilderExits r = [] \<Longrightarrow> (v < DataVersionGloas \<longrightarrow> es = []) \<Longrightarrow>
     parse_entries v i (enc_entry 4 enc_builder_exit es) r = Inr (r\<lparr>er_BuilderExits := es\<rparr>)"
  using entry_cons [OF _ _ sized_chunks(5)]
  by (cases "es = []") (simp_all add: enc_entry_def parse_entry_def parseBuilderExitRequests_def or_bad_def request_sizes del: concat_eq_Nil_conv)

lemmas read_entries = read_deposits read_withdrawals read_consolidations read_builder_deposits read_builder_exits

text \<open>
  C30: decoding the specified encoding of execution requests gives them back: for requests whose fields
  have their sizes (and, before Gloas, none of the two builder kinds), \<open>ParseExecutionRequests\<close> succeeds
  and returns every request of every kind, in order and with its integers.\<close>

theorem requests_roundtrip:
  assumes "requests_sized r"
  shows "ParseExecutionRequests (enc_requests r) (er_Version r) = Inr r"
  using assms
  by (simp add: ParseExecutionRequests_def enc_requests_def requests_sized_def parse_entries_append read_entries no_requests_def)

definition demo_requests :: ExecutionRequests where
  "demo_requests = \<lparr>er_Version = DataVersionGloas, er_Deposits = [], er_Withdrawals =
     [\<lparr>wr_SourceAddress = replicate 20 1, wr_ValidatorPubkey = replicate 48 2, wr_Amount = 32000000000\<rparr>,
      \<lparr>wr_SourceAddress = replicate 20 3, wr_ValidatorPubkey = replicate 48 4, wr_Amount = 0\<rparr>],
     er_Consolidations = [], er_BuilderDeposits = [],
     er_BuilderExits = [\<lparr>ber_SourceAddress = replicate 20 5, ber_Pubkey = replicate 48 6\<rparr>]\<rparr>"

theorem requests_roundtrip_witness:
  "requests_sized demo_requests \<and> ParseExecutionRequests (enc_requests demo_requests) DataVersionGloas = Inr demo_requests"
proof -
  have sized: "requests_sized demo_requests"
    by (simp add: requests_sized_def demo_requests_def withdrawal_sized_def builder_exit_sized_def)
  show ?thesis using sized requests_roundtrip [OF sized] by (simp add: demo_requests_def)
qed

text \<open>The size checks keep the fields of a decoded record within the data; a second entry of a type replaces the first.\<close>

lemma duplicate_entry_overwrites:
  assumes "list_all withdrawal_sized ws" "list_all withdrawal_sized ws'" "ws \<noteq> []" "ws' \<noteq> []"
  shows "ParseExecutionRequests (enc_entry 1 enc_withdrawal ws @ enc_entry 1 enc_withdrawal ws') v =
           Inr ((no_requests v)\<lparr>er_Withdrawals := ws'\<rparr>)"
proof -
  have "parse_entries v i (enc_entry 1 enc_withdrawal ws') r = Inr (r\<lparr>er_Withdrawals := ws'\<rparr>)" for i r
    using entry_cons [OF assms(4) _ sized_chunks(2) [OF assms(2)]] assms(4)
    by (simp add: enc_entry_def parse_entry_def parseWithdrawalRequests_def or_bad_def request_sizes del: concat_eq_Nil_conv)
  then show ?thesis
    by (simp add: ParseExecutionRequests_def parse_entries_append read_withdrawals assms no_requests_def)
qed

end
