(* ===== verification/Payload_Modify.thy ===== *)
theory Payload_Modify
  imports Exec_Requests Attr_Events Signed_Messages
begin

text \<open>
  \<open>pkg/payload_builder/payload_modifier.go\<close>, \<open>payload_converter.go\<close> and \<open>blobs.go\<close>: the payload of
  the execution client is marked in its extra data, its block hash recomputed, and the result
  converted to the consensus types.  Hashes and tries of go-ethereum are the record \<open>eth_lib\<close>.
  A nil withdrawal of the client's answer is \<open>None\<close>.
\<close>

section \<open>Engine types\<close>

fun engine_num :: "EngineDataVersion \<Rightarrow> nat" where
  "engine_num EngineUnknown = 0"
| "engine_num EngineParis = 1"
| "engine_num EngineShanghai = 2"
| "engine_num EngineCancun = 3"
| "engine_num EnginePrague = 4"
| "engine_num EngineOsaka = 5"
| "engine_num EngineAmsterdam = 6"
| "engine_num EngineBogota = 7"

lemma engine_num_inj: "engine_num a = engine_num b \<Longrightarrow> a = b"
  by (cases a; cases b) simp_all

instantiation EngineDataVersion :: linorder
begin

definition less_eq_EngineDataVersion :: "EngineDataVersion \<Rightarrow> EngineDataVersion \<Rightarrow> bool" where
  "less_eq_EngineDataVersion a b \<longleftrightarrow> engine_num a \<le> engine_num b"

definition less_EngineDataVersion :: "EngineDataVersion \<Rightarrow> EngineDataVersion \<Rightarrow> bool" where
  "less_EngineDataVersion a b \<longleftrightarrow> engine_num a < engine_num b"

instance
  by standard (auto simp: less_eq_EngineDataVersion_def less_EngineDataVersion_def intro: engine_num_inj)

end

record EnginePayload =
  en_Version :: EngineDataVersion
  en_ParentHash :: hash32
  en_FeeRecipient :: address20
  en_StateRoot :: hash32
  en_ReceiptsRoot :: hash32
  en_LogsBloom :: "u8 list"
  en_PrevRandao :: hash32
  en_BlockNumber :: u64
  en_GasLimit :: u64
  en_GasUsed :: u64
  en_Timestamp :: u64
  en_ExtraData :: "u8 list"
  en_BaseFeePerGas :: "256 word option"
  en_BlockHash :: hash32
  en_Transactions :: "u8 list list"
  en_Withdrawals :: "Withdrawal option list"
  en_BlobGasUsed :: u64
  en_ExcessBlobGas :: u64
  en_BlockAccessList :: "u8 list"
  en_SlotNumber :: u64

record Header =
  hd_ParentHash :: hash32
  hd_UncleHash :: hash32
  hd_Coinbase :: address20
  hd_Root :: hash32
  hd_TxHash :: hash32
  hd_ReceiptHash :: hash32
  hd_Bloom :: "u8 list"
  hd_Difficulty :: int
  hd_Number :: int
  hd_GasLimit :: u64
  hd_GasUsed :: u64
  hd_Time :: u64
  hd_Extra :: "u8 list"
  hd_MixDigest :: hash32
  hd_Nonce :: "u8 list"
  hd_BaseFee :: int
  hd_WithdrawalsHash :: "hash32 option"
  hd_BlobGasUsed :: "u64 option"
  hd_ExcessBlobGas :: "u64 option"
  hd_ParentBeaconRoot :: "hash32 option"
  hd_RequestsHash :: "hash32 option"
  hd_SlotNumber :: "u64 option"
  hd_BlockAccessListHash :: "hash32 option"

record 't eth_lib =
  eth_headerHash :: "Header \<Rightarrow> hash32"
  eth_decodeTx :: "u8 list \<Rightarrow> 't option"
  eth_txRoot :: "'t list \<Rightarrow> hash32"
  eth_withdrawalsRoot :: "Withdrawal list \<Rightarrow> hash32"
  eth_CalcRequestsHash :: "u8 list list \<Rightarrow> hash32"
  eth_Keccak256Hash :: "u8 list \<Rightarrow> hash32"
  eth_EmptyUncleHash :: hash32

datatype modify_error = TransactionUndecodable nat | NilWithdrawal nat | HashVerificationFailed hash32 hash32

section \<open>The header\<close>

fun decode_txs :: "'t eth_lib \<Rightarrow> nat \<Rightarrow> u8 list list \<Rightarrow> modify_error + 't list" where
  "decode_txs lib i [] = Inr []"
| "decode_txs lib i (b # bs) =
     (case eth_decodeTx lib b of
        None \<Rightarrow> Inl (TransactionUndecodable i)
      | Some tx \<Rightarrow> map_sum id (\<lambda>txs. tx # txs) (decode_txs lib (Suc i) bs))"

fun header_withdrawals :: "nat \<Rightarrow> Withdrawal option list \<Rightarrow> modify_error + Withdrawal list" where
  "header_withdrawals i [] = Inr []"
| "header_withdrawals i (None # ws) = Inl (NilWithdrawal i)"
| "header_withdrawals i (Some w # ws) = map_sum id (\<lambda>ws. w # ws) (header_withdrawals (Suc i) ws)"

definition paris_header :: "'t eth_lib \<Rightarrow> 't list \<Rightarrow> EnginePayload \<Rightarrow> Header" where
  "paris_header lib txs p =
     \<lparr>hd_ParentHash = en_ParentHash p, hd_UncleHash = eth_EmptyUncleHash lib, hd_Coinbase = en_FeeRecipient p,
      hd_Root = en_StateRoot p, hd_TxHash = eth_txRoot lib txs, hd_ReceiptHash = en_ReceiptsRoot p,
      hd_Bloom = en_LogsBloom p, hd_Difficulty = 0, hd_Number = uint (en_BlockNumber p), hd_GasLimit = en_GasLimit p,
      hd_GasUsed = en_GasUsed p, hd_Time = en_Timestamp p, hd_Extra = en_ExtraData p, hd_MixDigest = en_PrevRandao p,
      hd_Nonce = replicate 8 0, hd_BaseFee = (case en_BaseFeePerGas p of None \<Rightarrow> 0 | Some f \<Rightarrow> uint f),
      hd_WithdrawalsHash = None, hd_BlobGasUsed = None, hd_ExcessBlobGas = None, hd_ParentBeaconRoot = None,
      hd_RequestsHash = None, hd_SlotNumber = None, hd_BlockAccessListHash = None\<rparr>"

text \<open>The fields later forks add.\<close>

definition cancun_fields :: "EnginePayload \<Rightarrow> hash32 \<Rightarrow> Header \<Rightarrow> Header" where
  "cancun_fields p parentBeaconBlockRoot h =
     (if en_Version p \<ge> EngineCancun
      then h\<lparr>hd_BlobGasUsed := Some (en_BlobGasUsed p), hd_ExcessBlobGas := Some (en_ExcessBlobGas p),
             hd_ParentBeaconRoot := Some parentBeaconBlockRoot\<rparr>
      else h)"

definition prague_fields :: "'t eth_lib \<Rightarrow> EnginePayload \<Rightarrow> u8 list list \<Rightarrow> Header \<Rightarrow> Header" where
  "prague_fields lib p executionRequests h =
     (if en_Version p \<ge> EnginePrague then h\<lparr>hd_RequestsHash := Some (eth_CalcRequestsHash lib executionRequests)\<rparr> else h)"

definition amsterdam_fields :: "'t eth_lib \<Rightarrow> EnginePayload \<Rightarrow> Header \<Rightarrow> Header" where
  "amsterdam_fields lib p h =
     (if en_Version p \<ge> EngineAmsterdam
      then h\<lparr>hd_SlotNumber := Some (en_SlotNumber p),
             hd_BlockAccessListHash := (if en_BlockAccessList p \<noteq> [] then Some (eth_Keccak256Hash lib (en_BlockAccessList p))
                                        else hd_BlockAccessListHash h)\<rparr>
      else h)"

definition shanghai_fields :: "'t eth_lib \<Rightarrow> EnginePayload \<Rightarrow> Header \<Rightarrow> modify_error + Header" where
  "shanghai_fields lib p h =
     (if en_Version p \<ge> EngineShanghai
      then map_sum id (\<lambda>ws. h\<lparr>hd_WithdrawalsHash := Some (eth_withdrawalsRoot lib ws)\<rparr>) (header_withdrawals 0 (en_Withdrawals p))
      else Inr h)"

definition buildHeaderFromPayload ::
  "'t eth_lib \<Rightarrow> EnginePayload \<Rightarrow> hash32 \<Rightarrow> u8 list list \<Rightarrow> modify_error + Header" where
  "buildHeaderFromPayload lib p parentBeaconBlockRoot executionRequests =
     (case decode_txs lib 0 (en_Transactions p) of
        Inl e \<Rightarrow> Inl e
      | Inr txs \<Rightarrow>
          map_sum id (\<lambda>h. amsterdam_fields lib p (prague_fields lib p executionRequests (cancun_fields p parentBeaconBlockRoot h)))
            (shanghai_fields lib p (paris_header lib txs p)))"

section \<open>Marking the payload\<close>

definition maxExtraDataSize :: nat where
  "maxExtraDataSize = 32"

definition toggle_requests :: "'t eth_lib \<Rightarrow> Header \<Rightarrow> Header" where
  "toggle_requests lib h =
     h\<lparr>hd_RequestsHash := (case hd_RequestsHash h of None \<Rightarrow> Some (eth_CalcRequestsHash lib []) | Some _ \<Rightarrow> None)\<rparr>"

text \<open>The header that reproduces the payload's hash, as it is or with the requests hash toggled.\<close>

definition verified_header :: "'t eth_lib \<Rightarrow> hash32 \<Rightarrow> Header \<Rightarrow> modify_error + Header" where
  "verified_header lib originalHash h =
     (if eth_headerHash lib h = originalHash then Inr h
      else let h = toggle_requests lib h in
        if eth_headerHash lib h = originalHash then Inr h
        else Inl (HashVerificationFailed (eth_headerHash lib h) originalHash))"

definition slash :: u8 where
  "slash = of_char (CHR ''/'')"

definition new_extra :: "u8 list \<Rightarrow> u8 list \<Rightarrow> u8 list" where
  "new_extra prefix extra =
     (let d = prefix;
          d = (if prefix \<noteq> [] \<and> length d < maxExtraDataSize then d @ [slash] else d);
          remaining = int maxExtraDataSize - int (length d);
          d = (if remaining > 0 \<and> extra \<noteq> []
               then (if int (length extra) > remaining then d @ take (nat remaining) extra else d @ extra)
               else d)
      in if length d > maxExtraDataSize then take maxExtraDataSize d else d)"

definition ModifyPayloadExtraData ::
  "'t eth_lib \<Rightarrow> EnginePayload \<Rightarrow> u8 list list \<Rightarrow> u8 list \<Rightarrow> hash32 \<Rightarrow> modify_error + hash32 \<times> EnginePayload" where
  "ModifyPayloadExtraData lib p executionRequests extraDataPrefix parentBeaconBlockRoot =
     (case buildHeaderFromPayload lib p parentBeaconBlockRoot executionRequests of
        Inl e \<Rightarrow> Inl e
      | Inr header \<Rightarrow>
          map_sum id (\<lambda>header.
             let newExtraData = new_extra extraDataPrefix (hd_Extra header);
                 newHash = eth_headerHash lib (header\<lparr>hd_Extra := newExtraData\<rparr>)
             in (newHash, p\<lparr>en_ExtraData := newExtraData, en_BlockHash := newHash\<rparr>))
           (verified_header lib (en_BlockHash p) header))"

section \<open>Conversion to the consensus types\<close>

record payload_body =
  pb_ParentHash :: hash32
  pb_FeeRecipient :: address20
  pb_StateRoot :: hash32
  pb_ReceiptsRoot :: hash32
  pb_LogsBloom :: "u8 list"
  pb_PrevRandao :: hash32
  pb_BlockNumber :: u64
  pb_GasUsed :: u64
  pb_Timestamp :: u64
  pb_ExtraData :: "u8 list"
  pb_BaseFeePerGas :: "256 word option"
  pb_BaseFeePerGasLE :: "u8 list"
  pb_BlockHash :: hash32
  pb_Withdrawals :: "Withdrawal list"
  pb_BlobGasUsed :: u64
  pb_ExcessBlobGas :: u64
  pb_BlockAccessList :: "u8 list"
  pb_SlotNumber :: u64

definition zero_withdrawal :: Withdrawal where
  "zero_withdrawal = \<lparr>wd_Index = 0, wd_ValidatorIndex = 0, wd_Address = replicate 20 0, wd_Amount = 0\<rparr>"

text \<open>\<open>BaseFeePerGas.Bytes32()\<close> is big-endian; the loop reverses it.\<close>

definition Bytes32 :: "256 word \<Rightarrow> u8 list" where
  "Bytes32 w = rev (le_bytes 32 (unat w))"

definition base_fee_LE :: "256 word option \<Rightarrow> u8 list" where
  "base_fee_LE fee =
     (case fee of None \<Rightarrow> replicate 32 0
      | Some w \<Rightarrow> (let be = Bytes32 w in map (\<lambda>i. be ! (31 - i)) [0..<32]))"

definition beacon_withdrawal :: "Withdrawal option \<Rightarrow> Withdrawal" where
  "beacon_withdrawal w = (case w of None \<Rightarrow> zero_withdrawal | Some w \<Rightarrow> w)"

definition beaconPayloadFromEngine :: "EnginePayload \<Rightarrow> DataVersion \<Rightarrow> payload_body exec_payload" where
  "beaconPayloadFromEngine p beaconVersion =
     \<lparr>ep_Version = beaconVersion, ep_GasLimit = en_GasLimit p, ep_Transactions = en_Transactions p,
      ep_Body = \<lparr>pb_ParentHash = en_ParentHash p, pb_FeeRecipient = en_FeeRecipient p, pb_StateRoot = en_StateRoot p,
        pb_ReceiptsRoot = en_ReceiptsRoot p, pb_LogsBloom = en_LogsBloom p, pb_PrevRandao = en_PrevRandao p,
        pb_BlockNumber = en_BlockNumber p, pb_GasUsed = en_GasUsed p, pb_Timestamp = en_Timestamp p,
        pb_ExtraData = en_ExtraData p, pb_BaseFeePerGas = en_BaseFeePerGas p,
        pb_BaseFeePerGasLE = base_fee_LE (en_BaseFeePerGas p), pb_BlockHash = en_BlockHash p,
        pb_Withdrawals = map beacon_withdrawal (en_Withdrawals p), pb_BlobGasUsed = en_BlobGasUsed p,
        pb_ExcessBlobGas = en_ExcessBlobGas p, pb_BlockAccessList = en_BlockAccessList p, pb_SlotNumber = en_SlotNumber p\<rparr>\<rparr>"

definition convertWithdrawalsToEngineFormat :: "Withdrawal option list \<Rightarrow> Withdrawal list" where
  "convertWithdrawalsToEngineFormat ws = map beacon_withdrawal ws"

text \<open>The bundle of the engine holds byte arrays of the same sizes; it is copied element by element.\<close>

definition beaconBlobsBundleFromEngine :: "BlobsBundle option \<Rightarrow> BlobsBundle option" where
  "beaconBlobsBundleFromEngine src =
     (case src of None \<Rightarrow> None
      | Some b \<Rightarrow> Some \<lparr>bb_Commitments = map id (bb_Commitments b), bb_Proofs = map id (bb_Proofs b), bb_Blobs = map id (bb_Blobs b)\<rparr>)"

definition BlobsAsBytes :: "BlobsBundle option \<Rightarrow> u8 list list option" where
  "BlobsAsBytes b = map_option (\<lambda>b. map id (bb_Blobs b)) b"

definition ProofsAsBytes :: "BlobsBundle option \<Rightarrow> u8 list list option" where
  "ProofsAsBytes b = map_option (\<lambda>b. map id (bb_Proofs b)) b"

section \<open>Facts\<close>

text \<open>The three cases of the extra data are one truncation.\<close>

lemma new_extra_take:
  "new_extra prefix extra = take maxExtraDataSize (prefix @ (if prefix = [] then [] else [slash]) @ extra)"
  by (cases extra) (auto simp: new_extra_def maxExtraDataSize_def Let_def nat_diff_distrib')

lemma new_extra_length: "length (new_extra prefix extra) \<le> maxExtraDataSize"
  by (simp add: new_extra_take)

lemma base_fee_LE_le_bytes: "base_fee_LE (Some w) = le_bytes 32 (unat w)"
  by (rule nth_equalityI) (simp_all add: base_fee_LE_def Bytes32_def Let_def rev_nth del: upt_Suc)

text \<open>The two fee representations of a converted payload agree.\<close>

lemma base_fees_agree: "le_nat (base_fee_LE (Some w)) = unat w"
proof -
  have "unat w < 2 ^ LENGTH(256)" by (rule unsigned_less)
  then have "unat w < 256 ^ 32" by simp
  then show ?thesis by (simp add: base_fee_LE_le_bytes le_nat_le_bytes)
qed

lemma toggle_toggle_hash: "hd_Extra (toggle_requests lib h) = hd_Extra h"
  by (simp add: toggle_requests_def)

lemma toggle_extra: "toggle_requests lib (h\<lparr>hd_Extra := x\<rparr>) = (toggle_requests lib h)\<lparr>hd_Extra := x\<rparr>"
  by (simp add: toggle_requests_def)

lemma verified_header_cases:
  "verified_header lib hash h = Inr h' \<Longrightarrow> (h' = h \<or> h' = toggle_requests lib h) \<and> eth_headerHash lib h' = hash"
  by (auto simp: verified_header_def Let_def split: if_splits)

lemma verified_header_ok:
  "h' = h \<or> h' = toggle_requests lib h \<Longrightarrow> eth_headerHash lib h' = hash \<Longrightarrow> \<exists>h''. verified_header lib hash h = Inr h''"
  by (auto simp: verified_header_def Let_def)

text \<open>Extra data and block hash enter the header in one place.\<close>

lemma header_extra:
  assumes "buildHeaderFromPayload lib p root reqs = Inr h"
  shows "hd_Extra h = en_ExtraData p"
    "buildHeaderFromPayload lib (p\<lparr>en_ExtraData := x, en_BlockHash := b\<rparr>) root reqs = Inr (h\<lparr>hd_Extra := x\<rparr>)"
  using assms
  by (auto simp: buildHeaderFromPayload_def shanghai_fields_def cancun_fields_def prague_fields_def amsterdam_fields_def
      paris_header_def map_sum_def split: sum.splits if_splits)

lemma header_withdrawals_nil: "None \<in> set ws \<Longrightarrow> \<exists>i. header_withdrawals n ws = Inl (NilWithdrawal i)"
proof (induction ws arbitrary: n)
  case (Cons w ws)
  show ?case
  proof (cases w)
    case (Some x)
    then obtain i where "header_withdrawals (Suc n) ws = Inl (NilWithdrawal i)" using Cons by auto
    then show ?thesis by (simp add: Some)
  qed simp
qed simp

text \<open>A nil withdrawal is dereferenced here, before the conversion that would replace it.\<close>

lemma nil_withdrawal_dereferenced:
  assumes "EngineShanghai \<le> en_Version p" "None \<in> set (en_Withdrawals p)" "decode_txs lib 0 (en_Transactions p) = Inr txs"
  shows "\<exists>i. ModifyPayloadExtraData lib p reqs prefix root = Inl (NilWithdrawal i)"
  using header_withdrawals_nil [OF assms(2), of 0] assms(1,3)
  by (auto simp: ModifyPayloadExtraData_def buildHeaderFromPayload_def shanghai_fields_def)

text \<open>
  C31: marking a payload keeps it consistent.  When \<open>ModifyPayloadExtraData\<close> succeeds, the header it
  rebuilt had reproduced the client's own block hash (with the requests hash as computed or toggled);
  of the payload only the extra data and the block hash changed; the extra data is the first 32 bytes of
  prefix, separator and old extra data; the returned hash is the new block hash and that of the header with the new extra data; and
  the marked payload passes the same verification again, whatever prefix is put in front.\<close>

theorem payload_marked:
  assumes "ModifyPayloadExtraData lib p reqs prefix root = Inr (newHash, p')"
  shows "\<exists>h. buildHeaderFromPayload lib p root reqs = Inr h \<and>
     (\<exists>h'\<in>{h, toggle_requests lib h}. eth_headerHash lib h' = en_BlockHash p \<and>
        newHash = eth_headerHash lib (h'\<lparr>hd_Extra := en_ExtraData p'\<rparr>)) \<and>
     en_ExtraData p' = take 32 (prefix @ (if prefix = [] then [] else [slash]) @ en_ExtraData p) \<and>
     p' = p\<lparr>en_ExtraData := en_ExtraData p', en_BlockHash := newHash\<rparr> \<and>
     (\<forall>prefix'. \<exists>r. ModifyPayloadExtraData lib p' reqs prefix' root = Inr r)"
proof -
  obtain h h' where h: "buildHeaderFromPayload lib p root reqs = Inr h" "verified_header lib (en_BlockHash p) h = Inr h'"
    and r: "newHash = eth_headerHash lib (h'\<lparr>hd_Extra := new_extra prefix (hd_Extra h')\<rparr>)"
      "p' = p\<lparr>en_ExtraData := new_extra prefix (hd_Extra h'), en_BlockHash := newHash\<rparr>"
    using assms by (auto simp: ModifyPayloadExtraData_def map_sum_def Let_def split: sum.splits)
  have h': "h' = h \<or> h' = toggle_requests lib h" "eth_headerHash lib h' = en_BlockHash p"
    using verified_header_cases [OF h(2)] by simp_all
  have x: "hd_Extra h' = en_ExtraData p"
    using h'(1) header_extra(1) [OF h(1)] by (auto simp: toggle_toggle_hash)
  define x' where "x' = new_extra prefix (en_ExtraData p)"
  have p': "p' = p\<lparr>en_ExtraData := x', en_BlockHash := newHash\<rparr>" "newHash = eth_headerHash lib (h'\<lparr>hd_Extra := x'\<rparr>)"
    using r by (simp_all add: x x'_def)
  have again: "buildHeaderFromPayload lib p' root reqs = Inr (h\<lparr>hd_Extra := x'\<rparr>)"
    unfolding p'(1) by (rule header_extra(2) [OF h(1)])
  obtain h'' where "verified_header lib (en_BlockHash p') (h\<lparr>hd_Extra := x'\<rparr>) = Inr h''"
    using verified_header_ok [of "h'\<lparr>hd_Extra := x'\<rparr>" "h\<lparr>hd_Extra := x'\<rparr>" lib newHash] h'(1) p'
    by (auto simp: toggle_extra)
  then have "\<forall>prefix'. \<exists>r. ModifyPayloadExtraData lib p' reqs prefix' root = Inr r"
    by (simp add: ModifyPayloadExtraData_def again)
  moreover have "x' = take 32 (prefix @ (if prefix = [] then [] else [slash]) @ en_ExtraData p)"
    unfolding x'_def new_extra_take maxExtraDataSize_def ..
  ultimately show ?thesis using h(1) h' p' by auto
qed

definition demo_eth :: "u8 list eth_lib" where
  "demo_eth = \<lparr>eth_headerHash = (\<lambda>h. hd_Extra h @ concat (case_option [] (\<lambda>r. [r]) (hd_RequestsHash h))), eth_decodeTx = Some,
     eth_txRoot = concat, eth_withdrawalsRoot = (\<lambda>_. []), eth_CalcRequestsHash = (\<lambda>r. 9 # concat r), eth_Keccak256Hash = id,
     eth_EmptyUncleHash = []\<rparr>"

definition demo_engine_payload :: EnginePayload where
  "demo_engine_payload = \<lparr>en_Version = EnginePrague, en_ParentHash = [], en_FeeRecipient = [], en_StateRoot = [], en_ReceiptsRoot = [],
     en_LogsBloom = [], en_PrevRandao = [], en_BlockNumber = 7, en_GasLimit = 30000000, en_GasUsed = 21000, en_Timestamp = 84,
     en_ExtraData = [1, 2], en_BaseFeePerGas = Some 7, en_BlockHash = [1, 2], en_Transactions = [[5]],
     en_Withdrawals = [], en_BlobGasUsed = 0, en_ExcessBlobGas = 0, en_BlockAccessList = [], en_SlotNumber = 0\<rparr>"

text \<open>The client's hash was computed without a requests hash, so the header is found by toggling it.\<close>

theorem payload_marked_witness:
  "\<exists>p'. ModifyPayloadExtraData demo_eth demo_engine_payload [] [66] [] = Inr ([66, 47, 1, 2], p') \<and>
     en_ExtraData p' = [66, 47, 1, 2]"
proof -
  have "ModifyPayloadExtraData demo_eth demo_engine_payload [] [66] [] =
    Inr ([66, 47, 1, 2], demo_engine_payload\<lparr>en_ExtraData := [66, 47, 1, 2], en_BlockHash := [66, 47, 1, 2]\<rparr>)"
    by (simp add: ModifyPayloadExtraData_def buildHeaderFromPayload_def demo_engine_payload_def demo_eth_def shanghai_fields_def
        cancun_fields_def prague_fields_def amsterdam_fields_def paris_header_def less_eq_EngineDataVersion_def
        verified_header_def toggle_requests_def new_extra_take maxExtraDataSize_def slash_def Let_def)
  from this payload_marked [OF this] show ?thesis by auto
qed

end
