(* ===== verification/Payload_Build.thy ===== *)
theory Payload_Build
  imports Payload_Modify Proposer_Prefs Config
begin

text \<open>
  \<open>pkg/payload_builder/payload_builder.go\<close> and \<open>proposer_settings.go\<close>: one payload build through the
  Engine API, and the bookkeeping of the active build.  The answers of the beacon node and of the execution client
  are functions of the requests made to them, in the record \<open>build_calls\<close>; a build's context is a
  number, and \<open>pb_cancelled\<close> are the contexts that were cancelled.
\<close>

section \<open>The active build\<close>

type_synonym PayloadID = "u8 list"

record activeBuild =
  ab_slot :: slot
  ab_payloadID :: PayloadID
  ab_ctx :: nat

record PayloadBuilder =
  pb_activeBuild :: "activeBuild option"
  pb_cancelled :: "nat set"

definition NewPayloadBuilder :: PayloadBuilder where
  "NewPayloadBuilder = \<lparr>pb_activeBuild = None, pb_cancelled = {}\<rparr>"

definition zero_payload_id :: PayloadID where
  "zero_payload_id = replicate 8 0"

text \<open>The first critical section cancels the build of another slot; the deferred one clears that of this slot.\<close>

definition begin_build :: "slot \<Rightarrow> nat \<Rightarrow> PayloadBuilder \<Rightarrow> PayloadBuilder" where
  "begin_build s ctx b =
     b\<lparr>pb_activeBuild := Some \<lparr>ab_slot = s, ab_payloadID = zero_payload_id, ab_ctx = ctx\<rparr>,
       pb_cancelled := (case pb_activeBuild b of
           None \<Rightarrow> pb_cancelled b
         | Some a \<Rightarrow> if ab_slot a \<noteq> s then insert (ab_ctx a) (pb_cancelled b) else pb_cancelled b)\<rparr>"

definition note_payload_id :: "slot \<Rightarrow> PayloadID \<Rightarrow> PayloadBuilder \<Rightarrow> PayloadBuilder" where
  "note_payload_id s pid b =
     (case pb_activeBuild b of
        None \<Rightarrow> b
      | Some a \<Rightarrow> if ab_slot a = s then b\<lparr>pb_activeBuild := Some (a\<lparr>ab_payloadID := pid\<rparr>)\<rparr> else b)"

definition end_build :: "slot \<Rightarrow> PayloadBuilder \<Rightarrow> PayloadBuilder" where
  "end_build s b =
     (case pb_activeBuild b of
        None \<Rightarrow> b
      | Some a \<Rightarrow> if ab_slot a = s then b\<lparr>pb_activeBuild := None\<rparr> else b)"

definition AbortBuild :: "slot \<Rightarrow> PayloadBuilder \<Rightarrow> PayloadBuilder" where
  "AbortBuild s b =
     (case pb_activeBuild b of
        None \<Rightarrow> b
      | Some a \<Rightarrow> if ab_slot a = s then b\<lparr>pb_cancelled := insert (ab_ctx a) (pb_cancelled b), pb_activeBuild := None\<rparr> else b)"

section \<open>The calls of a build\<close>

record FinalityInfo =
  fi_HeadExecutionBlockHash :: hash32
  fi_SafeExecutionBlockHash :: hash32
  fi_FinalizedExecutionBlockHash :: hash32

record EngineAttributes =
  ea_Version :: EngineDataVersion
  ea_Timestamp :: u64
  ea_PrevRandao :: hash32
  ea_SuggestedFeeRecipient :: address20
  ea_Withdrawals :: "Withdrawal list"
  ea_ParentBeaconBlockRoot :: hash32
  ea_SlotNumber :: u64
  ea_TargetGasLimit :: u64
  ea_InclusionListTransactions :: "u8 list list"

record ForkchoiceUpdatedRequest =
  fr_Version :: EngineDataVersion
  fr_HeadBlockHash :: hash32
  fr_SafeBlockHash :: hash32
  fr_FinalizedBlockHash :: hash32
  fr_PayloadAttributes :: EngineAttributes

datatype PayloadValidationStatus = StatusValid | StatusInvalid | StatusSyncing | StatusAccepted | StatusInvalidBlockHash

record ForkchoiceUpdatedResponse =
  fs_Status :: PayloadValidationStatus
  fs_PayloadID :: "PayloadID option"

record GetPayloadResponse =
  gp_ExecutionPayload :: "EnginePayload option"
  gp_ExecutionRequests :: "u8 list list"
  gp_BlobsBundle :: "BlobsBundle option"
  gp_BlockValue :: "256 word option"

record build_calls =
  call_finality :: "FinalityInfo option"
  call_forkchoice :: "ForkchoiceUpdatedRequest \<Rightarrow> ForkchoiceUpdatedResponse option"
  call_aborted :: bool
  call_getPayload :: "EngineDataVersion \<Rightarrow> PayloadID \<Rightarrow> GetPayloadResponse option"
  call_readyAt :: gotime

datatype build_error = NoEngineVersion | FinalityFailed | ForkchoiceFailed | ForkchoiceStatus PayloadValidationStatus
  | NoPayloadID | BuildAborted | GetPayloadFailed | NoExecutionPayload | ModifyFailed modify_error | RequestsFailed request_error

type_synonym settings_resolver = "slot \<Rightarrow> u64 \<Rightarrow> ProposerSettings option"

section \<open>Building\<close>

fun first_settings :: "settings_resolver list \<Rightarrow> slot \<Rightarrow> u64 \<Rightarrow> ProposerSettings option" where
  "first_settings [] s i = None"
| "first_settings (r # rs) s i = (case r s i of None \<Rightarrow> first_settings rs s i | Some st \<Rightarrow> Some st)"

text \<open>Fee recipient and gas limit: resolver, then (from Gloas on) the attributes, then the builder's own.\<close>

definition build_settings ::
  "settings_resolver list \<Rightarrow> address20 \<Rightarrow> DataVersion \<Rightarrow> PayloadAttributesEvent \<Rightarrow> address20 \<times> u64" where
  "build_settings resolvers feeRecipient beaconFork attrs =
     (let (rcpt, gas) = (case first_settings resolvers (pa_ProposalSlot attrs) (pa_ProposerIndex attrs) of
            None \<Rightarrow> (feeRecipient, 0)
          | Some st \<Rightarrow> (st_FeeRecipient st, st_TargetGasLimit st))
      in if beaconFork \<ge> DataVersionGloas
         then (if rcpt = feeRecipient \<and> pa_SuggestedFeeRecipient attrs \<noteq> replicate 20 0
               then pa_SuggestedFeeRecipient attrs else rcpt,
               if gas = 0 then pa_TargetGasLimit attrs else gas)
         else (rcpt, gas))"

definition forkchoice_request ::
  "EngineDataVersion \<Rightarrow> address20 \<Rightarrow> FinalityInfo \<Rightarrow> u64 \<Rightarrow> PayloadAttributesEvent \<Rightarrow> ForkchoiceUpdatedRequest" where
  "forkchoice_request engineVersion feeRecipient fi targetGasLimit attrs =
     \<lparr>fr_Version = engineVersion, fr_HeadBlockHash = pa_ParentBlockHash attrs,
      fr_SafeBlockHash = fi_SafeExecutionBlockHash fi, fr_FinalizedBlockHash = fi_FinalizedExecutionBlockHash fi,
      fr_PayloadAttributes =
        \<lparr>ea_Version = engineVersion, ea_Timestamp = pa_Timestamp attrs, ea_PrevRandao = pa_PrevRandao attrs,
         ea_SuggestedFeeRecipient = feeRecipient,
         ea_Withdrawals = convertWithdrawalsToEngineFormat (map Some (pa_Withdrawals attrs)),
         ea_ParentBeaconBlockRoot = pa_ParentBeaconBlockRoot attrs, ea_SlotNumber = pa_ProposalSlot attrs,
         ea_TargetGasLimit = targetGasLimit, ea_InclusionListTransactions = pa_InclusionListTransactions attrs\<rparr>\<rparr>"

definition requested_id :: "ForkchoiceUpdatedResponse option \<Rightarrow> build_error + PayloadID" where
  "requested_id resp =
     (case resp of
        None \<Rightarrow> Inl ForkchoiceFailed
      | Some r \<Rightarrow>
          if fs_Status r \<noteq> StatusValid \<and> fs_Status r \<noteq> StatusSyncing then Inl (ForkchoiceStatus (fs_Status r))
          else (case fs_PayloadID r of None \<Rightarrow> Inl NoPayloadID | Some pid \<Rightarrow> Inr pid))"

type_synonym build_payload = "(payload_body, ExecutionRequests) built_payload"

definition finished_payload ::
  "'t eth_lib \<Rightarrow> string \<Rightarrow> DataVersion \<Rightarrow> address20 \<Rightarrow> gotime \<Rightarrow> PayloadAttributesEvent \<Rightarrow> GetPayloadResponse option
     \<Rightarrow> build_error + build_payload" where
  "finished_payload lib extraData beaconFork rcpt readyAt attrs resp =
     (case resp of
        None \<Rightarrow> Inl GetPayloadFailed
      | Some resp \<Rightarrow>
     (case gp_ExecutionPayload resp of
        None \<Rightarrow> Inl NoExecutionPayload
      | Some enginePayload \<Rightarrow>
     (case ModifyPayloadExtraData lib enginePayload (gp_ExecutionRequests resp) (map of_char extraData)
             (pa_ParentBeaconBlockRoot attrs) of
        Inl e \<Rightarrow> Inl (ModifyFailed e)
      | Inr (newHash, enginePayload) \<Rightarrow>
     (case ParseExecutionRequests (gp_ExecutionRequests resp) beaconFork of
        Inl e \<Rightarrow> Inl (RequestsFailed e)
      | Inr execRequests \<Rightarrow> Inr
          \<lparr>p_ProposalSlot = pa_ProposalSlot attrs,
           p_build = \<lparr>bd_ExecutionPayload = beaconPayloadFromEngine enginePayload beaconFork,
             bd_ExecutionRequests = Some execRequests,
             bd_BlobsBundle = beaconBlobsBundleFromEngine (gp_BlobsBundle resp),
             bd_ParentBlockHash = pa_ParentBlockHash attrs, bd_ParentBlockRoot = pa_ParentBlockRoot attrs,
             bd_PrevRandao = pa_PrevRandao attrs\<rparr>,
           p_BlockHash = newHash, p_FeeRecipient = rcpt,
           p_BlockValue = (case gp_BlockValue resp of None \<Rightarrow> 0 | Some v \<Rightarrow> uint v),
           p_ReadyAt = readyAt, p_activity = \<lparr>act_bids = [], act_reveal = None\<rparr>\<rparr>))))"

text \<open>Up to the payload id; then the wait, and the payload itself.\<close>

definition request_build ::
  "ChainSpec \<Rightarrow> address20 \<Rightarrow> settings_resolver list \<Rightarrow> build_calls \<Rightarrow> PayloadAttributesEvent
     \<Rightarrow> build_error + EngineDataVersion \<times> DataVersion \<times> address20 \<times> PayloadID" where
  "request_build spec feeRecipient resolvers calls attrs =
     (let beaconFork = ActiveForkAtEpoch spec (GetEpochOfSlot spec (pa_ProposalSlot attrs)) in
      case EngineVersion beaconFork of
        None \<Rightarrow> Inl NoEngineVersion
      | Some engineVersion \<Rightarrow>
     (case call_finality calls of
        None \<Rightarrow> Inl FinalityFailed
      | Some fi \<Rightarrow>
     (let (rcpt, targetGasLimit) = build_settings resolvers feeRecipient beaconFork attrs in
      map_sum id (\<lambda>payloadID. (engineVersion, beaconFork, rcpt, payloadID))
        (requested_id (call_forkchoice calls (forkchoice_request engineVersion feeRecipient fi targetGasLimit attrs))))))"

definition BuildPayloadFromAttributes ::
  "'t eth_lib \<Rightarrow> ChainSpec \<Rightarrow> Config \<Rightarrow> address20 \<Rightarrow> settings_resolver list \<Rightarrow> build_calls \<Rightarrow> PayloadAttributesEvent
     \<Rightarrow> build_error + build_payload" where
  "BuildPayloadFromAttributes lib spec cfg feeRecipient resolvers calls attrs =
     (case request_build spec feeRecipient resolvers calls attrs of
        Inl e \<Rightarrow> Inl e
      | Inr (engineVersion, beaconFork, rcpt, payloadID) \<Rightarrow>
          if call_aborted calls then Inl BuildAborted
          else finished_payload lib (cfg_ExtraData cfg) beaconFork rcpt (call_readyAt calls) attrs
                 (call_getPayload calls engineVersion payloadID))"

section \<open>Facts\<close>

lemma begin_build_cancels:
  "pb_activeBuild b = Some a \<Longrightarrow> ab_slot a \<noteq> s \<Longrightarrow> ab_ctx a \<in> pb_cancelled (begin_build s ctx b)"
  by (simp add: begin_build_def)

lemma first_settings_append:
  "first_settings (rs @ rs') s i = (case first_settings rs s i of None \<Rightarrow> first_settings rs' s i | Some st \<Rightarrow> Some st)"
  by (induction rs) (simp_all split: option.split)

text \<open>The payload and the bid made from it name the same block.\<close>

definition hash_agrees :: "build_payload \<Rightarrow> bool" where
  "hash_agrees p \<longleftrightarrow> p_BlockHash p = pb_BlockHash (ep_Body (bd_ExecutionPayload (p_build p)))"

lemma finished_payload_cases:
  assumes "finished_payload lib extra fork rcpt readyAt attrs resp = Inr p"
  obtains r ep newHash ep' reqs where "resp = Some r" "gp_ExecutionPayload r = Some ep"
    "ModifyPayloadExtraData lib ep (gp_ExecutionRequests r) (map of_char extra) (pa_ParentBeaconBlockRoot attrs) = Inr (newHash, ep')"
    "ParseExecutionRequests (gp_ExecutionRequests r) fork = Inr reqs"
    "bd_ExecutionPayload (p_build p) = beaconPayloadFromEngine ep' fork" "bd_ExecutionRequests (p_build p) = Some reqs"
    "bd_BlobsBundle (p_build p) = gp_BlobsBundle r"
    "bd_ParentBlockHash (p_build p) = pa_ParentBlockHash attrs" "bd_ParentBlockRoot (p_build p) = pa_ParentBlockRoot attrs"
    "bd_PrevRandao (p_build p) = pa_PrevRandao attrs" "p_ProposalSlot p = pa_ProposalSlot attrs" "p_BlockHash p = newHash"
    "p_FeeRecipient p = rcpt"
  using assms
  by (auto simp: finished_payload_def beaconBlobsBundleFromEngine_def split: option.splits sum.splits prod.splits)

lemma modified_hash:
  "ModifyPayloadExtraData lib ep reqs prefix root = Inr (newHash, ep') \<Longrightarrow>
     en_BlockHash ep' = newHash \<and> (\<exists>x. ep' = ep\<lparr>en_ExtraData := x, en_BlockHash := newHash\<rparr>)"
  by (auto simp: ModifyPayloadExtraData_def map_sum_def Let_def split: sum.splits)

lemma finished_hash_agrees: "finished_payload lib extra fork rcpt readyAt attrs resp = Inr p \<Longrightarrow> hash_agrees p"
  by (erule finished_payload_cases) (simp add: hash_agrees_def beaconPayloadFromEngine_def modified_hash)

lemma build_finished:
  assumes "BuildPayloadFromAttributes lib spec cfg feeRecipient resolvers calls attrs = Inr p"
  obtains v fork rcpt pid where "request_build spec feeRecipient resolvers calls attrs = Inr (v, fork, rcpt, pid)"
    "\<not> call_aborted calls"
    "finished_payload lib (cfg_ExtraData cfg) fork rcpt (call_readyAt calls) attrs (call_getPayload calls v pid) = Inr p"
  using assms by (auto simp: BuildPayloadFromAttributes_def split: sum.splits if_splits)

lemma built_slot: "BuildPayloadFromAttributes lib spec cfg fr rs calls attrs = Inr p \<Longrightarrow> p_ProposalSlot p = pa_ProposalSlot attrs"
  by (erule build_finished, erule finished_payload_cases) simp

lemma built_hash_agrees: "BuildPayloadFromAttributes lib spec cfg fr rs calls attrs = Inr p \<Longrightarrow> hash_agrees p"
  by (erule build_finished) (erule finished_hash_agrees)

end
