(* ===== verification/Build_Service.thy ===== *)
theory Build_Service
  imports Payload_Build Plan_Service Reveal_Service
begin

text \<open>
  \<open>pkg/payload_builder/service.go\<close> and \<open>stats.go\<close>: the service that turns \<open>payload_attributes\<close> events into
  payload builds.  Timers and goroutines that have been started are \<open>bsv_jobs\<close> (with the earliest time they run), builds in
  flight are \<open>bsv_running\<close>; each critical section or handler is one step, so a run is a sequence of steps in any
  interleaving.  The chain service, the configuration and the clock are arguments of a step.  What the four dispatchers deliver is \<open>bsv_events\<close>.
\<close>

section \<open>State\<close>

datatype build_job = JobBuild slot | JobFallback slot | JobInject PayloadAttributesEvent

datatype exec_error = BuildFailedWith build_error | TransformRejected

datatype build_event =
    BuildStarted slot gotime
  | BuildFailed slot exec_error gotime
  | BuildReady slot payload_ref
  | BuildSkipped slot "build_skip option"

record running_build =
  rn_slot :: slot
  rn_attrs :: PayloadAttributesEvent
  rn_ctx :: nat
  rn_waited :: "bool option"

record BuildService =
  bsv_cache :: PayloadCache
  bsv_heap :: "(payload_body, ExecutionRequests) build_data payload_heap"
  bsv_nextRef :: payload_ref
  bsv_planSvc :: PlanService
  bsv_stream :: AttrStream
  bsv_builder :: PayloadBuilder
  bsv_buildStartedSlots :: "slot set"
  bsv_skipFiredSlots :: "slot set"
  bsv_attrFallbackArmed :: "slot set"
  bsv_wonPayloads :: "(hash32 \<times> slot) list"
  bsv_lastBuiltSlot :: u64
  bsv_lastKnownPayload :: "hash32 \<times> slot"
  bsv_stats :: BuilderStats
  bsv_jobs :: "(gotime \<times> build_job) list"
  bsv_running :: "running_build list"
  bsv_nextCtx :: nat
  bsv_stopped :: bool
  bsv_events :: "build_event list"

record 't service_env =
  sve_lib :: "'t eth_lib"
  sve_spec :: ChainSpec
  sve_genesisTime :: gotime
  sve_feeRecipient :: address20
  sve_jqPayload :: "string \<Rightarrow> payload_body exec_payload \<Rightarrow> payload_body exec_payload option"
  sve_order :: "slot list \<Rightarrow> slot list"
  sve_wonOrder :: "hash32 list \<Rightarrow> hash32 list"

definition zero_stats :: BuilderStats where
  "zero_stats = \<lparr>bst_SlotsBuilt = 0, bst_BidsSubmitted = 0, bst_BidsWon = 0, bst_BlocksIncluded = 0, bst_TotalPaid = 0,
     bst_RevealsSuccess = 0, bst_RevealsFailed = 0, bst_RevealsSkipped = 0\<rparr>"

definition NewBuildService :: "(payload_body, ExecutionRequests) build_data payload_heap \<Rightarrow> PlanService \<Rightarrow> BuildService" where
  "NewBuildService h planSvc =
     \<lparr>bsv_cache = NewPayloadCache DefaultCacheSize, bsv_heap = h, bsv_nextRef = 0, bsv_planSvc = planSvc, bsv_stream = NewAttrStream,
      bsv_builder = NewPayloadBuilder, bsv_buildStartedSlots = {}, bsv_skipFiredSlots = {}, bsv_attrFallbackArmed = {},
      bsv_wonPayloads = [], bsv_lastBuiltSlot = 0, bsv_lastKnownPayload = (zero_root, 0), bsv_stats = zero_stats,
      bsv_jobs = [], bsv_running = [], bsv_nextCtx = 0, bsv_stopped = False, bsv_events = []\<rparr>"

definition fire_event :: "build_event \<Rightarrow> BuildService \<Rightarrow> BuildService" where
  "fire_event ev sv = sv\<lparr>bsv_events := bsv_events sv @ [ev]\<rparr>"

section \<open>Inclusion\<close>

definition markPayloadWon :: "hash32 \<Rightarrow> slot \<Rightarrow> BuildService \<Rightarrow> BuildService" where
  "markPayloadWon blockHash s sv =
     (if map_of (bsv_wonPayloads sv) blockHash \<noteq> None then sv
      else sv\<lparr>bsv_wonPayloads := (blockHash, s) # bsv_wonPayloads sv,
              bsv_stats := (bsv_stats sv)\<lparr>bst_BlocksIncluded := bst_BlocksIncluded (bsv_stats sv) + 1\<rparr>\<rparr>)"

definition mark_if_ours :: "'t service_env \<Rightarrow> hash32 \<Rightarrow> BuildService \<Rightarrow> BuildService" where
  "mark_if_ours env blockHash sv =
     (case GetByBlockHash (sve_order env) (bsv_heap sv) blockHash (bsv_cache sv) of
        None \<Rightarrow> sv
      | Some p \<Rightarrow> markPayloadWon blockHash (p_ProposalSlot (bsv_heap sv p)) sv)"

text \<open>The execution block hash of the head block, \<open>None\<close> when the block could not be fetched.\<close>

definition checkPayloadInclusion :: "'t service_env \<Rightarrow> hash32 option \<Rightarrow> BuildService \<Rightarrow> BuildService" where
  "checkPayloadInclusion env blockInfo sv = (case blockInfo of None \<Rightarrow> sv | Some hash \<Rightarrow> mark_if_ours env hash sv)"

definition handlePayloadAvailableEvent :: "slot \<Rightarrow> hash32 \<Rightarrow> BuildService \<Rightarrow> BuildService" where
  "handlePayloadAvailableEvent s blockRoot sv = sv\<lparr>bsv_lastKnownPayload := (blockRoot, s)\<rparr>"

section \<open>Scheduling\<close>

text \<open>\<open>if slot > 64 { ... delete what is older than slot - 64 }\<close>\<close>

definition prune_slots :: "slot \<Rightarrow> slot set \<Rightarrow> slot set" where
  "prune_slots s S = (if s > 64 then {x \<in> S. \<not> x < s - 64} else S)"

definition fireBuildSkipped :: "slot \<Rightarrow> ResolvedBuildSettings \<Rightarrow> BuildService \<Rightarrow> BuildService" where
  "fireBuildSkipped s build sv =
     (if \<not> rb_PlanInvolved build then sv
      else if s \<in> bsv_skipFiredSlots sv then sv
      else fire_event (BuildSkipped s (rb_SkipReason build))
             (sv\<lparr>bsv_skipFiredSlots := prune_slots s (insert s (bsv_skipFiredSlots sv))\<rparr>))"

definition scheduleAttributesFallback :: "'t service_env \<Rightarrow> Config \<Rightarrow> gotime \<Rightarrow> slot \<Rightarrow> BuildService \<Rightarrow> BuildService" where
  "scheduleAttributesFallback env cfg now targetSlot sv =
     (if targetSlot \<in> bsv_attrFallbackArmed sv then sv
      else let fireAt = time_add (SlotToTime (sve_spec env) (sve_genesisTime env) targetSlot)
                          (dur_mul (ec_BuildStartTime (cfg_EPBS cfg)) nanos_per_ms)
           in sv\<lparr>bsv_attrFallbackArmed := prune_slots targetSlot (insert targetSlot (bsv_attrFallbackArmed sv)),
                 bsv_jobs := bsv_jobs sv @ [(time_add now (max (time_sub fireAt now) 0), JobFallback targetSlot)]\<rparr>)"

definition scheduleBuildForSlot :: "'t service_env \<Rightarrow> gotime \<Rightarrow> slot \<Rightarrow> i64 \<Rightarrow> BuildService \<Rightarrow> BuildService" where
  "scheduleBuildForSlot env now s buildStartMs sv =
     (let buildTime = time_add (SlotToTime (sve_spec env) (sve_genesisTime env) s) (dur_mul buildStartMs nanos_per_ms);
          delay = time_sub buildTime now
      in if delay \<le> 0 then sv\<lparr>bsv_jobs := bsv_jobs sv @ [(now, JobBuild s)]\<rparr>
         else sv\<lparr>bsv_jobs := bsv_jobs sv @ [(time_add now delay, JobBuild s)]\<rparr>)"

definition service_Freeze :: "'t service_env \<Rightarrow> Config \<Rightarrow> gotime \<Rightarrow> slot \<Rightarrow> BuildService \<Rightarrow> FrozenPlan \<times> BuildService" where
  "service_Freeze env cfg now s sv =
     (case Freeze (sve_spec env) cfg now s (bsv_planSvc sv) of (frozen, ps) \<Rightarrow> (frozen, sv\<lparr>bsv_planSvc := ps\<rparr>))"

definition decide_build :: "'t service_env \<Rightarrow> gotime \<Rightarrow> slot \<Rightarrow> ResolvedBuildSettings \<Rightarrow> BuildService \<Rightarrow> BuildService" where
  "decide_build env now s build sv =
     (if \<not> rb_Build build then fireBuildSkipped s build sv
      else if s \<in> bsv_buildStartedSlots sv then sv
      else scheduleBuildForSlot env now s (rb_BuildStartTimeMs build)
             (sv\<lparr>bsv_buildStartedSlots := insert s (bsv_buildStartedSlots sv)\<rparr>))"

definition handlePayloadAttributesEvent ::
  "'t service_env \<Rightarrow> Config \<Rightarrow> gotime \<Rightarrow> PayloadAttributesEvent \<Rightarrow> BuildService \<Rightarrow> BuildService" where
  "handlePayloadAttributesEvent env cfg now event sv =
     (let sv = mark_if_ours env (pa_ParentBlockHash event) sv;
          sv = scheduleAttributesFallback env cfg now (pa_ProposalSlot event + 1) sv;
          (frozen, sv) = service_Freeze env cfg now (pa_ProposalSlot event) sv
      in decide_build env now (pa_ProposalSlot event) (fp_Build frozen) sv)"

section \<open>Missing attributes\<close>

definition attrFallbackLookback :: nat where
  "attrFallbackLookback = 8"

fun fallback_parent :: "u64 list \<Rightarrow> slot \<Rightarrow> AttrStream \<Rightarrow> PayloadAttributesEvent option" where
  "fallback_parent [] target es = None"
| "fallback_parent (l # ls) target es =
     (if l \<le> target
      then (case GetLatestPayloadAttributes (target - l) es of None \<Rightarrow> fallback_parent ls target es | Some a \<Rightarrow> Some a)
      else None)"

definition lookbacks :: "u64 list" where
  "lookbacks = map of_nat [1..<Suc attrFallbackLookback]"

text \<open>\<open>uint64(SecondsPerSlot.Seconds())\<close>; the slot length is a whole number of seconds.\<close>

definition slot_seconds :: "ChainSpec \<Rightarrow> u64" where
  "slot_seconds spec = u64_of_i64 (SecondsPerSlot spec sdiv nanos_per_s)"

definition synthesized :: "ChainSpec \<Rightarrow> slot \<Rightarrow> PayloadAttributesEvent \<Rightarrow> PayloadAttributesEvent" where
  "synthesized spec targetSlot parent =
     (let skippedSlots = targetSlot - pa_ProposalSlot parent
      in parent\<lparr>pa_ProposalSlot := targetSlot, pa_Timestamp := pa_Timestamp parent + skippedSlots * slot_seconds spec\<rparr>)"

text \<open>The lookups and the injection are separate critical sections; an event of the node may arrive in between.\<close>

definition applyAttributesFallback :: "'t service_env \<Rightarrow> gotime \<Rightarrow> slot \<Rightarrow> BuildService \<Rightarrow> BuildService" where
  "applyAttributesFallback env now targetSlot sv =
     (if bsv_stopped sv then sv
      else case GetLatestPayloadAttributes targetSlot (bsv_stream sv) of Some _ \<Rightarrow> sv
      | None \<Rightarrow>
     (case fallback_parent lookbacks targetSlot (bsv_stream sv) of None \<Rightarrow> sv
      | Some parent \<Rightarrow>
          sv\<lparr>bsv_jobs := bsv_jobs sv @ [(now, JobInject (synthesized (sve_spec env) targetSlot parent))]\<rparr>))"

definition inject :: "PayloadAttributesEvent \<Rightarrow> BuildService \<Rightarrow> BuildService" where
  "inject event sv = sv\<lparr>bsv_stream := snd (InjectPayloadAttributes event (bsv_stream sv))\<rparr>"

section \<open>Building\<close>

definition effectiveBuildAttributes ::
  "FrozenPlan \<Rightarrow> slot \<Rightarrow> AttrStream \<Rightarrow> PayloadAttributesEvent \<Rightarrow> PayloadAttributesEvent" where
  "effectiveBuildAttributes frozen s es current =
     (if \<not> rb_ReorgParentPayload (fp_Build frozen) then current
      else if s = 0 then current
      else case GetLatestPayloadAttributes (s - 1) es of
        None \<Rightarrow> current
      | Some parentAttrs \<Rightarrow>
          if pa_ParentBlockHash parentAttrs = pa_ParentBlockHash current then current
          else current\<lparr>pa_ParentBlockHash := pa_ParentBlockHash parentAttrs,
                 pa_ParentBlockNumber := pa_ParentBlockNumber parentAttrs, pa_Withdrawals := pa_Withdrawals parentAttrs\<rparr>)"

text \<open>\<open>executeBuildForSlot\<close> up to the call of the payload builder, which takes the build slot.\<close>

definition start_build :: "'t service_env \<Rightarrow> Config \<Rightarrow> gotime \<Rightarrow> slot \<Rightarrow> BuildService \<Rightarrow> BuildService" where
  "start_build env cfg now s sv =
     (case GetLatestPayloadAttributes s (bsv_stream sv) of None \<Rightarrow> sv
      | Some event \<Rightarrow>
          (let (frozen, sv) = service_Freeze env cfg now s sv;
               event = effectiveBuildAttributes frozen s (bsv_stream sv) event;
               sv = fire_event (BuildStarted s now) sv
           in sv\<lparr>bsv_builder := begin_build (pa_ProposalSlot event) (bsv_nextCtx sv) (bsv_builder sv),
                 bsv_running := bsv_running sv @
                   [\<lparr>rn_slot = s, rn_attrs = event, rn_ctx = bsv_nextCtx sv, rn_waited = None\<rparr>],
                 bsv_nextCtx := Suc (bsv_nextCtx sv)\<rparr>))"

text \<open>The wait for the execution client ends, by its timer or because the context is done.\<close>

definition end_wait :: "bool \<Rightarrow> PayloadBuilder \<Rightarrow> running_build \<Rightarrow> running_build" where
  "end_wait deadline b r = r\<lparr>rn_waited := Some (deadline \<or> rn_ctx r \<in> pb_cancelled b)\<rparr>"

definition applyPayloadTransform :: "'t service_env \<Rightarrow> FrozenPlan \<Rightarrow> build_payload \<Rightarrow> exec_error + build_payload" where
  "applyPayloadTransform env frozen p =
     (case fp_Transforms frozen of None \<Rightarrow> Inr p
      | Some transforms \<Rightarrow>
          if rt_Payload transforms = '''' then Inr p
          else (case sve_jqPayload env (rt_Payload transforms) (bd_ExecutionPayload (p_build p)) of
            None \<Rightarrow> Inl TransformRejected
          | Some transformed \<Rightarrow> Inr (p\<lparr>p_build := (p_build p)\<lparr>bd_ExecutionPayload := transformed\<rparr>,
                                      p_BlockHash := pb_BlockHash (ep_Body transformed)\<rparr>)))"

definition keepWonPayloads :: nat where
  "keepWonPayloads = 10"

text \<open>The oldest entry of the scan in iteration order, and the loop that removes it.\<close>

fun oldest_won :: "(hash32 \<times> slot) option \<Rightarrow> (hash32 \<times> slot) list \<Rightarrow> (hash32 \<times> slot) option" where
  "oldest_won best [] = best"
| "oldest_won best ((h, s) # es) =
     oldest_won (case best of None \<Rightarrow> Some (h, s) | Some (bh, bs) \<Rightarrow> if s < bs then Some (h, s) else best) es"

fun trim_won :: "nat \<Rightarrow> (hash32 list \<Rightarrow> hash32 list) \<Rightarrow> (hash32 \<times> slot) list \<Rightarrow> (hash32 \<times> slot) list" where
  "trim_won 0 ord m = m"
| "trim_won (Suc n) ord m =
     (if length m > keepWonPayloads
      then (case oldest_won None (map (\<lambda>h. (h, the (map_of m h))) (ord (map fst m))) of
              None \<Rightarrow> m
            | Some (h, s) \<Rightarrow> trim_won n ord (AList.delete h m))
      else m)"

definition cleanup_old :: "'t service_env \<Rightarrow> slot \<Rightarrow> BuildService \<Rightarrow> BuildService" where
  "cleanup_old env s sv =
     (if s > 64
      then sv\<lparr>bsv_cache := cache_Cleanup (s - 64) (bsv_cache sv),
              bsv_stream := CleanupPayloadAttributesCache (s - 64) (bsv_stream sv),
              bsv_buildStartedSlots := {x \<in> bsv_buildStartedSlots sv. \<not> x < s - 64},
              bsv_wonPayloads := trim_won (length (bsv_wonPayloads sv)) (sve_wonOrder env) (bsv_wonPayloads sv)\<rparr>
      else sv)"

definition built_stat :: "BuilderStats \<Rightarrow> BuilderStats" where
  "built_stat st = st\<lparr>bst_SlotsBuilt := bst_SlotsBuilt st + 1\<rparr>"

text \<open>\<open>None\<close> when storing the payload does not return.\<close>

definition emitPayloadReady :: "'t service_env \<Rightarrow> slot \<Rightarrow> build_payload \<Rightarrow> BuildService \<Rightarrow> BuildService option" where
  "emitPayloadReady env s p sv =
     (let ref = bsv_nextRef sv; h = (bsv_heap sv)(ref := p) in
      map_option (\<lambda>cache.
         cleanup_old env s (fire_event (BuildReady s ref)
           (sv\<lparr>bsv_heap := h, bsv_nextRef := Suc ref, bsv_cache := cache, bsv_planSvc := OnSlotBuilt s (bsv_planSvc sv),
               bsv_lastBuiltSlot := s, bsv_stats := built_stat (bsv_stats sv)\<rparr>)))
        (cache_Store (sve_order env) h ref (bsv_cache sv)))"

text \<open>The payload id is noted once the client returned it, and the build slot freed at the end.\<close>

definition close_build ::
  "ChainSpec \<Rightarrow> address20 \<Rightarrow> settings_resolver list \<Rightarrow> build_calls \<Rightarrow> PayloadAttributesEvent \<Rightarrow> PayloadBuilder \<Rightarrow> PayloadBuilder" where
  "close_build spec feeRecipient resolvers calls attrs b =
     end_build (pa_ProposalSlot attrs)
       (case request_build spec feeRecipient resolvers calls attrs of
          Inl _ \<Rightarrow> b
        | Inr (v, fork, rcpt, pid) \<Rightarrow> note_payload_id (pa_ProposalSlot attrs) pid b)"

definition finish_build ::
  "'t service_env \<Rightarrow> Config \<Rightarrow> gotime \<Rightarrow> settings_resolver list \<Rightarrow> build_calls \<Rightarrow> running_build \<Rightarrow> BuildService \<Rightarrow> BuildService option" where
  "finish_build env cfg now resolvers calls r sv =
     (let s = rn_slot r;
          result = BuildPayloadFromAttributes (sve_lib env) (sve_spec env) cfg (sve_feeRecipient env) resolvers
                     (calls\<lparr>call_aborted := the (rn_waited r)\<rparr>) (rn_attrs r);
          sv = sv\<lparr>bsv_builder := close_build (sve_spec env) (sve_feeRecipient env) resolvers calls (rn_attrs r) (bsv_builder sv)\<rparr>
      in case result of
           Inl e \<Rightarrow> Some (fire_event (BuildFailed s (BuildFailedWith e) now) sv)
         | Inr p \<Rightarrow>
             (case service_Freeze env cfg now s sv of (frozen, sv) \<Rightarrow>
              case applyPayloadTransform env frozen p of
                Inl e \<Rightarrow> Some (fire_event (BuildFailed s e now) sv)
              | Inr p \<Rightarrow> emitPayloadReady env s p sv))"

section \<open>Steps\<close>

datatype build_op =
    OpReceive PayloadAttributesEvent
  | OpAttributes PayloadAttributesEvent
  | OpHead "hash32 option"
  | OpAvailable slot hash32
  | OpJob nat
  | OpWait nat bool
  | OpFinish nat "settings_resolver list" build_calls
  | OpAbort slot
  | OpActivity activity_op
  | OpPlanSvc plan_op
  | OpStopBuilder

definition remove_at :: "nat \<Rightarrow> 'a list \<Rightarrow> 'a list" where
  "remove_at n xs = take n xs @ drop (Suc n) xs"

definition run_job :: "'t service_env \<Rightarrow> Config \<Rightarrow> gotime \<Rightarrow> build_job \<Rightarrow> BuildService \<Rightarrow> BuildService" where
  "run_job env cfg now j sv =
     (case j of
        JobBuild s \<Rightarrow> start_build env cfg now s sv
      | JobFallback s \<Rightarrow> applyAttributesFallback env now s sv
      | JobInject event \<Rightarrow> inject event sv)"

fun build_step :: "'t service_env \<Rightarrow> Config \<times> gotime \<times> build_op \<Rightarrow> BuildService \<Rightarrow> BuildService option" where
  "build_step env (cfg, now, OpReceive event) sv = Some (sv\<lparr>bsv_stream := received_attributes event (bsv_stream sv)\<rparr>)"
| "build_step env (cfg, now, OpAttributes event) sv =
     Some (if bsv_stopped sv then sv else handlePayloadAttributesEvent env cfg now event sv)"
| "build_step env (cfg, now, OpHead info) sv = Some (if bsv_stopped sv then sv else checkPayloadInclusion env info sv)"
| "build_step env (cfg, now, OpAvailable s r) sv = Some (if bsv_stopped sv then sv else handlePayloadAvailableEvent s r sv)"
| "build_step env (cfg, now, OpJob n) sv =
     Some (if n < length (bsv_jobs sv) \<and> fst (bsv_jobs sv ! n) \<le> now
           then run_job env cfg now (snd (bsv_jobs sv ! n)) (sv\<lparr>bsv_jobs := remove_at n (bsv_jobs sv)\<rparr>)
           else sv)"
| "build_step env (cfg, now, OpWait n deadline) sv =
     Some (if n < length (bsv_running sv)
           then sv\<lparr>bsv_running := (bsv_running sv)[n := end_wait deadline (bsv_builder sv) (bsv_running sv ! n)]\<rparr>
           else sv)"
| "build_step env (cfg, now, OpFinish n resolvers calls) sv =
     (if n < length (bsv_running sv) \<and> rn_waited (bsv_running sv ! n) \<noteq> None
      then finish_build env cfg now resolvers calls (bsv_running sv ! n) (sv\<lparr>bsv_running := remove_at n (bsv_running sv)\<rparr>)
      else Some sv)"
| "build_step env (cfg, now, OpAbort s) sv = Some (sv\<lparr>bsv_builder := AbortBuild s (bsv_builder sv)\<rparr>)"
| "build_step env (cfg, now, OpActivity a) sv = Some (sv\<lparr>bsv_heap := activity_step a (bsv_heap sv)\<rparr>)"
| "build_step env (cfg, now, OpPlanSvc pop) sv = Some (sv\<lparr>bsv_planSvc := plan_step (sve_spec env) pop (bsv_planSvc sv)\<rparr>)"
| "build_step env (cfg, now, OpStopBuilder) sv = Some (sv\<lparr>bsv_stopped := True\<rparr>)"

fun build_run :: "'t service_env \<Rightarrow> (Config \<times> gotime \<times> build_op) list \<Rightarrow> BuildService \<Rightarrow> BuildService option" where
  "build_run env [] sv = Some sv"
| "build_run env (op # ops) sv = (case build_step env op sv of None \<Rightarrow> None | Some sv' \<Rightarrow> build_run env ops sv')"

end
