(* ===== verification/Build_Facts.thy ===== *)
theory Build_Facts
  imports Build_Service
begin

text \<open>
  Properties of the builder service over arbitrary interleavings of its handlers, timers and builds: one build per slot
  with one outcome, skips reported once, the origin of the attributes a build uses, and the agreement of a ready payload
  with the bid and the envelope made from it.
\<close>

section \<open>Frames\<close>

lemma length_filter_remove_at:
  "n < length xs \<Longrightarrow> length (filter P xs) = length (filter P (remove_at n xs)) + (if P (xs ! n) then 1 else 0)"
  by (subst id_take_nth_drop [of n xs]) (simp_all add: remove_at_def del: append_take_drop_id)

lemma set_remove_at: "x \<in> set (remove_at n xs) \<Longrightarrow> x \<in> set xs"
  by (auto simp: remove_at_def dest: in_set_takeD in_set_dropD)

lemma markPayloadWon_frame [simp]:
  "bsv_events (markPayloadWon h s sv) = bsv_events sv" "bsv_jobs (markPayloadWon h s sv) = bsv_jobs sv"
  "bsv_running (markPayloadWon h s sv) = bsv_running sv" "bsv_heap (markPayloadWon h s sv) = bsv_heap sv"
  "bsv_buildStartedSlots (markPayloadWon h s sv) = bsv_buildStartedSlots sv"
  "bsv_skipFiredSlots (markPayloadWon h s sv) = bsv_skipFiredSlots sv" "bsv_cache (markPayloadWon h s sv) = bsv_cache sv"
  "bsv_stream (markPayloadWon h s sv) = bsv_stream sv" "bsv_planSvc (markPayloadWon h s sv) = bsv_planSvc sv"
  "bsv_nextRef (markPayloadWon h s sv) = bsv_nextRef sv"
  by (simp_all add: markPayloadWon_def)

lemma mark_if_ours_frame [simp]:
  "bsv_events (mark_if_ours env h sv) = bsv_events sv" "bsv_jobs (mark_if_ours env h sv) = bsv_jobs sv"
  "bsv_running (mark_if_ours env h sv) = bsv_running sv" "bsv_heap (mark_if_ours env h sv) = bsv_heap sv"
  "bsv_buildStartedSlots (mark_if_ours env h sv) = bsv_buildStartedSlots sv"
  "bsv_skipFiredSlots (mark_if_ours env h sv) = bsv_skipFiredSlots sv" "bsv_cache (mark_if_ours env h sv) = bsv_cache sv"
  "bsv_stream (mark_if_ours env h sv) = bsv_stream sv" "bsv_planSvc (mark_if_ours env h sv) = bsv_planSvc sv"
  "bsv_nextRef (mark_if_ours env h sv) = bsv_nextRef sv"
  by (simp_all add: mark_if_ours_def split: option.split)

lemma scheduleAttributesFallback_frame [simp]:
  "bsv_events (scheduleAttributesFallback env cfg now t sv) = bsv_events sv"
  "bsv_running (scheduleAttributesFallback env cfg now t sv) = bsv_running sv"
  "bsv_heap (scheduleAttributesFallback env cfg now t sv) = bsv_heap sv"
  "bsv_cache (scheduleAttributesFallback env cfg now t sv) = bsv_cache sv"
  "bsv_buildStartedSlots (scheduleAttributesFallback env cfg now t sv) = bsv_buildStartedSlots sv"
  "bsv_skipFiredSlots (scheduleAttributesFallback env cfg now t sv) = bsv_skipFiredSlots sv"
  "bsv_stream (scheduleAttributesFallback env cfg now t sv) = bsv_stream sv"
  "bsv_planSvc (scheduleAttributesFallback env cfg now t sv) = bsv_planSvc sv"
  "bsv_nextRef (scheduleAttributesFallback env cfg now t sv) = bsv_nextRef sv"
  by (simp_all add: scheduleAttributesFallback_def Let_def)

lemma service_Freeze_frame [simp]:
  "bsv_events (snd (service_Freeze env cfg now t sv)) = bsv_events sv"
  "bsv_running (snd (service_Freeze env cfg now t sv)) = bsv_running sv"
  "bsv_jobs (snd (service_Freeze env cfg now t sv)) = bsv_jobs sv"
  "bsv_heap (snd (service_Freeze env cfg now t sv)) = bsv_heap sv"
  "bsv_cache (snd (service_Freeze env cfg now t sv)) = bsv_cache sv"
  "bsv_buildStartedSlots (snd (service_Freeze env cfg now t sv)) = bsv_buildStartedSlots sv"
  "bsv_skipFiredSlots (snd (service_Freeze env cfg now t sv)) = bsv_skipFiredSlots sv"
  "bsv_stream (snd (service_Freeze env cfg now t sv)) = bsv_stream sv"
  "bsv_nextRef (snd (service_Freeze env cfg now t sv)) = bsv_nextRef sv"
  "bsv_planSvc (snd (service_Freeze env cfg now t sv)) = snd (Freeze (sve_spec env) cfg now t (bsv_planSvc sv))"
  "fst (service_Freeze env cfg now t sv) = fst (Freeze (sve_spec env) cfg now t (bsv_planSvc sv))"
  by (simp_all add: service_Freeze_def case_prod_beta)

lemma cleanup_old_frame [simp]:
  "bsv_events (cleanup_old env s sv) = bsv_events sv" "bsv_jobs (cleanup_old env s sv) = bsv_jobs sv"
  "bsv_running (cleanup_old env s sv) = bsv_running sv" "bsv_heap (cleanup_old env s sv) = bsv_heap sv"
  "bsv_skipFiredSlots (cleanup_old env s sv) = bsv_skipFiredSlots sv" "bsv_planSvc (cleanup_old env s sv) = bsv_planSvc sv"
  "bsv_nextRef (cleanup_old env s sv) = bsv_nextRef sv"
  by (simp_all add: cleanup_old_def)

lemma fire_event_frame [simp]:
  "bsv_events (fire_event e sv) = bsv_events sv @ [e]" "bsv_jobs (fire_event e sv) = bsv_jobs sv"
  "bsv_running (fire_event e sv) = bsv_running sv" "bsv_heap (fire_event e sv) = bsv_heap sv"
  "bsv_buildStartedSlots (fire_event e sv) = bsv_buildStartedSlots sv" "bsv_skipFiredSlots (fire_event e sv) = bsv_skipFiredSlots sv"
  "bsv_planSvc (fire_event e sv) = bsv_planSvc sv" "bsv_stream (fire_event e sv) = bsv_stream sv"
  "bsv_cache (fire_event e sv) = bsv_cache sv" "bsv_nextRef (fire_event e sv) = bsv_nextRef sv"
  by (simp_all add: fire_event_def)

lemma scheduleBuildForSlot_frame [simp]:
  "bsv_events (scheduleBuildForSlot env now s ms sv) = bsv_events sv"
  "bsv_running (scheduleBuildForSlot env now s ms sv) = bsv_running sv"
  "bsv_heap (scheduleBuildForSlot env now s ms sv) = bsv_heap sv" "bsv_cache (scheduleBuildForSlot env now s ms sv) = bsv_cache sv"
  "bsv_buildStartedSlots (scheduleBuildForSlot env now s ms sv) = bsv_buildStartedSlots sv"
  "bsv_skipFiredSlots (scheduleBuildForSlot env now s ms sv) = bsv_skipFiredSlots sv"
  "bsv_planSvc (scheduleBuildForSlot env now s ms sv) = bsv_planSvc sv"
  "bsv_stream (scheduleBuildForSlot env now s ms sv) = bsv_stream sv"
  "bsv_nextRef (scheduleBuildForSlot env now s ms sv) = bsv_nextRef sv"
  "map snd (bsv_jobs (scheduleBuildForSlot env now s ms sv)) = map snd (bsv_jobs sv) @ [JobBuild s]"
  by (simp_all add: scheduleBuildForSlot_def Let_def)

lemma applyAttributesFallback_frame [simp]:
  "bsv_events (applyAttributesFallback env now s sv) = bsv_events sv" "bsv_stream (applyAttributesFallback env now s sv) = bsv_stream sv"
  "bsv_running (applyAttributesFallback env now s sv) = bsv_running sv" "bsv_heap (applyAttributesFallback env now s sv) = bsv_heap sv"
  "bsv_cache (applyAttributesFallback env now s sv) = bsv_cache sv"
  "bsv_buildStartedSlots (applyAttributesFallback env now s sv) = bsv_buildStartedSlots sv"
  "bsv_skipFiredSlots (applyAttributesFallback env now s sv) = bsv_skipFiredSlots sv"
  "bsv_planSvc (applyAttributesFallback env now s sv) = bsv_planSvc sv"
  "bsv_nextRef (applyAttributesFallback env now s sv) = bsv_nextRef sv"
  by (simp_all add: applyAttributesFallback_def split: option.split)

lemma inject_frame [simp]:
  "bsv_events (inject e sv) = bsv_events sv" "bsv_jobs (inject e sv) = bsv_jobs sv"
  "bsv_running (inject e sv) = bsv_running sv" "bsv_heap (inject e sv) = bsv_heap sv" "bsv_cache (inject e sv) = bsv_cache sv"
  "bsv_buildStartedSlots (inject e sv) = bsv_buildStartedSlots sv" "bsv_skipFiredSlots (inject e sv) = bsv_skipFiredSlots sv"
  "bsv_planSvc (inject e sv) = bsv_planSvc sv" "bsv_nextRef (inject e sv) = bsv_nextRef sv"
  by (simp_all add: inject_def)

section \<open>Counting\<close>

fun starts_build :: "slot \<Rightarrow> build_event \<Rightarrow> bool" where
  "starts_build s (BuildStarted t _) = (t = s)"
| "starts_build s _ = False"

fun ends_build :: "slot \<Rightarrow> build_event \<Rightarrow> bool" where
  "ends_build s (BuildReady t _) = (t = s)"
| "ends_build s (BuildFailed t _ _) = (t = s)"
| "ends_build s _ = False"

fun skips_build :: "slot \<Rightarrow> build_event \<Rightarrow> bool" where
  "skips_build s (BuildSkipped t _) = (t = s)"
| "skips_build s _ = False"

text \<open>A payload (a skip) of a slot more than 64 later has made the service forget the slot.\<close>

fun forgets_build :: "slot \<Rightarrow> build_event \<Rightarrow> bool" where
  "forgets_build s (BuildReady r _) = (64 < r \<and> s < r - 64)"
| "forgets_build s _ = False"

fun forgets_skip :: "slot \<Rightarrow> build_event \<Rightarrow> bool" where
  "forgets_skip s (BuildSkipped r _) = (64 < r \<and> s < r - 64)"
| "forgets_skip s _ = False"

definition occurrences :: "(build_event \<Rightarrow> bool) \<Rightarrow> BuildService \<Rightarrow> nat" where
  "occurrences P sv = length (filter P (bsv_events sv))"

definition jobs_for :: "slot \<Rightarrow> BuildService \<Rightarrow> nat" where
  "jobs_for s sv = length (filter (\<lambda>j. j = JobBuild s) (map snd (bsv_jobs sv)))"

definition running_for :: "slot \<Rightarrow> BuildService \<Rightarrow> nat" where
  "running_for s sv = length (filter (\<lambda>r. rn_slot r = s) (bsv_running sv))"

lemma occurrences_fire [simp]: "occurrences P (fire_event e sv) = occurrences P sv + (if P e then 1 else 0)"
  by (simp add: occurrences_def)

text \<open>The bookkeeping of one slot.\<close>

definition slot_counted :: "slot \<Rightarrow> BuildService \<Rightarrow> bool" where
  "slot_counted s sv \<longleftrightarrow>
     occurrences (starts_build s) sv = occurrences (ends_build s) sv + running_for s sv \<and>
     (occurrences (forgets_build s) sv = 0 \<longrightarrow>
        occurrences (starts_build s) sv + jobs_for s sv \<le> (if s \<in> bsv_buildStartedSlots sv then 1 else 0)) \<and>
     (occurrences (forgets_skip s) sv = 0 \<longrightarrow>
        occurrences (skips_build s) sv \<le> (if s \<in> bsv_skipFiredSlots sv then 1 else 0))"

lemma slot_counted_frame:
  assumes "slot_counted s sv" "bsv_events sv' = bsv_events sv" "jobs_for s sv' \<le> jobs_for s sv" "running_for s sv' = running_for s sv"
    "bsv_buildStartedSlots sv' = bsv_buildStartedSlots sv" "bsv_skipFiredSlots sv' = bsv_skipFiredSlots sv"
  shows "slot_counted s sv'"
  using assms unfolding slot_counted_def occurrences_def by auto

lemma running_for_map: "map rn_slot (bsv_running sv') = map rn_slot (bsv_running sv) \<Longrightarrow> running_for s sv' = running_for s sv"
proof -
  have "running_for s sv = length (filter (\<lambda>x. x = s) (map rn_slot (bsv_running sv)))" for sv
    by (simp add: running_for_def filter_map o_def)
  then show "map rn_slot (bsv_running sv') = map rn_slot (bsv_running sv) \<Longrightarrow> running_for s sv' = running_for s sv" by metis
qed

lemmas same_counts = jobs_for_def running_for_def

lemma prune_slots_current: "s \<in> prune_slots s (insert s S)"
  by (auto simp: prune_slots_def word_less_nat_alt unat_sub_if')

lemma counted_skip:
  assumes "slot_counted s sv"
  shows "slot_counted s (fireBuildSkipped t build sv)"
proof (cases "rb_PlanInvolved build \<and> t \<notin> bsv_skipFiredSlots sv")
  case True
  let ?sv = "fireBuildSkipped t build sv"
  have e: "bsv_events ?sv = bsv_events sv @ [BuildSkipped t (rb_SkipReason build)]"
    "bsv_skipFiredSlots ?sv = prune_slots t (insert t (bsv_skipFiredSlots sv))"
    "bsv_jobs ?sv = bsv_jobs sv" "bsv_running ?sv = bsv_running sv" "bsv_buildStartedSlots ?sv = bsv_buildStartedSlots sv"
    using True by (simp_all add: fireBuildSkipped_def)
  have kept: "s \<in> prune_slots t (insert t (bsv_skipFiredSlots sv))" if "\<not> (64 < t \<and> s < t - 64)" "s \<in> bsv_skipFiredSlots sv"
    using that by (auto simp: prune_slots_def)
  have keeps: "s \<in> bsv_skipFiredSlots ?sv" if "occurrences (forgets_skip s) ?sv = 0" "s = t \<or> s \<in> bsv_skipFiredSlots sv"
    using that kept prune_slots_current [of t] by (cases "s = t") (auto simp: e occurrences_def split: if_splits)
  have count: "occurrences (skips_build s) ?sv = occurrences (skips_build s) sv + (if s = t then 1 else 0)"
    "occurrences (forgets_skip s) ?sv = 0 \<Longrightarrow> occurrences (forgets_skip s) sv = 0"
    "occurrences (starts_build s) ?sv = occurrences (starts_build s) sv" "occurrences (ends_build s) ?sv = occurrences (ends_build s) sv"
    "occurrences (forgets_build s) ?sv = occurrences (forgets_build s) sv"
    by (simp_all add: occurrences_def e split: if_splits)
  have "occurrences (skips_build s) ?sv \<le> (if s \<in> bsv_skipFiredSlots ?sv then 1 else 0)" if z: "occurrences (forgets_skip s) ?sv = 0"
  proof -
    have "occurrences (skips_build s) sv \<le> (if s \<in> bsv_skipFiredSlots sv then 1 else 0)"
      using assms count(2) [OF z] unfolding slot_counted_def by simp
    then show ?thesis using keeps [OF z] True count(1) by (cases "s = t") (auto split: if_splits)
  qed
  moreover have "jobs_for s ?sv = jobs_for s sv" "running_for s ?sv = running_for s sv" by (simp_all add: same_counts e)
  ultimately show ?thesis using assms unfolding slot_counted_def count(3-5) e(5) by auto
qed (use assms in \<open>auto simp: fireBuildSkipped_def\<close>)

lemma jobs_for_fallback [simp]: "jobs_for s (scheduleAttributesFallback env cfg now t sv) = jobs_for s sv"
  by (simp add: scheduleAttributesFallback_def jobs_for_def Let_def)

lemma jobs_for_frame [simp]:
  "jobs_for s (scheduleBuildForSlot env now t ms sv) = jobs_for s sv + (if s = t then 1 else 0)"
  "jobs_for s (mark_if_ours env h sv) = jobs_for s sv" "jobs_for s (snd (service_Freeze env cfg now t sv)) = jobs_for s sv"
  "jobs_for s (applyAttributesFallback env now t sv) = jobs_for s sv" "jobs_for s (inject ev sv) = jobs_for s sv"
  "jobs_for s (fire_event e sv) = jobs_for s sv"
  "jobs_for s (sv\<lparr>bsv_buildStartedSlots := x\<rparr>) = jobs_for s sv" "jobs_for s (sv\<lparr>bsv_skipFiredSlots := x\<rparr>) = jobs_for s sv"
  "jobs_for s (sv\<lparr>bsv_running := y\<rparr>) = jobs_for s sv"
  by (auto simp: jobs_for_def scheduleBuildForSlot_def applyAttributesFallback_def Let_def split: option.split)

lemma counted_decide:
  assumes "slot_counted s sv"
  shows "slot_counted s (decide_build env now t build sv)"
proof (cases "rb_Build build \<and> t \<notin> bsv_buildStartedSlots sv")
  case True
  then show ?thesis using assms
    by (cases "s = t") (auto simp: decide_build_def slot_counted_def occurrences_def jobs_for_def running_for_def)
next
  case False
  then show ?thesis using assms counted_skip [OF assms] by (auto simp: decide_build_def)
qed

lemma counted_attributes:
  assumes "slot_counted s sv"
  shows "slot_counted s (handlePayloadAttributesEvent env cfg now event sv)"
proof -
  let ?sv = "snd (service_Freeze env cfg now (pa_ProposalSlot event)
    (scheduleAttributesFallback env cfg now (pa_ProposalSlot event + 1) (mark_if_ours env (pa_ParentBlockHash event) sv)))"
  have "slot_counted s ?sv" by (intro slot_counted_frame [OF assms]) (simp_all add: running_for_def)
  from counted_decide [OF this] show ?thesis by (simp add: handlePayloadAttributesEvent_def Let_def case_prod_beta)
qed

lemma start_build_cases:
  "start_build env cfg now t sv = sv \<or>
     (\<exists>r. bsv_events (start_build env cfg now t sv) = bsv_events sv @ [BuildStarted t now] \<and>
        bsv_running (start_build env cfg now t sv) = bsv_running sv @ [r] \<and> rn_slot r = t \<and>
        bsv_jobs (start_build env cfg now t sv) = bsv_jobs sv \<and>
        bsv_buildStartedSlots (start_build env cfg now t sv) = bsv_buildStartedSlots sv \<and>
        bsv_skipFiredSlots (start_build env cfg now t sv) = bsv_skipFiredSlots sv)"
  by (simp add: start_build_def Let_def case_prod_beta split: option.split)

lemma jobs_for_same: "bsv_jobs sv' = bsv_jobs sv \<Longrightarrow> jobs_for s sv' = jobs_for s sv"
  by (simp add: jobs_for_def)

lemma counted_started:
  assumes "slot_counted s sv" "bsv_events sv' = bsv_events sv @ [BuildStarted t now]" "bsv_running sv' = bsv_running sv @ [r]" "rn_slot r = t"
    "bsv_buildStartedSlots sv' = bsv_buildStartedSlots sv" "bsv_skipFiredSlots sv' = bsv_skipFiredSlots sv"
    "jobs_for s sv' + (if s = t then 1 else 0) \<le> jobs_for s sv"
  shows "slot_counted s sv'"
proof -
  have "occurrences (starts_build s) sv' = occurrences (starts_build s) sv + (if s = t then 1 else 0)"
    "occurrences (ends_build s) sv' = occurrences (ends_build s) sv" "occurrences (skips_build s) sv' = occurrences (skips_build s) sv"
    "occurrences (forgets_build s) sv' = occurrences (forgets_build s) sv" "occurrences (forgets_skip s) sv' = occurrences (forgets_skip s) sv"
    "running_for s sv' = running_for s sv + (if s = t then 1 else 0)"
    using assms(2-4) by (simp_all add: occurrences_def running_for_def)
  then show ?thesis
    using assms(1,5-7) unfolding slot_counted_def by (cases "s = t") auto
qed

lemma counted_job:
  assumes "slot_counted s sv" "n < length (bsv_jobs sv)"
  shows "slot_counted s (run_job env cfg now (snd (bsv_jobs sv ! n)) (sv\<lparr>bsv_jobs := remove_at n (bsv_jobs sv)\<rparr>))"
proof -
  have j: "jobs_for s sv = jobs_for s (sv\<lparr>bsv_jobs := remove_at n (bsv_jobs sv)\<rparr>) + (if snd (bsv_jobs sv ! n) = JobBuild s then 1 else 0)"
    using length_filter_remove_at [of n "bsv_jobs sv" "\<lambda>j. snd j = JobBuild s"] assms(2)
    by (simp add: jobs_for_def filter_map o_def)
  show ?thesis
  proof (cases "snd (bsv_jobs sv ! n)")
    case (JobFallback t)
    then show ?thesis
      by (simp add: run_job_def) (rule slot_counted_frame [OF assms(1)], simp_all add: running_for_def j)
  next
    case (JobInject e)
    then show ?thesis
      by (simp add: run_job_def) (rule slot_counted_frame [OF assms(1)], simp_all add: running_for_def j)
  next
    case (JobBuild t)
    let ?sv = "sv\<lparr>bsv_jobs := remove_at n (bsv_jobs sv)\<rparr>"
    have "slot_counted s ?sv" by (rule slot_counted_frame [OF assms(1)]) (simp_all add: j running_for_def)
    moreover have "slot_counted s (start_build env cfg now t ?sv)" if "start_build env cfg now t ?sv \<noteq> ?sv"
      using start_build_cases [of env cfg now t ?sv] that
    proof (elim disjE exE conjE)
      fix r
      assume new: "bsv_events (start_build env cfg now t ?sv) = bsv_events ?sv @ [BuildStarted t now]"
        "bsv_running (start_build env cfg now t ?sv) = bsv_running ?sv @ [r]" "rn_slot r = t"
        "bsv_jobs (start_build env cfg now t ?sv) = bsv_jobs ?sv"
        "bsv_buildStartedSlots (start_build env cfg now t ?sv) = bsv_buildStartedSlots ?sv"
        "bsv_skipFiredSlots (start_build env cfg now t ?sv) = bsv_skipFiredSlots ?sv"
      have "jobs_for s (start_build env cfg now t ?sv) + (if s = t then 1 else 0) \<le> jobs_for s sv"
        using j JobBuild by (simp add: jobs_for_same [OF new(4)])
      then show ?thesis using new by (intro counted_started [OF assms(1)]) simp_all
    qed simp
    ultimately show ?thesis unfolding JobBuild run_job_def build_job.case by metis
  qed
qed

lemma counted_emit:
  assumes "emitPayloadReady env t p sv = Some sv'" "slot_counted s (sv\<lparr>bsv_running := r # bsv_running sv\<rparr>)" "rn_slot r = t"
  shows "slot_counted s sv'"
proof -
  have e: "bsv_events sv' = bsv_events sv @ [BuildReady t (bsv_nextRef sv)]" "bsv_jobs sv' = bsv_jobs sv"
    "bsv_running sv' = bsv_running sv" "bsv_skipFiredSlots sv' = bsv_skipFiredSlots sv"
    "bsv_buildStartedSlots sv' = (if 64 < t then {x \<in> bsv_buildStartedSlots sv. \<not> x < t - 64} else bsv_buildStartedSlots sv)"
    using assms(1) by (auto simp: emitPayloadReady_def Let_def) (auto simp: cleanup_old_def)
  show ?thesis using assms(2,3)
    by (cases "s = t") (auto simp: slot_counted_def occurrences_def jobs_for_def running_for_def e)
qed

lemma counted_failed:
  assumes "slot_counted s (sv\<lparr>bsv_running := r # bsv_running sv\<rparr>)" "rn_slot r = t"
  shows "slot_counted s (fire_event (BuildFailed t e now) sv)"
  using assms by (cases "s = t") (auto simp: slot_counted_def occurrences_def jobs_for_def running_for_def)

lemma counted_finish:
  assumes "finish_build env cfg now resolvers calls r sv = Some sv'" "slot_counted s (sv\<lparr>bsv_running := r # bsv_running sv\<rparr>)"
  shows "slot_counted s sv'"
proof -
  define sv0 where "sv0 = sv\<lparr>bsv_builder := close_build (sve_spec env) (sve_feeRecipient env) resolvers calls (rn_attrs r) (bsv_builder sv)\<rparr>"
  define sv1 where "sv1 = snd (service_Freeze env cfg now (rn_slot r) sv0)"
  have c: "slot_counted s (sv0\<lparr>bsv_running := r # bsv_running sv0\<rparr>)" "slot_counted s (sv1\<lparr>bsv_running := r # bsv_running sv1\<rparr>)"
    unfolding sv1_def sv0_def by (rule slot_counted_frame [OF assms(2)]; simp add: same_counts)+
  consider e where "sv' = fire_event (BuildFailed (rn_slot r) e now) sv0" | e where "sv' = fire_event (BuildFailed (rn_slot r) e now) sv1"
    | p where "emitPayloadReady env (rn_slot r) p sv1 = Some sv'"
    using assms(1) unfolding finish_build_def Let_def sv1_def sv0_def case_prod_beta by (auto split: sum.splits)
  then show ?thesis
    using c counted_failed counted_emit by cases blast+
qed

lemma counted_step:
  assumes "build_step env op sv = Some sv'" "slot_counted s sv"
  shows "slot_counted s sv'"
proof -
  obtain cfg now bop where op: "op = (cfg, now, bop)" by (cases op)
  show ?thesis
  proof (cases bop)
    case (OpAttributes event)
    then show ?thesis using assms counted_attributes [OF assms(2)] by (auto simp: op split: if_splits)
  next
    case (OpJob n)
    then show ?thesis using assms counted_job [OF assms(2), of n] by (auto simp: op split: if_splits)
  next
    case (OpFinish n resolvers calls)
    show ?thesis
    proof (cases "n < length (bsv_running sv) \<and> rn_waited (bsv_running sv ! n) \<noteq> None")
      case True
      let ?sv = "sv\<lparr>bsv_running := remove_at n (bsv_running sv)\<rparr>"
      have "slot_counted s (?sv\<lparr>bsv_running := bsv_running sv ! n # bsv_running ?sv\<rparr>)"
        by (rule slot_counted_frame [OF assms(2)])
           (use True length_filter_remove_at [of n "bsv_running sv" "\<lambda>r. rn_slot r = s"] in \<open>simp_all add: same_counts\<close>)
      then show ?thesis using assms(1) True by (auto simp: op OpFinish elim: counted_finish)
    qed (use assms in \<open>auto simp: op OpFinish\<close>)
  next
    case (OpWait n deadline)
    have "running_for s (sv\<lparr>bsv_running := (bsv_running sv)[n := end_wait deadline (bsv_builder sv) (bsv_running sv ! n)]\<rparr>) = running_for s sv"
      if "n < length (bsv_running sv)"
      using that by (intro running_for_map) (simp add: map_update end_wait_def list_update_same_conv)
    then have "slot_counted s (sv\<lparr>bsv_running := (bsv_running sv)[n := end_wait deadline (bsv_builder sv) (bsv_running sv ! n)]\<rparr>)"
      if "n < length (bsv_running sv)"
      using that by (intro slot_counted_frame [OF assms(2)]) (simp_all add: jobs_for_def)
    then show ?thesis using assms by (auto simp: op OpWait split: if_splits)
  qed (use assms in \<open>auto simp: op checkPayloadInclusion_def handlePayloadAvailableEvent_def same_counts
         split: if_splits option.splits intro!: slot_counted_frame [OF assms(2)]\<close>)
qed

lemma counted_run: "build_run env ops sv = Some sv' \<Longrightarrow> slot_counted s sv \<Longrightarrow> slot_counted s sv'"
proof (induction ops arbitrary: sv)
  case (Cons op ops)
  then obtain sv1 where "build_step env op sv = Some sv1" "build_run env ops sv1 = Some sv'"
    by (auto split: option.splits)
  then show ?case using Cons.IH Cons.prems(2) counted_step by metis
qed simp

lemma counted_New: "slot_counted s (NewBuildService h ps)"
  by (simp add: slot_counted_def NewBuildService_def occurrences_def jobs_for_def running_for_def)

section \<open>Decisions are final\<close>

text \<open>What later steps keep of the plan of slot \<open>s\<close>.\<close>

definition frozen_kept :: "slot \<Rightarrow> PlanService \<Rightarrow> PlanService \<Rightarrow> bool" where
  "frozen_kept s ps ps' \<longleftrightarrow> (plans_ok ps \<longrightarrow> plans_ok ps' \<and> (\<forall>f. ps_frozen ps s = Some f \<longrightarrow> ps_frozen ps' s = Some f))"

lemma frozen_kept_refl [simp]: "frozen_kept s ps ps"
  by (simp add: frozen_kept_def)

lemma frozen_kept_trans: "frozen_kept s a b \<Longrightarrow> frozen_kept s b c \<Longrightarrow> frozen_kept s a c"
  by (simp add: frozen_kept_def)

lemma plan_step_kept: "op_keeps spec s pop \<Longrightarrow> op_ok pop \<Longrightarrow> frozen_kept s ps (plan_step spec pop ps)"
  using step_keeps_frozen [of ps s _ spec pop] plans_ok_step [of ps pop spec] by (auto simp: frozen_kept_def)

lemma Freeze_kept: "frozen_kept s ps (snd (Freeze spec cfg now t ps))"
  using plan_step_kept [of spec s "OpFreeze cfg now t" ps] by (simp add: op_keeps_def op_ok_def)

lemma OnSlotBuilt_kept: "frozen_kept s ps (OnSlotBuilt t ps)"
  using plan_step_kept [of spec s "OpSlotBuilt t" ps for spec] by (simp add: op_keeps_def op_ok_def)

fun plan_op_keeps :: "'t service_env \<Rightarrow> slot \<Rightarrow> Config \<times> gotime \<times> build_op \<Rightarrow> bool" where
  "plan_op_keeps env s (cfg, now, OpPlanSvc pop) = (op_keeps (sve_spec env) s pop \<and> op_ok pop)"
| "plan_op_keeps env s _ = True"

definition decided :: "slot \<Rightarrow> BuildService \<Rightarrow> bool" where
  "decided s sv \<longleftrightarrow> plans_ok (bsv_planSvc sv) \<and>
     (0 < occurrences (starts_build s) sv + jobs_for s sv \<longrightarrow>
        (\<exists>f. ps_frozen (bsv_planSvc sv) s = Some f \<and> rb_Build (fp_Build f))) \<and>
     (0 < occurrences (skips_build s) sv \<longrightarrow> (\<exists>f. ps_frozen (bsv_planSvc sv) s = Some f \<and> \<not> rb_Build (fp_Build f)))"

lemma decided_frame:
  assumes "decided s sv" "frozen_kept s (bsv_planSvc sv) (bsv_planSvc sv')"
    "occurrences (starts_build s) sv' + jobs_for s sv' \<le> occurrences (starts_build s) sv + jobs_for s sv"
    "occurrences (skips_build s) sv' \<le> occurrences (skips_build s) sv"
  shows "decided s sv'"
  using assms unfolding decided_def frozen_kept_def by (metis (no_types, lifting) less_le_trans)

lemma decided_decide:
  assumes "decided s sv" "ps_frozen (bsv_planSvc sv) t = Some f" "fp_Build f = build"
  shows "decided s (decide_build env now t build sv)"
proof -
  let ?sv = "decide_build env now t build sv"
  have plan: "bsv_planSvc ?sv = bsv_planSvc sv"
    by (simp add: decide_build_def fireBuildSkipped_def)
  show ?thesis
  proof (cases "s = t")
    case False
    have "occurrences (starts_build s) ?sv + jobs_for s ?sv = occurrences (starts_build s) sv + jobs_for s sv"
      "occurrences (skips_build s) ?sv = occurrences (skips_build s) sv"
      using False by (auto simp: decide_build_def fireBuildSkipped_def occurrences_def)
    then show ?thesis by (intro decided_frame [OF assms(1)]) (simp_all add: plan)
  next
    case True
    show ?thesis
    proof (cases "rb_Build build")
      case b: True
      have "occurrences (skips_build s) ?sv = occurrences (skips_build s) sv"
        using b by (simp add: decide_build_def occurrences_def)
      then show ?thesis using assms b True by (simp add: decided_def plan)
    next
      case b: False
      have "occurrences (starts_build s) ?sv + jobs_for s ?sv = occurrences (starts_build s) sv + jobs_for s sv"
        using b by (simp add: decide_build_def fireBuildSkipped_def occurrences_def)
      then show ?thesis using assms b True by (simp add: decided_def plan)
    qed
  qed
qed

lemma decided_attributes:
  assumes "decided s sv"
  shows "decided s (handlePayloadAttributesEvent env cfg now event sv)"
proof -
  let ?base = "scheduleAttributesFallback env cfg now (pa_ProposalSlot event + 1) (mark_if_ours env (pa_ParentBlockHash event) sv)"
  let ?sv = "snd (service_Freeze env cfg now (pa_ProposalSlot event) ?base)"
  have "decided s ?sv"
    by (intro decided_frame [OF assms]) (simp_all add: occurrences_def Freeze_kept)
  moreover have "ps_frozen (bsv_planSvc ?sv) (pa_ProposalSlot event) = Some (fst (service_Freeze env cfg now (pa_ProposalSlot event) ?base))"
    unfolding service_Freeze_frame scheduleAttributesFallback_frame mark_if_ours_frame Freeze_frozen fun_upd_same ..
  ultimately show ?thesis
    by (simp add: handlePayloadAttributesEvent_def Let_def case_prod_beta decided_decide)
qed

lemma start_build_frame:
  "frozen_kept s (bsv_planSvc sv) (bsv_planSvc (start_build env cfg now t sv))"
  "jobs_for s (start_build env cfg now t sv) = jobs_for s sv"
  "occurrences (skips_build s) (start_build env cfg now t sv) = occurrences (skips_build s) sv"
  "occurrences (starts_build s) (start_build env cfg now t sv) \<le> occurrences (starts_build s) sv + (if s = t then 1 else 0)"
  by (simp_all add: start_build_def Let_def case_prod_beta occurrences_def jobs_for_def Freeze_kept split: option.split)

lemma decided_job:
  assumes "decided s sv" "n < length (bsv_jobs sv)"
  shows "decided s (run_job env cfg now (snd (bsv_jobs sv ! n)) (sv\<lparr>bsv_jobs := remove_at n (bsv_jobs sv)\<rparr>))"
proof -
  have j: "jobs_for s sv = jobs_for s (sv\<lparr>bsv_jobs := remove_at n (bsv_jobs sv)\<rparr>) + (if snd (bsv_jobs sv ! n) = JobBuild s then 1 else 0)"
    using length_filter_remove_at [of n "bsv_jobs sv" "\<lambda>j. snd j = JobBuild s"] assms(2)
    by (simp add: jobs_for_def filter_map o_def)
  have o: "occurrences P (sv\<lparr>bsv_jobs := js\<rparr>) = occurrences P sv" for P js by (simp add: occurrences_def)
  show ?thesis
  proof (cases "snd (bsv_jobs sv ! n)")
    case (JobBuild t)
    note f = start_build_frame [where env = env and cfg = cfg and now = now and t = t and s = s and sv = "sv\<lparr>bsv_jobs := remove_at n (bsv_jobs sv)\<rparr>"]
    show ?thesis unfolding JobBuild run_job_def build_job.case
      by (rule decided_frame [OF assms(1)]) (use j f JobBuild in \<open>auto simp: o split: if_splits\<close>)
  qed (rule decided_frame [OF assms(1)]; simp add: run_job_def j occurrences_def)+
qed

lemma finish_frame:
  assumes "finish_build env cfg now resolvers calls r sv = Some sv'"
  shows "frozen_kept s (bsv_planSvc sv) (bsv_planSvc sv')" "bsv_jobs sv' = bsv_jobs sv"
    "occurrences (starts_build s) sv' = occurrences (starts_build s) sv" "occurrences (skips_build s) sv' = occurrences (skips_build s) sv"
  using assms
  by (auto simp: finish_build_def emitPayloadReady_def Let_def case_prod_beta occurrences_def Freeze_kept split: sum.splits
      intro: frozen_kept_trans [OF Freeze_kept OnSlotBuilt_kept])

lemma decided_finish:
  assumes "finish_build env cfg now resolvers calls r sv = Some sv'" "decided s sv"
  shows "decided s sv'"
  by (rule decided_frame [OF assms(2)]) (simp_all add: finish_frame [OF assms(1)] jobs_for_def)

lemma decided_step:
  assumes "build_step env op sv = Some sv'" "decided s sv" "plan_op_keeps env s op"
  shows "decided s sv'"
proof -
  obtain cfg now bop where op: "op = (cfg, now, bop)" by (cases op)
  show ?thesis
  proof (cases bop)
    case (OpAttributes event)
    then show ?thesis using assms decided_attributes [OF assms(2)] by (auto simp: op split: if_splits)
  next
    case (OpJob n)
    then show ?thesis using assms decided_job [OF assms(2), of n] by (auto simp: op split: if_splits)
  next
    case (OpFinish n resolvers calls)
    have "decided s (sv\<lparr>bsv_running := x\<rparr>)" for x
      by (rule decided_frame [OF assms(2)]) (simp_all add: occurrences_def jobs_for_def)
    from decided_finish [OF _ this] show ?thesis using assms(1,2) by (auto simp: op OpFinish split: if_splits)
  qed (use assms plan_step_kept in \<open>auto simp: op checkPayloadInclusion_def handlePayloadAvailableEvent_def occurrences_def jobs_for_def
         split: if_splits option.splits intro!: decided_frame [OF assms(2)]\<close>)
qed

lemma decided_run:
  "build_run env ops sv = Some sv' \<Longrightarrow> decided s sv \<Longrightarrow> list_all (plan_op_keeps env s) ops \<Longrightarrow> decided s sv'"
proof (induction ops arbitrary: sv)
  case (Cons op ops)
  then obtain sv1 where "build_step env op sv = Some sv1" "build_run env ops sv1 = Some sv'"
    by (auto split: option.splits)
  then show ?case using Cons.IH Cons.prems(2,3) decided_step by (metis list.pred_inject(2))
qed simp

lemma decided_New: "plans_ok ps \<Longrightarrow> decided s (NewBuildService h ps)"
  by (simp add: decided_def NewBuildService_def occurrences_def jobs_for_def)

section \<open>Payloads in the cache\<close>

definition refs_below :: "nat \<Rightarrow> PayloadCache \<Rightarrow> bool" where
  "refs_below n c \<longleftrightarrow> (\<forall>(s, r) \<in> set (pc_payloads c). r < n)"

definition payloads_ok :: "BuildService \<Rightarrow> bool" where
  "payloads_ok sv \<longleftrightarrow>
     cache_ok (bsv_heap sv) (bsv_cache sv) \<and> refs_below (bsv_nextRef sv) (bsv_cache sv) \<and> attrs_filed (bsv_stream sv) \<and>
     (\<forall>r \<in> set (bsv_running sv). pa_ProposalSlot (rn_attrs r) = rn_slot r) \<and>
     (\<forall>s p. BuildReady s p \<in> set (bsv_events sv) \<longrightarrow>
        p < bsv_nextRef sv \<and> hash_agrees (bsv_heap sv p) \<and> p_ProposalSlot (bsv_heap sv p) = s)"

lemma cache_ok_extend:
  assumes "cache_ok h c" "refs_below n c"
  shows "cache_ok (h(n := p)) c"
  using assms by (auto simp: cache_ok_def refs_below_def list_all_iff)

lemma cache_ok_cleanup:
  assumes "cache_ok h c"
  shows "cache_ok h (cache_Cleanup t c)"
proof -
  have "length (filter (\<lambda>(s, p). \<not> s < t) (pc_payloads c)) \<le> length (pc_payloads c)" by (rule length_filter_le)
  then have "int (length (filter (\<lambda>(s, p). \<not> s < t) (pc_payloads c))) \<le> pc_maxSlots c"
    using assms unfolding cache_ok_def by linarith
  then show ?thesis using assms
    by (auto simp: cache_ok_def cache_Cleanup_def list_all_iff intro: distinct_map_filter)
qed

lemma refs_below_cleanup: "refs_below n c \<Longrightarrow> refs_below n (cache_Cleanup t c)"
  by (auto simp: refs_below_def cache_Cleanup_def)

lemma refs_below_store:
  assumes "key_order ord" "cache_ok h c" "refs_below n c" "cache_Store ord h n c = Some c'"
  shows "refs_below (Suc n) c'"
proof -
  let ?m = "AList.update (p_ProposalSlot (h n)) n (pc_payloads c)"
  have "set (AList.update k v m) \<subseteq> insert (k, v) (set m)" for k :: slot and v :: payload_ref and m
    by (induction m) auto
  then have upd: "set ?m \<subseteq> insert (p_ProposalSlot (h n), n) (set (pc_payloads c))" .
  have del: "set (AList.delete k ?m) \<subseteq> set ?m" for k by (auto simp: AList.delete_eq)
  have "pc_payloads c' = ?m \<or> pc_payloads c' = AList.delete (oldest_scan (ord (map fst ?m))) ?m"
    using cache_Store_eq [OF assms(1,2), of n] assms(4) by auto
  then have "set (pc_payloads c') \<subseteq> set ?m" using del by (elim disjE) simp_all
  then have "set (pc_payloads c') \<subseteq> insert (p_ProposalSlot (h n), n) (set (pc_payloads c))" using upd by (rule order_trans)
  then show ?thesis using assms(3) unfolding refs_below_def by (fastforce simp: less_Suc_eq)
qed

lemma hash_agrees_cong:
  "p_BlockHash p' = p_BlockHash p \<Longrightarrow> p_build p' = p_build p \<Longrightarrow> hash_agrees p' = hash_agrees p"
  by (simp add: hash_agrees_def)

lemma activity_step_frame [simp]:
  "p_ProposalSlot (activity_step a h q) = p_ProposalSlot (h q)" "p_BlockHash (activity_step a h q) = p_BlockHash (h q)"
  "p_build (activity_step a h q) = p_build (h q)"
  by (cases a; simp)+

lemma payloads_ok_frame:
  assumes "payloads_ok sv" "bsv_cache sv' = bsv_cache sv" "bsv_nextRef sv' = bsv_nextRef sv" "attrs_filed (bsv_stream sv')"
    "set (bsv_running sv') \<subseteq> set (bsv_running sv)"
    "\<And>s p. BuildReady s p \<in> set (bsv_events sv') \<Longrightarrow> BuildReady s p \<in> set (bsv_events sv)"
    "\<And>q. p_ProposalSlot (bsv_heap sv' q) = p_ProposalSlot (bsv_heap sv q)" "\<And>q. hash_agrees (bsv_heap sv' q) = hash_agrees (bsv_heap sv q)"
  shows "payloads_ok sv'"
  using assms(1,4,5,6) unfolding payloads_ok_def assms(2,3,7,8) cache_ok_heap [OF assms(7)] by blast

lemma payloads_ok_emit:
  assumes "payloads_ok sv" "key_order (sve_order env)" "hash_agrees p" "p_ProposalSlot p = t"
  shows "\<exists>sv'. emitPayloadReady env t p sv = Some sv' \<and> payloads_ok sv'"
proof -
  let ?n = "bsv_nextRef sv"
  let ?h = "(bsv_heap sv)(?n := p)"
  have ok: "cache_ok ?h (bsv_cache sv)" using assms(1) by (auto simp: payloads_ok_def intro: cache_ok_extend)
  obtain c' where c: "cache_Store (sve_order env) ?h ?n (bsv_cache sv) = Some c'"
    using cache_Store_eq [OF assms(2) ok] by blast
  have c': "cache_ok ?h c'" "refs_below (Suc ?n) c'"
    using cache_Store_ok [OF assms(2) ok c] refs_below_store [OF assms(2) ok _ c] assms(1) by (auto simp: payloads_ok_def)
  define sv1 where "sv1 = fire_event (BuildReady t ?n)
    (sv\<lparr>bsv_heap := ?h, bsv_nextRef := Suc ?n, bsv_cache := c', bsv_planSvc := OnSlotBuilt t (bsv_planSvc sv),
        bsv_lastBuiltSlot := t, bsv_stats := built_stat (bsv_stats sv)\<rparr>)"
  have "payloads_ok sv1"
    using assms c' by (auto simp: payloads_ok_def sv1_def intro: less_SucI)
  then have "payloads_ok (cleanup_old env t sv1)"
    by (auto simp: payloads_ok_def cleanup_old_def cache_ok_cleanup refs_below_cleanup attrs_filed_cleanup)
  then show ?thesis by (simp add: emitPayloadReady_def Let_def c sv1_def)
qed

lemma transform_agrees:
  "applyPayloadTransform env frozen p = Inr p' \<Longrightarrow> hash_agrees p \<Longrightarrow> hash_agrees p' \<and> p_ProposalSlot p' = p_ProposalSlot p"
  by (auto simp: applyPayloadTransform_def hash_agrees_def split: option.splits if_splits)

lemma payloads_ok_finish:
  assumes "payloads_ok sv" "key_order (sve_order env)" "pa_ProposalSlot (rn_attrs r) = rn_slot r"
  shows "\<exists>sv'. finish_build env cfg now resolvers calls r sv = Some sv' \<and> payloads_ok sv'"
proof -
  define base where "base = sv\<lparr>bsv_builder := close_build (sve_spec env) (sve_feeRecipient env) resolvers calls (rn_attrs r) (bsv_builder sv)\<rparr>"
  define fz where "fz = service_Freeze env cfg now (rn_slot r) base"
  have ok: "payloads_ok base" "payloads_ok (snd fz)"
    using assms(1) by (simp_all add: payloads_ok_def base_def fz_def)
  then have failed: "payloads_ok (fire_event (BuildFailed t e now) base)" "payloads_ok (fire_event (BuildFailed t e now) (snd fz))" for t e
    by (simp_all add: payloads_ok_def)
  define result where "result = BuildPayloadFromAttributes (sve_lib env) (sve_spec env) cfg (sve_feeRecipient env) resolvers
    (calls\<lparr>call_aborted := the (rn_waited r)\<rparr>) (rn_attrs r)"
  have unfold: "finish_build env cfg now resolvers calls r sv =
    (case result of Inl e \<Rightarrow> Some (fire_event (BuildFailed (rn_slot r) (BuildFailedWith e) now) base)
     | Inr p \<Rightarrow> (case applyPayloadTransform env (fst fz) p of
         Inl e \<Rightarrow> Some (fire_event (BuildFailed (rn_slot r) e now) (snd fz))
       | Inr p \<Rightarrow> emitPayloadReady env (rn_slot r) p (snd fz)))"
    unfolding finish_build_def Let_def base_def fz_def result_def case_prod_beta ..
  show ?thesis
  proof (cases result)
    case (Inl e)
    then show ?thesis by (simp add: unfold failed)
  next
    case (Inr p)
    then have p: "hash_agrees p" "p_ProposalSlot p = rn_slot r"
      using built_hash_agrees built_slot assms(3) unfolding result_def by metis+
    show ?thesis
    proof (cases "applyPayloadTransform env (fst fz) p")
      case (Inl e)
      then show ?thesis by (simp add: unfold failed \<open>result = Inr p\<close>)
    next
      case (Inr p')
      then show ?thesis
        using payloads_ok_emit [OF ok(2) assms(2)] transform_agrees [OF Inr p(1)] p(2) by (simp add: unfold \<open>result = Inr p\<close>)
    qed
  qed
qed

lemma effective_slot [simp]: "pa_ProposalSlot (effectiveBuildAttributes frozen s es a) = pa_ProposalSlot a"
  by (simp add: effectiveBuildAttributes_def split: option.split)

lemma payloads_ok_job:
  assumes "payloads_ok sv"
  shows "payloads_ok (run_job env cfg now j sv)"
proof (cases j)
  case (JobFallback t)
  then show ?thesis using assms by (simp add: run_job_def payloads_ok_def)
next
  case (JobInject e)
  then show ?thesis using assms by (simp add: run_job_def payloads_ok_def inject_def attrs_filed_inject)
next
  case (JobBuild t)
  have "pa_ProposalSlot a = t" if "GetLatestPayloadAttributes t (bsv_stream sv) = Some a" for a
    using that assms attrs_filedD by (auto simp: payloads_ok_def GetLatestPayloadAttributes_def)
  then show ?thesis
    using assms by (auto simp: JobBuild run_job_def start_build_def Let_def case_prod_beta payloads_ok_def split: option.split)
qed

lemma decide_build_frame [simp]:
  "bsv_running (decide_build env now t build sv) = bsv_running sv" "bsv_heap (decide_build env now t build sv) = bsv_heap sv"
  "bsv_cache (decide_build env now t build sv) = bsv_cache sv" "bsv_stream (decide_build env now t build sv) = bsv_stream sv"
  "bsv_nextRef (decide_build env now t build sv) = bsv_nextRef sv"
  "BuildReady s p \<in> set (bsv_events (decide_build env now t build sv)) \<longleftrightarrow> BuildReady s p \<in> set (bsv_events sv)"
  by (simp_all add: decide_build_def fireBuildSkipped_def)

lemma handle_attributes_frame [simp]:
  "bsv_running (handlePayloadAttributesEvent env cfg now event sv) = bsv_running sv"
  "bsv_heap (handlePayloadAttributesEvent env cfg now event sv) = bsv_heap sv"
  "bsv_cache (handlePayloadAttributesEvent env cfg now event sv) = bsv_cache sv"
  "bsv_stream (handlePayloadAttributesEvent env cfg now event sv) = bsv_stream sv"
  "bsv_nextRef (handlePayloadAttributesEvent env cfg now event sv) = bsv_nextRef sv"
  "BuildReady s p \<in> set (bsv_events (handlePayloadAttributesEvent env cfg now event sv)) \<longleftrightarrow> BuildReady s p \<in> set (bsv_events sv)"
  by (simp_all add: handlePayloadAttributesEvent_def Let_def case_prod_beta)

lemma payloads_ok_attributes: "payloads_ok sv \<Longrightarrow> payloads_ok (handlePayloadAttributesEvent env cfg now event sv)"
  by (simp add: payloads_ok_def)

lemma payloads_ok_step:
  assumes "payloads_ok sv" "key_order (sve_order env)"
  shows "\<exists>sv'. build_step env op sv = Some sv' \<and> payloads_ok sv'"
proof -
  obtain cfg now bop where op: "op = (cfg, now, bop)" by (cases op)
  have frame: "payloads_ok (sv\<lparr>bsv_jobs := js\<rparr>)" "payloads_ok (sv\<lparr>bsv_running := remove_at n (bsv_running sv)\<rparr>)" for js n
    using assms(1) by (auto simp: payloads_ok_def dest: set_remove_at)
  show ?thesis
  proof (cases bop)
    case (OpAttributes event)
    then show ?thesis using assms(1) by (simp add: op payloads_ok_attributes)
  next
    case (OpJob n)
    then show ?thesis using frame(1) assms(1) by (simp add: op payloads_ok_job)
  next
    case (OpFinish n resolvers calls)
    have "pa_ProposalSlot (rn_attrs (bsv_running sv ! n)) = rn_slot (bsv_running sv ! n)" if "n < length (bsv_running sv)"
      using that assms(1) by (simp add: payloads_ok_def)
    then show ?thesis using payloads_ok_finish [OF frame(2) assms(2)] assms(1) by (simp add: op OpFinish)
  next
    case (OpWait n deadline)
    have "pa_ProposalSlot (rn_attrs r) = rn_slot r"
      if "n < length (bsv_running sv)" "r \<in> set ((bsv_running sv)[n := end_wait deadline (bsv_builder sv) (bsv_running sv ! n)])" for r
    proof -
      have run: "\<forall>r \<in> set (bsv_running sv). pa_ProposalSlot (rn_attrs r) = rn_slot r" using assms(1) by (simp add: payloads_ok_def)
      have "r = end_wait deadline (bsv_builder sv) (bsv_running sv ! n) \<or> r \<in> set (bsv_running sv)"
        using that(2) set_update_subset_insert by fast
      then show ?thesis using run that(1) by (auto simp: end_wait_def)
    qed
    then show ?thesis using assms(1) by (simp add: op OpWait payloads_ok_def)
  next
    case (OpActivity a)
    have "payloads_ok (sv\<lparr>bsv_heap := activity_step a (bsv_heap sv)\<rparr>)"
      by (rule payloads_ok_frame [OF assms(1)]) (use assms(1) in \<open>simp_all add: payloads_ok_def hash_agrees_def\<close>)
    then show ?thesis by (simp add: op OpActivity)
  next
    case (OpReceive event)
    then show ?thesis using assms(1) by (simp add: op payloads_ok_def attrs_filed_received)
  next
    case (OpHead info)
    have "payloads_ok (checkPayloadInclusion env info sv)"
      using assms(1) by (simp add: checkPayloadInclusion_def payloads_ok_def split: option.split)
    then show ?thesis using assms(1) by (simp add: op OpHead)
  qed (use assms(1) in \<open>simp_all add: op handlePayloadAvailableEvent_def payloads_ok_def\<close>)
qed

lemma payloads_ok_run:
  "payloads_ok sv \<Longrightarrow> key_order (sve_order env) \<Longrightarrow> \<exists>sv'. build_run env ops sv = Some sv' \<and> payloads_ok sv'"
proof (induction ops arbitrary: sv)
  case (Cons op ops)
  then obtain sv1 where "build_step env op sv = Some sv1" "payloads_ok sv1" using payloads_ok_step by blast
  then show ?case using Cons by simp
qed simp

lemma payloads_ok_New: "payloads_ok (NewBuildService h ps)"
  by (simp add: payloads_ok_def NewBuildService_def cache_ok_def NewPayloadCache_def DefaultCacheSize_def refs_below_def attrs_filed_New)

section \<open>The origin of attributes\<close>

fun received :: "Config \<times> gotime \<times> build_op \<Rightarrow> PayloadAttributesEvent list" where
  "received (cfg, now, OpReceive e) = [e]"
| "received _ = []"

definition last_received :: "slot \<Rightarrow> PayloadAttributesEvent list \<Rightarrow> PayloadAttributesEvent option" where
  "last_received s es = find (\<lambda>e. pa_ProposalSlot e = s) (rev es)"

lemma synthesized_self [simp]: "synthesized spec (pa_ProposalSlot e) e = e"
  by (simp add: synthesized_def Let_def)

lemma synthesized_twice: "synthesized spec t (synthesized spec s e) = synthesized spec t e"
  by (simp add: synthesized_def Let_def algebra_simps)

lemma synthesized_aligned:
  "pa_Timestamp e = g + pa_ProposalSlot e * slot_seconds spec \<Longrightarrow> pa_Timestamp (synthesized spec s e) = g + s * slot_seconds spec"
  by (simp add: synthesized_def Let_def algebra_simps)

lemma synthesized_slot [simp]: "pa_ProposalSlot (synthesized spec s e) = s"
  by (simp add: synthesized_def Let_def)

lemma fallback_parent_cached: "fallback_parent ls t es = Some a \<Longrightarrow> \<exists>s. ac_cache es s = Some a"
  by (induction ls) (auto simp: GetLatestPayloadAttributes_def split: if_splits option.splits)

definition attrs_known :: "ChainSpec \<Rightarrow> slot \<Rightarrow> PayloadAttributesEvent list \<Rightarrow> BuildService \<Rightarrow> bool" where
  "attrs_known spec s es sv \<longleftrightarrow>
     (\<forall>t a. ac_cache (bsv_stream sv) t = Some a \<longrightarrow> (\<exists>e \<in> set es. a = synthesized spec t e)) \<and>
     (\<forall>a. JobInject a \<in> snd ` set (bsv_jobs sv) \<longrightarrow> (\<exists>e \<in> set es. a = synthesized spec (pa_ProposalSlot a) e)) \<and>
     (\<forall>e. last_received s es = Some e \<longrightarrow> occurrences (forgets_build s) sv = 0 \<longrightarrow> ac_cache (bsv_stream sv) s = Some e)"

lemma attrs_known_frame:
  "attrs_known spec s es sv \<Longrightarrow> bsv_stream sv' = bsv_stream sv \<Longrightarrow>
     (\<And>a. JobInject a \<in> snd ` set (bsv_jobs sv') \<Longrightarrow> JobInject a \<in> snd ` set (bsv_jobs sv)) \<Longrightarrow>
     (occurrences (forgets_build s) sv' = 0 \<Longrightarrow> occurrences (forgets_build s) sv = 0) \<Longrightarrow> attrs_known spec s es sv'"
  unfolding attrs_known_def by simp

lemma attrs_known_receive:
  assumes "attrs_known spec s es sv"
  shows "attrs_known spec s (es @ [e]) (sv\<lparr>bsv_stream := received_attributes e (bsv_stream sv)\<rparr>)"
proof -
  have "\<exists>e'\<in>set (es @ [e]). a = synthesized spec t e'"
    if "ac_cache (received_attributes e (bsv_stream sv)) t = Some a" for t a
    using that assms by (cases "t = pa_ProposalSlot e") (auto simp: received_attributes_def attrs_known_def)
  then show ?thesis
    using assms by (auto simp: attrs_known_def last_received_def received_attributes_def occurrences_def)
qed

lemma attrs_known_fallback:
  assumes "attrs_known (sve_spec env) s es sv"
  shows "attrs_known (sve_spec env) s es (applyAttributesFallback env now t sv)"
proof (cases "bsv_jobs (applyAttributesFallback env now t sv) = bsv_jobs sv")
  case True
  then show ?thesis by (intro attrs_known_frame [OF assms]) (simp_all add: occurrences_def)
next
  case False
  then obtain parent where p: "fallback_parent lookbacks t (bsv_stream sv) = Some parent"
    and jobs: "bsv_jobs (applyAttributesFallback env now t sv) = bsv_jobs sv @ [(now, JobInject (synthesized (sve_spec env) t parent))]"
    by (auto simp: applyAttributesFallback_def split: option.splits if_splits)
  from p obtain u where "ac_cache (bsv_stream sv) u = Some parent" using fallback_parent_cached by blast
  then obtain e where "e \<in> set es" "parent = synthesized (sve_spec env) u e"
    using assms unfolding attrs_known_def by blast
  then show ?thesis using assms by (auto simp: attrs_known_def jobs synthesized_twice occurrences_def)
qed

lemma attrs_known_inject:
  assumes "attrs_known spec s es sv" "\<exists>e \<in> set es. a = synthesized spec (pa_ProposalSlot a) e"
  shows "attrs_known spec s es (inject a sv)"
proof (cases "ac_cache (bsv_stream sv) (pa_ProposalSlot a)")
  case (Some b)
  then have "inject a sv = sv" by (simp add: inject_def InjectPayloadAttributes_def)
  then show ?thesis using assms(1) by simp
next
  case None
  then have "ac_cache (bsv_stream (inject a sv)) = (ac_cache (bsv_stream sv))(pa_ProposalSlot a \<mapsto> a)"
    by (simp add: inject_def InjectPayloadAttributes_def received_attributes_def)
  then show ?thesis using assms None by (auto simp: attrs_known_def occurrences_def)
qed

lemma attrs_known_emit:
  assumes "emitPayloadReady env t p sv = Some sv'" "attrs_known spec s es sv"
  shows "attrs_known spec s es sv'"
proof -
  have "bsv_events sv' = bsv_events sv @ [BuildReady t (bsv_nextRef sv)]"
    "ac_cache (bsv_stream sv') = (if 64 < t then range_delete (\<lambda>s _. s < t - 64) (ac_cache (bsv_stream sv)) else ac_cache (bsv_stream sv))"
    "bsv_jobs sv' = bsv_jobs sv"
    using assms(1) by (auto simp: emitPayloadReady_def Let_def) (auto simp: cleanup_old_def CleanupPayloadAttributesCache_def)
  then show ?thesis using assms(2)
    by (auto simp: attrs_known_def occurrences_def range_delete_Some_iff split: if_splits)
qed

lemma attrs_known_finish:
  assumes "finish_build env cfg now resolvers calls r sv = Some sv'" "attrs_known spec s es sv"
  shows "attrs_known spec s es sv'"
proof -
  define base where "base = sv\<lparr>bsv_builder := close_build (sve_spec env) (sve_feeRecipient env) resolvers calls (rn_attrs r) (bsv_builder sv)\<rparr>"
  define froz where "froz = snd (service_Freeze env cfg now (rn_slot r) base)"
  have known: "attrs_known spec s es base" "attrs_known spec s es froz"
    by (rule attrs_known_frame [OF assms(2)]; simp add: base_def froz_def occurrences_def)+
  have failed: "attrs_known spec s es (fire_event (BuildFailed t e now) x)" if "attrs_known spec s es x" for t e x
    by (rule attrs_known_frame [OF that]) (simp_all add: occurrences_def)
  consider e where "sv' = fire_event (BuildFailed (rn_slot r) e now) base" | e where "sv' = fire_event (BuildFailed (rn_slot r) e now) froz"
    | p where "emitPayloadReady env (rn_slot r) p froz = Some sv'"
    using assms(1) unfolding finish_build_def Let_def froz_def base_def case_prod_beta by (auto split: sum.splits)
  then show ?thesis using failed known attrs_known_emit by cases blast+
qed

lemma handle_attributes_injects:
  "JobInject a \<in> snd ` set (bsv_jobs (handlePayloadAttributesEvent env cfg now event sv)) \<Longrightarrow> JobInject a \<in> snd ` set (bsv_jobs sv)"
  by (auto simp: handlePayloadAttributesEvent_def decide_build_def fireBuildSkipped_def scheduleBuildForSlot_def
      scheduleAttributesFallback_def Let_def case_prod_beta split: if_splits)

lemma attrs_known_step:
  assumes "build_step env op sv = Some sv'" "attrs_known (sve_spec env) s es sv"
  shows "attrs_known (sve_spec env) s (es @ received op) sv'"
proof -
  obtain cfg now bop where op: "op = (cfg, now, bop)" by (cases op)
  have frame: "attrs_known (sve_spec env) s es x"
    if "bsv_stream x = bsv_stream sv" "filter (forgets_build s) (bsv_events x) = filter (forgets_build s) (bsv_events sv)"
      "\<And>a. JobInject a \<in> snd ` set (bsv_jobs x) \<Longrightarrow> JobInject a \<in> snd ` set (bsv_jobs sv)" for x
    by (rule attrs_known_frame [OF assms(2) that(1) that(3)]) (simp_all add: occurrences_def that(2))
  show ?thesis
  proof (cases bop)
    case (OpReceive e)
    then show ?thesis using assms by (simp add: op attrs_known_receive) (auto simp: attrs_known_receive)
  next
    case (OpAttributes event)
    have "filter (forgets_build s) (bsv_events (handlePayloadAttributesEvent env cfg now event sv)) = filter (forgets_build s) (bsv_events sv)"
      by (simp add: handlePayloadAttributesEvent_def decide_build_def fireBuildSkipped_def Let_def case_prod_beta)
    then have "attrs_known (sve_spec env) s es (handlePayloadAttributesEvent env cfg now event sv)"
      using frame handle_attributes_injects handle_attributes_frame(4) by metis
    then show ?thesis using assms by (auto simp: op OpAttributes split: if_splits)
  next
    case (OpJob n)
    let ?sv = "sv\<lparr>bsv_jobs := remove_at n (bsv_jobs sv)\<rparr>"
    have removed: "attrs_known (sve_spec env) s es ?sv" by (rule frame) (auto dest: set_remove_at)
    have job: "attrs_known (sve_spec env) s es (run_job env cfg now (snd (bsv_jobs sv ! n)) ?sv)" if n: "n < length (bsv_jobs sv)"
    proof (cases "snd (bsv_jobs sv ! n)")
      case (JobFallback t)
      then show ?thesis using removed by (simp add: run_job_def attrs_known_fallback)
    next
      case (JobInject a)
      then have "JobInject a \<in> snd ` set (bsv_jobs sv)" using n by (metis image_eqI nth_mem)
      then have "\<exists>e \<in> set es. a = synthesized (sve_spec env) (pa_ProposalSlot a) e" using assms(2) by (simp add: attrs_known_def)
      then show ?thesis using removed JobInject by (simp add: run_job_def attrs_known_inject)
    qed (auto simp: run_job_def start_build_def Let_def case_prod_beta dest!: set_remove_at split: option.split intro!: frame intro: rev_image_eqI)
    then show ?thesis using assms by (auto simp: op OpJob split: if_splits)
  next
    case (OpFinish n resolvers calls)
    have "attrs_known (sve_spec env) s es (sv\<lparr>bsv_running := x\<rparr>)" for x by (rule frame) simp_all
    from attrs_known_finish [OF _ this] show ?thesis using assms by (auto simp: op OpFinish split: if_splits)
  next
    case (OpHead info)
    then show ?thesis using assms by (auto simp: op checkPayloadInclusion_def split: if_splits option.splits intro!: frame)
  qed (use assms in \<open>auto simp: op handlePayloadAvailableEvent_def split: if_splits intro!: frame\<close>)
qed

lemma attrs_known_run:
  "build_run env ops sv = Some sv' \<Longrightarrow> attrs_known (sve_spec env) s es sv \<Longrightarrow>
     attrs_known (sve_spec env) s (es @ concat (map received ops)) sv'"
proof (induction ops arbitrary: sv es)
  case (Cons op ops)
  then obtain sv1 where "build_step env op sv = Some sv1" "build_run env ops sv1 = Some sv'"
    by (auto split: option.splits)
  then show ?case using Cons.IH [of sv1 "es @ received op"] attrs_known_step Cons.prems(2) by (metis append.assoc concat.simps(2) list.map(2))
qed simp

lemma attrs_known_New: "attrs_known spec s [] (NewBuildService h ps)"
  by (simp add: attrs_known_def NewBuildService_def NewAttrStream_def last_received_def)

section \<open>Two oddities\<close>

text \<open>
  Our block is counted twice: the service counts it when the head shows it, and the inclusion tracker's
  \<open>IncrementBlocksIncluded\<close> counts the same block on the same statistics.\<close>

lemma included_block_counted_twice:
  assumes "GetByBlockHash (sve_order env) (bsv_heap sv) hash (bsv_cache sv) \<noteq> None" "map_of (bsv_wonPayloads sv) hash = None"
  shows "bst_BlocksIncluded (IncrementBlocksIncluded (bsv_stats (checkPayloadInclusion env (Some hash) sv))) =
           bst_BlocksIncluded (bsv_stats sv) + 2"
  using assms by (auto simp: checkPayloadInclusion_def mark_if_ours_def markPayloadWon_def IncrementBlocksIncluded_def)

text \<open>A proposer that announced the builder's own address is paid at the suggested address instead.\<close>

lemma announced_own_recipient_overridden:
  assumes "r (pa_ProposalSlot attrs) (pa_ProposerIndex attrs) = Some st" "st_FeeRecipient st = feeRecipient"
    "pa_SuggestedFeeRecipient attrs \<noteq> replicate 20 0" "DataVersionGloas \<le> fork"
  shows "fst (build_settings (r # rs) feeRecipient fork attrs) = pa_SuggestedFeeRecipient attrs"
  using assms by (simp add: build_settings_def)

section \<open>Properties\<close>


text \<open>
  C33: the attributes of a slot come from the beacon node.  Every cached event of a slot is one the node sent, moved to the
  slot with its timestamp advanced by the slots in between, so events whose timestamps follow the slot clock keep following it; and
  the last event the node sent for a slot itself is the cached one, whatever the fallback does, until a payload more than 64 slots
  later makes the service drop it.\<close>

theorem attributes_origin:
  assumes "build_run env ops (NewBuildService h ps) = Some sv"
  shows "(\<forall>a. GetLatestPayloadAttributes s (bsv_stream sv) = Some a \<longrightarrow>
            (\<exists>e \<in> set (concat (map received ops)). a = synthesized (sve_spec env) s e \<and>
               (\<forall>g. pa_Timestamp e = g + pa_ProposalSlot e * slot_seconds (sve_spec env) \<longrightarrow>
                    pa_Timestamp a = g + s * slot_seconds (sve_spec env)))) \<and>
         (\<forall>e. last_received s (concat (map received ops)) = Some e \<and> occurrences (forgets_build s) sv = 0 \<longrightarrow>
            GetLatestPayloadAttributes s (bsv_stream sv) = Some e)"
proof -
  have "attrs_known (sve_spec env) s (concat (map received ops)) sv"
    using attrs_known_run [OF assms attrs_known_New] by simp
  then show ?thesis
    unfolding attrs_known_def GetLatestPayloadAttributes_def using synthesized_aligned by metis
qed

text \<open>
  C34: a ready payload, the bid made from it and the envelope that reveals it agree: after any run, the payload announced for a slot
  is for that slot, and the bid names the block hash, gas limit and fork of the very execution payload the envelope carries, also
  when the payload was rewritten by a transform and whatever was logged on it since.\<close>

theorem ready_payload_agrees:
  assumes "key_order (sve_order env)" "build_run env ops (NewBuildService h ps) = Some sv" "BuildReady s p \<in> set (bsv_events sv)"
  shows "bm_Slot (bid_of (bsv_heap sv p) params reqRoot) = s \<and>
     bm_BlockHash (bid_of (bsv_heap sv p) params reqRoot) = pb_BlockHash (ep_Body (em_Payload (envelope_of (bsv_heap sv p) rc))) \<and>
     bm_GasLimit (bid_of (bsv_heap sv p) params reqRoot) = ep_GasLimit (em_Payload (envelope_of (bsv_heap sv p) rc)) \<and>
     bm_Version (bid_of (bsv_heap sv p) params reqRoot) = ep_Version (em_Payload (envelope_of (bsv_heap sv p) rc))"
proof -
  have "payloads_ok sv"
    using payloads_ok_run [OF payloads_ok_New assms(1), of ops h ps] assms(2) by auto
  then show ?thesis using assms(3) by (auto simp: payloads_ok_def hash_agrees_def bid_of_def envelope_of_def Let_def)
qed

section \<open>A run\<close>

definition demo_attrs :: PayloadAttributesEvent where
  "demo_attrs = \<lparr>pa_Version = ''gloas'', pa_ProposalSlot = 320, pa_ProposerIndex = 5, pa_ParentBlockRoot = [1], pa_ParentBlockNumber = 6,
     pa_ParentBlockHash = [2], pa_Timestamp = 3840, pa_PrevRandao = [3], pa_SuggestedFeeRecipient = [4], pa_Withdrawals = [],
     pa_ParentBeaconBlockRoot = [1], pa_TargetGasLimit = 60000000, pa_InclusionListTransactions = []\<rparr>"

definition demo_calls :: build_calls where
  "demo_calls = \<lparr>call_finality = Some \<lparr>fi_HeadExecutionBlockHash = [2], fi_SafeExecutionBlockHash = [2], fi_FinalizedExecutionBlockHash = [2]\<rparr>,
     call_forkchoice = (\<lambda>_. Some \<lparr>fs_Status = StatusValid, fs_PayloadID = Some [7]\<rparr>), call_aborted = False,
     call_getPayload = (\<lambda>_ _. Some \<lparr>gp_ExecutionPayload = Some demo_engine_payload, gp_ExecutionRequests = [], gp_BlobsBundle = None,
        gp_BlockValue = Some 12\<rparr>), call_readyAt = 9\<rparr>"

definition demo_service_env :: "u8 list service_env" where
  "demo_service_env = \<lparr>sve_lib = demo_eth, sve_spec = demo_spec, sve_genesisTime = 0, sve_feeRecipient = [9], sve_jqPayload = (\<lambda>_ p. Some p),
     sve_order = (\<lambda>ks. ks), sve_wonOrder = (\<lambda>ks. ks)\<rparr>"

definition demo_cfg :: Config where
  "demo_cfg = DefaultConfig\<lparr>cfg_EPBSEnabled := True\<rparr>"

text \<open>The attributes arrive twice, the build runs, and the fallback supplies the next slot.\<close>

definition demo_ops :: "(Config \<times> gotime \<times> build_op) list" where
  "demo_ops = map (\<lambda>op. (demo_cfg, 4000 * nanos_per_s, op))
     [OpReceive demo_attrs, OpAttributes demo_attrs, OpAttributes demo_attrs, OpJob 1, OpWait 0 False, OpFinish 0 [] demo_calls, OpJob 0, OpJob 0]"

definition demo_heap :: "(payload_body, ExecutionRequests) build_data payload_heap" where
  "demo_heap = (\<lambda>_. undefined)"

lemma demo_run:
  "map_option bsv_events (build_run demo_service_env demo_ops (NewBuildService demo_heap NewPlanService)) =
     Some [BuildStarted 320 4000000000000, BuildReady 320 0]"
  by code_simp

lemma demo_run_events:
  obtains sv where "build_run demo_service_env demo_ops (NewBuildService demo_heap NewPlanService) = Some sv"
    "bsv_events sv = [BuildStarted 320 4000000000000, BuildReady 320 0]"
  using demo_run by auto

lemma demo_run_next:
  "map_option (\<lambda>sv. map_option pa_Timestamp (GetLatestPayloadAttributes 321 (bsv_stream sv)))
     (build_run demo_service_env demo_ops (NewBuildService demo_heap NewPlanService)) = Some (Some 3852)"
  by code_simp

lemma demo_env_order: "key_order (sve_order demo_service_env)"
  by (simp add: demo_service_env_def key_order_id)


theorem attributes_origin_witness:
  "\<exists>sv a. build_run demo_service_env demo_ops (NewBuildService demo_heap NewPlanService) = Some sv \<and>
     GetLatestPayloadAttributes 321 (bsv_stream sv) = Some a \<and> pa_Timestamp a = 3852 \<and>
     (\<exists>e \<in> set (concat (map received demo_ops)). a = synthesized demo_spec 321 e)"
proof -
  obtain sv a where sv: "build_run demo_service_env demo_ops (NewBuildService demo_heap NewPlanService) = Some sv"
    "GetLatestPayloadAttributes 321 (bsv_stream sv) = Some a" "pa_Timestamp a = 3852"
    using demo_run_next by auto
  have "sve_spec demo_service_env = demo_spec" by (simp add: demo_service_env_def)
  then have "\<exists>e \<in> set (concat (map received demo_ops)). a = synthesized demo_spec 321 e"
    using attributes_origin [OF sv(1), of 321] sv(2) by auto
  then show ?thesis using sv by blast
qed

theorem ready_payload_agrees_witness:
  "\<exists>sv. build_run demo_service_env demo_ops (NewBuildService demo_heap NewPlanService) = Some sv \<and>
     bm_Slot (bid_of (bsv_heap sv 0) \<lparr>bp_BuilderIndex = 1, bp_FeeRecipient = [4], bp_Value = 10, bp_ExecutionPayment = 0, bp_Transform = ''''\<rparr> []) = 320"
proof -
  obtain sv where sv: "build_run demo_service_env demo_ops (NewBuildService demo_heap NewPlanService) = Some sv"
    "bsv_events sv = [BuildStarted 320 4000000000000, BuildReady 320 0]" by (rule demo_run_events)
  then have "BuildReady 320 0 \<in> set (bsv_events sv)" by simp
  from ready_payload_agrees [OF demo_env_order sv(1) this] show ?thesis using sv(1) by blast
qed

end
