(* ===== verification/Api_Epbs.thy ===== *)
theory Api_Epbs
  imports Reveal_Service Proposer_Prefs KV_Store Builder_Info
begin

text \<open>
  \<open>pkg/builderapi/epbs\<close>: the post-Gloas Builder API.  A request is a record of what the handler reads
  of it, a response a value of \<open>api_response\<close>.  The handlers share the payload heap, the plan service and
  the queue of the reveal service, which are the \<open>RevealService\<close> record.  Decoding of bodies and BLS
  verification are parameters, the recorder's calls and published blocks are logs.
\<close>

section \<open>HTTP values\<close>

definition contentTypeJSON :: string where "contentTypeJSON = ''application/json''"
definition contentTypeSSZ :: string where "contentTypeSSZ = ''application/octet-stream''"

definition is_space :: "char \<Rightarrow> bool" where
  "is_space c \<longleftrightarrow> c \<in> {CHR '' '', CHR 0x09, CHR 0x0A, CHR 0x0B, CHR 0x0C, CHR 0x0D}"

definition TrimSpace :: "string \<Rightarrow> string" where
  "TrimSpace s = rev (dropWhile is_space (rev (dropWhile is_space s)))"

definition lower_char :: "char \<Rightarrow> char" where
  "lower_char c = (if 65 \<le> (of_char c :: nat) \<and> (of_char c :: nat) \<le> 90 then char_of ((of_char c :: nat) + 32) else c)"

definition normalizeContentType :: "string \<Rightarrow> string" where
  "normalizeContentType ct = map lower_char (TrimSpace (takeWhile (\<lambda>c. c \<noteq> CHR '';'') ct))"

definition trimHex :: "string \<Rightarrow> string" where
  "trimHex s = (if length s \<ge> 2 \<and> (take 2 s = ''0x'' \<or> take 2 s = ''0X'') then drop 2 s else s)"

text \<open>\<open>hex.DecodeString(trimHex(s))\<close> of exactly \<open>n\<close> bytes.\<close>

definition hex_bytes :: "nat \<Rightarrow> string \<Rightarrow> u8 list option" where
  "hex_bytes n s = (case hex_DecodeString (trimHex s) of None \<Rightarrow> None | Some bs \<Rightarrow> if length bs \<noteq> n then None else Some bs)"

definition hex_pubkey :: "string \<Rightarrow> pubkey option" where
  "hex_pubkey s = map_option Pubkey (hex_bytes 48 s)"

datatype api_problem = SignerUnavailable | BuilderInactive | PrefsStoreMissing | InvalidPubkey | InvalidSlot | SlotTooFarAhead
  | ServingSuppressed | PreGloas | ForkVersionUnknown | BodyUnreadable | UnsupportedContentType | BodyUndecodable
  | MessageMissing | AuthSlotMismatch | AuthUrlMismatch | AuthSignatureInvalid | AuthMissing | InvalidParentHash
  | InvalidParentRoot | NoCachedPayload | ParentHashMismatch | ParentRootMismatch | NoProposerPreferences | BidBuildFailed
  | RequestCancelled | EncodeFailed | WriteFailed | NotReady | UrlNotConfigured | InvalidVersionHeader | BidMissing
  | BlockRootFailed | ProposalFailed | BroadcastFailed

datatype api_response = Status nat "api_problem option" | BidServed nat SignedBid DataVersion bool | NoResponse

section \<open>Messages and state\<close>

record RequestAuthV1 =
  au_Data :: string
  au_Slot :: u64

record SignedRequestAuthV1 =
  sau_Message :: "RequestAuthV1 option"
  sau_Signature :: "u8 list"

record BuilderPreferencesRequestV1 =
  bpr_Preferences :: "gwei option"
  bpr_Auth :: "SignedRequestAuthV1 option"

record recordedBid =
  rd_status :: string
  rd_blockHash :: hash32
  rd_value :: u64
  rd_errMsg :: "api_problem option"

record bid_record_call =
  rcall_slot :: slot
  rcall_fork :: DataVersion
  rcall_bid :: "SignedBid option"
  rcall_totalValueGwei :: u64
  rcall_executionPaymentGwei :: u64
  rcall_status :: string
  rcall_errMsg :: "api_problem option"

record EpbsHandler =
  eh_prefsStore :: prefs_store
  eh_lastBids :: "slot \<rightharpoonup> recordedBid"
  eh_builderIndex :: u64
  eh_enabled :: bool
  eh_bidsRequested :: u64
  eh_blocksAccepted :: u64
  eh_bidRecords :: "bid_record_call list"
  eh_submissions :: "(slot \<times> string \<times> api_problem option) list"

record ('x, 'r) epbs_env =
  ee_lib :: "('x, 'r) msg_lib"
  ee_authRoot :: "RequestAuthV1 \<Rightarrow> hash32 option"
  ee_VerifyBLSSignature :: "pubkey \<Rightarrow> hash32 \<Rightarrow> u8 list \<Rightarrow> bool"
  ee_authJSON :: "u8 list \<Rightarrow> SignedRequestAuthV1 option"
  ee_authSSZ :: "u8 list \<Rightarrow> SignedRequestAuthV1 option"
  ee_prefsJSON :: "u8 list \<Rightarrow> BuilderPreferencesRequestV1 option"
  ee_prefsSSZ :: "u8 list \<Rightarrow> BuilderPreferencesRequestV1 option"
  ee_spec :: ChainSpec
  ee_genesisTime :: gotime
  ee_genesisForkVersion :: "u8 list"
  ee_genesisRoot :: hash32
  ee_cfg :: Config
  ee_BuilderURL :: string
  ee_RequireRequestAuth :: bool
  ee_now :: gotime
  ee_builders :: "BuilderInfo list"
  ee_finalized :: u64
  ee_signer :: "bls_pubkey option"
  ee_cache :: "PayloadCache option"
  ee_order :: "slot list \<Rightarrow> slot list"
  ee_propPrefs :: "pref_store option"
  ee_recorder :: bool

definition bidStatusServed :: string where "bidStatusServed = ''served''"
definition bidStatusSuppressed :: string where "bidStatusSuppressed = ''suppressed''"
definition bidStatusFailed :: string where "bidStatusFailed = ''failed''"
definition bidStatusCancelled :: string where "bidStatusCancelled = ''cancelled''"
definition submissionStatusReceived :: string where "submissionStatusReceived = ''received''"
definition submissionStatusAccepted :: string where "submissionStatusAccepted = ''accepted''"
definition submissionStatusFailed :: string where "submissionStatusFailed = ''failed''"
definition maxRecordedBidSlots :: nat where "maxRecordedBidSlots = 16"

definition NewHandler :: EpbsHandler where
  "NewHandler = \<lparr>eh_prefsStore = NewBuilderPreferencesStore, eh_lastBids = Map.empty, eh_builderIndex = 0, eh_enabled = False,
     eh_bidsRequested = 0, eh_blocksAccepted = 0, eh_bidRecords = [], eh_submissions = []\<rparr>"

section \<open>Recording\<close>

text \<open>The loop that drops the smallest slots beyond the cap; the map has one entry too many at most.\<close>

fun trim_lastBids :: "nat \<Rightarrow> slot \<Rightarrow> (slot \<rightharpoonup> recordedBid) \<Rightarrow> (slot \<rightharpoonup> recordedBid)" where
  "trim_lastBids 0 s m = m"
| "trim_lastBids (Suc n) s m =
     (if card (dom m) > maxRecordedBidSlots
      then trim_lastBids n s (m(Min (insert s (dom m)) := None))
      else m)"

definition recordBid ::
  "bool \<Rightarrow> slot \<Rightarrow> DataVersion \<Rightarrow> hash32 \<Rightarrow> SignedBid option \<Rightarrow> u64 \<Rightarrow> u64 \<Rightarrow> string \<Rightarrow> api_problem option \<Rightarrow> EpbsHandler \<Rightarrow> EpbsHandler" where
  "recordBid recorder s fork blockHash signedBid totalValueGwei executionPaymentGwei status errMsg h =
     (if \<not> recorder then h
      else let entry = \<lparr>rd_status = status, rd_blockHash = blockHash, rd_value = totalValueGwei, rd_errMsg = errMsg\<rparr> in
        if eh_lastBids h s = Some entry then h
        else h\<lparr>eh_lastBids := trim_lastBids (card (dom ((eh_lastBids h)(s \<mapsto> entry)))) s ((eh_lastBids h)(s \<mapsto> entry)),
               eh_bidRecords := eh_bidRecords h @
                 [\<lparr>rcall_slot = s, rcall_fork = fork, rcall_bid = signedBid, rcall_totalValueGwei = totalValueGwei,
                   rcall_executionPaymentGwei = executionPaymentGwei, rcall_status = status, rcall_errMsg = errMsg\<rparr>]\<rparr>)"

definition recordSubmission :: "bool \<Rightarrow> slot \<Rightarrow> string \<Rightarrow> api_problem option \<Rightarrow> EpbsHandler \<Rightarrow> EpbsHandler" where
  "recordSubmission recorder s status errMsg h =
     (if recorder then h\<lparr>eh_submissions := eh_submissions h @ [(s, status, errMsg)]\<rparr> else h)"

section \<open>Authentication\<close>

definition DomainRequestAuth :: "u8 list" where
  "DomainRequestAuth = [11, 0, 0, 1]"

definition VerifyRequestAuth :: "('x, 'r) epbs_env \<Rightarrow> SignedRequestAuthV1 \<Rightarrow> pubkey \<Rightarrow> bool" where
  "VerifyRequestAuth env sauth validatorPubkey =
     (case sau_Message sauth of None \<Rightarrow> False
      | Some msg \<Rightarrow>
     (case ee_authRoot env msg of None \<Rightarrow> False
      | Some msgRoot \<Rightarrow>
          (let domain = ComputeDomain (ee_lib env) DomainRequestAuth (ee_genesisForkVersion env) zero_root;
               signingRoot = ComputeSigningRoot (ee_lib env) msgRoot domain
           in ee_VerifyBLSSignature env validatorPubkey signingRoot (sau_Signature sauth))))"

definition decode_body :: "(u8 list \<Rightarrow> 'a option) \<Rightarrow> (u8 list \<Rightarrow> 'a option) \<Rightarrow> u8 list \<Rightarrow> string \<Rightarrow> api_problem + 'a" where
  "decode_body json ssz data contentType =
     (let ct = normalizeContentType contentType in
      if ct = contentTypeSSZ then (case ssz data of None \<Rightarrow> Inl BodyUndecodable | Some v \<Rightarrow> Inr v)
      else if ct = contentTypeJSON \<or> ct = [] then (case json data of None \<Rightarrow> Inl BodyUndecodable | Some v \<Rightarrow> Inr v)
      else Inl UnsupportedContentType)"

definition decode_code :: "api_problem \<Rightarrow> nat" where
  "decode_code p = (if p = UnsupportedContentType then 415 else 400)"

record bid_request =
  brq_slot :: string
  brq_parentHash :: string
  brq_parentRoot :: string
  brq_pubkey :: string
  brq_body :: "u8 list option"
  brq_contentType :: string
  brq_preferSSZ :: bool
  brq_hangsUp :: bool
  brq_encodes :: bool
  brq_writes :: bool

text \<open>\<open>Some\<close> response when the request is turned away; an absent body is \<open>Some []\<close>, an unreadable one \<open>None\<close>.\<close>

definition check_auth :: "('x, 'r) epbs_env \<Rightarrow> bid_request \<Rightarrow> slot \<Rightarrow> pubkey \<Rightarrow> api_response option" where
  "check_auth env rq s proposerPubkey =
     (case brq_body rq of None \<Rightarrow> Some (Status 400 (Some BodyUnreadable))
      | Some authBody \<Rightarrow>
        if authBody \<noteq> [] then
          (case decode_body (ee_authJSON env) (ee_authSSZ env) authBody (brq_contentType rq) of
             Inl e \<Rightarrow> Some (Status (decode_code e) (Some e))
           | Inr signedAuth \<Rightarrow>
          (case sau_Message signedAuth of None \<Rightarrow> Some (Status 400 (Some MessageMissing))
           | Some msg \<Rightarrow>
             if au_Slot msg \<noteq> s then Some (Status 400 (Some AuthSlotMismatch))
             else if ee_BuilderURL env \<noteq> [] \<and> au_Data msg \<noteq> ee_BuilderURL env then Some (Status 400 (Some AuthUrlMismatch))
             else if \<not> VerifyRequestAuth env signedAuth proposerPubkey then Some (Status 401 (Some AuthSignatureInvalid))
             else None))
        else if ee_RequireRequestAuth env then Some (Status 401 (Some AuthMissing))
        else None)"

section \<open>getExecutionPayloadBid\<close>

text \<open>The value split: the frozen absolute value or block value plus subsidy, paid directly up to the proposer's cap.\<close>

definition bid_total :: "ResolvedBuilderAPISettings \<Rightarrow> int \<Rightarrow> u64" where
  "bid_total settings blockValue =
     (case ra_TotalValueGwei settings of
        Some v \<Rightarrow> v
      | None \<Rightarrow> of_int (blockValue div 1000000000) + ra_SubsidyGwei settings)"

definition bid_params :: "('x, 'r) epbs_env \<Rightarrow> u64 \<Rightarrow> ProposerPreferences \<Rightarrow> u64 \<Rightarrow> gwei \<Rightarrow> string \<Rightarrow> BidParams" where
  "bid_params env builderIndex prefs totalv maxExecutionPayment transform =
     \<lparr>bp_BuilderIndex = builderIndex, bp_FeeRecipient = pf_FeeRecipient prefs, bp_Value = totalv - min totalv maxExecutionPayment,
      bp_ExecutionPayment = min totalv maxExecutionPayment, bp_Transform = transform\<rparr>"

text \<open>Delivery of a built bid: the planned delay, the encoding, the write; every outcome is recorded.\<close>

definition deliver ::
  "('x, 'r) epbs_env \<Rightarrow> bid_request \<Rightarrow> slot \<Rightarrow> DataVersion \<Rightarrow> hash32 \<Rightarrow> ResolvedBuilderAPISettings \<Rightarrow> SignedBid \<Rightarrow> u64 \<Rightarrow> u64 \<Rightarrow>
     EpbsHandler \<Rightarrow> api_response \<times> EpbsHandler" where
  "deliver env rq s fork blockHash settings signedBid totalv payment h =
     (let record = (\<lambda>status err. recordBid (ee_recorder env) s fork blockHash (Some signedBid) totalv payment status err h) in
      if ra_DelayMs settings > 0 \<and> brq_hangsUp rq then (NoResponse, record bidStatusCancelled (Some RequestCancelled))
      else if brq_preferSSZ rq \<and> \<not> brq_encodes rq then (Status 500 (Some EncodeFailed), record bidStatusFailed (Some EncodeFailed))
      else if \<not> brq_writes rq then (BidServed 200 signedBid fork (brq_preferSSZ rq), record bidStatusFailed (Some WriteFailed))
      else (BidServed 200 signedBid fork (brq_preferSSZ rq), record bidStatusServed None))"

definition bid_transform :: "FrozenPlan \<Rightarrow> string" where
  "bid_transform frozen = (case fp_Transforms frozen of None \<Rightarrow> [] | Some t \<Rightarrow> rt_Bid t)"

definition served_params ::
  "('x, 'r) epbs_env \<Rightarrow> EpbsHandler \<Rightarrow> ('x, 'r) built_payload \<Rightarrow> ProposerPreferences \<Rightarrow> pubkey \<Rightarrow> FrozenPlan \<Rightarrow> ResolvedBuilderAPISettings \<Rightarrow> BidParams" where
  "served_params env h p prefs pubkey frozen settings =
     bid_params env (eh_builderIndex h) prefs (bid_total settings (p_BlockValue p)) (prefs_GetOrDefault pubkey (eh_prefsStore h))
       (bid_transform frozen)"

definition api_bid_record :: "gotime \<Rightarrow> BidParams \<Rightarrow> BidRecord" where
  "api_bid_record now params = \<lparr>br_Transport = BidTransportBuilderAPI, br_Value = bp_Value params,
     br_ExecutionPayment = bp_ExecutionPayment params, br_At = now\<rparr>"

definition build_and_deliver ::
  "('x, 'r) epbs_env \<Rightarrow> bid_request \<Rightarrow> slot \<Rightarrow> pubkey \<Rightarrow> DataVersion \<Rightarrow> u8 list \<Rightarrow> FrozenPlan \<Rightarrow> ResolvedBuilderAPISettings \<Rightarrow> payload_ref \<Rightarrow>
     ProposerPreferences \<Rightarrow> EpbsHandler \<times> ('x, 'r) RevealService \<Rightarrow> api_response \<times> EpbsHandler \<times> ('x, 'r) RevealService" where
  "build_and_deliver env rq s pubkey fork forkVersion frozen settings ref prefs hs =
     (case hs of (h, sys) \<Rightarrow>
      let p = rvs_heap sys ref;
          totalv = bid_total settings (p_BlockValue p);
          params = served_params env h p prefs pubkey frozen settings;
          payment = bp_ExecutionPayment params
      in case BuildSignedBid (ee_lib env) p params forkVersion (ee_genesisRoot env) of
           Inl e \<Rightarrow> (Status 500 (Some BidBuildFailed),
                    recordBid (ee_recorder env) s fork [] None totalv payment bidStatusFailed (Some BidBuildFailed) h, sys)
         | Inr signedBid \<Rightarrow>
             (case deliver env rq s fork (p_BlockHash p) settings signedBid totalv payment h of (resp, h') \<Rightarrow>
                (resp, h', sys\<lparr>rvs_heap := AddBid ref (api_bid_record (ee_now env) params) (rvs_heap sys)\<rparr>)))"

text \<open>From the fork on: authentication, parents, cached payload and preferences.\<close>

definition serve_bid ::
  "('x, 'r) epbs_env \<Rightarrow> bid_request \<Rightarrow> PayloadCache \<Rightarrow> pref_store \<Rightarrow> slot \<Rightarrow> pubkey \<Rightarrow> FrozenPlan \<Rightarrow> ResolvedBuilderAPISettings \<Rightarrow>
     EpbsHandler \<times> ('x, 'r) RevealService \<Rightarrow> api_response \<times> EpbsHandler \<times> ('x, 'r) RevealService" where
  "serve_bid env rq cache propPrefs s pubkey frozen settings hs =
     (case hs of (h, sys) \<Rightarrow>
      let fork = ActiveForkAtEpoch (ee_spec env) (GetEpochOfSlot (ee_spec env) s);
          fails = (\<lambda>code e. (Status code (Some e), recordBid (ee_recorder env) s fork [] None 0 0 bidStatusFailed (Some e) h, sys));
          rejects = (\<lambda>code e. (Status code (Some e), h, sys))
      in if fork < DataVersionGloas then fails 503 PreGloas
      else case spec_GetForkVersion (ee_spec env) fork of None \<Rightarrow> fails 500 ForkVersionUnknown
      | Some forkVersion \<Rightarrow>
     (case check_auth env rq s pubkey of Some resp \<Rightarrow> (resp, h, sys)
      | None \<Rightarrow>
     (case hex_bytes 32 (brq_parentHash rq) of None \<Rightarrow> rejects 400 InvalidParentHash
      | Some parentHash \<Rightarrow>
     (case hex_bytes 32 (brq_parentRoot rq) of None \<Rightarrow> rejects 400 InvalidParentRoot
      | Some parentRoot \<Rightarrow>
     (case cache_Get s cache of None \<Rightarrow> fails 204 NoCachedPayload
      | Some ref \<Rightarrow>
        if bd_ParentBlockHash (p_build (rvs_heap sys ref)) \<noteq> parentHash then fails 400 ParentHashMismatch
        else if bd_ParentBlockRoot (p_build (rvs_heap sys ref)) \<noteq> parentRoot then fails 400 ParentRootMismatch
        else (case Option.bind (Get s propPrefs) sp_Message of None \<Rightarrow> fails 400 NoProposerPreferences
      | Some prefs \<Rightarrow> build_and_deliver env rq s pubkey fork forkVersion frozen settings ref prefs (h, sys)))))))"

definition HandleGetExecutionPayloadBid ::
  "('x, 'r) epbs_env \<Rightarrow> bid_request \<Rightarrow> EpbsHandler \<times> ('x, 'r) RevealService \<Rightarrow> api_response \<times> EpbsHandler \<times> ('x, 'r) RevealService" where
  "HandleGetExecutionPayloadBid env rq hs =
     (case hs of (h, sys) \<Rightarrow>
      case (ee_cache env, ee_signer env) of
        (Some cache, Some signer) \<Rightarrow>
          if \<not> IsBuilderActive (builder_by_pubkey signer (ee_builders env)) (ee_finalized env)
          then (Status 204 (Some BuilderInactive), h, sys)
          else (case ee_propPrefs env of None \<Rightarrow> (Status 500 (Some PrefsStoreMissing), h, sys)
      | Some propPrefs \<Rightarrow>
     (case hex_pubkey (brq_pubkey rq) of None \<Rightarrow> (Status 400 (Some InvalidPubkey), h, sys)
      | Some pubkey \<Rightarrow>
     (case ParseUint (brq_slot rq) of None \<Rightarrow> (Status 400 (Some InvalidSlot), h, sys)
      | Some s \<Rightarrow>
        if s > GetCurrentSlot (ee_spec env) (ee_genesisTime env) (ee_now env) + 1 then (Status 400 (Some SlotTooFarAhead), h, sys)
        else (case Freeze (ee_spec env) (ee_cfg env) (ee_now env) s (rvs_planSvc sys) of (frozen, ps) \<Rightarrow>
          let sys = sys\<lparr>rvs_planSvc := ps\<rparr> in
          case fp_BuilderAPI frozen of
            None \<Rightarrow> (Status 204 (Some ServingSuppressed),
              recordBid (ee_recorder env) s (ActiveForkAtEpoch (ee_spec env) (GetEpochOfSlot (ee_spec env) s)) [] None 0 0 bidStatusSuppressed None h, sys)
          | Some settings \<Rightarrow>
              serve_bid env rq cache propPrefs s pubkey frozen settings (h\<lparr>eh_bidsRequested := eh_bidsRequested h + 1\<rparr>, sys)))))
      | _ \<Rightarrow> (Status 204 (Some SignerUnavailable), h, sys))"

section \<open>submitBuilderPreferences\<close>

record prefs_request =
  prq_pubkey :: string
  prq_body :: "u8 list option"
  prq_contentType :: string

definition HandleSubmitBuilderPreferences ::
  "('x, 'r) epbs_env \<Rightarrow> prefs_request \<Rightarrow> EpbsHandler \<Rightarrow> api_response \<times> EpbsHandler" where
  "HandleSubmitBuilderPreferences env rq h =
     (let rejects = (\<lambda>code e. (Status code (Some e), h)) in
      if \<not> eh_enabled h then rejects 503 NotReady
      else if ee_BuilderURL env = [] then rejects 500 UrlNotConfigured
      else case hex_pubkey (prq_pubkey rq) of None \<Rightarrow> rejects 400 InvalidPubkey
      | Some validatorPubkey \<Rightarrow>
     (case prq_body rq of None \<Rightarrow> rejects 400 BodyUnreadable
      | Some body \<Rightarrow>
     (case decode_body (ee_prefsJSON env) (ee_prefsSSZ env) body (prq_contentType rq) of
        Inl e \<Rightarrow> rejects (decode_code e) e
      | Inr req \<Rightarrow>
     (case bpr_Preferences req of None \<Rightarrow> rejects 400 MessageMissing
      | Some maxExecutionPayment \<Rightarrow>
     (case Option.bind (bpr_Auth req) (\<lambda>a. map_option (\<lambda>m. (a, m)) (sau_Message a)) of None \<Rightarrow> rejects 400 AuthMissing
      | Some (auth, msg) \<Rightarrow>
        if au_Data msg \<noteq> ee_BuilderURL env then rejects 400 AuthUrlMismatch
        else if \<not> VerifyRequestAuth env auth validatorPubkey then rejects 401 AuthSignatureInvalid
        else (Status 202 None, h\<lparr>eh_prefsStore := prefs_Set validatorPubkey maxExecutionPayment (eh_prefsStore h)\<rparr>))))))"

section \<open>submitBeaconBlock\<close>

text \<open>The fields the handler reads of a decoded block, with the outcomes of the libraries it is handed to.\<close>

record beacon_block =
  bk_bid :: "bid_message option"
  bk_parentRoot :: hash32
  bk_root :: "hash32 option"
  bk_proposal :: bool
  bk_broadcast :: bool

record block_request =
  krq_contentType :: string
  krq_version :: "DataVersion option option"
  krq_body :: "u8 list option"
  krq_decodeJSON :: "DataVersion \<Rightarrow> u8 list \<Rightarrow> beacon_block option"
  krq_decodeSSZ :: "DataVersion \<Rightarrow> u8 list \<Rightarrow> beacon_block option"

definition reveal_request :: "payload_ref \<Rightarrow> bid_message \<Rightarrow> hash32 \<Rightarrow> hash32 \<Rightarrow> raw_request" where
  "reveal_request ref bid blockRoot parentRoot =
     \<lparr>rw_Payload = Some ref,
      rw_BlockInfo = Some \<lparr>bl_Slot = bm_Slot bid, bl_Root = blockRoot, bl_ExecutionBlockHash = bm_BlockHash bid,
        bl_FinalitySafeExecutionBlockHash = zero_root, bl_ParentRoot = parentRoot, bl_StateRoot = zero_root\<rparr>,
      rw_Transport = BidTransportBuilderAPI\<rparr>"

text \<open>The result carries the block that was handed to the beacon node, if any.\<close>

definition publish_block ::
  "('x, 'r) epbs_env \<Rightarrow> PayloadCache \<Rightarrow> beacon_block \<Rightarrow> bid_message \<Rightarrow> EpbsHandler \<times> ('x, 'r) RevealService \<Rightarrow>
     api_response \<times> beacon_block option \<times> EpbsHandler \<times> ('x, 'r) RevealService" where
  "publish_block env cache block bid hs =
     (case hs of (h, sys) \<Rightarrow>
      let h = recordSubmission (ee_recorder env) (bm_Slot bid) submissionStatusReceived None h;
          fails = (\<lambda>code e sent. (Status code (Some e), sent, recordSubmission (ee_recorder env) (bm_Slot bid) submissionStatusFailed (Some e) h, sys))
      in case GetByBlockHash (ee_order env) (rvs_heap sys) (bm_BlockHash bid) cache of None \<Rightarrow> fails 400 NoCachedPayload None
      | Some ref \<Rightarrow>
     (case bk_root block of None \<Rightarrow> fails 500 BlockRootFailed None
      | Some blockRoot \<Rightarrow>
        if \<not> bk_proposal block then fails 500 ProposalFailed None
        else if \<not> bk_broadcast block then fails 500 BroadcastFailed (Some block)
        else (let h = recordSubmission (ee_recorder env) (bm_Slot bid) submissionStatusAccepted None h in
              (Status 202 None, Some block, h\<lparr>eh_blocksAccepted := eh_blocksAccepted h + 1\<rparr>,
               RequestReveal (Some (reveal_request ref bid blockRoot (bk_parentRoot block))) sys))))"

definition HandleSubmitBeaconBlock ::
  "('x, 'r) epbs_env \<Rightarrow> bool \<Rightarrow> block_request \<Rightarrow> EpbsHandler \<times> ('x, 'r) RevealService \<Rightarrow>
     api_response \<times> beacon_block option \<times> EpbsHandler \<times> ('x, 'r) RevealService" where
  "HandleSubmitBeaconBlock env wired rq hs =
     (case hs of (h, sys) \<Rightarrow>
      let rejects = (\<lambda>code e. (Status code (Some e), None, h, sys)); ct = normalizeContentType (krq_contentType rq) in
      case ee_cache env of None \<Rightarrow> rejects 503 NotReady
      | Some cache \<Rightarrow>
        if \<not> eh_enabled h then rejects 503 NotReady
        else if \<not> wired then rejects 503 NotReady
        else if ct \<noteq> contentTypeJSON \<and> ct \<noteq> contentTypeSSZ \<and> ct \<noteq> [] then rejects 415 UnsupportedContentType
        else if GetCurrentFork (ee_spec env) (ee_genesisTime env) (ee_now env) < DataVersionGloas then rejects 503 PreGloas
        else (case krq_version rq of Some None \<Rightarrow> rejects 400 InvalidVersionHeader
      | hdr \<Rightarrow>
          let fork = (case hdr of Some (Some v) \<Rightarrow> v | _ \<Rightarrow> GetCurrentFork (ee_spec env) (ee_genesisTime env) (ee_now env)) in
          if fork < DataVersionGloas then rejects 400 PreGloas
          else (case krq_body rq of None \<Rightarrow> rejects 400 BodyUnreadable
      | Some body \<Rightarrow>
     (case (if ct = contentTypeSSZ then krq_decodeSSZ rq fork body else krq_decodeJSON rq fork body) of None \<Rightarrow> rejects 400 BodyUndecodable
      | Some block \<Rightarrow>
     (case bk_bid block of None \<Rightarrow> rejects 400 BidMissing
      | Some bid \<Rightarrow> publish_block env cache block bid (h, sys))))))"

section \<open>Facts\<close>

lemma recordBid_frame [simp]:
  "eh_prefsStore (recordBid rec s fork bh sb v e st er h) = eh_prefsStore h"
  "eh_builderIndex (recordBid rec s fork bh sb v e st er h) = eh_builderIndex h"
  "eh_enabled (recordBid rec s fork bh sb v e st er h) = eh_enabled h"
  "eh_submissions (recordBid rec s fork bh sb v e st er h) = eh_submissions h"
  by (simp_all add: recordBid_def Let_def)

lemma recordBid_twice:
  assumes "eh_lastBids (recordBid True s fork bh sb v e st er h) s = Some \<lparr>rd_status = st, rd_blockHash = bh, rd_value = v, rd_errMsg = er\<rparr>"
  shows "recordBid True s fork' bh sb' v e' st er (recordBid True s fork bh sb v e st er h) = recordBid True s fork bh sb v e st er h"
  unfolding recordBid_def [of True s fork'] Let_def using assms by simp

lemma check_auth_passes:
  assumes "check_auth env rq s pubkey = None"
  shows "brq_body rq = Some [] \<and> \<not> ee_RequireRequestAuth env \<or>
     (\<exists>body auth msg. brq_body rq = Some body \<and> decode_body (ee_authJSON env) (ee_authSSZ env) body (brq_contentType rq) = Inr auth \<and>
        sau_Message auth = Some msg \<and> au_Slot msg = s \<and> (ee_BuilderURL env \<noteq> [] \<longrightarrow> au_Data msg = ee_BuilderURL env) \<and>
        VerifyRequestAuth env auth pubkey)"
  using assms by (auto simp: check_auth_def split: option.splits sum.splits if_splits)

lemma bid_params_split:
  "bp_Value (bid_params env i prefs totalv cap t) + bp_ExecutionPayment (bid_params env i prefs totalv cap t) = totalv"
  "bp_ExecutionPayment (bid_params env i prefs totalv cap t) \<le> cap"
  by (simp_all add: bid_params_def)

lemma deliver_served:
  "deliver env rq s fork bh settings sb totalv payment h = (BidServed code sb' fork' ssz, h') \<Longrightarrow> sb' = sb \<and> fork' = fork \<and> code = 200"
  by (auto simp: deliver_def Let_def split: if_splits)

lemma build_and_deliver_served:
  assumes "build_and_deliver env rq s pubkey fork fv frozen settings ref prefs (h, sys) = (BidServed code sb fork' ssz, h', sys')"
  shows "fork' = fork \<and>
    BuildSignedBid (ee_lib env) (rvs_heap sys ref) (served_params env h (rvs_heap sys ref) prefs pubkey frozen settings) fv (ee_genesisRoot env) = Inr sb \<and>
    sys' = sys\<lparr>rvs_heap := AddBid ref (api_bid_record (ee_now env) (served_params env h (rvs_heap sys ref) prefs pubkey frozen settings))
      (rvs_heap sys)\<rparr>"
proof (cases "BuildSignedBid (ee_lib env) (rvs_heap sys ref) (served_params env h (rvs_heap sys ref) prefs pubkey frozen settings) fv (ee_genesisRoot env)")
  case (Inr bid)
  then show ?thesis
    using assms by (auto simp: build_and_deliver_def Let_def dest: deliver_served split: prod.splits)
qed (use assms in \<open>simp add: build_and_deliver_def Let_def\<close>)

lemma serve_bid_served:
  assumes "serve_bid env rq cache propPrefs s pubkey frozen settings (h, sys) = (BidServed code sb fork ssz, h', sys')"
  shows "\<exists>fv parentHash parentRoot ref prefs.
    fork = ActiveForkAtEpoch (ee_spec env) (GetEpochOfSlot (ee_spec env) s) \<and> DataVersionGloas \<le> fork \<and>
    spec_GetForkVersion (ee_spec env) fork = Some fv \<and> check_auth env rq s pubkey = None \<and>
    hex_bytes 32 (brq_parentHash rq) = Some parentHash \<and> hex_bytes 32 (brq_parentRoot rq) = Some parentRoot \<and>
    cache_Get s cache = Some ref \<and> bd_ParentBlockHash (p_build (rvs_heap sys ref)) = parentHash \<and>
    bd_ParentBlockRoot (p_build (rvs_heap sys ref)) = parentRoot \<and> Option.bind (Get s propPrefs) sp_Message = Some prefs \<and>
    build_and_deliver env rq s pubkey fork fv frozen settings ref prefs (h, sys) = (BidServed code sb fork ssz, h', sys')"
proof -
  let ?fork = "ActiveForkAtEpoch (ee_spec env) (GetEpochOfSlot (ee_spec env) s)"
  have gloas: "\<not> ?fork < DataVersionGloas" using assms by (auto simp: serve_bid_def Let_def)
  obtain fv where fv: "spec_GetForkVersion (ee_spec env) ?fork = Some fv"
    using assms gloas by (cases "spec_GetForkVersion (ee_spec env) ?fork") (auto simp: serve_bid_def Let_def)
  have auth: "check_auth env rq s pubkey = None"
  proof (cases "check_auth env rq s pubkey")
    case (Some resp)
    then have "resp = BidServed code sb fork ssz" using assms gloas fv by (simp add: serve_bid_def Let_def)
    then show ?thesis using Some by (auto simp: check_auth_def split: option.splits sum.splits if_splits)
  qed
  obtain parentHash where ph: "hex_bytes 32 (brq_parentHash rq) = Some parentHash"
    using assms gloas fv auth by (cases "hex_bytes 32 (brq_parentHash rq)") (auto simp: serve_bid_def Let_def)
  obtain parentRoot where pr: "hex_bytes 32 (brq_parentRoot rq) = Some parentRoot"
    using assms gloas fv auth ph by (cases "hex_bytes 32 (brq_parentRoot rq)") (auto simp: serve_bid_def Let_def)
  obtain ref where ref: "cache_Get s cache = Some ref"
    using assms gloas fv auth ph pr by (cases "cache_Get s cache") (auto simp: serve_bid_def Let_def)
  have parents: "bd_ParentBlockHash (p_build (rvs_heap sys ref)) = parentHash" "bd_ParentBlockRoot (p_build (rvs_heap sys ref)) = parentRoot"
    using assms gloas fv auth ph pr ref by (auto simp: serve_bid_def Let_def split: if_splits)
  obtain prefs where prefs: "Option.bind (Get s propPrefs) sp_Message = Some prefs"
    using assms gloas fv auth ph pr ref parents by (cases "Option.bind (Get s propPrefs) sp_Message") (auto simp: serve_bid_def Let_def)
  have "build_and_deliver env rq s pubkey ?fork fv frozen settings ref prefs (h, sys) = (BidServed code sb fork ssz, h', sys')"
    using assms gloas fv auth ph pr ref parents prefs by (simp add: serve_bid_def Let_def)
  moreover from this have "fork = ?fork" using build_and_deliver_served by blast
  ultimately show ?thesis using gloas fv auth ph pr ref parents prefs by (auto simp: not_less)
qed

lemma handle_bid_served:
  assumes "HandleGetExecutionPayloadBid env rq (h, sys) = (BidServed code sb fork ssz, h', sys')"
  shows "\<exists>cache signer propPrefs pubkey s frozen ps settings.
    ee_cache env = Some cache \<and> ee_signer env = Some signer \<and> ee_propPrefs env = Some propPrefs \<and>
    IsBuilderActive (builder_by_pubkey signer (ee_builders env)) (ee_finalized env) \<and>
    hex_pubkey (brq_pubkey rq) = Some pubkey \<and> ParseUint (brq_slot rq) = Some s \<and>
    s \<le> GetCurrentSlot (ee_spec env) (ee_genesisTime env) (ee_now env) + 1 \<and>
    Freeze (ee_spec env) (ee_cfg env) (ee_now env) s (rvs_planSvc sys) = (frozen, ps) \<and> fp_BuilderAPI frozen = Some settings \<and>
    serve_bid env rq cache propPrefs s pubkey frozen settings (h\<lparr>eh_bidsRequested := eh_bidsRequested h + 1\<rparr>, sys\<lparr>rvs_planSvc := ps\<rparr>) =
      (BidServed code sb fork ssz, h', sys')"
proof -
  obtain cache signer where cs: "ee_cache env = Some cache" "ee_signer env = Some signer"
    using assms by (auto simp: HandleGetExecutionPayloadBid_def split: option.splits)
  have active: "IsBuilderActive (builder_by_pubkey signer (ee_builders env)) (ee_finalized env)"
    using assms cs by (auto simp: HandleGetExecutionPayloadBid_def split: if_splits)
  obtain propPrefs where pp: "ee_propPrefs env = Some propPrefs"
    using assms cs active by (cases "ee_propPrefs env") (simp_all add: HandleGetExecutionPayloadBid_def)
  obtain pubkey where pk: "hex_pubkey (brq_pubkey rq) = Some pubkey"
    using assms cs active pp by (cases "hex_pubkey (brq_pubkey rq)") (simp_all add: HandleGetExecutionPayloadBid_def)
  obtain s where s: "ParseUint (brq_slot rq) = Some s"
    using assms cs active pp pk by (cases "ParseUint (brq_slot rq)") (simp_all add: HandleGetExecutionPayloadBid_def)
  have near: "\<not> s > GetCurrentSlot (ee_spec env) (ee_genesisTime env) (ee_now env) + 1"
    using assms cs active pp pk s by (auto simp: HandleGetExecutionPayloadBid_def split: if_splits)
  obtain frozen ps where fz: "Freeze (ee_spec env) (ee_cfg env) (ee_now env) s (rvs_planSvc sys) = (frozen, ps)" by fastforce
  obtain settings where st: "fp_BuilderAPI frozen = Some settings"
    using assms cs active pp pk s near fz by (cases "fp_BuilderAPI frozen") (simp_all add: HandleGetExecutionPayloadBid_def Let_def)
  show ?thesis
    using assms cs active pp pk s near fz st by (auto simp: HandleGetExecutionPayloadBid_def Let_def not_less)
qed

section \<open>Properties\<close>



text \<open>An active builder with a cached payload for slot 320 (epoch 10, Gloas) and the proposer's preferences.\<close>

definition demo_api_payload :: "(unit, unit) built_payload" where
  "demo_api_payload = (demo_built 320)\<lparr>p_build := (p_build (demo_built 320))\<lparr>bd_ParentBlockHash := replicate 32 1, bd_ParentBlockRoot := replicate 32 2\<rparr>\<rparr>"

definition demo_api_sys :: "(unit, unit) RevealService" where
  "demo_api_sys = NewRevealService NewPlanService (\<lambda>_. demo_api_payload) None demo_stats"

definition demo_api_prefs :: pref_store where
  "demo_api_prefs = NewProposerPreferencesService\<lparr>entries := [(320,
     \<lparr>sp_Message = Some \<lparr>pf_ProposalSlot = 320, pf_ValidatorIndex = 4, pf_FeeRecipient = [6], pf_TargetGasLimit = 30\<rparr>, sp_Signature = []\<rparr>)]\<rparr>"

definition demo_auth :: SignedRequestAuthV1 where
  "demo_auth = \<lparr>sau_Message = Some \<lparr>au_Data = ''http://b'', au_Slot = 320\<rparr>, sau_Signature = [9]\<rparr>"

definition demo_api_env :: "(unit, unit) epbs_env" where
  "demo_api_env = \<lparr>ee_lib = demo_lib, ee_authRoot = (\<lambda>_. Some [1]), ee_VerifyBLSSignature = (\<lambda>_ _ sig. sig = [9]),
     ee_authJSON = (\<lambda>_. Some demo_auth), ee_authSSZ = (\<lambda>_. None),
     ee_prefsJSON = (\<lambda>_. Some \<lparr>bpr_Preferences = Some 2, bpr_Auth = Some demo_auth\<rparr>), ee_prefsSSZ = (\<lambda>_. None),
     ee_spec = demo_spec, ee_genesisTime = 0, ee_genesisForkVersion = [0, 0, 0, 0], ee_genesisRoot = [],
     ee_cfg = DefaultConfig\<lparr>cfg_APIPort := 9000, cfg_BuilderAPIEnabled := True\<rparr>, ee_BuilderURL = ''http://b'', ee_RequireRequestAuth = True,
     ee_now = 3840000000000,
     ee_builders = [\<lparr>bi_Index = 0, bi_Pubkey = [5], bi_Balance = 0, bi_Active = True, bi_DepositEpoch = 3,
       bi_WithdrawableEpoch = FarFutureEpoch, bi_PendingPayments = 0\<rparr>],
     ee_finalized = 8, ee_signer = Some [5], ee_cache = Some \<lparr>pc_payloads = [(320, 0)], pc_maxSlots = 10\<rparr>, ee_order = (\<lambda>l. l),
     ee_propPrefs = Some demo_api_prefs, ee_recorder = True\<rparr>"

definition demo_bid_request :: bid_request where
  "demo_bid_request = \<lparr>brq_slot = ''320'', brq_parentHash = ''0x'' @ hex_EncodeToString (replicate 32 1), brq_parentRoot = ''0x'' @ hex_EncodeToString (replicate 32 2),
     brq_pubkey = ''0x'' @ hex_EncodeToString (replicate 48 7), brq_body = Some [1], brq_contentType = ''application/json'', brq_preferSSZ = False,
     brq_hangsUp = False, brq_encodes = True, brq_writes = True\<rparr>"

lemma hex_bytes_encoded: "length bs = n \<Longrightarrow> hex_bytes n (''0x'' @ hex_EncodeToString bs) = Some bs"
  by (simp add: hex_bytes_def trimHex_def)

lemma demo_request_parses:
  "hex_bytes 32 (brq_parentHash demo_bid_request) = Some (replicate 32 1)"
  "hex_bytes 32 (brq_parentRoot demo_bid_request) = Some (replicate 32 2)"
  "hex_pubkey (brq_pubkey demo_bid_request) = Some (Pubkey (replicate 48 7))"
  unfolding demo_bid_request_def bid_request.select_convs hex_pubkey_def
  by (simp_all only: hex_bytes_encoded length_replicate option.map)

lemma demo_slot_parses: "ParseUint ''320'' = Some 320"
  by (simp add: ParseUint_def digit_val_def of_char_def)

lemma demo_json: "normalizeContentType ''application/json'' = contentTypeJSON" by code_simp

lemma demo_chain:
  "ActiveForkAtEpoch demo_spec (GetEpochOfSlot demo_spec 320) = DataVersionGloas"
  "GetCurrentSlot demo_spec 0 3840000000000 = 320"
  "spec_GetForkVersion demo_spec DataVersionGloas = Some [8, 0, 0, 0]"
  by code_simp+

lemma demo_freeze:
  "Freeze demo_spec (ee_cfg demo_api_env) now 320 NewPlanService =
     (resolveFrozenPlan 320 None (ee_cfg demo_api_env) DataVersionGloas now 0, NewPlanService\<lparr>ps_frozen :=
        [320 \<mapsto> resolveFrozenPlan 320 None (ee_cfg demo_api_env) DataVersionGloas now 0]\<rparr>)"
  by (simp add: Freeze_def NewPlanService_def New_def newStore_def Get_def demo_chain Let_def)

lemma demo_api_settings:
  "fp_BuilderAPI (resolveFrozenPlan 320 None (ee_cfg demo_api_env) f now 0) =
     Some \<lparr>ra_SubsidyGwei = 100000, ra_TotalValueGwei = None, ra_DelayMs = 0, ra_Forced = False\<rparr>"
  "fp_Transforms (resolveFrozenPlan 320 None (ee_cfg demo_api_env) f now 0) = None"
  by (simp_all add: resolveFrozenPlan_def resolveBuilderAPI_def resolveTransforms_def BuilderAPIOverride_def demo_api_env_def DefaultConfig_def Let_def)

lemma demo_auth_passes: "check_auth demo_api_env demo_bid_request 320 pk = None"
  by (simp add: check_auth_def demo_api_env_def demo_bid_request_def decode_body_def demo_json demo_auth_def VerifyRequestAuth_def
      contentTypeJSON_def contentTypeSSZ_def)

lemma demo_env_fields:
  "ee_cache demo_api_env = Some \<lparr>pc_payloads = [(320, 0)], pc_maxSlots = 10\<rparr>" "ee_signer demo_api_env = Some [5]"
  "ee_propPrefs demo_api_env = Some demo_api_prefs" "ee_spec demo_api_env = demo_spec" "ee_genesisTime demo_api_env = 0"
  "ee_now demo_api_env = 3840000000000" "ee_lib demo_api_env = demo_lib" "ee_recorder demo_api_env = True" "ee_genesisRoot demo_api_env = []"
  "IsBuilderActive (builder_by_pubkey [5] (ee_builders demo_api_env)) (ee_finalized demo_api_env)"
  by (simp_all add: demo_api_env_def builder_by_pubkey_def IsBuilderActive_def)

lemma demo_request_fields:
  "brq_slot demo_bid_request = ''320''" "brq_preferSSZ demo_bid_request = False" "brq_writes demo_bid_request = True" "brq_hangsUp demo_bid_request = False"
  by (simp_all only: demo_bid_request_def bid_request.select_convs)

lemma demo_sys_fields: "rvs_planSvc demo_api_sys = NewPlanService" "rvs_heap demo_api_sys ref = demo_api_payload"
  by (simp_all add: demo_api_sys_def NewRevealService_def)

lemma demo_parents:
  "bd_ParentBlockHash (p_build demo_api_payload) = replicate 32 1" "bd_ParentBlockRoot (p_build demo_api_payload) = replicate 32 2"
  by (simp_all only: demo_api_payload_def demo_built_def, simp_all)

lemma demo_signed: "bp_Transform params = [] \<Longrightarrow> \<exists>sb. BuildSignedBid demo_lib demo_api_payload params fv gr = Inr sb"
  by (simp add: BuildSignedBid_def demo_lib_def SignBid_def sign_root_def Let_def)

lemma demo_prefs_found: "Option.bind (Get 320 demo_api_prefs) sp_Message =
    Some \<lparr>pf_ProposalSlot = 320, pf_ValidatorIndex = 4, pf_FeeRecipient = [6], pf_TargetGasLimit = 30\<rparr>"
  by (simp add: demo_api_prefs_def Get_def NewProposerPreferencesService_def NewKeepExisting_def newStore_def)

lemma demo_bid_served:
  "\<exists>sb h' sys'. HandleGetExecutionPayloadBid demo_api_env demo_bid_request (NewHandler, demo_api_sys) =
     (BidServed 200 sb DataVersionGloas False, h', sys')"
proof -
  let ?frozen = "resolveFrozenPlan 320 None (ee_cfg demo_api_env) DataVersionGloas 3840000000000 0"
  let ?settings = "\<lparr>ra_SubsidyGwei = 100000, ra_TotalValueGwei = None, ra_DelayMs = 0, ra_Forced = False\<rparr>"
  let ?prefs = "\<lparr>pf_ProposalSlot = 320, pf_ValidatorIndex = 4, pf_FeeRecipient = [6], pf_TargetGasLimit = 30\<rparr>"
  let ?h = "NewHandler\<lparr>eh_bidsRequested := eh_bidsRequested NewHandler + 1\<rparr>"
  let ?params = "served_params demo_api_env ?h demo_api_payload ?prefs (Pubkey (replicate 48 7)) ?frozen ?settings"
  have "bp_Transform ?params = []"
    by (simp only: served_params_def bid_params_def BidParams.select_convs bid_transform_def demo_api_settings option.case)
  then obtain sb where sb: "BuildSignedBid demo_lib demo_api_payload ?params [8, 0, 0, 0] [] = Inr sb" using demo_signed by blast
  have "\<exists>h' sys'. build_and_deliver demo_api_env demo_bid_request 320 (Pubkey (replicate 48 7)) DataVersionGloas [8, 0, 0, 0] ?frozen ?settings 0 ?prefs
      (?h, demo_api_sys\<lparr>rvs_planSvc := ps\<rparr>) = (BidServed 200 sb DataVersionGloas False, h', sys')" for ps
    unfolding build_and_deliver_def Let_def deliver_def
    using sb by (simp add: demo_sys_fields demo_env_fields demo_request_fields)
  moreover have "cache_Get 320 \<lparr>pc_payloads = [(320, 0)], pc_maxSlots = 10\<rparr> = Some 0" by (simp add: cache_Get_def)
  ultimately show ?thesis
    unfolding HandleGetExecutionPayloadBid_def serve_bid_def Let_def
    by (simp add: demo_sys_fields demo_env_fields demo_request_fields demo_request_parses demo_slot_parses demo_chain demo_freeze
        demo_api_settings demo_auth_passes demo_parents demo_prefs_found) blast
qed


section \<open>What the handlers may change\<close>

lemma deliver_frame: "eh_prefsStore (snd (deliver env rq s fork bh settings sb totalv payment h)) = eh_prefsStore h"
  by (simp add: deliver_def Let_def)

lemma build_and_deliver_frame:
  assumes "build_and_deliver env rq s pubkey fork fv frozen settings ref prefs (h, sys) = (resp, h', sys')"
  shows "eh_prefsStore h' = eh_prefsStore h \<and> rvs_requests sys' = rvs_requests sys \<and> rvs_planSvc sys' = rvs_planSvc sys"
proof (cases "BuildSignedBid (ee_lib env) (rvs_heap sys ref) (served_params env h (rvs_heap sys ref) prefs pubkey frozen settings) fv (ee_genesisRoot env)")
  case (Inr bid)
  then show ?thesis
    using assms deliver_frame [of env rq s fork "p_BlockHash (rvs_heap sys ref)" settings bid]
    by (auto simp: build_and_deliver_def Let_def split: prod.splits) (metis snd_conv)
qed (use assms in \<open>auto simp: build_and_deliver_def Let_def\<close>)

lemma serve_bid_frame:
  assumes "serve_bid env rq cache propPrefs s pubkey frozen settings (h, sys) = (resp, h', sys')"
  shows "eh_prefsStore h' = eh_prefsStore h \<and> rvs_requests sys' = rvs_requests sys \<and> rvs_planSvc sys' = rvs_planSvc sys"
  using assms unfolding serve_bid_def Let_def prod.case
  by (auto dest: build_and_deliver_frame split: if_split_asm option.split_asm)

lemma handle_bid_frame:
  assumes "HandleGetExecutionPayloadBid env rq (h, sys) = (resp, h', sys')"
  shows "h' = h \<and> sys' = sys \<or>
    (\<exists>s. ParseUint (brq_slot rq) = Some s \<and> s \<le> GetCurrentSlot (ee_spec env) (ee_genesisTime env) (ee_now env) + 1 \<and>
       rvs_planSvc sys' = snd (Freeze (ee_spec env) (ee_cfg env) (ee_now env) s (rvs_planSvc sys)) \<and>
       eh_prefsStore h' = eh_prefsStore h \<and> rvs_requests sys' = rvs_requests sys)"
proof (cases "\<exists>cache signer propPrefs pubkey s. ee_cache env = Some cache \<and> ee_signer env = Some signer \<and> ee_propPrefs env = Some propPrefs \<and>
    IsBuilderActive (builder_by_pubkey signer (ee_builders env)) (ee_finalized env) \<and>
    hex_pubkey (brq_pubkey rq) = Some pubkey \<and> ParseUint (brq_slot rq) = Some s \<and>
    s \<le> GetCurrentSlot (ee_spec env) (ee_genesisTime env) (ee_now env) + 1")
  case False
  then show ?thesis
    using assms unfolding HandleGetExecutionPayloadBid_def prod.case by (auto simp: not_less split: option.split_asm if_split_asm)
next
  case True
  then obtain cache signer propPrefs pubkey s where g: "ee_cache env = Some cache" "ee_signer env = Some signer" "ee_propPrefs env = Some propPrefs"
    "IsBuilderActive (builder_by_pubkey signer (ee_builders env)) (ee_finalized env)"
    "hex_pubkey (brq_pubkey rq) = Some pubkey" "ParseUint (brq_slot rq) = Some s"
    "s \<le> GetCurrentSlot (ee_spec env) (ee_genesisTime env) (ee_now env) + 1" by blast
  have near: "\<not> GetCurrentSlot (ee_spec env) (ee_genesisTime env) (ee_now env) + 1 < s" using g(7) by (rule leD)
  obtain frozen ps where fz: "Freeze (ee_spec env) (ee_cfg env) (ee_now env) s (rvs_planSvc sys) = (frozen, ps)" by fastforce
  show ?thesis
  proof (cases "fp_BuilderAPI frozen")
    case None
    then have "sys' = sys\<lparr>rvs_planSvc := ps\<rparr>" "eh_prefsStore h' = eh_prefsStore h"
      using assms g(1-6) near fz by (auto simp: HandleGetExecutionPayloadBid_def Let_def)
    then show ?thesis using g fz by simp
  next
    case (Some settings)
    then have "serve_bid env rq cache propPrefs s pubkey frozen settings (h\<lparr>eh_bidsRequested := eh_bidsRequested h + 1\<rparr>, sys\<lparr>rvs_planSvc := ps\<rparr>) =
      (resp, h', sys')" using assms g(1-6) near fz by (simp add: HandleGetExecutionPayloadBid_def Let_def)
    then show ?thesis using serve_bid_frame g fz by fastforce
  qed
qed

lemma submit_prefs_cases:
  assumes "HandleSubmitBuilderPreferences env rq h = (resp, h')"
  shows "h' = h \<or> (\<exists>pubkey body req cap auth msg. resp = Status 202 None \<and> hex_pubkey (prq_pubkey rq) = Some pubkey \<and> prq_body rq = Some body \<and>
    decode_body (ee_prefsJSON env) (ee_prefsSSZ env) body (prq_contentType rq) = Inr req \<and> bpr_Preferences req = Some cap \<and>
    bpr_Auth req = Some auth \<and> sau_Message auth = Some msg \<and> ee_BuilderURL env \<noteq> [] \<and> au_Data msg = ee_BuilderURL env \<and>
    VerifyRequestAuth env auth pubkey \<and> h' = h\<lparr>eh_prefsStore := prefs_Set pubkey cap (eh_prefsStore h)\<rparr>)"
  using assms unfolding HandleSubmitBuilderPreferences_def Let_def
  by (auto split: option.split_asm sum.split_asm if_split_asm bind_split_asm)

lemma GetByBlockHash_hash: "GetByBlockHash ord heap bh cache = Some ref \<Longrightarrow> p_BlockHash (heap ref) = bh"
  by (auto simp: GetByBlockHash_def find_Some_iff)

lemma publish_block_cases:
  assumes "publish_block env cache block bid (h, sys) = (resp, sent, h', sys')"
  shows "sys' = sys \<and> resp \<noteq> Status 202 None \<or>
    (\<exists>ref root. resp = Status 202 None \<and> sent = Some block \<and> bk_broadcast block \<and> bk_root block = Some root \<and>
       GetByBlockHash (ee_order env) (rvs_heap sys) (bm_BlockHash bid) cache = Some ref \<and>
       sys' = RequestReveal (Some (reveal_request ref bid root (bk_parentRoot block))) sys)"
  using assms unfolding publish_block_def Let_def by (auto split: option.split_asm if_split_asm)

lemma submit_block_cases:
  assumes "HandleSubmitBeaconBlock env wired rq (h, sys) = (resp, sent, h', sys')"
  shows "sys' = sys \<and> resp \<noteq> Status 202 None \<or>
    (\<exists>cache block bid fork bytes. ee_cache env = Some cache \<and> eh_enabled h \<and> krq_body rq = Some bytes \<and>
       (if normalizeContentType (krq_contentType rq) = contentTypeSSZ then krq_decodeSSZ rq fork bytes else krq_decodeJSON rq fork bytes) = Some block \<and>
       bk_bid block = Some bid \<and>
       publish_block env cache block bid (h, sys) = (resp, sent, h', sys'))"
  using assms unfolding HandleSubmitBeaconBlock_def Let_def prod.case
  by (auto split: option.split_asm if_split_asm)

text \<open>
  C36: what a request may change.  A bid request either changes nothing or freezes exactly the requested slot, which is at most one ahead, and
  it never stores preferences nor queues a reveal.  Preferences are stored only for the key of the path, under a verified authentication
  for this builder's URL, with the submitted cap, and only then answered with 202.  A submitted block queues a reveal only after the beacon
  node took the block, for the cached payload whose hash the block's bid carries, and only then is it answered with 202.\<close>

theorem api_changes_authorised:
  assumes "HandleGetExecutionPayloadBid env rq (h, sys) = (resp, h1, sys1)"
    and "HandleSubmitBuilderPreferences env prq h = (presp, h2)"
    and "HandleSubmitBeaconBlock env wired krq (h, sys) = (kresp, sent, h3, sys3)"
  shows "(h1 = h \<and> sys1 = sys \<or>
    (\<exists>s. ParseUint (brq_slot rq) = Some s \<and> s \<le> GetCurrentSlot (ee_spec env) (ee_genesisTime env) (ee_now env) + 1 \<and>
       rvs_planSvc sys1 = snd (Freeze (ee_spec env) (ee_cfg env) (ee_now env) s (rvs_planSvc sys)) \<and>
       eh_prefsStore h1 = eh_prefsStore h \<and> rvs_requests sys1 = rvs_requests sys)) \<and>
    (h2 = h \<or>
    (\<exists>pubkey body req cap auth msg. presp = Status 202 None \<and> hex_pubkey (prq_pubkey prq) = Some pubkey \<and> prq_body prq = Some body \<and>
       decode_body (ee_prefsJSON env) (ee_prefsSSZ env) body (prq_contentType prq) = Inr req \<and> bpr_Preferences req = Some cap \<and>
       bpr_Auth req = Some auth \<and> sau_Message auth = Some msg \<and> ee_BuilderURL env \<noteq> [] \<and> au_Data msg = ee_BuilderURL env \<and>
       VerifyRequestAuth env auth pubkey \<and> h2 = h\<lparr>eh_prefsStore := prefs_Set pubkey cap (eh_prefsStore h)\<rparr>)) \<and>
    (sys3 = sys \<and> kresp \<noteq> Status 202 None \<or>
    (\<exists>block bid ref root fork bytes. kresp = Status 202 None \<and> krq_body krq = Some bytes \<and>
       (if normalizeContentType (krq_contentType krq) = contentTypeSSZ then krq_decodeSSZ krq fork bytes else krq_decodeJSON krq fork bytes) = Some block \<and>
       sent = Some block \<and> bk_broadcast block \<and> bk_bid block = Some bid \<and> bk_root block = Some root \<and>
       p_BlockHash (rvs_heap sys ref) = bm_BlockHash bid \<and>
       sys3 = RequestReveal (Some (reveal_request ref bid root (bk_parentRoot block))) sys))"
proof (intro conjI)
  show "sys3 = sys \<and> kresp \<noteq> Status 202 None \<or>
    (\<exists>block bid ref root fork bytes. kresp = Status 202 None \<and> krq_body krq = Some bytes \<and>
       (if normalizeContentType (krq_contentType krq) = contentTypeSSZ then krq_decodeSSZ krq fork bytes else krq_decodeJSON krq fork bytes) = Some block \<and>
       sent = Some block \<and> bk_broadcast block \<and> bk_bid block = Some bid \<and> bk_root block = Some root \<and>
       p_BlockHash (rvs_heap sys ref) = bm_BlockHash bid \<and>
       sys3 = RequestReveal (Some (reveal_request ref bid root (bk_parentRoot block))) sys)"
    using submit_block_cases [OF assms(3)] by (blast dest: publish_block_cases GetByBlockHash_hash)
qed (rule handle_bid_frame [OF assms(1)], rule submit_prefs_cases [OF assms(2)])

definition demo_handler :: EpbsHandler where
  "demo_handler = NewHandler\<lparr>eh_enabled := True\<rparr>"

definition demo_prefs_request :: prefs_request where
  "demo_prefs_request = \<lparr>prq_pubkey = ''0x'' @ hex_EncodeToString (replicate 48 7), prq_body = Some [1], prq_contentType = []\<rparr>"

definition demo_beacon_block :: beacon_block where
  "demo_beacon_block = \<lparr>bk_bid = Some (bid_of demo_api_payload \<lparr>bp_BuilderIndex = 0, bp_FeeRecipient = [6], bp_Value = 5, bp_ExecutionPayment = 0,
     bp_Transform = []\<rparr> [7]), bk_parentRoot = [2], bk_root = Some [4], bk_proposal = True, bk_broadcast = True\<rparr>"

definition demo_block_request :: block_request where
  "demo_block_request = \<lparr>krq_contentType = [], krq_version = None, krq_body = Some [], krq_decodeJSON = (\<lambda>_ _. Some demo_beacon_block),
     krq_decodeSSZ = (\<lambda>_ _. None)\<rparr>"

lemma demo_current_fork: "GetCurrentFork demo_spec 0 3840000000000 = DataVersionGloas" by code_simp

lemma demo_untyped: "normalizeContentType [] = []" by (simp add: normalizeContentType_def TrimSpace_def)

lemma demo_handler_fields: "eh_enabled demo_handler" "eh_prefsStore demo_handler = NewBuilderPreferencesStore"
  by (simp_all add: demo_handler_def NewHandler_def)

lemma demo_prefs_stored: "fst (HandleSubmitBuilderPreferences demo_api_env demo_prefs_request demo_handler) = Status 202 None"
  unfolding HandleSubmitBuilderPreferences_def demo_prefs_request_def prefs_request.select_convs hex_pubkey_def
    hex_bytes_encoded [OF length_replicate] option.map option.case
  by (simp add: demo_handler_fields decode_body_def demo_untyped contentTypeSSZ_def contentTypeJSON_def demo_api_env_def demo_auth_def
      VerifyRequestAuth_def Let_def)

lemma demo_block_found:
  "GetByBlockHash (ee_order demo_api_env) (\<lambda>_. demo_api_payload) (bm_BlockHash (the (bk_bid demo_beacon_block))) \<lparr>pc_payloads = [(320, 0)], pc_maxSlots = 10\<rparr> = Some 0"
  by (simp add: GetByBlockHash_def demo_api_env_def demo_beacon_block_def bid_of_def Let_def)

lemma demo_block_accepted: "fst (HandleSubmitBeaconBlock demo_api_env True demo_block_request (demo_handler, demo_api_sys)) = Status 202 None"
proof -
  have heap: "rvs_heap demo_api_sys = (\<lambda>_. demo_api_payload)" by (simp add: demo_sys_fields fun_eq_iff)
  obtain bid where bid: "bk_bid demo_beacon_block = Some bid" by (simp add: demo_beacon_block_def)
  have "bk_proposal demo_beacon_block" "bk_broadcast demo_beacon_block" "bk_root demo_beacon_block = Some [4]" by (simp_all add: demo_beacon_block_def)
  with demo_block_found bid heap show ?thesis
    by (simp add: HandleSubmitBeaconBlock_def publish_block_def demo_env_fields demo_handler_fields demo_block_request_def demo_untyped
        demo_current_fork Let_def contentTypeSSZ_def contentTypeJSON_def)
qed

theorem api_changes_authorised_witness:
  "\<exists>resp h1 sys1 presp h2 kresp sent h3 sys3.
     HandleGetExecutionPayloadBid demo_api_env demo_bid_request (demo_handler, demo_api_sys) = (resp, h1, sys1) \<and>
     HandleSubmitBuilderPreferences demo_api_env demo_prefs_request demo_handler = (presp, h2) \<and> presp = Status 202 None \<and>
     HandleSubmitBeaconBlock demo_api_env True demo_block_request (demo_handler, demo_api_sys) = (kresp, sent, h3, sys3) \<and>
     (h1 = demo_handler \<and> sys1 = demo_api_sys \<or> rvs_planSvc sys1 = snd (Freeze demo_spec (ee_cfg demo_api_env) 3840000000000 320 NewPlanService)) \<and>
     (\<exists>block bid ref root. sent = Some block \<and> bk_bid block = Some bid \<and> p_BlockHash demo_api_payload = bm_BlockHash bid \<and>
        sys3 = RequestReveal (Some (reveal_request ref bid root (bk_parentRoot block))) demo_api_sys)"
proof -
  obtain resp h1 sys1 where a: "HandleGetExecutionPayloadBid demo_api_env demo_bid_request (demo_handler, demo_api_sys) = (resp, h1, sys1)"
    by (metis prod_cases3)
  obtain h2 where b: "HandleSubmitBuilderPreferences demo_api_env demo_prefs_request demo_handler = (Status 202 None, h2)"
    using demo_prefs_stored by (metis eq_fst_iff)
  obtain sent h3 sys3 where c: "HandleSubmitBeaconBlock demo_api_env True demo_block_request (demo_handler, demo_api_sys) = (Status 202 None, sent, h3, sys3)"
    using demo_block_accepted by (metis fst_conv prod_cases4)
  show ?thesis
    using api_changes_authorised [OF a b c] a b c unfolding demo_env_fields demo_request_fields demo_slot_parses demo_sys_fields by auto
qed

text \<open>A bid that a plan forced while the dialect is globally disabled is served, but its block is turned away.\<close>

lemma forced_bid_block_refused:
  assumes "\<not> eh_enabled h"
  shows "HandleSubmitBeaconBlock env wired rq (h, sys) = (Status 503 (Some NotReady), None, h, sys)"
  using assms by (simp add: HandleSubmitBeaconBlock_def Let_def split: option.split)

end
