(* ===== verification/Api_Legacy.thy ===== *)
theory Api_Legacy
  imports Api_Epbs Payload_Build
begin

text \<open>
  \<open>pkg/builderapi/legacy\<close>: the Builder API before Gloas.  Headers and bids from a built payload, unblinding, the
  three handlers, the registrations with their codec and the settings resolver they feed.  The hash tree roots, the
  decoders and BLS verification are parameters of the environment; as in \<open>Api_Epbs\<close> the shared payload heap and plan
  service are those of the \<open>RevealService\<close> record, and the recorder's calls and the published blocks are logs.
\<close>

section \<open>Messages\<close>

record exec_header =
  xh_Version :: DataVersion
  xh_ParentHash :: hash32
  xh_FeeRecipient :: address20
  xh_StateRoot :: hash32
  xh_ReceiptsRoot :: hash32
  xh_LogsBloom :: "u8 list"
  xh_PrevRandao :: hash32
  xh_BlockNumber :: u64
  xh_GasLimit :: u64
  xh_GasUsed :: u64
  xh_Timestamp :: u64
  xh_ExtraData :: "u8 list"
  xh_BaseFeePerGas :: "256 word"
  xh_BaseFeePerGasLE :: "u8 list"
  xh_BlockHash :: hash32
  xh_TransactionsRoot :: hash32
  xh_WithdrawalsRoot :: hash32
  xh_BlobGasUsed :: u64
  xh_ExcessBlobGas :: u64

record BuilderBid =
  bb_Version :: DataVersion
  bb_Header :: exec_header
  bb_Value :: "256 word"
  bb_Pubkey :: bls_pubkey
  bb_BlobKZGCommitments :: "u8 list list"
  bb_ExecutionRequests :: "ExecutionRequests option"

record SignedBuilderBid =
  sbb_Version :: DataVersion
  sbb_Message :: BuilderBid
  sbb_Signature :: "u8 list"

record ValidatorRegistration =
  vr_FeeRecipient :: address20
  vr_GasLimit :: u64
  vr_Timestamp :: u64
  vr_Pubkey :: pubkey

record SignedValidatorRegistration =
  sr_Message :: "ValidatorRegistration option"
  sr_Signature :: "u8 list"

type_synonym reg_store = "(pubkey, SignedValidatorRegistration option) store"

text \<open>The operations a block carries besides its payload, in their encodings: they are only copied.\<close>

record body_ops =
  op_RANDAOReveal :: "u8 list"
  op_ETH1Data :: "u8 list"
  op_Graffiti :: "u8 list"
  op_ProposerSlashings :: "u8 list"
  op_AttesterSlashings :: "u8 list"
  op_Attestations :: "u8 list"
  op_Deposits :: "u8 list"
  op_VoluntaryExits :: "u8 list"
  op_SyncAggregate :: "u8 list"
  op_BLSToExecutionChanges :: "u8 list"

record blinded_body =
  lb_ops :: body_ops
  lb_ExecutionPayloadHeader :: "exec_header option"
  lb_BlobKZGCommitments :: "u8 list list"
  lb_ExecutionRequests :: "ExecutionRequests option"

record full_body =
  fb_ops :: body_ops
  fb_ExecutionPayload :: "payload_body exec_payload"
  fb_BlobKZGCommitments :: "u8 list list"
  fb_ExecutionRequests :: "ExecutionRequests option"

record 'b block_message =
  blk_Slot :: slot
  blk_ProposerIndex :: u64
  blk_ParentRoot :: hash32
  blk_StateRoot :: hash32
  blk_Body :: 'b

record SignedBlindedBeaconBlock =
  sl_Version :: DataVersion
  sl_Message :: "blinded_body option block_message option"
  sl_Signature :: "u8 list"

record SignedBlockContents =
  sc_Version :: DataVersion
  sc_Message :: "full_body block_message"
  sc_Signature :: "u8 list"
  sc_KZGProofs :: "u8 list list"
  sc_Blobs :: "u8 list list"

section \<open>State\<close>

datatype legacy_problem = LegacyUnavailable | LegacyPostGloas | LegacyInvalidSlot | LegacyTooFarAhead | LegacySuppressed
  | LegacyInvalidParentHash | LegacyInvalidPubkey | NotRegistered | LegacyNoPayload | LegacyParentMismatch | LegacyBuildFailed
  | LegacyCancelled | LegacyEncodeFailed | LegacyWriteFailed | LegacyMediaType | LegacyBodyUnreadable | LegacyUndecodable
  | LegacyForkVersion | RegistrationMissing | RegistrationSignature pubkey | LegacyDisabled | LegacyVersionHeader
  | BlockIncomplete | UnblindEmpty | NoCLClient | ConversionFailed | PublishFailed

datatype legacy_response = LStatus nat "legacy_problem option" | HeaderServed SignedBuilderBid DataVersion bool
  | Unblinded DataVersion "payload_body exec_payload" "BlobsBundle option" | LNoResponse

record lbid_record =
  lcall_slot :: slot
  lcall_fork :: DataVersion
  lcall_bid :: "SignedBuilderBid option"
  lcall_value :: u64
  lcall_status :: string
  lcall_errMsg :: "legacy_problem option"

record legacy_recordedBid =
  lrd_status :: string
  lrd_blockHash :: hash32
  lrd_value :: u64
  lrd_errMsg :: "legacy_problem option"

record LegacyHandler =
  lh_validatorsStore :: reg_store
  lh_lastBids :: "slot \<rightharpoonup> legacy_recordedBid"
  lh_enabled :: bool
  lh_headersRequested :: u64
  lh_blocksPublished :: u64
  lh_bidRecords :: "lbid_record list"
  lh_submissions :: "(slot \<times> string \<times> legacy_problem option) list"

record legacy_env =
  ly_lib :: "(payload_body, ExecutionRequests) msg_lib"
  ly_bidRoot :: "BuilderBid \<Rightarrow> hash32 option"
  ly_regRoot :: "ValidatorRegistration \<Rightarrow> hash32 option"
  ly_VerifyBLSSignature :: "pubkey \<Rightarrow> hash32 \<Rightarrow> u8 list \<Rightarrow> bool"
  ly_byteListsRoot :: "nat \<Rightarrow> nat \<Rightarrow> u8 list list \<Rightarrow> hash32 option"
  ly_withdrawalsRoot :: "u64 \<Rightarrow> Withdrawal list \<Rightarrow> hash32 option"
  ly_regSSZ :: "u8 list \<Rightarrow> SignedValidatorRegistration option"
  ly_regsJSON :: "u8 list \<Rightarrow> SignedValidatorRegistration option list option"
  ly_spec :: ChainSpec
  ly_genesisTime :: gotime
  ly_genesisForkVersion :: "u8 list"
  ly_genesisRoot :: hash32
  ly_cfg :: Config
  ly_now :: gotime
  ly_signer :: "bls_pubkey option"
  ly_cache :: "PayloadCache option"
  ly_order :: "slot list \<Rightarrow> slot list"
  ly_recorder :: bool

type_synonym legacy_sys = "(payload_body, ExecutionRequests) RevealService"

section \<open>Headers and bids\<close>

definition defaultMaxWithdrawalsPerPayload :: u64 where "defaultMaxWithdrawalsPerPayload = 16"
definition gweiFactor :: "256 word" where "gweiFactor = 1000000000"

definition merkleizeByteLists :: "legacy_env \<Rightarrow> u8 list list \<Rightarrow> nat \<Rightarrow> nat \<Rightarrow> hash32 option" where
  "merkleizeByteLists env items maxItems maxBytesPerItem =
     (if length items > maxItems then None
      else if \<exists>item \<in> set items. length item > maxBytesPerItem then None
      else ly_byteListsRoot env maxItems maxBytesPerItem items)"

definition transactionsRoot :: "legacy_env \<Rightarrow> u8 list list \<Rightarrow> hash32 option" where
  "transactionsRoot env txs = merkleizeByteLists env txs 1048576 1073741824"

definition withdrawalsRoot :: "legacy_env \<Rightarrow> Withdrawal list \<Rightarrow> u64 \<Rightarrow> hash32 option" where
  "withdrawalsRoot env ws maxWithdrawalsPerPayload =
     ly_withdrawalsRoot env (if maxWithdrawalsPerPayload = 0 then defaultMaxWithdrawalsPerPayload else maxWithdrawalsPerPayload) ws"

text \<open>Both representations of the base fee, from whichever the payload carries.\<close>

definition header_base_fee :: "payload_body \<Rightarrow> 256 word \<times> u8 list" where
  "header_base_fee b =
     (case pb_BaseFeePerGas b of
        Some fee \<Rightarrow> (fee, rev (Bytes32 fee))
      | None \<Rightarrow> (of_nat (le_nat (rev (rev (pb_BaseFeePerGasLE b)))), pb_BaseFeePerGasLE b))"

definition ExecutionPayloadHeaderFromBeacon ::
  "legacy_env \<Rightarrow> payload_body exec_payload \<Rightarrow> DataVersion \<Rightarrow> u64 \<Rightarrow> exec_header option" where
  "ExecutionPayloadHeaderFromBeacon env p fork maxWithdrawalsPerPayload =
     (let b = ep_Body p; (baseFee, baseFeeLE) = header_base_fee b in
      case transactionsRoot env (ep_Transactions p) of None \<Rightarrow> None
      | Some txRoot \<Rightarrow>
     (case (if fork \<ge> DataVersionCapella then withdrawalsRoot env (pb_Withdrawals b) maxWithdrawalsPerPayload else Some zero_root) of
        None \<Rightarrow> None
      | Some wRoot \<Rightarrow>
          Some \<lparr>xh_Version = fork, xh_ParentHash = pb_ParentHash b, xh_FeeRecipient = pb_FeeRecipient b, xh_StateRoot = pb_StateRoot b,
            xh_ReceiptsRoot = pb_ReceiptsRoot b, xh_LogsBloom = pb_LogsBloom b, xh_PrevRandao = pb_PrevRandao b,
            xh_BlockNumber = pb_BlockNumber b, xh_GasLimit = ep_GasLimit p, xh_GasUsed = pb_GasUsed b, xh_Timestamp = pb_Timestamp b,
            xh_ExtraData = pb_ExtraData b, xh_BaseFeePerGas = baseFee, xh_BaseFeePerGasLE = baseFeeLE, xh_BlockHash = pb_BlockHash b,
            xh_TransactionsRoot = txRoot, xh_WithdrawalsRoot = wRoot, xh_BlobGasUsed = pb_BlobGasUsed b,
            xh_ExcessBlobGas = pb_ExcessBlobGas b\<rparr>))"

text \<open>\<open>uint256.FromBig\<close> with the overflow replaced by zero; multiplication and addition wrap at 256 bits.\<close>

definition legacy_bid_value :: "int \<Rightarrow> u64 \<Rightarrow> u64 option \<Rightarrow> 256 word" where
  "legacy_bid_value blockValue subsidyGwei totalValueGwei =
     (case totalValueGwei of
        Some v \<Rightarrow> ucast v * gweiFactor
      | None \<Rightarrow>
          (let value = (if \<bar>blockValue\<bar> \<ge> 2 ^ 256 then 0 else of_int blockValue) in
           if subsidyGwei > 0 then value + ucast subsidyGwei * gweiFactor else value))"

definition DomainApplicationBuilder :: "u8 list" where
  "DomainApplicationBuilder = [0, 0, 0, 1]"

definition bid_commitments :: "build_payload \<Rightarrow> DataVersion \<Rightarrow> u8 list list" where
  "bid_commitments p fork =
     (case bd_BlobsBundle (p_build p) of
        Some bundle \<Rightarrow> if fork \<ge> DataVersionDeneb then bb_Commitments bundle else []
      | None \<Rightarrow> [])"

definition bid_execution_requests :: "build_payload \<Rightarrow> DataVersion \<Rightarrow> ExecutionRequests option" where
  "bid_execution_requests p fork =
     (if fork \<ge> DataVersionElectra
      then Some (case bd_ExecutionRequests (p_build p) of
             None \<Rightarrow> \<lparr>er_Version = fork, er_Deposits = [], er_Withdrawals = [], er_Consolidations = [], er_BuilderDeposits = [], er_BuilderExits = []\<rparr>
           | Some r \<Rightarrow> \<lparr>er_Version = fork, er_Deposits = er_Deposits r, er_Withdrawals = er_Withdrawals r, er_Consolidations = er_Consolidations r,
               er_BuilderDeposits = [], er_BuilderExits = []\<rparr>)
      else None)"

definition BuildSignedBuilderBid ::
  "legacy_env \<Rightarrow> build_payload \<Rightarrow> DataVersion \<Rightarrow> bls_pubkey \<Rightarrow> u64 \<Rightarrow> u64 option \<Rightarrow> u8 list \<Rightarrow> u64 \<Rightarrow> SignedBuilderBid option" where
  "BuildSignedBuilderBid env p fork pubkey subsidyGwei totalValueGwei genesisForkVersion maxWithdrawalsPerPayload =
     (case ExecutionPayloadHeaderFromBeacon env (bd_ExecutionPayload (p_build p)) fork maxWithdrawalsPerPayload of None \<Rightarrow> None
      | Some header \<Rightarrow>
          (let bid = \<lparr>bb_Version = fork, bb_Header = header, bb_Value = legacy_bid_value (p_BlockValue p) subsidyGwei totalValueGwei,
                 bb_Pubkey = pubkey, bb_BlobKZGCommitments = bid_commitments p fork, bb_ExecutionRequests = bid_execution_requests p fork\<rparr>
           in case ly_bidRoot env bid of None \<Rightarrow> None
              | Some bidRoot \<Rightarrow>
                  (let domain = ComputeDomain (ly_lib env) DomainApplicationBuilder genesisForkVersion zero_root in
                   Some \<lparr>sbb_Version = fork, sbb_Message = bid, sbb_Signature = SignWithDomain (ly_lib env) bidRoot domain\<rparr>)))"

section \<open>Unblinding\<close>

definition unblinded_commitments :: "u8 list list \<Rightarrow> build_payload \<Rightarrow> u8 list list" where
  "unblinded_commitments blindedCommitments p =
     (case bd_BlobsBundle (p_build p) of
        Some bundle \<Rightarrow> if bb_Commitments bundle \<noteq> [] then bb_Commitments bundle else blindedCommitments
      | None \<Rightarrow> blindedCommitments)"

definition UnblindSignedBlindedBeaconBlock :: "SignedBlindedBeaconBlock \<Rightarrow> build_payload \<Rightarrow> SignedBlockContents option" where
  "UnblindSignedBlindedBeaconBlock blinded p =
     (case sl_Message blinded of None \<Rightarrow> None
      | Some msg \<Rightarrow>
     (case blk_Body msg of None \<Rightarrow> None
      | Some body \<Rightarrow>
          (let fullBody = \<lparr>fb_ops = lb_ops body, fb_ExecutionPayload = bd_ExecutionPayload (p_build p),
                 fb_BlobKZGCommitments = unblinded_commitments (lb_BlobKZGCommitments body) p, fb_ExecutionRequests = lb_ExecutionRequests body\<rparr>
           in Some \<lparr>sc_Version = sl_Version blinded,
                sc_Message = \<lparr>blk_Slot = blk_Slot msg, blk_ProposerIndex = blk_ProposerIndex msg, blk_ParentRoot = blk_ParentRoot msg,
                  blk_StateRoot = blk_StateRoot msg, blk_Body = fullBody\<rparr>,
                sc_Signature = sl_Signature blinded,
                sc_KZGProofs = (case bd_BlobsBundle (p_build p) of None \<Rightarrow> [] | Some bundle \<Rightarrow> bb_Proofs bundle),
                sc_Blobs = (case bd_BlobsBundle (p_build p) of None \<Rightarrow> [] | Some bundle \<Rightarrow> bb_Blobs bundle)\<rparr>)))"

section \<open>Recording\<close>

fun trim_legacyBids :: "nat \<Rightarrow> slot \<Rightarrow> (slot \<rightharpoonup> legacy_recordedBid) \<Rightarrow> (slot \<rightharpoonup> legacy_recordedBid)" where
  "trim_legacyBids 0 s m = m"
| "trim_legacyBids (Suc n) s m =
     (if card (dom m) > maxRecordedBidSlots
      then trim_legacyBids n s (m(Min (insert s (dom m)) := None))
      else m)"

definition legacy_recordBid ::
  "bool \<Rightarrow> slot \<Rightarrow> DataVersion \<Rightarrow> hash32 \<Rightarrow> SignedBuilderBid option \<Rightarrow> u64 \<Rightarrow> string \<Rightarrow> legacy_problem option \<Rightarrow> LegacyHandler \<Rightarrow> LegacyHandler" where
  "legacy_recordBid recorder s fork blockHash signedBid totalValueGwei status errMsg h =
     (if \<not> recorder then h
      else let entry = \<lparr>lrd_status = status, lrd_blockHash = blockHash, lrd_value = totalValueGwei, lrd_errMsg = errMsg\<rparr> in
        if lh_lastBids h s = Some entry then h
        else h\<lparr>lh_lastBids := trim_legacyBids (card (dom ((lh_lastBids h)(s \<mapsto> entry)))) s ((lh_lastBids h)(s \<mapsto> entry)),
               lh_bidRecords := lh_bidRecords h @
                 [\<lparr>lcall_slot = s, lcall_fork = fork, lcall_bid = signedBid, lcall_value = totalValueGwei, lcall_status = status,
                   lcall_errMsg = errMsg\<rparr>]\<rparr>)"

definition legacy_recordSubmission :: "bool \<Rightarrow> slot \<Rightarrow> string \<Rightarrow> legacy_problem option \<Rightarrow> LegacyHandler \<Rightarrow> LegacyHandler" where
  "legacy_recordSubmission recorder s status errMsg h =
     (if recorder then h\<lparr>lh_submissions := lh_submissions h @ [(s, status, errMsg)]\<rparr> else h)"

definition NewLegacyHandler :: "reg_store \<Rightarrow> LegacyHandler" where
  "NewLegacyHandler validatorsStore = \<lparr>lh_validatorsStore = validatorsStore, lh_lastBids = Map.empty, lh_enabled = False,
     lh_headersRequested = 0, lh_blocksPublished = 0, lh_bidRecords = [], lh_submissions = []\<rparr>"

section \<open>getHeader\<close>

record header_request =
  hrq_slot :: string
  hrq_parentHash :: string
  hrq_pubkey :: string
  hrq_preferSSZ :: bool
  hrq_hangsUp :: bool
  hrq_encodes :: bool
  hrq_writes :: bool

definition deliver_header ::
  "legacy_env \<Rightarrow> header_request \<Rightarrow> slot \<Rightarrow> DataVersion \<Rightarrow> hash32 \<Rightarrow> ResolvedBuilderAPISettings \<Rightarrow> SignedBuilderBid \<Rightarrow> u64 \<Rightarrow> LegacyHandler \<Rightarrow>
     legacy_response \<times> LegacyHandler" where
  "deliver_header env rq s fork blockHash settings signedBid bidValueGwei h =
     (let record = (\<lambda>status err. legacy_recordBid (ly_recorder env) s fork blockHash (Some signedBid) bidValueGwei status err h) in
      if ra_DelayMs settings > 0 \<and> hrq_hangsUp rq then (LNoResponse, record bidStatusCancelled (Some LegacyCancelled))
      else if hrq_preferSSZ rq \<and> \<not> hrq_encodes rq then (LStatus 500 (Some LegacyEncodeFailed), record bidStatusFailed (Some LegacyEncodeFailed))
      else if \<not> hrq_writes rq then (HeaderServed signedBid fork (hrq_preferSSZ rq), record bidStatusFailed (Some LegacyWriteFailed))
      else (HeaderServed signedBid fork (hrq_preferSSZ rq), record bidStatusServed None))"

definition header_value_gwei :: "SignedBuilderBid \<Rightarrow> u64" where
  "header_value_gwei sb = of_nat (unat (bb_Value (sbb_Message sb)) div 1000000000)"

definition header_bid :: "legacy_env \<Rightarrow> build_payload \<Rightarrow> DataVersion \<Rightarrow> bls_pubkey \<Rightarrow> ResolvedBuilderAPISettings \<Rightarrow> SignedBuilderBid option" where
  "header_bid env p fork signer settings =
     BuildSignedBuilderBid env p fork signer (ra_SubsidyGwei settings) (ra_TotalValueGwei settings) (ly_genesisForkVersion env)
       (MaxWithdrawalsPerPayload (ly_spec env))"

text \<open>From the request's parameters on: registration, cached payload, parent and bid.\<close>

definition serve_header ::
  "legacy_env \<Rightarrow> header_request \<Rightarrow> PayloadCache \<Rightarrow> bls_pubkey \<Rightarrow> DataVersion \<Rightarrow> slot \<Rightarrow> ResolvedBuilderAPISettings \<Rightarrow>
     LegacyHandler \<times> legacy_sys \<Rightarrow> legacy_response \<times> LegacyHandler \<times> legacy_sys" where
  "serve_header env rq cache signer fork s settings hs =
     (case hs of (h, sys) \<Rightarrow>
      let fails = (\<lambda>code e. (LStatus code (Some e), legacy_recordBid (ly_recorder env) s fork [] None 0 bidStatusFailed (Some e) h, sys))
      in case hex_bytes 32 (hrq_parentHash rq) of None \<Rightarrow> (LStatus 400 (Some LegacyInvalidParentHash), h, sys)
      | Some parentHash \<Rightarrow>
     (case hex_pubkey (hrq_pubkey rq) of None \<Rightarrow> (LStatus 400 (Some LegacyInvalidPubkey), h, sys)
      | Some pubkey \<Rightarrow>
        if Get pubkey (lh_validatorsStore h) = None then fails 204 NotRegistered
        else (case cache_Get s cache of None \<Rightarrow> fails 204 LegacyNoPayload
      | Some ref \<Rightarrow>
        if bd_ParentBlockHash (p_build (rvs_heap sys ref)) \<noteq> parentHash then fails 204 LegacyParentMismatch
        else (case header_bid env (rvs_heap sys ref) fork signer settings of None \<Rightarrow> fails 500 LegacyBuildFailed
      | Some signedBid \<Rightarrow>
          (case deliver_header env rq s fork (p_BlockHash (rvs_heap sys ref)) settings signedBid (header_value_gwei signedBid) h of (resp, h') \<Rightarrow>
             (resp, h', sys\<lparr>rvs_heap := AddBid ref \<lparr>br_Transport = BidTransportBuilderAPI, br_Value = header_value_gwei signedBid,
                br_ExecutionPayment = 0, br_At = ly_now env\<rparr> (rvs_heap sys)\<rparr>))))))"

definition HandleGetHeader :: "legacy_env \<Rightarrow> header_request \<Rightarrow> LegacyHandler \<times> legacy_sys \<Rightarrow> legacy_response \<times> LegacyHandler \<times> legacy_sys" where
  "HandleGetHeader env rq hs =
     (case hs of (h, sys) \<Rightarrow>
      case (ly_cache env, ly_signer env) of
        (Some cache, Some signer) \<Rightarrow>
          (let fork = GetCurrentFork (ly_spec env) (ly_genesisTime env) (ly_now env) in
           if fork \<ge> DataVersionGloas then (LStatus 204 (Some LegacyPostGloas), h, sys)
           else (case ParseUint (hrq_slot rq) of None \<Rightarrow> (LStatus 400 (Some LegacyInvalidSlot), h, sys)
           | Some s \<Rightarrow>
             if s > GetCurrentSlot (ly_spec env) (ly_genesisTime env) (ly_now env) + 1 then (LStatus 400 (Some LegacyTooFarAhead), h, sys)
             else (case Freeze (ly_spec env) (ly_cfg env) (ly_now env) s (rvs_planSvc sys) of (frozen, ps) \<Rightarrow>
               let sys = sys\<lparr>rvs_planSvc := ps\<rparr> in
               case fp_BuilderAPI frozen of
                 None \<Rightarrow> (LStatus 204 (Some LegacySuppressed),
                   legacy_recordBid (ly_recorder env) s fork [] None 0 bidStatusSuppressed None h, sys)
               | Some settings \<Rightarrow>
                   serve_header env rq cache signer fork s settings (h\<lparr>lh_headersRequested := lh_headersRequested h + 1\<rparr>, sys))))
      | _ \<Rightarrow> (LStatus 204 (Some LegacyUnavailable), h, sys))"

section \<open>submitBlindedBlock\<close>

text \<open>\<open>srq_toVersioned\<close>, \<open>srq_fromSignedBlock\<close> and \<open>srq_publish\<close> are the answers of the two conversions and of the beacon node to the unblinded block.\<close>

record blinded_request =
  srq_mediaType :: "string option"
  srq_version :: "DataVersion option option"
  srq_body :: "u8 list option"
  srq_decodeJSON :: "DataVersion \<Rightarrow> u8 list \<Rightarrow> SignedBlindedBeaconBlock option"
  srq_decodeSSZ :: "DataVersion \<Rightarrow> u8 list \<Rightarrow> SignedBlindedBeaconBlock option"
  srq_toVersioned :: "SignedBlockContents \<Rightarrow> bool"
  srq_fromSignedBlock :: "SignedBlockContents \<Rightarrow> bool"
  srq_publish :: "SignedBlockContents \<Rightarrow> bool"

definition empty_bundle :: BlobsBundle where
  "empty_bundle = \<lparr>bb_Commitments = [], bb_Proofs = [], bb_Blobs = []\<rparr>"

definition writeUnblindedPayloadResponse :: "DataVersion \<Rightarrow> build_payload \<Rightarrow> legacy_response" where
  "writeUnblindedPayloadResponse fork p =
     (if fork \<ge> DataVersionDeneb
      then Unblinded fork (bd_ExecutionPayload (p_build p)) (Some (case bd_BlobsBundle (p_build p) of None \<Rightarrow> empty_bundle | Some b \<Rightarrow> b))
      else Unblinded fork (bd_ExecutionPayload (p_build p)) None)"

text \<open>From the decoded block on.  The result carries the contents that were handed to the beacon node, if any.\<close>

definition publish_unblinded ::
  "legacy_env \<Rightarrow> bool \<Rightarrow> blinded_request \<Rightarrow> nat \<Rightarrow> PayloadCache \<Rightarrow> SignedBlindedBeaconBlock \<Rightarrow> slot \<Rightarrow> hash32 \<Rightarrow> legacy_sys \<Rightarrow>
     LegacyHandler \<Rightarrow> legacy_response \<times> SignedBlockContents option \<times> LegacyHandler" where
  "publish_unblinded env clClient rq apiVersion cache blinded s blockHash sys h =
     (let h = legacy_recordSubmission (ly_recorder env) s submissionStatusReceived None h;
          fails = (\<lambda>code e sent. (LStatus code (Some e), sent, legacy_recordSubmission (ly_recorder env) s submissionStatusFailed (Some e) h))
      in case GetByBlockHash (ly_order env) (rvs_heap sys) blockHash cache of None \<Rightarrow> fails 400 LegacyNoPayload None
      | Some ref \<Rightarrow>
     (case UnblindSignedBlindedBeaconBlock blinded (rvs_heap sys ref) of None \<Rightarrow> fails 400 UnblindEmpty None
      | Some contents \<Rightarrow>
        if \<not> clClient then fails 400 NoCLClient None
        else if \<not> (if sl_Version blinded \<ge> DataVersionDeneb then srq_toVersioned rq contents else srq_fromSignedBlock rq contents)
        then fails 500 ConversionFailed None
        else if \<not> srq_publish rq contents then fails 500 PublishFailed (Some contents)
        else (let h = legacy_recordSubmission (ly_recorder env) s submissionStatusAccepted None h in
              (if apiVersion = 1 then writeUnblindedPayloadResponse (sl_Version blinded) (rvs_heap sys ref) else LStatus 202 None,
               Some contents, h\<lparr>lh_blocksPublished := lh_blocksPublished h + 1\<rparr>))))"

definition handleSubmitBlindedBlock ::
  "legacy_env \<Rightarrow> bool \<Rightarrow> blinded_request \<Rightarrow> nat \<Rightarrow> legacy_sys \<Rightarrow> LegacyHandler \<Rightarrow> legacy_response \<times> SignedBlockContents option \<times> LegacyHandler" where
  "handleSubmitBlindedBlock env clClient rq apiVersion sys h =
     (let rejects = (\<lambda>code e. (LStatus code (Some e), None, h)); cur = GetCurrentFork (ly_spec env) (ly_genesisTime env) (ly_now env) in
      if \<not> lh_enabled h then rejects 503 LegacyDisabled
      else if cur \<ge> DataVersionGloas then rejects 400 LegacyPostGloas
      else if srq_mediaType rq \<noteq> Some contentTypeJSON \<and> srq_mediaType rq \<noteq> Some contentTypeSSZ then rejects 415 LegacyMediaType
      else (case ly_cache env of None \<Rightarrow> rejects 400 LegacyUnavailable
      | Some cache \<Rightarrow>
     (case srq_version rq of Some None \<Rightarrow> rejects 400 LegacyVersionHeader
      | hdr \<Rightarrow>
          let fork = (case hdr of Some (Some v) \<Rightarrow> v | _ \<Rightarrow> cur) in
          case srq_body rq of None \<Rightarrow> rejects 400 LegacyBodyUnreadable
          | Some body \<Rightarrow>
         (case (if srq_mediaType rq = Some contentTypeSSZ then srq_decodeSSZ rq fork body else srq_decodeJSON rq fork body) of
            None \<Rightarrow> rejects 400 LegacyUndecodable
          | Some blinded \<Rightarrow>
         (case sl_Message blinded of None \<Rightarrow> rejects 400 BlockIncomplete
          | Some msg \<Rightarrow>
         (case Option.bind (blk_Body msg) lb_ExecutionPayloadHeader of None \<Rightarrow> rejects 400 BlockIncomplete
          | Some header \<Rightarrow> publish_unblinded env clClient rq apiVersion cache blinded (blk_Slot msg) (xh_BlockHash header) sys h))))))"

definition HandleSubmitBlindedBlockV1 ::
  "legacy_env \<Rightarrow> bool \<Rightarrow> blinded_request \<Rightarrow> legacy_sys \<Rightarrow> LegacyHandler \<Rightarrow> legacy_response \<times> SignedBlockContents option \<times> LegacyHandler" where
  "HandleSubmitBlindedBlockV1 env clClient rq sys h = handleSubmitBlindedBlock env clClient rq 1 sys h"

definition HandleSubmitBlindedBlock ::
  "legacy_env \<Rightarrow> bool \<Rightarrow> blinded_request \<Rightarrow> legacy_sys \<Rightarrow> LegacyHandler \<Rightarrow> legacy_response \<times> SignedBlockContents option \<times> LegacyHandler" where
  "HandleSubmitBlindedBlock env clClient rq sys h = handleSubmitBlindedBlock env clClient rq 2 sys h"

section \<open>registerValidators\<close>

definition zero_version :: "u8 list" where "zero_version = [0, 0, 0, 0]"

definition domain_verifies :: "legacy_env \<Rightarrow> u8 list \<Rightarrow> hash32 \<Rightarrow> ValidatorRegistration \<Rightarrow> hash32 \<Rightarrow> u8 list \<Rightarrow> bool" where
  "domain_verifies env forkVersion genesisRoot msg messageRoot sig =
     ly_VerifyBLSSignature env (vr_Pubkey msg)
       (ComputeSigningRoot (ly_lib env) messageRoot (ComputeDomain (ly_lib env) DomainApplicationBuilder forkVersion genesisRoot)) sig"

definition VerifyRegistrationWithDomain :: "legacy_env \<Rightarrow> SignedValidatorRegistration option \<Rightarrow> u8 list \<Rightarrow> u8 list \<Rightarrow> hash32 \<Rightarrow> bool" where
  "VerifyRegistrationWithDomain env reg genesisForkVersion forkVersion genesisValidatorsRoot =
     (case reg of None \<Rightarrow> False
      | Some r \<Rightarrow>
     (case sr_Message r of None \<Rightarrow> False
      | Some msg \<Rightarrow>
     (case ly_regRoot env msg of None \<Rightarrow> False
      | Some messageRoot \<Rightarrow>
          domain_verifies env zero_version zero_root msg messageRoot (sr_Signature r) \<or>
          genesisForkVersion \<noteq> zero_version \<and> domain_verifies env genesisForkVersion zero_root msg messageRoot (sr_Signature r) \<or>
          (forkVersion \<noteq> zero_version \<or> genesisValidatorsRoot \<noteq> zero_root) \<and>
            domain_verifies env forkVersion genesisValidatorsRoot msg messageRoot (sr_Signature r))))"

definition VerifyRegistration :: "legacy_env \<Rightarrow> SignedValidatorRegistration option \<Rightarrow> bool" where
  "VerifyRegistration env reg = VerifyRegistrationWithDomain env reg zero_version zero_version zero_root"

text \<open>The size of the fixed-size container: 20 + 8 + 8 + 48 bytes and the signature of 96.\<close>

definition registration_size :: nat where "registration_size = 180"

function decode_elements :: "(u8 list \<Rightarrow> 'a option) \<Rightarrow> u8 list \<Rightarrow> 'a list option" where
  "decode_elements dec body =
     (if body = [] then Some []
      else case dec (take registration_size body) of None \<Rightarrow> None
           | Some reg \<Rightarrow> map_option (\<lambda>regs. reg # regs) (decode_elements dec (drop registration_size body)))"
  by auto

termination by (relation "measure (\<lambda>(dec, body). length body)") (auto simp: registration_size_def)

declare decode_elements.simps [simp del]

definition decodeRegistrationsSSZ :: "legacy_env \<Rightarrow> u8 list \<Rightarrow> SignedValidatorRegistration list option" where
  "decodeRegistrationsSSZ env body =
     (if length body mod registration_size \<noteq> 0 then None else decode_elements (ly_regSSZ env) body)"

fun store_registrations ::
  "legacy_env \<Rightarrow> u8 list \<Rightarrow> SignedValidatorRegistration option list \<Rightarrow> reg_store \<Rightarrow> legacy_response \<times> reg_store" where
  "store_registrations env forkVersion [] st = (LStatus 200 None, st)"
| "store_registrations env forkVersion (reg # regs) st =
     (case Option.bind reg sr_Message of None \<Rightarrow> (LStatus 400 (Some RegistrationMissing), st)
      | Some msg \<Rightarrow>
        if \<not> VerifyRegistrationWithDomain env reg (ly_genesisForkVersion env) forkVersion (ly_genesisRoot env)
        then (LStatus 400 (Some (RegistrationSignature (vr_Pubkey msg))), st)
        else store_registrations env forkVersion regs (snd (Put (vr_Pubkey msg) reg st)))"

record register_request =
  rrq_mediaType :: "string option"
  rrq_body :: "u8 list option"

definition HandleRegisterValidators :: "legacy_env \<Rightarrow> register_request \<Rightarrow> LegacyHandler \<Rightarrow> legacy_response \<times> LegacyHandler" where
  "HandleRegisterValidators env rq h =
     (let rejects = (\<lambda>code e. (LStatus code (Some e), h)) in
      if rrq_mediaType rq \<noteq> Some contentTypeJSON \<and> rrq_mediaType rq \<noteq> Some contentTypeSSZ then rejects 415 LegacyMediaType
      else case rrq_body rq of None \<Rightarrow> rejects 400 LegacyBodyUnreadable
      | Some body \<Rightarrow>
     (case (if rrq_mediaType rq = Some contentTypeSSZ then map_option (map Some) (decodeRegistrationsSSZ env body) else ly_regsJSON env body) of
        None \<Rightarrow> rejects 400 LegacyUndecodable
      | Some regs \<Rightarrow>
     (case GetForkVersion (ly_spec env) (ly_genesisTime env) (ly_now env) of None \<Rightarrow> rejects 500 LegacyForkVersion
      | Some forkVersion \<Rightarrow>
          (case store_registrations env forkVersion regs (lh_validatorsStore h) of (resp, st) \<Rightarrow>
             (resp, h\<lparr>lh_validatorsStore := st\<rparr>)))))"

section \<open>The stored registrations\<close>

definition RegistrationsNamespace :: string where "RegistrationsNamespace = ''validator_registrations''"

definition Reg_EncodeKey :: "pubkey \<Rightarrow> string" where
  "Reg_EncodeKey pk = ''0x'' @ hex_EncodeToString (pubkey_bytes pk)"

definition Reg_DecodeKey :: "string \<Rightarrow> pubkey option" where
  "Reg_DecodeKey key =
     (case hex_DecodeString (TrimPrefix key ''0x'') of
        None \<Rightarrow> None
      | Some raw \<Rightarrow> if length raw \<noteq> 48 then None else Some (Pubkey raw))"

definition Reg_EncodeValue :: "(SignedValidatorRegistration \<Rightarrow> u8 list option) \<Rightarrow> SignedValidatorRegistration option \<Rightarrow> u8 list option" where
  "Reg_EncodeValue marshal reg = (case Option.bind reg sr_Message of None \<Rightarrow> None | Some _ \<Rightarrow> Option.bind reg marshal)"

definition RegistrationCodec ::
  "(SignedValidatorRegistration \<Rightarrow> u8 list option) \<Rightarrow> (u8 list \<Rightarrow> SignedValidatorRegistration option) \<Rightarrow>
     (pubkey, SignedValidatorRegistration option) codec" where
  "RegistrationCodec marshal unmarshal = \<lparr>EncodeKey = Reg_EncodeKey, DecodeKey = Reg_DecodeKey, EncodeValue = Reg_EncodeValue marshal,
     DecodeValue = (\<lambda>v. map_option Some (unmarshal v))\<rparr>"

definition registration_settings :: "(u64 \<Rightarrow> pubkey option) \<Rightarrow> DataVersion \<Rightarrow> reg_store \<Rightarrow> settings_resolver" where
  "registration_settings pubkeyByIndex fork st s proposerIndex =
     (if fork \<ge> DataVersionGloas then None
      else case pubkeyByIndex proposerIndex of None \<Rightarrow> None
      | Some pk \<Rightarrow>
     (case Option.bind (Option.bind (Get pk st) (\<lambda>r. r)) sr_Message of None \<Rightarrow> None
      | Some msg \<Rightarrow> Some \<lparr>st_FeeRecipient = vr_FeeRecipient msg, st_TargetGasLimit = 0\<rparr>))"

interpretation regs: kv_keys RegistrationsNamespace "RegistrationCodec marshal unmarshal" for marshal unmarshal
  using prefs_key_roundtrip
  by unfold_locales (simp add: RegistrationCodec_def Reg_DecodeKey_def Reg_EncodeKey_def Prefs_DecodeKey_def Prefs_EncodeKey_def)

section \<open>Facts on bids\<close>

lemma le_nat_rev_Bytes32: "le_nat (rev (Bytes32 w)) = unat w"
proof -
  have "unat w < 256 ^ 32" using unsigned_less [of w] by simp
  then show ?thesis by (simp add: Bytes32_def le_nat_le_bytes)
qed

lemma le_nat_bound: "le_nat bs < 256 ^ length bs"
proof (induction bs)
  case (Cons b bs)
  have "unat b < 256" using unsigned_less [of b] by simp
  with Cons show ?case by (simp add: field_simps) 
qed simp

lemma header_base_fee_agrees:
  assumes "length (pb_BaseFeePerGasLE b) = 32"
  shows "le_nat (snd (header_base_fee b)) = unat (fst (header_base_fee b))"
proof (cases "pb_BaseFeePerGas b")
  case None
  have "le_nat (pb_BaseFeePerGasLE b) < 2 ^ 256" using le_nat_bound [of "pb_BaseFeePerGasLE b"] assms by simp
  then show ?thesis using None by (simp add: header_base_fee_def unat_of_nat)
qed (simp add: header_base_fee_def le_nat_rev_Bytes32)

lemma header_fields:
  assumes "ExecutionPayloadHeaderFromBeacon env p fork m = Some hdr"
  shows "xh_BlockHash hdr = pb_BlockHash (ep_Body p)" "xh_GasLimit hdr = ep_GasLimit p" "xh_Version hdr = fork"
    "length (pb_BaseFeePerGasLE (ep_Body p)) = 32 \<Longrightarrow> le_nat (xh_BaseFeePerGasLE hdr) = unat (xh_BaseFeePerGas hdr)"
  using assms header_base_fee_agrees [of "ep_Body p"]
  by (auto simp: ExecutionPayloadHeaderFromBeacon_def Let_def split: prod.splits option.splits)

lemma legacy_total_exact: "unat (legacy_bid_value v sub (Some g)) = unat g * 1000000000"
proof -
  have g: "unat g < 2 ^ 64" using unsigned_less [of g] by simp
  then have small: "unat g * 1000000000 < 2 ^ 256" by simp
  have "unat (ucast g :: 256 word) = take_bit 256 (unat g)" by (simp add: unsigned_ucast_eq)
  also have "\<dots> = unat g" using g by (intro take_bit_nat_eq_self) simp
  finally show ?thesis using small by (simp add: legacy_bid_value_def gweiFactor_def unat_word_ariths(2))
qed

lemma signed_bid_fields:
  assumes "BuildSignedBuilderBid env p fork pk sub tot gfv m = Some sb"
  shows "sbb_Version sb = fork" "bb_Pubkey (sbb_Message sb) = pk" "bb_Value (sbb_Message sb) = legacy_bid_value (p_BlockValue p) sub tot"
    "ExecutionPayloadHeaderFromBeacon env (bd_ExecutionPayload (p_build p)) fork m = Some (bb_Header (sbb_Message sb))"
    "bb_BlobKZGCommitments (sbb_Message sb) = bid_commitments p fork" "bb_ExecutionRequests (sbb_Message sb) = bid_execution_requests p fork"
    "\<exists>r. ly_bidRoot env (sbb_Message sb) = Some r \<and>
       sbb_Signature sb = SignWithDomain (ly_lib env) r (ComputeDomain (ly_lib env) DomainApplicationBuilder gfv zero_root)"
  using assms by (auto simp: BuildSignedBuilderBid_def Let_def split: option.splits)

lemma deliver_header_served:
  "deliver_header env rq s fork bh settings sb v h = (HeaderServed sb' fork' ssz, h') \<Longrightarrow> sb' = sb \<and> fork' = fork"
  by (auto simp: deliver_header_def Let_def split: if_splits)

lemma serve_header_served:
  assumes "serve_header env rq cache signer fk s settings (h, sys) = (HeaderServed sb fork ssz, h', sys')"
  shows "fork = fk \<and> (\<exists>pubkey ref. hex_pubkey (hrq_pubkey rq) = Some pubkey \<and> Get pubkey (lh_validatorsStore h) \<noteq> None \<and> cache_Get s cache = Some ref \<and>
    hex_bytes 32 (hrq_parentHash rq) = Some (bd_ParentBlockHash (p_build (rvs_heap sys ref))) \<and>
    header_bid env (rvs_heap sys ref) fork signer settings = Some sb \<and>
    rvs_heap sys' = AddBid ref \<lparr>br_Transport = BidTransportBuilderAPI, br_Value = header_value_gwei sb, br_ExecutionPayment = 0, br_At = ly_now env\<rparr> (rvs_heap sys))"
  using assms unfolding serve_header_def Let_def prod.case
  by (auto dest: deliver_header_served split: option.split_asm if_split_asm prod.split_asm)

lemma handle_header_served:
  assumes "HandleGetHeader env rq (h, sys) = (HeaderServed sb fork ssz, h', sys')"
  shows "\<exists>cache signer s frozen ps settings. ly_cache env = Some cache \<and> ly_signer env = Some signer \<and>
    GetCurrentFork (ly_spec env) (ly_genesisTime env) (ly_now env) < DataVersionGloas \<and> ParseUint (hrq_slot rq) = Some s \<and>
    s \<le> GetCurrentSlot (ly_spec env) (ly_genesisTime env) (ly_now env) + 1 \<and>
    Freeze (ly_spec env) (ly_cfg env) (ly_now env) s (rvs_planSvc sys) = (frozen, ps) \<and> fp_BuilderAPI frozen = Some settings \<and>
    serve_header env rq cache signer (GetCurrentFork (ly_spec env) (ly_genesisTime env) (ly_now env)) s settings
      (h\<lparr>lh_headersRequested := lh_headersRequested h + 1\<rparr>, sys\<lparr>rvs_planSvc := ps\<rparr>) = (HeaderServed sb fork ssz, h', sys')"
  using assms unfolding HandleGetHeader_def Let_def prod.case
  by (auto simp: not_less not_le split: option.split_asm if_split_asm prod.split_asm)

section \<open>Properties\<close>

text \<open>
  C37: a header leaves the pre-Gloas API only when every gate was passed.  Whenever \<open>getHeader\<close> answers with a bid: the current fork is
  before Gloas, the slot is at most the next one and its frozen plan serves it, the proposer's key is registered and the
  parent hash is that of the cached payload; the bid is the builder's, signed under the application domain, its header carries the payload's
  block hash and gas limit and both its base fee representations are the same number, its value is the frozen total or the block value with the subsidy
  (a frozen total exactly, in wei), and exactly this bid is added to the payload's log.\<close>

theorem legacy_header_gated:
  assumes "HandleGetHeader env rq (h, sys) = (HeaderServed sb fork ssz, h', sys')"
  shows "\<exists>cache signer s settings pubkey ref r.
    ly_cache env = Some cache \<and> ly_signer env = Some signer \<and> fork < DataVersionGloas \<and> ParseUint (hrq_slot rq) = Some s \<and>
    s \<le> GetCurrentSlot (ly_spec env) (ly_genesisTime env) (ly_now env) + 1 \<and>
    fp_BuilderAPI (fst (Freeze (ly_spec env) (ly_cfg env) (ly_now env) s (rvs_planSvc sys))) = Some settings \<and>
    hex_pubkey (hrq_pubkey rq) = Some pubkey \<and> Get pubkey (lh_validatorsStore h) \<noteq> None \<and> cache_Get s cache = Some ref \<and>
    hex_bytes 32 (hrq_parentHash rq) = Some (bd_ParentBlockHash (p_build (rvs_heap sys ref))) \<and>
    sbb_Version sb = fork \<and> bb_Pubkey (sbb_Message sb) = signer \<and> ly_bidRoot env (sbb_Message sb) = Some r \<and>
    sbb_Signature sb = SignWithDomain (ly_lib env) r (ComputeDomain (ly_lib env) DomainApplicationBuilder (ly_genesisForkVersion env) zero_root) \<and>
    xh_BlockHash (bb_Header (sbb_Message sb)) = pb_BlockHash (ep_Body (bd_ExecutionPayload (p_build (rvs_heap sys ref)))) \<and>
    xh_GasLimit (bb_Header (sbb_Message sb)) = ep_GasLimit (bd_ExecutionPayload (p_build (rvs_heap sys ref))) \<and>
    (length (pb_BaseFeePerGasLE (ep_Body (bd_ExecutionPayload (p_build (rvs_heap sys ref))))) = 32 \<longrightarrow>
       le_nat (xh_BaseFeePerGasLE (bb_Header (sbb_Message sb))) = unat (xh_BaseFeePerGas (bb_Header (sbb_Message sb)))) \<and>
    bb_Value (sbb_Message sb) = legacy_bid_value (p_BlockValue (rvs_heap sys ref)) (ra_SubsidyGwei settings) (ra_TotalValueGwei settings) \<and>
    (\<forall>g. ra_TotalValueGwei settings = Some g \<longrightarrow> unat (bb_Value (sbb_Message sb)) = unat g * 1000000000) \<and>
    rvs_heap sys' = AddBid ref \<lparr>br_Transport = BidTransportBuilderAPI, br_Value = header_value_gwei sb, br_ExecutionPayment = 0, br_At = ly_now env\<rparr> (rvs_heap sys)"
proof -
  obtain cache signer s frozen ps settings where g: "ly_cache env = Some cache" "ly_signer env = Some signer"
    "GetCurrentFork (ly_spec env) (ly_genesisTime env) (ly_now env) < DataVersionGloas" "ParseUint (hrq_slot rq) = Some s"
    "s \<le> GetCurrentSlot (ly_spec env) (ly_genesisTime env) (ly_now env) + 1"
    "Freeze (ly_spec env) (ly_cfg env) (ly_now env) s (rvs_planSvc sys) = (frozen, ps)" "fp_BuilderAPI frozen = Some settings"
    "serve_header env rq cache signer (GetCurrentFork (ly_spec env) (ly_genesisTime env) (ly_now env)) s settings
      (h\<lparr>lh_headersRequested := lh_headersRequested h + 1\<rparr>, sys\<lparr>rvs_planSvc := ps\<rparr>) = (HeaderServed sb fork ssz, h', sys')"
    using handle_header_served [OF assms] by blast
  obtain pubkey ref where b: "fork = GetCurrentFork (ly_spec env) (ly_genesisTime env) (ly_now env)"
    "hex_pubkey (hrq_pubkey rq) = Some pubkey" "Get pubkey (lh_validatorsStore h) \<noteq> None" "cache_Get s cache = Some ref"
    "hex_bytes 32 (hrq_parentHash rq) = Some (bd_ParentBlockHash (p_build (rvs_heap sys ref)))"
    "header_bid env (rvs_heap sys ref) fork signer settings = Some sb"
    "rvs_heap sys' = AddBid ref \<lparr>br_Transport = BidTransportBuilderAPI, br_Value = header_value_gwei sb, br_ExecutionPayment = 0, br_At = ly_now env\<rparr> (rvs_heap sys)"
    using serve_header_served [OF g(8)] by auto
  note sb = signed_bid_fields [OF b(6) [unfolded header_bid_def]]
  note hdr = header_fields [OF sb(4)]
  have "\<forall>g. ra_TotalValueGwei settings = Some g \<longrightarrow> unat (bb_Value (sbb_Message sb)) = unat g * 1000000000"
    using sb(3) legacy_total_exact by simp
  moreover have "fp_BuilderAPI (fst (Freeze (ly_spec env) (ly_cfg env) (ly_now env) s (rvs_planSvc sys))) = Some settings" using g(6,7) by simp
  moreover have "fork < DataVersionGloas" using g(3) b(1) by simp
  ultimately show ?thesis using g(1,2,4,5) b(2-5,7) sb(1-3,7) hdr(1,2,4) by blast
qed

section \<open>Unblinding is faithful\<close>

text \<open>The specification: a blinded block is the full one with the payload replaced by its header.\<close>

definition blind_contents :: "exec_header \<Rightarrow> SignedBlockContents \<Rightarrow> SignedBlindedBeaconBlock" where
  "blind_contents header contents =
     (let m = sc_Message contents; b = blk_Body m in
      \<lparr>sl_Version = sc_Version contents,
       sl_Message = Some \<lparr>blk_Slot = blk_Slot m, blk_ProposerIndex = blk_ProposerIndex m, blk_ParentRoot = blk_ParentRoot m,
         blk_StateRoot = blk_StateRoot m,
         blk_Body = Some \<lparr>lb_ops = fb_ops b, lb_ExecutionPayloadHeader = Some header, lb_BlobKZGCommitments = fb_BlobKZGCommitments b,
           lb_ExecutionRequests = fb_ExecutionRequests b\<rparr>\<rparr>,
       sl_Signature = sc_Signature contents\<rparr>)"

lemma commitments_of_bid:
  "DataVersionDeneb \<le> fork \<Longrightarrow> unblinded_commitments (bid_commitments p fork) p = bid_commitments p fork"
  by (simp add: unblinded_commitments_def bid_commitments_def split: option.split)

lemma unblind_blind:
  assumes "UnblindSignedBlindedBeaconBlock blinded p = Some contents" "sl_Message blinded = Some msg" "blk_Body msg = Some body"
    "lb_ExecutionPayloadHeader body = Some header" "lb_BlobKZGCommitments body = bid_commitments p (sl_Version blinded)"
    "DataVersionDeneb \<le> sl_Version blinded"
  shows "blind_contents header contents = blinded"
  using assms by (auto simp: UnblindSignedBlindedBeaconBlock_def blind_contents_def commitments_of_bid Let_def)

lemma publish_unblinded_sent:
  assumes "publish_unblinded env clClient rq v cache blinded s bh sys h = (resp, Some contents, h')"
  shows "\<exists>ref. GetByBlockHash (ly_order env) (rvs_heap sys) bh cache = Some ref \<and>
    UnblindSignedBlindedBeaconBlock blinded (rvs_heap sys ref) = Some contents \<and> clClient \<and>
    (if srq_publish rq contents
     then resp = (if v = 1 then writeUnblindedPayloadResponse (sl_Version blinded) (rvs_heap sys ref) else LStatus 202 None)
     else resp = LStatus 500 (Some PublishFailed))"
  using assms unfolding publish_unblinded_def Let_def by (auto split: option.split_asm if_split_asm)

lemma submit_blinded_sent:
  assumes "handleSubmitBlindedBlock env clClient rq v sys h = (resp, Some contents, h')"
  shows "lh_enabled h \<and> GetCurrentFork (ly_spec env) (ly_genesisTime env) (ly_now env) < DataVersionGloas \<and>
    (\<exists>cache blinded msg body header fork bytes. ly_cache env = Some cache \<and> srq_body rq = Some bytes \<and>
       (if srq_mediaType rq = Some contentTypeSSZ then srq_decodeSSZ rq fork bytes else srq_decodeJSON rq fork bytes) = Some blinded \<and>
       sl_Message blinded = Some msg \<and> blk_Body msg = Some body \<and>
       lb_ExecutionPayloadHeader body = Some header \<and>
       publish_unblinded env clClient rq v cache blinded (blk_Slot msg) (xh_BlockHash header) sys h = (resp, Some contents, h'))"
  using assms unfolding handleSubmitBlindedBlock_def Let_def
  by (auto simp: not_le bind_eq_Some_conv split: option.split_asm if_split_asm)


text \<open>Commitments that do not match are not rejected: the proposer's are replaced, so the block is no longer the one that was signed.\<close>

lemma mismatched_commitments_replaced:
  assumes "UnblindSignedBlindedBeaconBlock blinded p = Some contents" "sl_Message blinded = Some msg" "blk_Body msg = Some body"
    "bd_BlobsBundle (p_build p) = Some bundle" "bb_Commitments bundle \<noteq> []" "lb_BlobKZGCommitments body \<noteq> bb_Commitments bundle"
  shows "blind_contents header contents \<noteq> blinded"
proof
  assume "blind_contents header contents = blinded"
  then have "sl_Message (blind_contents header contents) = Some msg" using assms(2) by simp
  then have "fb_BlobKZGCommitments (blk_Body (sc_Message contents)) = lb_BlobKZGCommitments body"
    using assms(3) by (auto simp: blind_contents_def Let_def)
  moreover have "fb_BlobKZGCommitments (blk_Body (sc_Message contents)) = bb_Commitments bundle"
    using assms(1-5) by (auto simp: UnblindSignedBlindedBeaconBlock_def unblinded_commitments_def Let_def)
  ultimately show False using assms(6) by simp
qed

section \<open>Registrations are verified\<close>

definition reg_key :: "SignedValidatorRegistration option \<Rightarrow> pubkey option" where
  "reg_key reg = map_option vr_Pubkey (Option.bind reg sr_Message)"

definition registrations_ok :: "legacy_env \<Rightarrow> reg_store \<Rightarrow> bool" where
  "registrations_ok env st \<longleftrightarrow>
     (\<forall>pk reg. Get pk st = Some reg \<longrightarrow> reg_key reg = Some pk \<and>
        (\<exists>forkVersion. VerifyRegistrationWithDomain env reg (ly_genesisForkVersion env) forkVersion (ly_genesisRoot env)))"

lemma store_registrations_keep:
  "keepExisting (snd (store_registrations env fv regs st)) = keepExisting st"
  by (induction regs arbitrary: st) (auto split: option.split)

lemma store_registrations_ok:
  assumes "registrations_ok env st"
  shows "registrations_ok env (snd (store_registrations env fv regs st))"
  using assms
proof (induction regs arbitrary: st)
  case (Cons reg regs)
  show ?case
  proof (cases "Option.bind reg sr_Message")
    case (Some msg)
    have "VerifyRegistrationWithDomain env reg (ly_genesisForkVersion env) fv (ly_genesisRoot env) \<Longrightarrow>
      registrations_ok env (snd (Put (vr_Pubkey msg) reg st))"
      using Cons.prems Some unfolding registrations_ok_def Get_Put by (auto simp: reg_key_def split: if_split_asm)
    then show ?thesis using Cons Some by (simp add: Cons.IH)
  qed (use Cons.prems in simp)
qed simp

lemma find_snoc: "find P (xs @ [x]) = (case find P xs of Some y \<Rightarrow> Some y | None \<Rightarrow> if P x then Some x else None)"
  by (induction xs) auto

text \<open>A list that is accepted is stored whole: for every key the last registration of the list wins.\<close>

lemma store_registrations_accepted:
  assumes "store_registrations env fv regs st = (LStatus 200 None, st')" "\<not> keepExisting st"
  shows "Get pk st' = (case find (\<lambda>reg. reg_key reg = Some pk) (rev regs) of Some reg \<Rightarrow> Some reg | None \<Rightarrow> Get pk st)"
  using assms
proof (induction regs arbitrary: st)
  case (Cons reg regs)
  obtain msg where msg: "Option.bind reg sr_Message = Some msg"
    using Cons.prems by (cases "Option.bind reg sr_Message") simp_all
  then have rest: "store_registrations env fv regs (snd (Put (vr_Pubkey msg) reg st)) = (LStatus 200 None, st')"
    using Cons.prems by (auto split: if_split_asm)
  have key: "reg_key reg = Some (vr_Pubkey msg)" by (simp add: reg_key_def msg)
  show ?case using Cons.IH [OF rest] Cons.prems(2) key by (auto simp: Get_Put find_snoc split: option.split)
qed simp

lemma register_keep: "keepExisting (lh_validatorsStore (snd (HandleRegisterValidators env rq h))) = keepExisting (lh_validatorsStore h)"
  using store_registrations_keep by (auto simp: HandleRegisterValidators_def Let_def split: option.split prod.split) (metis snd_conv)+

lemma register_ok:
  "registrations_ok env (lh_validatorsStore h) \<Longrightarrow> registrations_ok env (lh_validatorsStore (snd (HandleRegisterValidators env rq h)))"
  using store_registrations_ok [of env "lh_validatorsStore h"]
  by (auto simp: HandleRegisterValidators_def Let_def split: option.split prod.split) (metis snd_conv)+

definition register_run :: "legacy_env \<Rightarrow> (gotime \<times> register_request) list \<Rightarrow> LegacyHandler \<Rightarrow> LegacyHandler" where
  "register_run env rqs h = fold (\<lambda>(now, rq) h. snd (HandleRegisterValidators (env\<lparr>ly_now := now\<rparr>) rq h)) rqs h"

lemma domain_verifies_now [simp]: "domain_verifies (env\<lparr>ly_now := now\<rparr>) = domain_verifies env"
  by (simp add: domain_verifies_def fun_eq_iff)

lemma VerifyRegistration_now [simp]: "VerifyRegistrationWithDomain (env\<lparr>ly_now := now\<rparr>) = VerifyRegistrationWithDomain env"
  unfolding VerifyRegistrationWithDomain_def domain_verifies_now by (simp add: fun_eq_iff split: option.split)

lemma registrations_ok_now [simp]: "registrations_ok (env\<lparr>ly_now := now\<rparr>) st = registrations_ok env st"
  by (simp add: registrations_ok_def)

lemma register_run_ok:
  assumes "registrations_ok env (lh_validatorsStore h)"
  shows "registrations_ok env (lh_validatorsStore (register_run env rqs h)) \<and>
    keepExisting (lh_validatorsStore (register_run env rqs h)) = keepExisting (lh_validatorsStore h)"
  using assms
proof (induction rqs arbitrary: h)
  case (Cons x rqs)
  obtain now rq where x: "x = (now, rq)" by (cases x)
  have "registrations_ok env (lh_validatorsStore (snd (HandleRegisterValidators (env\<lparr>ly_now := now\<rparr>) rq h)))"
    using register_ok [of "env\<lparr>ly_now := now\<rparr>" h rq] Cons.prems by simp
  from Cons.IH [OF this] show ?case by (simp add: register_run_def x register_keep)
qed (simp add: register_run_def)

lemma new_registrations_ok: "registrations_ok env (lh_validatorsStore (NewLegacyHandler New))" "\<not> keepExisting (lh_validatorsStore (NewLegacyHandler New))"
  by (simp_all add: registrations_ok_def NewLegacyHandler_def New_def newStore_def Get_def)

lemma register_accepted:
  assumes "HandleRegisterValidators env rq h = (LStatus 200 None, h')" "\<not> keepExisting (lh_validatorsStore h)"
  shows "\<exists>body regs. rrq_body rq = Some body \<and>
    (if rrq_mediaType rq = Some contentTypeSSZ then map_option (map Some) (decodeRegistrationsSSZ env body) else ly_regsJSON env body) = Some regs \<and>
    (\<forall>pk. Get pk (lh_validatorsStore h') =
       (case find (\<lambda>reg. reg_key reg = Some pk) (rev regs) of Some reg \<Rightarrow> Some reg | None \<Rightarrow> Get pk (lh_validatorsStore h)))"
proof -
  obtain body where b: "rrq_body rq = Some body"
    using assms by (cases "rrq_body rq") (auto simp: HandleRegisterValidators_def Let_def split: if_split_asm)
  obtain regs where r: "(if rrq_mediaType rq = Some contentTypeSSZ then map_option (map Some) (decodeRegistrationsSSZ env body)
      else ly_regsJSON env body) = Some regs"
    using assms b unfolding HandleRegisterValidators_def Let_def
    by (cases "if rrq_mediaType rq = Some contentTypeSSZ then map_option (map Some) (decodeRegistrationsSSZ env body)
      else ly_regsJSON env body") (simp_all split: if_split_asm)
  obtain fv st where st: "store_registrations env fv regs (lh_validatorsStore h) = (LStatus 200 None, st)" "h' = h\<lparr>lh_validatorsStore := st\<rparr>"
    using assms unfolding HandleRegisterValidators_def Let_def b option.case r by (auto split: if_split_asm option.split_asm prod.split_asm)
  show ?thesis using b r store_registrations_accepted [OF st(1) assms(2)] st(2) by auto
qed

lemma settings_of_registration:
  assumes "registrations_ok env store" "registration_settings pubkeyByIndex fork store s i = Some st"
  shows "fork < DataVersionGloas \<and> (\<exists>pk r msg fv. pubkeyByIndex i = Some pk \<and> Get pk store = Some (Some r) \<and> sr_Message r = Some msg \<and>
    vr_Pubkey msg = pk \<and> st_FeeRecipient st = vr_FeeRecipient msg \<and>
    VerifyRegistrationWithDomain env (Some r) (ly_genesisForkVersion env) fv (ly_genesisRoot env))"
proof -
  obtain pk reg msg where g: "fork < DataVersionGloas" "pubkeyByIndex i = Some pk" "Get pk store = Some (Some reg)" "sr_Message reg = Some msg"
    "st_FeeRecipient st = vr_FeeRecipient msg"
    using assms(2) by (auto simp: registration_settings_def not_le bind_eq_Some_conv split: if_split_asm option.split_asm)
  then show ?thesis using assms(1) by (fastforce simp: registrations_ok_def reg_key_def)
qed

lemma paid_recipient_verified:
  assumes "registrations_ok env store" "fork < DataVersionGloas"
  shows "fst (build_settings [registration_settings pubkeyByIndex fork store] own fork attrs) = own \<or>
      (\<exists>pk r msg fv. pubkeyByIndex (pa_ProposerIndex attrs) = Some pk \<and> Get pk store = Some (Some r) \<and> sr_Message r = Some msg \<and>
         vr_Pubkey msg = pk \<and> VerifyRegistrationWithDomain env (Some r) (ly_genesisForkVersion env) fv (ly_genesisRoot env) \<and>
         fst (build_settings [registration_settings pubkeyByIndex fork store] own fork attrs) = vr_FeeRecipient msg)"
proof (cases "registration_settings pubkeyByIndex fork store (pa_ProposalSlot attrs) (pa_ProposerIndex attrs)")
  case None
  then show ?thesis using assms(2) by (simp add: build_settings_def not_le [symmetric])
next
  case (Some st)
  moreover from this have "fst (build_settings [registration_settings pubkeyByIndex fork store] own fork attrs) = st_FeeRecipient st"
    using assms(2) by (simp add: build_settings_def not_le [symmetric])
  ultimately show ?thesis using settings_of_registration [OF assms(1)] by metis
qed

text \<open>
  C39: registrations are verified.  After any sequence of \<open>registerValidators\<close> requests, accepted or not, a payload built before Gloas pays either the builder's own
  address or the fee recipient of a stored registration of the proposer's own key whose signature verified; and a request answered with 200
  stored its whole list: for every key the last registration of the list, and the store is as before for keys not in it.\<close>

theorem registrations_verified:
  assumes "h = register_run env rqs (NewLegacyHandler New)"
  shows "(fork < DataVersionGloas \<longrightarrow>
      fst (build_settings [registration_settings pubkeyByIndex fork (lh_validatorsStore h)] own fork attrs) = own \<or>
      (\<exists>pk r msg fv. pubkeyByIndex (pa_ProposerIndex attrs) = Some pk \<and> Get pk (lh_validatorsStore h) = Some (Some r) \<and> sr_Message r = Some msg \<and>
         vr_Pubkey msg = pk \<and> VerifyRegistrationWithDomain env (Some r) (ly_genesisForkVersion env) fv (ly_genesisRoot env) \<and>
         fst (build_settings [registration_settings pubkeyByIndex fork (lh_validatorsStore h)] own fork attrs) = vr_FeeRecipient msg)) \<and>
    (\<forall>rq h'. HandleRegisterValidators env rq h = (LStatus 200 None, h') \<longrightarrow>
      (\<exists>body regs. rrq_body rq = Some body \<and>
        (if rrq_mediaType rq = Some contentTypeSSZ then map_option (map Some) (decodeRegistrationsSSZ env body) else ly_regsJSON env body) = Some regs \<and>
        (\<forall>pk. Get pk (lh_validatorsStore h') =
           (case find (\<lambda>reg. reg_key reg = Some pk) (rev regs) of Some reg \<Rightarrow> Some reg | None \<Rightarrow> Get pk (lh_validatorsStore h)))))"
proof -
  have ok: "registrations_ok env (lh_validatorsStore h)" "\<not> keepExisting (lh_validatorsStore h)"
    using register_run_ok [OF new_registrations_ok(1), of env rqs] new_registrations_ok(2) assms by simp_all
  show ?thesis using paid_recipient_verified [OF ok(1)] register_accepted [OF _ ok(2)] by simp
qed

text \<open>A rejected list may be stored in part: everything before the first invalid registration is kept.\<close>

lemma rejected_list_partly_stored:
  assumes "store_registrations env fv [reg] st = (LStatus 200 None, st')" "\<not> VerifyRegistrationWithDomain env bad (ly_genesisForkVersion env) fv (ly_genesisRoot env)"
  shows "fst (store_registrations env fv [reg, bad] st) \<noteq> LStatus 200 None \<and> snd (store_registrations env fv [reg, bad] st) = st'"
  using assms by (auto split: option.split_asm option.split if_split_asm)

section \<open>A concrete run\<close>

text \<open>Slot 200 is in epoch 6, where Fulu is active; the proposer with key 7 registers, asks for a header and submits the block.\<close>

definition legacy_lib :: "(payload_body, ExecutionRequests) msg_lib" where
  "legacy_lib = \<lparr>lib_forkDataRoot = (\<lambda>v g. Some (v @ replicate 28 0)), lib_signingDataRoot = (\<lambda>r d. Some (r @ d)),
     lib_signByte = (\<lambda>m. 1 # m), lib_requestsRoot = (\<lambda>_. Some [7]), lib_emptyRequests = (\<lambda>v. no_requests v),
     lib_bidRoot = (\<lambda>m. Some (bm_BlockHash m)), lib_envelopeRoot = (\<lambda>m. Some (em_BeaconBlockRoot m)),
     lib_jqBid = (\<lambda>_ _. None), lib_jqEnvelope = (\<lambda>_ _. None)\<rparr>"

definition legacy_exec :: "payload_body exec_payload" where
  "legacy_exec = \<lparr>ep_Version = DataVersionFulu, ep_GasLimit = 30, ep_Transactions = [[1], [2, 3]],
     ep_Body = \<lparr>pb_ParentHash = [1], pb_FeeRecipient = [6], pb_StateRoot = [], pb_ReceiptsRoot = [], pb_LogsBloom = [], pb_PrevRandao = [],
       pb_BlockNumber = 12, pb_GasUsed = 20, pb_Timestamp = 2400, pb_ExtraData = [], pb_BaseFeePerGas = Some 7, pb_BaseFeePerGasLE = 7 # replicate 31 0,
       pb_BlockHash = [44], pb_Withdrawals = [], pb_BlobGasUsed = 0, pb_ExcessBlobGas = 0, pb_BlockAccessList = [], pb_SlotNumber = 200\<rparr>\<rparr>"

definition legacy_payload :: build_payload where
  "legacy_payload = \<lparr>p_ProposalSlot = 200,
     p_build = \<lparr>bd_ExecutionPayload = legacy_exec, bd_ExecutionRequests = None,
       bd_BlobsBundle = Some \<lparr>bb_Commitments = [[5]], bb_Proofs = [[6]], bb_Blobs = [[8]]\<rparr>,
       bd_ParentBlockHash = replicate 32 1, bd_ParentBlockRoot = replicate 32 2, bd_PrevRandao = []\<rparr>,
     p_BlockHash = [44], p_FeeRecipient = [6], p_BlockValue = 5000000000, p_ReadyAt = 0, p_activity = \<lparr>act_bids = [], act_reveal = None\<rparr>\<rparr>"

definition legacy_key :: pubkey where "legacy_key = Pubkey (replicate 48 7)"

definition legacy_reg :: SignedValidatorRegistration where
  "legacy_reg = \<lparr>sr_Message = Some \<lparr>vr_FeeRecipient = [6], vr_GasLimit = 30, vr_Timestamp = 1, vr_Pubkey = legacy_key\<rparr>, sr_Signature = [9]\<rparr>"

definition legacy_demo :: legacy_env where
  "legacy_demo = \<lparr>ly_lib = legacy_lib, ly_bidRoot = (\<lambda>b. Some (xh_BlockHash (bb_Header b))), ly_regRoot = (\<lambda>_. Some [3]),
     ly_VerifyBLSSignature = (\<lambda>_ _ sig. sig = [9]), ly_byteListsRoot = (\<lambda>_ _ l. Some (concat l)), ly_withdrawalsRoot = (\<lambda>_ _. Some []),
     ly_regSSZ = (\<lambda>_. None), ly_regsJSON = (\<lambda>_. Some [Some legacy_reg]), ly_spec = demo_spec, ly_genesisTime = 0,
     ly_genesisForkVersion = [0, 0, 0, 0], ly_genesisRoot = [], ly_cfg = DefaultConfig\<lparr>cfg_APIPort := 9000, cfg_BuilderAPIEnabled := True\<rparr>,
     ly_now = 2400000000000, ly_signer = Some [5], ly_cache = Some \<lparr>pc_payloads = [(200, 0)], pc_maxSlots = 10\<rparr>, ly_order = (\<lambda>l. l),
     ly_recorder = True\<rparr>"

definition legacy_register :: register_request where
  "legacy_register = \<lparr>rrq_mediaType = Some contentTypeJSON, rrq_body = Some []\<rparr>"

definition legacy_state :: legacy_sys where
  "legacy_state = NewRevealService NewPlanService (\<lambda>_. legacy_payload) None demo_stats"

lemma legacy_chain:
  "GetCurrentFork demo_spec 0 2400000000000 = DataVersionFulu" "GetCurrentSlot demo_spec 0 2400000000000 = 200"
  "GetForkVersion demo_spec 0 2400000000000 = Some [7, 0, 0, 0]" "ActiveForkAtEpoch demo_spec (GetEpochOfSlot demo_spec 200) = DataVersionFulu"
  by code_simp+

lemma legacy_verifies: "VerifyRegistrationWithDomain legacy_demo (Some legacy_reg) gfv fv gvr"
  by (simp add: VerifyRegistrationWithDomain_def legacy_reg_def legacy_demo_def domain_verifies_def)

lemma legacy_registers:
  "\<exists>h'. HandleRegisterValidators legacy_demo legacy_register h = (LStatus 200 None, h') \<and>
     lh_validatorsStore h' = snd (Put legacy_key (Some legacy_reg) (lh_validatorsStore h)) \<and> lh_enabled h' = lh_enabled h"
proof -
  have "store_registrations legacy_demo fv [Some legacy_reg] st = (LStatus 200 None, snd (Put legacy_key (Some legacy_reg) st))" for fv st
    using legacy_verifies by (simp add: legacy_reg_def)
  moreover have "ly_regsJSON legacy_demo = (\<lambda>_. Some [Some legacy_reg])" "ly_spec legacy_demo = demo_spec" "ly_genesisTime legacy_demo = 0"
    "ly_now legacy_demo = 2400000000000" by (simp_all add: legacy_demo_def)
  ultimately show ?thesis
    by (simp add: HandleRegisterValidators_def legacy_register_def legacy_chain contentTypeJSON_def contentTypeSSZ_def Let_def)
qed

theorem registrations_verified_witness:
  "(\<exists>h'. HandleRegisterValidators legacy_demo legacy_register (register_run legacy_demo [] (NewLegacyHandler New)) = (LStatus 200 None, h') \<and>
      Get legacy_key (lh_validatorsStore h') = Some (Some legacy_reg)) \<and>
   (\<forall>attrs. \<exists>rcpt. fst (build_settings [registration_settings (\<lambda>_. Some legacy_key) DataVersionFulu
        (lh_validatorsStore (register_run legacy_demo [(2400000000000, legacy_register)] (NewLegacyHandler New)))] [9] DataVersionFulu attrs) = rcpt \<and>
      (rcpt = [9] \<or> (\<exists>r msg fv. sr_Message r = Some msg \<and> vr_Pubkey msg = legacy_key \<and> rcpt = vr_FeeRecipient msg \<and>
         VerifyRegistrationWithDomain legacy_demo (Some r) [0, 0, 0, 0] fv [])))"
proof -
  obtain h' where h': "HandleRegisterValidators legacy_demo legacy_register (register_run legacy_demo [] (NewLegacyHandler New)) = (LStatus 200 None, h')"
    using legacy_registers by blast
  have rq: "rrq_body legacy_register = Some []" "rrq_mediaType legacy_register = Some contentTypeJSON" by (simp_all add: legacy_register_def)
  have json: "ly_regsJSON legacy_demo [] = Some [Some legacy_reg]" "reg_key (Some legacy_reg) = Some legacy_key"
    "ly_genesisForkVersion legacy_demo = [0, 0, 0, 0]" "ly_genesisRoot legacy_demo = []"
    by (simp_all add: legacy_demo_def reg_key_def legacy_reg_def)
  have "Get legacy_key (lh_validatorsStore h') = Some (Some legacy_reg)"
    using registrations_verified [OF refl, THEN conjunct2, THEN spec, THEN spec, THEN mp, OF h'] json by (auto simp: rq contentTypeJSON_def contentTypeSSZ_def)
  moreover have "DataVersionFulu < DataVersionGloas" by (simp add: less_DataVersion_def)
  note registrations_verified [OF refl, THEN conjunct1, THEN mp, OF this, of "\<lambda>_. Some legacy_key" legacy_demo "[(2400000000000, legacy_register)]" "[9]"]
  ultimately show ?thesis using h' unfolding json(3,4) by auto
qed

definition legacy_handler :: LegacyHandler where
  "legacy_handler = (NewLegacyHandler (snd (Put legacy_key (Some legacy_reg) New)))\<lparr>lh_enabled := True\<rparr>"

definition legacy_header_request :: header_request where
  "legacy_header_request = \<lparr>hrq_slot = ''200'', hrq_parentHash = ''0x'' @ hex_EncodeToString (replicate 32 1),
     hrq_pubkey = ''0x'' @ hex_EncodeToString (replicate 48 7), hrq_preferSSZ = False, hrq_hangsUp = False, hrq_encodes = True, hrq_writes = True\<rparr>"

lemma legacy_request_parses:
  "hex_bytes 32 (hrq_parentHash legacy_header_request) = Some (replicate 32 1)"
  "hex_pubkey (hrq_pubkey legacy_header_request) = Some legacy_key"
  unfolding legacy_header_request_def header_request.select_convs hex_pubkey_def legacy_key_def
  by (simp_all only: hex_bytes_encoded length_replicate option.map)

lemma legacy_request_fields:
  "hrq_slot legacy_header_request = ''200''" "hrq_preferSSZ legacy_header_request = False" "hrq_writes legacy_header_request = True"
  "hrq_hangsUp legacy_header_request = False"
  by (simp_all only: legacy_header_request_def header_request.select_convs)

lemma legacy_slot_parses: "ParseUint ''200'' = Some 200"
  by (simp add: ParseUint_def digit_val_def of_char_def)

lemma legacy_state_fields: "rvs_planSvc legacy_state = NewPlanService" "rvs_heap legacy_state = (\<lambda>_. legacy_payload)"
  by (simp_all add: legacy_state_def NewRevealService_def)

lemma legacy_demo_fields:
  "ly_cache legacy_demo = Some \<lparr>pc_payloads = [(200, 0)], pc_maxSlots = 10\<rparr>" "ly_signer legacy_demo = Some [5]" "ly_spec legacy_demo = demo_spec"
  "ly_genesisTime legacy_demo = 0" "ly_now legacy_demo = 2400000000000" "ly_recorder legacy_demo = True" "ly_order legacy_demo = (\<lambda>l. l)"
  by (simp_all add: legacy_demo_def)

lemma legacy_handler_fields: "Get legacy_key (lh_validatorsStore legacy_handler) = Some (Some legacy_reg)" "lh_enabled legacy_handler"
  by (simp_all add: legacy_handler_def NewLegacyHandler_def Get_Put New_def newStore_def)

lemma legacy_freeze:
  "\<exists>settings ps frozen. Freeze demo_spec (ly_cfg legacy_demo) now 200 NewPlanService = (frozen, ps) \<and> fp_BuilderAPI frozen = Some settings \<and>
     ra_DelayMs settings = 0"
  by (simp add: Freeze_def NewPlanService_def New_def newStore_def Get_def Let_def resolveFrozenPlan_def resolveBuilderAPI_def
      BuilderAPIOverride_def legacy_demo_def DefaultConfig_def)

lemma legacy_bid_builds: "\<exists>sb. header_bid legacy_demo legacy_payload DataVersionFulu [5] settings = Some sb"
  by (simp add: header_bid_def BuildSignedBuilderBid_def ExecutionPayloadHeaderFromBeacon_def transactionsRoot_def merkleizeByteLists_def
      withdrawalsRoot_def legacy_demo_def legacy_payload_def legacy_exec_def Let_def case_prod_beta)

lemma legacy_header_served:
  "\<exists>sb h' sys'. HandleGetHeader legacy_demo legacy_header_request (legacy_handler, legacy_state) = (HeaderServed sb DataVersionFulu False, h', sys')"
proof -
  obtain settings ps frozen where fz: "Freeze demo_spec (ly_cfg legacy_demo) 2400000000000 200 NewPlanService = (frozen, ps)"
    "fp_BuilderAPI frozen = Some settings" "ra_DelayMs settings = 0" using legacy_freeze by blast
  obtain sb where sb: "header_bid legacy_demo legacy_payload DataVersionFulu [5] settings = Some sb" using legacy_bid_builds by blast
  have parent: "bd_ParentBlockHash (p_build legacy_payload) = replicate 32 1" by (simp only: legacy_payload_def payload.select_convs build_data.select_convs)
  have fork: "\<not> DataVersionGloas \<le> DataVersionFulu" by (simp add: less_eq_DataVersion_def)
  have cached: "cache_Get 200 \<lparr>pc_payloads = [(200, 0)], pc_maxSlots = 10\<rparr> = Some 0" by (simp add: cache_Get_def)
  have reg: "Get legacy_key (lh_validatorsStore (legacy_handler\<lparr>lh_headersRequested := n\<rparr>)) = Some (Some legacy_reg)" for n
    using legacy_handler_fields(1) by simp
  show ?thesis
    unfolding HandleGetHeader_def serve_header_def deliver_header_def Let_def
    by (simp add: legacy_demo_fields legacy_chain legacy_state_fields legacy_request_fields legacy_request_parses legacy_slot_parses fz sb parent fork
        cached reg [simplified])
qed

theorem legacy_header_gated_witness:
  "\<exists>sb h' sys'. HandleGetHeader legacy_demo legacy_header_request (legacy_handler, legacy_state) = (HeaderServed sb DataVersionFulu False, h', sys') \<and>
     bb_Pubkey (sbb_Message sb) = [5] \<and> xh_BlockHash (bb_Header (sbb_Message sb)) = [44] \<and>
     rvs_heap sys' = AddBid 0 \<lparr>br_Transport = BidTransportBuilderAPI, br_Value = header_value_gwei sb, br_ExecutionPayment = 0, br_At = 2400000000000\<rparr>
       (\<lambda>_. legacy_payload)"
proof -
  obtain sb h' sys' where served: "HandleGetHeader legacy_demo legacy_header_request (legacy_handler, legacy_state) =
    (HeaderServed sb DataVersionFulu False, h', sys')" using legacy_header_served by blast
  have cached: "cache_Get 200 \<lparr>pc_payloads = [(200, 0)], pc_maxSlots = 10\<rparr> = Some ref \<Longrightarrow> ref = 0" for ref by (simp add: cache_Get_def)
  have bh: "pb_BlockHash (ep_Body (bd_ExecutionPayload (p_build legacy_payload))) = [44]" by (simp add: legacy_payload_def legacy_exec_def)
  show ?thesis
    using legacy_header_gated [OF served] served cached bh
    unfolding legacy_demo_fields legacy_state_fields legacy_request_fields legacy_slot_parses option.inject by metis
qed

definition legacy_header :: exec_header where
  "legacy_header = the (ExecutionPayloadHeaderFromBeacon legacy_demo legacy_exec DataVersionFulu 16)"

definition legacy_body :: blinded_body where
  "legacy_body = \<lparr>lb_ops = \<lparr>op_RANDAOReveal = [1], op_ETH1Data = [], op_Graffiti = [2], op_ProposerSlashings = [], op_AttesterSlashings = [],
       op_Attestations = [3], op_Deposits = [], op_VoluntaryExits = [], op_SyncAggregate = [4], op_BLSToExecutionChanges = []\<rparr>,
     lb_ExecutionPayloadHeader = Some legacy_header, lb_BlobKZGCommitments = [[5]], lb_ExecutionRequests = None\<rparr>"

definition legacy_blinded :: SignedBlindedBeaconBlock where
  "legacy_blinded = \<lparr>sl_Version = DataVersionFulu, sl_Message = Some \<lparr>blk_Slot = 200, blk_ProposerIndex = 3, blk_ParentRoot = [2], blk_StateRoot = [8],
     blk_Body = Some legacy_body\<rparr>, sl_Signature = [9]\<rparr>"

definition legacy_block_request :: blinded_request where
  "legacy_block_request = \<lparr>srq_mediaType = Some contentTypeJSON, srq_version = None, srq_body = Some [], srq_decodeJSON = (\<lambda>_ _. Some legacy_blinded),
     srq_decodeSSZ = (\<lambda>_ _. None), srq_toVersioned = (\<lambda>_. True), srq_fromSignedBlock = (\<lambda>_. False), srq_publish = (\<lambda>_. True)\<rparr>"

lemma legacy_header_hash: "xh_BlockHash legacy_header = [44]"
  by (simp add: legacy_header_def ExecutionPayloadHeaderFromBeacon_def transactionsRoot_def merkleizeByteLists_def withdrawalsRoot_def
      legacy_demo_def legacy_exec_def Let_def case_prod_beta)

lemma legacy_block_found:
  "GetByBlockHash (\<lambda>l. l) (\<lambda>_. legacy_payload) [44] \<lparr>pc_payloads = [(200, 0)], pc_maxSlots = 10\<rparr> = Some 0"
  by (simp add: GetByBlockHash_def legacy_payload_def)

lemma legacy_block_published:
  "\<exists>contents h'. HandleSubmitBlindedBlockV1 legacy_demo True legacy_block_request legacy_state legacy_handler =
     (Unblinded DataVersionFulu legacy_exec (Some \<lparr>bb_Commitments = [[5]], bb_Proofs = [[6]], bb_Blobs = [[8]]\<rparr>), Some contents, h')"
proof -
  have fork: "\<not> DataVersionGloas \<le> DataVersionFulu" "DataVersionDeneb \<le> DataVersionFulu" by (simp_all add: less_eq_DataVersion_def)
  have "lb_ExecutionPayloadHeader legacy_body = Some legacy_header" by (simp add: legacy_body_def)
  then have "handleSubmitBlindedBlock legacy_demo True legacy_block_request 1 legacy_state legacy_handler =
      publish_unblinded legacy_demo True legacy_block_request 1 \<lparr>pc_payloads = [(200, 0)], pc_maxSlots = 10\<rparr> legacy_blinded 200 [44] legacy_state legacy_handler"
    by (simp add: handleSubmitBlindedBlock_def Let_def legacy_handler_fields legacy_demo_fields legacy_chain fork legacy_block_request_def
        contentTypeJSON_def contentTypeSSZ_def legacy_blinded_def legacy_header_hash)
  also have "\<exists>contents h'. \<dots> = (Unblinded DataVersionFulu legacy_exec (Some \<lparr>bb_Commitments = [[5]], bb_Proofs = [[6]], bb_Blobs = [[8]]\<rparr>), Some contents, h')"
    by (simp add: publish_unblinded_def Let_def legacy_demo_fields legacy_state_fields legacy_block_found UnblindSignedBlindedBeaconBlock_def
        legacy_blinded_def legacy_block_request_def fork writeUnblindedPayloadResponse_def) (simp add: legacy_payload_def)
  finally show ?thesis by (simp add: HandleSubmitBlindedBlockV1_def)
qed


end
