(* ===== verification/Settings.thy ===== *)
theory Settings
  imports Config Go_Json "HOL-Library.Multiset"
begin

text \<open>
  \<open>pkg/config/settings.go\<close>, \<open>settings_fields.go\<close>, \<open>settings_keys.go\<close> and the table of \<open>pkg/db/settings.go\<close>: the mutable configuration
  with its three layers (default, command line, interface), of which the last write wins, across restarts.  A persisted JSON
  text is represented by its syntax tree, the typed value of a field by \<open>setting\<close>.  A map of updates is the list of its entries in the order
  the first loop visits them; the order of the second loop is the argument \<open>ord\<close>.
\<close>

section \<open>Fields\<close>

definition KeyScheduleMode :: string where "KeyScheduleMode = ''schedule.mode''"
definition KeyScheduleEveryNth :: string where "KeyScheduleEveryNth = ''schedule.every_nth''"
definition KeyScheduleNextN :: string where "KeyScheduleNextN = ''schedule.next_n''"
definition KeyScheduleStartSlot :: string where "KeyScheduleStartSlot = ''schedule.start_slot''"
definition KeyEPBSBuildStartTime :: string where "KeyEPBSBuildStartTime = ''epbs.build_start_time''"
definition KeyEPBSBidStartTime :: string where "KeyEPBSBidStartTime = ''epbs.bid_start_time''"
definition KeyEPBSBidEndTime :: string where "KeyEPBSBidEndTime = ''epbs.bid_end_time''"
definition KeyEPBSBidMinAmount :: string where "KeyEPBSBidMinAmount = ''epbs.bid_min_amount''"
definition KeyEPBSBidIncrease :: string where "KeyEPBSBidIncrease = ''epbs.bid_increase''"
definition KeyEPBSBidInterval :: string where "KeyEPBSBidInterval = ''epbs.bid_interval''"
definition KeyEPBSBidSubsidy :: string where "KeyEPBSBidSubsidy = ''epbs.bid_subsidy''"
definition KeyEPBSBidValueOverride :: string where "KeyEPBSBidValueOverride = ''epbs.bid_value_override''"
definition KeyEPBSHeadVoteThreshold :: string where "KeyEPBSHeadVoteThreshold = ''epbs.head_vote_threshold_pct''"
definition KeyRevealEnabled :: string where "KeyRevealEnabled = ''reveal.enabled''"
definition KeyRevealGateMode :: string where "KeyRevealGateMode = ''reveal.gate_mode''"
definition KeyRevealTimeMs :: string where "KeyRevealTimeMs = ''reveal.time_ms''"
definition KeyRevealVoteThreshold :: string where "KeyRevealVoteThreshold = ''reveal.vote_threshold_pct''"
definition KeyRevealBroadcastValidation :: string where "KeyRevealBroadcastValidation = ''reveal.broadcast_validation''"
definition KeyRevealMaxAttempts :: string where "KeyRevealMaxAttempts = ''reveal.max_attempts''"
definition KeyRevealRetryInterval :: string where "KeyRevealRetryInterval = ''reveal.retry_interval_ms''"
definition KeyPayloadBuildTime :: string where "KeyPayloadBuildTime = ''payload_build_time''"
definition KeyExtraData :: string where "KeyExtraData = ''extra_data''"
definition KeyBuilderAPISubsidy :: string where "KeyBuilderAPISubsidy = ''builder_api.block_value_subsidy_gwei''"
definition KeyBuilderAPIValueOverride :: string where "KeyBuilderAPIValueOverride = ''builder_api.value_override_gwei''"
definition KeySlotResultRetentionEpochs :: string where "KeySlotResultRetentionEpochs = ''slot_result_retention_epochs''"
definition KeySlotArtifactRetentionEpochs :: string where "KeySlotArtifactRetentionEpochs = ''slot_artifact_retention_epochs''"
definition KeySlotArtifactCaptureEnabled :: string where "KeySlotArtifactCaptureEnabled = ''slot_artifact_capture_enabled''"
definition KeyDepositAmount :: string where "KeyDepositAmount = ''deposit_amount''"
definition KeyTopupThreshold :: string where "KeyTopupThreshold = ''topup_threshold''"
definition KeyTopupAmount :: string where "KeyTopupAmount = ''topup_amount''"
definition KeyEPBSEnabled :: string where "KeyEPBSEnabled = ''epbs_enabled''"
definition KeyBuilderAPIEnabled :: string where "KeyBuilderAPIEnabled = ''builder_api_enabled''"
definition KeyLifecycleEnabled :: string where "KeyLifecycleEnabled = ''lifecycle_enabled''"

datatype setting = SetStr string | SetU64 u64 | SetI64 i64 | SetBool bool

datatype setting_type = TStr | TU64 | TI64 | TBool

fun type_of :: "setting \<Rightarrow> setting_type" where
  "type_of (SetStr _) = TStr"
| "type_of (SetU64 _) = TU64"
| "type_of (SetI64 _) = TI64"
| "type_of (SetBool _) = TBool"

fun str_of :: "setting \<Rightarrow> string" where "str_of (SetStr s) = s" | "str_of _ = []"
fun u64_of :: "setting \<Rightarrow> u64" where "u64_of (SetU64 w) = w" | "u64_of _ = 0"
fun i64_of :: "setting \<Rightarrow> i64" where "i64_of (SetI64 n) = n" | "i64_of _ = 0"
fun bool_of :: "setting \<Rightarrow> bool" where "bool_of (SetBool b) = b" | "bool_of _ = False"

record Field =
  fd_Key :: string
  fd_FlagKey :: string
  fd_type :: setting_type
  fd_read :: "Config \<Rightarrow> setting"
  fd_write :: "setting \<Rightarrow> Config \<Rightarrow> Config"

definition newField :: "string \<Rightarrow> string \<Rightarrow> setting_type \<Rightarrow> (Config \<Rightarrow> setting) \<Rightarrow> (setting \<Rightarrow> Config \<Rightarrow> Config) \<Rightarrow> Field" where
  "newField key flag t rd wr = \<lparr>fd_Key = key, fd_FlagKey = flag, fd_type = t, fd_read = rd, fd_write = wr\<rparr>"

definition field_Get :: "Field \<Rightarrow> Config \<Rightarrow> setting" where "field_Get f c = fd_read f c"

text \<open>A value of the wrong type leaves the configuration as it is (the error is logged).\<close>

definition field_Set :: "Field \<Rightarrow> setting \<Rightarrow> Config \<Rightarrow> Config" where
  "field_Set f v c = (if type_of v = fd_type f then fd_write f v c else c)"

definition field_Decode :: "Field \<Rightarrow> json \<Rightarrow> setting option" where
  "field_Decode f raw =
     (case fd_type f of
        TStr \<Rightarrow> map_option SetStr (json_string [] raw)
      | TU64 \<Rightarrow> map_option (\<lambda>p. SetU64 (case p of None \<Rightarrow> 0 | Some w \<Rightarrow> w)) (json_u64_ptr raw)
      | TI64 \<Rightarrow> map_option (\<lambda>p. SetI64 (case p of None \<Rightarrow> 0 | Some n \<Rightarrow> n)) (json_i64_ptr raw)
      | TBool \<Rightarrow> map_option SetBool (json_bool False raw))"

fun field_Encode :: "setting \<Rightarrow> json" where
  "field_Encode (SetStr s) = JStr s"
| "field_Encode (SetU64 w) = enc_u64 w"
| "field_Encode (SetI64 n) = JNum n"
| "field_Encode (SetBool b) = JBool b"

definition field_Equal :: "Field \<Rightarrow> setting \<Rightarrow> setting \<Rightarrow> bool" where
  "field_Equal f a b \<longleftrightarrow> type_of a = fd_type f \<and> type_of b = fd_type f \<and> a = b"

definition Fields :: "Field list" where
  "Fields = [
     newField KeyScheduleMode ''schedule-mode'' TStr (\<lambda>c. SetStr (sc_Mode (cfg_Schedule c))) (\<lambda>v c. c\<lparr>cfg_Schedule := (cfg_Schedule c)\<lparr>sc_Mode := str_of v\<rparr>\<rparr>),
     newField KeyScheduleEveryNth ''schedule-every-nth'' TU64 (\<lambda>c. SetU64 (sc_EveryNth (cfg_Schedule c))) (\<lambda>v c. c\<lparr>cfg_Schedule := (cfg_Schedule c)\<lparr>sc_EveryNth := u64_of v\<rparr>\<rparr>),
     newField KeyScheduleNextN ''schedule-next-n'' TU64 (\<lambda>c. SetU64 (sc_NextN (cfg_Schedule c))) (\<lambda>v c. c\<lparr>cfg_Schedule := (cfg_Schedule c)\<lparr>sc_NextN := u64_of v\<rparr>\<rparr>),
     newField KeyScheduleStartSlot ''schedule-start-slot'' TU64 (\<lambda>c. SetU64 (sc_StartSlot (cfg_Schedule c))) (\<lambda>v c. c\<lparr>cfg_Schedule := (cfg_Schedule c)\<lparr>sc_StartSlot := u64_of v\<rparr>\<rparr>),
     newField KeyEPBSBuildStartTime ''build-start-time'' TI64 (\<lambda>c. SetI64 (ec_BuildStartTime (cfg_EPBS c))) (\<lambda>v c. c\<lparr>cfg_EPBS := (cfg_EPBS c)\<lparr>ec_BuildStartTime := i64_of v\<rparr>\<rparr>),
     newField KeyEPBSBidStartTime ''epbs-bid-start'' TI64 (\<lambda>c. SetI64 (ec_BidStartTime (cfg_EPBS c))) (\<lambda>v c. c\<lparr>cfg_EPBS := (cfg_EPBS c)\<lparr>ec_BidStartTime := i64_of v\<rparr>\<rparr>),
     newField KeyEPBSBidEndTime ''epbs-bid-end'' TI64 (\<lambda>c. SetI64 (ec_BidEndTime (cfg_EPBS c))) (\<lambda>v c. c\<lparr>cfg_EPBS := (cfg_EPBS c)\<lparr>ec_BidEndTime := i64_of v\<rparr>\<rparr>),
     newField KeyEPBSBidMinAmount ''epbs-bid-min'' TU64 (\<lambda>c. SetU64 (ec_BidMinAmount (cfg_EPBS c))) (\<lambda>v c. c\<lparr>cfg_EPBS := (cfg_EPBS c)\<lparr>ec_BidMinAmount := u64_of v\<rparr>\<rparr>),
     newField KeyEPBSBidIncrease ''epbs-bid-increase'' TU64 (\<lambda>c. SetU64 (ec_BidIncrease (cfg_EPBS c))) (\<lambda>v c. c\<lparr>cfg_EPBS := (cfg_EPBS c)\<lparr>ec_BidIncrease := u64_of v\<rparr>\<rparr>),
     newField KeyEPBSBidInterval ''epbs-bid-interval'' TI64 (\<lambda>c. SetI64 (ec_BidInterval (cfg_EPBS c))) (\<lambda>v c. c\<lparr>cfg_EPBS := (cfg_EPBS c)\<lparr>ec_BidInterval := i64_of v\<rparr>\<rparr>),
     newField KeyEPBSBidSubsidy ''epbs-bid-subsidy'' TU64 (\<lambda>c. SetU64 (ec_BidSubsidy (cfg_EPBS c))) (\<lambda>v c. c\<lparr>cfg_EPBS := (cfg_EPBS c)\<lparr>ec_BidSubsidy := u64_of v\<rparr>\<rparr>),
     newField KeyEPBSBidValueOverride ''epbs-bid-value-override'' TU64 (\<lambda>c. SetU64 (ec_BidValueOverride (cfg_EPBS c))) (\<lambda>v c. c\<lparr>cfg_EPBS := (cfg_EPBS c)\<lparr>ec_BidValueOverride := u64_of v\<rparr>\<rparr>),
     newField KeyEPBSHeadVoteThreshold ''epbs-vote-threshold'' TU64 (\<lambda>c. SetU64 (ec_HeadVoteThresholdPct (cfg_EPBS c))) (\<lambda>v c. c\<lparr>cfg_EPBS := (cfg_EPBS c)\<lparr>ec_HeadVoteThresholdPct := u64_of v\<rparr>\<rparr>),
     newField KeyRevealEnabled ''reveal-enabled'' TBool (\<lambda>c. SetBool (rc_Enabled (cfg_Reveal c))) (\<lambda>v c. c\<lparr>cfg_Reveal := (cfg_Reveal c)\<lparr>rc_Enabled := bool_of v\<rparr>\<rparr>),
     newField KeyRevealGateMode ''reveal-gate-mode'' TStr (\<lambda>c. SetStr (rc_GateMode (cfg_Reveal c))) (\<lambda>v c. c\<lparr>cfg_Reveal := (cfg_Reveal c)\<lparr>rc_GateMode := str_of v\<rparr>\<rparr>),
     newField KeyRevealTimeMs ''reveal-time'' TI64 (\<lambda>c. SetI64 (rc_TimeMs (cfg_Reveal c))) (\<lambda>v c. c\<lparr>cfg_Reveal := (cfg_Reveal c)\<lparr>rc_TimeMs := i64_of v\<rparr>\<rparr>),
     newField KeyRevealVoteThreshold ''reveal-vote-threshold'' TU64 (\<lambda>c. SetU64 (rc_VoteThresholdPct (cfg_Reveal c))) (\<lambda>v c. c\<lparr>cfg_Reveal := (cfg_Reveal c)\<lparr>rc_VoteThresholdPct := u64_of v\<rparr>\<rparr>),
     newField KeyRevealBroadcastValidation ''reveal-broadcast-validation'' TStr (\<lambda>c. SetStr (rc_BroadcastValidation (cfg_Reveal c))) (\<lambda>v c. c\<lparr>cfg_Reveal := (cfg_Reveal c)\<lparr>rc_BroadcastValidation := str_of v\<rparr>\<rparr>),
     newField KeyRevealMaxAttempts ''reveal-max-attempts'' TU64 (\<lambda>c. SetU64 (rc_MaxAttempts (cfg_Reveal c))) (\<lambda>v c. c\<lparr>cfg_Reveal := (cfg_Reveal c)\<lparr>rc_MaxAttempts := u64_of v\<rparr>\<rparr>),
     newField KeyRevealRetryInterval ''reveal-retry-interval'' TI64 (\<lambda>c. SetI64 (rc_RetryIntervalMs (cfg_Reveal c))) (\<lambda>v c. c\<lparr>cfg_Reveal := (cfg_Reveal c)\<lparr>rc_RetryIntervalMs := i64_of v\<rparr>\<rparr>),
     newField KeyPayloadBuildTime ''payload-build-time'' TU64 (\<lambda>c. SetU64 (cfg_PayloadBuildTime c)) (\<lambda>v c. c\<lparr>cfg_PayloadBuildTime := u64_of v\<rparr>),
     newField KeyExtraData ''extra-data'' TStr (\<lambda>c. SetStr (cfg_ExtraData c)) (\<lambda>v c. c\<lparr>cfg_ExtraData := str_of v\<rparr>),
     newField KeyBuilderAPISubsidy ''builder-api-subsidy'' TU64 (\<lambda>c. SetU64 (bc_BlockValueSubsidyGwei (cfg_BuilderAPI c))) (\<lambda>v c. c\<lparr>cfg_BuilderAPI := (cfg_BuilderAPI c)\<lparr>bc_BlockValueSubsidyGwei := u64_of v\<rparr>\<rparr>),
     newField KeyBuilderAPIValueOverride ''builder-api-value-override'' TU64 (\<lambda>c. SetU64 (bc_ValueOverrideGwei (cfg_BuilderAPI c))) (\<lambda>v c. c\<lparr>cfg_BuilderAPI := (cfg_BuilderAPI c)\<lparr>bc_ValueOverrideGwei := u64_of v\<rparr>\<rparr>),
     newField KeySlotResultRetentionEpochs ''slot-result-retention-epochs'' TU64 (\<lambda>c. SetU64 (cfg_SlotResultRetentionEpochs c)) (\<lambda>v c. c\<lparr>cfg_SlotResultRetentionEpochs := u64_of v\<rparr>),
     newField KeySlotArtifactRetentionEpochs ''slot-artifact-retention-epochs'' TU64 (\<lambda>c. SetU64 (cfg_SlotArtifactRetentionEpochs c)) (\<lambda>v c. c\<lparr>cfg_SlotArtifactRetentionEpochs := u64_of v\<rparr>),
     newField KeySlotArtifactCaptureEnabled ''slot-artifact-capture-enabled'' TBool (\<lambda>c. SetBool (cfg_SlotArtifactCaptureEnabled c)) (\<lambda>v c. c\<lparr>cfg_SlotArtifactCaptureEnabled := bool_of v\<rparr>),
     newField KeyDepositAmount ''deposit-amount'' TU64 (\<lambda>c. SetU64 (cfg_DepositAmount c)) (\<lambda>v c. c\<lparr>cfg_DepositAmount := u64_of v\<rparr>),
     newField KeyTopupThreshold ''topup-threshold'' TU64 (\<lambda>c. SetU64 (cfg_TopupThreshold c)) (\<lambda>v c. c\<lparr>cfg_TopupThreshold := u64_of v\<rparr>),
     newField KeyTopupAmount ''topup-amount'' TU64 (\<lambda>c. SetU64 (cfg_TopupAmount c)) (\<lambda>v c. c\<lparr>cfg_TopupAmount := u64_of v\<rparr>),
     newField KeyEPBSEnabled ''epbs-enabled'' TBool (\<lambda>c. SetBool (cfg_EPBSEnabled c)) (\<lambda>v c. c\<lparr>cfg_EPBSEnabled := bool_of v\<rparr>),
     newField KeyBuilderAPIEnabled ''builder-api-enabled'' TBool (\<lambda>c. SetBool (cfg_BuilderAPIEnabled c)) (\<lambda>v c. c\<lparr>cfg_BuilderAPIEnabled := bool_of v\<rparr>),
     newField KeyLifecycleEnabled ''lifecycle'' TBool (\<lambda>c. SetBool (cfg_LifecycleEnabled c)) (\<lambda>v c. c\<lparr>cfg_LifecycleEnabled := bool_of v\<rparr>)]"

section \<open>The table\<close>

record SettingRow =
  row_Key :: string
  row_CLIValue :: "json option"
  row_CLISeq :: i64
  row_UIValue :: "json option"
  row_UISeq :: i64
  row_Actor :: string

record settings_db =
  sd_enabled :: bool
  sd_read_ok :: bool
  sd_write_ok :: bool
  sd_rows :: "SettingRow list"

definition GetSettings :: "settings_db \<Rightarrow> SettingRow list option" where
  "GetSettings d = (if \<not> sd_enabled d then Some [] else if \<not> sd_read_ok d then None else Some (sd_rows d))"

definition PutSetting :: "SettingRow \<Rightarrow> settings_db \<Rightarrow> settings_db" where
  "PutSetting r d =
     (if \<not> sd_enabled d \<or> \<not> sd_write_ok d then d
      else d\<lparr>sd_rows := filter (\<lambda>r'. row_Key r' \<noteq> row_Key r) (sd_rows d) @ [r]\<rparr>)"

section \<open>The service\<close>

definition SourceDefault :: string where "SourceDefault = ''default''"
definition SourceCLI :: string where "SourceCLI = ''cli''"
definition SourceUI :: string where "SourceUI = ''ui''"

text \<open>An absent layer is \<open>None\<close>; the sequence number of an absent layer is never read.\<close>

record keyState =
  ks_cli :: "(setting \<times> i64) option"
  ks_ui :: "(setting \<times> i64) option"

definition empty_state :: keyState where "empty_state = \<lparr>ks_cli = None, ks_ui = None\<rparr>"

record SettingsService =
  sg_defaults :: Config
  sg_effective :: Config
  sg_seq :: i64
  sg_keyState :: "string \<Rightarrow> keyState"
  sg_store :: settings_db
  sg_notified :: nat

definition nextSeq :: "SettingsService \<Rightarrow> i64 \<times> SettingsService" where
  "nextSeq s = (let n = swrap64 (sg_seq s + 1) in (n, s\<lparr>sg_seq := n\<rparr>))"

definition setting_row :: "string \<Rightarrow> keyState \<Rightarrow> string \<Rightarrow> SettingRow" where
  "setting_row key ks actor =
     \<lparr>row_Key = key, row_CLIValue = map_option (\<lambda>(v, _). field_Encode v) (ks_cli ks), row_CLISeq = (case ks_cli ks of None \<Rightarrow> 0 | Some (_, q) \<Rightarrow> q),
      row_UIValue = map_option (\<lambda>(v, _). field_Encode v) (ks_ui ks), row_UISeq = (case ks_ui ks of None \<Rightarrow> 0 | Some (_, q) \<Rightarrow> q), row_Actor = actor\<rparr>"

definition persist :: "Field \<Rightarrow> string \<Rightarrow> SettingsService \<Rightarrow> SettingsService" where
  "persist f actor s =
     (if \<not> sd_enabled (sg_store s) then s
      else s\<lparr>sg_store := PutSetting (setting_row (fd_Key f) (sg_keyState s (fd_Key f)) actor) (sg_store s)\<rparr>)"

definition winning :: "Field \<Rightarrow> Config \<Rightarrow> keyState \<Rightarrow> setting" where
  "winning f defaults ks =
     (let (val, winSeq) = (case ks_cli ks of Some (v, q) \<Rightarrow> if q > 0 then (v, q) else (field_Get f defaults, 0) | None \<Rightarrow> (field_Get f defaults, 0))
      in case ks_ui ks of Some (v, q) \<Rightarrow> if q > winSeq then v else val | None \<Rightarrow> val)"

definition recompute :: "SettingsService \<Rightarrow> SettingsService" where
  "recompute s = s\<lparr>sg_effective := fold (\<lambda>f. field_Set f (winning f (sg_defaults s) (sg_keyState s (fd_Key f)))) Fields (sg_effective s)\<rparr>"

text \<open>Pass 1: the persisted override of one field, and the highest sequence number seen.\<close>

definition stored_row :: "SettingRow list \<Rightarrow> string \<Rightarrow> SettingRow option" where
  "stored_row rows k = find (\<lambda>r. row_Key r = k) (rev rows)"

definition stored_ui :: "Field \<Rightarrow> SettingRow \<Rightarrow> (setting \<times> i64) option" where
  "stored_ui f row = (if row_UISeq row > 0 then map_option (\<lambda>v. (v, row_UISeq row)) (Option.bind (row_UIValue row) (field_Decode f)) else None)"

definition load_field :: "SettingRow list \<Rightarrow> Field \<Rightarrow> SettingsService \<Rightarrow> SettingsService" where
  "load_field rows f s =
     (case stored_row rows (fd_Key f) of
        None \<Rightarrow> s\<lparr>sg_keyState := (sg_keyState s)(fd_Key f := empty_state)\<rparr>
      | Some row \<Rightarrow> s\<lparr>sg_seq := max (max (sg_seq s) (row_CLISeq row)) (row_UISeq row),
                      sg_keyState := (sg_keyState s)(fd_Key f := \<lparr>ks_cli = None, ks_ui = stored_ui f row\<rparr>)\<rparr>)"

text \<open>Pass 2: the command line of this start against the persisted one.\<close>

definition stored_cli :: "Field \<Rightarrow> SettingRow option \<Rightarrow> (setting \<times> i64) option" where
  "stored_cli f r =
     (case r of None \<Rightarrow> None
      | Some row \<Rightarrow> if row_CLISeq row > 0 then map_option (\<lambda>v. (v, row_CLISeq row)) (Option.bind (row_CLIValue row) (field_Decode f)) else None)"

definition set_cli :: "Field \<Rightarrow> (setting \<times> i64) option \<Rightarrow> SettingsService \<Rightarrow> SettingsService" where
  "set_cli f l s = s\<lparr>sg_keyState := (sg_keyState s)(fd_Key f := (sg_keyState s (fd_Key f))\<lparr>ks_cli := l\<rparr>)\<rparr>"

definition reconcile_field :: "(string \<Rightarrow> bool) \<Rightarrow> SettingRow list \<Rightarrow> Field \<Rightarrow> SettingsService \<Rightarrow> SettingsService" where
  "reconcile_field supplied rows f s =
     (let stored = stored_cli f (stored_row rows (fd_Key f)) in
      if supplied (fd_Key f) then
        (let suppliedVal = field_Get f (sg_effective s) in
         case stored of
           Some (v, q) \<Rightarrow> if field_Equal f suppliedVal v then set_cli f (Some (v, q)) s
             else (let (n, s) = nextSeq s in persist f SourceCLI (set_cli f (Some (suppliedVal, n)) s))
         | None \<Rightarrow> (let (n, s) = nextSeq s in persist f SourceCLI (set_cli f (Some (suppliedVal, n)) s)))
      else (case stored of Some _ \<Rightarrow> persist f SourceCLI (set_cli f None s) | None \<Rightarrow> s))"

definition NewService :: "Config \<Rightarrow> Config \<Rightarrow> (string \<Rightarrow> bool) \<Rightarrow> settings_db \<Rightarrow> SettingsService option" where
  "NewService effective defaults supplied store =
     (case GetSettings store of None \<Rightarrow> None
      | Some rows \<Rightarrow>
          (let s = \<lparr>sg_defaults = defaults, sg_effective = effective, sg_seq = 0, sg_keyState = (\<lambda>_. empty_state), sg_store = store, sg_notified = 0\<rparr>
           in Some (recompute (fold (reconcile_field supplied rows) Fields (fold (load_field rows) Fields s)))))"

datatype settings_error = UnknownSetting string | UndecodableSetting string | InvalidScheduleMode string | MustBePositive string

definition validateValue :: "string \<Rightarrow> setting \<Rightarrow> settings_error option" where
  "validateValue key v =
     (if key = KeyScheduleMode \<and> str_of v \<notin> {ScheduleModeAll, ScheduleModeEveryN, ScheduleModeNextN} then Some (InvalidScheduleMode (str_of v))
      else if (key = KeySlotResultRetentionEpochs \<or> key = KeySlotArtifactRetentionEpochs) \<and> u64_of v = 0 then Some (MustBePositive key)
      else None)"

definition field_by_key :: "string \<Rightarrow> Field option" where
  "field_by_key key = find (\<lambda>f. fd_Key f = key) (rev Fields)"

definition decode_update :: "string \<Rightarrow> json \<Rightarrow> settings_error + setting" where
  "decode_update key raw =
     (case field_by_key key of None \<Rightarrow> Inl (UnknownSetting key)
      | Some f \<Rightarrow>
     (case field_Decode f raw of None \<Rightarrow> Inl (UndecodableSetting key)
      | Some v \<Rightarrow> (case validateValue key v of Some e \<Rightarrow> Inl e | None \<Rightarrow> Inr v)))"

fun decode_updates :: "(string \<times> json) list \<Rightarrow> settings_error + (string \<times> setting) list" where
  "decode_updates [] = Inr []"
| "decode_updates ((k, raw) # us) =
     (case decode_update k raw of Inl e \<Rightarrow> Inl e
      | Inr v \<Rightarrow> (case decode_updates us of Inl e \<Rightarrow> Inl e | Inr vs \<Rightarrow> Inr ((k, v) # vs)))"

definition apply_ui :: "string \<Rightarrow> string \<times> setting \<Rightarrow> SettingsService \<Rightarrow> SettingsService" where
  "apply_ui actor kv s =
     (case kv of (key, v) \<Rightarrow>
      let (n, s) = nextSeq s;
          s = s\<lparr>sg_keyState := (sg_keyState s)(key := (sg_keyState s key)\<lparr>ks_ui := Some (v, n)\<rparr>)\<rparr>
      in case field_by_key key of None \<Rightarrow> s | Some f \<Rightarrow> persist f actor s)"

definition SetMany :: "((string \<times> setting) list \<Rightarrow> (string \<times> setting) list) \<Rightarrow> (string \<times> json) list \<Rightarrow> string \<Rightarrow> SettingsService \<Rightarrow>
    settings_error option \<times> SettingsService" where
  "SetMany ord updates actor s =
     (case decode_updates updates of
        Inl e \<Rightarrow> (Some e, s)
      | Inr decoded \<Rightarrow>
          (let s = recompute (fold (apply_ui actor) (ord decoded) s) in (None, s\<lparr>sg_notified := sg_notified s + 1\<rparr>)))"

definition settings_Set :: "string \<Rightarrow> json \<Rightarrow> string \<Rightarrow> SettingsService \<Rightarrow> settings_error option \<times> SettingsService" where
  "settings_Set key raw actor s = SetMany (\<lambda>l. l) [(key, raw)] actor s"

section \<open>Facts on fields\<close>

lemma fields_independent:
  "\<forall>g \<in> set Fields. \<forall>f \<in> set Fields. (\<forall>v c. fd_read f (fd_write g v c) = fd_read f c) \<or> fd_Key f = fd_Key g"
  by (simp add: Fields_def newField_def)

lemma fields_read_write: "\<forall>f \<in> set Fields. \<forall>v c. type_of v = fd_type f \<longrightarrow> fd_read f (fd_write f v c) = v"
proof -
  have "type_of v = TStr \<Longrightarrow> SetStr (str_of v) = v" "type_of v = TU64 \<Longrightarrow> SetU64 (u64_of v) = v" "type_of v = TI64 \<Longrightarrow> SetI64 (i64_of v) = v"
    "type_of v = TBool \<Longrightarrow> SetBool (bool_of v) = v" for v by (cases v; simp)+
  then show ?thesis by (simp add: Fields_def newField_def)
qed

lemma fields_typed: "\<forall>f \<in> set Fields. \<forall>c. type_of (fd_read f c) = fd_type f"
  by (simp add: Fields_def newField_def)

lemma keys_distinct: "distinct (map fd_Key Fields)"
  unfolding Fields_def newField_def list.map Field.select_convs by code_simp

definition typed :: "Field \<Rightarrow> setting \<Rightarrow> bool" where
  "typed f v \<longleftrightarrow> type_of v = fd_type f \<and> (\<forall>n. v = SetI64 n \<longrightarrow> is_i64 n)"

lemma decode_encode: "typed f v \<Longrightarrow> field_Decode f (field_Encode v) = Some v"
  by (cases v) (auto simp: typed_def field_Decode_def)

lemma decode_typed: "field_Decode f raw = Some v \<Longrightarrow> typed f v"
  by (cases raw) (auto simp: typed_def field_Decode_def is_i64_def min_i64_def max_i64_def split: setting_type.split_asm if_split_asm)

lemma field_eqI: "f \<in> set Fields \<Longrightarrow> g \<in> set Fields \<Longrightarrow> fd_Key f = fd_Key g \<Longrightarrow> f = g"
  using keys_distinct by (auto simp: distinct_map inj_on_def)

lemma field_by_key_Some: "f \<in> set Fields \<Longrightarrow> field_by_key (fd_Key f) = Some f"
proof -
  assume f: "f \<in> set Fields"
  then obtain g where g: "field_by_key (fd_Key f) = Some g"
    by (cases "field_by_key (fd_Key f)") (auto simp: field_by_key_def find_None_iff)
  then have "g \<in> set Fields \<and> fd_Key g = fd_Key f" by (auto simp: field_by_key_def find_Some_iff) (metis length_rev nth_mem set_rev)
  then show ?thesis using g f field_eqI by auto
qed

text \<open>Writing a list of fields sets each to its value and leaves the others.\<close>

lemma read_after_sets:
  assumes "set fs \<subseteq> set Fields" "distinct (map fd_Key fs)" "f \<in> set Fields" "\<forall>g \<in> set fs. type_of (val g) = fd_type g"
  shows "field_Get f (fold (\<lambda>g. field_Set g (val g)) fs c) = (if f \<in> set fs then val f else field_Get f c)"
  using assms
proof (induction fs arbitrary: c)
  case (Cons g fs)
  have g: "g \<in> set Fields" "type_of (val g) = fd_type g" "g \<notin> set fs" using Cons.prems by auto
  have "fd_read f (fd_write g (val g) c) = (if f = g then val g else fd_read f c)"
    using fields_independent fields_read_write g field_eqI [OF Cons.prems(3) g(1)] Cons.prems(3) by auto
  then show ?case using Cons g by (auto simp: field_Set_def field_Get_def)
qed simp

section \<open>The specification: the last write wins\<close>

record setting_spec =
  sw_cli :: "setting option"
  sw_ui :: "setting option"
  sw_cliNewer :: bool

definition spec_value :: "Field \<Rightarrow> Config \<Rightarrow> setting_spec \<Rightarrow> setting" where
  "spec_value f defaults a =
     (case (sw_cli a, sw_ui a) of
        (Some c, Some u) \<Rightarrow> if sw_cliNewer a then c else u
      | (Some c, None) \<Rightarrow> c
      | (None, Some u) \<Rightarrow> u
      | (None, None) \<Rightarrow> field_Get f defaults)"

definition spec_set :: "setting \<Rightarrow> setting_spec \<Rightarrow> setting_spec" where
  "spec_set v a = a\<lparr>sw_ui := Some v, sw_cliNewer := False\<rparr>"

text \<open>A start writes the command line layer only when its value is not the one of the start before.\<close>

definition spec_start :: "setting option \<Rightarrow> setting_spec \<Rightarrow> setting_spec" where
  "spec_start supplied a =
     (case supplied of
        None \<Rightarrow> a\<lparr>sw_cli := None\<rparr>
      | Some v \<Rightarrow> if sw_cli a = Some v then a else a\<lparr>sw_cli := Some v, sw_cliNewer := True\<rparr>)"

definition spec_empty :: setting_spec where "spec_empty = \<lparr>sw_cli = None, sw_ui = None, sw_cliNewer = False\<rparr>"

definition supplied_value :: "Config \<Rightarrow> (string \<Rightarrow> bool) \<Rightarrow> Field \<Rightarrow> setting option" where
  "supplied_value c supplied f = (if supplied (fd_Key f) then Some (field_Get f c) else None)"

section \<open>Refinement\<close>

definition layers_match :: "Field \<Rightarrow> i64 \<Rightarrow> keyState \<Rightarrow> setting_spec \<Rightarrow> bool" where
  "layers_match f q ks a \<longleftrightarrow> 0 \<le> q \<and>
     sw_cli a = map_option fst (ks_cli ks) \<and> sw_ui a = map_option fst (ks_ui ks) \<and>
     (\<forall>v n. ks_cli ks = Some (v, n) \<longrightarrow> 0 < n \<and> n \<le> q \<and> typed f v) \<and>
     (\<forall>v n. ks_ui ks = Some (v, n) \<longrightarrow> 0 < n \<and> n \<le> q \<and> typed f v) \<and>
     (\<forall>v n w m. ks_cli ks = Some (v, n) \<and> ks_ui ks = Some (w, m) \<longrightarrow> n \<noteq> m \<and> (sw_cliNewer a \<longleftrightarrow> m < n))"

lemma match_winning: "layers_match f q ks a \<Longrightarrow> winning f d ks = spec_value f d a"
  by (cases "ks_cli ks"; cases "ks_ui ks") (auto simp: layers_match_def winning_def spec_value_def split: option.split_asm)

lemma match_mono: "layers_match f q ks a \<Longrightarrow> q \<le> q' \<Longrightarrow> layers_match f q' ks a"
  by (fastforce simp: layers_match_def)

lemma match_empty: "0 \<le> q \<Longrightarrow> layers_match f q empty_state spec_empty"
  by (simp add: layers_match_def empty_state_def spec_empty_def)

lemma match_ui: "layers_match f q ks a \<Longrightarrow> typed f v \<Longrightarrow> q < n \<Longrightarrow> layers_match f n (ks\<lparr>ks_ui := Some (v, n)\<rparr>) (spec_set v a)"
  by (fastforce simp: layers_match_def spec_set_def)

lemma match_cli: "layers_match f q ks a \<Longrightarrow> typed f v \<Longrightarrow> q < n \<Longrightarrow>
    layers_match f n (ks\<lparr>ks_cli := Some (v, n)\<rparr>) (a\<lparr>sw_cli := Some v, sw_cliNewer := True\<rparr>)"
  by (fastforce simp: layers_match_def)

lemma match_drop: "layers_match f q ks a \<Longrightarrow> layers_match f q (ks\<lparr>ks_cli := None\<rparr>) (a\<lparr>sw_cli := None\<rparr>)"
  by (fastforce simp: layers_match_def)

lemma match_typed: "f \<in> set Fields \<Longrightarrow> layers_match f q ks a \<Longrightarrow> type_of (winning f d ks) = fd_type f"
  using fields_typed by (cases "ks_cli ks"; cases "ks_ui ks") (auto simp: layers_match_def winning_def typed_def field_Get_def)

definition row_matches :: "Field \<Rightarrow> settings_db \<Rightarrow> keyState \<Rightarrow> bool" where
  "row_matches f d ks \<longleftrightarrow>
     (case stored_row (sd_rows d) (fd_Key f) of None \<Rightarrow> ks = empty_state | Some row \<Rightarrow> \<exists>actor. row = setting_row (fd_Key f) ks actor)"

lemma stored_row_Put:
  assumes "sd_enabled d" "sd_write_ok d"
  shows "stored_row (sd_rows (PutSetting r d)) k = (if k = row_Key r then Some r else stored_row (sd_rows d) k)"
proof -
  have "find (\<lambda>x. row_Key x = k) (filter (\<lambda>x. row_Key x \<noteq> row_Key r) xs) = find (\<lambda>x. row_Key x = k) xs" if "k \<noteq> row_Key r" for xs
    using that by (induction xs) auto
  then show ?thesis using assms by (auto simp: stored_row_def PutSetting_def rev_filter)
qed

definition db_works :: "settings_db \<Rightarrow> bool" where
  "db_works d \<longleftrightarrow> sd_enabled d \<and> sd_read_ok d \<and> sd_write_ok d"

lemma db_works_Put [simp]: "db_works (PutSetting r d) = db_works d"
  by (simp add: PutSetting_def db_works_def)

lemma persist_fields [simp]:
  "sg_keyState (persist f actor s) = sg_keyState s" "sg_seq (persist f actor s) = sg_seq s" "sg_effective (persist f actor s) = sg_effective s"
  "sg_defaults (persist f actor s) = sg_defaults s" "db_works (sg_store (persist f actor s)) = db_works (sg_store s)"
  by (simp_all add: persist_def)

lemma persist_row_self: "db_works (sg_store s) \<Longrightarrow> row_matches f (sg_store (persist f actor s)) (sg_keyState s (fd_Key f))"
  by (auto simp: row_matches_def persist_def stored_row_Put db_works_def setting_row_def)

lemma persist_row_other:
  "db_works (sg_store s) \<Longrightarrow> fd_Key g \<noteq> fd_Key f \<Longrightarrow> row_matches g (sg_store (persist f actor s)) ks \<longleftrightarrow> row_matches g (sg_store s) ks"
  by (auto simp: row_matches_def persist_def stored_row_Put db_works_def setting_row_def)

text \<open>The service agrees with the specification: every key's layers match, and its row is their image.\<close>

definition settings_match :: "SettingsService \<Rightarrow> (string \<Rightarrow> setting_spec) \<Rightarrow> bool" where
  "settings_match s a \<longleftrightarrow> db_works (sg_store s) \<and>
     (\<forall>f \<in> set Fields. layers_match f (sg_seq s) (sg_keyState s (fd_Key f)) (a (fd_Key f)) \<and> row_matches f (sg_store s) (sg_keyState s (fd_Key f)))"

lemma swrap_next: "0 \<le> q \<Longrightarrow> q + 1 < 2 ^ 63 \<Longrightarrow> swrap64 (q + 1) = q + 1"
  by (simp add: swrap64_def)

lemma match_seq: "settings_match s a \<Longrightarrow> 0 \<le> sg_seq s"
proof -
  assume "settings_match s a"
  moreover have "hd Fields \<in> set Fields" by (simp add: Fields_def)
  ultimately show ?thesis by (fastforce simp: settings_match_def layers_match_def)
qed

subsection \<open>Overrides of the interface\<close>

lemma apply_ui_match:
  assumes "settings_match s a" "f \<in> set Fields" "typed f v" "sg_seq s + 1 < 2 ^ 63"
  shows "settings_match (apply_ui actor (fd_Key f, v) s) (a(fd_Key f := spec_set v (a (fd_Key f))))"
    "sg_seq (apply_ui actor (fd_Key f, v) s) = sg_seq s + 1" "sg_defaults (apply_ui actor (fd_Key f, v) s) = sg_defaults s"
proof -
  have n: "swrap64 (sg_seq s + 1) = sg_seq s + 1" using swrap_next match_seq [OF assms(1)] assms(4) by simp
  define t where "t = s\<lparr>sg_seq := sg_seq s + 1, sg_keyState := (sg_keyState s)(fd_Key f := (sg_keyState s (fd_Key f))\<lparr>ks_ui := Some (v, sg_seq s + 1)\<rparr>)\<rparr>"
  have ap: "apply_ui actor (fd_Key f, v) s = persist f actor t"
    by (simp add: apply_ui_def nextSeq_def n field_by_key_Some [OF assms(2)] t_def Let_def)
  show "sg_seq (apply_ui actor (fd_Key f, v) s) = sg_seq s + 1" "sg_defaults (apply_ui actor (fd_Key f, v) s) = sg_defaults s"
    by (simp_all add: ap t_def)
  have works: "db_works (sg_store t)" using assms(1) by (simp add: t_def settings_match_def)
  have "layers_match g (sg_seq t) (sg_keyState t (fd_Key g)) ((a(fd_Key f := spec_set v (a (fd_Key f)))) (fd_Key g)) \<and>
      row_matches g (sg_store (persist f actor t)) (sg_keyState t (fd_Key g))" if g: "g \<in> set Fields" for g
  proof (cases "fd_Key g = fd_Key f")
    case True
    then have "g = f" using field_eqI g assms(2) by blast
    then show ?thesis using assms(1,2) match_ui [OF _ assms(3), of "sg_seq s" _ _ "sg_seq s + 1"] persist_row_self [OF works, of f actor]
      by (simp add: settings_match_def t_def)
  next
    case False
    then show ?thesis using assms(1) g match_mono [of g "sg_seq s" _ _ "sg_seq s + 1"] persist_row_other [OF works False]
      by (simp add: settings_match_def t_def)
  qed
  then show "settings_match (apply_ui actor (fd_Key f, v) s) (a(fd_Key f := spec_set v (a (fd_Key f))))"
    using works by (simp add: ap settings_match_def)
qed

definition spec_sets :: "(string \<times> setting) list \<Rightarrow> (string \<Rightarrow> setting_spec) \<Rightarrow> (string \<Rightarrow> setting_spec)" where
  "spec_sets kvs a = (\<lambda>k. case map_of kvs k of None \<Rightarrow> a k | Some v \<Rightarrow> spec_set v (a k))"

lemma apply_all_match:
  assumes "settings_match s a" "\<forall>(k, v) \<in> set kvs. \<exists>f \<in> set Fields. fd_Key f = k \<and> typed f v" "distinct (map fst kvs)"
    "sg_seq s + int (length kvs) < 2 ^ 63"
  shows "settings_match (fold (apply_ui actor) kvs s) (spec_sets kvs a) \<and> sg_seq (fold (apply_ui actor) kvs s) = sg_seq s + int (length kvs) \<and>
    sg_defaults (fold (apply_ui actor) kvs s) = sg_defaults s"
  using assms
proof (induction kvs arbitrary: s a)
  case (Cons kv kvs)
  obtain f v where f: "f \<in> set Fields" "kv = (fd_Key f, v)" "typed f v" using Cons.prems(2) by (cases kv) auto
  have bound: "sg_seq s + 1 < 2 ^ 63" using Cons.prems(4) by simp
  note ap = apply_ui_match [OF Cons.prems(1) f(1,3) bound, of actor]
  have "map_of kvs (fd_Key f) = None" using Cons.prems(3) f(2) by (simp add: map_of_eq_None_iff)
  then have eq: "spec_sets kvs (a(fd_Key f := spec_set v (a (fd_Key f)))) = spec_sets (kv # kvs) a"
    by (auto simp: spec_sets_def f(2) fun_eq_iff split: option.split)
  have rest: "\<forall>(k, v) \<in> set kvs. \<exists>f \<in> set Fields. fd_Key f = k \<and> typed f v" "distinct (map fst kvs)"
    "sg_seq (apply_ui actor kv s) + int (length kvs) < 2 ^ 63" using Cons.prems ap(2) f(2) by auto
  have "settings_match (apply_ui actor kv s) (a(fd_Key f := spec_set v (a (fd_Key f))))" using ap(1) f(2) by simp
  from Cons.IH [OF this rest, unfolded eq] show ?case using ap(2,3) f(2) by simp
qed (simp add: spec_sets_def)

lemma decode_update_typed: "decode_update k raw = Inr v \<Longrightarrow> \<exists>f \<in> set Fields. fd_Key f = k \<and> typed f v"
proof -
  assume d: "decode_update k raw = Inr v"
  then obtain f where f: "field_by_key k = Some f" "field_Decode f raw = Some v"
    by (auto simp: decode_update_def split: option.split_asm)
  then have "f \<in> set Fields \<and> fd_Key f = k" by (auto simp: field_by_key_def find_Some_iff) (metis length_rev nth_mem set_rev)
  then show ?thesis using decode_typed [OF f(2)] by blast
qed

lemma decode_updates_typed:
  "decode_updates us = Inr vs \<Longrightarrow> map fst vs = map fst us \<and> (\<forall>(k, v) \<in> set vs. \<exists>f \<in> set Fields. fd_Key f = k \<and> typed f v)"
proof (induction us arbitrary: vs)
  case (Cons u us)
  obtain k raw where u: "u = (k, raw)" by (cases u)
  obtain v ws where v: "decode_update k raw = Inr v" "decode_updates us = Inr ws" "vs = (k, v) # ws"
    using Cons.prems by (auto simp: u split: sum.split_asm)
  show ?case using Cons.IH [OF v(2)] decode_update_typed [OF v(1)] by (simp add: u v(3))
qed simp

lemma recompute_match [simp]: "settings_match (recompute s) a = settings_match s a" "sg_seq (recompute s) = sg_seq s"
  "sg_defaults (recompute s) = sg_defaults s" "sg_keyState (recompute s) = sg_keyState s" "sg_store (recompute s) = sg_store s"
  by (simp_all add: recompute_def settings_match_def)

lemma recompute_reads:
  assumes "settings_match s a" "f \<in> set Fields"
  shows "field_Get f (sg_effective (recompute s)) = spec_value f (sg_defaults s) (a (fd_Key f))"
proof -
  let ?val = "\<lambda>g. winning g (sg_defaults s) (sg_keyState s (fd_Key g))"
  have "\<forall>g \<in> set Fields. type_of (?val g) = fd_type g" using assms(1) match_typed by (auto simp: settings_match_def)
  from read_after_sets [OF subset_refl keys_distinct assms(2) this] assms
  show ?thesis using match_winning by (auto simp: recompute_def settings_match_def)
qed

subsection \<open>Starting\<close>

text \<open>What a start reads back from the rows of layers that match.\<close>

lemma stored_layers:
  assumes "layers_match f q ks a" "row_matches f d ks"
  shows "stored_cli f (stored_row (sd_rows d) (fd_Key f)) = ks_cli ks"
    "ks_ui ks = (case stored_row (sd_rows d) (fd_Key f) of None \<Rightarrow> None | Some row \<Rightarrow> stored_ui f row)"
    "stored_row (sd_rows d) (fd_Key f) = Some row \<Longrightarrow> row_CLISeq row \<le> q \<and> row_UISeq row \<le> q"
    "stored_row (sd_rows d) (fd_Key f) = Some row \<Longrightarrow> (\<forall>v n. ks_cli ks = Some (v, n) \<longrightarrow> n = row_CLISeq row) \<and> (\<forall>v n. ks_ui ks = Some (v, n) \<longrightarrow> n = row_UISeq row)"
proof -
  show "stored_cli f (stored_row (sd_rows d) (fd_Key f)) = ks_cli ks"
    using assms decode_encode by (cases "ks_cli ks")
      (auto simp: row_matches_def stored_cli_def empty_state_def setting_row_def layers_match_def split: option.split_asm)
  show "ks_ui ks = (case stored_row (sd_rows d) (fd_Key f) of None \<Rightarrow> None | Some row \<Rightarrow> stored_ui f row)"
    using assms decode_encode by (cases "ks_ui ks")
      (auto simp: row_matches_def stored_ui_def empty_state_def setting_row_def layers_match_def split: option.split_asm)
  show "row_CLISeq row \<le> q \<and> row_UISeq row \<le> q" if "stored_row (sd_rows d) (fd_Key f) = Some row"
    using assms that by (cases "ks_cli ks"; cases "ks_ui ks") (auto simp: row_matches_def setting_row_def layers_match_def)
  show "(\<forall>v n. ks_cli ks = Some (v, n) \<longrightarrow> n = row_CLISeq row) \<and> (\<forall>v n. ks_ui ks = Some (v, n) \<longrightarrow> n = row_UISeq row)"
    if "stored_row (sd_rows d) (fd_Key f) = Some row"
    using assms that by (auto simp: row_matches_def setting_row_def)
qed

lemma load_fields:
  assumes "set fs \<subseteq> set Fields" "distinct (map fd_Key fs)" "\<forall>f \<in> set Fields. layers_match f q (kold (fd_Key f)) (a (fd_Key f)) \<and> row_matches f d (kold (fd_Key f))"
    "0 \<le> sg_seq s" "sg_seq s \<le> q"
  shows "sg_store (fold (load_field (sd_rows d)) fs s) = sg_store s \<and> sg_effective (fold (load_field (sd_rows d)) fs s) = sg_effective s \<and>
    sg_defaults (fold (load_field (sd_rows d)) fs s) = sg_defaults s \<and>
    sg_seq s \<le> sg_seq (fold (load_field (sd_rows d)) fs s) \<and> sg_seq (fold (load_field (sd_rows d)) fs s) \<le> q \<and>
    (\<forall>f \<in> set Fields. sg_keyState (fold (load_field (sd_rows d)) fs s) (fd_Key f) =
       (if f \<in> set fs then (kold (fd_Key f))\<lparr>ks_cli := None\<rparr> else sg_keyState s (fd_Key f)) \<and>
     (f \<in> set fs \<longrightarrow> layers_match f (sg_seq (fold (load_field (sd_rows d)) fs s)) (kold (fd_Key f)) (a (fd_Key f))))"
  using assms
proof (induction fs arbitrary: s)
  case (Cons g fs)
  let ?t = "load_field (sd_rows d) g s"
  have g: "g \<in> set Fields" "layers_match g q (kold (fd_Key g)) (a (fd_Key g))" "row_matches g d (kold (fd_Key g))" using Cons.prems by auto
  note st = stored_layers [OF g(2,3)]
  have seq: "sg_seq s \<le> sg_seq ?t" "sg_seq ?t \<le> q" using Cons.prems(5) st(3) by (auto simp: load_field_def split: option.split)
  have key: "sg_keyState ?t (fd_Key g) = (kold (fd_Key g))\<lparr>ks_cli := None\<rparr>"
    using st(1,2) g(3) by (cases "kold (fd_Key g)") (auto simp: load_field_def row_matches_def empty_state_def split: option.split)
  have "layers_match g (sg_seq ?t) (kold (fd_Key g)) (a (fd_Key g))"
    using g(2,3) st(3,4) Cons.prems(4) seq by (cases "stored_row (sd_rows d) (fd_Key g)")
      (fastforce simp: layers_match_def load_field_def row_matches_def empty_state_def)+
  note ml = match_mono [OF this]
  have other: "f \<in> set Fields \<Longrightarrow> f \<noteq> g \<Longrightarrow> sg_keyState ?t (fd_Key f) = sg_keyState s (fd_Key f)" for f
    using field_eqI [OF _ g(1)] by (auto simp: load_field_def split: option.split)
  have "sg_store ?t = sg_store s" "sg_effective ?t = sg_effective s" "sg_defaults ?t = sg_defaults s" by (simp_all add: load_field_def split: option.split)
  moreover have "g \<notin> set fs" using Cons.prems(2) by auto
  moreover have "0 \<le> sg_seq ?t" using Cons.prems(4) seq(1) by simp
  ultimately show ?case using Cons.IH [of ?t] Cons.prems(1-3) seq key other ml by auto
qed simp

lemma set_cli_fields [simp]:
  "sg_seq (set_cli f l s) = sg_seq s" "sg_effective (set_cli f l s) = sg_effective s" "sg_defaults (set_cli f l s) = sg_defaults s"
  "sg_store (set_cli f l s) = sg_store s" "sg_keyState (set_cli f l s) (fd_Key f) = (sg_keyState s (fd_Key f))\<lparr>ks_cli := l\<rparr>"
  "k \<noteq> fd_Key f \<Longrightarrow> sg_keyState (set_cli f l s) k = sg_keyState s k"
  by (simp_all add: set_cli_def)

lemma reconcile_one:
  assumes "db_works (sg_store s)" "f \<in> set Fields" "typed f (field_Get f (sg_effective s))" "sg_seq s + 1 < 2 ^ 63"
    and old: "sg_keyState s (fd_Key f) = ks\<lparr>ks_cli := None\<rparr>" "row_matches f (sg_store s) ks" "layers_match f (sg_seq s) ks a"
      "stored_cli f (stored_row rows (fd_Key f)) = ks_cli ks"
    and tdef: "t = reconcile_field supplied rows f s"
  shows "sg_effective t = sg_effective s \<and> sg_defaults t = sg_defaults s \<and> sg_seq s \<le> sg_seq t \<and> sg_seq t \<le> sg_seq s + 1 \<and> db_works (sg_store t)"
    "layers_match f (sg_seq t) (sg_keyState t (fd_Key f)) (spec_start (supplied_value (sg_effective s) supplied f) a) \<and>
     row_matches f (sg_store t) (sg_keyState t (fd_Key f))"
    "fd_Key g \<noteq> fd_Key f \<Longrightarrow> sg_keyState t (fd_Key g) = sg_keyState s (fd_Key g) \<and> (row_matches g (sg_store t) ks' \<longleftrightarrow> row_matches g (sg_store s) ks')"
proof -
  let ?v = "field_Get f (sg_effective s)"
  have cli: "sw_cli a = map_option fst (ks_cli ks)" using old(3) by (simp add: layers_match_def)
  have n: "swrap64 (sg_seq s + 1) = sg_seq s + 1" using swrap_next assms(4) old(3) by (simp add: layers_match_def)
  consider (keep) q where "supplied (fd_Key f)" "ks_cli ks = Some (?v, q)"
    | (new) "supplied (fd_Key f)" "sw_cli a \<noteq> Some ?v"
    | (dropped) "\<not> supplied (fd_Key f)" "ks_cli ks \<noteq> None" | (absent) "\<not> supplied (fd_Key f)" "ks_cli ks = None"
    using cli by (cases "ks_cli ks"; cases "supplied (fd_Key f)"; fastforce)
  then have "(sg_effective t = sg_effective s \<and> sg_defaults t = sg_defaults s \<and> sg_seq s \<le> sg_seq t \<and> sg_seq t \<le> sg_seq s + 1 \<and> db_works (sg_store t)) \<and>
    (layers_match f (sg_seq t) (sg_keyState t (fd_Key f)) (spec_start (supplied_value (sg_effective s) supplied f) a) \<and>
     row_matches f (sg_store t) (sg_keyState t (fd_Key f))) \<and>
    (fd_Key g \<noteq> fd_Key f \<longrightarrow> sg_keyState t (fd_Key g) = sg_keyState s (fd_Key g) \<and> (row_matches g (sg_store t) ks' \<longleftrightarrow> row_matches g (sg_store s) ks'))"
  proof cases
    case keep
    then have "t = set_cli f (ks_cli ks) s" using assms(3) old(4) by (simp add: tdef reconcile_field_def field_Equal_def typed_def)
    moreover from this have "sg_keyState t (fd_Key f) = ks" using old(1) by (cases ks) simp
    moreover have "spec_start (supplied_value (sg_effective s) supplied f) a = a" using keep cli by (simp add: spec_start_def supplied_value_def)
    ultimately show ?thesis using assms(1) old(2,3) set_cli_fields by simp
  next
    case new
    define u where "u = set_cli f (Some (?v, sg_seq s + 1)) (s\<lparr>sg_seq := sg_seq s + 1\<rparr>)"
    have "\<not> (\<exists>q. ks_cli ks = Some (?v, q))" using new cli by auto
    then have t: "t = persist f SourceCLI u" using new old(4)
      by (auto simp: tdef reconcile_field_def field_Equal_def nextSeq_def n u_def Let_def split: option.split)
    have u: "db_works (sg_store u)" "sg_keyState u (fd_Key f) = ks\<lparr>ks_cli := Some (?v, sg_seq s + 1)\<rparr>" using assms(1) old(1) by (simp_all add: u_def)
    have "layers_match f (sg_seq s + 1) (ks\<lparr>ks_cli := Some (?v, sg_seq s + 1)\<rparr>) (a\<lparr>sw_cli := Some ?v, sw_cliNewer := True\<rparr>)"
      using match_cli [OF old(3) assms(3)] by simp
    then show ?thesis using t u persist_row_self [OF u(1), of f SourceCLI] persist_row_other [OF u(1), of g f SourceCLI ks'] new
      by (simp add: spec_start_def supplied_value_def) (simp add: u_def)
  next
    case dropped
    then have t: "t = persist f SourceCLI (set_cli f None s)" using old(4) by (auto simp: tdef reconcile_field_def Let_def split: option.split)
    let ?u = "set_cli f None s"
    have u: "db_works (sg_store ?u)" "sg_keyState ?u (fd_Key f) = ks\<lparr>ks_cli := None\<rparr>" using assms(1) old(1) by simp_all
    show ?thesis using t u persist_row_self [OF u(1), of f SourceCLI] persist_row_other [OF u(1), of g f SourceCLI ks'] dropped match_drop [OF old(3)]
      by (simp add: spec_start_def supplied_value_def)
  next
    case absent
    then have "t = s" using old(4) by (simp add: tdef reconcile_field_def Let_def)
    moreover have "sg_keyState s (fd_Key f) = ks" using absent old(1) by (cases ks) simp
    moreover have "layers_match f (sg_seq s) ks (a\<lparr>sw_cli := None\<rparr>)" using old(3) absent by (simp add: layers_match_def)
    ultimately show ?thesis using absent old(2) assms(1) by (simp add: spec_start_def supplied_value_def)
  qed
  then show "sg_effective t = sg_effective s \<and> sg_defaults t = sg_defaults s \<and> sg_seq s \<le> sg_seq t \<and> sg_seq t \<le> sg_seq s + 1 \<and> db_works (sg_store t)"
    "layers_match f (sg_seq t) (sg_keyState t (fd_Key f)) (spec_start (supplied_value (sg_effective s) supplied f) a) \<and>
     row_matches f (sg_store t) (sg_keyState t (fd_Key f))"
    "fd_Key g \<noteq> fd_Key f \<Longrightarrow> sg_keyState t (fd_Key g) = sg_keyState s (fd_Key g) \<and> (row_matches g (sg_store t) ks' \<longleftrightarrow> row_matches g (sg_store s) ks')"
    by blast+
qed

definition config_in_range :: "Config \<Rightarrow> bool" where
  "config_in_range c \<longleftrightarrow> (\<forall>f \<in> set Fields. typed f (field_Get f c))"

text \<open>All fields in turn: those of \<open>fs\<close> are still to be reconciled, the others are done.\<close>

lemma reconcile_all:
  assumes "set fs \<subseteq> set Fields" "distinct (map fd_Key fs)" "db_works (sg_store s)" "config_in_range (sg_effective s)"
    "0 \<le> sg_seq s" "sg_seq s + int (length fs) < 2 ^ 63"
    "\<forall>f \<in> set fs. sg_keyState s (fd_Key f) = (kold (fd_Key f))\<lparr>ks_cli := None\<rparr> \<and> row_matches f (sg_store s) (kold (fd_Key f)) \<and>
       layers_match f (sg_seq s) (kold (fd_Key f)) (a (fd_Key f)) \<and> stored_cli f (stored_row rows (fd_Key f)) = ks_cli (kold (fd_Key f))"
    "\<forall>f \<in> set Fields - set fs. layers_match f (sg_seq s) (sg_keyState s (fd_Key f)) (b f) \<and> row_matches f (sg_store s) (sg_keyState s (fd_Key f))"
    "\<forall>f \<in> set fs. b f = spec_start (supplied_value (sg_effective s) supplied f) (a (fd_Key f))"
  shows "let t = fold (reconcile_field supplied rows) fs s in
    sg_effective t = sg_effective s \<and> sg_defaults t = sg_defaults s \<and> db_works (sg_store t) \<and> sg_seq t \<le> sg_seq s + int (length fs) \<and>
    (\<forall>f \<in> set Fields. layers_match f (sg_seq t) (sg_keyState t (fd_Key f)) (b f) \<and> row_matches f (sg_store t) (sg_keyState t (fd_Key f)))"
  using assms
proof (induction fs arbitrary: s)
  case (Cons g fs)
  define t where "t = reconcile_field supplied rows g s"
  have g: "g \<in> set Fields" "g \<notin> set fs" "sg_keyState s (fd_Key g) = (kold (fd_Key g))\<lparr>ks_cli := None\<rparr>" "row_matches g (sg_store s) (kold (fd_Key g))"
    "layers_match g (sg_seq s) (kold (fd_Key g)) (a (fd_Key g))" "stored_cli g (stored_row rows (fd_Key g)) = ks_cli (kold (fd_Key g))"
    "typed g (field_Get g (sg_effective s))" "sg_seq s + 1 < 2 ^ 63"
    using Cons.prems by (auto simp: config_in_range_def)
  note one = reconcile_one [OF Cons.prems(3) g(1,7,8,3-6) t_def]
  have differs: "f \<in> set Fields \<Longrightarrow> f \<noteq> g \<Longrightarrow> fd_Key f \<noteq> fd_Key g" for f using field_eqI g(1) by blast
  have fs: "f \<in> set fs \<Longrightarrow> f \<in> set Fields \<and> f \<noteq> g" for f using Cons.prems(1) g(2) by auto
  have mono: "layers_match f (sg_seq s) ks c \<Longrightarrow> layers_match f (sg_seq t) ks c" for f ks c using match_mono one(1) by blast
  have "\<forall>f \<in> set fs. sg_keyState t (fd_Key f) = (kold (fd_Key f))\<lparr>ks_cli := None\<rparr> \<and> row_matches f (sg_store t) (kold (fd_Key f)) \<and>
       layers_match f (sg_seq t) (kold (fd_Key f)) (a (fd_Key f)) \<and> stored_cli f (stored_row rows (fd_Key f)) = ks_cli (kold (fd_Key f))"
    using Cons.prems(7) one(3) differs fs mono by simp
  moreover have "\<forall>f \<in> set Fields - set fs. layers_match f (sg_seq t) (sg_keyState t (fd_Key f)) (b f) \<and> row_matches f (sg_store t) (sg_keyState t (fd_Key f))"
  proof
    fix f assume f: "f \<in> set Fields - set fs"
    show "layers_match f (sg_seq t) (sg_keyState t (fd_Key f)) (b f) \<and> row_matches f (sg_store t) (sg_keyState t (fd_Key f))"
    proof (cases "f = g")
      case True
      then show ?thesis using one(2) Cons.prems(9) by simp
    next
      case False
      then show ?thesis using f Cons.prems(8) one(3) [of f] differs [of f] mono by auto
    qed
  qed
  moreover have "\<forall>f \<in> set fs. b f = spec_start (supplied_value (sg_effective t) supplied f) (a (fd_Key f))" using Cons.prems(9) one(1) by simp
  moreover have "set fs \<subseteq> set Fields" "distinct (map fd_Key fs)" "db_works (sg_store t)" "config_in_range (sg_effective t)" "0 \<le> sg_seq t"
    "sg_seq t + int (length fs) < 2 ^ 63" using Cons.prems one(1) by auto
  ultimately have "let u = fold (reconcile_field supplied rows) fs t in
    sg_effective u = sg_effective t \<and> sg_defaults u = sg_defaults t \<and> db_works (sg_store u) \<and> sg_seq u \<le> sg_seq t + int (length fs) \<and>
    (\<forall>f \<in> set Fields. layers_match f (sg_seq u) (sg_keyState u (fd_Key f)) (b f) \<and> row_matches f (sg_store u) (sg_keyState u (fd_Key f)))"
    by (intro Cons.IH)
  then show ?case using one(1) by (auto simp: Let_def t_def)
qed (simp add: Let_def)

definition spec_restart :: "Config \<Rightarrow> (string \<Rightarrow> bool) \<Rightarrow> (string \<Rightarrow> setting_spec) \<Rightarrow> (string \<Rightarrow> setting_spec)" where
  "spec_restart c supplied a = (\<lambda>k. case field_by_key k of None \<Rightarrow> a k | Some f \<Rightarrow> spec_start (supplied_value c supplied f) (a k))"

lemma start_match:
  assumes "db_works d" "config_in_range c" "0 \<le> q" "q + 33 < 2 ^ 63"
    and old: "\<forall>f \<in> set Fields. layers_match f q (kold (fd_Key f)) (a (fd_Key f)) \<and> row_matches f d (kold (fd_Key f))"
  shows "\<exists>s. NewService c defaults supplied d = Some s \<and> settings_match s (spec_restart c supplied a) \<and> sg_seq s \<le> q + 33 \<and> sg_defaults s = defaults \<and>
    (\<forall>f \<in> set Fields. field_Get f (sg_effective s) = spec_value f defaults (spec_restart c supplied a (fd_Key f)))"
proof -
  define s0 where "s0 = \<lparr>sg_defaults = defaults, sg_effective = c, sg_seq = 0, sg_keyState = (\<lambda>_. empty_state), sg_store = d, sg_notified = 0\<rparr>"
  define s1 where "s1 = fold (load_field (sd_rows d)) Fields s0"
  define s2 where "s2 = fold (reconcile_field supplied (sd_rows d)) Fields s1"
  have s0: "sg_store s0 = d" "sg_effective s0 = c" "sg_defaults s0 = defaults" "sg_seq s0 = 0" by (simp_all add: s0_def)
  have len: "length Fields = 33" by (simp add: Fields_def)
  have s1: "sg_store s1 = d" "sg_effective s1 = c" "sg_defaults s1 = defaults" "0 \<le> sg_seq s1" "sg_seq s1 \<le> q"
    "\<forall>f \<in> set Fields. sg_keyState s1 (fd_Key f) = (kold (fd_Key f))\<lparr>ks_cli := None\<rparr> \<and> layers_match f (sg_seq s1) (kold (fd_Key f)) (a (fd_Key f))"
    using load_fields [OF subset_refl keys_distinct old, of s0] s0 assms(3) by (auto simp: s1_def)
  have s2: "let t = s2 in sg_effective t = sg_effective s1 \<and> sg_defaults t = sg_defaults s1 \<and> db_works (sg_store t) \<and> sg_seq t \<le> sg_seq s1 + int (length Fields) \<and>
    (\<forall>f \<in> set Fields. layers_match f (sg_seq t) (sg_keyState t (fd_Key f)) (spec_start (supplied_value c supplied f) (a (fd_Key f))) \<and>
       row_matches f (sg_store t) (sg_keyState t (fd_Key f)))"
    unfolding s2_def
    by (rule reconcile_all [where kold = kold and a = a, OF subset_refl keys_distinct])
      (use s1 assms(1,2,4) old stored_layers(1) len in \<open>auto simp: Let_def\<close>)
  then have m: "settings_match s2 (spec_restart c supplied a)"
    by (simp add: settings_match_def spec_restart_def field_by_key_Some Let_def)
  have "NewService c defaults supplied d = Some (recompute s2)"
    using assms(1) by (simp add: NewService_def GetSettings_def db_works_def s2_def s1_def s0_def Let_def)
  then show ?thesis using m s2 s1 len recompute_reads [OF m] by (auto simp: Let_def)
qed

section \<open>Runs\<close>

datatype settings_op = Restart Config "string \<Rightarrow> bool"
  | Override "(string \<times> setting) list \<Rightarrow> (string \<times> setting) list" "(string \<times> json) list" string

fun settings_step :: "settings_op \<Rightarrow> SettingsService option \<Rightarrow> SettingsService option" where
  "settings_step op None = None"
| "settings_step (Restart c supplied) (Some s) = NewService c (sg_defaults s) supplied (sg_store s)"
| "settings_step (Override ord updates actor) (Some s) = Some (snd (SetMany ord updates actor s))"

fun spec_step :: "settings_op \<Rightarrow> (string \<Rightarrow> setting_spec) \<Rightarrow> (string \<Rightarrow> setting_spec)" where
  "spec_step (Restart c supplied) a = spec_restart c supplied a"
| "spec_step (Override ord updates actor) a = (case decode_updates updates of Inl e \<Rightarrow> a | Inr vs \<Rightarrow> spec_sets vs a)"

fun setting_op_ok :: "settings_op \<Rightarrow> bool" where
  "setting_op_ok (Restart c supplied) \<longleftrightarrow> config_in_range c"
| "setting_op_ok (Override ord updates actor) \<longleftrightarrow> distinct (map fst updates) \<and> (\<forall>l. mset (ord l) = mset l)"

fun op_writes :: "settings_op \<Rightarrow> nat" where
  "op_writes (Restart c supplied) = 33"
| "op_writes (Override ord updates actor) = length updates"

lemma map_of_permuted:
  assumes "mset xs = mset ys" "distinct (map fst xs)"
  shows "map_of xs = map_of ys"
proof -
  have "set xs = set ys" using assms(1) by (rule mset_eq_setD)
  moreover have "distinct (map fst ys)" using assms by (metis mset_eq_imp_distinct_iff mset_map)
  ultimately show ?thesis using assms(2) by (simp add: map_of_inject_set)
qed

lemma override_match:
  assumes "settings_match s a" "distinct (map fst updates)" "\<forall>l. mset (ord l) = mset l" "sg_seq s + int (length updates) < 2 ^ 63"
    "\<forall>f \<in> set Fields. field_Get f (sg_effective s) = spec_value f (sg_defaults s) (a (fd_Key f))"
    and t_def: "t = snd (SetMany ord updates actor s)" and b_def: "b = spec_step (Override ord updates actor) a"
  shows "settings_match t b \<and> sg_seq t \<le> sg_seq s + int (length updates) \<and> sg_defaults t = sg_defaults s \<and>
    (\<forall>f \<in> set Fields. field_Get f (sg_effective t) = spec_value f (sg_defaults s) (b (fd_Key f)))"
proof (cases "decode_updates updates")
  case (Inr vs)
  note vs = decode_updates_typed [OF Inr]
  have set: "set (ord vs) = set vs" using assms(3) by (metis mset_eq_setD)
  have dist: "distinct (map fst (ord vs))" using assms(2,3) vs by (metis mset_eq_imp_distinct_iff mset_map)
  have len: "length (ord vs) = length updates" using assms(3) vs by (metis length_map size_mset)
  have "spec_sets (ord vs) a = b" using map_of_permuted [OF _ dist] assms(3) Inr by (simp add: b_def spec_sets_def)
  then have u: "settings_match (fold (apply_ui actor) (ord vs) s) b" "sg_seq (fold (apply_ui actor) (ord vs) s) = sg_seq s + int (length updates)"
    "sg_defaults (fold (apply_ui actor) (ord vs) s) = sg_defaults s"
    using apply_all_match [OF assms(1) _ dist, of actor] vs set len assms(4) by auto
  have t: "t = (recompute (fold (apply_ui actor) (ord vs) s))\<lparr>sg_notified := sg_notified (recompute (fold (apply_ui actor) (ord vs) s)) + 1\<rparr>"
    by (simp add: t_def SetMany_def Inr Let_def)
  have "settings_match t b" using u(1) by (simp add: t settings_match_def)
  then show ?thesis using u recompute_reads [OF u(1)] by (simp add: t)
qed (use assms(1,5) in \<open>simp add: t_def b_def SetMany_def\<close>)

lemma run_match:
  assumes "settings_match s a" "sg_seq s + int (sum_list (map op_writes ops)) < 2 ^ 63" "\<forall>op \<in> set ops. setting_op_ok op"
    "\<forall>f \<in> set Fields. field_Get f (sg_effective s) = spec_value f (sg_defaults s) (a (fd_Key f))"
  shows "\<exists>t. fold settings_step ops (Some s) = Some t \<and>
    (\<forall>f \<in> set Fields. field_Get f (sg_effective t) = spec_value f (sg_defaults s) (fold spec_step ops a (fd_Key f)))"
  using assms
proof (induction ops arbitrary: s a)
  case (Cons op ops)
  have "\<exists>t. settings_step op (Some s) = Some t \<and> settings_match t (spec_step op a) \<and> sg_seq t \<le> sg_seq s + int (op_writes op) \<and> sg_defaults t = sg_defaults s \<and>
    (\<forall>f \<in> set Fields. field_Get f (sg_effective t) = spec_value f (sg_defaults s) (spec_step op a (fd_Key f)))"
  proof (cases op)
    case (Restart c supplied)
    have "db_works (sg_store s)" "config_in_range c" "sg_seq s + 33 < 2 ^ 63"
      "\<forall>f \<in> set Fields. layers_match f (sg_seq s) (sg_keyState s (fd_Key f)) (a (fd_Key f)) \<and> row_matches f (sg_store s) (sg_keyState s (fd_Key f))"
      using Cons.prems(1-3) by (auto simp: settings_match_def Restart)
    from start_match [OF this(1,2) match_seq [OF Cons.prems(1)] this(3,4)] show ?thesis by (simp add: Restart)
  next
    case (Override ord updates actor)
    then show ?thesis using override_match [OF Cons.prems(1) _ _ _ Cons.prems(4) refl refl, of updates ord actor] Cons.prems(2,3) by simp
  qed
  then obtain t where t: "settings_step op (Some s) = Some t" "settings_match t (spec_step op a)" "sg_seq t \<le> sg_seq s + int (op_writes op)"
    "sg_defaults t = sg_defaults s" "\<forall>f \<in> set Fields. field_Get f (sg_effective t) = spec_value f (sg_defaults t) (spec_step op a (fd_Key f))" by auto
  have "sg_seq t + int (sum_list (map op_writes ops)) < 2 ^ 63" using Cons.prems(2) t(3) by simp
  from Cons.IH [OF t(2) this _ t(5)] show ?case using Cons.prems(3) t(1,4) by simp
qed simp

section \<open>Property\<close>

text \<open>
  C40: the last write wins, across restarts.  Over any sequence of starts and override requests on a working database, every field of the effective configuration has
  the value the specification gives it: of the command line value and the interface override the one written last, else the default, where a start counts as a write only
  for a flag whose value is not the one of the start before, and a start without the flag withdraws it; a request with an
  unknown key, an undecodable or an invalid value changes nothing.  The hypothesis on the number of writes keeps the \<open>int64\<close> counter from wrapping.\<close>

theorem settings_last_write_wins:
  assumes "db_works d" "sd_rows d = []" "config_in_range c" "\<forall>op \<in> set ops. setting_op_ok op"
    and "33 + int (sum_list (map op_writes ops)) < 2 ^ 63" "f \<in> set Fields"
  shows "\<exists>s. fold settings_step ops (NewService c defaults supplied d) = Some s \<and>
    field_Get f (sg_effective s) = spec_value f defaults (fold spec_step ops (spec_restart c supplied (\<lambda>_. spec_empty)) (fd_Key f))"
proof -
  have "\<forall>f \<in> set Fields. layers_match f 0 ((\<lambda>_. empty_state) (fd_Key f)) ((\<lambda>_. spec_empty) (fd_Key f)) \<and> row_matches f d ((\<lambda>_. empty_state) (fd_Key f))"
    using match_empty assms(2) by (simp add: row_matches_def stored_row_def)
  from start_match [OF assms(1,3) order_refl _ this, of defaults supplied] obtain s where s: "NewService c defaults supplied d = Some s"
    "settings_match s (spec_restart c supplied (\<lambda>_. spec_empty))" "sg_seq s \<le> 33" "sg_defaults s = defaults"
    "\<forall>f \<in> set Fields. field_Get f (sg_effective s) = spec_value f (sg_defaults s) (spec_restart c supplied (\<lambda>_. spec_empty) (fd_Key f))" by auto
  have "sg_seq s + int (sum_list (map op_writes ops)) < 2 ^ 63" using s(3) assms(5) by simp
  from run_match [OF s(2) this assms(4) s(5)] show ?thesis using s(1,4) assms(6) by auto
qed

definition demo_db :: settings_db where
  "demo_db = \<lparr>sd_enabled = True, sd_read_ok = True, sd_write_ok = True, sd_rows = []\<rparr>"

definition demo_config :: "u64 \<Rightarrow> Config" where
  "demo_config n = DefaultConfig\<lparr>cfg_EPBS := (cfg_EPBS DefaultConfig)\<lparr>ec_BidSubsidy := n\<rparr>\<rparr>"

definition demo_supplied :: "string \<Rightarrow> bool" where
  "demo_supplied k \<longleftrightarrow> k = KeyEPBSBidSubsidy"

definition subsidy_field :: Field where
  "subsidy_field = newField KeyEPBSBidSubsidy ''epbs-bid-subsidy'' TU64 (\<lambda>c. SetU64 (ec_BidSubsidy (cfg_EPBS c)))
     (\<lambda>v c. c\<lparr>cfg_EPBS := (cfg_EPBS c)\<lparr>ec_BidSubsidy := u64_of v\<rparr>\<rparr>)"

lemma demo_in_range: "config_in_range (demo_config n)"
  by (simp add: config_in_range_def Fields_def newField_def typed_def field_Get_def demo_config_def DefaultConfig_def is_i64_def min_i64_def max_i64_def)

lemma subsidy_field_in: "subsidy_field \<in> set Fields" "fd_Key subsidy_field = KeyEPBSBidSubsidy"
  by (simp_all add: Fields_def subsidy_field_def) (simp add: newField_def)

text \<open>The flag says 5, the interface sets 7, a restart with the same flag keeps 7, a restart with flag 9 gives 9.\<close>

lemma demo_decodes: "decode_updates [(KeyEPBSBidSubsidy, JNum 7)] = Inr [(KeyEPBSBidSubsidy, SetU64 7)]"
proof -
  have "validateValue KeyEPBSBidSubsidy (SetU64 7) = None"
    by (simp add: validateValue_def KeyEPBSBidSubsidy_def KeyScheduleMode_def KeySlotResultRetentionEpochs_def KeySlotArtifactRetentionEpochs_def)
  moreover have "field_Decode subsidy_field (JNum 7) = Some (SetU64 7)" by (simp add: field_Decode_def subsidy_field_def newField_def)
  ultimately show ?thesis using field_by_key_Some [OF subsidy_field_in(1)] subsidy_field_in(2) by (simp add: decode_update_def)
qed

theorem settings_last_write_wins_witness:
  "(\<exists>s. fold settings_step [Override (\<lambda>l. l) [(KeyEPBSBidSubsidy, JNum 7)] ''admin'', Restart (demo_config 5) demo_supplied]
      (NewService (demo_config 5) DefaultConfig demo_supplied demo_db) = Some s \<and> field_Get subsidy_field (sg_effective s) = SetU64 7) \<and>
   (\<exists>s. fold settings_step [Override (\<lambda>l. l) [(KeyEPBSBidSubsidy, JNum 7)] ''admin'', Restart (demo_config 9) demo_supplied]
      (NewService (demo_config 5) DefaultConfig demo_supplied demo_db) = Some s \<and> field_Get subsidy_field (sg_effective s) = SetU64 9)"
proof -
  have db: "db_works demo_db" "sd_rows demo_db = []" by (simp_all add: demo_db_def db_works_def)
  have sup: "supplied_value (demo_config n) demo_supplied subsidy_field = Some (SetU64 n)" for n
    by (simp add: supplied_value_def demo_supplied_def subsidy_field_in field_Get_def) (simp add: subsidy_field_def newField_def demo_config_def)
  have step: "spec_step (Override (\<lambda>l. l) [(KeyEPBSBidSubsidy, JNum 7)] ''admin'') b = spec_sets [(KeyEPBSBidSubsidy, SetU64 7)] b" for b
    by (simp only: spec_step.simps demo_decodes sum.case)
  have spec: "spec_value subsidy_field DefaultConfig (fold spec_step [Override (\<lambda>l. l) [(KeyEPBSBidSubsidy, JNum 7)] ''admin'', Restart (demo_config n) demo_supplied]
      (spec_restart (demo_config 5) demo_supplied (\<lambda>_. spec_empty)) (fd_Key subsidy_field)) = SetU64 (if n = 5 then 7 else n)" for n
    using field_by_key_Some [OF subsidy_field_in(1)]
    unfolding fold_Cons fold_Nil comp_apply id_apply step
    by (simp add: spec_restart_def spec_sets_def subsidy_field_in(2) sup spec_start_def spec_set_def spec_empty_def spec_value_def)
  have "\<exists>s. fold settings_step [Override (\<lambda>l. l) [(KeyEPBSBidSubsidy, JNum 7)] ''admin'', Restart (demo_config n) demo_supplied]
      (NewService (demo_config 5) DefaultConfig demo_supplied demo_db) = Some s \<and> field_Get subsidy_field (sg_effective s) = SetU64 (if n = 5 then 7 else n)" for n
    using settings_last_write_wins [OF db demo_in_range _ _ subsidy_field_in(1),
        of "[Override (\<lambda>l. l) [(KeyEPBSBidSubsidy, JNum 7)] ''admin'', Restart (demo_config n) demo_supplied]" 5 DefaultConfig demo_supplied]
      demo_in_range spec [of n] by simp
  from this [of 5] this [of 9] show ?thesis by simp
qed

end
