(* ===== verification/Spec2Isabelle.thy ===== *)
theory Spec2Isabelle
  imports KV_Store Payload_Cache Payment_Tracker Bid_Tracker Plan_Service Bid_Service Inclusion_Tracker Chain_Service Proposer_Prefs Head_Votes Lifecycle Slot_Migration Build_Facts Api_Legacy Settings
begin

text \<open>
  Verification of buildoor, an Ethereum block builder for test networks (\<open>src/\<close>, written in Go).

  \<^bold>\<open>The program.\<close>  Buildoor follows a beacon node, builds an execution payload for the slots its plan selects, offers it in signed bids on two
  transports (p2p gossip and the Builder API) and reveals the payload it won with.  Its parts share state: the per-slot action plan, frozen
  once at first use, decides what every part does for a slot; the builder service turns payload attributes into payloads in a
  cache; the p2p bidder and the two Builder API dialects bid with cached payloads; a reveal service publishes envelopes, on request of
  the inclusion tracker (head events) or of the Builder API (submitted blocks); the payment tracker keeps the builder's obligations; the lifecycle
  manager deposits, tops up and exits; the slot results tracker records what happened and persists it through a write-behind store.

  \<^bold>\<open>How it is modelled.\<close>  A struct is a record, an enumeration a datatype, \<open>uint64\<close> a \<open>64 word\<close>, \<open>int64\<close> an \<open>int\<close> with the wrap-around written out,
  an error a value of a sum or option type, a panic \<open>None\<close> or \<open>Panics\<close>.  One method is one definition on the state it changes.  A goroutine
  that serves a channel, a timer or an HTTP handler is a step, and theorems on services speak of every sequence of
  steps.  Objects shared by pointer (payloads) live in a heap.  Map iteration order, the clock, the answers of nodes and clients, hashes, BLS, SSZ and jq are
  arguments.  Names follow the source; a suffix or prefix marks the record a field belongs to.

  \<^bold>\<open>The theories.\<close>
  \<^item> Vocabulary: \<open>Go_Prelude\<close> (types, maps, list facts), \<open>Go_Codec\<close> (strconv, hex, encoding/binary), \<open>Go_Json\<close> (encoding/json), \<open>Go_Float\<close> (float64).
  \<^item> \<open>pkg/memstore\<close>, \<open>pkg/db\<close>: \<open>Memstore\<close> models the store and its flush loop; its state agrees with the database up to the
    pending writes in every interleaving, and a backend that works again catches up.  \<open>Store_Iface\<close> has the locales its users rely on, \<open>KV_Store\<close> the
    key/value table, the codec locales and the builder preferences, which survive a restart.
  \<^item> \<open>pkg/chain\<close>: \<open>Chain_Spec\<close> (spec, forks, slot clock), \<open>Duties\<close> (shuffling equals the specification's, selection of the payload timeliness committee ends), \<open>Builder_Info\<close>
    (builder registry), \<open>Chain_Service\<close> (epoch statistics and their cache), \<open>Head_Votes\<close> (merged attestations never claim a vote nobody cast, and percentages within rounding).
  \<^item> \<open>pkg/config\<close>: \<open>Config\<close>, \<open>Settings\<close> (defaults, flags and overrides: the last write wins, across restarts).  \<open>pkg/action_plan\<close>: \<open>Plan_Types\<close>, \<open>Plan_Frozen\<close>, \<open>Plan_Service\<close> (a frozen plan never changes, updates are atomic, the build
    decision and its budget).
  \<^item> \<open>pkg/payload_builder\<close>: \<open>Payload_Cache\<close>, \<open>Attr_Events\<close> (the attributes cache of \<open>pkg/rpc/beacon/events.go\<close>), \<open>Exec_Requests\<close>, \<open>Payload_Modify\<close>, \<open>Payload_Build\<close>,
    \<open>Build_Service\<close>, and \<open>Build_Facts\<close>: one build and one outcome per slot, the origin of attributes, agreement of a ready payload with its bid and envelope.
  \<^item> \<open>pkg/payload_bidder\<close>, \<open>pkg/signer\<close>: \<open>Signed_Messages\<close> (what a signed bid commits to), \<open>Reveal_Service\<close> (gates, bounded retries, nothing after the last
    verdict, progress), \<open>Payment_Tracker\<close> (each payment charged once, refinement of a ledger), \<open>Proposer_Prefs\<close>, \<open>Inclusion_Tracker\<close> (verdicts follow the canonical chain).
  \<^item> \<open>pkg/p2p_bidder\<close>: \<open>Bid_Tracker\<close> (refines the history of bids), \<open>Bid_Scheduler\<close> and \<open>Bid_Service\<close> (when and how much is bid, silence after the slot closed, registration state).
  \<^item> \<open>pkg/lifecycle\<close>: \<open>Deposit_Queue\<close> (simulation of the deposit queue, queue fees), \<open>Lifecycle\<close> (every transaction is justified by the state that was read).
  \<^item> \<open>pkg/slot_results\<close>: \<open>Slot_Records\<close>, \<open>Slot_Artifacts\<close>, \<open>Slot_Results\<close> (history kept, attempts counted, the final state delivered), \<open>Slot_Migration\<close> (no record lost).
  \<^item> \<open>pkg/builderapi\<close>: \<open>Api_Epbs\<close> and \<open>Api_Legacy\<close>, the two dialects: what must hold when a bid or header is served, what each handler may change, unblinding, verified registrations.

  \<^bold>\<open>Bounds and loops.\<close>  Loops over lists are structural; the committee selection and the walk along parent roots are \<open>partial_function\<close>s, so that not ending is \<open>None\<close>, and
  where the code relies on them ending that is proved.  The eviction loop of the payload cache is one as well and is total for every order of the keys.  The two trimming loops over
  a map with a fixed cap (\<open>trim_won\<close>, \<open>trim_lastBids\<close>) run with the size of the map as fuel, and each round removes an entry.

  \<^bold>\<open>Not modelled.\<close>  The web interface and its generated documentation, the HTTP and JSON-RPC clients, the event stream's connections, the wallet, key derivation, generated SSZ code, database
  connection and migrations, validator names, the jq engine, flags and wiring: they are input and output, generated, or third-party code called through one function, and appear as
  arguments and logs.  Log lines, metrics and texts for display are left out everywhere.
\<close>

end
